(* ===== verification/Prelude.thy ===== *)
theory Prelude
  imports Complex_Main
begin

section \<open>Prelude: numbers, errors, rows, loops and reachable states\<close>

text \<open>
  What every component of the model shares.

  \<^item> Numbers. A TypeScript \<open>number\<close> and a \<open>Prisma.Decimal\<close> are both a rational
    (\<open>number = rat\<close>): sums, products and comparisons are exact. \<open>Math.round\<close> is
    \<open>js_round\<close> (nearest integer, ties towards plus infinity), and the source's \<open>round2\<close>
    and \<open>round4\<close> keep the \<open>Number.EPSILON\<close> they add before rounding.
  \<^item> Errors. Each exception the services throw is a value of \<open>app_error\<close>; a template
    literal with interpolated values is a list of parts. A function that can throw returns
    \<open>app_error + 'a\<close>.
  \<^item> Rows. A table is the list of its rows in insertion order; ids are drawn from a
    counter.
  \<^item> Dates are milliseconds since the epoch.
  \<^item> A step relation with an invariant is the locale \<open>transition_system\<close>.
\<close>

type_synonym number = rat
type_synonym uid = nat
type_synonym date = int

named_theorems num_defs \<open>definitions of the rounding functions\<close>
named_theorems row_simps \<open>lookups after updates of a table\<close>

subsection \<open>Errors\<close>

datatype msg_part = Str string | Num number

type_synonym message = "msg_part list"

abbreviation msg :: "string \<Rightarrow> message" where
  "msg s \<equiv> [Str s]"

datatype app_error =
    NotFoundException message
  | BadRequestException message
  | ForbiddenException message
  | UnauthorizedException message
  | ServiceUnavailable message
  | ConflictException message
  | TooManyRequests message
  | RangeError message
  | PlainError message
  | RecordNotFound
  | UniqueViolation string
  | WriteConflict

text \<open>A value interpolated between double quotes.\<close>

definition quoted :: "string \<Rightarrow> string" where
  "quoted s = CHR 0x22 # s @ [CHR 0x22]"

lemma succeedsE: "\<not> isl x \<Longrightarrow> (\<And>a b. x = Inr (a, b) \<Longrightarrow> thesis) \<Longrightarrow> thesis"
  by (cases x) auto

text \<open>Running a fallible step over a list, stopping at the first error, as a \<open>for\<close> loop
  whose body can throw does.\<close>

fun fold_res :: "('a \<Rightarrow> 's \<Rightarrow> app_error + 's) \<Rightarrow> 'a list \<Rightarrow> 's \<Rightarrow> app_error + 's" where
  "fold_res f [] s = Inr s"
| "fold_res f (x # xs) s = (case f x s of Inl e \<Rightarrow> Inl e | Inr s' \<Rightarrow> fold_res f xs s')"

lemma fold_res_invariant:
  assumes "\<And>x s s'. x \<in> set xs \<Longrightarrow> P s \<Longrightarrow> f x s = Inr s' \<Longrightarrow> P s'"
    and "P s" and "fold_res f xs s = Inr t"
  shows "P t"
  using assms
proof (induction xs arbitrary: s)
  case Nil
  then show ?case by simp
next
  case (Cons x xs)
  from Cons.prems(3) obtain s' where fs: "f x s = Inr s'" and rest: "fold_res f xs s' = Inr t"
    by (auto split: sum.splits)
  have "P s'" using Cons.prems(1)[of x s s'] Cons.prems(2) fs by simp
  moreover have "\<And>y s s'. y \<in> set xs \<Longrightarrow> P s \<Longrightarrow> f y s = Inr s' \<Longrightarrow> P s'"
    by (meson Cons.prems(1) list.set_intros(2))
  ultimately show ?case
    using Cons.IH rest by blast
qed

lemma fold_res_append:
  "fold_res f (xs @ ys) s = (case fold_res f xs s of Inl e \<Rightarrow> Inl e | Inr s' \<Rightarrow> fold_res f ys s')"
  by (induction xs arbitrary: s) (auto split: sum.splits)

subsection \<open>JavaScript numbers\<close>

text \<open>\<open>Math.round\<close>, \<open>Number.EPSILON\<close>, \<open>Number.isInteger\<close> and \<open>Array.prototype.slice(0, n)\<close>.\<close>

definition js_round :: "number \<Rightarrow> int" where
  "js_round x = \<lfloor>x + 1/2\<rfloor>"

definition js_epsilon :: number where
  "js_epsilon = 1 / 4503599627370496"

definition is_integer :: "number \<Rightarrow> bool" where
  "is_integer x \<longleftrightarrow> of_int \<lfloor>x\<rfloor> = x"

definition slice0 :: "number \<Rightarrow> 'a list \<Rightarrow> 'a list" where
  "slice0 n xs =
     (if 0 \<le> n then take (nat \<lfloor>n\<rfloor>) xs
      else take (nat (int (length xs) - \<lfloor>-n\<rfloor>)) xs)"

definition round_at :: "number \<Rightarrow> number \<Rightarrow> number" where
  "round_at m n = of_int (js_round ((n + js_epsilon) * m)) / m"

definition round2 :: "number \<Rightarrow> number" where
  "round2 n = round_at 100 n"

definition round4 :: "number \<Rightarrow> number" where
  "round4 n = round_at 10000 n"

declare js_round_def [num_defs] js_epsilon_def [num_defs]
declare round_at_def [num_defs] round2_def [num_defs] round4_def [num_defs]

text \<open>The values a \<open>Decimal\<close> column of the given scale can hold: multiples of \<open>1/m\<close>.\<close>

definition on_grid :: "number \<Rightarrow> number \<Rightarrow> bool" where
  "on_grid m x \<longleftrightarrow> is_integer (x * m)"

lemma is_integer_iff: "is_integer x \<longleftrightarrow> (\<exists>k. x = of_int k)"
  unfolding is_integer_def by (metis floor_of_int)

lemma on_gridE:
  assumes "on_grid m x" "0 < m"
  obtains k where "x = of_int k / m"
  using assms by (force simp: on_grid_def is_integer_iff field_simps)

lemma on_grid_of_int [simp]: "0 < m \<Longrightarrow> on_grid m (of_int k / m)"
  by (auto simp: on_grid_def is_integer_iff)

lemma on_grid_zero [simp]: "on_grid m 0"
  unfolding on_grid_def is_integer_iff by (rule exI [of _ 0]) simp

lemma on_grid_add [intro]: "on_grid m x \<Longrightarrow> on_grid m y \<Longrightarrow> on_grid m (x + y)"
  unfolding on_grid_def is_integer_iff by (metis distrib_right of_int_add)

lemma on_grid_diff [intro]: "on_grid m x \<Longrightarrow> on_grid m y \<Longrightarrow> on_grid m (x - y)"
  unfolding on_grid_def is_integer_iff by (metis left_diff_distrib of_int_diff)

lemma on_grid_minus [intro]: "on_grid m x \<Longrightarrow> on_grid m (- x)"
  using on_grid_diff [of m 0 x] by simp

lemma on_grid_min [intro]: "on_grid m x \<Longrightarrow> on_grid m y \<Longrightarrow> on_grid m (min x y)"
  by (simp add: min_def)

lemma on_grid_sum_list: "(\<And>x. x \<in> set xs \<Longrightarrow> on_grid m x) \<Longrightarrow> on_grid m (sum_list xs)"
  by (induction xs) auto

text \<open>Rounding moves a value by at most half a unit (plus the epsilon), is monotone, and is the
  identity on the values a column of that scale can hold.\<close>

lemma round_at_upper: "0 < m \<Longrightarrow> round_at m n \<le> n + js_epsilon + 1 / (2 * m)"
  using of_int_floor_le [of "(n + js_epsilon) * m + 1/2"]
  by (simp add: round_at_def js_round_def field_simps)

lemma round_at_lower: "0 < m \<Longrightarrow> n - 1 / (2 * m) < round_at m n"
proof -
  assume m: "0 < m"
  have "(n + js_epsilon) * m + 1/2 - 1 < of_int \<lfloor>(n + js_epsilon) * m + 1/2\<rfloor>"
    using floor_correct [of "(n + js_epsilon) * m + 1/2"] by linarith
  moreover have "n * m < (n + js_epsilon) * m"
    using m by (simp add: js_epsilon_def)
  ultimately have "n * m - 1/2 < of_int \<lfloor>(n + js_epsilon) * m + 1/2\<rfloor>" by linarith
  then have "(n * m - 1/2) / m < of_int \<lfloor>(n + js_epsilon) * m + 1/2\<rfloor> / m"
    using m by (rule divide_strict_right_mono)
  moreover have "(n * m - 1/2) / m = n - 1 / (2 * m)"
    using m by (simp add: field_simps)
  ultimately show ?thesis by (simp add: round_at_def js_round_def)
qed

lemma round_at_mono: "0 < m \<Longrightarrow> x \<le> y \<Longrightarrow> round_at m x \<le> round_at m y"
  by (simp add: round_at_def js_round_def divide_right_mono floor_mono)

lemma round_at_grid:
  assumes "on_grid m x" "0 < m" "m < 1000000"
  shows "round_at m x = x"
proof -
  from assms obtain k where k: "x = of_int k / m" by (auto elim: on_gridE)
  have "\<lfloor>(of_int k / m + js_epsilon) * m + 1/2\<rfloor> = k"
    using assms(2,3) by (intro floor_unique) (simp_all add: field_simps js_epsilon_def)
  with k show ?thesis by (simp add: round_at_def js_round_def)
qed

lemma on_grid_round_at [simp]: "0 < m \<Longrightarrow> on_grid m (round_at m x)"
  by (simp add: round_at_def)

lemma round_at_nonneg: "0 < m \<Longrightarrow> 0 \<le> x \<Longrightarrow> 0 \<le> round_at m x"
  by (simp add: round_at_def js_round_def js_epsilon_def)

lemma round2_grid [simp]: "on_grid 100 x \<Longrightarrow> round2 x = x"
  by (simp add: round2_def round_at_grid)

lemma round4_grid [simp]: "on_grid 10000 x \<Longrightarrow> round4 x = x"
  by (simp add: round4_def round_at_grid)

lemma on_grid_round2 [simp]: "on_grid 100 (round2 x)"
  by (simp add: round2_def)

lemma on_grid_round4 [simp]: "on_grid 10000 (round4 x)"
  by (simp add: round4_def)

lemma round2_zero [simp]: "round2 0 = 0"
  by simp

lemma round4_zero [simp]: "round4 0 = 0"
  by simp

lemma round2_mono: "x \<le> y \<Longrightarrow> round2 x \<le> round2 y"
  by (simp add: round2_def round_at_mono)

lemma round4_mono: "x \<le> y \<Longrightarrow> round4 x \<le> round4 y"
  by (simp add: round4_def round_at_mono)

lemma round2_nonneg: "0 \<le> x \<Longrightarrow> 0 \<le> round2 x"
  by (simp add: round2_def round_at_nonneg)

subsection \<open>Array.prototype.sort\<close>

text \<open>The stable sort of an array by a comparator; \<open>cmp a b \<le> 0\<close> keeps \<open>a\<close> before \<open>b\<close>.\<close>

fun insert_by :: "('a \<Rightarrow> 'a \<Rightarrow> int) \<Rightarrow> 'a \<Rightarrow> 'a list \<Rightarrow> 'a list" where
  "insert_by cmp x [] = [x]"
| "insert_by cmp x (y # ys) = (if cmp x y \<le> 0 then x # y # ys else y # insert_by cmp x ys)"

fun sort_by :: "('a \<Rightarrow> 'a \<Rightarrow> int) \<Rightarrow> 'a list \<Rightarrow> 'a list" where
  "sort_by cmp [] = []"
| "sort_by cmp (x # xs) = insert_by cmp x (sort_by cmp xs)"

lemma insert_by_key:
  assumes "\<And>a b. cmp a b \<le> 0 \<longleftrightarrow> key a \<le> key b"
  shows "insert_by cmp x xs = insort_key key x xs"
  by (induction xs) (simp_all add: assms)

lemma sort_by_key:
  assumes "\<And>a b. cmp a b \<le> 0 \<longleftrightarrow> key a \<le> (key b :: 'k :: linorder)"
  shows "sort_by cmp xs = sort_key key xs"
proof (induction xs)
  case (Cons x xs)
  have "insert_by cmp x (sort_key key xs) = insort_key key x (sort_key key xs)"
    by (rule insert_by_key) (rule assms)
  with Cons.IH show ?case by (simp add: sort_key_def)
qed simp

lemma sort_key_sorted: "sorted (map f xs) \<Longrightarrow> sort_key f xs = (xs :: 'a list)"
proof (induction xs)
  case (Cons x xs)
  then have "sort_key f xs = xs" "\<forall>y \<in> set xs. f x \<le> f y" by auto
  then show ?case by (simp add: insort_is_Cons)
qed simp

subsection \<open>Tables\<close>

text \<open>\<open>findFirst\<close>, \<open>update ... where\<close>, \<open>upsert\<close> on a unique key.\<close>

definition find_row :: "('r \<Rightarrow> bool) \<Rightarrow> 'r list \<Rightarrow> 'r option" where
  "find_row p rows = find p rows"

definition update_rows :: "('r \<Rightarrow> bool) \<Rightarrow> ('r \<Rightarrow> 'r) \<Rightarrow> 'r list \<Rightarrow> 'r list" where
  "update_rows p f rows = map (\<lambda>r. if p r then f r else r) rows"

definition upsert_row :: "('r \<Rightarrow> bool) \<Rightarrow> 'r \<Rightarrow> ('r \<Rightarrow> 'r) \<Rightarrow> 'r list \<Rightarrow> 'r list" where
  "upsert_row p new f rows =
     (if \<exists>r \<in> set rows. p r then update_rows p f rows else rows @ [new])"

lemma find_row_Nil [row_simps]: "find_row p [] = None"
  by (simp add: find_row_def)

lemma find_row_Cons [row_simps]:
  "find_row p (r # rows) = (if p r then Some r else find_row p rows)"
  by (simp add: find_row_def)

lemma find_row_None: "find_row p rows = None \<longleftrightarrow> (\<forall>r \<in> set rows. \<not> p r)"
  by (induction rows) (simp_all add: row_simps)

lemma find_row_SomeD: "find_row p rows = Some r \<Longrightarrow> p r \<and> r \<in> set rows"
  by (induction rows) (auto simp: row_simps split: if_splits)

lemma find_row_key:
  "distinct (map key rows) \<Longrightarrow> r \<in> set rows \<Longrightarrow> key r = k \<Longrightarrow> find_row (\<lambda>x. key x = k) rows = Some r"
  by (induction rows) (auto simp: row_simps)

lemma find_row_append:
  "find_row p (xs @ ys) = (case find_row p xs of None \<Rightarrow> find_row p ys | Some r \<Rightarrow> Some r)"
  by (induction xs) (simp_all add: row_simps)

lemma find_row_cong: "(\<And>r. r \<in> set rows \<Longrightarrow> p r = q r) \<Longrightarrow> find_row p rows = find_row q rows"
  by (induction rows) (simp_all add: row_simps)

lemma length_update_rows [simp]: "length (update_rows p f rows) = length rows"
  by (simp add: update_rows_def)

lemma map_update_rows:
  "(\<And>r. p r \<Longrightarrow> g (f r) = g r) \<Longrightarrow> map g (update_rows p f rows) = map g rows"
  by (simp add: update_rows_def)

lemma all_update_rows:
  "(\<forall>r \<in> set (update_rows p f rows). q r) \<longleftrightarrow> (\<forall>r \<in> set rows. q (if p r then f r else r))"
  unfolding update_rows_def by (induction rows) simp_all

text \<open>A lookup on one key after an update on the same or another key: \<open>f\<close> keeps the key.\<close>

lemma find_row_update:
  assumes "\<And>r. key (f r) = key r"
  shows "find_row (\<lambda>r. key r = k) (update_rows (\<lambda>r. key r = k') f rows) =
     (if k = k' then map_option f (find_row (\<lambda>r. key r = k) rows)
      else find_row (\<lambda>r. key r = k) rows)"
  by (induction rows) (auto simp: update_rows_def row_simps assms)

lemma find_row_upsert:
  assumes "\<And>r. key (f r) = key r" and "key new = k'"
  shows "find_row (\<lambda>r. key r = k) (upsert_row (\<lambda>r. key r = k') new f rows) =
     (if k = k' then Some (case find_row (\<lambda>r. key r = k) rows of None \<Rightarrow> new | Some r \<Rightarrow> f r)
      else find_row (\<lambda>r. key r = k) rows)"
proof (cases "find_row (\<lambda>r. key r = k') rows")
  case None
  then have "\<not> (\<exists>r \<in> set rows. key r = k')" by (simp add: find_row_None)
  with None show ?thesis
    using assms(2) by (auto simp: upsert_row_def find_row_append row_simps split: option.splits)
next
  case (Some r)
  then have "\<exists>r \<in> set rows. key r = k'" by (auto dest: find_row_SomeD)
  with Some show ?thesis
    using find_row_update [of key f k k' rows] assms(1) by (auto simp: upsert_row_def)
qed

lemma distinct_keys_upsert:
  assumes "\<And>r. key (f r) = key r" and "key new = k" and "distinct (map key rows)"
  shows "distinct (map key (upsert_row (\<lambda>r. key r = k) new f rows))"
  using assms map_update_rows [of "\<lambda>r. key r = k" key f rows] by (auto simp: upsert_row_def)

text \<open>How one key's upsert changes the sum of a column over the table.\<close>

lemma sum_update_rows:
  fixes val :: "'r \<Rightarrow> 'v :: comm_monoid_add"
  assumes "distinct (map key rows)" and "find_row (\<lambda>r. key r = k) rows = Some r"
    and "val (f r) = val r + d"
  shows "sum_list (map val (update_rows (\<lambda>r. key r = k) f rows)) = sum_list (map val rows) + d"
  using assms
proof (induction rows)
  case (Cons a rows)
  show ?case
  proof (cases "key a = k")
    case True
    have "update_rows (\<lambda>r. key r = k) f rows = rows"
      using Cons.prems(1) True by (induction rows) (auto simp: update_rows_def)
    with True Cons.prems show ?thesis
      by (simp add: update_rows_def row_simps ac_simps)
  next
    case False
    with Cons show ?thesis by (simp add: update_rows_def row_simps ac_simps)
  qed
qed (simp add: row_simps)

lemma sum_upsert_row:
  fixes val :: "'r \<Rightarrow> 'v :: comm_monoid_add"
  assumes "distinct (map key rows)"
    and "\<And>r. find_row (\<lambda>r. key r = k) rows = Some r \<Longrightarrow> val (f r) = val r + d"
    and "val new = d"
  shows "sum_list (map val (upsert_row (\<lambda>r. key r = k) new f rows)) = sum_list (map val rows) + d"
proof (cases "find_row (\<lambda>r. key r = k) rows")
  case None
  then have "\<not> (\<exists>r \<in> set rows. key r = k)" by (simp add: find_row_None)
  then show ?thesis by (simp add: upsert_row_def assms(3))
next
  case (Some r)
  then have "\<exists>r \<in> set rows. key r = k" by (auto dest: find_row_SomeD)
  then show ?thesis
    using sum_update_rows [of key rows k r val f d, OF assms(1) Some assms(2) [OF Some]]
    by (simp add: upsert_row_def)
qed

text \<open>Sums over two lists compared position by position.\<close>

lemma sum_list_shrinks:
  fixes f :: "'a \<Rightarrow> nat"
  assumes "list_all2 (\<lambda>x y. g y \<le> f x) xs ys"
  shows "sum_list (map g ys) \<le> sum_list (map f xs)"
  using assms by (induction rule: list_all2_induct) simp_all

lemma sum_list_decreases:
  fixes f :: "'a \<Rightarrow> nat"
  assumes "list_all2 (\<lambda>x y. g y \<le> f x) xs ys" and "\<exists>n < length xs. g (ys ! n) < f (xs ! n)"
  shows "sum_list (map g ys) < sum_list (map f xs)"
  using assms
proof (induction rule: list_all2_induct)
  case (Cons x xs y ys)
  have le: "sum_list (map g ys) \<le> sum_list (map f xs)" using Cons.hyps(2) by (rule sum_list_shrinks)
  from Cons.prems obtain n where n: "n < length (x # xs)" "g ((y # ys) ! n) < f ((x # xs) ! n)" by blast
  show ?case
  proof (cases n)
    case 0
    then show ?thesis using n le by simp
  next
    case (Suc m)
    then show ?thesis using n Cons.IH Cons.hyps(1) by fastforce
  qed
qed simp

lemma sum_list_partition:
  fixes f :: "'r \<Rightarrow> 'v :: comm_monoid_add"
  shows "sum_list (map f xs) = sum_list (map f (filter p xs)) + sum_list (map f (filter (\<lambda>x. \<not> p x) xs))"
  by (induction xs) (simp_all add: ac_simps)

text \<open>Cursor pagination: \<open>take\<close>, and \<open>skip: 1, cursor: \<dots>\<close> when a cursor is given.\<close>

definition page :: "nat \<Rightarrow> ('r \<Rightarrow> uid) \<Rightarrow> uid option \<Rightarrow> 'r list \<Rightarrow> 'r list" where
  "page n ident cursor rows =
     take n (case cursor of None \<Rightarrow> rows
             | Some c \<Rightarrow> drop 1 (dropWhile (\<lambda>r. ident r \<noteq> c) rows))"

subsection \<open>Truthiness\<close>

text \<open>An optional string used as a condition: \<open>undefined\<close>, \<open>null\<close> and the empty string are falsy.\<close>

definition truthy :: "string option \<Rightarrow> bool" where
  "truthy s = (case s of None \<Rightarrow> False | Some t \<Rightarrow> t \<noteq> [])"

subsection \<open>Step relations\<close>

text \<open>A component as a transition system: every reachable state satisfies an invariant that
  holds at the start and that every step keeps.\<close>

locale transition_system =
  fixes init :: "'s \<Rightarrow> bool"
    and step :: "'s \<Rightarrow> 's \<Rightarrow> bool"
    and inv :: "'s \<Rightarrow> bool"
  assumes inv_init: "init s \<Longrightarrow> inv s"
    and inv_step: "inv s \<Longrightarrow> step s t \<Longrightarrow> inv t"
begin

lemma inv_rtranclp: "step\<^sup>*\<^sup>* s t \<Longrightarrow> inv s \<Longrightarrow> inv t"
  by (induction rule: rtranclp_induct) (auto intro: inv_step)

lemma inv_reachable: "init s \<Longrightarrow> step\<^sup>*\<^sup>* s t \<Longrightarrow> inv t"
  using inv_rtranclp inv_init by blast

end

end
