(* ===== verification/Costing.thy ===== *)
theory Costing
  imports Prelude "HOL-Library.Product_Lexorder" "HOL-Library.Multiset"
begin

section \<open>Inventory costing, lots and serial units\<close>

text \<open>
  The pure functions of \<open>apps/api/src/materials\<close> that decide what a stock movement consumes:
  \<open>inventory-costing.ts\<close> (moving average, FIFO cost layers), \<open>lot-tracking.ts\<close> (first expiry
  first) and \<open>serial-units.ts\<close>. FIFO layers and lots are consumed by the same greedy loop; the
  locale \<open>greedy_consumer\<close> states that contract, and both loops are interpretations of it.
\<close>

subsection \<open>Moving average\<close>

definition calculateWeightedAverageCost ::
    "number \<Rightarrow> number option \<Rightarrow> number \<Rightarrow> number \<Rightarrow> number" where
  "calculateWeightedAverageCost currentQuantity currentAverageCost receiptQuantity receiptUnitCost =
     (let priorValue = (if currentQuantity > 0
                        then currentQuantity * (case currentAverageCost of None \<Rightarrow> 0 | Some c \<Rightarrow> c)
                        else 0);
          quantityAfter = max currentQuantity 0 + receiptQuantity
      in if quantityAfter \<le> 0 then receiptUnitCost
         else round4 ((priorValue + receiptQuantity * receiptUnitCost) / quantityAfter))"

subsection \<open>FIFO layers\<close>

record cost_layer =
  cl_id :: uid
  cl_remainingQuantity :: number
  cl_unitCost :: number

record fifo_result =
  fr_totalCost :: number
  fr_consumedQuantity :: number
  fr_shortfallQuantity :: number
  fr_updatedLayers :: "(uid \<times> number) list"

text \<open>The body of the loop: \<open>remaining\<close>, \<open>totalCost\<close> and \<open>updatedLayers\<close> are its state.\<close>

fun fifo_loop :: "cost_layer list \<Rightarrow> number \<Rightarrow> number \<Rightarrow> (uid \<times> number) list
    \<Rightarrow> number \<times> number \<times> (uid \<times> number) list" where
  "fifo_loop [] remaining totalCost updated = (remaining, totalCost, updated)"
| "fifo_loop (layer # layers) remaining totalCost updated =
     (if remaining \<le> 0 then (remaining, totalCost, updated)
      else let take = min (cl_remainingQuantity layer) remaining
           in if take \<le> 0 then fifo_loop layers remaining totalCost updated
              else fifo_loop layers (remaining - take) (totalCost + take * cl_unitCost layer)
                     (updated @ [(cl_id layer, round4 (cl_remainingQuantity layer - take))]))"

definition calculateFifoConsumption :: "cost_layer list \<Rightarrow> number \<Rightarrow> fifo_result" where
  "calculateFifoConsumption layers consumeQuantity =
     (case fifo_loop layers consumeQuantity 0 [] of
        (remaining, totalCost, updated) \<Rightarrow>
          \<lparr>fr_totalCost = round4 totalCost,
           fr_consumedQuantity = round4 (consumeQuantity - remaining),
           fr_shortfallQuantity = round4 (max remaining 0),
           fr_updatedLayers = updated\<rparr>)"

subsection \<open>Lots, first expiry first\<close>

record lot_entry =
  le_id :: uid
  le_remainingQuantity :: number

record updated_lot =
  ul_id :: uid
  ul_taken :: number
  ul_remainingQuantity :: number

record lot_result =
  lr_consumedQuantity :: number
  lr_shortfallQuantity :: number
  lr_updatedLots :: "updated_lot list"

fun lot_loop :: "lot_entry list \<Rightarrow> number \<Rightarrow> updated_lot list \<Rightarrow> number \<times> updated_lot list" where
  "lot_loop [] remaining updated = (remaining, updated)"
| "lot_loop (lot # lots) remaining updated =
     (if remaining \<le> 0 then (remaining, updated)
      else let take = min (le_remainingQuantity lot) remaining
           in if take \<le> 0 then lot_loop lots remaining updated
              else lot_loop lots (remaining - take)
                     (updated @ [\<lparr>ul_id = le_id lot, ul_taken = round4 take,
                                  ul_remainingQuantity = round4 (le_remainingQuantity lot - take)\<rparr>]))"

definition consumeLotsByExpiry :: "lot_entry list \<Rightarrow> number \<Rightarrow> lot_result" where
  "consumeLotsByExpiry lots consumeQuantity =
     (case lot_loop lots consumeQuantity [] of
        (remaining, updated) \<Rightarrow>
          \<lparr>lr_consumedQuantity = round4 (consumeQuantity - remaining),
           lr_shortfallQuantity = round4 (max remaining 0),
           lr_updatedLots = updated\<rparr>)"

text \<open>The comparator of \<open>sortLotsByExpiry\<close>; \<open>d1 - d2 || e1 - e2\<close> falls through on a zero
  difference.\<close>

definition lot_cmp :: "('a \<Rightarrow> date option) \<Rightarrow> ('a \<Rightarrow> date) \<Rightarrow> 'a \<Rightarrow> 'a \<Rightarrow> int" where
  "lot_cmp expiresAt receivedAt a b =
     (case expiresAt a of
        None \<Rightarrow> (case expiresAt b of
                    None \<Rightarrow> receivedAt a - receivedAt b
                  | Some eb \<Rightarrow> 1)
      | Some ea \<Rightarrow> (case expiresAt b of
                    None \<Rightarrow> - 1
                  | Some eb \<Rightarrow> if ea - eb \<noteq> 0 then ea - eb else receivedAt a - receivedAt b))"

definition sortLotsByExpiry :: "('a \<Rightarrow> date option) \<Rightarrow> ('a \<Rightarrow> date) \<Rightarrow> 'a list \<Rightarrow> 'a list" where
  "sortLotsByExpiry expiresAt receivedAt lots = sort_by (lot_cmp expiresAt receivedAt) lots"

text \<open>The order the comparator stands for: an expiry date that may be absent, absent last.\<close>

datatype expiry = Expires date | NeverExpires

instantiation expiry :: linorder
begin

fun less_eq_expiry :: "expiry \<Rightarrow> expiry \<Rightarrow> bool" where
  "less_eq_expiry (Expires a) (Expires b) = (a \<le> b)"
| "less_eq_expiry (Expires a) NeverExpires = True"
| "less_eq_expiry NeverExpires (Expires b) = False"
| "less_eq_expiry NeverExpires NeverExpires = True"

definition less_expiry :: "expiry \<Rightarrow> expiry \<Rightarrow> bool" where
  "less_expiry a b \<longleftrightarrow> a \<le> b \<and> \<not> b \<le> a"

instance
proof
  fix x y z :: expiry
  show "x < y \<longleftrightarrow> x \<le> y \<and> \<not> y \<le> x" by (rule less_expiry_def)
  show "x \<le> x" by (cases x) simp_all
  show "x \<le> y \<Longrightarrow> y \<le> z \<Longrightarrow> x \<le> z" by (cases x; cases y; cases z) simp_all
  show "x \<le> y \<Longrightarrow> y \<le> x \<Longrightarrow> x = y" by (cases x; cases y) simp_all
  show "x \<le> y \<or> y \<le> x" by (cases x; cases y) auto
qed

end

definition expiry_of :: "date option \<Rightarrow> expiry" where
  "expiry_of d = (case d of None \<Rightarrow> NeverExpires | Some e \<Rightarrow> Expires e)"

lemma lot_cmp_key:
  "lot_cmp e r a b \<le> 0 \<longleftrightarrow> (expiry_of (e a), r a) \<le> (expiry_of (e b), r b)"
  by (auto simp: lot_cmp_def expiry_of_def less_expiry_def split: option.splits)

lemma sortLotsByExpiry_key:
  "sortLotsByExpiry e r lots = sort_key (\<lambda>l. (expiry_of (e l), r l)) lots"
  unfolding sortLotsByExpiry_def by (rule sort_by_key) (rule lot_cmp_key)

subsection \<open>Serial units\<close>

definition selectUnitsForConsumption :: "uid list \<Rightarrow> number \<Rightarrow> app_error + (uid list \<times> number)" where
  "selectUnitsForConsumption candidates quantity =
     (if \<not> is_integer quantity
      then Inl (RangeError (msg ''quantity must be a whole number - a serialized unit can't be partially consumed''))
      else let consumedUnitIds = slice0 quantity candidates;
               shortfallQuantity = max (quantity - of_nat (length consumedUnitIds)) 0
           in Inr (consumedUnitIds, shortfallQuantity))"

subsection \<open>The greedy loop both consumptions share\<close>

text \<open>
  An entry offers \<open>qty\<close>; \<open>run entries r\<close> is what is left of the request \<open>r\<close> after walking the
  entries in order, with the updates made. The laws are the four ways through the loop body.
\<close>

locale greedy_consumer =
  fixes qty :: "'a \<Rightarrow> number"
    and upd :: "'a \<Rightarrow> number \<Rightarrow> 'u"
    and run :: "'a list \<Rightarrow> number \<Rightarrow> number \<times> 'u list"
  assumes run_empty: "run [] r = (r, [])"
    and run_done: "r \<le> 0 \<Longrightarrow> run (x # xs) r = (r, [])"
    and run_skip: "0 < r \<Longrightarrow> qty x \<le> 0 \<Longrightarrow> run (x # xs) r = run xs r"
    and run_take: "0 < r \<Longrightarrow> 0 < qty x \<Longrightarrow> run (x # xs) r =
      (let k = min (qty x) r in (fst (run xs (r - k)), upd x k # snd (run xs (r - k))))"
begin

lemma run_nonpos: "r \<le> 0 \<Longrightarrow> run xs r = (r, [])"
  by (cases xs) (auto simp: run_empty run_done)

text \<open>What is left is the request less everything on offer, cut off at zero.\<close>

lemma left_over: "0 \<le> r \<Longrightarrow>
  fst (run xs r) = max 0 (r - (\<Sum>x \<leftarrow> xs. max 0 (qty x)))"
proof (induction xs arbitrary: r)
  case Nil
  then show ?case by (simp add: run_empty)
next
  case (Cons x xs)
  have nn: "0 \<le> (\<Sum>x \<leftarrow> xs. max 0 (qty x))" by (rule sum_list_nonneg) auto
  consider "r = 0" | "0 < r" "qty x \<le> 0" | "0 < r" "0 < qty x" using Cons.prems by linarith
  then show ?case
  proof cases
    case 1
    then show ?thesis using nn by (simp add: run_done)
  next
    case 2
    then show ?thesis using Cons.IH [of r] by (simp add: run_skip max_def)
  next
    case 3
    then have "0 \<le> r - min (qty x) r" by simp
    then have "fst (run (x # xs) r) = max 0 (r - min (qty x) r - (\<Sum>x \<leftarrow> xs. max 0 (qty x)))"
      using 3 Cons.IH [of "r - min (qty x) r"] by (simp add: run_take Let_def)
    with 3 nn show ?thesis by (simp add: min_def max_def)
  qed
qed

lemma left_over_nonneg: "0 \<le> r \<Longrightarrow> 0 \<le> fst (run xs r)"
  by (simp add: left_over)

lemma offered_nonneg: "0 \<le> (\<Sum>x \<leftarrow> xs. max 0 (qty x))"
  by (rule sum_list_nonneg) auto

lemma left_over_le: "0 \<le> r \<Longrightarrow> fst (run xs r) \<le> r"
  using offered_nonneg [of xs] by (simp add: left_over)

text \<open>
  The amounts taken stay in any set of quantities \<open>G\<close> closed under minimum and difference that
  holds the entries and the request (here: the multiples of a column's scale). Every update comes
  from an entry of the list, takes a positive amount in \<open>G\<close>, no more than the entry holds and no more than
  was asked for; and the amounts taken add up to what left the request.
\<close>

lemma updates_from_entries:
  assumes "\<And>a b. G a \<Longrightarrow> G b \<Longrightarrow> G (min a b)" and "\<And>a b. G a \<Longrightarrow> G b \<Longrightarrow> G (a - b)"
    and "\<And>x. x \<in> set xs \<Longrightarrow> G (qty x)" and "G r" and "0 \<le> r"
    and "\<And>x k. G k \<Longrightarrow> t (upd x k) = k"
  shows "(\<forall>u \<in> set (snd (run xs r)). \<exists>x k. x \<in> set xs \<and> u = upd x k \<and> G k \<and> 0 < k \<and> k \<le> qty x \<and> k \<le> r) \<and>
     sum_list (map t (snd (run xs r))) = r - fst (run xs r)"
  using assms(3,4,5)
proof (induction xs arbitrary: r)
  case Nil
  then show ?case by (simp add: run_empty)
next
  case (Cons x xs)
  consider "r = 0" | "0 < r" "qty x \<le> 0" | "0 < r" "0 < qty x" using Cons.prems by linarith
  then show ?case
  proof cases
    case 1
    then show ?thesis by (simp add: run_done)
  next
    case 2
    with Cons.IH [of r] Cons.prems
    have "(\<forall>u \<in> set (snd (run (x # xs) r)). \<exists>y k. y \<in> set xs \<and> u = upd y k \<and> G k \<and> 0 < k \<and> k \<le> qty y \<and> k \<le> r) \<and>
       sum_list (map t (snd (run (x # xs) r))) = r - fst (run (x # xs) r)"
      by (simp add: run_skip)
    then show ?thesis by (meson list.set_intros(2))
  next
    case 3
    let ?k = "min (qty x) r"
    have k: "G ?k" "G (r - ?k)" "0 \<le> r - ?k" "0 < ?k"
      using Cons.prems assms(1,2) 3 by auto
    have IH: "(\<forall>u \<in> set (snd (run xs (r - ?k))). \<exists>y k. y \<in> set xs \<and> u = upd y k \<and> G k \<and> 0 < k \<and> k \<le> qty y \<and> k \<le> r - ?k) \<and>
       sum_list (map t (snd (run xs (r - ?k)))) = r - ?k - fst (run xs (r - ?k))"
      using Cons.IH [of "r - ?k"] Cons.prems(1) k by simp
    have "\<exists>y k'. y \<in> set (x # xs) \<and> u = upd y k' \<and> G k' \<and> 0 < k' \<and> k' \<le> qty y \<and> k' \<le> r"
      if u: "u \<in> set (snd (run (x # xs) r))" for u
    proof -
      from u 3 consider "u = upd x ?k" | "u \<in> set (snd (run xs (r - ?k)))"
        by (auto simp: run_take Let_def)
      then show ?thesis
      proof cases
        case 1
        with k show ?thesis by (intro exI [of _ x] exI [of _ ?k]) simp
      next
        case 2
        with IH obtain y k' where "y \<in> set xs" "u = upd y k'" "G k'" "0 < k'" "k' \<le> qty y" "k' \<le> r - ?k"
          by blast
        with k show ?thesis by (intro exI [of _ y] exI [of _ k']) auto
      qed
    qed
    moreover have "sum_list (map t (snd (run (x # xs) r))) = r - fst (run (x # xs) r)"
      using IH 3 k assms(6) by (simp add: run_take Let_def)
    ultimately show ?thesis by blast
  qed
qed

lemma update_source:
  assumes "u \<in> set (snd (run xs r))"
  shows "\<exists>x k. x \<in> set xs \<and> u = upd x k \<and> 0 < k \<and> k \<le> qty x"
  using assms
proof (induction xs arbitrary: r)
  case Nil
  then show ?case by (simp add: run_empty)
next
  case (Cons x xs)
  consider "r \<le> 0" | "0 < r" "qty x \<le> 0" | "0 < r" "0 < qty x" by linarith
  then show ?case
  proof cases
    case 3
    then have "0 < min (qty x) r" "min (qty x) r \<le> qty x" by auto
    moreover have "u = upd x (min (qty x) r) \<or> u \<in> set (snd (run xs (r - min (qty x) r)))"
      using 3 Cons.prems by (simp add: run_take Let_def)
    ultimately show ?thesis using Cons.IH [of "r - min (qty x) r"] by (metis list.set_intros)
  qed (use Cons in \<open>force simp: run_done run_skip\<close>)+
qed

text \<open>The entries are used up in order: an update that leaves something behind is the last one.\<close>

lemma updates_in_order:
  assumes "\<And>x k. ident (upd x k) = name x"
  shows "\<exists>zs. map ident (snd (run xs r)) @ zs = map name (filter (\<lambda>x. 0 < qty x) xs)"
proof (induction xs arbitrary: r)
  case (Cons x xs)
  consider "r \<le> 0" | "0 < r" "qty x \<le> 0" | "0 < r" "0 < qty x" by linarith
  then show ?case
  proof cases
    case 2
    with Cons.IH [of r] show ?thesis by (simp add: run_skip)
  next
    case 3
    with Cons.IH [of "r - min (qty x) r"] show ?thesis by (simp add: run_take Let_def assms)
  qed (simp add: run_done)
qed (simp add: run_empty)

lemma all_but_last_exhausted:
  assumes "u \<in> set (butlast (snd (run xs r)))"
  shows "\<exists>x \<in> set xs. u = upd x (qty x)"
  using assms
proof (induction xs arbitrary: r)
  case (Cons x xs)
  consider "r \<le> 0" | "0 < r" "qty x \<le> 0" | "0 < r" "0 < qty x" by linarith
  then show ?case
  proof cases
    case 3
    let ?k = "min (qty x) r"
    let ?rest = "snd (run xs (r - ?k))"
    have run: "snd (run (x # xs) r) = upd x ?k # ?rest" using 3 by (simp add: run_take Let_def)
    show ?thesis
    proof (cases "qty x < r")
      case True
      with Cons.prems run have "u = upd x (qty x) \<or> u \<in> set (butlast ?rest)"
        by (auto split: if_splits)
      with Cons.IH show ?thesis by auto
    next
      case False
      then have "?rest = []" by (simp add: run_nonpos)
      with Cons.prems run show ?thesis by simp
    qed
  qed (use Cons in \<open>auto simp: run_done run_skip\<close>)
qed (simp add: run_empty)

end

subsection \<open>FIFO layers are a greedy consumer\<close>

lemma fifo_loop_take:
  "0 < r \<Longrightarrow> 0 < cl_remainingQuantity l \<Longrightarrow> fifo_loop (l # ls) r c u =
     (let k = min (cl_remainingQuantity l) r
      in fifo_loop ls (r - k) (c + k * cl_unitCost l)
           (u @ [(cl_id l, round4 (cl_remainingQuantity l - k))]))"
  by (simp add: Let_def min_le_iff_disj not_le)

lemma fifo_loop_acc:
  "fifo_loop ls r c u =
     (fst (fifo_loop ls r 0 []), c + fst (snd (fifo_loop ls r 0 [])), u @ snd (snd (fifo_loop ls r 0 [])))"
proof (induction ls arbitrary: r c u)
  case Nil
  then show ?case by simp
next
  case (Cons l ls)
  let ?k = "min (cl_remainingQuantity l) r"
  let ?u = "(cl_id l, round4 (cl_remainingQuantity l - ?k))"
  show ?case
  proof (cases "r \<le> 0 \<or> ?k \<le> 0")
    case True
    then show ?thesis
      using Cons.IH [of r c u] by (auto simp: Let_def)
  next
    case False
    then show ?thesis
      using Cons.IH [of "r - ?k" "c + ?k * cl_unitCost l" "u @ [?u]"]
        Cons.IH [of "r - ?k" "?k * cl_unitCost l" "[?u]"]
      by (simp add: Let_def)
  qed
qed

definition fifo_run :: "cost_layer list \<Rightarrow> number \<Rightarrow> number \<times> (uid \<times> number) list" where
  "fifo_run ls r = (fst (fifo_loop ls r 0 []), snd (snd (fifo_loop ls r 0 [])))"

interpretation fifo: greedy_consumer cl_remainingQuantity
  "\<lambda>l k. (cl_id l, round4 (cl_remainingQuantity l - k))" fifo_run
proof unfold_locales
  fix r :: number and x :: cost_layer and xs
  show "fifo_run [] r = (r, [])" by (simp add: fifo_run_def)
  show "r \<le> 0 \<Longrightarrow> fifo_run (x # xs) r = (r, [])" by (simp add: fifo_run_def)
  show "0 < r \<Longrightarrow> cl_remainingQuantity x \<le> 0 \<Longrightarrow> fifo_run (x # xs) r = fifo_run xs r"
    by (simp add: fifo_run_def Let_def)
  show "0 < r \<Longrightarrow> 0 < cl_remainingQuantity x \<Longrightarrow> fifo_run (x # xs) r =
      (let k = min (cl_remainingQuantity x) r
       in (fst (fifo_run xs (r - k)),
           (cl_id x, round4 (cl_remainingQuantity x - k)) # snd (fifo_run xs (r - k))))"
    using fifo_loop_acc [of xs "r - min (cl_remainingQuantity x) r"
        "min (cl_remainingQuantity x) r * cl_unitCost x"
        "[(cl_id x, round4 (cl_remainingQuantity x - min (cl_remainingQuantity x) r))]"]
    by (simp add: fifo_run_def fifo_loop_take Let_def del: fifo_loop.simps)
qed

lemma calculateFifoConsumption_run:
  "fr_consumedQuantity (calculateFifoConsumption ls q) = round4 (q - fst (fifo_run ls q))"
  "fr_shortfallQuantity (calculateFifoConsumption ls q) = round4 (max (fst (fifo_run ls q)) 0)"
  "fr_updatedLayers (calculateFifoConsumption ls q) = snd (fifo_run ls q)"
  by (simp_all add: calculateFifoConsumption_def fifo_run_def split: prod.split)

subsection \<open>Lots are a greedy consumer\<close>

lemma lot_loop_take:
  "0 < r \<Longrightarrow> 0 < le_remainingQuantity l \<Longrightarrow> lot_loop (l # ls) r u =
     (let k = min (le_remainingQuantity l) r
      in lot_loop ls (r - k) (u @ [\<lparr>ul_id = le_id l, ul_taken = round4 k,
           ul_remainingQuantity = round4 (le_remainingQuantity l - k)\<rparr>]))"
  by (simp add: Let_def min_le_iff_disj not_le)

lemma lot_loop_acc:
  "lot_loop ls r u = (fst (lot_loop ls r []), u @ snd (lot_loop ls r []))"
proof (induction ls arbitrary: r u)
  case Nil
  then show ?case by simp
next
  case (Cons l ls)
  let ?k = "min (le_remainingQuantity l) r"
  let ?u = "\<lparr>ul_id = le_id l, ul_taken = round4 ?k,
              ul_remainingQuantity = round4 (le_remainingQuantity l - ?k)\<rparr>"
  show ?case
  proof (cases "r \<le> 0 \<or> ?k \<le> 0")
    case True
    then show ?thesis using Cons.IH [of r u] by (auto simp: Let_def)
  next
    case False
    then show ?thesis
      using Cons.IH [of "r - ?k" "u @ [?u]"] Cons.IH [of "r - ?k" "[?u]"] by (simp add: Let_def)
  qed
qed

interpretation lots: greedy_consumer le_remainingQuantity
  "\<lambda>l k. \<lparr>ul_id = le_id l, ul_taken = round4 k,
          ul_remainingQuantity = round4 (le_remainingQuantity l - k)\<rparr>"
  "\<lambda>ls r. lot_loop ls r []"
proof unfold_locales
  fix r :: number and x :: lot_entry and xs
  let ?k = "min (le_remainingQuantity x) r"
  let ?u = "\<lparr>ul_id = le_id x, ul_taken = round4 ?k,
              ul_remainingQuantity = round4 (le_remainingQuantity x - ?k)\<rparr>"
  show "0 < r \<Longrightarrow> 0 < le_remainingQuantity x \<Longrightarrow> lot_loop (x # xs) r [] =
      (let k = min (le_remainingQuantity x) r
       in (fst (lot_loop xs (r - k) []),
           \<lparr>ul_id = le_id x, ul_taken = round4 k,
            ul_remainingQuantity = round4 (le_remainingQuantity x - k)\<rparr> # snd (lot_loop xs (r - k) [])))"
    using lot_loop_acc [of xs "r - ?k" "[?u]"]
    by (simp add: lot_loop_take Let_def del: lot_loop.simps)
qed (simp_all add: Let_def)

lemma consumeLotsByExpiry_run:
  "lr_consumedQuantity (consumeLotsByExpiry ls q) = round4 (q - fst (lot_loop ls q []))"
  "lr_shortfallQuantity (consumeLotsByExpiry ls q) = round4 (max (fst (lot_loop ls q [])) 0)"
  "lr_updatedLots (consumeLotsByExpiry ls q) = snd (lot_loop ls q [])"
  by (simp_all add: consumeLotsByExpiry_def split: prod.split)

subsection \<open>Correctness of the consumption\<close>

lemma min_offered: "0 \<le> t \<Longrightarrow> q - max 0 (q - t) = min q (t :: number)"
  by (simp add: min_def max_def)

lemma on_grid_offered:
  assumes "\<And>x. x \<in> set xs \<Longrightarrow> on_grid m (f x)"
  shows "on_grid m (\<Sum>x \<leftarrow> xs. max 0 (f x))"
  using assms by (intro on_grid_sum_list) (auto simp: max_def)

lemma fifo_consumed:
  assumes "\<And>l. l \<in> set layers \<Longrightarrow> on_grid 10000 (cl_remainingQuantity l)"
    and "on_grid 10000 q" and "0 \<le> q"
  shows "fr_consumedQuantity (calculateFifoConsumption layers q) =
           min q (\<Sum>l \<leftarrow> layers. max 0 (cl_remainingQuantity l)) \<and>
         fr_shortfallQuantity (calculateFifoConsumption layers q) =
           q - fr_consumedQuantity (calculateFifoConsumption layers q)"
proof -
  let ?t = "\<Sum>l \<leftarrow> layers. max 0 (cl_remainingQuantity l)"
  have left: "fst (fifo_run layers q) = max 0 (q - ?t)" by (rule fifo.left_over [OF assms(3)])
  have t: "on_grid 10000 ?t" by (rule on_grid_offered) (rule assms(1))
  have left_grid: "on_grid 10000 (max 0 (q - ?t))"
    using t assms(2) by (auto simp: max_def)
  have "q - max 0 (q - ?t) = min q ?t" by (rule min_offered) (rule fifo.offered_nonneg)
  moreover have "on_grid 10000 (min q ?t)" using t assms(2) by auto
  ultimately show ?thesis
    using left_grid by (simp add: calculateFifoConsumption_run left max.commute)
qed

text \<open>What FIFO consumes and what it reports short are exact: it consumes the smaller of the
  request and everything the layers hold, and the shortfall is the rest.\<close>

theorem fifo_consumed_exact:
  assumes "\<And>l. l \<in> set layers \<Longrightarrow> on_grid 10000 (cl_remainingQuantity l)"
    and "on_grid 10000 q" and "0 \<le> q"
  shows "fr_consumedQuantity (calculateFifoConsumption layers q) =
           min q (\<Sum>l \<leftarrow> layers. max 0 (cl_remainingQuantity l)) \<and>
         fr_shortfallQuantity (calculateFifoConsumption layers q) =
           q - fr_consumedQuantity (calculateFifoConsumption layers q)"
  using assms by (rule fifo_consumed)

text \<open>The layers with the updates of a consumption written back.\<close>

definition apply_layer_updates :: "(uid \<times> number) list \<Rightarrow> cost_layer list \<Rightarrow> cost_layer list" where
  "apply_layer_updates us ls =
     map (\<lambda>l. case map_of us (cl_id l) of None \<Rightarrow> l
                | Some q \<Rightarrow> l\<lparr>cl_remainingQuantity := q\<rparr>) ls"

definition layers_value :: "cost_layer list \<Rightarrow> number" where
  "layers_value ls = (\<Sum>l \<leftarrow> ls. cl_remainingQuantity l * cl_unitCost l)"

lemma fifo_run_ids: "u \<in> set (snd (fifo_run ls r)) \<Longrightarrow> fst u \<in> cl_id ` set ls"
  using fifo.update_source [of u ls r] by auto

lemma apply_layer_updates_other:
  "cl_id l \<notin> cl_id ` set ls \<Longrightarrow>
     apply_layer_updates ((cl_id l, q) # us) ls = apply_layer_updates us ls"
  by (auto simp: apply_layer_updates_def rev_image_eqI)

lemma map_of_run_other:
  "i \<notin> cl_id ` set ls \<Longrightarrow> map_of (snd (fifo_run ls r)) i = None"
  using fifo_run_ids by (fastforce simp: map_of_eq_None_iff)

lemma layers_value_conserved:
  assumes "distinct (map cl_id ls)" and "\<And>l. l \<in> set ls \<Longrightarrow> on_grid 10000 (cl_remainingQuantity l)"
    and "on_grid 10000 r"
  shows "layers_value (apply_layer_updates (snd (fifo_run ls r)) ls) +
         fst (snd (fifo_loop ls r 0 [])) = layers_value ls"
  using assms
proof (induction ls arbitrary: r)
  case Nil
  then show ?case by (simp add: apply_layer_updates_def layers_value_def)
next
  case (Cons l ls)
  let ?k = "min (cl_remainingQuantity l) r"
  have new: "cl_id l \<notin> cl_id ` set ls" using Cons.prems(1) by auto
  have head: "apply_layer_updates (snd (fifo_run ls s)) (l # ls) =
      l # apply_layer_updates (snd (fifo_run ls s)) ls" for s
    by (simp add: apply_layer_updates_def map_of_run_other [OF new])
  consider "r \<le> 0" | "0 < r" "cl_remainingQuantity l \<le> 0" | "0 < r" "0 < cl_remainingQuantity l"
    by linarith
  then show ?case
  proof cases
    case 1
    then show ?thesis by (simp add: fifo.run_done apply_layer_updates_def)
  next
    case 2
    then have loop: "fifo_loop (l # ls) r 0 [] = fifo_loop ls r 0 []" by (simp add: Let_def)
    from 2 Cons.IH [of r] Cons.prems show ?thesis
      by (simp add: fifo.run_skip head loop layers_value_def)
  next
    case 3
    have k: "on_grid 10000 ?k" "on_grid 10000 (cl_remainingQuantity l - ?k)"
      using Cons.prems(2) [of l] Cons.prems(3) by auto
    have loop: "fst (snd (fifo_loop (l # ls) r 0 [])) =
        ?k * cl_unitCost l + fst (snd (fifo_loop ls (r - ?k) 0 []))"
      using 3 fifo_loop_acc [of ls "r - ?k" "?k * cl_unitCost l"
          "[(cl_id l, round4 (cl_remainingQuantity l - ?k))]"]
      by (simp add: fifo_loop_take Let_def del: fifo_loop.simps)
    have upd: "apply_layer_updates (snd (fifo_run (l # ls) r)) (l # ls) =
        l\<lparr>cl_remainingQuantity := cl_remainingQuantity l - ?k\<rparr> #
        apply_layer_updates (snd (fifo_run ls (r - ?k))) ls"
      using 3 k new apply_layer_updates_other [of l ls]
      by (simp add: fifo.run_take Let_def apply_layer_updates_def)
    have "on_grid 10000 (r - ?k)" using Cons.prems(3) k(1) by auto
    with Cons.IH [of "r - ?k"] Cons.prems show ?thesis
      by (simp add: loop upd layers_value_def algebra_simps del: fifo_loop.simps)
  qed
qed

text \<open>The run does not look at the unit costs; with unit costs of one it is the quantity that is
  conserved.\<close>

lemma fifo_run_unit: "fifo_run (map (\<lambda>l. l\<lparr>cl_unitCost := 1\<rparr>) ls) r = fifo_run ls r"
proof (induction ls arbitrary: r)
  case (Cons l ls)
  consider "r \<le> 0" | "0 < r" "cl_remainingQuantity l \<le> 0" | "0 < r" "0 < cl_remainingQuantity l"
    by linarith
  then show ?case
    by cases (simp_all add: fifo.run_done fifo.run_skip fifo.run_take Let_def Cons.IH)
qed simp

lemma fifo_loop_unit_cost:
  "(\<And>l. l \<in> set ls \<Longrightarrow> cl_unitCost l = 1) \<Longrightarrow>
     fst (snd (fifo_loop ls r c u)) = c + r - fst (fifo_loop ls r c u)"
  by (induction ls r c u rule: fifo_loop.induct) (simp_all add: Let_def)

definition layers_quantity :: "cost_layer list \<Rightarrow> number" where
  "layers_quantity ls = (\<Sum>l \<leftarrow> ls. cl_remainingQuantity l)"

lemma layers_quantity_conserved:
  assumes "distinct (map cl_id ls)" and "\<And>l. l \<in> set ls \<Longrightarrow> on_grid 10000 (cl_remainingQuantity l)"
    and "on_grid 10000 r"
  shows "layers_quantity (apply_layer_updates (snd (fifo_run ls r)) ls) + (r - fst (fifo_run ls r)) =
         layers_quantity ls"
proof -
  let ?one = "\<lambda>l :: cost_layer. l\<lparr>cl_unitCost := 1\<rparr>"
  have apply_one: "layers_value (apply_layer_updates us (map ?one ls)) = layers_quantity (apply_layer_updates us ls)"
    for us ls
    unfolding layers_value_def layers_quantity_def apply_layer_updates_def
    by (intro arg_cong [of _ _ sum_list]) (auto split: option.split)
  have "layers_value (apply_layer_updates (snd (fifo_run (map ?one ls) r)) (map ?one ls)) +
         fst (snd (fifo_loop (map ?one ls) r 0 [])) = layers_value (map ?one ls)"
    by (rule layers_value_conserved) (use assms in \<open>auto simp: comp_def\<close>)
  moreover have "fst (snd (fifo_loop (map ?one ls) r 0 [])) = r - fst (fifo_run ls r)"
    using fifo_run_unit [of ls r] by (subst fifo_loop_unit_cost) (auto simp: fifo_run_def)
  moreover have "layers_value (map ?one ls) = layers_quantity ls"
    by (simp add: layers_value_def layers_quantity_def comp_def)
  ultimately show ?thesis by (simp add: apply_one fifo_run_unit)
qed

lemma fifo_cost_removed:
  assumes "distinct (map cl_id layers)"
    and "\<And>l. l \<in> set layers \<Longrightarrow> on_grid 10000 (cl_remainingQuantity l)" and "on_grid 10000 q"
  shows "fr_totalCost (calculateFifoConsumption layers q) =
     round4 (layers_value layers -
       layers_value (apply_layer_updates (fr_updatedLayers (calculateFifoConsumption layers q)) layers))"
proof -
  have "fr_totalCost (calculateFifoConsumption layers q) = round4 (fst (snd (fifo_loop layers q 0 [])))"
    by (simp add: calculateFifoConsumption_def split: prod.split)
  then show ?thesis
    using layers_value_conserved [OF assms] unfolding calculateFifoConsumption_run
    by (metis add_diff_cancel_left')
qed

text \<open>FIFO is value-preserving: the cost charged to an issue is exactly the value that leaves the
  cost layers (up to the final rounding of the total to four decimals).\<close>

theorem fifo_cost_is_value_removed:
  assumes "distinct (map cl_id layers)"
    and "\<And>l. l \<in> set layers \<Longrightarrow> on_grid 10000 (cl_remainingQuantity l)" and "on_grid 10000 q"
  shows "fr_totalCost (calculateFifoConsumption layers q) =
     round4 (layers_value layers -
       layers_value (apply_layer_updates (fr_updatedLayers (calculateFifoConsumption layers q)) layers))"
  using assms by (rule fifo_cost_removed)

text \<open>Oldest layers go first: the touched layers are an initial segment of the non-empty layers
  in receipt order, and every touched layer but the last is used up.\<close>

theorem fifo_oldest_first:
  "(\<exists>untouched. map fst (fr_updatedLayers (calculateFifoConsumption layers q)) @ untouched =
      map cl_id (filter (\<lambda>l. 0 < cl_remainingQuantity l) layers)) \<and>
   list_all (\<lambda>u. snd u = 0) (butlast (fr_updatedLayers (calculateFifoConsumption layers q)))"
proof
  show "\<exists>untouched. map fst (fr_updatedLayers (calculateFifoConsumption layers q)) @ untouched =
      map cl_id (filter (\<lambda>l. 0 < cl_remainingQuantity l) layers)"
    unfolding calculateFifoConsumption_run by (rule fifo.updates_in_order) simp
  show "list_all (\<lambda>u. snd u = 0) (butlast (fr_updatedLayers (calculateFifoConsumption layers q)))"
    unfolding calculateFifoConsumption_run list_all_iff
    using fifo.all_but_last_exhausted by fastforce
qed

text \<open>Lots are consumed exactly too: what is taken from the lots adds up to the quantity
  consumed, every lot keeps a non-negative remainder, and what was taken plus what remains is what
  the lot held.\<close>

theorem lots_consumed_exact:
  assumes "\<And>l. l \<in> set lots \<Longrightarrow> on_grid 10000 (le_remainingQuantity l)"
    and "on_grid 10000 q" and "0 \<le> q"
  shows "(\<Sum>u \<leftarrow> lr_updatedLots (consumeLotsByExpiry lots q). ul_taken u) =
           lr_consumedQuantity (consumeLotsByExpiry lots q) \<and>
         lr_consumedQuantity (consumeLotsByExpiry lots q) + lr_shortfallQuantity (consumeLotsByExpiry lots q) = q \<and>
         (\<forall>u \<in> set (lr_updatedLots (consumeLotsByExpiry lots q)). 0 < ul_taken u \<and> 0 \<le> ul_remainingQuantity u \<and>
            (\<exists>l \<in> set lots. ul_id u = le_id l \<and> ul_taken u + ul_remainingQuantity u = le_remainingQuantity l))"
proof -
  let ?res = "consumeLotsByExpiry lots q" and ?left = "fst (lot_loop lots q [])"
  let ?t = "\<Sum>l \<leftarrow> lots. max 0 (le_remainingQuantity l)"
  have "?left = max 0 (q - ?t)" by (rule lots.left_over [OF assms(3)])
  moreover have "on_grid 10000 ?t" by (rule on_grid_offered) (rule assms(1))
  ultimately have left: "on_grid 10000 ?left" "0 \<le> ?left"
    using assms(2) by (auto simp: max_def)
  have all: "(\<forall>u \<in> set (snd (lot_loop lots q [])). \<exists>l k. l \<in> set lots \<and>
        u = \<lparr>ul_id = le_id l, ul_taken = round4 k, ul_remainingQuantity = round4 (le_remainingQuantity l - k)\<rparr> \<and>
        on_grid 10000 k \<and> 0 < k \<and> k \<le> le_remainingQuantity l \<and> k \<le> q) \<and>
      sum_list (map ul_taken (snd (lot_loop lots q []))) = q - ?left"
    by (rule lots.updates_from_entries) (use assms in auto)
  have source: "0 < ul_taken u \<and> 0 \<le> ul_remainingQuantity u \<and>
      (\<exists>l \<in> set lots. ul_id u = le_id l \<and> ul_taken u + ul_remainingQuantity u = le_remainingQuantity l)"
    if u: "u \<in> set (snd (lot_loop lots q []))" for u
  proof -
    from all u obtain l k where "l \<in> set lots" "on_grid 10000 k" "0 < k" "k \<le> le_remainingQuantity l"
      and eq: "u = \<lparr>ul_id = le_id l, ul_taken = round4 k, ul_remainingQuantity = round4 (le_remainingQuantity l - k)\<rparr>"
      by blast
    moreover have "on_grid 10000 (le_remainingQuantity l - k)"
      using assms(1) calculation by auto
    ultimately show ?thesis by auto
  qed
  have "on_grid 10000 (q - ?left)" using left(1) assms(2) by auto
  with all source left show ?thesis by (simp add: consumeLotsByExpiry_run)
qed

text \<open>\<open>sortLotsByExpiry\<close> is first-expiry-first: the result is a permutation of the lots, ordered by
  expiry date with undated lots last and receipt date as the tiebreaker, and lots that tie on both
  keep their order.\<close>

theorem sortLotsByExpiry_fefo:
  "mset (sortLotsByExpiry e r lots) = mset lots \<and>
   sorted (map (\<lambda>l. (expiry_of (e l), r l)) (sortLotsByExpiry e r lots)) \<and>
   (\<forall>k. filter (\<lambda>l. (expiry_of (e l), r l) = k) (sortLotsByExpiry e r lots) =
        filter (\<lambda>l. (expiry_of (e l), r l) = k) lots)"
  by (simp add: sortLotsByExpiry_key sort_key_stable)

text \<open>The moving average after a costed receipt lies between the old average and the receipt's own
  cost, up to the rounding to four decimals; with nothing on hand it is the receipt's cost.\<close>

theorem weighted_average_between:
  assumes "0 < receiptQuantity"
  shows "(currentQuantity \<le> 0 \<longrightarrow>
            calculateWeightedAverageCost currentQuantity (Some a) receiptQuantity c = round4 c) \<and>
         (0 < currentQuantity \<longrightarrow>
            min a c - 1/20000 < calculateWeightedAverageCost currentQuantity (Some a) receiptQuantity c \<and>
            calculateWeightedAverageCost currentQuantity (Some a) receiptQuantity c
              \<le> max a c + js_epsilon + 1/20000)"
proof (intro conjI impI)
  assume "currentQuantity \<le> 0"
  with assms show "calculateWeightedAverageCost currentQuantity (Some a) receiptQuantity c = round4 c"
    by (simp add: calculateWeightedAverageCost_def)
next
  assume pos: "0 < currentQuantity"
  let ?avg = "(currentQuantity * a + receiptQuantity * c) / (currentQuantity + receiptQuantity)"
  have eq: "calculateWeightedAverageCost currentQuantity (Some a) receiptQuantity c = round4 ?avg"
    using pos assms by (simp add: calculateWeightedAverageCost_def)
  have "(currentQuantity + receiptQuantity) * min a c \<le> currentQuantity * a + receiptQuantity * c"
    using pos assms by (simp add: distrib_right add_mono)
  then have lo: "min a c \<le> ?avg" using pos assms by (simp add: field_simps)
  have "currentQuantity * a + receiptQuantity * c \<le> (currentQuantity + receiptQuantity) * max a c"
    using pos assms by (simp add: distrib_right add_mono)
  then have hi: "?avg \<le> max a c" using pos assms by (simp add: field_simps)
  show "min a c - 1/20000 < calculateWeightedAverageCost currentQuantity (Some a) receiptQuantity c"
    using lo round_at_lower [of 10000 ?avg] by (simp add: eq round4_def)
  show "calculateWeightedAverageCost currentQuantity (Some a) receiptQuantity c
      \<le> max a c + js_epsilon + 1/20000"
    using hi round_at_upper [of 10000 ?avg] by (simp add: eq round4_def)
qed

lemma selectUnits_Inr:
  "selectUnitsForConsumption c q = Inr (us, short) \<Longrightarrow>
     is_integer q \<and> us = slice0 q c \<and> short = max (q - of_nat (length us)) 0"
  by (auto simp: selectUnitsForConsumption_def Let_def split: if_splits)

subsection \<open>The theorems at concrete inputs\<close>

definition example_layers :: "cost_layer list" where
  "example_layers = [\<lparr>cl_id = 1, cl_remainingQuantity = 3, cl_unitCost = 4\<rparr>,
                     \<lparr>cl_id = 2, cl_remainingQuantity = 2, cl_unitCost = 6\<rparr>]"

lemma example_layers_grid: "l \<in> set example_layers \<Longrightarrow> on_grid 10000 (cl_remainingQuantity l)"
  by (auto simp: example_layers_def on_grid_def is_integer_def)

theorem fifo_consumed_exact_witness:
  "fr_consumedQuantity (calculateFifoConsumption example_layers 7) = 5 \<and>
   fr_shortfallQuantity (calculateFifoConsumption example_layers 7) = 2"
  using fifo_consumed_exact [of example_layers 7, OF example_layers_grid]
  by (simp add: example_layers_def on_grid_def is_integer_def)

theorem fifo_cost_is_value_removed_witness:
  "fr_totalCost (calculateFifoConsumption example_layers 4) = 18"
proof -
  have "layers_value example_layers - layers_value (apply_layer_updates
      (fr_updatedLayers (calculateFifoConsumption example_layers 4)) example_layers) = 18"
    by code_simp
  then show ?thesis
    using fifo_cost_is_value_removed [of example_layers 4, OF _ example_layers_grid]
    by (simp add: example_layers_def on_grid_def is_integer_def)
qed

theorem lots_consumed_exact_witness:
  "(\<Sum>u \<leftarrow> lr_updatedLots (consumeLotsByExpiry [\<lparr>le_id = 1, le_remainingQuantity = 3\<rparr>,
      \<lparr>le_id = 2, le_remainingQuantity = 5\<rparr>] 4). ul_taken u) =
   lr_consumedQuantity (consumeLotsByExpiry [\<lparr>le_id = 1, le_remainingQuantity = 3\<rparr>,
      \<lparr>le_id = 2, le_remainingQuantity = 5\<rparr>] 4)"
  by (rule conjunct1 [OF lots_consumed_exact]) (auto simp: on_grid_def is_integer_def)

theorem weighted_average_between_witness:
  "calculateWeightedAverageCost 0 (Some 3) 2 7 = 7"
  using weighted_average_between [of 2 0 3 7] by (simp add: on_grid_def is_integer_def)

end
