(* ===== verification/Stock_DB.thy ===== *)
theory Stock_DB
  imports Costing
begin

section \<open>The tables the stock services read and write\<close>

text \<open>
  The models of \<open>apps/api/prisma/schema.prisma\<close> that \<open>apps/api/src/materials\<close> uses, with the
  columns the services touch, and the row operations the services share: the upsert of a stock
  level on its unique key \<open>(warehouseId, materialCatalogItemId)\<close>, the insertion of movements, cost
  layers, lots and serial units. A row id is the value of the counter \<open>next_uid\<close>.
\<close>

datatype movement_type = Receipt | Issue | Transfer | Write_off

datatype costing_method = Fifo | Weighted_average

datatype unit_status = Available | Checked_out | Damaged | Lost | Retired | Consumed

datatype reservation_status = Active | Released

record company =
  co_id :: uid
  co_inventoryCostingMethod :: costing_method

record warehouse =
  wh_id :: uid
  wh_companyId :: uid
  wh_name :: string

record material =
  mt_id :: uid
  mt_companyId :: uid
  mt_name :: string
  mt_unit :: string
  mt_lotTracked :: bool
  mt_serialTracked :: bool
  mt_standardCost :: "number option"

record project_row =
  pj_id :: uid
  pj_companyId :: uid

record warehouse_location =
  wl_id :: uid
  wl_companyId :: uid
  wl_warehouseId :: uid

record stock_level =
  sl_warehouseId :: uid
  sl_materialId :: uid
  sl_quantityOnHand :: number
  sl_averageCost :: "number option"
  sl_binLocation :: "string option"
  sl_binLocationId :: "uid option"

record stock_movement =
  sm_id :: uid
  sm_companyId :: uid
  sm_warehouseId :: uid
  sm_toWarehouseId :: "uid option"
  sm_materialId :: uid
  sm_type :: movement_type
  sm_quantity :: number
  sm_projectId :: "uid option"
  sm_unitCost :: "number option"
  sm_createdAt :: date

record layer_row =
  ly_id :: uid
  ly_companyId :: uid
  ly_warehouseId :: uid
  ly_materialId :: uid
  ly_remainingQuantity :: number
  ly_unitCost :: number
  ly_receivedAt :: date

record stock_lot =
  lo_id :: uid
  lo_companyId :: uid
  lo_warehouseId :: uid
  lo_materialId :: uid
  lo_lotNumber :: string
  lo_expiresAt :: "date option"
  lo_receivedAt :: date
  lo_initialQuantity :: number
  lo_remainingQuantity :: number
  lo_unitCost :: "number option"

record serial_unit =
  su_id :: uid
  su_companyId :: uid
  su_materialId :: "uid option"
  su_warehouseId :: "uid option"
  su_serialNumber :: string
  su_status :: unit_status
  su_createdAt :: date

record lot_movement =
  lm_stockMovementId :: uid
  lm_stockLotId :: uid
  lm_quantity :: number

record unit_movement =
  um_stockMovementId :: uid
  um_toolCribUnitId :: uid

record stock_reservation =
  sr_id :: uid
  sr_companyId :: uid
  sr_warehouseId :: uid
  sr_materialId :: uid
  sr_quantity :: number
  sr_projectId :: "uid option"
  sr_note :: "string option"
  sr_status :: reservation_status
  sr_createdByName :: string
  sr_createdAt :: date
  sr_releasedAt :: "date option"

text \<open>An approved estimate's requirement list, as far as \<open>issueFromEstimate\<close> reads it.\<close>

record requirement_estimate =
  re_id :: uid
  re_companyId :: uid
  re_approved :: bool
  re_projectId :: "uid option"
  re_requirements :: "(uid \<times> number) list"

record stock_db =
  db_companies :: "company list"
  db_warehouses :: "warehouse list"
  db_materials :: "material list"
  db_projects :: "project_row list"
  db_locations :: "warehouse_location list"
  db_estimates :: "requirement_estimate list"
  db_levels :: "stock_level list"
  db_movements :: "stock_movement list"
  db_layers :: "layer_row list"
  db_stockLots :: "stock_lot list"
  db_units :: "serial_unit list"
  db_lotMovements :: "lot_movement list"
  db_unitMovements :: "unit_movement list"
  db_reservations :: "stock_reservation list"
  db_lowStockQueue :: "(uid \<times> uid) list"
  next_uid :: uid

text \<open>A transaction: the error that aborts it, or the value it returns and the new tables.\<close>

type_synonym 'a tx = "app_error + 'a \<times> stock_db"

subsection \<open>Reads\<close>

definition find_warehouse :: "uid \<Rightarrow> uid \<Rightarrow> stock_db \<Rightarrow> warehouse option" where
  "find_warehouse companyId i db = find_row (\<lambda>w. wh_id w = i \<and> wh_companyId w = companyId) (db_warehouses db)"

definition find_material :: "uid \<Rightarrow> uid \<Rightarrow> stock_db \<Rightarrow> material option" where
  "find_material companyId i db = find_row (\<lambda>m. mt_id m = i \<and> mt_companyId m = companyId) (db_materials db)"

definition find_project :: "uid \<Rightarrow> uid \<Rightarrow> stock_db \<Rightarrow> project_row option" where
  "find_project companyId i db = find_row (\<lambda>p. pj_id p = i \<and> pj_companyId p = companyId) (db_projects db)"

definition level_key :: "stock_level \<Rightarrow> uid \<times> uid" where
  "level_key l = (sl_warehouseId l, sl_materialId l)"

definition find_level :: "uid \<Rightarrow> uid \<Rightarrow> stock_db \<Rightarrow> stock_level option" where
  "find_level wh mat db = find_row (\<lambda>l. level_key l = (wh, mat)) (db_levels db)"

text \<open>\<open>Number(stockLevel?.quantityOnHand ?? 0)\<close> and \<open>stockLevel?.averageCost\<close>.\<close>

definition on_hand :: "uid \<Rightarrow> uid \<Rightarrow> stock_db \<Rightarrow> number" where
  "on_hand wh mat db = (case find_level wh mat db of None \<Rightarrow> 0 | Some l \<Rightarrow> sl_quantityOnHand l)"

definition average_cost :: "uid \<Rightarrow> uid \<Rightarrow> stock_db \<Rightarrow> number option" where
  "average_cost wh mat db = (case find_level wh mat db of None \<Rightarrow> None | Some l \<Rightarrow> sl_averageCost l)"

subsection \<open>Writes\<close>

definition upsert_level :: "uid \<Rightarrow> uid \<Rightarrow> number \<Rightarrow> number option \<Rightarrow> stock_db \<Rightarrow> stock_db" where
  "upsert_level wh mat delta avgUpdate db =
     db\<lparr>db_levels := upsert_row (\<lambda>l. level_key l = (wh, mat))
          \<lparr>sl_warehouseId = wh, sl_materialId = mat, sl_quantityOnHand = delta,
           sl_averageCost = avgUpdate, sl_binLocation = None, sl_binLocationId = None\<rparr>
          (\<lambda>l. l\<lparr>sl_quantityOnHand := sl_quantityOnHand l + delta,
                 sl_averageCost := (case avgUpdate of None \<Rightarrow> sl_averageCost l | Some a \<Rightarrow> Some a)\<rparr>)
          (db_levels db)\<rparr>"

definition create_movement :: "date \<Rightarrow> uid \<Rightarrow> uid \<Rightarrow> uid option \<Rightarrow> uid \<Rightarrow> movement_type \<Rightarrow> number
    \<Rightarrow> uid option \<Rightarrow> number option \<Rightarrow> stock_db \<Rightarrow> stock_movement \<times> stock_db" where
  "create_movement now companyId wh toWh mat type quantity projectId unitCost db =
     (let m = \<lparr>sm_id = next_uid db, sm_companyId = companyId, sm_warehouseId = wh,
               sm_toWarehouseId = toWh, sm_materialId = mat, sm_type = type, sm_quantity = quantity,
               sm_projectId = projectId, sm_unitCost = unitCost, sm_createdAt = now\<rparr>
      in (m, db\<lparr>db_movements := db_movements db @ [m], next_uid := Suc (next_uid db)\<rparr>))"

definition create_layer :: "date \<Rightarrow> uid \<Rightarrow> uid \<Rightarrow> uid \<Rightarrow> number \<Rightarrow> number \<Rightarrow> stock_db \<Rightarrow> stock_db" where
  "create_layer now companyId wh mat quantity unitCost db =
     db\<lparr>db_layers := db_layers db @ [\<lparr>ly_id = next_uid db, ly_companyId = companyId, ly_warehouseId = wh,
           ly_materialId = mat, ly_remainingQuantity = quantity, ly_unitCost = unitCost,
           ly_receivedAt = now\<rparr>],
        next_uid := Suc (next_uid db)\<rparr>"

definition add_lot_movement :: "uid \<Rightarrow> uid \<Rightarrow> number \<Rightarrow> stock_db \<Rightarrow> stock_db" where
  "add_lot_movement movementId lotId quantity db =
     db\<lparr>db_lotMovements := db_lotMovements db @ [\<lparr>lm_stockMovementId = movementId, lm_stockLotId = lotId,
          lm_quantity = quantity\<rparr>]\<rparr>"

definition add_unit_movement :: "uid \<Rightarrow> uid \<Rightarrow> stock_db \<Rightarrow> stock_db" where
  "add_unit_movement movementId unitId db =
     db\<lparr>db_unitMovements := db_unitMovements db @ [\<lparr>um_stockMovementId = movementId,
          um_toolCribUnitId = unitId\<rparr>]\<rparr>"

definition queueLowStockCheck :: "uid \<Rightarrow> uid \<Rightarrow> stock_db \<Rightarrow> stock_db" where
  "queueLowStockCheck companyId mat db = db\<lparr>db_lowStockQueue := db_lowStockQueue db @ [(companyId, mat)]\<rparr>"

subsection \<open>Lookups after writes\<close>

lemma db_levels_upsert:
  "db_levels (upsert_level wh mat delta avgUpdate db) =
     upsert_row (\<lambda>l. level_key l = (wh, mat))
          \<lparr>sl_warehouseId = wh, sl_materialId = mat, sl_quantityOnHand = delta,
           sl_averageCost = avgUpdate, sl_binLocation = None, sl_binLocationId = None\<rparr>
          (\<lambda>l. l\<lparr>sl_quantityOnHand := sl_quantityOnHand l + delta,
                 sl_averageCost := (case avgUpdate of None \<Rightarrow> sl_averageCost l | Some a \<Rightarrow> Some a)\<rparr>)
          (db_levels db)"
  by (simp add: upsert_level_def)

lemma find_level_upsert [row_simps]:
  "find_level w m (upsert_level wh mat d a db) =
     (if (w, m) = (wh, mat)
      then Some (case find_level w m db of
             None \<Rightarrow> \<lparr>sl_warehouseId = wh, sl_materialId = mat, sl_quantityOnHand = d,
               sl_averageCost = a, sl_binLocation = None, sl_binLocationId = None\<rparr>
           | Some l \<Rightarrow> l\<lparr>sl_quantityOnHand := sl_quantityOnHand l + d,
               sl_averageCost := (case a of None \<Rightarrow> sl_averageCost l | Some x \<Rightarrow> Some x)\<rparr>)
      else find_level w m db)"
  unfolding find_level_def db_levels_upsert
  by (subst find_row_upsert) (auto simp: level_key_def)

lemma on_hand_upsert [row_simps]:
  "on_hand w m (upsert_level wh mat d a db) = on_hand w m db + (if (w, m) = (wh, mat) then d else 0)"
  by (simp add: on_hand_def row_simps split: option.split)

lemma average_cost_upsert [row_simps]:
  "average_cost w m (upsert_level wh mat d a db) =
     (if (w, m) = (wh, mat) then (case a of None \<Rightarrow> average_cost w m db | Some x \<Rightarrow> Some x)
      else average_cost w m db)"
  by (auto simp: average_cost_def row_simps split: option.split)

text \<open>Level lookups depend on the level table only.\<close>

lemma on_hand_cong: "db_levels db = db_levels db' \<Longrightarrow> on_hand w m db = on_hand w m db'"
  by (simp add: on_hand_def find_level_def)

lemma levels_frame [simp]:
  "db_levels (create_layer n c w m q u db) = db_levels db"
  "db_levels (add_lot_movement i l q db) = db_levels db"
  "db_levels (add_unit_movement i v db) = db_levels db"
  "db_levels (queueLowStockCheck c m db) = db_levels db"
  "db_levels (snd (create_movement n c w t m ty q p uc db)) = db_levels db"
  by (simp_all add: create_layer_def add_lot_movement_def add_unit_movement_def queueLowStockCheck_def
      create_movement_def Let_def)

lemma movements_frame [simp]:
  "db_movements (create_layer n c w m q u db) = db_movements db"
  "db_movements (add_lot_movement i l q db) = db_movements db"
  "db_movements (add_unit_movement i v db) = db_movements db"
  "db_movements (queueLowStockCheck c m db) = db_movements db"
  "db_movements (upsert_level w m d a db) = db_movements db"
  "db_movements (snd (create_movement n c w t m ty q p uc db)) =
     db_movements db @ [fst (create_movement n c w t m ty q p uc db)]"
  by (simp_all add: create_layer_def add_lot_movement_def add_unit_movement_def queueLowStockCheck_def
      create_movement_def upsert_level_def Let_def)

text \<open>The total on hand of one material over a company's warehouses, and its change by an upsert.\<close>

definition total_on_hand :: "uid \<Rightarrow> stock_db \<Rightarrow> number" where
  "total_on_hand mat db = (\<Sum>l \<leftarrow> db_levels db. if sl_materialId l = mat then sl_quantityOnHand l else 0)"

definition levels_unique :: "stock_db \<Rightarrow> bool" where
  "levels_unique db \<longleftrightarrow> distinct (map level_key (db_levels db))"

lemma levels_unique_upsert: "levels_unique db \<Longrightarrow> levels_unique (upsert_level wh mat d a db)"
  unfolding levels_unique_def db_levels_upsert
  by (rule distinct_keys_upsert) (auto simp: level_key_def)

lemma total_on_hand_upsert:
  assumes "levels_unique db"
  shows "total_on_hand m (upsert_level wh mat d a db) = total_on_hand m db + (if m = mat then d else 0)"
proof -
  have "sl_materialId r = mat" if "find_row (\<lambda>l. level_key l = (wh, mat)) (db_levels db) = Some r" for r
    using find_row_SomeD [OF that] by (simp add: level_key_def)
  then show ?thesis
    using assms unfolding total_on_hand_def levels_unique_def db_levels_upsert
    by (intro sum_upsert_row [where key = level_key]) (auto simp: level_key_def)
qed

lemma total_on_hand_cong: "db_levels db = db_levels db' \<Longrightarrow> total_on_hand m db = total_on_hand m db'"
  by (simp add: total_on_hand_def)

subsection \<open>A small company\<close>

text \<open>Two warehouses, a plain, a lot-tracked and a serial-tracked material, five metres of the plain
  one on the shelf of the first warehouse; used to apply the laws at concrete inputs.\<close>

definition example_stock :: "costing_method \<Rightarrow> stock_db" where
  "example_stock method =
     \<lparr>db_companies = [\<lparr>co_id = 7, co_inventoryCostingMethod = method\<rparr>],
      db_warehouses = [\<lparr>wh_id = 10, wh_companyId = 7, wh_name = ''Yard''\<rparr>,
                       \<lparr>wh_id = 11, wh_companyId = 7, wh_name = ''Site''\<rparr>],
      db_materials =
        [\<lparr>mt_id = 20, mt_companyId = 7, mt_name = ''Pipe'', mt_unit = ''m'', mt_lotTracked = False,
          mt_serialTracked = False, mt_standardCost = Some 5\<rparr>,
         \<lparr>mt_id = 21, mt_companyId = 7, mt_name = ''Cement'', mt_unit = ''bag'', mt_lotTracked = True,
          mt_serialTracked = False, mt_standardCost = None\<rparr>,
         \<lparr>mt_id = 22, mt_companyId = 7, mt_name = ''Pump'', mt_unit = ''pc'', mt_lotTracked = False,
          mt_serialTracked = True, mt_standardCost = None\<rparr>],
      db_projects = [], db_locations = [],
      db_estimates = [\<lparr>re_id = 40, re_companyId = 7, re_approved = True, re_projectId = None,
                       re_requirements = [(20, 2), (20, 1)]\<rparr>],
      db_levels = [\<lparr>sl_warehouseId = 10, sl_materialId = 20, sl_quantityOnHand = 5,
                    sl_averageCost = Some 4, sl_binLocation = None, sl_binLocationId = None\<rparr>],
      db_movements = [],
      db_layers = [\<lparr>ly_id = 30, ly_companyId = 7, ly_warehouseId = 10, ly_materialId = 20,
                    ly_remainingQuantity = 3, ly_unitCost = 4, ly_receivedAt = 0\<rparr>,
                   \<lparr>ly_id = 31, ly_companyId = 7, ly_warehouseId = 10, ly_materialId = 20,
                    ly_remainingQuantity = 2, ly_unitCost = 6, ly_receivedAt = 5\<rparr>],
      db_stockLots = [], db_units = [], db_lotMovements = [], db_unitMovements = [],
      db_reservations = [], db_lowStockQueue = [], next_uid = 100\<rparr>"

end
