(* ===== verification/Stock.thy ===== *)
theory Stock
  imports Stock_DB
begin

section \<open>StockService\<close>

text \<open>
  \<open>apps/api/src/materials/stock.service.ts\<close>, operation by operation. An operation that the code
  runs inside \<open>runSerializable\<close> is one atomic function: an exception leaves the tables as they
  were. \<open>now\<close> is \<open>new Date()\<close>, ids are drawn from the counter of the tables.
\<close>

named_theorems stock_defs \<open>definitions of the stock operations\<close>

subsection \<open>Costing of a movement at one warehouse\<close>

definition getCostingMethodTx :: "stock_db \<Rightarrow> uid \<Rightarrow> app_error + costing_method" where
  "getCostingMethodTx db companyId =
     (case find_row (\<lambda>c. co_id c = companyId) (db_companies db) of
        None \<Rightarrow> Inl RecordNotFound
      | Some c \<Rightarrow> Inr (co_inventoryCostingMethod c))"

text \<open>The layers an issue may draw on, oldest first, and the write-back of what was consumed.\<close>

definition open_layers :: "uid \<Rightarrow> uid \<Rightarrow> stock_db \<Rightarrow> layer_row list" where
  "open_layers wh mat db =
     sort_key ly_receivedAt
       (filter (\<lambda>l. ly_warehouseId l = wh \<and> ly_materialId l = mat \<and> 0 < ly_remainingQuantity l)
         (db_layers db))"

definition for_consumption :: "layer_row list \<Rightarrow> cost_layer list" where
  "for_consumption ls =
     map (\<lambda>l. \<lparr>cl_id = ly_id l, cl_remainingQuantity = ly_remainingQuantity l,
               cl_unitCost = ly_unitCost l\<rparr>) ls"

definition write_layer :: "uid \<times> number \<Rightarrow> layer_row list \<Rightarrow> layer_row list" where
  "write_layer u ls =
     (if snd u \<le> 0 then filter (\<lambda>l. ly_id l \<noteq> fst u) ls
      else update_rows (\<lambda>l. ly_id l = fst u) (\<lambda>l. l\<lparr>ly_remainingQuantity := snd u\<rparr>) ls)"

definition write_layers :: "(uid \<times> number) list \<Rightarrow> stock_db \<Rightarrow> stock_db" where
  "write_layers us db = db\<lparr>db_layers := fold write_layer us (db_layers db)\<rparr>"

definition computeSingleWarehouseCosting :: "date \<Rightarrow> uid \<Rightarrow> uid \<Rightarrow> uid \<Rightarrow> movement_type \<Rightarrow> number
    \<Rightarrow> number option \<Rightarrow> stock_db \<Rightarrow> (number option \<times> number option) tx" where
  "computeSingleWarehouseCosting now companyId wh mat type quantity unitCost db =
     (if type = Receipt then
        (case unitCost of
           None \<Rightarrow> Inr ((None, None), db)
         | Some c \<Rightarrow>
             (let averageCostUpdate =
                    calculateWeightedAverageCost (on_hand wh mat db) (average_cost wh mat db) quantity c
              in case getCostingMethodTx db companyId of
                   Inl e \<Rightarrow> Inl e
                 | Inr method \<Rightarrow>
                     Inr ((Some c, Some averageCostUpdate),
                          if method = Fifo then create_layer now companyId wh mat quantity c db else db)))
      else
        (case getCostingMethodTx db companyId of
           Inl e \<Rightarrow> Inl e
         | Inr Weighted_average \<Rightarrow> Inr ((average_cost wh mat db, None), db)
         | Inr Fifo \<Rightarrow>
             (let ls = open_layers wh mat db
              in if ls = [] then Inr ((None, None), db)
                 else let result = calculateFifoConsumption (for_consumption ls) quantity
                      in Inr ((if 0 < fr_consumedQuantity result
                               then Some (fr_totalCost result / fr_consumedQuantity result) else None,
                               None),
                              write_layers (fr_updatedLayers result) db))))"

subsection \<open>Lots\<close>

record touched_lot =
  tl_lotId :: uid
  tl_lotNumber :: string
  tl_expiresAt :: "date option"
  tl_taken :: number

definition lot_candidates :: "uid \<Rightarrow> uid \<Rightarrow> uid option \<Rightarrow> stock_db \<Rightarrow> app_error + stock_lot list" where
  "lot_candidates wh mat explicitLotId db =
     (case explicitLotId of
        Some i \<Rightarrow>
          (case find_row (\<lambda>l. lo_id l = i \<and> lo_warehouseId l = wh \<and> lo_materialId l = mat) (db_stockLots db) of
             None \<Rightarrow> Inl (NotFoundException (msg ''Lot not found''))
           | Some lot \<Rightarrow> Inr [lot])
      | None \<Rightarrow>
          Inr (sortLotsByExpiry lo_expiresAt lo_receivedAt
                 (filter (\<lambda>l. lo_warehouseId l = wh \<and> lo_materialId l = mat \<and> 0 < lo_remainingQuantity l)
                   (db_stockLots db))))"

definition set_lot_remaining :: "updated_lot \<Rightarrow> stock_lot list \<Rightarrow> stock_lot list" where
  "set_lot_remaining u ls =
     update_rows (\<lambda>l. lo_id l = ul_id u) (\<lambda>l. l\<lparr>lo_remainingQuantity := ul_remainingQuantity u\<rparr>) ls"

definition debitLots :: "uid \<Rightarrow> uid \<Rightarrow> number \<Rightarrow> uid option \<Rightarrow> stock_db \<Rightarrow> touched_lot list tx" where
  "debitLots wh mat quantity explicitLotId db =
     (case lot_candidates wh mat explicitLotId db of
        Inl e \<Rightarrow> Inl e
      | Inr candidates \<Rightarrow>
          (let result = consumeLotsByExpiry
                 (map (\<lambda>l. \<lparr>le_id = lo_id l, le_remainingQuantity = lo_remainingQuantity l\<rparr>) candidates)
                 quantity;
               us = lr_updatedLots result;
               touched = map (\<lambda>u. case find_row (\<lambda>c. lo_id c = ul_id u) candidates of
                    Some c \<Rightarrow> \<lparr>tl_lotId = ul_id u, tl_lotNumber = lo_lotNumber c,
                               tl_expiresAt = lo_expiresAt c, tl_taken = ul_taken u\<rparr>
                  | None \<Rightarrow> \<lparr>tl_lotId = ul_id u, tl_lotNumber = [], tl_expiresAt = None,
                             tl_taken = ul_taken u\<rparr>) us
           in Inr (touched, db\<lparr>db_stockLots := fold set_lot_remaining us (db_stockLots db)\<rparr>)))"

definition lot_key :: "stock_lot \<Rightarrow> uid \<times> uid \<times> string" where
  "lot_key l = (lo_warehouseId l, lo_materialId l, lo_lotNumber l)"

definition creditLot :: "date \<Rightarrow> uid \<Rightarrow> uid \<Rightarrow> uid \<Rightarrow> string \<Rightarrow> date option \<Rightarrow> number \<Rightarrow> number option
    \<Rightarrow> stock_db \<Rightarrow> uid \<times> stock_db" where
  "creditLot now companyId wh mat lotNumber expiresAt quantity unitCost db =
     (let new = \<lparr>lo_id = next_uid db, lo_companyId = companyId, lo_warehouseId = wh, lo_materialId = mat,
                 lo_lotNumber = lotNumber, lo_expiresAt = expiresAt, lo_receivedAt = now,
                 lo_initialQuantity = quantity, lo_remainingQuantity = quantity, lo_unitCost = unitCost\<rparr>;
          lotId = (case find_row (\<lambda>l. lot_key l = (wh, mat, lotNumber)) (db_stockLots db) of
                     None \<Rightarrow> next_uid db | Some l \<Rightarrow> lo_id l)
      in (lotId,
          db\<lparr>db_stockLots := upsert_row (\<lambda>l. lot_key l = (wh, mat, lotNumber)) new
               (\<lambda>l. l\<lparr>lo_initialQuantity := lo_initialQuantity l + quantity,
                      lo_remainingQuantity := lo_remainingQuantity l + quantity\<rparr>) (db_stockLots db),
             next_uid := Suc (next_uid db)\<rparr>))"

subsection \<open>Serial units\<close>

definition unit_key :: "serial_unit \<Rightarrow> uid option \<times> uid option \<times> string" where
  "unit_key u = (su_warehouseId u, su_materialId u, su_serialNumber u)"

text \<open>Creating a unit fails on the unique index \<open>(warehouseId, materialCatalogItemId, serialNumber)\<close>.\<close>

definition create_unit :: "date \<Rightarrow> uid \<Rightarrow> uid \<Rightarrow> uid \<Rightarrow> string \<Rightarrow> stock_db \<Rightarrow> uid tx" where
  "create_unit now companyId wh mat serial db =
     (if \<exists>u \<in> set (db_units db). unit_key u = (Some wh, Some mat, serial)
      then Inl (UniqueViolation ''warehouseId,materialCatalogItemId,serialNumber'')
      else Inr (next_uid db,
        db\<lparr>db_units := db_units db @ [\<lparr>su_id = next_uid db, su_companyId = companyId,
             su_materialId = Some mat, su_warehouseId = Some wh, su_serialNumber = serial,
             su_status = Available, su_createdAt = now\<rparr>],
           next_uid := Suc (next_uid db)\<rparr>))"

fun create_units :: "date \<Rightarrow> uid \<Rightarrow> uid \<Rightarrow> uid \<Rightarrow> string list \<Rightarrow> stock_db \<Rightarrow> uid list tx" where
  "create_units now companyId wh mat [] db = Inr ([], db)"
| "create_units now companyId wh mat (s # ss) db =
     (case create_unit now companyId wh mat s db of
        Inl e \<Rightarrow> Inl e
      | Inr (i, db') \<Rightarrow>
          (case create_units now companyId wh mat ss db' of
             Inl e \<Rightarrow> Inl e
           | Inr (is, db'') \<Rightarrow> Inr (i # is, db'')))"

fun join_with :: "string \<Rightarrow> string list \<Rightarrow> string" where
  "join_with sep [] = []"
| "join_with sep [x] = x"
| "join_with sep (x # y # xs) = x @ sep @ join_with sep (y # xs)"

definition registerSerialUnits :: "date \<Rightarrow> uid \<Rightarrow> uid \<Rightarrow> uid \<Rightarrow> string list \<Rightarrow> stock_db \<Rightarrow> uid list tx" where
  "registerSerialUnits now companyId wh mat serialNumbers db =
     (let existing = filter (\<lambda>u. su_warehouseId u = Some wh \<and> su_materialId u = Some mat \<and>
                                 su_serialNumber u \<in> set serialNumbers) (db_units db)
      in if existing \<noteq> []
         then Inl (BadRequestException
           [Str ''Serial number(s) already registered at this warehouse: '',
            Str (join_with '', '' (map su_serialNumber existing))])
         else create_units now companyId wh mat serialNumbers db)"

definition available_units :: "uid \<Rightarrow> uid \<Rightarrow> stock_db \<Rightarrow> serial_unit list" where
  "available_units wh mat db =
     filter (\<lambda>u. su_warehouseId u = Some wh \<and> su_materialId u = Some mat \<and> su_status u = Available) (db_units db)"

definition selectSerialUnits :: "uid \<Rightarrow> uid \<Rightarrow> number \<Rightarrow> uid list option \<Rightarrow> stock_db \<Rightarrow> app_error + uid list" where
  "selectSerialUnits wh mat quantity explicitUnitIds db =
     (let candidates =
        (case explicitUnitIds of
           Some (i # is) \<Rightarrow>
             (let found = filter (\<lambda>u. su_id u \<in> set (i # is)) (available_units wh mat db)
              in if length found \<noteq> length (i # is)
                 then Inl (NotFoundException (msg ''One or more selected units are not available at this warehouse''))
                 else Inr found)
         | _ \<Rightarrow> Inr (sort_key su_createdAt (available_units wh mat db)))
      in case candidates of
           Inl e \<Rightarrow> Inl e
         | Inr us \<Rightarrow> map_sum id fst (selectUnitsForConsumption (map su_id us) quantity))"

definition consume_units :: "uid list \<Rightarrow> stock_db \<Rightarrow> stock_db" where
  "consume_units ids db =
     db\<lparr>db_units := update_rows (\<lambda>u. su_id u \<in> set ids) (\<lambda>u. u\<lparr>su_status := Consumed\<rparr>) (db_units db)\<rparr>"

text \<open>Moving units to another warehouse violates the unique index when the destination already
  has one of their serial numbers.\<close>

definition move_units :: "uid list \<Rightarrow> uid \<Rightarrow> stock_db \<Rightarrow> app_error + stock_db" where
  "move_units ids toWh db =
     (let moved = filter (\<lambda>u. su_id u \<in> set ids) (db_units db);
          other = filter (\<lambda>u. su_id u \<notin> set ids) (db_units db)
      in if \<exists>m \<in> set moved. \<exists>u \<in> set other.
              unit_key u = (Some toWh, su_materialId m, su_serialNumber m)
         then Inl (UniqueViolation ''warehouseId,materialCatalogItemId,serialNumber'')
         else Inr (db\<lparr>db_units := update_rows (\<lambda>u. su_id u \<in> set ids)
                        (\<lambda>u. u\<lparr>su_warehouseId := Some toWh\<rparr>) (db_units db)\<rparr>))"

subsection \<open>recordMovement\<close>

record movement_input =
  mi_warehouseId :: uid
  mi_materialId :: uid
  mi_type :: movement_type
  mi_quantity :: number
  mi_projectId :: "uid option"
  mi_unitCost :: "number option"
  mi_lotNumber :: "string option"
  mi_expiresAt :: "date option"
  mi_lotId :: "uid option"
  mi_serialNumbers :: "string list option"
  mi_unitIds :: "uid list option"

definition decreasing :: "movement_type \<Rightarrow> bool" where
  "decreasing t \<longleftrightarrow> t \<in> {Issue, Write_off}"

definition movement_delta :: "movement_type \<Rightarrow> number \<Rightarrow> number" where
  "movement_delta t q = (if decreasing t then - q else q)"

text \<open>The checks before the transaction; they give the material row back.\<close>

definition check_movement :: "uid \<Rightarrow> movement_input \<Rightarrow> stock_db \<Rightarrow> app_error + material" where
  "check_movement companyId input db =
     (if find_warehouse companyId (mi_warehouseId input) db = None
      then Inl (NotFoundException (msg ''Warehouse not found''))
      else case find_material companyId (mi_materialId input) db of
        None \<Rightarrow> Inl (NotFoundException (msg ''Material not found''))
      | Some m \<Rightarrow>
          if (case mi_projectId input of None \<Rightarrow> False | Some p \<Rightarrow> find_project companyId p db = None)
          then Inl (NotFoundException (msg ''Project not found''))
          else if mt_lotTracked m \<and> mi_type input = Receipt \<and> \<not> truthy (mi_lotNumber input)
          then Inl (BadRequestException [Str (quoted (mt_name m)), Str '' is lot-tracked - a lot number is required to receive it''])
          else if mt_serialTracked m \<and> mi_type input = Receipt \<and>
                  (case mi_serialNumbers input of None \<Rightarrow> True | Some ss \<Rightarrow> ss = [])
          then Inl (BadRequestException [Str (quoted (mt_name m)), Str '' is serial-tracked - one serial number per unit received is required''])
          else if mt_serialTracked m \<and> mi_type input = Receipt \<and>
                  (case mi_serialNumbers input of None \<Rightarrow> False | Some ss \<Rightarrow> of_nat (length ss) \<noteq> mi_quantity input)
          then Inl (BadRequestException (msg ''The number of serial numbers must match the quantity received''))
          else if mt_serialTracked m \<and> mi_type input \<noteq> Receipt \<and>
                  (case mi_unitIds input of None \<Rightarrow> False | Some us \<Rightarrow> of_nat (length us) \<noteq> mi_quantity input)
          then Inl (BadRequestException (msg ''The number of selected units must match the quantity''))
          else Inr m)"

definition lot_step :: "date \<Rightarrow> uid \<Rightarrow> movement_input \<Rightarrow> material \<Rightarrow> uid \<Rightarrow> stock_db \<Rightarrow> app_error + stock_db" where
  "lot_step now companyId input m movementId db =
     (if \<not> mt_lotTracked m then Inr db
      else if mi_type input = Receipt then
        (case creditLot now companyId (mi_warehouseId input) (mi_materialId input)
                (case mi_lotNumber input of None \<Rightarrow> [] | Some n \<Rightarrow> n) (mi_expiresAt input)
                (mi_quantity input) (mi_unitCost input) db of
           (lotId, db') \<Rightarrow> Inr (add_lot_movement movementId lotId (mi_quantity input) db'))
      else
        (case debitLots (mi_warehouseId input) (mi_materialId input) (mi_quantity input) (mi_lotId input) db of
           Inl e \<Rightarrow> Inl e
         | Inr (touched, db') \<Rightarrow>
             Inr (fold (\<lambda>t. add_lot_movement movementId (tl_lotId t) (tl_taken t)) touched db')))"

definition unit_step :: "date \<Rightarrow> uid \<Rightarrow> movement_input \<Rightarrow> material \<Rightarrow> uid \<Rightarrow> stock_db \<Rightarrow> app_error + stock_db" where
  "unit_step now companyId input m movementId db =
     (if \<not> mt_serialTracked m then Inr db
      else if mi_type input = Receipt then
        (case registerSerialUnits now companyId (mi_warehouseId input) (mi_materialId input)
                (case mi_serialNumbers input of None \<Rightarrow> [] | Some ss \<Rightarrow> ss) db of
           Inl e \<Rightarrow> Inl e
         | Inr (ids, db') \<Rightarrow> Inr (fold (add_unit_movement movementId) ids db'))
      else
        (case selectSerialUnits (mi_warehouseId input) (mi_materialId input) (mi_quantity input) (mi_unitIds input) db of
           Inl e \<Rightarrow> Inl e
         | Inr ids \<Rightarrow>
             Inr (fold (add_unit_movement movementId) ids
                   (if ids \<noteq> [] then consume_units ids db else db))))"

text \<open>The body of the serializable transaction.\<close>

definition record_movement_tx :: "date \<Rightarrow> uid \<Rightarrow> movement_input \<Rightarrow> material \<Rightarrow> stock_db \<Rightarrow> stock_movement tx" where
  "record_movement_tx now companyId input m db =
     (case computeSingleWarehouseCosting now companyId (mi_warehouseId input) (mi_materialId input)
             (mi_type input) (mi_quantity input) (mi_unitCost input) db of
        Inl e \<Rightarrow> Inl e
      | Inr ((movementUnitCost, averageCostUpdate), db1) \<Rightarrow>
          (case create_movement now companyId (mi_warehouseId input) None (mi_materialId input)
                  (mi_type input) (mi_quantity input) (mi_projectId input) movementUnitCost db1 of
             (movement, db2) \<Rightarrow>
               (let db3 = upsert_level (mi_warehouseId input) (mi_materialId input)
                            (movement_delta (mi_type input) (mi_quantity input)) averageCostUpdate db2
                in case lot_step now companyId input m (sm_id movement) db3 of
                     Inl e \<Rightarrow> Inl e
                   | Inr db4 \<Rightarrow>
                       (case unit_step now companyId input m (sm_id movement) db4 of
                          Inl e \<Rightarrow> Inl e
                        | Inr db5 \<Rightarrow> Inr (movement, db5)))))"

definition recordMovement :: "date \<Rightarrow> uid \<Rightarrow> movement_input \<Rightarrow> stock_db \<Rightarrow> stock_movement tx" where
  "recordMovement now companyId input db =
     (case check_movement companyId input db of
        Inl e \<Rightarrow> Inl e
      | Inr m \<Rightarrow>
          (case record_movement_tx now companyId input m db of
             Inl e \<Rightarrow> Inl e
           | Inr (movement, db') \<Rightarrow>
               Inr (movement,
                    if movement_delta (mi_type input) (mi_quantity input) < 0
                    then queueLowStockCheck companyId (mi_materialId input) db' else db')))"

subsection \<open>transferStock\<close>

definition computeTransferCosting :: "date \<Rightarrow> uid \<Rightarrow> uid \<Rightarrow> uid \<Rightarrow> uid \<Rightarrow> number \<Rightarrow> stock_db
    \<Rightarrow> (number option \<times> number option) tx" where
  "computeTransferCosting now companyId fromWh toWh mat quantity db =
     (case getCostingMethodTx db companyId of
        Inl e \<Rightarrow> Inl e
      | Inr Weighted_average \<Rightarrow>
          (case average_cost fromWh mat db of
             None \<Rightarrow> Inr ((None, None), db)
           | Some unitCost \<Rightarrow>
               Inr ((Some unitCost,
                     Some (calculateWeightedAverageCost (on_hand toWh mat db) (average_cost toWh mat db)
                             quantity unitCost)), db))
      | Inr Fifo \<Rightarrow>
          (let ls = open_layers fromWh mat db
           in if ls = [] then Inr ((None, None), db)
              else let result = calculateFifoConsumption (for_consumption ls) quantity
                   in if fr_consumedQuantity result \<le> 0 then Inr ((None, None), db)
                      else let blendedUnitCost = fr_totalCost result / fr_consumedQuantity result;
                               db1 = write_layers (fr_updatedLayers result) db;
                               db2 = create_layer now companyId toWh mat (fr_consumedQuantity result)
                                       blendedUnitCost db1
                           in Inr ((Some blendedUnitCost,
                                    Some (calculateWeightedAverageCost (on_hand toWh mat db2)
                                            (average_cost toWh mat db2) (fr_consumedQuantity result)
                                            blendedUnitCost)), db2)))"

record transfer_input =
  ti_fromWarehouseId :: uid
  ti_toWarehouseId :: uid
  ti_materialId :: uid
  ti_quantity :: number
  ti_lotId :: "uid option"
  ti_unitIds :: "uid list option"

fun transfer_lots :: "date \<Rightarrow> uid \<Rightarrow> uid \<Rightarrow> uid \<Rightarrow> uid \<Rightarrow> touched_lot list \<Rightarrow> stock_db \<Rightarrow> stock_db" where
  "transfer_lots now companyId toWh mat movementId [] db = db"
| "transfer_lots now companyId toWh mat movementId (t # ts) db =
     (let db1 = add_lot_movement movementId (tl_lotId t) (tl_taken t) db
      in case creditLot now companyId toWh mat (tl_lotNumber t) (tl_expiresAt t) (tl_taken t) None db1 of
           (destLotId, db2) \<Rightarrow>
             transfer_lots now companyId toWh mat movementId ts
               (add_lot_movement movementId destLotId (tl_taken t) db2))"

definition transfer_lot_step :: "date \<Rightarrow> uid \<Rightarrow> transfer_input \<Rightarrow> material \<Rightarrow> uid \<Rightarrow> stock_db \<Rightarrow> app_error + stock_db" where
  "transfer_lot_step now companyId input m movementId db =
     (if \<not> mt_lotTracked m then Inr db
      else case debitLots (ti_fromWarehouseId input) (ti_materialId input) (ti_quantity input) (ti_lotId input) db of
             Inl e \<Rightarrow> Inl e
           | Inr (touched, db') \<Rightarrow>
               Inr (transfer_lots now companyId (ti_toWarehouseId input) (ti_materialId input) movementId touched db'))"

definition transfer_unit_step :: "transfer_input \<Rightarrow> material \<Rightarrow> uid \<Rightarrow> stock_db \<Rightarrow> app_error + stock_db" where
  "transfer_unit_step input m movementId db =
     (if \<not> mt_serialTracked m then Inr db
      else case selectSerialUnits (ti_fromWarehouseId input) (ti_materialId input) (ti_quantity input) (ti_unitIds input) db of
             Inl e \<Rightarrow> Inl e
           | Inr ids \<Rightarrow>
               if ids = [] then Inr db
               else (case move_units ids (ti_toWarehouseId input) db of
                       Inl e \<Rightarrow> Inl e
                     | Inr db' \<Rightarrow> Inr (fold (add_unit_movement movementId) ids db')))"

definition transfer_stock_tx :: "date \<Rightarrow> uid \<Rightarrow> transfer_input \<Rightarrow> material \<Rightarrow> stock_db \<Rightarrow> stock_movement tx" where
  "transfer_stock_tx now companyId input m db =
     (case computeTransferCosting now companyId (ti_fromWarehouseId input) (ti_toWarehouseId input)
             (ti_materialId input) (ti_quantity input) db of
        Inl e \<Rightarrow> Inl e
      | Inr ((movementUnitCost, destAverageCostUpdate), db1) \<Rightarrow>
          (case create_movement now companyId (ti_fromWarehouseId input) (Some (ti_toWarehouseId input))
                  (ti_materialId input) Transfer (ti_quantity input) None movementUnitCost db1 of
             (movement, db2) \<Rightarrow>
               (let db3 = upsert_level (ti_fromWarehouseId input) (ti_materialId input) (- ti_quantity input) None db2;
                    db4 = upsert_level (ti_toWarehouseId input) (ti_materialId input) (ti_quantity input)
                            destAverageCostUpdate db3
                in case transfer_lot_step now companyId input m (sm_id movement) db4 of
                     Inl e \<Rightarrow> Inl e
                   | Inr db5 \<Rightarrow>
                       (case transfer_unit_step input m (sm_id movement) db5 of
                          Inl e \<Rightarrow> Inl e
                        | Inr db6 \<Rightarrow> Inr (movement, db6)))))"

definition transferStock :: "date \<Rightarrow> uid \<Rightarrow> transfer_input \<Rightarrow> stock_db \<Rightarrow> stock_movement tx" where
  "transferStock now companyId input db =
     (if find_warehouse companyId (ti_fromWarehouseId input) db = None
      then Inl (NotFoundException (msg ''Source warehouse not found''))
      else if find_warehouse companyId (ti_toWarehouseId input) db = None
      then Inl (NotFoundException (msg ''Destination warehouse not found''))
      else case find_material companyId (ti_materialId input) db of
        None \<Rightarrow> Inl (NotFoundException (msg ''Material not found''))
      | Some m \<Rightarrow>
          (case transfer_stock_tx now companyId input m db of
             Inl e \<Rightarrow> Inl e
           | Inr (movement, db') \<Rightarrow> Inr (movement, queueLowStockCheck companyId (ti_materialId input) db')))"

subsection \<open>issueFromEstimate\<close>

record issue_line =
  il_materialId :: uid
  il_name :: string
  il_required :: number
  il_remainingStock :: number

definition material_name :: "uid \<Rightarrow> stock_db \<Rightarrow> string" where
  "material_name mat db = (case find_row (\<lambda>m. mt_id m = mat) (db_materials db) of None \<Rightarrow> [] | Some m \<Rightarrow> mt_name m)"

fun issue_requirements :: "date \<Rightarrow> uid \<Rightarrow> uid option \<Rightarrow> uid \<Rightarrow> (uid \<times> number) list \<Rightarrow> stock_db
    \<Rightarrow> issue_line list \<times> stock_db" where
  "issue_requirements now companyId projectId wh [] db = ([], db)"
| "issue_requirements now companyId projectId wh ((mat, quantity) # reqs) db =
     (let db1 = snd (create_movement now companyId wh None mat Issue quantity projectId None db);
          db2 = queueLowStockCheck companyId mat (upsert_level wh mat (- quantity) None db1);
          line = \<lparr>il_materialId = mat, il_name = material_name mat db2, il_required = quantity,
                  il_remainingStock = on_hand wh mat db2\<rparr>
      in case issue_requirements now companyId projectId wh reqs db2 of
           (report, db') \<Rightarrow> (line # report, db'))"

definition issueFromEstimate :: "date \<Rightarrow> uid \<Rightarrow> uid \<Rightarrow> uid \<Rightarrow> stock_db \<Rightarrow> issue_line list tx" where
  "issueFromEstimate now companyId estimateId wh db =
     (case find_row (\<lambda>e. re_id e = estimateId \<and> re_companyId e = companyId) (db_estimates db) of
        None \<Rightarrow> Inl (NotFoundException (msg ''Estimate not found''))
      | Some e \<Rightarrow>
          if \<not> re_approved e
          then Inl (BadRequestException (msg ''Estimate must be approved before issuing stock against it''))
          else if re_requirements e = []
          then Inl (BadRequestException (msg ''Estimate has no material requirements to issue''))
          else if find_warehouse companyId wh db = None
          then Inl (NotFoundException (msg ''Warehouse not found''))
          else Inr (issue_requirements now companyId (re_projectId e) wh (re_requirements e) db))"

subsection \<open>Bin locations\<close>

definition upsert_bin :: "uid \<Rightarrow> uid \<Rightarrow> (stock_level \<Rightarrow> stock_level) \<Rightarrow> stock_db \<Rightarrow> stock_db" where
  "upsert_bin wh mat f db =
     db\<lparr>db_levels := upsert_row (\<lambda>l. level_key l = (wh, mat))
          (f \<lparr>sl_warehouseId = wh, sl_materialId = mat, sl_quantityOnHand = 0, sl_averageCost = None,
              sl_binLocation = None, sl_binLocationId = None\<rparr>)
          f (db_levels db)\<rparr>"

definition setBinLocation :: "uid \<Rightarrow> uid \<Rightarrow> uid \<Rightarrow> string option \<Rightarrow> stock_db \<Rightarrow> app_error + stock_db" where
  "setBinLocation companyId wh mat binLocation db =
     (if find_warehouse companyId wh db = None then Inl (NotFoundException (msg ''Warehouse not found''))
      else if find_material companyId mat db = None then Inl (NotFoundException (msg ''Material not found''))
      else Inr (upsert_bin wh mat (\<lambda>l. l\<lparr>sl_binLocation := binLocation\<rparr>) db))"

definition setBinLocationRef :: "uid \<Rightarrow> uid \<Rightarrow> uid \<Rightarrow> uid option \<Rightarrow> stock_db \<Rightarrow> app_error + stock_db" where
  "setBinLocationRef companyId wh mat binLocationId db =
     (if find_warehouse companyId wh db = None then Inl (NotFoundException (msg ''Warehouse not found''))
      else if find_material companyId mat db = None then Inl (NotFoundException (msg ''Material not found''))
      else if (case binLocationId of None \<Rightarrow> False
               | Some i \<Rightarrow> find_row (\<lambda>l. wl_id l = i \<and> wl_companyId l = companyId \<and> wl_warehouseId l = wh)
                             (db_locations db) = None)
      then Inl (NotFoundException (msg ''Location not found at this warehouse''))
      else Inr (upsert_bin wh mat (\<lambda>l. l\<lparr>sl_binLocationId := binLocationId\<rparr>) db))"

subsection \<open>Listings\<close>

record level_view =
  lvw_level :: stock_level
  lvw_reserved :: number
  lvw_available :: number

definition in_company :: "uid \<Rightarrow> uid \<Rightarrow> stock_db \<Rightarrow> bool" where
  "in_company companyId wh db \<longleftrightarrow> find_warehouse companyId wh db \<noteq> None"

definition for_warehouse :: "uid option \<Rightarrow> uid \<Rightarrow> bool" where
  "for_warehouse warehouseId wh \<longleftrightarrow> (case warehouseId of None \<Rightarrow> True | Some w \<Rightarrow> wh = w)"

definition reserved_quantity :: "uid \<Rightarrow> uid option \<Rightarrow> uid \<Rightarrow> uid \<Rightarrow> stock_db \<Rightarrow> number" where
  "reserved_quantity companyId warehouseId wh mat db =
     (\<Sum>r \<leftarrow> filter (\<lambda>r. sr_companyId r = companyId \<and> sr_status r = Active \<and>
                       for_warehouse warehouseId (sr_warehouseId r) \<and>
                       sr_warehouseId r = wh \<and> sr_materialId r = mat) (db_reservations db). sr_quantity r)"

definition listLevels :: "uid \<Rightarrow> uid option \<Rightarrow> stock_db \<Rightarrow> level_view list" where
  "listLevels companyId warehouseId db =
     map (\<lambda>l. let reserved = reserved_quantity companyId warehouseId (sl_warehouseId l) (sl_materialId l) db
              in \<lparr>lvw_level = l, lvw_reserved = reserved, lvw_available = sl_quantityOnHand l - reserved\<rparr>)
       (filter (\<lambda>l. in_company companyId (sl_warehouseId l) db \<and> for_warehouse warehouseId (sl_warehouseId l))
         (db_levels db))"

definition listMovements :: "uid \<Rightarrow> uid option \<Rightarrow> uid option \<Rightarrow> stock_db \<Rightarrow> stock_movement list" where
  "listMovements companyId warehouseId cursor db =
     page 100 sm_id cursor
       (sort_key (\<lambda>m. - sm_createdAt m)
         (filter (\<lambda>m. sm_companyId m = companyId \<and> for_warehouse warehouseId (sm_warehouseId m)) (db_movements db)))"

definition listSerialUnits :: "uid \<Rightarrow> uid option \<Rightarrow> uid option \<Rightarrow> stock_db \<Rightarrow> serial_unit list" where
  "listSerialUnits companyId warehouseId materialId db =
     sort_key su_createdAt
       (filter (\<lambda>u. su_companyId u = companyId \<and>
                  (case materialId of None \<Rightarrow> su_materialId u \<noteq> None | Some m \<Rightarrow> su_materialId u = Some m) \<and>
                  su_status u = Available \<and>
                  (case warehouseId of None \<Rightarrow> True | Some w \<Rightarrow> su_warehouseId u = Some w)) (db_units db))"

definition listLots :: "uid \<Rightarrow> uid option \<Rightarrow> uid option \<Rightarrow> stock_db \<Rightarrow> stock_lot list" where
  "listLots companyId warehouseId materialId db =
     sort_key (\<lambda>l. (expiry_of (lo_expiresAt l), lo_receivedAt l))
       (filter (\<lambda>l. lo_companyId l = companyId \<and> for_warehouse warehouseId (lo_warehouseId l) \<and>
                  (case materialId of None \<Rightarrow> True | Some m \<Rightarrow> lo_materialId l = m)) (db_stockLots db))"

subsection \<open>Valuation\<close>

record valuation_row =
  vr_warehouseId :: uid
  vr_materialId :: uid
  vr_quantity :: number
  vr_unitValue :: "number option"
  vr_totalValue :: number

text \<open>The FIFO buckets, in the order their keys were first met: quantity and value per key.\<close>

fun add_to_bucket :: "layer_row \<Rightarrow> ((uid \<times> uid) \<times> number \<times> number) list \<Rightarrow> ((uid \<times> uid) \<times> number \<times> number) list" where
  "add_to_bucket l [] =
     [((ly_warehouseId l, ly_materialId l), 0 + ly_remainingQuantity l, 0 + ly_remainingQuantity l * ly_unitCost l)]"
| "add_to_bucket l ((k, q, v) # bs) =
     (if k = (ly_warehouseId l, ly_materialId l)
      then (k, q + ly_remainingQuantity l, v + ly_remainingQuantity l * ly_unitCost l) # bs
      else (k, q, v) # add_to_bucket l bs)"

definition inventoryValuation :: "uid \<Rightarrow> uid option \<Rightarrow> stock_db
    \<Rightarrow> app_error + (costing_method \<times> valuation_row list \<times> number)" where
  "inventoryValuation companyId warehouseId db =
     (case getCostingMethodTx db companyId of
        Inl e \<Rightarrow> Inl e
      | Inr Fifo \<Rightarrow>
          (let buckets = fold add_to_bucket
                 (filter (\<lambda>l. ly_companyId l = companyId \<and> for_warehouse warehouseId (ly_warehouseId l)) (db_layers db)) [];
               rows = map (\<lambda>((wh, mat), q, v).
                        \<lparr>vr_warehouseId = wh, vr_materialId = mat, vr_quantity = q,
                         vr_unitValue = (if 0 < q then Some (v / q) else None), vr_totalValue = v\<rparr>) buckets
           in Inr (Fifo, rows, \<Sum>r \<leftarrow> rows. vr_totalValue r))
      | Inr Weighted_average \<Rightarrow>
          (let rows = map (\<lambda>l. \<lparr>vr_warehouseId = sl_warehouseId l, vr_materialId = sl_materialId l,
                               vr_quantity = sl_quantityOnHand l, vr_unitValue = sl_averageCost l,
                               vr_totalValue = (case sl_averageCost l of None \<Rightarrow> 0
                                                | Some u \<Rightarrow> sl_quantityOnHand l * u)\<rparr>)
                 (filter (\<lambda>l. sl_quantityOnHand l \<noteq> 0)
                   (filter (\<lambda>l. in_company companyId (sl_warehouseId l) db \<and>
                              for_warehouse warehouseId (sl_warehouseId l)) (db_levels db)))
           in Inr (Weighted_average, rows, \<Sum>r \<leftarrow> rows. vr_totalValue r)))"

record variance_row =
  va_row :: valuation_row
  va_standardCost :: number
  va_varianceAmount :: number
  va_variancePercent :: "number option"

definition standardCostVariance :: "uid \<Rightarrow> uid option \<Rightarrow> stock_db \<Rightarrow> app_error + variance_row list" where
  "standardCostVariance companyId warehouseId db =
     (case inventoryValuation companyId warehouseId db of
        Inl e \<Rightarrow> Inl e
      | Inr (_, rows, _) \<Rightarrow>
          Inr (List.map_filter (\<lambda>r.
            case (vr_unitValue r, Option.bind (find_row (\<lambda>m. mt_id m = vr_materialId r) (db_materials db)) mt_standardCost) of
              (Some u, Some standardCost) \<Rightarrow>
                Some \<lparr>va_row = r, va_standardCost = standardCost, va_varianceAmount = u - standardCost,
                      va_variancePercent = (if standardCost \<noteq> 0
                        then Some ((u - standardCost) / standardCost * 100) else None)\<rparr>
            | _ \<Rightarrow> None) rows))"

end
