(* ===== verification/Stock_Laws.thy ===== *)
theory Stock_Laws
  imports Stock
begin

section \<open>What the stock operations promise\<close>

text \<open>
  The laws of \<open>StockService\<close>. A posting transaction has three parts: a costing step, which touches
  the FIFO layers only (locale \<open>costing_step\<close>); the posting itself, a movement row and the level
  upserts; and the lot and unit steps, which touch lots, units and their movement links only
  (locale \<open>tracking_step\<close>). Both transactions of the service are built of steps that meet these
  contracts, so that quantities on hand change by the posting alone.
\<close>

subsection \<open>Frames\<close>

text \<open>A state that differs in the cost layers only, and one that differs in lots, units and their
  movement links only; in both the id counter may have advanced.\<close>

definition layers_only :: "stock_db \<Rightarrow> stock_db \<Rightarrow> bool" where
  "layers_only db db' \<longleftrightarrow> (\<exists>ls n. next_uid db \<le> n \<and> db' = db\<lparr>db_layers := ls, next_uid := n\<rparr>)"

definition tracking_only :: "stock_db \<Rightarrow> stock_db \<Rightarrow> bool" where
  "tracking_only db db' \<longleftrightarrow> (\<exists>lots units lms ums n. next_uid db \<le> n \<and>
     db' = db\<lparr>db_stockLots := lots, db_units := units, db_lotMovements := lms,
             db_unitMovements := ums, next_uid := n\<rparr>)"

lemma layers_only_refl [simp, intro]: "layers_only db db"
  unfolding layers_only_def by (cases db) auto

lemma layers_only_trans [trans]: "layers_only a b \<Longrightarrow> layers_only b c \<Longrightarrow> layers_only a c"
  unfolding layers_only_def by (cases a) auto

lemma tracking_only_refl [simp, intro]: "tracking_only db db"
  unfolding tracking_only_def by (cases db) auto

lemma tracking_only_trans [trans]: "tracking_only a b \<Longrightarrow> tracking_only b c \<Longrightarrow> tracking_only a c"
  unfolding tracking_only_def by (cases a) auto

lemma layers_only_fields:
  assumes "layers_only db db'"
  shows "db_levels db' = db_levels db" "db_movements db' = db_movements db"
    "db_stockLots db' = db_stockLots db" "db_units db' = db_units db"
    "db_companies db' = db_companies db" "db_materials db' = db_materials db"
    "db_warehouses db' = db_warehouses db" "db_reservations db' = db_reservations db"
    "next_uid db \<le> next_uid db'"
  using assms by (auto simp: layers_only_def)

lemma tracking_only_fields:
  assumes "tracking_only db db'"
  shows "db_levels db' = db_levels db" "db_movements db' = db_movements db"
    "db_layers db' = db_layers db" "db_companies db' = db_companies db"
    "db_materials db' = db_materials db" "db_warehouses db' = db_warehouses db"
    "db_reservations db' = db_reservations db" "next_uid db \<le> next_uid db'"
  using assms by (auto simp: tracking_only_def)

lemma tracking_links [simp, intro]:
  "tracking_only db (add_lot_movement i l q db)"
  "tracking_only db (add_unit_movement i u db)"
  unfolding tracking_only_def add_lot_movement_def add_unit_movement_def by (cases db; auto)+

lemma tracking_fold:
  assumes "\<And>x d. tracking_only d (f x d)"
  shows "tracking_only db (fold f xs db)"
  by (induction xs arbitrary: db) (auto intro: tracking_only_trans [OF assms])

subsection \<open>Costing touches the layers only\<close>

locale costing_step =
  fixes cost :: "stock_db \<Rightarrow> 'c tx"
  assumes cost_frame: "cost db = Inr (c, db') \<Longrightarrow> layers_only db db'"
begin

lemma on_hand_cost: "cost db = Inr (c, db') \<Longrightarrow> on_hand w m db' = on_hand w m db"
  by (rule on_hand_cong) (simp add: layers_only_fields [OF cost_frame])

lemma movements_cost: "cost db = Inr (c, db') \<Longrightarrow> db_movements db' = db_movements db"
  by (simp add: layers_only_fields [OF cost_frame])

lemma levels_cost: "cost db = Inr (c, db') \<Longrightarrow> db_levels db' = db_levels db"
  by (simp add: layers_only_fields [OF cost_frame])

end

lemma layers_only_writes [simp, intro]:
  "layers_only db (create_layer now c w m q u db)"
  "layers_only db (write_layers us db)"
  unfolding layers_only_def create_layer_def write_layers_def by (cases db; auto)+

interpretation single_costing: costing_step
  "computeSingleWarehouseCosting now companyId wh mat type quantity unitCost"
  for now companyId wh mat type quantity unitCost
  by unfold_locales
    (auto simp: computeSingleWarehouseCosting_def Let_def split: if_splits option.splits sum.splits
       costing_method.splits)

interpretation transfer_costing: costing_step
  "computeTransferCosting now companyId fromWh toWh mat quantity"
  for now companyId fromWh toWh mat quantity
  by unfold_locales
    (auto simp: computeTransferCosting_def Let_def intro: layers_only_trans
       split: if_splits option.splits sum.splits costing_method.splits)

subsection \<open>Lots and units do not touch levels, movements and layers\<close>

locale tracking_step =
  fixes track :: "stock_db \<Rightarrow> app_error + stock_db"
  assumes track_frame: "track db = Inr db' \<Longrightarrow> tracking_only db db'"
begin

lemma on_hand_track: "track db = Inr db' \<Longrightarrow> on_hand w m db' = on_hand w m db"
  by (rule on_hand_cong) (simp add: tracking_only_fields [OF track_frame])

lemma movements_track: "track db = Inr db' \<Longrightarrow> db_movements db' = db_movements db"
  by (simp add: tracking_only_fields [OF track_frame])

lemma levels_track: "track db = Inr db' \<Longrightarrow> db_levels db' = db_levels db"
  by (simp add: tracking_only_fields [OF track_frame])

lemma layers_track: "track db = Inr db' \<Longrightarrow> db_layers db' = db_layers db"
  by (simp add: tracking_only_fields [OF track_frame])

end

lemma debitLots_frame: "debitLots wh mat q l db = Inr (t, db') \<Longrightarrow> tracking_only db db'"
  unfolding debitLots_def tracking_only_def by (cases db) (auto simp: Let_def split: sum.splits)

lemma creditLot_frame: "tracking_only db (snd (creditLot now c w m n e q u db))"
  unfolding creditLot_def tracking_only_def by (cases db) (auto simp: Let_def)

lemma create_unit_frame: "create_unit now c w m s db = Inr (i, db') \<Longrightarrow> tracking_only db db'"
  unfolding create_unit_def tracking_only_def by (cases db) (auto split: if_splits)

lemma create_units_frame: "create_units now c w m ss db = Inr (us, db') \<Longrightarrow> tracking_only db db'"
  by (induction ss arbitrary: db us)
    (auto split: sum.splits prod.splits dest!: create_unit_frame intro: tracking_only_trans)

lemma registerSerialUnits_frame:
  "registerSerialUnits now c w m ss db = Inr (us, db') \<Longrightarrow> tracking_only db db'"
  by (auto simp: registerSerialUnits_def Let_def split: if_splits dest: create_units_frame)

lemma consume_units_frame [simp, intro]: "tracking_only db (consume_units ids db)"
  unfolding consume_units_def tracking_only_def by (cases db) auto

lemma move_units_frame: "move_units ids w db = Inr db' \<Longrightarrow> tracking_only db db'"
  unfolding move_units_def tracking_only_def by (cases db) (auto simp: Let_def split: if_splits)

lemma transfer_lots_frame: "tracking_only db (transfer_lots now c w m i ts db)"
proof (induction ts arbitrary: db)
  case (Cons t ts)
  let ?c = "creditLot now c w m (tl_lotNumber t) (tl_expiresAt t) (tl_taken t) None
              (add_lot_movement i (tl_lotId t) (tl_taken t) db)"
  have "tracking_only db (snd ?c)"
    using tracking_links(1) creditLot_frame by (rule tracking_only_trans)
  also have "tracking_only (snd ?c) (add_lot_movement i (fst ?c) (tl_taken t) (snd ?c))" by simp
  also note Cons.IH
  finally show ?case by (simp add: Let_def case_prod_unfold)
qed simp

lemmas tracking_frames =
  debitLots_frame registerSerialUnits_frame move_units_frame creditLot_frame

interpretation movement_lots: tracking_step "lot_step now companyId input m movementId"
  for now companyId input m movementId
proof unfold_locales
  fix db db'
  assume "lot_step now companyId input m movementId db = Inr db'"
  then show "tracking_only db db'"
    unfolding lot_step_def
    by (auto split: if_splits sum.splits prod.splits dest!: debitLots_frame
        intro: tracking_only_trans [OF _ tracking_fold] tracking_only_trans [OF _ tracking_links(1)])
       (metis creditLot_frame snd_conv tracking_links(1) tracking_only_trans)+
qed

interpretation movement_units: tracking_step "unit_step now companyId input m movementId"
  for now companyId input m movementId
  by unfold_locales
    (auto simp: unit_step_def split: if_splits sum.splits prod.splits dest!: registerSerialUnits_frame
       intro: tracking_only_trans [OF _ tracking_fold] tracking_fold)

interpretation lot_transfer: tracking_step "transfer_lot_step now companyId input m movementId"
  for now companyId input m movementId
  by unfold_locales
    (auto simp: transfer_lot_step_def split: if_splits sum.splits prod.splits dest!: debitLots_frame
       intro: tracking_only_trans [OF _ transfer_lots_frame])

interpretation unit_transfer: tracking_step "transfer_unit_step input m movementId"
  for input m movementId
  by unfold_locales
    (auto simp: transfer_unit_step_def split: if_splits sum.splits prod.splits dest!: move_units_frame
       intro: tracking_only_trans [OF _ tracking_fold])

subsection \<open>What a posting does to the levels and the ledger of movements\<close>

lemma create_movement_next:
  "create_movement now c w t m ty q p uc db = (mv, db') \<Longrightarrow>
     db_levels db' = db_levels db \<and> db_movements db' = db_movements db @ [mv] \<and> db_layers db' = db_layers db"
  by (auto simp: create_movement_def Let_def)

lemma layers_posting [simp]:
  "db_layers (upsert_level w m d a db) = db_layers db"
  "db_layers (queueLowStockCheck c m db) = db_layers db"
  by (simp_all add: upsert_level_def queueLowStockCheck_def)

lemma on_hand_queue [simp]: "on_hand w m (queueLowStockCheck c i db) = on_hand w m db"
  by (rule on_hand_cong) simp

text \<open>A transaction that succeeds, taken apart into its steps.\<close>

lemma record_movement_txE:
  assumes "record_movement_tx now companyId input m db = Inr (mv, db')"
  obtains uc avg db1 db2 db4 where
    "computeSingleWarehouseCosting now companyId (mi_warehouseId input) (mi_materialId input)
       (mi_type input) (mi_quantity input) (mi_unitCost input) db = Inr ((uc, avg), db1)"
    "create_movement now companyId (mi_warehouseId input) None (mi_materialId input)
       (mi_type input) (mi_quantity input) (mi_projectId input) uc db1 = (mv, db2)"
    "lot_step now companyId input m (sm_id mv) (upsert_level (mi_warehouseId input) (mi_materialId input)
       (movement_delta (mi_type input) (mi_quantity input)) avg db2) = Inr db4"
    "unit_step now companyId input m (sm_id mv) db4 = Inr db'"
  using assms unfolding record_movement_tx_def by (auto simp: Let_def split: sum.splits prod.splits)

lemma transfer_stock_txE:
  assumes "transfer_stock_tx now companyId input m db = Inr (mv, db')"
  obtains uc avg db1 db2 db5 where
    "computeTransferCosting now companyId (ti_fromWarehouseId input) (ti_toWarehouseId input)
       (ti_materialId input) (ti_quantity input) db = Inr ((uc, avg), db1)"
    "create_movement now companyId (ti_fromWarehouseId input) (Some (ti_toWarehouseId input))
       (ti_materialId input) Transfer (ti_quantity input) None uc db1 = (mv, db2)"
    "transfer_lot_step now companyId input m (sm_id mv)
       (upsert_level (ti_toWarehouseId input) (ti_materialId input) (ti_quantity input) avg
         (upsert_level (ti_fromWarehouseId input) (ti_materialId input) (- ti_quantity input) None db2)) = Inr db5"
    "transfer_unit_step input m (sm_id mv) db5 = Inr db'"
  using assms unfolding transfer_stock_tx_def by (auto simp: Let_def split: sum.splits prod.splits)

lemma recordMovementE:
  assumes "recordMovement now companyId input db = Inr (mv, db')"
  obtains m db'' where "check_movement companyId input db = Inr m"
    "record_movement_tx now companyId input m db = Inr (mv, db'')"
    "db' = (if movement_delta (mi_type input) (mi_quantity input) < 0
            then queueLowStockCheck companyId (mi_materialId input) db'' else db'')"
  using assms unfolding recordMovement_def by (auto split: sum.splits prod.splits)

lemma transferStockE:
  assumes "transferStock now companyId input db = Inr (mv, db')"
  obtains m db'' where "find_material companyId (ti_materialId input) db = Some m"
    "find_warehouse companyId (ti_fromWarehouseId input) db \<noteq> None"
    "find_warehouse companyId (ti_toWarehouseId input) db \<noteq> None"
    "transfer_stock_tx now companyId input m db = Inr (mv, db'')"
    "db' = queueLowStockCheck companyId (ti_materialId input) db''"
  using assms unfolding transferStock_def by (auto split: if_splits option.splits sum.splits prod.splits)

lemma record_movement_levels:
  assumes "recordMovement now companyId input db = Inr (mv, db')"
  shows "\<exists>avg db2. db_levels db2 = db_levels db \<and>
    db_levels db' = db_levels (upsert_level (mi_warehouseId input) (mi_materialId input)
      (movement_delta (mi_type input) (mi_quantity input)) avg db2)"
  using assms
  by (elim recordMovementE record_movement_txE)
    (fastforce dest: single_costing.levels_cost movement_lots.levels_track movement_units.levels_track
      create_movement_next)

lemma transfer_levels:
  assumes "transferStock now companyId input db = Inr (mv, db')"
  shows "\<exists>avg db2. db_levels db2 = db_levels db \<and>
    db_levels db' = db_levels (upsert_level (ti_toWarehouseId input) (ti_materialId input) (ti_quantity input) avg
      (upsert_level (ti_fromWarehouseId input) (ti_materialId input) (- ti_quantity input) None db2))"
  using assms
  by (elim transferStockE transfer_stock_txE)
    (fastforce dest: transfer_costing.levels_cost lot_transfer.levels_track unit_transfer.levels_track
      create_movement_next)

lemma recordMovement_posting:
  assumes "recordMovement now companyId input db = Inr (mv, db')"
  shows "(\<forall>w m. on_hand w m db' = on_hand w m db +
            (if w = mi_warehouseId input \<and> m = mi_materialId input
             then (if mi_type input \<in> {Issue, Write_off} then - mi_quantity input else mi_quantity input) else 0)) \<and>
         db_movements db' = db_movements db @ [mv] \<and>
         sm_companyId mv = companyId \<and> sm_warehouseId mv = mi_warehouseId input \<and>
         sm_materialId mv = mi_materialId input \<and> sm_type mv = mi_type input \<and>
         sm_quantity mv = mi_quantity input \<and> sm_projectId mv = mi_projectId input \<and> sm_createdAt mv = now"
proof -
  obtain avg db2 where lv: "db_levels db2 = db_levels db"
    "db_levels db' = db_levels (upsert_level (mi_warehouseId input) (mi_materialId input)
      (movement_delta (mi_type input) (mi_quantity input)) avg db2)"
    using record_movement_levels [OF assms] by blast
  have "on_hand w m db' = on_hand w m db +
      (if (w, m) = (mi_warehouseId input, mi_materialId input)
       then movement_delta (mi_type input) (mi_quantity input) else 0)" for w m
    using on_hand_cong [OF lv(2)] on_hand_cong [OF lv(1)] by (simp add: row_simps)
  moreover have "db_movements db' = db_movements db @ [mv] \<and>
     sm_companyId mv = companyId \<and> sm_warehouseId mv = mi_warehouseId input \<and>
     sm_materialId mv = mi_materialId input \<and> sm_type mv = mi_type input \<and>
     sm_quantity mv = mi_quantity input \<and> sm_projectId mv = mi_projectId input \<and> sm_createdAt mv = now"
    using assms
    by (elim recordMovementE record_movement_txE)
      (auto simp: create_movement_def Let_def dest!: single_costing.movements_cost
        movement_lots.movements_track movement_units.movements_track)
  ultimately show ?thesis by (auto simp: movement_delta_def decreasing_def)
qed

text \<open>C2 A movement posts its signed quantity at exactly one level: after a successful
  \<open>recordMovement\<close> the quantity on hand of the moved material at that warehouse has changed by
  \<open>+quantity\<close> (receipt, transfer) or \<open>-quantity\<close> (issue, write-off), no other pair of warehouse and
  material has changed, and the ledger has one new row, the movement returned, with the input's data.\<close>

theorem recordMovement_posts:
  assumes "recordMovement now companyId input db = Inr (mv, db')"
  shows "(\<forall>w m. on_hand w m db' = on_hand w m db +
            (if w = mi_warehouseId input \<and> m = mi_materialId input
             then (if mi_type input \<in> {Issue, Write_off} then - mi_quantity input else mi_quantity input) else 0)) \<and>
         db_movements db' = db_movements db @ [mv] \<and>
         sm_companyId mv = companyId \<and> sm_warehouseId mv = mi_warehouseId input \<and>
         sm_materialId mv = mi_materialId input \<and> sm_type mv = mi_type input \<and>
         sm_quantity mv = mi_quantity input \<and> sm_projectId mv = mi_projectId input \<and> sm_createdAt mv = now"
  using assms by (rule recordMovement_posting)

lemma transferStock_posting:
  assumes "transferStock now companyId input db = Inr (mv, db')" and "levels_unique db"
  shows "total_on_hand m db' = total_on_hand m db \<and> levels_unique db' \<and>
         on_hand w m db' = on_hand w m db
           - (if (w, m) = (ti_fromWarehouseId input, ti_materialId input) then ti_quantity input else 0)
           + (if (w, m) = (ti_toWarehouseId input, ti_materialId input) then ti_quantity input else 0)"
proof -
  obtain avg db2 where lv: "db_levels db2 = db_levels db"
    "db_levels db' = db_levels (upsert_level (ti_toWarehouseId input) (ti_materialId input) (ti_quantity input) avg
      (upsert_level (ti_fromWarehouseId input) (ti_materialId input) (- ti_quantity input) None db2))"
    using transfer_levels [OF assms(1)] by blast
  have uq: "levels_unique db2" using assms(2) lv(1) by (simp add: levels_unique_def)
  have "levels_unique db'"
    using levels_unique_upsert [OF levels_unique_upsert [OF uq]] lv(2) by (simp add: levels_unique_def)
  moreover have "total_on_hand m db' = total_on_hand m db"
    using total_on_hand_cong [OF lv(2)] total_on_hand_cong [OF lv(1)]
    by (simp add: total_on_hand_upsert uq levels_unique_upsert)
  moreover have "on_hand w m db' = on_hand w m db
           - (if (w, m) = (ti_fromWarehouseId input, ti_materialId input) then ti_quantity input else 0)
           + (if (w, m) = (ti_toWarehouseId input, ti_materialId input) then ti_quantity input else 0)"
    using on_hand_cong [OF lv(2)] on_hand_cong [OF lv(1)] by (simp add: row_simps)
  ultimately show ?thesis by blast
qed

text \<open>C1 A transfer conserves stock: every material's total over all warehouses stays the same, the
  source level falls and the destination level rises by the quantity, and nothing else moves.\<close>

theorem transferStock_conserves:
  assumes "transferStock now companyId input db = Inr (mv, db')" and "levels_unique db"
  shows "total_on_hand m db' = total_on_hand m db \<and> levels_unique db' \<and>
         on_hand w m db' = on_hand w m db
           - (if (w, m) = (ti_fromWarehouseId input, ti_materialId input) then ti_quantity input else 0)
           + (if (w, m) = (ti_toWarehouseId input, ti_materialId input) then ti_quantity input else 0)"
  using assms by (rule transferStock_posting)

definition example_issue :: "movement_type \<Rightarrow> number \<Rightarrow> movement_input" where
  "example_issue type quantity =
     \<lparr>mi_warehouseId = 10, mi_materialId = 20, mi_type = type, mi_quantity = quantity, mi_projectId = None,
      mi_unitCost = None, mi_lotNumber = None, mi_expiresAt = None, mi_lotId = None,
      mi_serialNumbers = None, mi_unitIds = None\<rparr>"

definition example_transfer :: "number \<Rightarrow> transfer_input" where
  "example_transfer quantity =
     \<lparr>ti_fromWarehouseId = 10, ti_toWarehouseId = 11, ti_materialId = 20, ti_quantity = quantity,
      ti_lotId = None, ti_unitIds = None\<rparr>"

lemma example_succeeds:
  "\<not> isl (recordMovement 9 7 (example_issue Issue 4) (example_stock Fifo))"
  "\<not> isl (transferStock 9 7 (example_transfer 4) (example_stock Fifo))"
  "levels_unique (example_stock Fifo)" "on_hand 10 20 (example_stock Fifo) = 5"
  "on_hand 11 20 (example_stock Fifo) = 0"
  by code_simp+

theorem recordMovement_posts_witness:
  "\<exists>mv db'. recordMovement 9 7 (example_issue Issue 4) (example_stock Fifo) = Inr (mv, db') \<and>
     on_hand 10 20 db' = 1"
proof (rule succeedsE [OF example_succeeds(1)])
  fix mv db'
  assume run: "recordMovement 9 7 (example_issue Issue 4) (example_stock Fifo) = Inr (mv, db')"
  then show ?thesis
    using recordMovement_posts [OF run] by (auto simp: example_succeeds example_issue_def)
qed

theorem transferStock_conserves_witness:
  "\<exists>mv db'. transferStock 9 7 (example_transfer 4) (example_stock Fifo) = Inr (mv, db') \<and>
     total_on_hand 20 db' = total_on_hand 20 (example_stock Fifo) \<and> on_hand 11 20 db' = 4"
proof (rule succeedsE [OF example_succeeds(2)])
  fix mv db'
  assume run: "transferStock 9 7 (example_transfer 4) (example_stock Fifo) = Inr (mv, db')"
  then show ?thesis
    using transferStock_conserves [OF run example_succeeds(3), of 20 11]
    by (auto simp: example_succeeds example_transfer_def)
qed

end
