(* ===== verification/Stock_Layers.thy ===== *)
theory Stock_Layers
  imports Stock_Laws
begin

section \<open>FIFO layers under the stock operations\<close>

text \<open>
  The cost-layer table is the FIFO ledger beside the levels. What leaves the layers of a warehouse
  is exactly what \<open>calculateFifoConsumption\<close> consumed, in quantity and in value; a transfer
  re-creates the same quantity, at the blended cost, at its destination.
\<close>

subsection \<open>The table after a write-back\<close>

text \<open>The layers still there after the updates: a layer with an update of at most zero is deleted.\<close>

definition layer_after :: "(uid \<times> number) list \<Rightarrow> layer_row \<Rightarrow> layer_row option" where
  "layer_after us l = (case map_of us (ly_id l) of
      None \<Rightarrow> Some l
    | Some q \<Rightarrow> if q \<le> 0 then None else Some (l\<lparr>ly_remainingQuantity := q\<rparr>))"

lemma map_filter_Cons:
  "List.map_filter f (x # xs) = (case f x of None \<Rightarrow> [] | Some y \<Rightarrow> [y]) @ List.map_filter f xs"
  by (simp add: List.map_filter_def split: option.split)

lemma map_filter_Nil: "List.map_filter f [] = []"
  by (simp add: List.map_filter_def)

lemma write_layer_map_filter: "write_layer (i, q) ls = List.map_filter (layer_after [(i, q)]) ls"
  by (induction ls) (auto simp: write_layer_def layer_after_def update_rows_def map_filter_Cons map_filter_Nil)

lemma map_filter_comp:
  "List.map_filter g (List.map_filter f xs) = List.map_filter (\<lambda>x. Option.bind (f x) g) xs"
  by (induction xs) (auto simp: map_filter_Cons map_filter_Nil split: option.split)

lemma layer_after_Cons:
  "i \<notin> fst ` set us \<Longrightarrow> Option.bind (layer_after [(i, q)] l) (layer_after us) = layer_after ((i, q) # us) l"
  by (auto simp: layer_after_def map_of_eq_None_iff split: option.split dest!: map_of_SomeD)
     (metis fst_conv image_eqI)+

lemma fold_write_layer:
  "distinct (map fst us) \<Longrightarrow> fold write_layer us ls = List.map_filter (layer_after us) ls"
proof (induction us arbitrary: ls)
  case Nil
  then show ?case by (induction ls) (simp_all add: layer_after_def map_filter_Cons map_filter_Nil)
next
  case (Cons u us)
  obtain i q where u: "u = (i, q)" by (cases u)
  with Cons.prems have new: "i \<notin> fst ` set us" by simp
  have "fold write_layer (u # us) ls = List.map_filter (layer_after us) (write_layer (i, q) ls)"
    using Cons by (simp add: u)
  also have "\<dots> = List.map_filter (layer_after (u # us)) ls"
    by (simp only: write_layer_map_filter map_filter_comp layer_after_Cons [OF new] u)
  finally show ?case .
qed

subsection \<open>Sums over the table\<close>

text \<open>Quantity or value of the layers a predicate selects: the weight of a layer does not depend on
  its remaining quantity.\<close>

definition weighted :: "(layer_row \<Rightarrow> number) \<Rightarrow> layer_row list \<Rightarrow> number" where
  "weighted c ls = (\<Sum>l \<leftarrow> ls. c l * ly_remainingQuantity l)"

lemma weighted_append [simp]: "weighted c (xs @ ys) = weighted c xs + weighted c ys"
  by (simp add: weighted_def)

lemma weighted_partition:
  "weighted c ls = weighted c (filter p ls) + weighted c (filter (\<lambda>l. \<not> p l) ls)"
  by (induction ls) (simp_all add: weighted_def)

lemma weighted_mset: "mset xs = mset ys \<Longrightarrow> weighted c xs = weighted c ys"
  unfolding weighted_def by (simp add: mset_map flip: sum_mset_sum_list)

lemma weighted_after:
  assumes "\<And>l q. c (l\<lparr>ly_remainingQuantity := q\<rparr>) = c l" and "\<And>i q. (i, q) \<in> set us \<Longrightarrow> 0 \<le> q"
  shows "weighted c (List.map_filter (layer_after us) ls) =
     (\<Sum>l \<leftarrow> ls. c l * (case map_of us (ly_id l) of None \<Rightarrow> ly_remainingQuantity l | Some q \<Rightarrow> q))"
proof (induction ls)
  case (Cons l ls)
  have "0 \<le> q" if "map_of us (ly_id l) = Some q" for q
    using assms(2) map_of_SomeD [OF that] by blast
  with Cons show ?case
    by (auto simp: weighted_def map_filter_Cons layer_after_def assms(1) split: option.split)
qed (simp add: weighted_def map_filter_Nil)

text \<open>The layers a consumption sees, and the bridge to \<open>apply_layer_updates\<close> on what it sees.\<close>

lemma weighted_open:
  assumes "\<And>l q. c (l\<lparr>ly_remainingQuantity := q\<rparr>) = c l" and "distinct (map ly_id (db_layers db))"
    and "\<And>i q. (i, q) \<in> set us \<Longrightarrow> 0 \<le> q \<and> i \<in> ly_id ` set (open_layers wh mat db)"
    and "distinct (map fst us)"
  shows "weighted c (db_layers (write_layers us db)) = weighted c (db_layers db)
     - weighted c (open_layers wh mat db)
     + (\<Sum>l \<leftarrow> open_layers wh mat db. c l * (case map_of us (ly_id l) of None \<Rightarrow> ly_remainingQuantity l | Some q \<Rightarrow> q))"
proof -
  let ?p = "\<lambda>l. ly_warehouseId l = wh \<and> ly_materialId l = mat \<and> 0 < ly_remainingQuantity l"
  let ?new = "\<lambda>l. c l * (case map_of us (ly_id l) of None \<Rightarrow> ly_remainingQuantity l | Some q \<Rightarrow> q)"
  let ?T = "db_layers db"
  have perm: "mset (open_layers wh mat db) = mset (filter ?p ?T)" by (simp add: open_layers_def)
  have other: "map_of us (ly_id l) = None" if l: "l \<in> set ?T" "\<not> ?p l" for l
  proof -
    have "ly_id l \<notin> ly_id ` set (open_layers wh mat db)"
      using l assms(2) unfolding open_layers_def by (auto simp: distinct_map inj_on_def)
    then show ?thesis using assms(3) by (force simp: map_of_eq_None_iff)
  qed
  have "weighted c (db_layers (write_layers us db)) = sum_list (map ?new ?T)"
    using weighted_after [of c us ?T] assms(1,3) by (simp add: write_layers_def fold_write_layer [OF assms(4)])
  also have "\<dots> = sum_list (map ?new (filter ?p ?T)) + sum_list (map ?new (filter (\<lambda>l. \<not> ?p l) ?T))"
    by (rule sum_list_partition)
  also have "sum_list (map ?new (filter (\<lambda>l. \<not> ?p l) ?T)) = weighted c (filter (\<lambda>l. \<not> ?p l) ?T)"
    unfolding weighted_def by (intro arg_cong [of _ _ sum_list] map_cong) (auto simp: other)
  also have "sum_list (map ?new (filter ?p ?T)) = sum_list (map ?new (open_layers wh mat db))"
    using perm by (simp add: mset_map flip: sum_mset_sum_list)
  finally show ?thesis
    using weighted_partition [of c ?T ?p] weighted_mset [OF perm, of c] by simp
qed

subsection \<open>What one consumption takes from the table\<close>

definition layer_quantity :: "uid \<Rightarrow> uid \<Rightarrow> stock_db \<Rightarrow> number" where
  "layer_quantity w m db = weighted (\<lambda>l. if ly_warehouseId l = w \<and> ly_materialId l = m then 1 else 0) (db_layers db)"

definition layer_value :: "uid \<Rightarrow> uid \<Rightarrow> stock_db \<Rightarrow> number" where
  "layer_value w m db =
     weighted (\<lambda>l. if ly_warehouseId l = w \<and> ly_materialId l = m then ly_unitCost l else 0) (db_layers db)"

text \<open>Layer ids are a primary key, and remaining quantities are column values of scale 4.\<close>

definition layers_ok :: "stock_db \<Rightarrow> bool" where
  "layers_ok db \<longleftrightarrow> distinct (map ly_id (db_layers db)) \<and>
     list_all (\<lambda>l. on_grid 10000 (ly_remainingQuantity l) \<and> ly_id l < next_uid db) (db_layers db)"

lemma open_layers_set: "l \<in> set (open_layers wh mat db) \<longleftrightarrow>
    l \<in> set (db_layers db) \<and> ly_warehouseId l = wh \<and> ly_materialId l = mat \<and> 0 < ly_remainingQuantity l"
  by (auto simp: open_layers_def)

lemma open_layers_consumption:
  assumes "layers_ok db"
  shows "distinct (map cl_id (for_consumption (open_layers wh mat db)))"
    and "l \<in> set (for_consumption (open_layers wh mat db)) \<Longrightarrow>
           on_grid 10000 (cl_remainingQuantity l) \<and> 0 < cl_remainingQuantity l"
proof -
  have "distinct (map ly_id (open_layers wh mat db))"
    using assms by (auto simp: open_layers_def layers_ok_def distinct_map inj_on_def)
  then show "distinct (map cl_id (for_consumption (open_layers wh mat db)))"
    by (simp add: for_consumption_def comp_def)
  show "l \<in> set (for_consumption (open_layers wh mat db)) \<Longrightarrow>
           on_grid 10000 (cl_remainingQuantity l) \<and> 0 < cl_remainingQuantity l"
    using assms by (auto simp: for_consumption_def open_layers_set layers_ok_def list_all_iff)
qed

abbreviation run_on :: "uid \<Rightarrow> uid \<Rightarrow> number \<Rightarrow> stock_db \<Rightarrow> number \<times> (uid \<times> number) list" where
  "run_on wh mat q db \<equiv> fifo_run (for_consumption (open_layers wh mat db)) q"

lemma consumption_updates:
  assumes "layers_ok db"
  shows "distinct (map fst (snd (run_on wh mat q db)))"
    and "(i, r) \<in> set (snd (run_on wh mat q db)) \<Longrightarrow> 0 \<le> r \<and> i \<in> ly_id ` set (open_layers wh mat db)"
proof -
  let ?ls = "for_consumption (open_layers wh mat db)" and ?us = "snd (run_on wh mat q db)"
  obtain zs where "map fst ?us @ zs = map cl_id (filter (\<lambda>l. 0 < cl_remainingQuantity l) ?ls)"
    using fifo.updates_in_order [of fst cl_id ?ls q] by auto
  moreover have "distinct (map cl_id (filter (\<lambda>l. 0 < cl_remainingQuantity l) ?ls))"
    using open_layers_consumption(1) [OF assms] by (rule distinct_map_filter)
  ultimately show "distinct (map fst ?us)" by (metis distinct_append)
  assume "(i, r) \<in> set ?us"
  then obtain x k where "x \<in> set ?ls" "(i, r) = (cl_id x, round4 (cl_remainingQuantity x - k))"
      "0 < k" "k \<le> cl_remainingQuantity x"
    using fifo.update_source [of "(i, r)" ?ls q] by auto
  then show "0 \<le> r \<and> i \<in> ly_id ` set (open_layers wh mat db)"
    using round_at_nonneg [of 10000 "cl_remainingQuantity x - k"]
    by (auto simp: for_consumption_def round4_def)
qed

text \<open>A consumption takes from the layers of its warehouse and material what the run took, at its
  cost, and leaves every other layer alone.\<close>

lemma consumption_weighted:
  assumes "layers_ok db" and "\<And>l q. c (l\<lparr>ly_remainingQuantity := q\<rparr>) = c l"
  shows "weighted c (db_layers (write_layers (snd (run_on wh mat q db)) db)) =
     weighted c (db_layers db) - weighted c (open_layers wh mat db)
     + (\<Sum>l \<leftarrow> open_layers wh mat db. c l * (case map_of (snd (run_on wh mat q db)) (ly_id l) of
          None \<Rightarrow> ly_remainingQuantity l | Some q \<Rightarrow> q))"
  by (rule weighted_open) (use assms consumption_updates [OF assms(1)] in \<open>auto simp: layers_ok_def\<close>)

lemma after_value:
  "(\<Sum>l \<leftarrow> ls. ly_unitCost l * (case map_of us (ly_id l) of None \<Rightarrow> ly_remainingQuantity l | Some q \<Rightarrow> q)) =
     layers_value (apply_layer_updates us (for_consumption ls))"
  by (induction ls) (auto simp: layers_value_def apply_layer_updates_def for_consumption_def split: option.split)

lemma after_quantity:
  "(\<Sum>l \<leftarrow> ls. case map_of us (ly_id l) of None \<Rightarrow> ly_remainingQuantity l | Some q \<Rightarrow> q) =
     layers_quantity (apply_layer_updates us (for_consumption ls))"
  by (induction ls) (auto simp: layers_quantity_def apply_layer_updates_def for_consumption_def split: option.split)

lemma sum_at_key:
  "(\<Sum>l \<leftarrow> open_layers wh mat db. (if ly_warehouseId l = w \<and> ly_materialId l = m then f l else 0) * g l) =
     (if w = wh \<and> m = mat then \<Sum>l \<leftarrow> open_layers wh mat db. f l * g l else (0 :: number))"
proof -
  have *: "ly_warehouseId l = wh \<and> ly_materialId l = mat" if "l \<in> set (open_layers wh mat db)" for l
    using that by (simp add: open_layers_set)
  show ?thesis
    using * by (induction "open_layers wh mat db") (auto cong: map_cong)
qed

lemma consumption_quantity:
  assumes "layers_ok db" and "on_grid 10000 q"
  shows "layer_quantity w m (write_layers (snd (run_on wh mat q db)) db) = layer_quantity w m db -
     (if w = wh \<and> m = mat then q - fst (run_on wh mat q db) else 0)"
proof -
  have "layers_quantity (apply_layer_updates (snd (run_on wh mat q db)) (for_consumption (open_layers wh mat db)))
      + (q - fst (run_on wh mat q db)) = layers_quantity (for_consumption (open_layers wh mat db))"
    by (rule layers_quantity_conserved) (use open_layers_consumption [OF assms(1)] assms(2) in auto)
  moreover have "layers_quantity (for_consumption ls) = (\<Sum>l \<leftarrow> ls. ly_remainingQuantity l)" for ls
    by (simp add: layers_quantity_def for_consumption_def comp_def)
  ultimately show ?thesis
    unfolding layer_quantity_def
    by (subst consumption_weighted [OF assms(1)])
      (simp_all add: weighted_def sum_at_key after_quantity)
qed

lemma consumption_value:
  assumes "layers_ok db" and "on_grid 10000 q"
  shows "layer_value w m (write_layers (snd (run_on wh mat q db)) db) = layer_value w m db -
     (if w = wh \<and> m = mat then fst (snd (fifo_loop (for_consumption (open_layers wh mat db)) q 0 [])) else 0)"
proof -
  have "layers_value (apply_layer_updates (snd (run_on wh mat q db)) (for_consumption (open_layers wh mat db)))
      + fst (snd (fifo_loop (for_consumption (open_layers wh mat db)) q 0 [])) =
      layers_value (for_consumption (open_layers wh mat db))"
    by (rule layers_value_conserved) (use open_layers_consumption [OF assms(1)] assms(2) in auto)
  moreover have "layers_value (for_consumption ls) = (\<Sum>l \<leftarrow> ls. ly_unitCost l * ly_remainingQuantity l)" for ls
    by (simp add: layers_value_def for_consumption_def comp_def mult.commute)
  ultimately show ?thesis
    unfolding layer_value_def
    by (subst consumption_weighted [OF assms(1)])
      (simp_all add: weighted_def sum_at_key after_value)
qed

text \<open>What the layers of a warehouse hold is what a consumption may take.\<close>

lemma available_in_layers:
  "(\<Sum>l \<leftarrow> for_consumption (open_layers wh mat db). max 0 (cl_remainingQuantity l)) =
     (\<Sum>l \<leftarrow> open_layers wh mat db. ly_remainingQuantity l)"
proof -
  have "max 0 (ly_remainingQuantity l) = ly_remainingQuantity l" if "l \<in> set (open_layers wh mat db)" for l
    using that by (simp add: open_layers_set)
  then show ?thesis by (auto simp: for_consumption_def comp_def intro!: arg_cong [of _ _ sum_list])
qed

definition available_layers :: "uid \<Rightarrow> uid \<Rightarrow> stock_db \<Rightarrow> number" where
  "available_layers wh mat db = (\<Sum>l \<leftarrow> open_layers wh mat db. ly_remainingQuantity l)"

lemma available_layers_nonneg: "0 \<le> available_layers wh mat db"
  unfolding available_layers_def by (rule sum_list_nonneg) (auto simp: open_layers_set)

lemma run_on_left: "0 \<le> q \<Longrightarrow> q - fst (run_on wh mat q db) = min q (available_layers wh mat db)"
  using min_offered [OF available_layers_nonneg, of q]
  by (simp add: fifo.left_over available_in_layers available_layers_def [symmetric])

lemma consumed_on:
  assumes "layers_ok db" and "on_grid 10000 q" and "0 \<le> q"
  shows "fr_consumedQuantity (calculateFifoConsumption (for_consumption (open_layers wh mat db)) q) =
     min q (available_layers wh mat db)"
  using fifo_consumed [of "for_consumption (open_layers wh mat db)" q] assms
    open_layers_consumption(2) [OF assms(1)] available_in_layers [of wh mat db]
  by (simp add: available_layers_def)

lemma totalCost_on:
  "fr_totalCost (calculateFifoConsumption ls q) = round4 (fst (snd (fifo_loop ls q 0 [])))"
  by (simp add: calculateFifoConsumption_def split: prod.split)

subsection \<open>Issues and transfers under FIFO\<close>

lemma layer_cong:
  assumes "db_layers db = db_layers db'"
  shows "layer_quantity w m db = layer_quantity w m db'" "layer_value w m db = layer_value w m db'"
  using assms by (simp_all add: layer_quantity_def layer_value_def)

lemma movement_layers:
  assumes "recordMovement now companyId input db = Inr (mv, db')"
  obtains avg db1 where
    "computeSingleWarehouseCosting now companyId (mi_warehouseId input) (mi_materialId input)
       (mi_type input) (mi_quantity input) (mi_unitCost input) db = Inr ((sm_unitCost mv, avg), db1)"
    "db_layers db' = db_layers db1"
proof -
  from assms obtain m db'' uc avg db1 db2 db4 where
    q: "db' = (if movement_delta (mi_type input) (mi_quantity input) < 0
            then queueLowStockCheck companyId (mi_materialId input) db'' else db'')" and
    c: "computeSingleWarehouseCosting now companyId (mi_warehouseId input) (mi_materialId input)
       (mi_type input) (mi_quantity input) (mi_unitCost input) db = Inr ((uc, avg), db1)" and
    mv: "create_movement now companyId (mi_warehouseId input) None (mi_materialId input)
       (mi_type input) (mi_quantity input) (mi_projectId input) uc db1 = (mv, db2)" and
    l: "lot_step now companyId input m (sm_id mv) (upsert_level (mi_warehouseId input) (mi_materialId input)
       (movement_delta (mi_type input) (mi_quantity input)) avg db2) = Inr db4" and
    u: "unit_step now companyId input m (sm_id mv) db4 = Inr db''"
    by (elim recordMovementE record_movement_txE)
  have "sm_unitCost mv = uc" using mv by (auto simp: create_movement_def Let_def)
  moreover have "db_layers db' = db_layers db1"
    using q create_movement_next [OF mv] movement_lots.layers_track [OF l] movement_units.layers_track [OF u]
    by simp
  ultimately show thesis using c by (intro that) auto
qed

lemma single_costing_fifo_out:
  assumes "computeSingleWarehouseCosting now companyId wh mat type q c db = Inr ((uc, avg), db1)"
    and "type \<noteq> Receipt" and "getCostingMethodTx db companyId = Inr Fifo"
  shows "db_layers db1 = db_layers (write_layers (snd (run_on wh mat q db)) db)"
    and "0 < fr_consumedQuantity (calculateFifoConsumption (for_consumption (open_layers wh mat db)) q) \<Longrightarrow>
      uc = Some (fr_totalCost (calculateFifoConsumption (for_consumption (open_layers wh mat db)) q) /
                 fr_consumedQuantity (calculateFifoConsumption (for_consumption (open_layers wh mat db)) q))"
proof -
  have "fr_consumedQuantity (calculateFifoConsumption (for_consumption []) q) = 0" "snd (fifo_run (for_consumption []) q) = []"
    by (simp_all add: for_consumption_def calculateFifoConsumption_def fifo.run_empty)
  with assms show "db_layers db1 = db_layers (write_layers (snd (run_on wh mat q db)) db)"
    by (auto simp: computeSingleWarehouseCosting_def Let_def calculateFifoConsumption_run write_layers_def split: if_splits)
  with assms \<open>fr_consumedQuantity (calculateFifoConsumption (for_consumption []) q) = 0\<close>
  show "0 < fr_consumedQuantity (calculateFifoConsumption (for_consumption (open_layers wh mat db)) q) \<Longrightarrow>
      uc = Some (fr_totalCost (calculateFifoConsumption (for_consumption (open_layers wh mat db)) q) /
                 fr_consumedQuantity (calculateFifoConsumption (for_consumption (open_layers wh mat db)) q))"
    by (auto simp: computeSingleWarehouseCosting_def Let_def split: if_splits)
qed


lemma create_layer_quantity:
  "layer_quantity w m (create_layer now c wh mat q u db) = layer_quantity w m db + (if w = wh \<and> m = mat then q else 0)"
  "layer_value w m (create_layer now c wh mat q u db) = layer_value w m db + (if w = wh \<and> m = mat then u * q else 0)"
  by (simp_all add: layer_quantity_def layer_value_def create_layer_def weighted_def)

lemma transfer_layers:
  assumes "transferStock now companyId input db = Inr (mv, db')"
  obtains uc avg db1 where
    "computeTransferCosting now companyId (ti_fromWarehouseId input) (ti_toWarehouseId input)
       (ti_materialId input) (ti_quantity input) db = Inr ((uc, avg), db1)"
    "db_layers db' = db_layers db1"
proof -
  from assms obtain m db'' uc avg db1 db2 db5 where
    q: "db' = queueLowStockCheck companyId (ti_materialId input) db''" and
    c: "computeTransferCosting now companyId (ti_fromWarehouseId input) (ti_toWarehouseId input)
       (ti_materialId input) (ti_quantity input) db = Inr ((uc, avg), db1)" and
    mv: "create_movement now companyId (ti_fromWarehouseId input) (Some (ti_toWarehouseId input))
       (ti_materialId input) Transfer (ti_quantity input) None uc db1 = (mv, db2)" and
    l: "transfer_lot_step now companyId input m (sm_id mv)
       (upsert_level (ti_toWarehouseId input) (ti_materialId input) (ti_quantity input) avg
         (upsert_level (ti_fromWarehouseId input) (ti_materialId input) (- ti_quantity input) None db2)) = Inr db5" and
    u: "transfer_unit_step input m (sm_id mv) db5 = Inr db''"
    by (elim transferStockE transfer_stock_txE)
  have "db_layers db' = db_layers db1"
    using q create_movement_next [OF mv] lot_transfer.layers_track [OF l] unit_transfer.layers_track [OF u]
    by simp
  with c show thesis by (rule that)
qed

lemma transfer_costing_fifo:
  assumes "computeTransferCosting now companyId fromWh toWh mat q db = Inr ((uc, avg), db1)"
    and "getCostingMethodTx db companyId = Inr Fifo" and "layers_ok db" and "on_grid 10000 q" and "0 \<le> q"
  defines "taken \<equiv> min q (available_layers fromWh mat db)"
  defines "cost \<equiv> fr_totalCost (calculateFifoConsumption (for_consumption (open_layers fromWh mat db)) q)"
  shows "if 0 < taken then \<exists>db2. db_layers db2 = db_layers (write_layers (snd (run_on fromWh mat q db)) db) \<and>
            db1 = create_layer now companyId toWh mat taken (cost / taken) db2
         else db1 = db"
proof -
  have consumed: "fr_consumedQuantity (calculateFifoConsumption (for_consumption (open_layers fromWh mat db)) q) = taken"
    unfolding taken_def by (rule consumed_on [OF assms(3,4,5)])
  have "open_layers fromWh mat db = [] \<Longrightarrow> \<not> 0 < taken"
    by (simp add: taken_def available_layers_def min_def)
  with assms(1,2) consumed show ?thesis
    by (auto simp: computeTransferCosting_def Let_def cost_def calculateFifoConsumption_run(3) split: if_splits)
qed

text \<open>Under FIFO a transfer carries the cost layers along: what it could take leaves the source's
  layers and arrives at the destination's, no other layer key changes, and between two different
  warehouses the value that arrives is the value that left, rounded to four decimals.\<close>

theorem fifo_transfer_moves_layers:
  assumes "transferStock now companyId input db = Inr (mv, db')"
    and "getCostingMethodTx db companyId = Inr Fifo" and "layers_ok db"
    and "on_grid 10000 (ti_quantity input)" and "0 \<le> ti_quantity input"
  defines "taken \<equiv> min (ti_quantity input) (available_layers (ti_fromWarehouseId input) (ti_materialId input) db)"
  shows "(\<forall>w m. layer_quantity w m db' = layer_quantity w m db
            - (if w = ti_fromWarehouseId input \<and> m = ti_materialId input then taken else 0)
            + (if w = ti_toWarehouseId input \<and> m = ti_materialId input then taken else 0)) \<and>
         (ti_fromWarehouseId input \<noteq> ti_toWarehouseId input \<longrightarrow>
            layer_value (ti_toWarehouseId input) (ti_materialId input) db' =
            layer_value (ti_toWarehouseId input) (ti_materialId input) db +
            round4 (layer_value (ti_fromWarehouseId input) (ti_materialId input) db -
                    layer_value (ti_fromWarehouseId input) (ti_materialId input) db'))"
proof -
  let ?f = "ti_fromWarehouseId input" and ?t = "ti_toWarehouseId input" and ?m = "ti_materialId input"
  let ?q = "ti_quantity input"
  obtain uc avg db1 where c: "computeTransferCosting now companyId ?f ?t ?m ?q db = Inr ((uc, avg), db1)"
    and l: "db_layers db' = db_layers db1"
    using transfer_layers [OF assms(1)] .
  note fifo = transfer_costing_fifo [OF c assms(2-5), folded taken_def]
  show ?thesis
  proof (cases "0 < taken")
    case True
    with fifo obtain db2 where db2: "db_layers db2 = db_layers (write_layers (snd (run_on ?f ?m ?q db)) db)"
      and db1: "db1 = create_layer now companyId ?t ?m taken
        (fr_totalCost (calculateFifoConsumption (for_consumption (open_layers ?f ?m db)) ?q) / taken) db2"
      by auto
    have cancel: "x / taken * taken = x" for x using True by simp
    have run: "?q - fst (run_on ?f ?m ?q db) = taken" unfolding taken_def by (rule run_on_left [OF assms(5)])
    show ?thesis
      by (auto simp: layer_cong [OF l] db1 create_layer_quantity cancel layer_cong [OF db2] totalCost_on
          consumption_quantity [OF assms(3,4)] consumption_value [OF assms(3,4)]
          run simp del: times_divide_eq_left)
  next
    case False
    with available_layers_nonneg [of ?f ?m db] assms(5) have "taken = 0" by (auto simp: taken_def min_def)
    with fifo False show ?thesis by (simp add: layer_cong [OF l])
  qed
qed

subsection \<open>The theorems at concrete inputs\<close>

lemma example_layers_facts:
  "layers_ok (example_stock Fifo)" "getCostingMethodTx (example_stock Fifo) 7 = Inr Fifo"
  "available_layers 10 20 (example_stock Fifo) = 5" "layer_quantity 10 20 (example_stock Fifo) = 5"
  "layer_quantity 11 20 (example_stock Fifo) = 0" "on_grid 10000 4"
  by code_simp+


theorem fifo_transfer_moves_layers_witness:
  "\<exists>mv db'. transferStock 9 7 (example_transfer 4) (example_stock Fifo) = Inr (mv, db') \<and>
     layer_quantity 10 20 db' = 1 \<and> layer_quantity 11 20 db' = 4"
proof (rule succeedsE [OF example_succeeds(2)])
  fix mv db'
  assume run: "transferStock 9 7 (example_transfer 4) (example_stock Fifo) = Inr (mv, db')"
  then show ?thesis
    using fifo_transfer_moves_layers [OF run] by (auto simp: example_layers_facts example_transfer_def)
qed

end
