(* ===== verification/Stock_Transfers.thy ===== *)
theory Stock_Transfers
  imports Stock_Laws
begin

section \<open>StockTransfersService: transfers in transit\<close>

text \<open>
  \<open>apps/api/src/materials/stock-transfers.service.ts\<close>. \<open>initiate\<close> debits the source and records
  the transfer, \<open>receive\<close> credits the destination, \<open>cancel\<close> credits the source back. The status is
  read inside the serializable transaction, so each operation is one atomic step; their
  interleavings are the relation \<open>transfer_op\<close>, and what is on hand plus what is in transit is
  conserved along it.
\<close>

datatype transfer_status = In_transit | Received | Cancelled

record stock_transfer =
  st_id :: uid
  st_companyId :: uid
  st_fromWarehouseId :: uid
  st_toWarehouseId :: uid
  st_materialId :: uid
  st_quantity :: number
  st_unitCost :: "number option"
  st_status :: transfer_status
  st_initiatedByName :: string
  st_initiatedAt :: date
  st_receivedByName :: "string option"
  st_receivedAt :: "date option"
  st_cancelledAt :: "date option"

record transfer_db =
  td_stock :: stock_db
  td_transfers :: "stock_transfer list"

record initiate_input =
  ii_fromWarehouseId :: uid
  ii_toWarehouseId :: uid
  ii_materialId :: uid
  ii_quantity :: number

fun status_name :: "transfer_status \<Rightarrow> string" where
  "status_name In_transit = ''in_transit''"
| "status_name Received = ''received''"
| "status_name Cancelled = ''cancelled''"

text \<open>\<open>orderBy: [initiatedAt desc, id desc]\<close>.\<close>

definition list_transfers :: "uid \<Rightarrow> uid option \<Rightarrow> nat \<Rightarrow> uid option \<Rightarrow> transfer_db \<Rightarrow> stock_transfer list" where
  "list_transfers companyId warehouseId n cursor s =
     page n st_id cursor
       (sort_key (\<lambda>t. (- st_initiatedAt t, - int (st_id t)))
         (filter (\<lambda>t. st_companyId t = companyId \<and>
            (case warehouseId of None \<Rightarrow> True
             | Some w \<Rightarrow> st_fromWarehouseId t = w \<or> st_toWarehouseId t = w)) (td_transfers s)))"

definition initiate :: "date \<Rightarrow> uid \<Rightarrow> string \<Rightarrow> initiate_input \<Rightarrow> transfer_db
    \<Rightarrow> app_error + stock_transfer \<times> transfer_db" where
  "initiate now companyId initiatedByName input s =
     (let db = td_stock s in
      if find_warehouse companyId (ii_fromWarehouseId input) db = None
      then Inl (NotFoundException (msg ''Source warehouse not found''))
      else if find_warehouse companyId (ii_toWarehouseId input) db = None
      then Inl (NotFoundException (msg ''Destination warehouse not found''))
      else if find_material companyId (ii_materialId input) db = None
      then Inl (NotFoundException (msg ''Material not found''))
      else case computeSingleWarehouseCosting now companyId (ii_fromWarehouseId input) (ii_materialId input)
                  Issue (ii_quantity input) None db of
        Inl e \<Rightarrow> Inl e
      | Inr ((movementUnitCost, _), db1) \<Rightarrow>
          (let transfer = \<lparr>st_id = next_uid db1, st_companyId = companyId,
                 st_fromWarehouseId = ii_fromWarehouseId input, st_toWarehouseId = ii_toWarehouseId input,
                 st_materialId = ii_materialId input, st_quantity = ii_quantity input,
                 st_unitCost = movementUnitCost, st_status = In_transit,
                 st_initiatedByName = initiatedByName, st_initiatedAt = now,
                 st_receivedByName = None, st_receivedAt = None, st_cancelledAt = None\<rparr>;
               db2 = upsert_level (ii_fromWarehouseId input) (ii_materialId input) (- ii_quantity input) None
                       (db1\<lparr>next_uid := Suc (next_uid db1)\<rparr>)
           in Inr (transfer, \<lparr>td_stock = db2, td_transfers = td_transfers s @ [transfer]\<rparr>)))"

text \<open>The common part of \<open>receive\<close> and \<open>cancel\<close>: the transfer in transit, read in the transaction.\<close>

definition load_in_transit :: "uid \<Rightarrow> uid \<Rightarrow> transfer_db \<Rightarrow> app_error + stock_transfer" where
  "load_in_transit companyId i s =
     (case find_row (\<lambda>t. st_id t = i \<and> st_companyId t = companyId) (td_transfers s) of
        None \<Rightarrow> Inl (NotFoundException (msg ''Stock transfer not found''))
      | Some t \<Rightarrow>
          if st_status t \<noteq> In_transit
          then Inl (BadRequestException [Str ''Transfer is already '', Str (status_name (st_status t))])
          else Inr t)"

definition settle_transfer :: "date \<Rightarrow> uid \<Rightarrow> uid \<Rightarrow> (stock_transfer \<Rightarrow> stock_transfer) \<Rightarrow> stock_transfer
    \<Rightarrow> transfer_db \<Rightarrow> app_error + stock_transfer \<times> transfer_db" where
  "settle_transfer now companyId wh close t s =
     (case computeSingleWarehouseCosting now companyId wh (st_materialId t) Receipt (st_quantity t)
             (st_unitCost t) (td_stock s) of
        Inl e \<Rightarrow> Inl e
      | Inr ((_, averageCostUpdate), db1) \<Rightarrow>
          Inr (close t,
               \<lparr>td_stock = upsert_level wh (st_materialId t) (st_quantity t) averageCostUpdate db1,
                td_transfers = update_rows (\<lambda>r. st_id r = st_id t) close (td_transfers s)\<rparr>))"

definition receive :: "date \<Rightarrow> uid \<Rightarrow> string \<Rightarrow> uid \<Rightarrow> transfer_db \<Rightarrow> app_error + stock_transfer \<times> transfer_db" where
  "receive now companyId receivedByName i s =
     (case load_in_transit companyId i s of
        Inl e \<Rightarrow> Inl e
      | Inr t \<Rightarrow>
          settle_transfer now companyId (st_toWarehouseId t)
            (\<lambda>t. t\<lparr>st_status := Received, st_receivedByName := Some receivedByName,
                   st_receivedAt := Some now\<rparr>) t s)"

definition cancel :: "date \<Rightarrow> uid \<Rightarrow> uid \<Rightarrow> transfer_db \<Rightarrow> app_error + stock_transfer \<times> transfer_db" where
  "cancel now companyId i s =
     (case load_in_transit companyId i s of
        Inl e \<Rightarrow> Inl e
      | Inr t \<Rightarrow>
          settle_transfer now companyId (st_fromWarehouseId t)
            (\<lambda>t. t\<lparr>st_status := Cancelled, st_cancelledAt := Some now\<rparr>) t s)"

subsection \<open>Conservation\<close>

definition in_transit :: "uid \<Rightarrow> transfer_db \<Rightarrow> number" where
  "in_transit m s = (\<Sum>t \<leftarrow> td_transfers s.
     if st_materialId t = m \<and> st_status t = In_transit then st_quantity t else 0)"

definition transfers_ok :: "transfer_db \<Rightarrow> bool" where
  "transfers_ok s \<longleftrightarrow> levels_unique (td_stock s) \<and> distinct (map st_id (td_transfers s)) \<and>
     list_all (\<lambda>t. st_id t < next_uid (td_stock s)) (td_transfers s)"

inductive transfer_op :: "transfer_db \<Rightarrow> transfer_db \<Rightarrow> bool" where
  initiate: "initiate now companyId by input s = Inr (t, s') \<Longrightarrow> transfer_op s s'"
| receive: "receive now companyId by i s = Inr (t, s') \<Longrightarrow> transfer_op s s'"
| cancel: "cancel now companyId i s = Inr (t, s') \<Longrightarrow> transfer_op s s'"

lemma load_in_transitD:
  "load_in_transit companyId i s = Inr t \<Longrightarrow>
     t \<in> set (td_transfers s) \<and> st_id t = i \<and> st_companyId t = companyId \<and> st_status t = In_transit"
  by (auto simp: load_in_transit_def split: option.splits if_splits dest: find_row_SomeD)

lemma next_uid_upsert [simp]: "next_uid (upsert_level w m d a db) = next_uid db"
  by (simp add: upsert_level_def)

lemma levels_unique_cong: "db_levels db = db_levels db' \<Longrightarrow> levels_unique db = levels_unique db'"
  by (simp add: levels_unique_def)

lemma level_facts_next [simp]:
  "levels_unique (db\<lparr>next_uid := n\<rparr>) = levels_unique db"
  "total_on_hand m (db\<lparr>next_uid := n\<rparr>) = total_on_hand m db"
  "on_hand w m (db\<lparr>next_uid := n\<rparr>) = on_hand w m db"
  by (simp_all add: levels_unique_def total_on_hand_def on_hand_def find_level_def)

definition accounted :: "uid \<Rightarrow> transfer_db \<Rightarrow> number" where
  "accounted m s = total_on_hand m (td_stock s) + in_transit m s"

text \<open>A transfer that is no longer in transit is final: no later operation changes its row.\<close>

definition settled_kept :: "transfer_db \<Rightarrow> transfer_db \<Rightarrow> bool" where
  "settled_kept s s' \<longleftrightarrow> (\<forall>t \<in> set (td_transfers s). st_status t \<noteq> In_transit \<longrightarrow> t \<in> set (td_transfers s'))"

lemma settle_step:
  assumes "settle_transfer now companyId wh close t s = Inr (r, s')" and ok: "transfers_ok s"
    and t: "t \<in> set (td_transfers s)" "st_status t = In_transit"
    and close: "\<And>t. st_id (close t) = st_id t" "\<And>t. st_status (close t) \<noteq> In_transit"
  shows "transfers_ok s' \<and> (\<forall>m. accounted m s' = accounted m s) \<and> settled_kept s s'"
proof -
  obtain uc avg db1 where
    c: "computeSingleWarehouseCosting now companyId wh (st_materialId t) Receipt (st_quantity t)
          (st_unitCost t) (td_stock s) = Inr ((uc, avg), db1)" and
    s': "s' = \<lparr>td_stock = upsert_level wh (st_materialId t) (st_quantity t) avg db1,
               td_transfers = update_rows (\<lambda>r. st_id r = st_id t) close (td_transfers s)\<rparr>"
    using assms(1) by (auto simp: settle_transfer_def split: sum.splits prod.splits)
  note lv = single_costing.levels_cost [OF c] and nx = layers_only_fields(9) [OF single_costing.cost_frame [OF c]]
  have uq: "levels_unique db1" using ok levels_unique_cong [OF lv] by (simp add: transfers_ok_def)
  have dist: "distinct (map st_id (td_transfers s))" using ok by (simp add: transfers_ok_def)
  then have row: "find_row (\<lambda>r. st_id r = st_id t) (td_transfers s) = Some t"
    using t(1) by (intro find_row_key) simp_all
  have "in_transit m s' = in_transit m s + (if m = st_materialId t then - st_quantity t else 0)" for m
    unfolding in_transit_def s'
    using sum_update_rows [OF dist row, of "\<lambda>t. if st_materialId t = m \<and> st_status t = In_transit then st_quantity t else 0" close]
      t(2) close(2) by simp
  moreover have "total_on_hand m (td_stock s') = total_on_hand m (td_stock s) + (if m = st_materialId t then st_quantity t else 0)" for m
    using total_on_hand_cong [OF lv] by (simp add: s' total_on_hand_upsert uq)
  moreover have "transfers_ok s'"
  proof -
    have "st_id r < next_uid db1" if "r \<in> set (td_transfers s)" for r
      using that ok nx by (auto simp: transfers_ok_def list_all_iff)
    then have "list_all (\<lambda>r. st_id r < next_uid db1)
        (update_rows (\<lambda>r. st_id r = st_id t) close (td_transfers s))"
      using close(1) t(1) by (fastforce simp: list_all_iff update_rows_def)
    then show ?thesis
      using dist levels_unique_upsert [OF uq] by (simp add: transfers_ok_def s' map_update_rows close(1))
  qed
  moreover have "settled_kept s s'"
  proof -
    have "r = t" if "r \<in> set (td_transfers s)" "st_id r = st_id t" for r
      using that t(1) dist by (auto simp: distinct_map inj_on_def)
    then show ?thesis using t(2) by (auto simp: settled_kept_def s' update_rows_def image_iff)
  qed
  ultimately show ?thesis by (simp add: accounted_def)
qed

lemma initiate_step:
  assumes "initiate now companyId by input s = Inr (t, s')" and ok: "transfers_ok s"
  shows "transfers_ok s' \<and> (\<forall>m. accounted m s' = accounted m s) \<and> settled_kept s s'"
proof -
  obtain uc avg db1 where
    c: "computeSingleWarehouseCosting now companyId (ii_fromWarehouseId input) (ii_materialId input)
          Issue (ii_quantity input) None (td_stock s) = Inr ((uc, avg), db1)" and
    s': "s' = \<lparr>td_stock = upsert_level (ii_fromWarehouseId input) (ii_materialId input) (- ii_quantity input) None
                 (db1\<lparr>next_uid := Suc (next_uid db1)\<rparr>), td_transfers = td_transfers s @ [t]\<rparr>" and
    t: "st_id t = next_uid db1" "st_materialId t = ii_materialId input" "st_quantity t = ii_quantity input"
      "st_status t = In_transit"
    using assms(1) by (auto simp: initiate_def Let_def split: if_splits sum.splits prod.splits)
  note lv = single_costing.levels_cost [OF c] and nx = layers_only_fields(9) [OF single_costing.cost_frame [OF c]]
  have uq: "levels_unique (db1\<lparr>next_uid := Suc (next_uid db1)\<rparr>)"
    using ok levels_unique_cong [OF lv] by (simp add: transfers_ok_def)
  have "total_on_hand m (td_stock s') = total_on_hand m (td_stock s) - (if m = ii_materialId input then ii_quantity input else 0)" for m
    using total_on_hand_cong [OF lv] uq by (simp add: s' total_on_hand_upsert)
  moreover have "in_transit m s' = in_transit m s + (if m = ii_materialId input then ii_quantity input else 0)" for m
    by (simp add: in_transit_def s' t)
  moreover have "transfers_ok s'"
    using ok nx levels_unique_upsert [OF uq] by (fastforce simp: transfers_ok_def s' list_all_iff t)
  moreover have "settled_kept s s'" by (simp add: settled_kept_def s')
  ultimately show ?thesis by (simp add: accounted_def)
qed

lemma transfer_op_step:
  assumes "transfer_op s s'" and "transfers_ok s"
  shows "transfers_ok s' \<and> (\<forall>m. accounted m s' = accounted m s) \<and> settled_kept s s'"
  using assms
proof cases
  case (initiate now companyId by' input t)
  then show ?thesis by (rule initiate_step) (rule assms(2))
next
  case (receive now companyId by' i t)
  then obtain t0 where load: "load_in_transit companyId i s = Inr t0" and
    settle: "settle_transfer now companyId (st_toWarehouseId t0) (\<lambda>t. t\<lparr>st_status := Received,
       st_receivedByName := Some by', st_receivedAt := Some now\<rparr>) t0 s = Inr (t, s')"
    by (auto simp: receive_def split: sum.splits)
  with load_in_transitD [OF load] show ?thesis by (intro settle_step [OF settle assms(2)]) auto
next
  case (cancel now companyId i t)
  then obtain t0 where load: "load_in_transit companyId i s = Inr t0" and
    settle: "settle_transfer now companyId (st_fromWarehouseId t0) (\<lambda>t. t\<lparr>st_status := Cancelled,
       st_cancelledAt := Some now\<rparr>) t0 s = Inr (t, s')"
    by (auto simp: cancel_def split: sum.splits)
  with load_in_transitD [OF load] show ?thesis by (intro settle_step [OF settle assms(2)]) auto
qed

interpretation transfers: transition_system "\<lambda>s. s = s0 \<and> transfers_ok s0" transfer_op
  "\<lambda>s. transfers_ok s \<and> (\<forall>m. accounted m s = accounted m s0)" for s0
proof unfold_locales
  show "transfers_ok s' \<and> (\<forall>m. accounted m s' = accounted m s0)"
    if "transfers_ok s \<and> (\<forall>m. accounted m s = accounted m s0)" "transfer_op s s'" for s s'
    using transfer_op_step [OF that(2)] that(1) by auto
qed auto

text \<open>C4 Nothing is lost in transit: over every sequence of \<open>initiate\<close>, \<open>receive\<close> and \<open>cancel\<close>
  operations, the quantity of each material on hand plus the quantity in transit stays the same, and
  levels and transfers keep their unique keys.\<close>

theorem transfers_conserve_material:
  assumes "transfer_op\<^sup>*\<^sup>* s s'" and "transfers_ok s"
  shows "transfers_ok s' \<and>
    total_on_hand m (td_stock s') + in_transit m s' = total_on_hand m (td_stock s) + in_transit m s"
  using transfers.inv_reachable [of s s s'] assms by (auto simp: accounted_def)

lemma settled_kept_star:
  "transfer_op\<^sup>*\<^sup>* s s' \<Longrightarrow> transfers_ok s \<Longrightarrow> settled_kept s s' \<and> transfers_ok s'"
proof (induction rule: rtranclp_induct)
  case (step s1 s2)
  then show ?case using transfer_op_step [OF step.hyps(2)] by (force simp: settled_kept_def)
qed (simp add: settled_kept_def)

lemma load_in_transit_settled:
  assumes "transfers_ok s" and "t \<in> set (td_transfers s)" and "st_status t \<noteq> In_transit"
  shows "\<exists>e. load_in_transit companyId (st_id t) s = Inl e"
proof (cases "load_in_transit companyId (st_id t) s")
  case (Inr t0)
  with load_in_transitD [OF this] assms have "t0 = t"
    by (auto simp: transfers_ok_def distinct_map inj_on_def)
  with load_in_transitD [OF Inr] assms(3) show ?thesis by simp
qed simp

lemma settle_result:
  assumes "settle_transfer now companyId wh close t s = Inr (r, s')" and "t \<in> set (td_transfers s)"
  shows "r = close t \<and> r \<in> set (td_transfers s')"
  using assms by (auto simp: settle_transfer_def update_rows_def split: sum.splits prod.splits)

text \<open>C5 A transfer is settled once: when \<open>receive\<close> or \<open>cancel\<close> of transfer \<open>i\<close> succeeds, then
  after any further sequence of operations its row is still the one that operation returned, and
  receiving or cancelling it again fails.\<close>

theorem transfer_settled_once:
  assumes "receive now companyId by i s = Inr (t, s1) \<or> cancel now companyId i s = Inr (t, s1)"
    and "transfers_ok s" and "transfer_op\<^sup>*\<^sup>* s1 s2"
  shows "t \<in> set (td_transfers s2) \<and> st_id t = i \<and>
    (\<exists>e. receive now' companyId' by' i s2 = Inl e) \<and> (\<exists>e. cancel now' companyId' i s2 = Inl e)"
proof -
  have op: "transfer_op s s1" using assms(1) by (auto intro: transfer_op.intros)
  obtain t0 close wh where "load_in_transit companyId i s = Inr t0"
    and settle: "settle_transfer now companyId wh close t0 s = Inr (t, s1)"
    and close: "\<And>t. st_id (close t) = st_id t" "\<And>t. st_status (close t) \<noteq> In_transit"
    using assms(1)
  proof
    assume "receive now companyId by i s = Inr (t, s1)"
    then obtain t0 where "load_in_transit companyId i s = Inr t0"
      "settle_transfer now companyId (st_toWarehouseId t0) (\<lambda>t. t\<lparr>st_status := Received,
         st_receivedByName := Some by, st_receivedAt := Some now\<rparr>) t0 s = Inr (t, s1)"
      by (auto simp: receive_def split: sum.splits)
    then show thesis by (rule that) auto
  next
    assume "cancel now companyId i s = Inr (t, s1)"
    then obtain t0 where "load_in_transit companyId i s = Inr t0"
      "settle_transfer now companyId (st_fromWarehouseId t0) (\<lambda>t. t\<lparr>st_status := Cancelled,
         st_cancelledAt := Some now\<rparr>) t0 s = Inr (t, s1)"
      by (auto simp: cancel_def split: sum.splits)
    then show thesis by (rule that) auto
  qed
  then have t0: "t0 \<in> set (td_transfers s)" "st_id t0 = i" by (auto dest: load_in_transitD)
  have t: "t \<in> set (td_transfers s1)" "st_id t = i" "st_status t \<noteq> In_transit"
    using settle_result [OF settle t0(1)] t0(2) close by auto
  have ok1: "transfers_ok s1" using transfer_op_step [OF op assms(2)] by blast
  have kept: "t \<in> set (td_transfers s2)" and ok2: "transfers_ok s2"
    using settled_kept_star [OF assms(3) ok1] t by (auto simp: settled_kept_def)
  obtain e where "load_in_transit companyId' i s2 = Inl e"
    using load_in_transit_settled [OF ok2 kept t(3)] t(2) by blast
  then show ?thesis using kept t(2) by (simp add: receive_def cancel_def)
qed

subsection \<open>The theorems at concrete inputs, and a cancelled transfer under FIFO\<close>

definition example_transfers :: transfer_db where
  "example_transfers = \<lparr>td_stock = example_stock Fifo, td_transfers = []\<rparr>"

definition example_initiate :: initiate_input where
  "example_initiate = \<lparr>ii_fromWarehouseId = 10, ii_toWarehouseId = 11, ii_materialId = 20, ii_quantity = 10\<rparr>"

text \<open>Ten metres leave a shelf that holds five, at 24 in all, and the transfer, number 100, is cancelled.\<close>

definition in_transit_state :: transfer_db where
  "in_transit_state = snd (projr (initiate 1 7 ''Ann'' example_initiate example_transfers))"

definition cancelled_state :: transfer_db where
  "cancelled_state = snd (projr (cancel 2 7 100 in_transit_state))"

lemma example_transfers_facts:
  "transfers_ok example_transfers" "transfers_ok in_transit_state"
  "\<not> isl (initiate 1 7 ''Ann'' example_initiate example_transfers)"
  "\<not> isl (cancel 2 7 100 in_transit_state)"
  "in_transit 20 in_transit_state = 10"
  by code_simp+

lemma example_path: "transfer_op example_transfers in_transit_state"
  by (rule succeedsE [OF example_transfers_facts(3)]) (auto simp: in_transit_state_def intro: transfer_op.initiate)

theorem transfers_conserve_material_witness:
  "total_on_hand 20 (td_stock in_transit_state) + in_transit 20 in_transit_state =
   total_on_hand 20 (td_stock example_transfers) + in_transit 20 example_transfers"
  using transfers_conserve_material [OF _ example_transfers_facts(1), of in_transit_state 20] example_path
  by blast

theorem transfer_settled_once_witness:
  "\<exists>e. receive 3 7 ''Bob'' 100 cancelled_state = Inl e"
proof (rule succeedsE [OF example_transfers_facts(4)])
  fix t s1
  assume run: "cancel 2 7 100 in_transit_state = Inr (t, s1)"
  then have "s1 = cancelled_state" by (simp add: cancelled_state_def)
  then show ?thesis
    using transfer_settled_once [OF disjI2 [OF run] example_transfers_facts(2) rtranclp.rtrancl_refl] by blast
qed

text \<open>The comment on \<open>cancel\<close> says that a fresh layer keeps the total value right. It does not when
  the source was short: the layer is credited with the whole quantity, so that the FIFO value of
  the shelf doubles here from 24 to 48.\<close>

lemma cancel_inflates_fifo_value:
  "(\<Sum>l \<leftarrow> db_layers (td_stock example_transfers). ly_remainingQuantity l * ly_unitCost l) = 24 \<and>
   (\<Sum>l \<leftarrow> db_layers (td_stock cancelled_state). ly_remainingQuantity l * ly_unitCost l) = 48 \<and>
   on_hand 10 20 (td_stock cancelled_state) = on_hand 10 20 (td_stock example_transfers)"
  by (intro conjI; code_simp)

end
