(* ===== verification/Stock_Counts.thy ===== *)
theory Stock_Counts
  imports Stock_Laws
begin

section \<open>StockCountsService: physical counts\<close>

text \<open>
  \<open>apps/api/src/materials/stock-counts.service.ts\<close>. A count snapshots the system quantity of every
  material of the company at one warehouse, staff enter what they counted, and \<open>finalize\<close> posts
  the differences through \<open>recordMovement\<close>, one transaction per line: the state it returns beside an
  error holds what the lines before it have already posted.
\<close>

datatype count_status = Draft | Finalized

record count_line =
  cn_id :: uid
  cn_materialId :: uid
  cn_systemQuantity :: number
  cn_countedQuantity :: number

record stock_count =
  sc_id :: uid
  sc_companyId :: uid
  sc_warehouseId :: uid
  sc_status :: count_status
  sc_createdAt :: date
  sc_finalizedAt :: "date option"
  sc_lines :: "count_line list"

record count_db =
  cd_stock :: stock_db
  cd_counts :: "stock_count list"

definition list_counts :: "uid \<Rightarrow> uid option \<Rightarrow> count_db \<Rightarrow> stock_count list" where
  "list_counts companyId warehouseId s =
     sort_key (\<lambda>c. - sc_createdAt c)
       (filter (\<lambda>c. sc_companyId c = companyId \<and> for_warehouse warehouseId (sc_warehouseId c)) (cd_counts s))"

text \<open>The count with its lines by ascending id.\<close>

definition find_count :: "uid \<Rightarrow> uid \<Rightarrow> count_db \<Rightarrow> app_error + stock_count" where
  "find_count companyId i s =
     (case find_row (\<lambda>c. sc_id c = i \<and> sc_companyId c = companyId) (cd_counts s) of
        None \<Rightarrow> Inl (NotFoundException (msg ''Stock count not found''))
      | Some c \<Rightarrow> Inr (c\<lparr>sc_lines := sort_key cn_id (sc_lines c)\<rparr>))"

text \<open>One line per material of the company; the line ids follow the count's own.\<close>

fun count_lines :: "uid \<Rightarrow> uid \<Rightarrow> uid list \<Rightarrow> stock_db \<Rightarrow> count_line list" where
  "count_lines i wh [] db = []"
| "count_lines i wh (m # ms) db =
     \<lparr>cn_id = i, cn_materialId = m, cn_systemQuantity = on_hand wh m db,
      cn_countedQuantity = on_hand wh m db\<rparr> # count_lines (Suc i) wh ms db"

definition create_count :: "date \<Rightarrow> uid \<Rightarrow> uid \<Rightarrow> count_db \<Rightarrow> app_error + stock_count \<times> count_db" where
  "create_count now companyId wh s =
     (let db = cd_stock s in
      if find_warehouse companyId wh db = None then Inl (NotFoundException (msg ''Warehouse not found''))
      else let i = next_uid db;
               materials = map mt_id (filter (\<lambda>m. mt_companyId m = companyId) (db_materials db));
               c = \<lparr>sc_id = i, sc_companyId = companyId, sc_warehouseId = wh, sc_status = Draft,
                    sc_createdAt = now, sc_finalizedAt = None,
                    sc_lines = count_lines (Suc i) wh materials db\<rparr>
           in Inr (c, \<lparr>cd_stock = db\<lparr>next_uid := Suc i + length materials\<rparr>, cd_counts = cd_counts s @ [c]\<rparr>))"

definition update_line :: "uid \<Rightarrow> uid \<Rightarrow> uid \<Rightarrow> number \<Rightarrow> count_db \<Rightarrow> app_error + count_db" where
  "update_line companyId countId lineId counted s =
     (case find_count companyId countId s of
        Inl e \<Rightarrow> Inl e
      | Inr c \<Rightarrow>
          if sc_status c \<noteq> Draft then Inl (BadRequestException (msg ''Only a draft count can be edited''))
          else if find_row (\<lambda>l. cn_id l = lineId) (sc_lines c) = None
          then Inl (NotFoundException (msg ''Count line not found''))
          else Inr (s\<lparr>cd_counts := update_rows (\<lambda>c. sc_id c = countId)
                 (\<lambda>c. c\<lparr>sc_lines := update_rows (\<lambda>l. cn_id l = lineId)
                          (\<lambda>l. l\<lparr>cn_countedQuantity := counted\<rparr>) (sc_lines c)\<rparr>) (cd_counts s)\<rparr>))"

definition line_delta :: "count_line \<Rightarrow> number" where
  "line_delta l = cn_countedQuantity l - cn_systemQuantity l"

definition variance_movement :: "uid \<Rightarrow> count_line \<Rightarrow> movement_input" where
  "variance_movement wh l =
     \<lparr>mi_warehouseId = wh, mi_materialId = cn_materialId l,
      mi_type = (if 0 < line_delta l then Receipt else Write_off), mi_quantity = \<bar>line_delta l\<bar>,
      mi_projectId = None, mi_unitCost = None, mi_lotNumber = None, mi_expiresAt = None, mi_lotId = None,
      mi_serialNumbers = None, mi_unitIds = None\<rparr>"

text \<open>The loop of \<open>finalize\<close>: the error that ended it, if any, and the tables it leaves.\<close>

fun post_lines :: "date \<Rightarrow> uid \<Rightarrow> uid \<Rightarrow> count_line list \<Rightarrow> stock_db \<Rightarrow> app_error option \<times> stock_db" where
  "post_lines now companyId wh [] db = (None, db)"
| "post_lines now companyId wh (l # ls) db =
     (if line_delta l = 0 then post_lines now companyId wh ls db
      else case recordMovement now companyId (variance_movement wh l) db of
             Inl e \<Rightarrow> (Some e, db)
           | Inr (_, db') \<Rightarrow> post_lines now companyId wh ls db')"

definition finalize :: "date \<Rightarrow> uid \<Rightarrow> uid \<Rightarrow> count_db \<Rightarrow> app_error option \<times> count_db" where
  "finalize now companyId countId s =
     (case find_count companyId countId s of
        Inl e \<Rightarrow> (Some e, s)
      | Inr c \<Rightarrow>
          if sc_status c \<noteq> Draft then (Some (BadRequestException (msg ''Count already finalized'')), s)
          else case post_lines now companyId (sc_warehouseId c) (sc_lines c) (cd_stock s) of
                 (Some e, db) \<Rightarrow> (Some e, s\<lparr>cd_stock := db\<rparr>)
               | (None, db) \<Rightarrow>
                   (None, \<lparr>cd_stock = db,
                     cd_counts = update_rows (\<lambda>c. sc_id c = countId)
                       (\<lambda>c. c\<lparr>sc_status := Finalized, sc_finalizedAt := Some now\<rparr>) (cd_counts s)\<rparr>))"

subsection \<open>What finalizing does to the levels\<close>

lemma variance_posted:
  assumes "recordMovement now companyId (variance_movement wh l) db = Inr (mv, db')"
  shows "on_hand w m db' = on_hand w m db + (if w = wh \<and> m = cn_materialId l then line_delta l else 0)"
  using recordMovement_posting [OF assms] by (auto simp: variance_movement_def)

lemma post_lines_on_hand:
  "post_lines now companyId wh ls db = (None, db') \<Longrightarrow>
     on_hand w m db' = on_hand w m db +
       (if w = wh then \<Sum>l \<leftarrow> ls. if cn_materialId l = m then line_delta l else 0 else 0)"
  by (induction ls arbitrary: db) (auto split: if_splits sum.splits prod.splits simp: variance_posted)

lemma sum_no_line:
  "m \<notin> cn_materialId ` set ls \<Longrightarrow> (\<Sum>k \<leftarrow> ls. if cn_materialId k = m then line_delta k else 0) = 0"
  by (induction ls) auto

lemma sum_one_line:
  "distinct (map cn_materialId ls) \<Longrightarrow> l \<in> set ls \<Longrightarrow>
     (\<Sum>k \<leftarrow> ls. if cn_materialId k = cn_materialId l then line_delta k else 0) = line_delta l"
proof (induction ls)
  case (Cons k ls)
  then show ?case using sum_no_line [of "cn_materialId k" ls] by auto
qed simp

lemma finalizeE:
  assumes "finalize now companyId countId s = (None, s')"
  obtains c where "find_count companyId countId s = Inr c" "sc_status c = Draft"
    "post_lines now companyId (sc_warehouseId c) (sc_lines c) (cd_stock s) = (None, cd_stock s')"
    "cd_counts s' = update_rows (\<lambda>c. sc_id c = countId)
       (\<lambda>c. c\<lparr>sc_status := Finalized, sc_finalizedAt := Some now\<rparr>) (cd_counts s)"
  using assms unfolding finalize_def
  by (auto split: sum.splits if_splits prod.splits option.splits)

text \<open>Finalizing a count makes the books agree with the shelf: every counted material changes by
  its variance, no other level changes, the count is finalized; and if the levels are still the
  ones the count was taken from, the quantity on hand is now the counted one.\<close>

theorem finalize_posts_variances:
  assumes "finalize now companyId countId s = (None, s')" and "find_count companyId countId s = Inr c"
    and "distinct (map cn_materialId (sc_lines c))" and "l \<in> set (sc_lines c)"
  shows "on_hand (sc_warehouseId c) (cn_materialId l) (cd_stock s') =
           on_hand (sc_warehouseId c) (cn_materialId l) (cd_stock s) + (cn_countedQuantity l - cn_systemQuantity l) \<and>
         (on_hand (sc_warehouseId c) (cn_materialId l) (cd_stock s) = cn_systemQuantity l \<longrightarrow>
            on_hand (sc_warehouseId c) (cn_materialId l) (cd_stock s') = cn_countedQuantity l) \<and>
         (w \<noteq> sc_warehouseId c \<or> m \<notin> cn_materialId ` set (sc_lines c) \<longrightarrow>
            on_hand w m (cd_stock s') = on_hand w m (cd_stock s)) \<and>
         (\<forall>r \<in> set (cd_counts s'). sc_id r = countId \<longrightarrow> sc_status r = Finalized)"
proof -
  obtain "post_lines now companyId (sc_warehouseId c) (sc_lines c) (cd_stock s) = (None, cd_stock s')"
    and counts: "cd_counts s' = update_rows (\<lambda>c. sc_id c = countId)
       (\<lambda>c. c\<lparr>sc_status := Finalized, sc_finalizedAt := Some now\<rparr>) (cd_counts s)"
    using assms(1,2) by (auto elim: finalizeE)
  note posted = post_lines_on_hand [OF this(1)]
  have changed: "on_hand (sc_warehouseId c) (cn_materialId l) (cd_stock s') =
      on_hand (sc_warehouseId c) (cn_materialId l) (cd_stock s) + (cn_countedQuantity l - cn_systemQuantity l)"
    using sum_one_line [OF assms(3,4)] by (simp add: posted line_delta_def)
  moreover have "on_hand (sc_warehouseId c) (cn_materialId l) (cd_stock s') = cn_countedQuantity l"
    if "on_hand (sc_warehouseId c) (cn_materialId l) (cd_stock s) = cn_systemQuantity l"
    using changed that by simp
  moreover have "on_hand w m (cd_stock s') = on_hand w m (cd_stock s)"
    if "w \<noteq> sc_warehouseId c \<or> m \<notin> cn_materialId ` set (sc_lines c)"
    using that by (cases "w = sc_warehouseId c") (simp_all add: posted sum_no_line del: set_map image_iff)
  moreover have "\<forall>r \<in> set (cd_counts s'). sc_id r = countId \<longrightarrow> sc_status r = Finalized"
    unfolding counts all_update_rows by simp
  ultimately show ?thesis by blast
qed

lemma post_lines_error:
  "post_lines now companyId wh ls db = (Some e, db') \<Longrightarrow>
     \<exists>ds l rest. ls = ds @ l # rest \<and> post_lines now companyId wh ds db = (None, db') \<and>
       recordMovement now companyId (variance_movement wh l) db' = Inl e"
proof (induction ls arbitrary: db)
  case (Cons l ls)
  show ?case
  proof (cases "line_delta l = 0")
    case True
    with Cons.prems have "post_lines now companyId wh ls db = (Some e, db')" by simp
    with Cons.IH obtain ds k rest where "ls = ds @ k # rest" "post_lines now companyId wh ds db = (None, db')"
      "recordMovement now companyId (variance_movement wh k) db' = Inl e" by blast
    with True show ?thesis by (intro exI [of _ "l # ds"] exI [of _ k] exI [of _ rest]) simp
  next
    case False
    show ?thesis
    proof (cases "recordMovement now companyId (variance_movement wh l) db")
      case (Inl e')
      with False Cons.prems show ?thesis by (intro exI [of _ "[]"] exI [of _ l] exI [of _ ls]) simp
    next
      case (Inr r)
      then obtain mv db1 where r: "recordMovement now companyId (variance_movement wh l) db = Inr (mv, db1)"
        by (cases r) auto
      with False Cons.prems have "post_lines now companyId wh ls db1 = (Some e, db')" by simp
      with Cons.IH obtain ds k rest where "ls = ds @ k # rest" "post_lines now companyId wh ds db1 = (None, db')"
        "recordMovement now companyId (variance_movement wh k) db' = Inl e" by blast
      with False r show ?thesis by (intro exI [of _ "l # ds"] exI [of _ k] exI [of _ rest]) simp
    qed
  qed
qed simp

text \<open>A failed \<open>finalize\<close> is not undone: when the movement of a line is refused, the variances of
  all the lines before it stay posted while the count stays a draft with its old snapshot, so that
  finalizing it again posts them a second time.\<close>

theorem finalize_keeps_partial_postings:
  assumes "finalize now companyId countId s = (Some e, s')" and "find_count companyId countId s = Inr c"
    and "sc_status c = Draft"
  shows "cd_counts s' = cd_counts s \<and>
    (\<exists>posted l rest. sc_lines c = posted @ l # rest \<and>
       recordMovement now companyId (variance_movement (sc_warehouseId c) l) (cd_stock s') = Inl e \<and>
       (\<forall>w m. on_hand w m (cd_stock s') = on_hand w m (cd_stock s) +
          (if w = sc_warehouseId c
           then \<Sum>k \<leftarrow> posted. if cn_materialId k = m then cn_countedQuantity k - cn_systemQuantity k else 0 else 0)))"
proof -
  obtain db where run: "post_lines now companyId (sc_warehouseId c) (sc_lines c) (cd_stock s) = (Some e, db)"
    and s': "s' = s\<lparr>cd_stock := db\<rparr>"
    using assms unfolding finalize_def by (auto split: prod.splits option.splits)
  obtain posted l rest where "sc_lines c = posted @ l # rest"
    "post_lines now companyId (sc_warehouseId c) posted (cd_stock s) = (None, db)"
    "recordMovement now companyId (variance_movement (sc_warehouseId c) l) db = Inl e"
    using post_lines_error [OF run] by blast
  moreover from post_lines_on_hand [OF this(2)] have "\<forall>w m. on_hand w m db = on_hand w m (cd_stock s) +
      (if w = sc_warehouseId c
       then \<Sum>k \<leftarrow> posted. if cn_materialId k = m then cn_countedQuantity k - cn_systemQuantity k else 0 else 0)"
    unfolding line_delta_def by blast
  ultimately show ?thesis by (auto simp: s')
qed

subsection \<open>The theorems at concrete inputs, and a count finalized twice\<close>

text \<open>A count of the example yard: four metres of pipe instead of five, and a bag of the lot-tracked
  cement the books did not know of.\<close>

definition example_count :: count_db where
  "example_count =
     \<lparr>cd_stock = example_stock Fifo,
      cd_counts = [\<lparr>sc_id = 50, sc_companyId = 7, sc_warehouseId = 10, sc_status = Draft, sc_createdAt = 1,
        sc_finalizedAt = None,
        sc_lines = [\<lparr>cn_id = 51, cn_materialId = 20, cn_systemQuantity = 5, cn_countedQuantity = 4\<rparr>,
                    \<lparr>cn_id = 52, cn_materialId = 21, cn_systemQuantity = 0, cn_countedQuantity = 0\<rparr>]\<rparr>]\<rparr>"

definition example_found :: count_db where
  "example_found = projr (update_line 7 50 52 1 example_count)"

lemma example_count_runs:
  "fst (finalize 2 7 50 example_count) = None"
  "fst (finalize 2 7 50 example_found) = Some (BadRequestException
     [Str (quoted ''Cement''), Str '' is lot-tracked - a lot number is required to receive it''])"
  "find_count 7 50 example_count = Inr (hd (cd_counts example_count))"
  "find_count 7 50 example_found = Inr (hd (cd_counts example_found))"
  "sc_status (hd (cd_counts example_found)) = Draft"
  by code_simp+

theorem finalize_posts_variances_witness:
  "on_hand 10 20 (cd_stock (snd (finalize 2 7 50 example_count))) = 4"
  using finalize_posts_variances [of 2 7 50 example_count "snd (finalize 2 7 50 example_count)"
      "hd (cd_counts example_count)" "hd (sc_lines (hd (cd_counts example_count)))"] example_count_runs
  by (simp add: example_count_def prod_eq_iff on_hand_def find_level_def level_key_def example_stock_def row_simps)

theorem finalize_keeps_partial_postings_witness:
  "cd_counts (snd (finalize 2 7 50 example_found)) = cd_counts example_found"
  using finalize_keeps_partial_postings [of 2 7 50 example_found _ "snd (finalize 2 7 50 example_found)"
      "hd (cd_counts example_found)"] example_count_runs
  by (simp add: prod_eq_iff)

text \<open>Finalizing it twice posts the missing metre twice.\<close>

lemma finalize_twice_posts_twice:
  "on_hand 10 20 (cd_stock (snd (finalize 2 7 50 example_found))) = 4 \<and>
   on_hand 10 20 (cd_stock (snd (finalize 3 7 50 (snd (finalize 2 7 50 example_found))))) = 3"
  by (intro conjI; code_simp)

end
