(* ===== verification/Stock_Kits.thy ===== *)
theory Stock_Kits
  imports Stock_Laws
begin

section \<open>StockKitsService: assembling and taking apart kits\<close>

text \<open>
  \<open>apps/api/src/materials/stock-kits.service.ts\<close>. A kit is a finished material and a list of
  components with a ratio each. \<open>assemble\<close> issues the components and receives the kit item in one
  serializable transaction, \<open>disassemble\<close> does the inverse; both post through \<open>writeMovement\<close> with
  the costing of \<open>StockService\<close>. The audit record is not part of the state.
\<close>

record kit_component =
  kc_materialId :: uid
  kc_quantityPerKit :: number

record stock_kit =
  sk_id :: uid
  sk_companyId :: uid
  sk_kitMaterialId :: uid
  sk_name :: string
  sk_components :: "kit_component list"

record kit_db =
  kd_stock :: stock_db
  kd_kits :: "stock_kit list"

definition find_kit :: "uid \<Rightarrow> uid \<Rightarrow> kit_db \<Rightarrow> app_error + stock_kit" where
  "find_kit companyId i s =
     (case find_row (\<lambda>k. sk_id k = i \<and> sk_companyId k = companyId) (kd_kits s) of
        None \<Rightarrow> Inl (NotFoundException (msg ''Stock kit not found''))
      | Some k \<Rightarrow> Inr k)"

definition validateComponents :: "uid \<Rightarrow> uid \<Rightarrow> kit_component list \<Rightarrow> stock_db \<Rightarrow> app_error + unit" where
  "validateComponents companyId kitMaterialId components db =
     (let ids = map kc_materialId components;
          owned = length (filter (\<lambda>m. mt_id m \<in> set ids \<and> mt_companyId m = companyId) (db_materials db))
      in if list_ex (\<lambda>c. kc_materialId c = kitMaterialId) components
         then Inl (BadRequestException (msg ''A kit can't list its own finished item as a component''))
         else if card (set ids) \<noteq> length ids
         then Inl (BadRequestException (msg ''Duplicate component material in the same kit''))
         else if owned \<noteq> length ids
         then Inl (BadRequestException (msg ''One or more components do not belong to this company''))
         else Inr ())"

definition create_kit :: "uid \<Rightarrow> uid \<Rightarrow> string \<Rightarrow> kit_component list \<Rightarrow> kit_db \<Rightarrow> app_error + stock_kit \<times> kit_db" where
  "create_kit companyId kitMaterialId name components s =
     (let db = kd_stock s in
      if find_material companyId kitMaterialId db = None then Inl (NotFoundException (msg ''Material not found''))
      else case validateComponents companyId kitMaterialId components db of
        Inl e \<Rightarrow> Inl e
      | Inr _ \<Rightarrow>
          (let k = \<lparr>sk_id = next_uid db, sk_companyId = companyId, sk_kitMaterialId = kitMaterialId,
                    sk_name = name, sk_components = components\<rparr>
           in Inr (k, \<lparr>kd_stock = db\<lparr>next_uid := Suc (next_uid db)\<rparr>, kd_kits = kd_kits s @ [k]\<rparr>)))"

text \<open>\<open>name\<close> and \<open>components\<close> are optional; a given component list replaces the old one whole.\<close>

definition update_kit :: "uid \<Rightarrow> uid \<Rightarrow> string option \<Rightarrow> kit_component list option \<Rightarrow> kit_db \<Rightarrow> app_error + kit_db" where
  "update_kit companyId i name components s =
     (case find_kit companyId i s of
        Inl e \<Rightarrow> Inl e
      | Inr k \<Rightarrow>
          (case (case components of None \<Rightarrow> Inr ()
                 | Some cs \<Rightarrow> validateComponents companyId (sk_kitMaterialId k) cs (kd_stock s)) of
             Inl e \<Rightarrow> Inl e
           | Inr _ \<Rightarrow>
               Inr (s\<lparr>kd_kits := update_rows (\<lambda>k. sk_id k = i)
                 (\<lambda>k. k\<lparr>sk_name := (case name of None \<Rightarrow> sk_name k | Some n \<Rightarrow> n),
                        sk_components := (case components of None \<Rightarrow> sk_components k | Some cs \<Rightarrow> cs)\<rparr>) (kd_kits s)\<rparr>)))"

definition delete_kit :: "uid \<Rightarrow> uid \<Rightarrow> kit_db \<Rightarrow> app_error + kit_db" where
  "delete_kit companyId i s =
     (case find_kit companyId i s of
        Inl e \<Rightarrow> Inl e
      | Inr k \<Rightarrow> Inr (s\<lparr>kd_kits := filter (\<lambda>k. sk_id k \<noteq> i) (kd_kits s)\<rparr>))"

subsection \<open>Posting\<close>

definition writeMovement :: "date \<Rightarrow> uid \<Rightarrow> uid \<Rightarrow> uid \<Rightarrow> movement_type \<Rightarrow> number \<Rightarrow> number option
    \<Rightarrow> number option \<Rightarrow> stock_db \<Rightarrow> stock_db" where
  "writeMovement now companyId wh mat type quantity unitCost averageCostUpdate db =
     upsert_level wh mat (if type = Issue then - quantity else quantity) averageCostUpdate
       (snd (create_movement now companyId wh None mat type quantity None unitCost db))"

definition loadKitForOperation :: "uid \<Rightarrow> uid \<Rightarrow> uid \<Rightarrow> kit_db \<Rightarrow> app_error + stock_kit" where
  "loadKitForOperation companyId wh kitId s =
     (if find_warehouse companyId wh (kd_stock s) = None then Inl (NotFoundException (msg ''Warehouse not found''))
      else find_kit companyId kitId s)"

fun issue_components :: "date \<Rightarrow> uid \<Rightarrow> uid \<Rightarrow> number \<Rightarrow> kit_component list \<Rightarrow> number \<Rightarrow> stock_db
    \<Rightarrow> number tx" where
  "issue_components now companyId wh quantity [] totalComponentCost db = Inr (totalComponentCost, db)"
| "issue_components now companyId wh quantity (c # cs) totalComponentCost db =
     (let componentQuantity = kc_quantityPerKit c * quantity in
      case computeSingleWarehouseCosting now companyId wh (kc_materialId c) Issue componentQuantity None db of
        Inl e \<Rightarrow> Inl e
      | Inr ((movementUnitCost, _), db1) \<Rightarrow>
          issue_components now companyId wh quantity cs
            (case movementUnitCost of None \<Rightarrow> totalComponentCost
             | Some u \<Rightarrow> totalComponentCost + u * componentQuantity)
            (writeMovement now companyId wh (kc_materialId c) Issue componentQuantity movementUnitCost None db1))"

definition assemble :: "date \<Rightarrow> uid \<Rightarrow> uid \<Rightarrow> uid \<Rightarrow> number \<Rightarrow> kit_db \<Rightarrow> app_error + kit_db" where
  "assemble now companyId wh kitId quantity s =
     (case loadKitForOperation companyId wh kitId s of
        Inl e \<Rightarrow> Inl e
      | Inr kit \<Rightarrow>
          (case issue_components now companyId wh quantity (sk_components kit) 0 (kd_stock s) of
             Inl e \<Rightarrow> Inl e
           | Inr (totalComponentCost, db1) \<Rightarrow>
               (let kitUnitCost = (if 0 < totalComponentCost then Some (totalComponentCost / quantity) else None) in
                case computeSingleWarehouseCosting now companyId wh (sk_kitMaterialId kit) Receipt quantity kitUnitCost db1 of
                  Inl e \<Rightarrow> Inl e
                | Inr ((movementUnitCost, averageCostUpdate), db2) \<Rightarrow>
                    Inr (s\<lparr>kd_stock := writeMovement now companyId wh (sk_kitMaterialId kit) Receipt quantity
                             movementUnitCost averageCostUpdate db2\<rparr>))))"

fun receive_components :: "date \<Rightarrow> uid \<Rightarrow> uid \<Rightarrow> number \<Rightarrow> kit_component list \<Rightarrow> stock_db \<Rightarrow> app_error + stock_db" where
  "receive_components now companyId wh quantity [] db = Inr db"
| "receive_components now companyId wh quantity (c # cs) db =
     (let componentQuantity = kc_quantityPerKit c * quantity in
      case computeSingleWarehouseCosting now companyId wh (kc_materialId c) Receipt componentQuantity None db of
        Inl e \<Rightarrow> Inl e
      | Inr ((movementUnitCost, averageCostUpdate), db1) \<Rightarrow>
          receive_components now companyId wh quantity cs
            (writeMovement now companyId wh (kc_materialId c) Receipt componentQuantity movementUnitCost averageCostUpdate db1))"

definition disassemble :: "date \<Rightarrow> uid \<Rightarrow> uid \<Rightarrow> uid \<Rightarrow> number \<Rightarrow> kit_db \<Rightarrow> app_error + kit_db" where
  "disassemble now companyId wh kitId quantity s =
     (case loadKitForOperation companyId wh kitId s of
        Inl e \<Rightarrow> Inl e
      | Inr kit \<Rightarrow>
          (case computeSingleWarehouseCosting now companyId wh (sk_kitMaterialId kit) Issue quantity None (kd_stock s) of
             Inl e \<Rightarrow> Inl e
           | Inr ((movementUnitCost, _), db1) \<Rightarrow>
               (case receive_components now companyId wh quantity (sk_components kit)
                       (writeMovement now companyId wh (sk_kitMaterialId kit) Issue quantity movementUnitCost None db1) of
                  Inl e \<Rightarrow> Inl e
                | Inr db2 \<Rightarrow> Inr (s\<lparr>kd_stock := db2\<rparr>))))"

subsection \<open>What it does to the levels\<close>

lemma on_hand_writeMovement:
  "on_hand w m (writeMovement now companyId wh mat type q u a db) =
     on_hand w m db + (if (w, m) = (wh, mat) then if type = Issue then - q else q else 0)"
proof -
  have "on_hand w m (snd (create_movement now companyId wh None mat type q None u db)) = on_hand w m db"
    by (rule on_hand_cong) simp
  then show ?thesis by (simp add: writeMovement_def row_simps)
qed

definition component_need :: "uid \<Rightarrow> kit_component list \<Rightarrow> number" where
  "component_need m cs = (\<Sum>c \<leftarrow> cs. if kc_materialId c = m then kc_quantityPerKit c else 0)"

lemma issue_components_on_hand:
  "issue_components now companyId wh q cs t db = Inr (t', db') \<Longrightarrow>
     on_hand w m db' = on_hand w m db - (if w = wh then component_need m cs * q else 0)"
proof (induction cs arbitrary: t db)
  case (Cons c cs)
  then show ?case
    by (auto simp: Let_def component_need_def distrib_right on_hand_writeMovement single_costing.on_hand_cost
        split: sum.splits prod.splits)
qed (simp add: component_need_def)

lemma receive_components_on_hand:
  "receive_components now companyId wh q cs db = Inr db' \<Longrightarrow>
     on_hand w m db' = on_hand w m db + (if w = wh then component_need m cs * q else 0)"
proof (induction cs arbitrary: db)
  case (Cons c cs)
  then show ?case
    by (auto simp: Let_def component_need_def distrib_right on_hand_writeMovement single_costing.on_hand_cost
        split: sum.splits prod.splits)
qed (simp add: component_need_def)

lemma assembleE:
  assumes "assemble now companyId wh kitId q s = Inr s'"
  obtains kit t db1 uc avg db2 where "loadKitForOperation companyId wh kitId s = Inr kit"
    "issue_components now companyId wh q (sk_components kit) 0 (kd_stock s) = Inr (t, db1)"
    "computeSingleWarehouseCosting now companyId wh (sk_kitMaterialId kit) Receipt q
       (if 0 < t then Some (t / q) else None) db1 = Inr ((uc, avg), db2)"
    "s' = s\<lparr>kd_stock := writeMovement now companyId wh (sk_kitMaterialId kit) Receipt q uc avg db2\<rparr>"
  using assms unfolding assemble_def by (auto simp: Let_def split: sum.splits prod.splits)

lemma disassembleE:
  assumes "disassemble now companyId wh kitId q s = Inr s'"
  obtains kit db1 uc avg db2 where "loadKitForOperation companyId wh kitId s = Inr kit"
    "computeSingleWarehouseCosting now companyId wh (sk_kitMaterialId kit) Issue q None (kd_stock s) = Inr ((uc, avg), db1)"
    "receive_components now companyId wh q (sk_components kit)
       (writeMovement now companyId wh (sk_kitMaterialId kit) Issue q uc None db1) = Inr db2"
    "s' = s\<lparr>kd_stock := db2\<rparr>"
  using assms unfolding disassemble_def by (auto simp: Let_def split: sum.splits prod.splits)

lemma find_kit_loaded: "loadKitForOperation companyId wh kitId s = Inr kit \<Longrightarrow> find_kit companyId kitId s = Inr kit"
  by (auto simp: loadKitForOperation_def split: if_splits)

lemma assemble_on_hand:
  assumes "assemble now companyId wh kitId q s = Inr s'" and "find_kit companyId kitId s = Inr kit"
  shows "on_hand w m (kd_stock s') = on_hand w m (kd_stock s)
      - (if w = wh then component_need m (sk_components kit) * q else 0)
      + (if w = wh \<and> m = sk_kitMaterialId kit then q else 0)"
  using assms
  by (elim assembleE)
    (auto dest!: find_kit_loaded simp: on_hand_writeMovement single_costing.on_hand_cost issue_components_on_hand)

lemma disassemble_on_hand:
  assumes "disassemble now companyId wh kitId q s = Inr s'" and "find_kit companyId kitId s = Inr kit"
  shows "on_hand w m (kd_stock s') = on_hand w m (kd_stock s)
      + (if w = wh then component_need m (sk_components kit) * q else 0)
      - (if w = wh \<and> m = sk_kitMaterialId kit then q else 0)"
  using assms
  by (elim disassembleE)
    (auto dest!: find_kit_loaded simp: on_hand_writeMovement single_costing.on_hand_cost receive_components_on_hand)

text \<open>Assembling issues every component in its ratio and receives the kit item, at that warehouse
  only; taking the same number of kits apart again brings every level back to where it was.\<close>

theorem assemble_disassemble:
  assumes "assemble now companyId wh kitId q s = Inr s1" and "find_kit companyId kitId s = Inr kit"
  shows "on_hand w m (kd_stock s1) = on_hand w m (kd_stock s)
           - (if w = wh then component_need m (sk_components kit) * q else 0)
           + (if w = wh \<and> m = sk_kitMaterialId kit then q else 0) \<and>
         (\<forall>now' s2. disassemble now' companyId wh kitId q s1 = Inr s2 \<longrightarrow>
            on_hand w m (kd_stock s2) = on_hand w m (kd_stock s))"
proof -
  have "kd_kits s1 = kd_kits s" using assms(1) by (elim assembleE) simp
  then have "find_kit companyId kitId s1 = Inr kit" using assms(2) by (simp add: find_kit_def)
  then show ?thesis
    by (auto simp: disassemble_on_hand assemble_on_hand [OF assms])
qed

subsection \<open>The cost of a kit\<close>

lemma method_writeMovement [simp]:
  "getCostingMethodTx (writeMovement now c wh mat type q u a db) companyId = getCostingMethodTx db companyId"
  by (simp add: getCostingMethodTx_def writeMovement_def upsert_level_def create_movement_def Let_def)

lemma average_cost_cong: "db_levels db = db_levels db' \<Longrightarrow> average_cost w m db = average_cost w m db'"
  by (simp add: average_cost_def find_level_def)

lemma average_cost_writeMovement [simp]:
  "average_cost w m (writeMovement now c wh mat type q u None db) = average_cost w m db"
proof -
  have "average_cost w m (snd (create_movement now c wh None mat type q None u db)) = average_cost w m db" for w m
    by (rule average_cost_cong) simp
  then show ?thesis by (simp add: writeMovement_def row_simps)
qed

lemma issue_components_cost:
  assumes "getCostingMethodTx db companyId = Inr Weighted_average"
    and "issue_components now companyId wh q cs t db = Inr (t', db')"
  shows "t' = t + (\<Sum>c \<leftarrow> cs. case average_cost wh (kc_materialId c) db of None \<Rightarrow> 0 | Some u \<Rightarrow> u * kc_quantityPerKit c) * q"
  using assms
proof (induction cs arbitrary: t db)
  case (Cons c cs)
  let ?u = "average_cost wh (kc_materialId c) db"
  let ?db = "writeMovement now companyId wh (kc_materialId c) Issue (kc_quantityPerKit c * q) ?u None db"
  let ?t = "case ?u of None \<Rightarrow> t | Some u \<Rightarrow> t + u * (kc_quantityPerKit c * q)"
  have "issue_components now companyId wh q cs ?t ?db = Inr (t', db')"
    using Cons.prems by (simp add: computeSingleWarehouseCosting_def Let_def)
  from Cons.IH [OF _ this] Cons.prems(1) show ?case
    by (cases ?u) (simp_all add: algebra_simps)
qed simp

text \<open>A kit costs what its components cost: with moving averages, assembling a positive number of
  kits writes as its last movement the receipt of the kit item at the sum of the components' average
  costs in their ratios, whenever that sum is positive.\<close>

theorem kit_cost_rolls_up:
  assumes "assemble now companyId wh kitId q s = Inr s'" and "find_kit companyId kitId s = Inr kit"
    and "getCostingMethodTx (kd_stock s) companyId = Inr Weighted_average" and "0 < q"
  defines "unit_cost \<equiv> (\<Sum>c \<leftarrow> sk_components kit.
      case average_cost wh (kc_materialId c) (kd_stock s) of None \<Rightarrow> 0 | Some u \<Rightarrow> u * kc_quantityPerKit c)"
  shows "sm_materialId (last (db_movements (kd_stock s'))) = sk_kitMaterialId kit \<and>
    sm_type (last (db_movements (kd_stock s'))) = Receipt \<and>
    sm_quantity (last (db_movements (kd_stock s'))) = q \<and>
    sm_unitCost (last (db_movements (kd_stock s'))) = (if 0 < unit_cost then Some unit_cost else None)"
proof -
  obtain t db1 uc avg db2 where
    issue: "issue_components now companyId wh q (sk_components kit) 0 (kd_stock s) = Inr (t, db1)" and
    cost: "computeSingleWarehouseCosting now companyId wh (sk_kitMaterialId kit) Receipt q
       (if 0 < t then Some (t / q) else None) db1 = Inr ((uc, avg), db2)" and
    s': "s' = s\<lparr>kd_stock := writeMovement now companyId wh (sk_kitMaterialId kit) Receipt q uc avg db2\<rparr>"
    using assms(1,2) by (elim assembleE) (auto dest: find_kit_loaded)
  have t: "t = unit_cost * q"
    using issue_components_cost [OF assms(3) issue] by (simp add: unit_cost_def)
  then have "uc = (if 0 < unit_cost then Some unit_cost else None)"
    using cost assms(4)
    by (auto simp: computeSingleWarehouseCosting_def Let_def zero_less_mult_iff split: if_splits sum.splits)
  then show ?thesis by (simp add: s' writeMovement_def create_movement_def Let_def)
qed

subsection \<open>The theorems at concrete inputs\<close>

definition example_kits :: kit_db where
  "example_kits = \<lparr>kd_stock = example_stock Weighted_average,
     kd_kits = [\<lparr>sk_id = 60, sk_companyId = 7, sk_kitMaterialId = 22, sk_name = ''Pump set'',
       sk_components = [\<lparr>kc_materialId = 20, kc_quantityPerKit = 2\<rparr>]\<rparr>]\<rparr>"

definition assembled_kits :: kit_db where
  "assembled_kits = projr (assemble 3 7 10 60 2 example_kits)"

lemma example_kits_facts:
  "\<not> isl (assemble 3 7 10 60 2 example_kits)"
  "find_kit 7 60 example_kits = Inr (hd (kd_kits example_kits))"
  "getCostingMethodTx (kd_stock example_kits) 7 = Inr Weighted_average"
  "component_need 20 (sk_components (hd (kd_kits example_kits))) = 2"
  "on_hand 10 20 (kd_stock example_kits) = 5" "sk_kitMaterialId (hd (kd_kits example_kits)) = 22"
  "(\<Sum>c \<leftarrow> sk_components (hd (kd_kits example_kits)).
      case average_cost 10 (kc_materialId c) (kd_stock example_kits) of None \<Rightarrow> 0 | Some u \<Rightarrow> u * kc_quantityPerKit c) = 8"
  by code_simp+

lemma assembled_kits_eq: "assemble 3 7 10 60 2 example_kits = Inr assembled_kits"
  using example_kits_facts(1) by (cases "assemble 3 7 10 60 2 example_kits") (simp_all add: assembled_kits_def)

theorem assemble_disassemble_witness: "on_hand 10 20 (kd_stock assembled_kits) = 1"
  using assemble_disassemble [OF assembled_kits_eq example_kits_facts(2), of 10 20]
  by (simp add: example_kits_facts)

theorem kit_cost_rolls_up_witness:
  "sm_unitCost (last (db_movements (kd_stock assembled_kits))) = Some 8"
  using kit_cost_rolls_up [OF assembled_kits_eq example_kits_facts(2,3)]
  by (simp add: example_kits_facts)

end
