(* ===== verification/Stock_Reservations.thy ===== *)
theory Stock_Reservations
  imports Stock_Laws
begin

section \<open>StockReservationsService\<close>

text \<open>
  \<open>apps/api/src/materials/stock-reservations.service.ts\<close>: informational holds on a material. A
  reservation never touches a level; \<open>listLevels\<close> subtracts the active ones.
\<close>

record reservation_input =
  ri_warehouseId :: uid
  ri_materialId :: uid
  ri_quantity :: number
  ri_projectId :: "uid option"
  ri_note :: "string option"

definition list_reservations :: "uid \<Rightarrow> uid option \<Rightarrow> uid option \<Rightarrow> uid option \<Rightarrow> stock_db \<Rightarrow> stock_reservation list" where
  "list_reservations companyId warehouseId materialId cursor db =
     page 100 sr_id cursor
       (sort_key (\<lambda>r. (- sr_createdAt r, - int (sr_id r)))
         (filter (\<lambda>r. sr_companyId r = companyId \<and> for_warehouse warehouseId (sr_warehouseId r) \<and>
                    (case materialId of None \<Rightarrow> True | Some m \<Rightarrow> sr_materialId r = m)) (db_reservations db)))"

definition create_reservation :: "date \<Rightarrow> uid \<Rightarrow> string \<Rightarrow> reservation_input \<Rightarrow> stock_db \<Rightarrow> stock_reservation tx" where
  "create_reservation now companyId createdByName input db =
     (if find_warehouse companyId (ri_warehouseId input) db = None
      then Inl (NotFoundException (msg ''Warehouse not found''))
      else if find_material companyId (ri_materialId input) db = None
      then Inl (NotFoundException (msg ''Material not found''))
      else if (case ri_projectId input of None \<Rightarrow> False | Some p \<Rightarrow> find_project companyId p db = None)
      then Inl (NotFoundException (msg ''Project not found''))
      else let r = \<lparr>sr_id = next_uid db, sr_companyId = companyId, sr_warehouseId = ri_warehouseId input,
                    sr_materialId = ri_materialId input, sr_quantity = ri_quantity input,
                    sr_projectId = ri_projectId input, sr_note = ri_note input, sr_status = Active,
                    sr_createdByName = createdByName, sr_createdAt = now, sr_releasedAt = None\<rparr>
           in Inr (r, db\<lparr>db_reservations := db_reservations db @ [r], next_uid := Suc (next_uid db)\<rparr>))"

definition release :: "date \<Rightarrow> uid \<Rightarrow> uid \<Rightarrow> stock_db \<Rightarrow> app_error + stock_db" where
  "release now companyId i db =
     (case find_row (\<lambda>r. sr_id r = i \<and> sr_companyId r = companyId) (db_reservations db) of
        None \<Rightarrow> Inl (NotFoundException (msg ''Reservation not found''))
      | Some r \<Rightarrow>
          if sr_status r = Released then Inl (BadRequestException (msg ''Reservation is already released''))
          else Inr (db\<lparr>db_reservations := update_rows (\<lambda>r. sr_id r = i)
                 (\<lambda>r. r\<lparr>sr_status := Released, sr_releasedAt := Some now\<rparr>) (db_reservations db)\<rparr>))"

subsection \<open>Reservations and the listed availability\<close>

text \<open>A reservation holds back its quantity until it is released, and moves no stock: creating one
  lowers the availability of its material at its warehouse by the quantity, releasing it gives the
  availability back, and the levels themselves never change.\<close>

theorem reservation_holds_back:
  assumes "create_reservation now companyId by input db = Inr (r, db1)"
    and "\<forall>q \<in> set (db_reservations db). sr_id q < next_uid db"
  shows "db_levels db1 = db_levels db \<and>
    reserved_quantity companyId None (ri_warehouseId input) (ri_materialId input) db1 =
      reserved_quantity companyId None (ri_warehouseId input) (ri_materialId input) db + ri_quantity input \<and>
    (\<exists>db2. release later companyId (sr_id r) db1 = Inr db2 \<and> db_levels db2 = db_levels db \<and>
      (\<forall>wh mat. reserved_quantity companyId None wh mat db2 = reserved_quantity companyId None wh mat db) \<and>
      (\<exists>e. release later' companyId (sr_id r) db2 = Inl e))"
proof -
  have r: "r = \<lparr>sr_id = next_uid db, sr_companyId = companyId, sr_warehouseId = ri_warehouseId input,
                    sr_materialId = ri_materialId input, sr_quantity = ri_quantity input,
                    sr_projectId = ri_projectId input, sr_note = ri_note input, sr_status = Active,
                    sr_createdByName = by, sr_createdAt = now, sr_releasedAt = None\<rparr>"
    and db1: "db1 = db\<lparr>db_reservations := db_reservations db @ [r], next_uid := Suc (next_uid db)\<rparr>"
    using assms(1) by (auto simp: create_reservation_def Let_def split: if_splits)
  have other: "sr_id q \<noteq> next_uid db" if "q \<in> set (db_reservations db)" for q
    using assms(2) that by auto
  then have none: "find_row (\<lambda>q. sr_id q = next_uid db \<and> p q) (db_reservations db) = None" for p
    by (auto simp: find_row_None)
  have same: "update_rows (\<lambda>q. sr_id q = next_uid db) f (db_reservations db) = db_reservations db" for f
    unfolding update_rows_def by (rule map_idI) (simp add: other)
  define db2 where "db2 = db1\<lparr>db_reservations := db_reservations db @
      [r\<lparr>sr_status := Released, sr_releasedAt := Some later\<rparr>]\<rparr>"
  have append: "update_rows p f (xs @ [x]) = update_rows p f xs @ [if p x then f x else x]" for p f xs and x :: stock_reservation
    by (simp add: update_rows_def)
  have "release later companyId (sr_id r) db1 = Inr db2"
    by (simp add: release_def db1 db2_def r find_row_append none row_simps append same)
  moreover have "\<exists>e. release later' companyId (sr_id r) db2 = Inl e"
    by (simp add: release_def db1 db2_def r find_row_append none row_simps)
  moreover have "reserved_quantity companyId None wh mat db2 = reserved_quantity companyId None wh mat db" for wh mat
    by (simp add: reserved_quantity_def db2_def db1 r)
  moreover have "reserved_quantity companyId None (ri_warehouseId input) (ri_materialId input) db1 =
      reserved_quantity companyId None (ri_warehouseId input) (ri_materialId input) db + ri_quantity input"
    by (simp add: reserved_quantity_def db1 r for_warehouse_def)
  ultimately show ?thesis by (auto simp: db1 db2_def)
qed

theorem reservation_holds_back_witness:
  "\<exists>r db1. create_reservation 3 7 ''Ann'' \<lparr>ri_warehouseId = 10, ri_materialId = 20, ri_quantity = 4,
     ri_projectId = None, ri_note = None\<rparr> (example_stock Fifo) = Inr (r, db1) \<and>
     reserved_quantity 7 None 10 20 db1 = 4"
proof (rule succeedsE)
  let ?i = "\<lparr>ri_warehouseId = 10, ri_materialId = 20, ri_quantity = 4, ri_projectId = None, ri_note = None\<rparr>"
  show "\<not> isl (create_reservation 3 7 ''Ann'' ?i (example_stock Fifo))" by code_simp
  fix r db1
  assume run: "create_reservation 3 7 ''Ann'' ?i (example_stock Fifo) = Inr (r, db1)"
  have "db_reservations (example_stock Fifo) = []" "reserved_quantity 7 None 10 20 (example_stock Fifo) = 0"
    by code_simp+
  with reservation_holds_back [OF run] run show ?thesis by auto
qed

end
