(* ===== verification/Purchasing.thy ===== *)
theory Purchasing
  imports Prelude
begin

section \<open>Purchasing: unit conversion, receiving, bill matching, payables aging\<close>

text \<open>
  The pure functions of \<open>apps/api/src/materials\<close> behind purchase orders and vendor bills:
  \<open>unit-conversion.ts\<close>, \<open>receiving-discrepancy.ts\<close>, \<open>vendor-bill-match.ts\<close> and \<open>ap-aging.ts\<close>.
\<close>

subsection \<open>Unit conversion\<close>

record unit_info =
  ui_id :: string
  ui_baseUnitId :: "string option"
  ui_factorToBase :: "number option"

definition round6 :: "number \<Rightarrow> number" where
  "round6 n = round_at 1000000 n"

definition baseIdOf :: "unit_info \<Rightarrow> string" where
  "baseIdOf u = (case ui_baseUnitId u of None \<Rightarrow> ui_id u | Some b \<Rightarrow> b)"

text \<open>\<open>factorToBase!\<close> asserts a factor; a missing one is \<open>null\<close>, which multiplication reads as 0.\<close>

definition factor_of :: "unit_info \<Rightarrow> number" where
  "factor_of u = (case ui_factorToBase u of None \<Rightarrow> 0 | Some f \<Rightarrow> f)"

definition convertUnitQuantity :: "number \<Rightarrow> unit_info \<Rightarrow> unit_info \<Rightarrow> app_error + number" where
  "convertUnitQuantity quantity from_unit to_unit =
     (if ui_id from_unit = ui_id to_unit then Inr quantity
      else if baseIdOf from_unit \<noteq> baseIdOf to_unit
      then Inl (PlainError [Str ''Units '', Str (quoted (ui_id from_unit)), Str '' and '',
                            Str (quoted (ui_id to_unit)), Str '' don't share a common base unit''])
      else let inBase = (if ui_baseUnitId from_unit = None then quantity else quantity * factor_of from_unit);
               result = (if ui_baseUnitId to_unit = None then inBase else inBase / factor_of to_unit)
           in Inr (round6 result))"

text \<open>What one unit is worth in the base unit.\<close>

definition scale_of :: "unit_info \<Rightarrow> number" where
  "scale_of u = (if ui_baseUnitId u = None then 1 else factor_of u)"

lemma convert_scale:
  "ui_id a \<noteq> ui_id b \<Longrightarrow> baseIdOf a = baseIdOf b \<Longrightarrow>
     convertUnitQuantity q a b = Inr (round6 (q * scale_of a / scale_of b))"
  by (simp add: convertUnitQuantity_def scale_of_def Let_def)

lemma abs_chain: "\<bar>a - b\<bar> \<le> d \<Longrightarrow> \<bar>b - c\<bar> \<le> e \<Longrightarrow> \<bar>a - c\<bar> \<le> e + (d :: number)"
  by linarith

lemma round6_error: "\<bar>round6 x - x\<bar> \<le> 1 / 1000000"
proof -
  have "round6 x \<le> x + js_epsilon + 1 / 2000000" "x - 1 / 2000000 < round6 x"
    using round_at_upper [of 1000000 x] round_at_lower [of 1000000 x] by (simp_all add: round6_def)
  moreover have "js_epsilon \<le> 1 / 2000000" by (simp add: js_epsilon_def)
  ultimately show ?thesis by (simp only: abs_le_iff) linarith
qed

text \<open>Converting a quantity to another unit of its family and back loses at most the rounding to six
  decimals, scaled by the ratio of the factors.\<close>

theorem convert_roundtrip:
  assumes "convertUnitQuantity q a b = Inr r" and "0 < scale_of a" and "0 < scale_of b"
  shows "\<exists>q'. convertUnitQuantity r b a = Inr q' \<and>
    \<bar>q' - q\<bar> \<le> scale_of b / scale_of a / 1000000 + 1 / 1000000"
proof (cases "ui_id a = ui_id b")
  case True
  with assms show ?thesis by (intro exI [of _ q]) (simp add: convertUnitQuantity_def)
next
  case False
  then have base: "baseIdOf a = baseIdOf b" using assms(1) by (auto simp: convertUnitQuantity_def split: if_splits)
  let ?x = "q * scale_of a / scale_of b"
  have r: "r = round6 ?x" using assms(1) convert_scale [OF False base] by simp
  let ?y = "r * scale_of b / scale_of a"
  have again: "convertUnitQuantity r b a = Inr (round6 ?y)"
    using convert_scale [of b a r] False base by simp
  have "?y - q = (r - ?x) * (scale_of b / scale_of a)"
    using assms(2,3) by (simp add: field_simps)
  then have "\<bar>?y - q\<bar> = \<bar>r - ?x\<bar> * (scale_of b / scale_of a)"
    using assms(2,3) by (simp add: abs_mult)
  also have "\<dots> \<le> 1 / 1000000 * (scale_of b / scale_of a)"
    using round6_error [of ?x] assms(2,3) by (intro mult_right_mono) (simp_all add: r)
  finally have "\<bar>?y - q\<bar> \<le> scale_of b / scale_of a / 1000000" by simp
  with round6_error [of ?y] have "\<bar>round6 ?y - q\<bar> \<le> scale_of b / scale_of a / 1000000 + 1 / 1000000"
    by (rule abs_chain)
  with again show ?thesis by blast
qed

theorem convert_roundtrip_witness:
  "\<exists>q'. convertUnitQuantity 24 \<lparr>ui_id = ''pc'', ui_baseUnitId = None, ui_factorToBase = None\<rparr>
      \<lparr>ui_id = ''box'', ui_baseUnitId = Some ''pc'', ui_factorToBase = Some 12\<rparr> = Inr q' \<and> 0 \<le> q'"
  (is "\<exists>q'. ?c = Inr q' \<and> _")
proof -
  let ?pc = "\<lparr>ui_id = ''pc'', ui_baseUnitId = None, ui_factorToBase = None\<rparr>"
  let ?box = "\<lparr>ui_id = ''box'', ui_baseUnitId = Some ''pc'', ui_factorToBase = Some 12\<rparr>"
  have "convertUnitQuantity 2 ?box ?pc = Inr 24" by code_simp
  then obtain q' where "?c = Inr q'" "\<bar>q' - 2\<bar> \<le> scale_of ?pc / scale_of ?box / 1000000 + 1 / 1000000"
    using convert_roundtrip [of 2 ?box ?pc 24] by (auto simp: scale_of_def factor_of_def)
  moreover have "scale_of ?pc / scale_of ?box / 1000000 + 1 / 1000000 \<le> 1"
    by (simp add: scale_of_def factor_of_def)
  ultimately have "\<bar>q' - 2\<bar> \<le> 1" by linarith
  then have "0 \<le> q'" by linarith
  with \<open>?c = Inr q'\<close> show ?thesis by blast
qed

subsection \<open>Receiving\<close>

datatype discrepancy_type = Short_ship | Over_ship | Damaged_goods | Backorder

record discrepancy =
  dc_type :: discrepancy_type
  dc_quantity :: number

text \<open>\<open>shortfallType\<close> is \<open>short_ship\<close> or \<open>backorder\<close> when given.\<close>

definition classifyReceivingLine :: "number \<Rightarrow> number \<Rightarrow> number \<Rightarrow> number \<Rightarrow> discrepancy_type option
    \<Rightarrow> discrepancy list" where
  "classifyReceivingLine ordered previouslyReceived thisPassReceived thisPassDamaged shortfallType =
     (let newCumulativeReceived = previouslyReceived + thisPassReceived
      in (if 0 < thisPassDamaged then [\<lparr>dc_type = Damaged_goods, dc_quantity = round2 thisPassDamaged\<rparr>] else []) @
         (if ordered < newCumulativeReceived
          then [\<lparr>dc_type = Over_ship, dc_quantity = round2 (newCumulativeReceived - ordered)\<rparr>]
          else if newCumulativeReceived < ordered \<and> shortfallType \<noteq> None
          then [\<lparr>dc_type = the shortfallType, dc_quantity = round2 (ordered - newCumulativeReceived)\<rparr>]
          else []))"

text \<open>Receiving classifies a line consistently: at most one of over-shipment and shortfall is
  recorded, an over-shipment exactly when more than ordered has arrived in all, a shortfall only when
  less has arrived and the receiver said what kind it is; and the recorded difference is the exact
  difference when the quantities have two decimals.\<close>

theorem receiving_classified:
  fixes damaged :: number
  assumes "on_grid 100 ordered" and "on_grid 100 previous" and "on_grid 100 received"
    and "kind \<noteq> Some Over_ship" and "kind \<noteq> Some Damaged_goods"
  defines "found \<equiv> filter (\<lambda>d. dc_type d \<noteq> Damaged_goods) (classifyReceivingLine ordered previous received damaged kind)"
  shows "length found \<le> 1 \<and>
    ((\<exists>d \<in> set found. dc_type d = Over_ship) \<longleftrightarrow> ordered < previous + received) \<and>
    ((\<exists>d \<in> set found. dc_type d \<in> {Short_ship, Backorder}) \<longleftrightarrow> previous + received < ordered \<and> kind \<noteq> None) \<and>
    (\<forall>d \<in> set found. dc_quantity d = \<bar>ordered - (previous + received)\<bar>)"
proof -
  have grid: "on_grid 100 (previous + received - ordered)" "on_grid 100 (ordered - (previous + received))"
    using assms(1-3) by auto
  consider "ordered < previous + received" | "previous + received < ordered" | "previous + received = ordered"
    by linarith
  then show ?thesis
  proof cases
    case 1
    then show ?thesis using grid(1) by (simp add: found_def classifyReceivingLine_def Let_def)
  next
    case 2
    then show ?thesis using grid(2) assms(4,5)
      by (cases kind; cases "the kind") (simp_all add: found_def classifyReceivingLine_def Let_def)
  qed (simp add: found_def classifyReceivingLine_def Let_def)
qed

theorem receiving_classified_witness:
  "length (filter (\<lambda>d. dc_type d \<noteq> Damaged_goods) (classifyReceivingLine 10 4 3 1 (Some Backorder))) \<le> 1"
  by (rule conjunct1 [OF receiving_classified]) (auto simp: on_grid_def is_integer_def)

subsection \<open>Matching a vendor bill\<close>

record match_line =
  ml_materialId :: "string option"
  ml_quantity :: number
  ml_unitPrice :: number

record match_result_line =
  mr_materialId :: string
  mr_orderedQuantity :: number
  mr_orderedUnitPrice :: number
  mr_billedQuantity :: number
  mr_billedUnitPrice :: number
  mr_quantityVariance :: number
  mr_priceVariance :: number

datatype match_status = No_po | Matched | Variance

text \<open>The merged lines, a \<open>Map\<close> in insertion order: quantity and amount per material. Lines without a
  material (none, or the empty string) are skipped.\<close>

fun merge_into :: "string \<Rightarrow> number \<Rightarrow> number \<Rightarrow> (string \<times> number \<times> number) list \<Rightarrow> (string \<times> number \<times> number) list" where
  "merge_into i q a [] = [(i, 0 + q, 0 + a)]"
| "merge_into i q a ((j, q', a') # es) = (if i = j then (j, q' + q, a' + a) # es else (j, q', a') # merge_into i q a es)"

definition mergeByItem :: "match_line list \<Rightarrow> (string \<times> number \<times> number) list" where
  "mergeByItem ls = fold (\<lambda>l es. case ml_materialId l of
       None \<Rightarrow> es
     | Some i \<Rightarrow> if i = [] then es else merge_into i (ml_quantity l) (ml_quantity l * ml_unitPrice l) es) ls []"

definition merged_entry :: "string \<Rightarrow> (string \<times> number \<times> number) list \<Rightarrow> number \<times> number" where
  "merged_entry i es = (case map_of es i of None \<Rightarrow> (0, 0) | Some e \<Rightarrow> e)"

text \<open>\<open>new Set([...orderedKeys, ...billedKeys])\<close>: first occurrences in order.\<close>

definition item_ids :: "string list \<Rightarrow> string list \<Rightarrow> string list" where
  "item_ids xs ys = xs @ filter (\<lambda>i. i \<notin> set xs) ys"

definition match_line_result :: "number \<times> number \<Rightarrow> number \<times> number \<Rightarrow> string \<Rightarrow> match_result_line" where
  "match_line_result ordered billed i =
     \<lparr>mr_materialId = i, mr_orderedQuantity = fst ordered,
      mr_orderedUnitPrice = (if 0 < fst ordered then round2 (snd ordered / fst ordered) else 0),
      mr_billedQuantity = fst billed,
      mr_billedUnitPrice = (if 0 < fst billed then round2 (snd billed / fst billed) else 0),
      mr_quantityVariance = round2 (fst billed - fst ordered),
      mr_priceVariance = round2 (snd billed - snd ordered)\<rparr>"

definition matchVendorBill :: "match_line list option \<Rightarrow> match_line list \<Rightarrow> match_status \<times> match_result_line list" where
  "matchVendorBill poLines billLines =
     (case poLines of
        None \<Rightarrow> (No_po, [])
      | Some ls \<Rightarrow>
          (let orderedByItem = mergeByItem ls;
               billedByItem = mergeByItem billLines;
               lines = map (\<lambda>i. match_line_result (merged_entry i orderedByItem) (merged_entry i billedByItem) i)
                 (item_ids (map fst orderedByItem) (map fst billedByItem));
               hasVariance = list_ex (\<lambda>l. 1/100 < \<bar>mr_quantityVariance l\<bar> \<or> 1/100 < \<bar>mr_priceVariance l\<bar>) lines
           in (if hasVariance then Variance else Matched, lines)))"

text \<open>The abstract reading of a list of lines: what it has of one material, in quantity and amount.\<close>

definition item_quantity :: "string \<Rightarrow> match_line list \<Rightarrow> number" where
  "item_quantity i ls = (\<Sum>l \<leftarrow> ls. if ml_materialId l = Some i then ml_quantity l else 0)"

definition item_amount :: "string \<Rightarrow> match_line list \<Rightarrow> number" where
  "item_amount i ls = (\<Sum>l \<leftarrow> ls. if ml_materialId l = Some i then ml_quantity l * ml_unitPrice l else 0)"

lemma merged_entry_into:
  "merged_entry i (merge_into j q a es) =
     (if i = j then (fst (merged_entry i es) + q, snd (merged_entry i es) + a) else merged_entry i es)"
  by (induction j q a es rule: merge_into.induct) (auto simp: merged_entry_def)

lemma merged_entry_fold:
  "i \<noteq> [] \<Longrightarrow> merged_entry i (fold (\<lambda>l es. case ml_materialId l of
       None \<Rightarrow> es
     | Some i \<Rightarrow> if i = [] then es else merge_into i (ml_quantity l) (ml_quantity l * ml_unitPrice l) es) ls es) =
   (fst (merged_entry i es) + item_quantity i ls, snd (merged_entry i es) + item_amount i ls)"
proof (induction ls arbitrary: es)
  case (Cons l ls)
  then show ?case
    by (cases "ml_materialId l")
      (auto simp: merged_entry_into item_quantity_def item_amount_def)
qed (simp add: item_quantity_def item_amount_def)

lemma merged_entry_sums: "i \<noteq> [] \<Longrightarrow> merged_entry i (mergeByItem ls) = (item_quantity i ls, item_amount i ls)"
  by (simp add: mergeByItem_def merged_entry_fold) (simp add: merged_entry_def)

lemma merge_into_keys: "fst ` set (merge_into i q a es) = insert i (fst ` set es)"
  by (induction i q a es rule: merge_into.induct) auto

lemma merged_keys: "fst ` set (mergeByItem ls) = {i. i \<noteq> [] \<and> Some i \<in> ml_materialId ` set ls}"
proof -
  have "fst ` set (fold (\<lambda>l es. case ml_materialId l of
       None \<Rightarrow> es
     | Some i \<Rightarrow> if i = [] then es else merge_into i (ml_quantity l) (ml_quantity l * ml_unitPrice l) es) ls es) =
     fst ` set es \<union> {i. i \<noteq> [] \<and> Some i \<in> ml_materialId ` set ls}" for es
  proof (induction ls arbitrary: es)
    case (Cons l ls)
    then show ?case
      by (cases "ml_materialId l") (auto simp: merge_into_keys)
  qed simp
  then show ?thesis by (simp add: mergeByItem_def)
qed

lemma item_absent:
  "Some i \<notin> ml_materialId ` set ls \<Longrightarrow> item_quantity i ls = 0 \<and> item_amount i ls = 0"
  by (induction ls) (auto simp: item_quantity_def item_amount_def)

text \<open>A bill matches its order exactly when, material by material, what is billed and what was ordered
  agree in quantity and amount to within one cent after rounding, however either side splits,
  combines or orders its lines.\<close>

theorem bill_matches_iff:
  "fst (matchVendorBill (Some po) bill) = Matched \<longleftrightarrow>
     (\<forall>i. i = [] \<or> \<bar>round2 (item_quantity i bill - item_quantity i po)\<bar> \<le> 1/100 \<and>
                   \<bar>round2 (item_amount i bill - item_amount i po)\<bar> \<le> 1/100)"
proof -
  let ?ids = "item_ids (map fst (mergeByItem po)) (map fst (mergeByItem bill))"
  let ?ok = "\<lambda>i. \<bar>round2 (item_quantity i bill - item_quantity i po)\<bar> \<le> 1/100 \<and>
                 \<bar>round2 (item_amount i bill - item_amount i po)\<bar> \<le> 1/100"
  have ids: "set ?ids = {i. i \<noteq> [] \<and> (Some i \<in> ml_materialId ` set po \<or> Some i \<in> ml_materialId ` set bill)}"
    using merged_keys [of po] merged_keys [of bill] by (auto simp: item_ids_def image_image)
  have "fst (matchVendorBill (Some po) bill) = Matched \<longleftrightarrow> (\<forall>i \<in> set ?ids. ?ok i)"
    using ids by (auto simp: matchVendorBill_def Let_def list_ex_iff match_line_result_def merged_entry_sums not_less)
  moreover have "?ok i" if "i \<notin> set ?ids" "i \<noteq> []" for i
    using that ids item_absent [of i po] item_absent [of i bill] by auto
  ultimately show ?thesis using ids by blast
qed

text \<open>The comment above \<open>mergeByItem\<close> says that material present on one side only is excluded from the
  comparison; it is compared with zero, and makes a variance.\<close>

lemma one_sided_item_is_variance:
  "matchVendorBill (Some [\<lparr>ml_materialId = Some ''a'', ml_quantity = 1, ml_unitPrice = 5\<rparr>]) [] =
     (Variance, [\<lparr>mr_materialId = ''a'', mr_orderedQuantity = 1, mr_orderedUnitPrice = 5,
        mr_billedQuantity = 0, mr_billedUnitPrice = 0, mr_quantityVariance = -1, mr_priceVariance = -5\<rparr>])"
  by code_simp

subsection \<open>Payables aging\<close>

datatype aging_bucket = Current | Days1to30 | Days31to60 | Days61to90 | Over90

record aging_bill =
  ab_id :: string
  ab_amount :: number
  ab_dueDate :: "date option"

definition bucketFor :: "int \<Rightarrow> aging_bucket" where
  "bucketFor daysPastDue =
     (if daysPastDue \<le> 0 then Current
      else if daysPastDue \<le> 30 then Days1to30
      else if daysPastDue \<le> 60 then Days31to60
      else if daysPastDue \<le> 90 then Days61to90
      else Over90)"

definition day_ms :: int where
  "day_ms = 86400000"

definition days_past_due :: "date \<Rightarrow> aging_bill \<Rightarrow> int" where
  "days_past_due asOf b = (case ab_dueDate b of None \<Rightarrow> - 1 | Some d \<Rightarrow> (asOf - d) div day_ms)"

definition calculateApAging :: "aging_bill list \<Rightarrow> date \<Rightarrow> (aging_bill \<times> int \<times> aging_bucket) list \<times> (aging_bucket \<Rightarrow> number) \<times> number" where
  "calculateApAging bills asOf =
     (let results = map (\<lambda>b. (b, max (days_past_due asOf b) 0, bucketFor (days_past_due asOf b))) bills;
          totals = fold (\<lambda>b t. t(bucketFor (days_past_due asOf b) :=
                     round2 (t (bucketFor (days_past_due asOf b)) + ab_amount b))) bills (\<lambda>_. 0)
      in (results, totals,
          round2 (\<Sum>k \<leftarrow> [Current, Days1to30, Days31to60, Days61to90, Over90]. totals k)))"

lemma aging_totals:
  assumes "\<And>b. b \<in> set bills \<Longrightarrow> on_grid 100 (ab_amount b)" and "\<And>k. on_grid 100 (t k)"
  shows "fold (\<lambda>b t. t(f b := round2 (t (f b) + ab_amount b))) bills t k =
    t k + (\<Sum>b \<leftarrow> bills. if f b = k then ab_amount b else 0)"
  using assms
proof (induction bills arbitrary: t)
  case (Cons b bills)
  have grid: "on_grid 100 (t (f b) + ab_amount b)" using Cons.prems by auto
  have "fold (\<lambda>b t. t(f b := round2 (t (f b) + ab_amount b))) bills (t(f b := t (f b) + ab_amount b)) k =
      (t(f b := t (f b) + ab_amount b)) k + (\<Sum>b \<leftarrow> bills. if f b = k then ab_amount b else 0)"
    by (rule Cons.IH) (use Cons.prems grid in auto)
  then show ?case using grid by (simp add: fun_upd_def cong: if_cong)
qed simp

text \<open>Every payable is aged once: with amounts in cents, the total of a bucket is the sum of the bills
  whose days past due fall into it, and the grand total is the sum of all the bills; a bill
  without a due date, or not yet due, is current.\<close>

theorem aging_totals_exact:
  assumes "\<And>b. b \<in> set bills \<Longrightarrow> on_grid 100 (ab_amount b)"
  shows "fst (snd (calculateApAging bills asOf)) k =
           (\<Sum>b \<leftarrow> bills. if bucketFor (days_past_due asOf b) = k then ab_amount b else 0) \<and>
         snd (snd (calculateApAging bills asOf)) = (\<Sum>b \<leftarrow> bills. ab_amount b) \<and>
         (ab_dueDate b = None \<or> ab_dueDate b = Some d \<and> asOf < d + day_ms \<longrightarrow> bucketFor (days_past_due asOf b) = Current)"
proof -
  have totals: "fst (snd (calculateApAging bills asOf)) k =
      (\<Sum>b \<leftarrow> bills. if bucketFor (days_past_due asOf b) = k then ab_amount b else 0)" for k
    using aging_totals [of bills "\<lambda>_. 0" "\<lambda>b. bucketFor (days_past_due asOf b)" k, OF assms on_grid_zero]
    by (simp add: calculateApAging_def Let_def)
  have grand: "snd (snd (calculateApAging bills asOf)) =
      round2 (\<Sum>k \<leftarrow> [Current, Days1to30, Days31to60, Days61to90, Over90]. fst (snd (calculateApAging bills asOf)) k)"
    by (simp add: calculateApAging_def Let_def)
  have split: "(\<Sum>k \<leftarrow> [Current, Days1to30, Days31to60, Days61to90, Over90].
      \<Sum>b \<leftarrow> bills. if bucketFor (days_past_due asOf b) = k then ab_amount b else 0) = (\<Sum>b \<leftarrow> bills. ab_amount b)"
    by (induction bills) (auto simp: bucketFor_def algebra_simps)
  moreover have "on_grid 100 (\<Sum>b \<leftarrow> bills. ab_amount b)"
    by (rule on_grid_sum_list) (use assms in auto)
  ultimately have "snd (snd (calculateApAging bills asOf)) = (\<Sum>b \<leftarrow> bills. ab_amount b)"
    unfolding grand totals by simp
  moreover have "asOf < d + day_ms \<Longrightarrow> (asOf - d) div day_ms \<le> 0" for d
    by (auto simp: day_ms_def)
  ultimately show ?thesis
    by (auto simp: totals days_past_due_def bucketFor_def)
qed

definition example_bills :: "aging_bill list" where
  "example_bills = [\<lparr>ab_id = ''a'', ab_amount = 7, ab_dueDate = Some 0\<rparr>,
                    \<lparr>ab_id = ''b'', ab_amount = 5, ab_dueDate = None\<rparr>]"

theorem aging_totals_exact_witness:
  "snd (snd (calculateApAging example_bills 90000000)) = 12"
proof -
  have "on_grid 100 (ab_amount b)" if "b \<in> set example_bills" for b
    using that by (auto simp: example_bills_def on_grid_def is_integer_def)
  from aging_totals_exact [of example_bills 90000000, OF this]
  show ?thesis by (simp add: example_bills_def)
qed

end
