(* ===== verification/Gobd.thy ===== *)
theory Gobd
  imports Prelude "HOL-Library.Multiset" "HOL-Library.Char_ord" "HOL-Library.List_Lexorder"
begin

section \<open>The tamper-evident ledger\<close>

text \<open>
  \<open>apps/api/src/common/gobd/gobd-ledger.service.ts\<close>. Each entry carries the hash of its own
  canonicalised content and of its predecessor's hash. The digest
  (\<open>createHash("sha256").update(JSON.stringify(\<dots>)).digest("hex")\<close>) is the parameter \<open>digest\<close>
  of the definitions; that two given inputs do not collide is a named hypothesis where a
  theorem needs it. A ledger is the list of the rows in insertion order.
\<close>

subsection \<open>JSON values and canonical order\<close>

datatype json =
    JNull
  | JBool bool
  | JNum number
  | JStr string
  | JArr "json list"
  | JObj "(string \<times> json) list"

fun canonicalize :: "json \<Rightarrow> json" where
  "canonicalize (JArr vs) = JArr (map canonicalize vs)"
| "canonicalize (JObj kvs) = JObj (sort_key fst (map (\<lambda>(k, v). (k, canonicalize v)) kvs))"
| "canonicalize JNull = JNull"
| "canonicalize (JBool b) = JBool b"
| "canonicalize (JNum n) = JNum n"
| "canonicalize (JStr s) = JStr s"

text \<open>Two values are the same up to the order of object keys, which are distinct.\<close>

inductive same_json :: "json \<Rightarrow> json \<Rightarrow> bool" where
  same_refl: "same_json v v"
| same_arr: "list_all2 same_json vs ws \<Longrightarrow> same_json (JArr vs) (JArr ws)"
| same_obj: "map fst kvs = map fst lws \<Longrightarrow> list_all2 same_json (map snd kvs) (map snd lws) \<Longrightarrow>
    mset lws = mset ms \<Longrightarrow> distinct (map fst kvs) \<Longrightarrow> same_json (JObj kvs) (JObj ms)"

lemma sort_key_mset_eq:
  assumes "mset xs = mset ys" and "distinct (map f xs)"
  shows "sort_key f xs = sort_key (f :: 'a \<Rightarrow> 'b :: linorder) ys"
proof (rule map_sorted_distinct_set_unique [where f = f])
  have set: "set xs = set ys" using assms(1) by (metis set_mset_mset)
  have d: "distinct (map f ys)"
    using assms by (metis mset_eq_imp_distinct_iff mset_map)
  show "inj_on f (set (sort_key f xs) \<union> set (sort_key f ys))"
    using assms(2) set by (simp add: distinct_map)
  show "sorted (map f (sort_key f xs))" "sorted (map f (sort_key f ys))" by simp_all
  show "distinct (map f (sort_key f xs))" "distinct (map f (sort_key f ys))"
    using assms(2) d by (auto simp: distinct_map)
  show "set (sort_key f xs) = set (sort_key f ys)" using set by simp
qed

lemma list_all2_map_eq: "list_all2 (\<lambda>x y. P x y \<and> f x = f y) xs ys \<Longrightarrow> map f xs = map f ys"
  by (induction xs ys rule: list_all2_induct) auto

lemma canonicalize_same: "same_json a b \<Longrightarrow> canonicalize a = canonicalize b"
proof (induction rule: same_json.induct)
  case (same_arr vs ws)
  then show ?case using list_all2_map_eq [OF same_arr.IH] by simp
next
  case (same_obj kvs lws ms)
  let ?c = "\<lambda>(k, v). (k, canonicalize v)"
  have "map canonicalize (map snd kvs) = map canonicalize (map snd lws)"
    by (rule list_all2_map_eq [OF same_obj.IH])
  with same_obj.hyps(1) have keys: "map ?c kvs = map ?c lws"
    by (induction kvs lws rule: list_induct2') (auto split: prod.splits)
  have "mset (map ?c lws) = mset (map ?c ms)" using same_obj.hyps(2) by (simp add: mset_map)
  moreover have "distinct (map fst (map ?c lws))"
    using same_obj.hyps(1,3) by (simp add: comp_def case_prod_unfold)
  ultimately have "sort_key fst (map ?c lws) = sort_key fst (map ?c ms)"
    by (rule sort_key_mset_eq)
  then show ?case by (simp add: keys)
qed simp

subsection \<open>The chain\<close>

record ledger_entry =
  ge_companyId :: string
  ge_sequence :: nat
  ge_entityType :: string
  ge_entityId :: string
  ge_event :: string
  ge_summary :: string
  ge_payload :: json
  ge_actorName :: string
  ge_previousHash :: "string option"
  ge_hash :: string

text \<open>The object \<open>computeHash\<close> canonicalises, and the digest of it.\<close>

definition hash_input :: "ledger_entry \<Rightarrow> json" where
  "hash_input e = JObj
     [(''companyId'', JStr (ge_companyId e)),
      (''sequence'', JNum (of_nat (ge_sequence e))),
      (''entityType'', JStr (ge_entityType e)),
      (''entityId'', JStr (ge_entityId e)),
      (''event'', JStr (ge_event e)),
      (''summary'', JStr (ge_summary e)),
      (''payload'', ge_payload e),
      (''actorName'', JStr (ge_actorName e)),
      (''previousHash'', case ge_previousHash e of None \<Rightarrow> JNull | Some h \<Rightarrow> JStr h)]"

definition computeHash :: "(json \<Rightarrow> string) \<Rightarrow> ledger_entry \<Rightarrow> string" where
  "computeHash digest e = digest (canonicalize (hash_input e))"

text \<open>\<open>findFirst({ where: { companyId }, orderBy: { sequence: "desc" } })\<close> and the entries of a
  company by ascending sequence.\<close>

definition company_entries :: "string \<Rightarrow> ledger_entry list \<Rightarrow> ledger_entry list" where
  "company_entries companyId es = sort_key ge_sequence (filter (\<lambda>e. ge_companyId e = companyId) es)"

definition last_entry :: "string \<Rightarrow> ledger_entry list \<Rightarrow> ledger_entry option" where
  "last_entry companyId es =
     (case company_entries companyId es of [] \<Rightarrow> None | xs \<Rightarrow> Some (last xs))"

definition append_entry :: "(json \<Rightarrow> string) \<Rightarrow> string \<Rightarrow> string \<Rightarrow> string \<Rightarrow> string \<Rightarrow> string \<Rightarrow> string \<Rightarrow> json
    \<Rightarrow> ledger_entry list \<Rightarrow> ledger_entry list" where
  "append_entry digest companyId actorName event entityType entityId summary payload es =
     (let sequence = (case last_entry companyId es of None \<Rightarrow> 0 | Some l \<Rightarrow> ge_sequence l) + 1;
          previousHash = map_option ge_hash (last_entry companyId es);
          e = \<lparr>ge_companyId = companyId, ge_sequence = sequence, ge_entityType = entityType,
               ge_entityId = entityId, ge_event = event, ge_summary = summary, ge_payload = payload,
               ge_actorName = actorName, ge_previousHash = previousHash, ge_hash = []\<rparr>
      in es @ [e\<lparr>ge_hash := computeHash digest e\<rparr>])"

record verification =
  vf_valid :: bool
  vf_brokenAtSequence :: "nat option"
  vf_entryCount :: nat

fun verify_loop :: "(json \<Rightarrow> string) \<Rightarrow> string option \<Rightarrow> ledger_entry list \<Rightarrow> nat option" where
  "verify_loop digest previousHash [] = None"
| "verify_loop digest previousHash (e # es) =
     (if ge_previousHash e \<noteq> previousHash then Some (ge_sequence e)
      else if computeHash digest e \<noteq> ge_hash e then Some (ge_sequence e)
      else verify_loop digest (Some (ge_hash e)) es)"

definition verifyChain :: "(json \<Rightarrow> string) \<Rightarrow> string \<Rightarrow> ledger_entry list \<Rightarrow> verification" where
  "verifyChain digest companyId es =
     (let entries = company_entries companyId es;
          broken = verify_loop digest None entries
      in \<lparr>vf_valid = (broken = None), vf_brokenAtSequence = broken, vf_entryCount = length entries\<rparr>)"

definition list_entries :: "string \<Rightarrow> nat \<Rightarrow> (ledger_entry \<Rightarrow> uid) \<Rightarrow> uid option \<Rightarrow> ledger_entry list \<Rightarrow> ledger_entry list" where
  "list_entries companyId n ident cursor es = page n ident cursor (rev (company_entries companyId es))"

subsection \<open>A ledger built by appending\<close>

text \<open>Every company's entries are numbered from 1 without a gap, and the chain verifies.\<close>

definition chain_ok :: "(json \<Rightarrow> string) \<Rightarrow> ledger_entry list \<Rightarrow> bool" where
  "chain_ok digest es \<longleftrightarrow> (\<forall>c. let xs = filter (\<lambda>e. ge_companyId e = c) es in
     map ge_sequence xs = [1..<Suc (length xs)] \<and> verify_loop digest None xs = None)"

inductive ledger_step :: "(json \<Rightarrow> string) \<Rightarrow> ledger_entry list \<Rightarrow> ledger_entry list \<Rightarrow> bool" for digest where
  "ledger_step digest es (append_entry digest companyId actorName event entityType entityId summary payload es)"

lemma company_entries_ok:
  assumes "chain_ok digest es"
  shows "company_entries c es = filter (\<lambda>e. ge_companyId e = c) es"
proof -
  have "map ge_sequence (filter (\<lambda>e. ge_companyId e = c) es) =
      [1..<Suc (length (filter (\<lambda>e. ge_companyId e = c) es))]"
    using assms unfolding chain_ok_def Let_def by blast
  then have "sorted (map ge_sequence (filter (\<lambda>e. ge_companyId e = c) es))" by (metis sorted_upt)
  then show ?thesis unfolding company_entries_def by (rule sort_key_sorted)
qed

lemma verify_loop_append:
  "verify_loop digest p (xs @ [e]) = (case verify_loop digest p xs of Some n \<Rightarrow> Some n
     | None \<Rightarrow> verify_loop digest (if xs = [] then p else Some (ge_hash (last xs))) [e])"
  by (induction xs arbitrary: p) (auto simp: last_ConsR split: option.split)

lemma computeHash_hash_update [simp]: "computeHash digest (e\<lparr>ge_hash := h\<rparr>) = computeHash digest e"
  by (simp add: computeHash_def hash_input_def)

lemma chain_ok_append:
  assumes "chain_ok digest es"
  shows "chain_ok digest (append_entry digest companyId actorName event entityType entityId summary payload es)"
proof -
  let ?xs = "filter (\<lambda>e. ge_companyId e = companyId) es"
  have xs: "map ge_sequence ?xs = [1..<Suc (length ?xs)]" "verify_loop digest None ?xs = None"
    using assms unfolding chain_ok_def Let_def by blast+
  have last: "last_entry companyId es = (if ?xs = [] then None else Some (last ?xs))"
    by (simp add: last_entry_def company_entries_ok [OF assms] split: list.split)
  have seq: "ge_sequence (last ?xs) = length ?xs" if "?xs \<noteq> []"
    using arg_cong [OF xs(1), of last] that by (auto simp: last_map Suc_le_eq)
  obtain e where app: "append_entry digest companyId actorName event entityType entityId summary payload es = es @ [e]"
    and e: "ge_companyId e = companyId" "ge_sequence e = Suc (length ?xs)"
      "ge_previousHash e = (if ?xs = [] then None else Some (ge_hash (last ?xs)))"
      "ge_hash e = computeHash digest e"
    using seq by (cases "?xs = []") (auto simp: append_entry_def Let_def last computeHash_def hash_input_def)
  have "verify_loop digest None (?xs @ [e]) = None"
    using xs(2) e(3,4) by (simp add: verify_loop_append)
  moreover have "map ge_sequence (?xs @ [e]) = [1..<Suc (length (?xs @ [e]))]"
    using xs(1) e(2) by simp
  ultimately show ?thesis
    using assms e(1) unfolding app chain_ok_def Let_def by (auto simp del: upt_Suc)
qed

interpretation ledger: transition_system "\<lambda>es. es = []" "ledger_step digest" "chain_ok digest" for digest
proof unfold_locales
  show "chain_ok digest es" if "es = []" for es using that by (simp add: chain_ok_def)
  show "chain_ok digest t" if "chain_ok digest es" "ledger_step digest es t" for es t
    using that(2,1) by cases (simp add: chain_ok_append)
qed

text \<open>C30 The ledger the service writes verifies: starting empty, after any sequence of appends for
  any companies, \<open>verifyChain\<close> accepts every company's chain, counts all its entries, and their
  sequence numbers run from 1 without a gap.\<close>

theorem appended_ledger_verifies:
  assumes "(ledger_step digest)\<^sup>*\<^sup>* [] es"
  shows "verifyChain digest c es = \<lparr>vf_valid = True, vf_brokenAtSequence = None,
      vf_entryCount = length (company_entries c es)\<rparr> \<and>
    map ge_sequence (company_entries c es) = [1..<Suc (length (company_entries c es))]"
proof -
  have ok: "chain_ok digest es" using ledger.inv_reachable [OF refl assms] .
  then have "map ge_sequence (filter (\<lambda>e. ge_companyId e = c) es) =
      [1..<Suc (length (filter (\<lambda>e. ge_companyId e = c) es))]"
    "verify_loop digest None (filter (\<lambda>e. ge_companyId e = c) es) = None"
    unfolding chain_ok_def Let_def by blast+
  then show ?thesis by (simp add: verifyChain_def company_entries_ok [OF ok])
qed

subsection \<open>Tampering\<close>

lemma verify_loop_prefix:
  "verify_loop digest p (xs @ ys) = None \<Longrightarrow> verify_loop digest p xs = None"
  by (induction xs arbitrary: p) (auto split: if_splits)

lemma verify_loop_broken:
  "verify_loop digest p (xs @ ys) = (case verify_loop digest p xs of Some n \<Rightarrow> Some n
     | None \<Rightarrow> verify_loop digest (if xs = [] then p else Some (ge_hash (last xs))) ys)"
  by (induction xs arbitrary: p) (auto simp: last_ConsR split: option.split)

lemma verify_loop_last:
  "verify_loop digest p (xs @ [e]) = None \<Longrightarrow>
     ge_previousHash e = (if xs = [] then p else Some (ge_hash (last xs))) \<and> computeHash digest e = ge_hash e"
  by (simp add: verify_loop_append split: option.splits if_splits)


text \<open>The hash does not depend on the order in which the database returns the keys of the stored
  payload: two entries whose payloads are the same up to the order of object keys, at any depth,
  and that agree in everything else, have the same hash.\<close>

theorem hash_ignores_key_order:
  assumes "same_json (ge_payload e) v"
  shows "computeHash digest (e\<lparr>ge_payload := v\<rparr>) = computeHash digest e"
  using canonicalize_same [OF assms] by (simp add: computeHash_def hash_input_def)

text \<open>The chain does not detect that its newest entries were removed: a shortened ledger verifies.\<close>

lemma truncation_undetected:
  assumes "chain_ok digest (es @ [e])"
  shows "vf_valid (verifyChain digest c es)"
proof -
  let ?f = "filter (\<lambda>e. ge_companyId e = c)"
  have all: "map ge_sequence (?f (es @ [e])) = [1..<Suc (length (?f (es @ [e])))]"
    "verify_loop digest None (?f (es @ [e])) = None"
    using assms unfolding chain_ok_def Let_def by blast+
  have "sorted (map ge_sequence (?f (es @ [e])))" using all(1) by (metis sorted_upt)
  then have "company_entries c es = ?f es"
    unfolding company_entries_def by (intro sort_key_sorted) (auto simp: sorted_append split: if_splits)
  moreover have "verify_loop digest None (?f es) = None"
    using all(2) verify_loop_prefix [of digest None "?f es" "?f [e]"] by simp
  ultimately show ?thesis by (simp add: verifyChain_def Let_def)
qed

subsection \<open>The theorems at concrete inputs\<close>

text \<open>A digest that spells out the strings of its input, and a ledger of two entries.\<close>

fun example_digest :: "json \<Rightarrow> string" where
  "example_digest (JStr s) = s"
| "example_digest (JArr vs) = concat (map example_digest vs)"
| "example_digest (JObj kvs) = concat (map (\<lambda>(k, v). k @ example_digest v) kvs)"
| "example_digest JNull = ''null''"
| "example_digest (JBool b) = (if b then ''true'' else ''false'')"
| "example_digest (JNum n) = ''number''"

definition example_ledger :: "ledger_entry list" where
  "example_ledger =
     append_entry example_digest ''c1'' ''Ann'' ''invoice.voided'' ''Invoice'' ''i1'' ''voided'' (JObj [])
       (append_entry example_digest ''c1'' ''Ann'' ''invoice.locked'' ''Invoice'' ''i1'' ''locked''
          (JObj [(''total'', JStr ''100''), (''number'', JStr ''INV-0001'')]) [])"

lemma example_ledger_steps: "(ledger_step example_digest)\<^sup>*\<^sup>* [] example_ledger"
  unfolding example_ledger_def
  by (rule rtranclp.rtrancl_into_rtrancl [OF r_into_rtranclp]) (rule ledger_step.intros)+

lemma example_ledger_ok: "chain_ok example_digest example_ledger"
  using ledger.inv_reachable [OF refl example_ledger_steps] .

theorem appended_ledger_verifies_witness:
  "verifyChain example_digest ''c1'' example_ledger = \<lparr>vf_valid = True, vf_brokenAtSequence = None, vf_entryCount = 2\<rparr>"
proof -
  have "length (company_entries ''c1'' example_ledger) = 2" by code_simp
  then show ?thesis using appended_ledger_verifies [OF example_ledger_steps, of "''c1''"] by simp
qed

definition tampered_entry :: ledger_entry where
  "tampered_entry = (hd example_ledger)\<lparr>ge_summary := ''never happened''\<rparr>"


theorem hash_ignores_key_order_witness:
  "computeHash example_digest (tampered_entry\<lparr>ge_payload :=
     JObj [(''number'', JStr ''INV-0001''), (''total'', JStr ''100'')]\<rparr>) = computeHash example_digest tampered_entry"
proof (rule hash_ignores_key_order)
  have "ge_payload tampered_entry = JObj [(''total'', JStr ''100''), (''number'', JStr ''INV-0001'')]"
    by (simp add: tampered_entry_def example_ledger_def append_entry_def Let_def)
  then show "same_json (ge_payload tampered_entry) (JObj [(''number'', JStr ''INV-0001''), (''total'', JStr ''100'')])"
    by (simp only:) (rule same_obj [where lws = "[(''total'', JStr ''100''), (''number'', JStr ''INV-0001'')]"],
      simp_all add: same_refl add_mset_commute)
qed

end
