(* ===== verification/Finance_Calc.thy ===== *)
theory Finance_Calc
  imports Prelude
begin

section \<open>Invoice arithmetic\<close>

text \<open>
  The pure functions of \<open>apps/api/src/finance\<close>: \<open>progress-billing.ts\<close>, \<open>late-fee.ts\<close>,
  \<open>fx-settlement.ts\<close> and the calculation of \<open>recurring-invoice-schedule.ts\<close>.
\<close>

subsection \<open>Progress billing\<close>

record draw_calc =
  dr_grossAmount :: number
  dr_retainageAmount :: number
  dr_netAmount :: number

definition calculateProgressDraw :: "number \<Rightarrow> number \<Rightarrow> number \<Rightarrow> number \<Rightarrow> draw_calc" where
  "calculateProgressDraw contractTotal previousPercentBilled percentComplete retainagePercent =
     (let grossAmount = round2 (contractTotal * (percentComplete - previousPercentBilled) / 100);
          retainageAmount = round2 (grossAmount * (retainagePercent / 100));
          netAmount = round2 (grossAmount - retainageAmount)
      in \<lparr>dr_grossAmount = grossAmount, dr_retainageAmount = retainageAmount, dr_netAmount = netAmount\<rparr>)"

subsection \<open>Late fees\<close>

definition calculateLateFee :: "number \<Rightarrow> int \<Rightarrow> number \<Rightarrow> number" where
  "calculateLateFee outstandingBalance daysOverdue percentPerMonth =
     (if outstandingBalance \<le> 0 \<or> daysOverdue \<le> 0 \<or> percentPerMonth \<le> 0 then 0
      else let monthsOverdue = of_int daysOverdue / 30
           in round2 (outstandingBalance * (percentPerMonth / 100) * monthsOverdue))"

definition daysOverdue :: "date \<Rightarrow> date \<Rightarrow> int" where
  "daysOverdue dueDate asOf = max 0 ((asOf - dueDate) div 86400000)"

subsection \<open>Foreign-currency settlement\<close>

record fx_result =
  fx_convertedAmount :: number
  fx_benchmarkAmount :: "number option"
  fx_gainLoss :: "number option"

definition calculateFxSettlement :: "number \<Rightarrow> number \<Rightarrow> number option \<Rightarrow> fx_result" where
  "calculateFxSettlement foreignAmount actualRate benchmarkRate =
     (let convertedAmount = round2 (foreignAmount * actualRate)
      in case benchmarkRate of
           None \<Rightarrow> \<lparr>fx_convertedAmount = convertedAmount, fx_benchmarkAmount = None, fx_gainLoss = None\<rparr>
         | Some rate \<Rightarrow>
             (let benchmarkAmount = round2 (foreignAmount * rate)
              in \<lparr>fx_convertedAmount = convertedAmount, fx_benchmarkAmount = Some benchmarkAmount,
                  fx_gainLoss = Some (round2 (convertedAmount - benchmarkAmount))\<rparr>))"

subsection \<open>Recurring invoices\<close>

record recurring_line =
  rl_description :: string
  rl_quantity :: number
  rl_unitPrice :: number

record recurring_calc =
  rc_lines :: "(recurring_line \<times> number) list"
  rc_subtotal :: number
  rc_taxAmount :: number
  rc_total :: number

definition calculateRecurringInvoice :: "recurring_line list \<Rightarrow> number \<Rightarrow> recurring_calc" where
  "calculateRecurringInvoice lines taxPercent =
     (let calcLines = map (\<lambda>l. (l, round2 (rl_quantity l * rl_unitPrice l))) lines;
          subtotal = round2 (\<Sum>l \<leftarrow> calcLines. snd l);
          taxAmount = round2 (subtotal * (taxPercent / 100))
      in \<lparr>rc_lines = calcLines, rc_subtotal = subtotal, rc_taxAmount = taxAmount,
          rc_total = round2 (subtotal + taxAmount)\<rparr>)"

subsection \<open>Their laws\<close>

text \<open>A sequence of draws of one contract, each from the percentage of the one before.\<close>

fun draw_series :: "number \<Rightarrow> number \<Rightarrow> number \<Rightarrow> number list \<Rightarrow> draw_calc list" where
  "draw_series contractTotal retainagePercent previous [] = []"
| "draw_series contractTotal retainagePercent previous (p # ps) =
     calculateProgressDraw contractTotal previous p retainagePercent #
     draw_series contractTotal retainagePercent p ps"

lemma draw_splits:
  "dr_netAmount (calculateProgressDraw c p q r) + dr_retainageAmount (calculateProgressDraw c p q r) =
   dr_grossAmount (calculateProgressDraw c p q r)"
  by (simp add: calculateProgressDraw_def Let_def on_grid_diff)

lemma round2_error: "\<bar>round2 x - x\<bar> \<le> 1 / 200 + js_epsilon"
proof -
  have "round2 x \<le> x + js_epsilon + 1 / 200" "x - 1 / 200 < round2 x"
    using round_at_upper [of 100 x] round_at_lower [of 100 x] by (simp_all add: round2_def)
  moreover have "0 \<le> js_epsilon" by (simp add: js_epsilon_def)
  ultimately show ?thesis by (simp only: abs_le_iff) linarith
qed

lemma draw_gross_error:
  "\<bar>dr_grossAmount (calculateProgressDraw c p q r) - c * (q - p) / 100\<bar> \<le> 1 / 200 + js_epsilon"
  unfolding calculateProgressDraw_def Let_def by (simp add: round2_error)

lemma draw_series_gross:
  "\<bar>(\<Sum>d \<leftarrow> draw_series c r p ps. dr_grossAmount d) - c * (last (p # ps) - p) / 100\<bar>
     \<le> of_nat (length ps) * (1 / 200 + js_epsilon)"
proof (induction ps arbitrary: p)
  case (Cons q ps)
  let ?d = "dr_grossAmount (calculateProgressDraw c p q r)" and ?s = "\<Sum>d \<leftarrow> draw_series c r q ps. dr_grossAmount d"
  have "?d + ?s - c * (last (q # ps) - p) / 100 =
      (?d - c * (q - p) / 100) + (?s - c * (last (q # ps) - q) / 100)"
    by (simp add: field_simps)
  then have "\<bar>?d + ?s - c * (last (q # ps) - p) / 100\<bar>
      \<le> \<bar>?d - c * (q - p) / 100\<bar> + \<bar>?s - c * (last (q # ps) - q) / 100\<bar>"
    using abs_triangle_ineq by metis
  also have "\<dots> \<le> (1 / 200 + js_epsilon) + of_nat (length ps) * (1 / 200 + js_epsilon)"
    using draw_gross_error Cons.IH by (rule add_mono)
  finally show ?case by (simp add: distrib_right)
qed simp

text \<open>Progress draws bill the contract: every draw splits exactly into what is billed now and what
  is retained, and over any series of draws of one contract the amounts billed gross add up to the
  contract times the percentage reached, to within half a cent (and the rounding epsilon) per draw.\<close>

theorem draws_bill_contract:
  "list_all (\<lambda>d. dr_netAmount d + dr_retainageAmount d = dr_grossAmount d) (draw_series c r p ps) \<and>
   \<bar>(\<Sum>d \<leftarrow> draw_series c r p ps. dr_grossAmount d) - c * (last (p # ps) - p) / 100\<bar>
     \<le> of_nat (length ps) * (1 / 200 + js_epsilon)"
proof
  show "list_all (\<lambda>d. dr_netAmount d + dr_retainageAmount d = dr_grossAmount d) (draw_series c r p ps)"
    by (induction ps arbitrary: p) (simp_all add: draw_splits)
qed (rule draw_series_gross)

lemma late_fee_nonneg: "0 \<le> calculateLateFee b d p"
  by (auto simp: calculateLateFee_def Let_def not_le intro!: round2_nonneg mult_nonneg_nonneg)

lemma late_fee_bound:
  "0 < b \<Longrightarrow> 0 \<le> p \<Longrightarrow> 0 \<le> d \<Longrightarrow> calculateLateFee b d p \<le> b * (p / 100) * (of_int d / 30) + 1 / 200 + js_epsilon"
proof -
  assume "0 < b" "0 \<le> p" "0 \<le> d"
  then have "0 \<le> b * (p / 100) * (of_int d / 30)" by simp
  moreover have "0 \<le> js_epsilon" by (simp add: js_epsilon_def)
  ultimately show ?thesis
    using round_at_upper [of 100 "b * (p / 100) * (of_int d / 30)"]
    by (auto simp: calculateLateFee_def Let_def round2_def)
qed

end
