(* ===== verification/Invoices.thy ===== *)
theory Invoices
  imports Finance_Calc Gobd "HOL-Library.Product_Lexorder"
begin

section \<open>InvoicesService\<close>

text \<open>
  \<open>apps/api/src/finance/invoices.service.ts\<close> and \<open>invoice-numbering.ts\<close>: the life of an invoice
  from draft to sent, paid or void, progress draws and retainage, late fees, payments, and the GoBD
  correction of a locked invoice. An operation that reads and checks outside its transaction takes
  the interference of other requests as an argument: \<open>env k\<close> is what they do to the tables at its
  \<open>k\<close>-th suspension point (\<open>\<lambda>_. id\<close> when it runs alone). The appends to the ledger and the
  outbox are recorded with their arguments; e-mail, audit log and document rendering are not part
  of the state.
\<close>

datatype invoice_status = InvDraft | InvSent | InvPaid | InvVoid

record finance_company =
  fc_id :: uid
  fc_lateFeePercentPerMonth :: "number option"
  fc_defaultPaymentTermsDays :: int

record client =
  ct_id :: uid
  ct_name :: string
  ct_paymentTermsDays :: "int option"
  ct_datevDebitorNumber :: "string option"

record invoiced_project =
  ip_id :: uid
  ip_clientId :: "uid option"

record estimate_line =
  el_rateCatalogItemId :: uid
  el_quantity :: number
  el_lineTotal :: number

record invoiced_estimate =
  ie_id :: uid
  ie_companyId :: uid
  ie_projectId :: "uid option"
  ie_approved :: bool
  ie_currency :: string
  ie_subtotal :: number
  ie_markupAmount :: number
  ie_taxAmount :: number
  ie_grandTotal :: number
  ie_lines :: "estimate_line list"

record rate_item =
  ra_id :: uid
  ra_companyId :: uid
  ra_name :: string

record invoice_line =
  vl_description :: message
  vl_quantity :: number
  vl_unitPrice :: number
  vl_lineTotal :: number

record installment =
  is_label :: string
  is_amount :: number
  is_dueDate :: "date option"
  is_sortOrder :: nat

record invoice =
  in_id :: uid
  in_companyId :: uid
  in_projectId :: uid
  in_clientId :: uid
  in_estimateId :: "uid option"
  in_number :: string
  in_status :: invoice_status
  in_subtotal :: number
  in_taxAmount :: number
  in_total :: number
  in_currency :: string
  in_dueDate :: "date option"
  in_createdAt :: date
  in_percentComplete :: "number option"
  in_retainagePercent :: "number option"
  in_retainageAmount :: number
  in_isRetainageRelease :: bool
  in_lateFeeChargedTotal :: number
  in_lastLateFeeAccrualAt :: "date option"
  in_lockedAt :: "date option"
  in_voidedAt :: "date option"
  in_voidReason :: "string option"
  in_correctsInvoiceId :: "uid option"
  in_lines :: "invoice_line list"
  in_installments :: "installment list"

record payment =
  pm_id :: uid
  pm_invoiceId :: uid
  pm_amount :: number
  pm_method :: string
  pm_stripeCheckoutSessionId :: "string option"
  pm_currency :: "string option"
  pm_foreignAmount :: "number option"
  pm_exchangeRate :: "number option"
  pm_fxGainLoss :: "number option"

text \<open>The arguments of a call of \<open>gobdLedger.append\<close> and of \<open>outbox.enqueue\<close>.\<close>

record ledger_call =
  lc_companyId :: uid
  lc_event :: string
  lc_entityId :: uid
  lc_payload :: json

record outbox_event =
  oe_companyId :: uid
  oe_event :: string
  oe_invoiceId :: uid

record finance_db =
  fd_companies :: "finance_company list"
  fd_clients :: "client list"
  fd_projects :: "invoiced_project list"
  fd_estimates :: "invoiced_estimate list"
  fd_rateItems :: "rate_item list"
  fd_invoices :: "invoice list"
  fd_payments :: "payment list"
  fd_ledger :: "ledger_call list"
  fd_outbox :: "outbox_event list"
  fd_uid :: uid

type_synonym 'a ftx = "app_error + 'a \<times> finance_db"

type_synonym interference = "nat \<Rightarrow> finance_db \<Rightarrow> finance_db"

subsection \<open>Reads\<close>

definition find_invoice :: "uid \<Rightarrow> uid \<Rightarrow> finance_db \<Rightarrow> app_error + invoice" where
  "find_invoice companyId i db =
     (case find_row (\<lambda>v. in_id v = i \<and> in_companyId v = companyId) (fd_invoices db) of
        None \<Rightarrow> Inl (NotFoundException (msg ''Invoice not found''))
      | Some v \<Rightarrow> Inr v)"

definition invoice_payments :: "uid \<Rightarrow> finance_db \<Rightarrow> payment list" where
  "invoice_payments i db = filter (\<lambda>p. pm_invoiceId p = i) (fd_payments db)"

definition paid_amount :: "uid \<Rightarrow> finance_db \<Rightarrow> number" where
  "paid_amount i db = (\<Sum>p \<leftarrow> invoice_payments i db. pm_amount p)"

definition company_row :: "uid \<Rightarrow> finance_db \<Rightarrow> app_error + finance_company" where
  "company_row companyId db =
     (case find_row (\<lambda>c. fc_id c = companyId) (fd_companies db) of None \<Rightarrow> Inl RecordNotFound | Some c \<Rightarrow> Inr c)"

definition update_invoice :: "uid \<Rightarrow> (invoice \<Rightarrow> invoice) \<Rightarrow> finance_db \<Rightarrow> finance_db" where
  "update_invoice i f db = db\<lparr>fd_invoices := update_rows (\<lambda>v. in_id v = i) f (fd_invoices db)\<rparr>"

definition append_ledger :: "uid \<Rightarrow> string \<Rightarrow> uid \<Rightarrow> json \<Rightarrow> finance_db \<Rightarrow> finance_db" where
  "append_ledger companyId event entityId payload db =
     db\<lparr>fd_ledger := fd_ledger db @ [\<lparr>lc_companyId = companyId, lc_event = event, lc_entityId = entityId,
          lc_payload = payload\<rparr>]\<rparr>"

definition enqueue_event :: "uid \<Rightarrow> string \<Rightarrow> uid \<Rightarrow> finance_db \<Rightarrow> finance_db" where
  "enqueue_event companyId event i db =
     db\<lparr>fd_outbox := fd_outbox db @ [\<lparr>oe_companyId = companyId, oe_event = event, oe_invoiceId = i\<rparr>]\<rparr>"

definition list_invoices :: "uid \<Rightarrow> (invoice \<Rightarrow> bool) \<Rightarrow> nat option \<Rightarrow> uid option \<Rightarrow> finance_db \<Rightarrow> invoice list" where
  "list_invoices companyId visible n cursor db =
     (let rows = sort_key (\<lambda>v. (- in_createdAt v, - int (in_id v)))
            (filter (\<lambda>v. in_companyId v = companyId \<and> visible v) (fd_invoices db))
      in page (case n of None \<Rightarrow> length rows | Some k \<Rightarrow> k) in_id cursor rows)"

subsection \<open>Numbers\<close>

fun decimal :: "nat \<Rightarrow> string" where
  "decimal n = (if n < 10 then [char_of (n + 48)] else decimal (n div 10) @ [char_of (n mod 10 + 48)])"

declare decimal.simps [simp del]

definition padStart :: "nat \<Rightarrow> char \<Rightarrow> string \<Rightarrow> string" where
  "padStart n c s = replicate (n - length s) c @ s"

definition invoice_number :: "nat \<Rightarrow> string" where
  "invoice_number k = ''INV-'' @ padStart 4 (CHR ''0'') (decimal k)"

definition company_count :: "uid \<Rightarrow> finance_db \<Rightarrow> nat" where
  "company_count companyId db = length (filter (\<lambda>v. in_companyId v = companyId) (fd_invoices db))"

text \<open>\<open>invoice.create\<close>: the row with a fresh id, refused by the unique indexes on
  \<open>(companyId, number)\<close> and on \<open>correctsInvoiceId\<close> (where nulls do not clash).\<close>

definition create_invoice :: "invoice \<Rightarrow> finance_db \<Rightarrow> invoice ftx" where
  "create_invoice v db =
     (if \<exists>w \<in> set (fd_invoices db). in_companyId w = in_companyId v \<and> in_number w = in_number v
      then Inl (UniqueViolation ''number'')
      else if in_correctsInvoiceId v \<noteq> None \<and>
              (\<exists>w \<in> set (fd_invoices db). in_correctsInvoiceId w = in_correctsInvoiceId v)
      then Inl (UniqueViolation ''correctsInvoiceId'')
      else let new = v\<lparr>in_id := fd_uid db\<rparr>
           in Inr (new, db\<lparr>fd_invoices := fd_invoices db @ [new], fd_uid := Suc (fd_uid db)\<rparr>))"

text \<open>\<open>createInvoiceWithNumber\<close>: attempts \<open>k\<close> to 5; others may act before the count (\<open>env (2 k)\<close>)
  and between the count and the insertion (\<open>env (2 k + 1)\<close>). The tables are returned with the
  error as well.\<close>

definition max_attempts :: nat where
  "max_attempts = 5"

fun number_attempts :: "interference \<Rightarrow> uid \<Rightarrow> (string \<Rightarrow> finance_db \<Rightarrow> invoice ftx) \<Rightarrow> nat list \<Rightarrow> finance_db
    \<Rightarrow> (app_error + invoice) \<times> finance_db" where
  "number_attempts env companyId create [] db =
     (Inl (PlainError (msg ''Failed to generate a unique invoice number'')), db)"
| "number_attempts env companyId create (k # ks) db =
     (let db1 = env (2 * k) db;
          number = invoice_number (company_count companyId db1 + 1);
          db2 = env (2 * k + 1) db1
      in case create number db2 of
           Inr (v, db3) \<Rightarrow> (Inr v, db3)
         | Inl e \<Rightarrow>
             if e \<noteq> UniqueViolation ''number'' \<or> k = max_attempts then (Inl e, db2)
             else number_attempts env companyId create ks db2)"

definition createInvoiceWithNumber :: "interference \<Rightarrow> uid \<Rightarrow> (string \<Rightarrow> finance_db \<Rightarrow> invoice ftx) \<Rightarrow> finance_db
    \<Rightarrow> (app_error + invoice) \<times> finance_db" where
  "createInvoiceWithNumber env companyId create db =
     number_attempts env companyId create [1..<Suc max_attempts] db"

subsection \<open>Late fees\<close>

definition computeLateFeeAccrued :: "date \<Rightarrow> uid \<Rightarrow> invoice \<Rightarrow> finance_db \<Rightarrow> app_error + number" where
  "computeLateFeeAccrued now companyId v db =
     (case in_dueDate v of
        None \<Rightarrow> Inr 0
      | Some due \<Rightarrow>
          if in_status v \<noteq> InvSent then Inr 0
          else case company_row companyId db of
            Inl e \<Rightarrow> Inl e
          | Inr company \<Rightarrow>
              (case fc_lateFeePercentPerMonth company of
                 None \<Rightarrow> Inr 0
               | Some pct \<Rightarrow>
                   (let paid = paid_amount (in_id v) db;
                        principalOutstanding = in_total v - in_lateFeeChargedTotal v - paid;
                        accrualStart = (case in_lastLateFeeAccrualAt v of None \<Rightarrow> due | Some d \<Rightarrow> d);
                        overdue = daysOverdue accrualStart now
                    in Inr (calculateLateFee principalOutstanding overdue pct))))"

definition get_invoice :: "date \<Rightarrow> uid \<Rightarrow> uid \<Rightarrow> finance_db \<Rightarrow> app_error + invoice \<times> number" where
  "get_invoice now companyId i db =
     (case find_invoice companyId i db of
        Inl e \<Rightarrow> Inl e
      | Inr v \<Rightarrow> (case computeLateFeeAccrued now companyId v db of Inl e \<Rightarrow> Inl e | Inr fee \<Rightarrow> Inr (v, fee)))"

definition chargeLateFee :: "date \<Rightarrow> uid \<Rightarrow> uid \<Rightarrow> finance_db \<Rightarrow> number ftx" where
  "chargeLateFee now companyId i db =
     (case find_invoice companyId i db of
        Inl e \<Rightarrow> Inl e
      | Inr v \<Rightarrow>
          (case computeLateFeeAccrued now companyId v db of
             Inl e \<Rightarrow> Inl e
           | Inr accrued \<Rightarrow>
               if accrued \<le> 0 then Inl (BadRequestException (msg ''No late fee has accrued on this invoice''))
               else Inr (accrued,
                 update_invoice i (\<lambda>v. v\<lparr>
                   in_lines := in_lines v @ [\<lparr>vl_description = msg ''Late fee'', vl_quantity = 1,
                                              vl_unitPrice = accrued, vl_lineTotal = accrued\<rparr>],
                   in_total := in_total v + accrued,
                   in_lateFeeChargedTotal := in_lateFeeChargedTotal v + accrued,
                   in_lastLateFeeAccrualAt := Some now\<rparr>) db)))"

subsection \<open>Invoices from estimates\<close>

text \<open>The data of an \<open>invoice.create\<close> with the schema's defaults for what the call leaves out.\<close>

definition new_invoice :: "date \<Rightarrow> uid \<Rightarrow> uid \<Rightarrow> uid \<Rightarrow> uid option \<Rightarrow> string \<Rightarrow> invoice_status \<Rightarrow> string
    \<Rightarrow> number \<Rightarrow> number \<Rightarrow> number \<Rightarrow> invoice_line list \<Rightarrow> invoice" where
  "new_invoice now companyId projectId clientId estimateId num status currency subtotal taxAmount totalAmount lines =
     \<lparr>in_id = 0, in_companyId = companyId, in_projectId = projectId, in_clientId = clientId,
      in_estimateId = estimateId, in_number = num, in_status = status, in_subtotal = subtotal,
      in_taxAmount = taxAmount, in_total = totalAmount, in_currency = currency, in_dueDate = None,
      in_createdAt = now, in_percentComplete = None, in_retainagePercent = None, in_retainageAmount = 0,
      in_isRetainageRelease = False, in_lateFeeChargedTotal = 0, in_lastLateFeeAccrualAt = None,
      in_lockedAt = None, in_voidedAt = None, in_voidReason = None, in_correctsInvoiceId = None,
      in_lines = lines, in_installments = []\<rparr>"

definition find_estimate :: "uid \<Rightarrow> uid \<Rightarrow> finance_db \<Rightarrow> invoiced_estimate option" where
  "find_estimate companyId i db =
     find_row (\<lambda>e. ie_id e = i \<and> ie_companyId e = companyId) (fd_estimates db)"

text \<open>\<open>assertInvoiceableEstimate\<close>: the estimate with its project and its client.\<close>

definition assertInvoiceableEstimate :: "uid \<Rightarrow> uid \<Rightarrow> finance_db \<Rightarrow> app_error + invoiced_estimate \<times> uid \<times> uid" where
  "assertInvoiceableEstimate companyId i db =
     (case find_estimate companyId i db of
        None \<Rightarrow> Inl (NotFoundException (msg ''Estimate not found''))
      | Some e \<Rightarrow>
          (case Option.bind (ie_projectId e) (\<lambda>p. find_row (\<lambda>q. ip_id q = p) (fd_projects db)) of
             None \<Rightarrow> Inl (NotFoundException (msg ''Estimate has no project - templates can't be invoiced directly''))
           | Some project \<Rightarrow>
               (case ip_clientId project of
                  None \<Rightarrow> Inl (NotFoundException (msg ''Project has no client - add a client before invoicing''))
                | Some clientId \<Rightarrow>
                    if \<not> ie_approved e
                    then Inl (NotFoundException (msg ''Estimate must be approved before it can be invoiced''))
                    else Inr (e, ip_id project, clientId))))"

definition rate_item_name :: "uid \<Rightarrow> uid \<Rightarrow> finance_db \<Rightarrow> message" where
  "rate_item_name companyId i db =
     (case find_row (\<lambda>r. ra_id r = i \<and> ra_companyId r = companyId) (fd_rateItems db) of
        None \<Rightarrow> [Num (of_nat i)] | Some r \<Rightarrow> msg (ra_name r))"

definition estimate_invoice :: "date \<Rightarrow> uid \<Rightarrow> invoiced_estimate \<Rightarrow> uid \<Rightarrow> uid \<Rightarrow> finance_db \<Rightarrow> string \<Rightarrow> invoice" where
  "estimate_invoice now companyId e projectId clientId db num =
     new_invoice now companyId projectId clientId (Some (ie_id e)) num InvDraft
       (ie_currency e) (ie_subtotal e + ie_markupAmount e) (ie_taxAmount e) (ie_grandTotal e)
       (map (\<lambda>l. \<lparr>vl_description = rate_item_name companyId (el_rateCatalogItemId l) db,
                  vl_quantity = el_quantity l,
                  vl_unitPrice = (if el_quantity l = 0 then 0 else el_lineTotal l / el_quantity l),
                  vl_lineTotal = el_lineTotal l\<rparr>) (ie_lines e))"

definition generateFromEstimate :: "interference \<Rightarrow> date \<Rightarrow> uid \<Rightarrow> uid \<Rightarrow> finance_db
    \<Rightarrow> (app_error + invoice) \<times> finance_db" where
  "generateFromEstimate env now companyId estimateId db =
     (case assertInvoiceableEstimate companyId estimateId db of
        Inl e \<Rightarrow> (Inl e, db)
      | Inr (e, projectId, clientId) \<Rightarrow>
          createInvoiceWithNumber env companyId
            (\<lambda>num. create_invoice (estimate_invoice now companyId e projectId clientId db num)) db)"

text \<open>The progress draws and the retainage releases of an estimate that were not voided.\<close>

definition live_invoices :: "uid \<Rightarrow> uid \<Rightarrow> bool \<Rightarrow> finance_db \<Rightarrow> invoice list" where
  "live_invoices companyId estimateId release db =
     filter (\<lambda>v. in_companyId v = companyId \<and> in_estimateId v = Some estimateId \<and>
               in_isRetainageRelease v = release \<and> in_status v \<noteq> InvVoid) (fd_invoices db)"

definition last_percent :: "uid \<Rightarrow> uid \<Rightarrow> finance_db \<Rightarrow> number" where
  "last_percent companyId estimateId db =
     (case List.map_filter in_percentComplete (live_invoices companyId estimateId False db) of
        [] \<Rightarrow> 0 | p # ps \<Rightarrow> fold max ps p)"

definition draw_invoice :: "date \<Rightarrow> uid \<Rightarrow> invoiced_estimate \<Rightarrow> uid \<Rightarrow> uid \<Rightarrow> number \<Rightarrow> number \<Rightarrow> number \<Rightarrow> string \<Rightarrow> invoice" where
  "draw_invoice now companyId e projectId clientId previousPercent percentComplete retainagePercent num =
     (let calc = calculateProgressDraw (ie_grandTotal e) previousPercent percentComplete retainagePercent
      in (new_invoice now companyId projectId clientId (Some (ie_id e)) num InvDraft
            (ie_currency e) (dr_grossAmount calc) 0 (dr_netAmount calc)
            [\<lparr>vl_description = [Str ''Progress billing - '', Num previousPercent, Str ''% -> '',
                                 Num percentComplete, Str ''% complete''],
              vl_quantity = 1, vl_unitPrice = dr_grossAmount calc, vl_lineTotal = dr_grossAmount calc\<rparr>])
         \<lparr>in_percentComplete := Some percentComplete, in_retainagePercent := Some retainagePercent,
          in_retainageAmount := dr_retainageAmount calc\<rparr>)"

definition generateProgressInvoice :: "interference \<Rightarrow> date \<Rightarrow> uid \<Rightarrow> uid \<Rightarrow> number \<Rightarrow> number \<Rightarrow> finance_db
    \<Rightarrow> (app_error + invoice) \<times> finance_db" where
  "generateProgressInvoice env now companyId estimateId percentComplete retainagePercent db =
     (case assertInvoiceableEstimate companyId estimateId db of
        Inl e \<Rightarrow> (Inl e, db)
      | Inr (e, projectId, clientId) \<Rightarrow>
          (let previousPercent = last_percent companyId estimateId db in
           if percentComplete \<le> previousPercent
           then (Inl (BadRequestException [Str ''Percent complete must be greater than the last draw's '',
                                           Num previousPercent, Str ''%'']), db)
           else createInvoiceWithNumber env companyId
             (\<lambda>num. create_invoice (draw_invoice now companyId e projectId clientId previousPercent
                percentComplete retainagePercent num)) db))"

definition retainage_held :: "uid \<Rightarrow> uid \<Rightarrow> finance_db \<Rightarrow> number" where
  "retainage_held companyId estimateId db =
     round2 (\<Sum>v \<leftarrow> live_invoices companyId estimateId False db. in_retainageAmount v)"

definition retainage_released :: "uid \<Rightarrow> uid \<Rightarrow> finance_db \<Rightarrow> number" where
  "retainage_released companyId estimateId db =
     round2 (\<Sum>v \<leftarrow> live_invoices companyId estimateId True db. in_total v)"

definition release_invoice :: "date \<Rightarrow> uid \<Rightarrow> invoiced_estimate \<Rightarrow> uid \<Rightarrow> uid \<Rightarrow> number \<Rightarrow> string \<Rightarrow> invoice" where
  "release_invoice now companyId e projectId clientId amount num =
     (new_invoice now companyId projectId clientId (Some (ie_id e)) num InvDraft (ie_currency e) amount 0 amount
        [\<lparr>vl_description = msg ''Retainage release'', vl_quantity = 1, vl_unitPrice = amount,
          vl_lineTotal = amount\<rparr>])\<lparr>in_isRetainageRelease := True\<rparr>"

definition releaseRetainage :: "interference \<Rightarrow> date \<Rightarrow> uid \<Rightarrow> uid \<Rightarrow> number option \<Rightarrow> finance_db
    \<Rightarrow> (app_error + invoice) \<times> finance_db" where
  "releaseRetainage env now companyId estimateId requested db =
     (case assertInvoiceableEstimate companyId estimateId db of
        Inl e \<Rightarrow> (Inl e, db)
      | Inr (e, projectId, clientId) \<Rightarrow>
          (let remaining = round2 (retainage_held companyId estimateId db - retainage_released companyId estimateId db);
               amount = (case requested of None \<Rightarrow> remaining | Some a \<Rightarrow> a)
           in if remaining \<le> 0
              then (Inl (BadRequestException (msg ''No retainage remains to release on this estimate'')), db)
              else if remaining < amount
              then (Inl (BadRequestException [Str ''Only '', Num remaining, Str '' of retainage remains to release'']), db)
              else createInvoiceWithNumber env companyId
                (\<lambda>num. create_invoice (release_invoice now companyId e projectId clientId amount num)) db))"

record billing_summary =
  bs_contractTotal :: number
  bs_percentBilled :: number
  bs_totalBilledGross :: number
  bs_totalRetainageHeld :: number
  bs_retainageReleasedTotal :: number
  bs_retainageRemaining :: number
  bs_invoices :: "invoice list"

definition progressBillingSummary :: "uid \<Rightarrow> uid \<Rightarrow> finance_db \<Rightarrow> app_error + billing_summary" where
  "progressBillingSummary companyId estimateId db =
     (case find_estimate companyId estimateId db of
        None \<Rightarrow> Inl (NotFoundException (msg ''Estimate not found''))
      | Some e \<Rightarrow>
          (let invoices = sort_key in_createdAt (filter (\<lambda>v. in_companyId v = companyId \<and>
                 in_estimateId v = Some estimateId \<and>
                 (in_percentComplete v \<noteq> None \<or> in_isRetainageRelease v)) (fd_invoices db));
               progressDraws = filter (\<lambda>v. \<not> in_isRetainageRelease v \<and> in_status v \<noteq> InvVoid) invoices;
               releaseInvoices = filter (\<lambda>v. in_isRetainageRelease v \<and> in_status v \<noteq> InvVoid) invoices;
               percents = map (\<lambda>v. case in_percentComplete v of None \<Rightarrow> 0 | Some p \<Rightarrow> p) progressDraws;
               totalRetainageHeld = round2 (\<Sum>v \<leftarrow> progressDraws. in_retainageAmount v);
               retainageReleasedTotal = round2 (\<Sum>v \<leftarrow> releaseInvoices. in_total v)
           in Inr \<lparr>bs_contractTotal = ie_grandTotal e,
                   bs_percentBilled = (case percents of [] \<Rightarrow> 0 | p # ps \<Rightarrow> fold max ps p),
                   bs_totalBilledGross = round2 (\<Sum>v \<leftarrow> progressDraws. in_subtotal v),
                   bs_totalRetainageHeld = totalRetainageHeld,
                   bs_retainageReleasedTotal = retainageReleasedTotal,
                   bs_retainageRemaining = round2 (totalRetainageHeld - retainageReleasedTotal),
                   bs_invoices = invoices\<rparr>))"

subsection \<open>Sending, editing\<close>

definition message_json :: "message \<Rightarrow> json" where
  "message_json m = JArr (map (\<lambda>p. case p of Str s \<Rightarrow> JStr s | Num n \<Rightarrow> JNum n) m)"

definition line_payload :: "invoice_line \<Rightarrow> json" where
  "line_payload l = JObj [(''description'', message_json (vl_description l)), (''quantity'', JNum (vl_quantity l)), (''unitPrice'', JNum (vl_unitPrice l)),
     (''lineTotal'', JNum (vl_lineTotal l))]"

definition locked_payload :: "invoice \<Rightarrow> date \<Rightarrow> json" where
  "locked_payload v dueDate = JObj
     [(''number'', JStr (in_number v)), (''subtotal'', JNum (in_subtotal v)),
      (''taxAmount'', JNum (in_taxAmount v)), (''total'', JNum (in_total v)),
      (''currency'', JStr (in_currency v)), (''dueDate'', JNum (of_int dueDate)),
      (''lines'', JArr (map line_payload (in_lines v)))]"

definition send_due_date :: "date \<Rightarrow> uid \<Rightarrow> invoice \<Rightarrow> finance_db \<Rightarrow> app_error + date" where
  "send_due_date now companyId v db =
     (case in_dueDate v of
        Some d \<Rightarrow> Inr d
      | None \<Rightarrow>
          (case company_row companyId db of
             Inl e \<Rightarrow> Inl e
           | Inr company \<Rightarrow>
               (let termsDays = (case Option.bind (find_row (\<lambda>c. ct_id c = in_clientId v) (fd_clients db)) ct_paymentTermsDays of
                      None \<Rightarrow> fc_defaultPaymentTermsDays company | Some d \<Rightarrow> d)
                in Inr (now + termsDays * 86400000))))"

definition send :: "interference \<Rightarrow> date \<Rightarrow> uid \<Rightarrow> uid \<Rightarrow> finance_db \<Rightarrow> (app_error + date) \<times> finance_db" where
  "send env now companyId i db =
     (case find_invoice companyId i db of
        Inl e \<Rightarrow> (Inl e, db)
      | Inr v \<Rightarrow>
          if in_status v \<noteq> InvDraft then (Inl (BadRequestException (msg ''Only a draft invoice can be sent'')), db)
          else case send_due_date now companyId v db of
            Inl e \<Rightarrow> (Inl e, db)
          | Inr dueDate \<Rightarrow>
              (Inr dueDate,
               append_ledger companyId ''invoice.locked'' i (locked_payload v dueDate)
                 (enqueue_event companyId ''invoice.sent'' i
                   (update_invoice i (\<lambda>v. v\<lparr>in_status := InvSent, in_dueDate := Some dueDate,
                      in_lockedAt := Some now\<rparr>) (env 0 db)))))"

text \<open>\<open>dueDate\<close> of the input: \<open>None\<close> not given, \<open>Some None\<close> cleared, \<open>Some (Some d)\<close> set.\<close>

definition update_due_date :: "uid \<Rightarrow> uid \<Rightarrow> date option option \<Rightarrow> finance_db \<Rightarrow> app_error + finance_db" where
  "update_due_date companyId i dueDate db =
     (case find_invoice companyId i db of
        Inl e \<Rightarrow> Inl e
      | Inr v \<Rightarrow>
          if in_lockedAt v \<noteq> None
          then Inl (BadRequestException (msg ''This invoice was locked under GoBD Festschreibung when it was sent and can no longer be edited - void it and issue a correction instead.''))
          else Inr (update_invoice i (\<lambda>v. v\<lparr>in_dueDate := (case dueDate of None \<Rightarrow> in_dueDate v | Some d \<Rightarrow> d)\<rparr>) db))"

definition addInstallment :: "uid \<Rightarrow> uid \<Rightarrow> string \<Rightarrow> number \<Rightarrow> date option \<Rightarrow> finance_db \<Rightarrow> app_error + finance_db" where
  "addInstallment companyId i label amount dueDate db =
     (case find_invoice companyId i db of
        Inl e \<Rightarrow> Inl e
      | Inr v \<Rightarrow> Inr (update_invoice i (\<lambda>w. w\<lparr>in_installments := in_installments w @
          [\<lparr>is_label = label, is_amount = amount, is_dueDate = dueDate,
            is_sortOrder = length (in_installments v)\<rparr>]\<rparr>) db))"

subsection \<open>Correction of a locked invoice\<close>

definition storno_line :: "invoice_line \<Rightarrow> invoice_line" where
  "storno_line l = \<lparr>vl_description = Str ''Storno: '' # vl_description l, vl_quantity = vl_quantity l,
     vl_unitPrice = - vl_unitPrice l, vl_lineTotal = - vl_lineTotal l\<rparr>"

definition correction_of :: "date \<Rightarrow> uid \<Rightarrow> invoice \<Rightarrow> string \<Rightarrow> invoice" where
  "correction_of now companyId v num =
     (new_invoice now companyId (in_projectId v) (in_clientId v) None num InvSent (in_currency v)
        (- in_subtotal v) (- in_taxAmount v) (- in_total v) (map storno_line (in_lines v)))
     \<lparr>in_lockedAt := Some now, in_correctsInvoiceId := Some (in_id v)\<rparr>"

text \<open>The serializable transaction of \<open>void\<close>; \<open>v\<close> is the invoice as it was read before it.\<close>

definition void_tx :: "date \<Rightarrow> uid \<Rightarrow> invoice \<Rightarrow> string \<Rightarrow> string \<Rightarrow> finance_db \<Rightarrow> invoice ftx" where
  "void_tx now companyId v reason num db =
     (let db1 = update_invoice (in_id v) (\<lambda>w. w\<lparr>in_status := InvVoid, in_voidedAt := Some now,
                  in_voidReason := Some reason\<rparr>) db
      in case create_invoice (correction_of now companyId v num) db1 of
           Inl e \<Rightarrow> Inl e
         | Inr (created, db2) \<Rightarrow>
             Inr (created,
               append_ledger companyId ''invoice.correction_issued'' (in_id created)
                 (JObj [(''number'', JStr num), (''correctsInvoiceId'', JNum (of_nat (in_id v))),
                        (''correctsInvoiceNumber'', JStr (in_number v)),
                        (''subtotal'', JNum (in_subtotal created)), (''taxAmount'', JNum (in_taxAmount created)),
                        (''total'', JNum (in_total created))])
               (append_ledger companyId ''invoice.voided'' (in_id v)
                 (JObj [(''number'', JStr (in_number v)), (''reason'', JStr reason),
                        (''correctionInvoiceNumber'', JStr num)]) db2)))"

definition void :: "interference \<Rightarrow> date \<Rightarrow> uid \<Rightarrow> uid \<Rightarrow> string \<Rightarrow> finance_db \<Rightarrow> (app_error + invoice) \<times> finance_db" where
  "void env now companyId i reason db =
     (case find_invoice companyId i db of
        Inl e \<Rightarrow> (Inl e, db)
      | Inr v \<Rightarrow>
          if in_lockedAt v = None
          then (Inl (BadRequestException (msg ''Only a locked (sent or paid) invoice needs a correction - a draft can simply be edited or left alone.'')), db)
          else if in_status v = InvVoid
          then (Inl (BadRequestException (msg ''This invoice has already been voided'')), db)
          else createInvoiceWithNumber env companyId (void_tx now companyId v reason) db)"

subsection \<open>Payments\<close>

record foreign_payment =
  fp_currency :: string
  fp_foreignAmount :: number
  fp_exchangeRate :: number

record payment_input =
  pi_amount :: "number option"
  pi_method :: string
  pi_foreignPayment :: "foreign_payment option"

text \<open>The amount credited and the fx columns; \<open>getRate\<close> is the exchange-rate service.\<close>

definition payment_row :: "(string \<Rightarrow> string \<Rightarrow> number option) \<Rightarrow> invoice \<Rightarrow> payment_input \<Rightarrow> string option \<Rightarrow> payment" where
  "payment_row getRate v input stripeId =
     (case pi_foreignPayment input of
        None \<Rightarrow> \<lparr>pm_id = 0, pm_invoiceId = in_id v,
           pm_amount = (case pi_amount input of None \<Rightarrow> 0 | Some a \<Rightarrow> a), pm_method = pi_method input,
           pm_stripeCheckoutSessionId = stripeId, pm_currency = None, pm_foreignAmount = None,
           pm_exchangeRate = None, pm_fxGainLoss = None\<rparr>
      | Some f \<Rightarrow>
          (let settlement = calculateFxSettlement (fp_foreignAmount f) (fp_exchangeRate f)
                 (getRate (fp_currency f) (in_currency v))
           in \<lparr>pm_id = 0, pm_invoiceId = in_id v, pm_amount = fx_convertedAmount settlement,
               pm_method = pi_method input, pm_stripeCheckoutSessionId = stripeId,
               pm_currency = Some (fp_currency f), pm_foreignAmount = Some (fp_foreignAmount f),
               pm_exchangeRate = Some (fp_exchangeRate f), pm_fxGainLoss = fx_gainLoss settlement\<rparr>))"

definition stripe_known :: "string option \<Rightarrow> finance_db \<Rightarrow> bool" where
  "stripe_known stripeId db \<longleftrightarrow>
     truthy stripeId \<and> (\<exists>p \<in> set (fd_payments db). pm_stripeCheckoutSessionId p = stripeId)"

definition recordPaymentTx :: "uid \<Rightarrow> invoice \<Rightarrow> payment \<Rightarrow> finance_db \<Rightarrow> (invoice_status \<times> bool) \<times> finance_db" where
  "recordPaymentTx companyId v p db =
     (let duplicate = stripe_known (pm_stripeCheckoutSessionId p) db;
          db1 = (if duplicate then db
                 else db\<lparr>fd_payments := fd_payments db @ [p\<lparr>pm_id := fd_uid db\<rparr>], fd_uid := Suc (fd_uid db)\<rparr>);
          newStatus = (if in_total v \<le> paid_amount (in_id v) db1 then InvPaid else InvSent);
          db2 = update_invoice (in_id v) (\<lambda>w. w\<lparr>in_status := newStatus\<rparr>) db1
      in ((newStatus, duplicate),
          if duplicate then db2 else enqueue_event companyId ''invoice.payment_recorded'' (in_id v) db2))"

definition recordPayment :: "interference \<Rightarrow> (string \<Rightarrow> string \<Rightarrow> number option) \<Rightarrow> uid \<Rightarrow> uid \<Rightarrow> payment_input
    \<Rightarrow> string option \<Rightarrow> finance_db \<Rightarrow> (app_error + invoice_status \<times> bool) \<times> finance_db" where
  "recordPayment env getRate companyId i input stripeId db =
     (case find_invoice companyId i db of
        Inl e \<Rightarrow> (Inl e, db)
      | Inr v \<Rightarrow>
          if in_status v = InvDraft
          then (Inl (BadRequestException (msg ''Send the invoice before recording a payment against it'')), db)
          else if in_status v = InvVoid
          then (Inl (BadRequestException (msg ''Cannot record a payment against a void invoice'')), db)
          else case recordPaymentTx companyId v (payment_row getRate v input stripeId) (env 0 db) of
                 (r, db') \<Rightarrow> (Inr r, db'))"

subsection \<open>The DATEV sales export\<close>

record datev_company =
  dv_revenueAccountStandard :: string
  dv_revenueAccountReduced :: string
  dv_revenueAccountExempt :: string

text \<open>A posting row as \<open>buildDatevPostingRow\<close> writes it: the amount without its sign, always on the
  debit side of \<open>konto\<close>.\<close>

record datev_posting =
  dp_amount :: number
  dp_sollHaben :: string
  dp_konto :: string
  dp_gegenkonto :: string
  dp_belegdatum :: date
  dp_belegfeld1 :: string
  dp_buchungstext :: string

definition buildDatevPostingRow :: "number \<Rightarrow> string \<Rightarrow> string \<Rightarrow> date \<Rightarrow> string \<Rightarrow> string \<Rightarrow> datev_posting" where
  "buildDatevPostingRow amount konto gegenkonto belegdatum belegfeld1 buchungstext =
     \<lparr>dp_amount = \<bar>amount\<bar>, dp_sollHaben = ''S'', dp_konto = konto, dp_gegenkonto = gegenkonto,
      dp_belegdatum = belegdatum, dp_belegfeld1 = belegfeld1, dp_buchungstext = buchungstext\<rparr>"

definition tax_percent :: "invoice \<Rightarrow> number" where
  "tax_percent v = (if 0 < in_subtotal v then in_taxAmount v / in_subtotal v * 100 else 0)"

definition revenue_account :: "datev_company \<Rightarrow> invoice \<Rightarrow> string" where
  "revenue_account company v =
     (if 15 \<le> tax_percent v then dv_revenueAccountStandard company
      else if 3 \<le> tax_percent v then dv_revenueAccountReduced company
      else dv_revenueAccountExempt company)"

definition datev_invoices :: "uid \<Rightarrow> date option \<Rightarrow> date option \<Rightarrow> finance_db \<Rightarrow> invoice list" where
  "datev_invoices companyId from_date to_date db =
     sort_key in_number (filter (\<lambda>v. in_companyId v = companyId \<and> in_status v \<in> {InvSent, InvPaid} \<and>
        in_currency v = ''EUR'' \<and>
        (case from_date of None \<Rightarrow> True | Some d \<Rightarrow> d \<le> in_createdAt v) \<and>
        (case to_date of None \<Rightarrow> True | Some d \<Rightarrow> in_createdAt v \<le> d)) (fd_invoices db))"

fun datev_rows :: "datev_company \<Rightarrow> finance_db \<Rightarrow> invoice list \<Rightarrow> message list \<times> datev_posting list" where
  "datev_rows company db [] = ([], [])"
| "datev_rows company db (v # vs) =
     (let client = find_row (\<lambda>c. ct_id c = in_clientId v) (fd_clients db);
          name = (case client of None \<Rightarrow> [] | Some c \<Rightarrow> ct_name c);
          rest = datev_rows company db vs
      in if \<not> truthy (Option.bind client ct_datevDebitorNumber)
         then ([Str ''Invoice '', Str (in_number v), Str '' skipped - client '', Str (quoted name),
                Str '' has no DATEV Debitor number.''] # fst rest, snd rest)
         else (fst rest,
               buildDatevPostingRow (in_total v) (the (Option.bind client ct_datevDebitorNumber))
                 (revenue_account company v) (in_createdAt v) (in_number v) name # snd rest))"

definition exportDatevSales :: "datev_company \<Rightarrow> uid \<Rightarrow> date option \<Rightarrow> date option \<Rightarrow> finance_db
    \<Rightarrow> message list \<times> datev_posting list" where
  "exportDatevSales company companyId from_date to_date db =
     datev_rows company db (datev_invoices companyId from_date to_date db)"

end
