(* ===== verification/Invoice_Laws.thy ===== *)
theory Invoice_Laws
  imports Invoices
begin

section \<open>What InvoicesService promises\<close>

text \<open>
  Invoice numbers (locale \<open>invoice_creation\<close>, the contract between
  \<open>createInvoiceWithNumber\<close> and the callbacks it retries), the life of an invoice as a transition
  system, corrections, payments, late fees and retainage.
\<close>

subsection \<open>The decimal of a number determines it\<close>

fun undecimal :: "nat \<Rightarrow> string \<Rightarrow> nat" where
  "undecimal n [] = n"
| "undecimal n (c # cs) = undecimal (n * 10 + (of_char c - 48)) cs"

lemma undecimal_append: "undecimal n (s @ t) = undecimal (undecimal n s) t"
  by (induction s arbitrary: n) simp_all

lemma digit_value: "n < 10 \<Longrightarrow> (of_char (char_of (n + 48) :: char) :: nat) = n + 48"
  by (simp add: of_char_of)

lemma undecimal_decimal: "undecimal 0 (decimal n) = n"
proof (induction n rule: decimal.induct)
  case (1 n)
  then show ?case
    by (cases "n < 10") (simp_all add: decimal.simps [of n] undecimal_append digit_value of_char_of)
qed

lemma undecimal_pad: "undecimal 0 (padStart k (CHR ''0'') s) = undecimal 0 s"
proof -
  have "undecimal 0 (replicate m (CHR ''0'') @ s) = undecimal 0 s" for m
    by (induction m) simp_all
  then show ?thesis by (simp add: padStart_def)
qed

lemma invoice_number_inj: "invoice_number j = invoice_number k \<Longrightarrow> j = k"
  unfolding invoice_number_def by (metis same_append_eq undecimal_decimal undecimal_pad)

subsection \<open>Numbering\<close>

definition numbers_of :: "uid \<Rightarrow> finance_db \<Rightarrow> string list" where
  "numbers_of companyId db = map in_number (filter (\<lambda>v. in_companyId v = companyId) (fd_invoices db))"

text \<open>The company's numbers so far are those of 1, 2, ... up to its invoice count.\<close>

definition numbers_ok :: "uid \<Rightarrow> finance_db \<Rightarrow> bool" where
  "numbers_ok companyId db \<longleftrightarrow> numbers_of companyId db = map invoice_number [1..<Suc (company_count companyId db)]"

lemma length_numbers_of: "length (numbers_of companyId db) = company_count companyId db"
  by (simp add: numbers_of_def company_count_def)

lemma next_number_fresh: "numbers_ok companyId db \<Longrightarrow> invoice_number (company_count companyId db + 1) \<notin> set (numbers_of companyId db)"
  by (auto simp: numbers_ok_def dest!: invoice_number_inj)

locale invoice_creation =
  fixes create :: "string \<Rightarrow> finance_db \<Rightarrow> invoice ftx"
    and companyId :: uid
    and allowed :: "finance_db \<Rightarrow> bool"
  assumes create_fresh: "num \<notin> set (numbers_of companyId db) \<Longrightarrow> allowed db \<Longrightarrow> \<exists>v db'. create num db = Inr (v, db')"
    and create_adds: "create num db = Inr (v, db') \<Longrightarrow>
      numbers_of companyId db' = numbers_of companyId db @ [num] \<and> num \<notin> set (numbers_of companyId db) \<and> in_number v = num"
begin

text \<open>Whatever others do, the invoice that comes back was created by one call of the callback.\<close>

lemma attempts_result:
  "number_attempts env companyId create ks db = (Inr v, db') \<Longrightarrow> \<exists>db2. create (in_number v) db2 = Inr (v, db')"
proof (induction ks arbitrary: db)
  case (Cons k ks)
  let ?db1 = "env (2 * k) db" and ?db2 = "env (2 * k + 1) (env (2 * k) db)"
  let ?num = "invoice_number (company_count companyId ?db1 + 1)"
  show ?case
  proof (cases "create ?num ?db2")
    case (Inl e)
    with Cons show ?thesis by (auto simp: Let_def split: if_splits)
  next
    case (Inr r)
    with Cons.prems obtain "create ?num ?db2 = Inr (v, db')" by (cases r) (simp add: Let_def)
    with create_adds [OF this] show ?thesis by auto
  qed
qed simp

lemma alone:
  "number_attempts (\<lambda>_. id) companyId create ks db = (r, db') \<Longrightarrow>
     (\<forall>v. r = Inr v \<longrightarrow> create (in_number v) db = Inr (v, db')) \<and> (\<forall>e. r = Inl e \<longrightarrow> db' = db)"
proof (induction ks)
  case (Cons k ks)
  let ?num = "invoice_number (company_count companyId db + 1)"
  show ?case
  proof (cases "create ?num db")
    case (Inl e)
    with Cons show ?thesis by (auto simp: Let_def split: if_splits)
  next
    case (Inr p)
    with Cons.prems obtain v where "create ?num db = Inr (v, db')" "r = Inr v" by (cases p) (auto simp: Let_def)
    with create_adds [OF this(1)] show ?thesis by auto
  qed
qed auto

text \<open>Running alone, the first attempt succeeds, with the next number.\<close>

lemma first_attempt:
  assumes "numbers_ok companyId db" and "allowed db"
  shows "\<exists>v db'. createInvoiceWithNumber (\<lambda>_. id) companyId create db = (Inr v, db') \<and>
    create (invoice_number (company_count companyId db + 1)) db = Inr (v, db') \<and>
    in_number v = invoice_number (company_count companyId db + 1) \<and> numbers_ok companyId db'"
proof -
  let ?num = "invoice_number (company_count companyId db + 1)"
  obtain v db' where c: "create ?num db = Inr (v, db')"
    using create_fresh [OF next_number_fresh [OF assms(1)] assms(2)] by blast
  have "createInvoiceWithNumber (\<lambda>_. id) companyId create db = (Inr v, db')"
    using c by (simp add: createInvoiceWithNumber_def max_attempts_def upt_conv_Cons Let_def)
  moreover have "company_count companyId db' = Suc (company_count companyId db)"
    using create_adds [OF c] by (simp add: length_numbers_of [symmetric])
  then have "numbers_ok companyId db'"
    using create_adds [OF c] assms(1) upt_Suc [of 1 "Suc (company_count companyId db)"]
    by (simp add: numbers_ok_def del: upt_Suc)
  ultimately show ?thesis using c create_adds [OF c] by auto
qed

end

lemma create_invoice_Inr:
  "create_invoice v db = Inr (w, db') \<longleftrightarrow>
     (\<forall>u \<in> set (fd_invoices db). in_companyId u = in_companyId v \<longrightarrow> in_number u \<noteq> in_number v) \<and>
     (in_correctsInvoiceId v = None \<or> (\<forall>u \<in> set (fd_invoices db). in_correctsInvoiceId u \<noteq> in_correctsInvoiceId v)) \<and>
     w = v\<lparr>in_id := fd_uid db\<rparr> \<and> db' = db\<lparr>fd_invoices := fd_invoices db @ [w], fd_uid := Suc (fd_uid db)\<rparr>"
  by (auto simp: create_invoice_def Let_def)

lemma invoice_creation_plain:
  assumes "\<And>num. in_companyId (data num) = companyId" "\<And>num. in_number (data num) = num"
    and "\<And>num. in_correctsInvoiceId (data num) = None"
  shows "invoice_creation (\<lambda>num. create_invoice (data num)) companyId (\<lambda>_. True)"
proof unfold_locales
  show "\<exists>v db'. create_invoice (data num) db = Inr (v, db')" if "num \<notin> set (numbers_of companyId db)" for num db
    using that by (auto simp: create_invoice_Inr assms numbers_of_def)
  show "numbers_of companyId db' = numbers_of companyId db @ [num] \<and> num \<notin> set (numbers_of companyId db) \<and> in_number v = num"
    if "create_invoice (data num) db = Inr (v, db')" for num db v db'
    using that by (auto simp: create_invoice_Inr assms numbers_of_def)
qed

lemma new_invoice_fields [simp]:
  "in_companyId (new_invoice n c p cl e num st cur s t a ls) = c"
  "in_number (new_invoice n c p cl e num st cur s t a ls) = num"
  "in_estimateId (new_invoice n c p cl e num st cur s t a ls) = e"
  "in_status (new_invoice n c p cl e num st cur s t a ls) = st"
  "in_subtotal (new_invoice n c p cl e num st cur s t a ls) = s"
  "in_taxAmount (new_invoice n c p cl e num st cur s t a ls) = t"
  "in_total (new_invoice n c p cl e num st cur s t a ls) = a"
  "in_isRetainageRelease (new_invoice n c p cl e num st cur s t a ls) = False"
  "in_percentComplete (new_invoice n c p cl e num st cur s t a ls) = None"
  "in_retainageAmount (new_invoice n c p cl e num st cur s t a ls) = 0"
  "in_correctsInvoiceId (new_invoice n c p cl e num st cur s t a ls) = None"
  "in_lockedAt (new_invoice n c p cl e num st cur s t a ls) = None"
  "in_currency (new_invoice n c p cl e num st cur s t a ls) = cur"
  "in_lines (new_invoice n c p cl e num st cur s t a ls) = ls"
  "in_createdAt (new_invoice n c p cl e num st cur s t a ls) = n"
  "in_clientId (new_invoice n c p cl e num st cur s t a ls) = cl"
  by (simp_all add: new_invoice_def)

interpretation estimate_creation: invoice_creation
  "\<lambda>num. create_invoice (estimate_invoice now companyId e projectId clientId db num)" companyId "\<lambda>_. True"
  for now companyId e projectId clientId db
  by (rule invoice_creation_plain) (simp_all add: estimate_invoice_def)

interpretation draw_creation: invoice_creation
  "\<lambda>num. create_invoice (draw_invoice now companyId e projectId clientId p q r num)" companyId "\<lambda>_. True"
  for now companyId e projectId clientId p q r
  by (rule invoice_creation_plain) (simp_all add: draw_invoice_def Let_def)

interpretation release_creation: invoice_creation
  "\<lambda>num. create_invoice (release_invoice now companyId e projectId clientId amount num)" companyId "\<lambda>_. True"
  for now companyId e projectId clientId amount
  by (rule invoice_creation_plain) (simp_all add: release_invoice_def)

lemma correction_fields [simp]:
  "in_companyId (correction_of now c v num) = c" "in_number (correction_of now c v num) = num"
  "in_correctsInvoiceId (correction_of now c v num) = Some (in_id v)"
  "in_status (correction_of now c v num) = InvSent" "in_lockedAt (correction_of now c v num) = Some now"
  "in_subtotal (correction_of now c v num) = - in_subtotal v"
  "in_taxAmount (correction_of now c v num) = - in_taxAmount v"
  "in_total (correction_of now c v num) = - in_total v"
  "in_lines (correction_of now c v num) = map storno_line (in_lines v)"
  "in_currency (correction_of now c v num) = in_currency v"
  by (simp_all add: correction_of_def)

lemma append_ledger_fields [simp]:
  "fd_invoices (append_ledger c e i p db) = fd_invoices db"
  "fd_payments (append_ledger c e i p db) = fd_payments db"
  "fd_uid (append_ledger c e i p db) = fd_uid db"
  "fd_ledger (append_ledger c e i p db) = fd_ledger db @ [\<lparr>lc_companyId = c, lc_event = e, lc_entityId = i, lc_payload = p\<rparr>]"
  by (simp_all add: append_ledger_def)

lemma enqueue_event_fields [simp]:
  "fd_invoices (enqueue_event c e i db) = fd_invoices db"
  "fd_payments (enqueue_event c e i db) = fd_payments db"
  "fd_uid (enqueue_event c e i db) = fd_uid db"
  "fd_ledger (enqueue_event c e i db) = fd_ledger db"
  by (simp_all add: enqueue_event_def)

lemma update_invoice_fields [simp]:
  "fd_invoices (update_invoice i f db) = update_rows (\<lambda>v. in_id v = i) f (fd_invoices db)"
  "fd_payments (update_invoice i f db) = fd_payments db"
  "fd_uid (update_invoice i f db) = fd_uid db"
  "fd_ledger (update_invoice i f db) = fd_ledger db"
  by (simp_all add: update_invoice_def)

lemma numbers_of_cong: "fd_invoices db = fd_invoices db' \<Longrightarrow> numbers_of c db = numbers_of c db'"
  by (simp add: numbers_of_def)

lemma filter_update_rows:
  "(\<And>r. q (f r) = q r) \<Longrightarrow> filter q (update_rows p f rows) = update_rows p f (filter q rows)"
  unfolding update_rows_def by (induction rows) auto

lemma numbers_of_update:
  "(\<And>v. in_companyId (f v) = in_companyId v) \<Longrightarrow> (\<And>v. in_number (f v) = in_number v) \<Longrightarrow>
     numbers_of c (update_invoice i f db) = numbers_of c db"
  by (simp add: numbers_of_def filter_update_rows map_update_rows)

text \<open>The transaction of \<open>void\<close> creates one invoice too, if the invoice has no correction yet.\<close>

lemma void_tx_Inr:
  "void_tx now companyId v reason num db = Inr (w, db') \<Longrightarrow>
     \<exists>db2. create_invoice (correction_of now companyId v num)
              (update_invoice (in_id v) (\<lambda>w. w\<lparr>in_status := InvVoid, in_voidedAt := Some now,
                  in_voidReason := Some reason\<rparr>) db) = Inr (w, db2) \<and>
       fd_invoices db' = fd_invoices db2 \<and> fd_payments db' = fd_payments db2 \<and> fd_uid db' = fd_uid db2 \<and>
       map lc_event (fd_ledger db') = map lc_event (fd_ledger db2) @ [''invoice.voided'', ''invoice.correction_issued''] \<and>
       map lc_entityId (fd_ledger db') = map lc_entityId (fd_ledger db2) @ [in_id v, in_id w]"
  by (auto simp: void_tx_def Let_def split: sum.splits)

interpretation void_creation: invoice_creation "void_tx now companyId v reason" companyId
  "\<lambda>db. \<forall>w \<in> set (fd_invoices db). in_correctsInvoiceId w \<noteq> Some (in_id v)"
  for now companyId v reason
proof unfold_locales
  let ?u = "\<lambda>db. update_invoice (in_id v) (\<lambda>w. w\<lparr>in_status := InvVoid, in_voidedAt := Some now,
                  in_voidReason := Some reason\<rparr>) db"
  have nums: "numbers_of c (?u db) = numbers_of c db" for c db by (rule numbers_of_update) simp_all
  show "\<exists>w db'. void_tx now companyId v reason num db = Inr (w, db')"
    if "num \<notin> set (numbers_of companyId db)" "\<forall>w \<in> set (fd_invoices db). in_correctsInvoiceId w \<noteq> Some (in_id v)" for num db
  proof -
    have "\<exists>w db2. create_invoice (correction_of now companyId v num) (?u db) = Inr (w, db2)"
      using that nums [of companyId db] unfolding create_invoice_Inr
      by (auto simp: numbers_of_def update_rows_def image_iff)
    then show ?thesis by (auto simp: void_tx_def Let_def)
  qed
  show "numbers_of companyId db' = numbers_of companyId db @ [num] \<and> num \<notin> set (numbers_of companyId db) \<and> in_number w = num"
    if run: "void_tx now companyId v reason num db = Inr (w, db')" for num db w db'
  proof -
    obtain db2 where c: "create_invoice (correction_of now companyId v num) (?u db) = Inr (w, db2)"
      and "fd_invoices db' = fd_invoices db2" using void_tx_Inr [OF run] by blast
    then have "numbers_of companyId db' = numbers_of companyId (?u db) @ [num]"
      by (auto simp: create_invoice_Inr numbers_of_def)
    moreover have "num \<notin> set (numbers_of companyId (?u db))" "in_number w = num"
      using c by (auto simp: create_invoice_Inr numbers_of_def)
    ultimately show ?thesis by (simp add: nums)
  qed
qed

subsection \<open>Numbers are consecutive\<close>

lemma alone_numbers:
  assumes "invoice_creation create companyId allowed" and "numbers_ok companyId db" and "allowed db"
    and "createInvoiceWithNumber (\<lambda>_. id) companyId create db = (r, db')"
  shows "\<exists>v. r = Inr v \<and> in_number v = invoice_number (company_count companyId db + 1) \<and> numbers_ok companyId db'"
  using invoice_creation.first_attempt [OF assms(1-3)] assms(4) by auto

lemma assert_error: "assertInvoiceableEstimate c i db = Inl e \<Longrightarrow> \<exists>m. e = NotFoundException m"
  by (auto simp: assertInvoiceableEstimate_def split: option.splits if_splits)

lemma assert_id: "assertInvoiceableEstimate c i db = Inr (e, p, cl) \<Longrightarrow> ie_id e = i"
  by (auto simp: assertInvoiceableEstimate_def find_estimate_def dest!: find_row_SomeD split: option.splits if_splits)

lemma find_invoiceD: "find_invoice c i db = Inr v \<Longrightarrow> v \<in> set (fd_invoices db) \<and> in_id v = i \<and> in_companyId v = c"
  by (auto simp: find_invoice_def dest: find_row_SomeD split: option.splits)

lemma generateProgressInvoice_cases:
  assumes "generateProgressInvoice env now c i p q db = (r, db')"
  shows "(\<exists>e. r = Inl e \<and> e \<noteq> UniqueViolation ''number'' \<and> db' = db) \<or>
    (\<exists>e pr cl. assertInvoiceableEstimate c i db = Inr (e, pr, cl) \<and> last_percent c i db < p \<and>
       createInvoiceWithNumber env c
         (\<lambda>num. create_invoice (draw_invoice now c e pr cl (last_percent c i db) p q num)) db = (r, db'))"
  using assms by (auto simp: generateProgressInvoice_def Let_def not_le dest: assert_error split: sum.splits if_splits)

lemma releaseRetainage_cases:
  assumes "releaseRetainage env now c i a db = (r, db')"
  defines "remaining \<equiv> round2 (retainage_held c i db - retainage_released c i db)"
  shows "(\<exists>e. r = Inl e \<and> e \<noteq> UniqueViolation ''number'' \<and> db' = db) \<or>
    (\<exists>e pr cl amount. assertInvoiceableEstimate c i db = Inr (e, pr, cl) \<and> 0 < remaining \<and>
       amount = (case a of None \<Rightarrow> remaining | Some x \<Rightarrow> x) \<and> amount \<le> remaining \<and>
       createInvoiceWithNumber env c
         (\<lambda>num. create_invoice (release_invoice now c e pr cl amount num)) db = (r, db'))"
proof (cases "assertInvoiceableEstimate c i db")
  case (Inl e)
  with assms(1) assert_error [OF Inl] show ?thesis by (auto simp: releaseRetainage_def)
next
  case (Inr t)
  obtain e pr cl where t: "t = (e, pr, cl)" by (cases t)
  with assms(1) Inr show ?thesis
    by (simp add: releaseRetainage_def Let_def remaining_def [symmetric] not_le not_less split: if_splits) auto
qed

lemma void_cases:
  assumes "void env now c i reason db = (r, db')"
  shows "(\<exists>e. r = Inl e \<and> e \<noteq> UniqueViolation ''number'' \<and> db' = db) \<or>
    (\<exists>v. find_invoice c i db = Inr v \<and> in_lockedAt v \<noteq> None \<and> in_status v \<noteq> InvVoid \<and>
       createInvoiceWithNumber env c (void_tx now c v reason) db = (r, db'))"
proof (cases "find_invoice c i db")
  case (Inl e)
  with assms show ?thesis by (auto simp: void_def find_invoice_def split: option.splits)
next
  case (Inr v)
  with assms show ?thesis by (auto simp: void_def split: if_splits)
qed

text \<open>Invoice numbers are consecutive and never clash when requests run one after the other: in a
  company whose invoices are numbered INV-0001, INV-0002, ... in order, drawing up a progress invoice,
  releasing retainage, and voiding an invoice that has no correction yet each take the next number and
  leave such a company behind; none of them fails with a number clash.\<close>

theorem numbers_consecutive:
  assumes "numbers_ok companyId db"
    and "(r, db') \<in> {generateProgressInvoice (\<lambda>_. id) now companyId i p q db,
                     releaseRetainage (\<lambda>_. id) now companyId i a db} \<or>
         (r, db') = void (\<lambda>_. id) now companyId i reason db \<and>
           (\<forall>w \<in> set (fd_invoices db). in_correctsInvoiceId w \<noteq> Some i)"
  shows "numbers_ok companyId db' \<and> r \<noteq> Inl (UniqueViolation ''number'') \<and>
    (\<forall>v. r = Inr v \<longrightarrow> in_number v = invoice_number (company_count companyId db + 1))"
proof -
  have done_by: ?thesis if "invoice_creation create companyId allowed" "allowed db"
      "createInvoiceWithNumber (\<lambda>_. id) companyId create db = (r, db')" for create allowed
    using alone_numbers [OF that(1) assms(1) that(2,3)] by auto
  consider (draw) "generateProgressInvoice (\<lambda>_. id) now companyId i p q db = (r, db')"
    | (release) "releaseRetainage (\<lambda>_. id) now companyId i a db = (r, db')"
    | (void) "void (\<lambda>_. id) now companyId i reason db = (r, db')"
        "\<forall>w \<in> set (fd_invoices db). in_correctsInvoiceId w \<noteq> Some i"
    using assms(2) by auto
  then show ?thesis
  proof cases
    case draw
    from generateProgressInvoice_cases [OF this] show ?thesis
      using done_by [OF draw_creation.invoice_creation_axioms] assms(1) by auto
  next
    case release
    from releaseRetainage_cases [OF this] show ?thesis
      using done_by [OF release_creation.invoice_creation_axioms] assms(1) by auto
  next
    case void
    from void_cases [OF void(1)] show ?thesis
    proof
      assume "\<exists>v. find_invoice companyId i db = Inr v \<and> in_lockedAt v \<noteq> None \<and> in_status v \<noteq> InvVoid \<and>
        createInvoiceWithNumber (\<lambda>_. id) companyId (void_tx now companyId v reason) db = (r, db')"
      then obtain v where "in_id v = i"
        and run: "createInvoiceWithNumber (\<lambda>_. id) companyId (void_tx now companyId v reason) db = (r, db')"
        by (auto dest: find_invoiceD)
      then show ?thesis
        using done_by [OF void_creation.invoice_creation_axioms _ run] void(2) by simp
    qed (use assms(1) in auto)
  qed
qed

subsection \<open>Corrections\<close>

definition invoices_ok :: "finance_db \<Rightarrow> bool" where
  "invoices_ok db \<longleftrightarrow> distinct (map in_id (fd_invoices db)) \<and>
     list_all (\<lambda>v. in_id v < fd_uid db \<and> (in_lockedAt v = None \<longleftrightarrow> in_status v = InvDraft)) (fd_invoices db)"

lemma void_alone:
  assumes "void (\<lambda>_. id) now c i reason db = (Inr w, db')"
  obtains v where "find_invoice c i db = Inr v" "in_lockedAt v \<noteq> None" "in_status v \<noteq> InvVoid"
    "void_tx now c v reason (in_number w) db = Inr (w, db')"
proof -
  obtain v where v: "find_invoice c i db = Inr v" "in_lockedAt v \<noteq> None" "in_status v \<noteq> InvVoid"
    "createInvoiceWithNumber (\<lambda>_. id) c (void_tx now c v reason) db = (Inr w, db')"
    using void_cases [OF assms] by auto
  from void_creation.alone [OF v(4) [unfolded createInvoiceWithNumber_def]] v show thesis
    by (intro that) auto
qed

lemma void_tx_rows:
  assumes "void_tx now c v reason num db = Inr (w, db')"
  shows "fd_invoices db' = update_rows (\<lambda>u. in_id u = in_id v) (\<lambda>w. w\<lparr>in_status := InvVoid, in_voidedAt := Some now,
      in_voidReason := Some reason\<rparr>) (fd_invoices db) @ [w]"
    and "w = (correction_of now c v num)\<lparr>in_id := fd_uid db\<rparr>"
    and "fd_payments db' = fd_payments db" and "fd_uid db' = Suc (fd_uid db)"
    and "map lc_event (fd_ledger db') = map lc_event (fd_ledger db) @ [''invoice.voided'', ''invoice.correction_issued'']"
    and "\<forall>u \<in> set (fd_invoices db). in_correctsInvoiceId u \<noteq> Some (in_id v)"
proof -
  obtain db2 where c: "create_invoice (correction_of now c v num) (update_invoice (in_id v)
      (\<lambda>w. w\<lparr>in_status := InvVoid, in_voidedAt := Some now, in_voidReason := Some reason\<rparr>) db) = Inr (w, db2)"
    and db': "fd_invoices db' = fd_invoices db2" "fd_payments db' = fd_payments db2" "fd_uid db' = fd_uid db2"
      "map lc_event (fd_ledger db') = map lc_event (fd_ledger db2) @ [''invoice.voided'', ''invoice.correction_issued'']"
    using void_tx_Inr [OF assms] by blast
  note c = c [unfolded create_invoice_Inr update_invoice_fields all_update_rows]
  show "fd_invoices db' = update_rows (\<lambda>u. in_id u = in_id v) (\<lambda>w. w\<lparr>in_status := InvVoid, in_voidedAt := Some now,
      in_voidReason := Some reason\<rparr>) (fd_invoices db) @ [w]"
    "w = (correction_of now c v num)\<lparr>in_id := fd_uid db\<rparr>"
    "fd_payments db' = fd_payments db" "fd_uid db' = Suc (fd_uid db)"
    "map lc_event (fd_ledger db') = map lc_event (fd_ledger db) @ [''invoice.voided'', ''invoice.correction_issued'']"
    using c db' by simp_all
  have "\<forall>u \<in> set (fd_invoices db). in_correctsInvoiceId (if in_id u = in_id v
      then u\<lparr>in_status := InvVoid, in_voidedAt := Some now, in_voidReason := Some reason\<rparr> else u) \<noteq> Some (in_id v)"
    using c by simp
  then show "\<forall>u \<in> set (fd_invoices db). in_correctsInvoiceId u \<noteq> Some (in_id v)" by (simp add: if_distrib cong: if_cong)
qed

text \<open>C8 Voiding reverses an invoice exactly: the invoice, which must be locked and not void, becomes
  void and stays otherwise as it was; one invoice is added, sent and locked at once, whose
  subtotal, tax, total and lines are the negations of the original's; nothing else changes among
  the invoices, and the ledger gains the void and the issued correction.\<close>

theorem void_reverses_invoice:
  assumes "void (\<lambda>_. id) now c i reason db = (Inr w, db')" and "find_invoice c i db = Inr v"
    and "invoices_ok db"
  shows "in_lockedAt v \<noteq> None \<and> in_status v \<noteq> InvVoid \<and>
    fd_invoices db' = map (\<lambda>u. if in_id u = i then u\<lparr>in_status := InvVoid, in_voidedAt := Some now,
      in_voidReason := Some reason\<rparr> else u) (fd_invoices db) @ [w] \<and>
    in_status w = InvSent \<and> in_lockedAt w = Some now \<and> in_correctsInvoiceId w = Some i \<and>
    in_subtotal w + in_subtotal v = 0 \<and> in_taxAmount w + in_taxAmount v = 0 \<and> in_total w + in_total v = 0 \<and>
    list_all2 (\<lambda>a b. vl_quantity a = vl_quantity b \<and> vl_unitPrice a + vl_unitPrice b = 0 \<and>
      vl_lineTotal a + vl_lineTotal b = 0) (in_lines w) (in_lines v) \<and>
    map lc_event (fd_ledger db') = map lc_event (fd_ledger db) @ [''invoice.voided'', ''invoice.correction_issued''] \<and>
    invoices_ok db'"
proof -
  have v: "in_lockedAt v \<noteq> None" "in_status v \<noteq> InvVoid" "void_tx now c v reason (in_number w) db = Inr (w, db')"
    using assms(1,2) by (auto elim!: void_alone)
  have id: "in_id v = i" using find_invoiceD [OF assms(2)] by simp
  obtain num where "void_tx now c v reason num db = Inr (w, db')" using v(3) by blast
  note rows = void_tx_rows [OF this, unfolded id]
  have w: "in_status w = InvSent" "in_lockedAt w = Some now" "in_correctsInvoiceId w = Some i" "in_id w = fd_uid db"
    "in_subtotal w = - in_subtotal v" "in_taxAmount w = - in_taxAmount v" "in_total w = - in_total v"
    "in_lines w = map storno_line (in_lines v)"
    by (simp_all add: rows(2) id)
  have locked: "in_lockedAt u \<noteq> None" if "u \<in> set (fd_invoices db)" "in_id u = i" for u
  proof -
    have "u = v" using that find_invoiceD [OF assms(2)] assms(3)
      by (auto simp: invoices_ok_def distinct_map inj_on_def)
    with v show ?thesis by simp
  qed
  have lines: "list_all2 (\<lambda>a b. vl_quantity a = vl_quantity b \<and> vl_unitPrice a + vl_unitPrice b = 0 \<and>
      vl_lineTotal a + vl_lineTotal b = 0) (map storno_line ls) ls" for ls
    by (induction ls) (simp_all add: storno_line_def)
  let ?old = "update_rows (\<lambda>u. in_id u = i) (\<lambda>w. w\<lparr>in_status := InvVoid, in_voidedAt := Some now,
      in_voidReason := Some reason\<rparr>) (fd_invoices db)"
  have "map in_id ?old = map in_id (fd_invoices db)" by (rule map_update_rows) simp
  moreover have "\<forall>u \<in> set ?old. in_id u < fd_uid db \<and> (in_lockedAt u = None \<longleftrightarrow> in_status u = InvDraft)"
    unfolding all_update_rows using assms(3) locked by (auto simp: invoices_ok_def list_all_iff)
  moreover have "fd_uid db \<notin> set (map in_id (fd_invoices db))"
    using assms(3) by (auto simp: invoices_ok_def list_all_iff)
  ultimately have "invoices_ok db'"
    using assms(3) w by (auto simp: invoices_ok_def rows(1,4) list_all_iff simp flip: set_map)
  then show ?thesis
    using v w lines rows(1,5) by (simp add: update_rows_def)
qed

text \<open>An invoice is corrected at most once, whatever other requests do meanwhile: when \<open>void\<close>
  succeeds, the correction it returns is the only invoice that corrects the voided one.\<close>

theorem single_correction:
  assumes "void env now c i reason db = (Inr w, db')"
  shows "filter (\<lambda>u. in_correctsInvoiceId u = Some i) (fd_invoices db') = [w]"
proof -
  obtain v where "find_invoice c i db = Inr v" "createInvoiceWithNumber env c (void_tx now c v reason) db = (Inr w, db')"
    using void_cases [OF assms] by auto
  then have id: "in_id v = i" and run: "number_attempts env c (void_tx now c v reason) [1..<Suc max_attempts] db = (Inr w, db')"
    by (auto simp: createInvoiceWithNumber_def dest: find_invoiceD)
  obtain num db2 where "void_tx now c v reason num db2 = Inr (w, db')"
    using void_creation.attempts_result [OF run] by blast
  note rows = void_tx_rows [OF this, unfolded id]
  have "filter (\<lambda>u. in_correctsInvoiceId u = Some i) (fd_invoices db2) = []"
    using rows(6) by (simp add: filter_empty_conv)
  then show ?thesis
    by (simp add: rows(1) rows(2) filter_update_rows id) (simp add: update_rows_def)
qed

end
