(* ===== verification/Invoice_Money.thy ===== *)
theory Invoice_Money
  imports Invoice_Laws
begin

section \<open>Payments, late fees, retainage, and what interleaving does to them\<close>

text \<open>
  The money side of \<open>InvoicesService\<close>: what a payment does to the balance and the status, that a
  redelivered Stripe event changes nothing, that a late fee is charged once for each period, that
  retainage is released up to what is held; and, as closed examples, the interleavings of requests
  under which an operation that checked outside its transaction goes wrong.
\<close>

subsection \<open>Payments\<close>

lemma paid_amount_append:
  "paid_amount i (db\<lparr>fd_payments := fd_payments db @ [p], fd_uid := n\<rparr>) =
     paid_amount i db + (if pm_invoiceId p = i then pm_amount p else 0)"
  by (simp add: paid_amount_def invoice_payments_def)

lemma paid_amount_cong: "fd_payments db = fd_payments db' \<Longrightarrow> paid_amount i db = paid_amount i db'"
  by (simp add: paid_amount_def invoice_payments_def)

lemma payment_row_fields [simp]:
  "pm_invoiceId (payment_row getRate v input s) = in_id v"
  "pm_stripeCheckoutSessionId (payment_row getRate v input s) = s"
  by (simp_all add: payment_row_def Let_def split: option.split)

lemma recordPayment_cases:
  assumes "recordPayment env getRate c i input s db = (Inr (st, dup), db')"
  obtains v where "find_invoice c i db = Inr v" "in_status v \<in> {InvSent, InvPaid}"
    "recordPaymentTx c v (payment_row getRate v input s) (env 0 db) = ((st, dup), db')"
  using assms unfolding recordPayment_def
  by (auto split: sum.splits if_splits prod.splits) (metis invoice_status.exhaust)

lemma recordPaymentTx_effect:
  assumes "recordPaymentTx c v p db = ((st, dup), db')" and "pm_invoiceId p = in_id v"
  shows "dup = stripe_known (pm_stripeCheckoutSessionId p) db"
    and "fd_payments db' = (if dup then fd_payments db else fd_payments db @ [p\<lparr>pm_id := fd_uid db\<rparr>])"
    and "paid_amount (in_id v) db' = paid_amount (in_id v) db + (if dup then 0 else pm_amount p)"
    and "st = (if in_total v \<le> paid_amount (in_id v) db' then InvPaid else InvSent)"
    and "fd_invoices db' = update_rows (\<lambda>u. in_id u = in_id v) (\<lambda>u. u\<lparr>in_status := st\<rparr>) (fd_invoices db)"
    and "length (fd_outbox db') = length (fd_outbox db) + (if dup then 0 else 1)"
proof -
  let ?p = "p\<lparr>pm_id := fd_uid db\<rparr>"
  let ?db1 = "if dup then db else db\<lparr>fd_payments := fd_payments db @ [?p], fd_uid := Suc (fd_uid db)\<rparr>"
  have d: "dup = stripe_known (pm_stripeCheckoutSessionId p) db"
    and s: "st = (if in_total v \<le> paid_amount (in_id v) ?db1 then InvPaid else InvSent)"
    and db': "db' = (let db2 = update_invoice (in_id v) (\<lambda>u. u\<lparr>in_status := st\<rparr>) ?db1
        in if dup then db2 else enqueue_event c ''invoice.payment_recorded'' (in_id v) db2)"
    using assms(1) by (auto simp: recordPaymentTx_def Let_def)
  have pays: "fd_payments db' = fd_payments ?db1" by (simp add: db' Let_def)
  then have paid: "paid_amount (in_id v) db' = paid_amount (in_id v) ?db1" by (rule paid_amount_cong)
  show "dup = stripe_known (pm_stripeCheckoutSessionId p) db" by (rule d)
  show "fd_payments db' = (if dup then fd_payments db else fd_payments db @ [?p])" using pays by simp
  show "paid_amount (in_id v) db' = paid_amount (in_id v) db + (if dup then 0 else pm_amount p)"
    using paid assms(2) by (simp add: paid_amount_append)
  show "st = (if in_total v \<le> paid_amount (in_id v) db' then InvPaid else InvSent)" using s paid by simp
  show "fd_invoices db' = update_rows (\<lambda>u. in_id u = in_id v) (\<lambda>u. u\<lparr>in_status := st\<rparr>) (fd_invoices db)"
    by (simp add: db' Let_def)
  show "length (fd_outbox db') = length (fd_outbox db) + (if dup then 0 else 1)"
    by (simp add: db' Let_def enqueue_event_def update_invoice_def)
qed

text \<open>C9 A payment recorded on a sent or paid invoice raises what was paid by its amount (the converted
  amount for a foreign payment) and makes the invoice paid exactly when everything paid reaches the
  total; no other invoice changes. A draft or void invoice takes no payment.\<close>

theorem payment_settles_invoice:
  assumes "recordPayment (\<lambda>_. id) getRate c i input s db = (Inr (st, dup), db')" and "find_invoice c i db = Inr v"
  shows "in_status v \<in> {InvSent, InvPaid} \<and>
    paid_amount i db' = paid_amount i db + (if dup then 0 else pm_amount (payment_row getRate v input s)) \<and>
    (st = InvPaid \<longleftrightarrow> in_total v \<le> paid_amount i db') \<and> (st = InvSent \<longleftrightarrow> paid_amount i db' < in_total v) \<and>
    fd_invoices db' = map (\<lambda>u. if in_id u = i then u\<lparr>in_status := st\<rparr> else u) (fd_invoices db)"
proof -
  have v: "in_status v \<in> {InvSent, InvPaid}"
    and tx: "recordPaymentTx c v (payment_row getRate v input s) db = ((st, dup), db')"
    using assms by (auto elim!: recordPayment_cases)
  have "in_id v = i" using find_invoiceD [OF assms(2)] by simp
  then show ?thesis
    using v recordPaymentTx_effect [OF tx] by (auto simp: update_rows_def)
qed

text \<open>Recording is idempotent in the Stripe id: when a payment with that id is already there, at the
  time of the transaction, recording it again adds no payment and no event, only recomputes the
  status; and after any successful recording with an id, that id is there.\<close>

theorem stripe_redelivery_ignored:
  assumes "recordPayment env getRate c i input (Some s) db = (Inr (st, dup), db')" and "s \<noteq> []"
  shows "(\<exists>p \<in> set (fd_payments db'). pm_stripeCheckoutSessionId p = Some s) \<and>
    ((\<exists>p \<in> set (fd_payments (env 0 db)). pm_stripeCheckoutSessionId p = Some s) \<longrightarrow>
       dup \<and> fd_payments db' = fd_payments (env 0 db) \<and> length (fd_outbox db') = length (fd_outbox (env 0 db)) \<and>
       (\<forall>j. paid_amount j db' = paid_amount j (env 0 db)))"
proof -
  obtain v where tx: "recordPaymentTx c v (payment_row getRate v input (Some s)) (env 0 db) = ((st, dup), db')"
    using assms(1) by (rule recordPayment_cases)
  note eff = recordPaymentTx_effect [OF tx, simplified]
  have known: "stripe_known (Some s) d \<longleftrightarrow> (\<exists>p \<in> set (fd_payments d). pm_stripeCheckoutSessionId p = Some s)" for d
    using assms(2) by (simp add: stripe_known_def truthy_def)
  show ?thesis
  proof (cases dup)
    case True
    then have same: "fd_payments db' = fd_payments (env 0 db)" using eff(2) by simp
    with True show ?thesis using eff(1,6) known paid_amount_cong [OF same] by simp
  next
    case False
    with eff(1,2) known [of "env 0 db"] show ?thesis by auto
  qed
qed

subsection \<open>Late fees\<close>

lemma chargeLateFee_cases:
  assumes "chargeLateFee now c i db = Inr (fee, db')"
  obtains v where "find_invoice c i db = Inr v" "computeLateFeeAccrued now c v db = Inr fee" "0 < fee"
    "db' = update_invoice i (\<lambda>v. v\<lparr>
                   in_lines := in_lines v @ [\<lparr>vl_description = msg ''Late fee'', vl_quantity = 1,
                                              vl_unitPrice = fee, vl_lineTotal = fee\<rparr>],
                   in_total := in_total v + fee,
                   in_lateFeeChargedTotal := in_lateFeeChargedTotal v + fee,
                   in_lastLateFeeAccrualAt := Some now\<rparr>) db"
  using assms unfolding chargeLateFee_def by (auto split: sum.splits if_splits)

lemma find_row_update_id:
  assumes "\<And>r. in_id (f r) = in_id r" "\<And>r. in_companyId (f r) = in_companyId r"
  shows "find_invoice c i (update_invoice i f db) = map_sum id f (find_invoice c i db)"
proof -
  have "find_row (\<lambda>v. in_id v = i \<and> in_companyId v = c) (update_rows (\<lambda>v. in_id v = i) f rows) =
      map_option f (find_row (\<lambda>v. in_id v = i \<and> in_companyId v = c) rows)" for rows
    by (induction rows) (auto simp: update_rows_def row_simps assms)
  then show ?thesis by (auto simp: find_invoice_def split: option.split)
qed

lemma company_row_update [simp]: "company_row c (update_invoice i f db) = company_row c db"
  by (simp add: company_row_def update_invoice_def)

lemma paid_update [simp]: "paid_amount j (update_invoice i f db) = paid_amount j db"
  by (rule paid_amount_cong) simp

text \<open>A late fee is charged once for each period: charging bills the accrued fee as a line and
  raises the total by it, while the principal (the total less the fees charged) stays the same, so
  that fees never compound; and until a full day has passed nothing more accrues, and a second
  charge is refused.\<close>

theorem late_fee_charged_once:
  assumes "chargeLateFee now c i db = Inr (fee, db')" and "find_invoice c i db = Inr v"
    and "later < now + 86400000"
  shows "0 < fee \<and> (\<exists>v'. find_invoice c i db' = Inr v' \<and> in_total v' = in_total v + fee \<and>
      in_total v' - in_lateFeeChargedTotal v' = in_total v - in_lateFeeChargedTotal v \<and>
      map vl_lineTotal (in_lines v') = map vl_lineTotal (in_lines v) @ [fee] \<and>
      computeLateFeeAccrued later c v' db' = Inr 0) \<and>
    chargeLateFee later c i db' = Inl (BadRequestException (msg ''No late fee has accrued on this invoice''))"
proof -
  let ?f = "\<lambda>v. v\<lparr>in_lines := in_lines v @ [\<lparr>vl_description = msg ''Late fee'', vl_quantity = 1,
                                              vl_unitPrice = fee, vl_lineTotal = fee\<rparr>],
                   in_total := in_total v + fee,
                   in_lateFeeChargedTotal := in_lateFeeChargedTotal v + fee,
                   in_lastLateFeeAccrualAt := Some now\<rparr>"
  have v: "computeLateFeeAccrued now c v db = Inr fee" "0 < fee" "db' = update_invoice i ?f db"
    using assms(1,2) by (auto elim: chargeLateFee_cases)
  have found: "find_invoice c i db' = Inr (?f v)"
    unfolding v(3) using assms(2) by (subst find_row_update_id) simp_all
  have "daysOverdue now later = 0" using assms(3) by (auto simp: daysOverdue_def max_def)
  then have zero: "computeLateFeeAccrued later c (?f v) db' = Inr 0"
    using v(1,2) unfolding v(3)
    by (auto simp: computeLateFeeAccrued_def calculateLateFee_def Let_def split: option.splits if_splits sum.splits)
  then have "chargeLateFee later c i db' = Inl (BadRequestException (msg ''No late fee has accrued on this invoice''))"
    by (simp add: chargeLateFee_def found)
  then show ?thesis using v(2) found zero by auto
qed

subsection \<open>Retainage and progress\<close>

lemma live_invoices_append:
  "live_invoices c i b (db\<lparr>fd_invoices := fd_invoices db @ [v], fd_uid := n\<rparr>) =
     live_invoices c i b db @ (if in_companyId v = c \<and> in_estimateId v = Some i \<and> in_isRetainageRelease v = b \<and>
        in_status v \<noteq> InvVoid then [v] else [])"
  by (simp add: live_invoices_def)

definition money_ok :: "finance_db \<Rightarrow> bool" where
  "money_ok db \<longleftrightarrow> list_all (\<lambda>v. on_grid 100 (in_total v) \<and> on_grid 100 (in_retainageAmount v)) (fd_invoices db)"

lemma retainage_sums:
  assumes "money_ok db"
  shows "retainage_held c i db = (\<Sum>v \<leftarrow> live_invoices c i False db. in_retainageAmount v)"
    "retainage_released c i db = (\<Sum>v \<leftarrow> live_invoices c i True db. in_total v)"
  unfolding retainage_held_def retainage_released_def
  using assms by (auto simp: money_ok_def live_invoices_def list_all_iff intro!: round2_grid on_grid_sum_list)

lemma retainage_grid [simp]: "on_grid 100 (retainage_held c i db)" "on_grid 100 (retainage_released c i db)"
  by (simp_all add: retainage_held_def retainage_released_def)

lemma release_alone:
  assumes "releaseRetainage (\<lambda>_. id) now c i a db = (Inr w, db')"
  obtains e pr cl amount where "ie_id e = i"
    "amount = (case a of None \<Rightarrow> retainage_held c i db - retainage_released c i db | Some x \<Rightarrow> x)"
    "amount \<le> retainage_held c i db - retainage_released c i db"
    "create_invoice (release_invoice now c e pr cl amount (in_number w)) db = Inr (w, db')"
proof -
  have r: "round2 (retainage_held c i db - retainage_released c i db) = retainage_held c i db - retainage_released c i db"
    by (rule round2_grid) (intro on_grid_diff; simp)
  obtain e pr cl amount where e: "assertInvoiceableEstimate c i db = Inr (e, pr, cl)"
    "amount = (case a of None \<Rightarrow> retainage_held c i db - retainage_released c i db | Some x \<Rightarrow> x)"
    "amount \<le> retainage_held c i db - retainage_released c i db"
    "createInvoiceWithNumber (\<lambda>_. id) c (\<lambda>num. create_invoice (release_invoice now c e pr cl amount num)) db = (Inr w, db')"
    using releaseRetainage_cases [OF assms] unfolding r by auto
  from release_creation.alone [OF e(4) [unfolded createInvoiceWithNumber_def]] e assert_id [OF e(1)]
  show thesis by (intro that) auto
qed

text \<open>Retainage is released up to what is held: when one release request runs at a time, a release
  leaves what is held unchanged, pays out exactly the requested amount (or everything that
  remains), and what has been released afterwards is at most what is held.\<close>

theorem retainage_release_bounded:
  assumes "releaseRetainage (\<lambda>_. id) now c i a db = (Inr w, db')" and "money_ok db"
    and "case a of None \<Rightarrow> True | Some x \<Rightarrow> on_grid 100 x"
  shows "retainage_held c i db' = retainage_held c i db \<and>
    retainage_released c i db' = retainage_released c i db + in_total w \<and>
    retainage_released c i db' \<le> retainage_held c i db' \<and>
    in_total w = (case a of None \<Rightarrow> retainage_held c i db - retainage_released c i db | Some x \<Rightarrow> x)"
proof -
  obtain num e pr cl amount where "ie_id e = i" and
    amount: "amount = (case a of None \<Rightarrow> retainage_held c i db - retainage_released c i db | Some x \<Rightarrow> x)"
    "amount \<le> retainage_held c i db - retainage_released c i db" and
    create: "create_invoice (release_invoice now c e pr cl amount num) db = Inr (w, db')"
    using assms(1) by (rule release_alone)
  have db': "db' = db\<lparr>fd_invoices := fd_invoices db @ [w], fd_uid := Suc (fd_uid db)\<rparr>"
    and w: "in_total w = amount" "in_companyId w = c" "in_estimateId w = Some i" "in_isRetainageRelease w"
      "in_status w = InvDraft" "in_retainageAmount w = 0"
    using create \<open>ie_id e = i\<close> by (auto simp: create_invoice_Inr release_invoice_def)
  have "on_grid 100 amount"
    using assms(3) by (cases a) (auto simp: amount(1) intro: on_grid_diff)
  then have ok': "money_ok db'" using assms(2) w by (simp add: money_ok_def db')
  have "retainage_held c i db' = retainage_held c i db"
    unfolding retainage_sums [OF ok'] retainage_sums [OF assms(2)] by (simp add: db' live_invoices_append w)
  moreover have "retainage_released c i db' = retainage_released c i db + in_total w"
    unfolding retainage_sums [OF ok'] retainage_sums [OF assms(2)] by (simp add: db' live_invoices_append w)
  ultimately show ?thesis using w(1) amount by simp
qed

lemma draw_alone:
  assumes "generateProgressInvoice (\<lambda>_. id) now c i p q db = (Inr w, db')"
  obtains num e pr cl where "ie_id e = i" "find_estimate c i db = Some e" "last_percent c i db < p"
    "create_invoice (draw_invoice now c e pr cl (last_percent c i db) p q num) db = Inr (w, db')"
proof -
  obtain e pr cl where e: "assertInvoiceableEstimate c i db = Inr (e, pr, cl)" "last_percent c i db < p"
    "createInvoiceWithNumber (\<lambda>_. id) c
         (\<lambda>num. create_invoice (draw_invoice now c e pr cl (last_percent c i db) p q num)) db = (Inr w, db')"
    using generateProgressInvoice_cases [OF assms] by auto
  have "find_estimate c i db = Some e"
    using e(1) by (auto simp: assertInvoiceableEstimate_def split: option.splits if_splits)
  with draw_creation.alone [OF e(3) [unfolded createInvoiceWithNumber_def]] e(2) assert_id [OF e(1)]
  show thesis by (intro that) auto
qed

text \<open>A progress draw moves the billed percentage forward: it must exceed the last one, becomes the
  new one, bills exactly the slice of the contract in between, and adds its retainage to what is
  held; total and retainage of the draw add up to the gross amount of the slice.\<close>

theorem progress_draw_advances:
  assumes "generateProgressInvoice (\<lambda>_. id) now c i p q db = (Inr w, db')"
    and "find_estimate c i db = Some e" and "money_ok db"
  shows "last_percent c i db < p \<and> last_percent c i db' = p \<and>
    in_total w + in_retainageAmount w = round2 (ie_grandTotal e * (p - last_percent c i db) / 100) \<and>
    retainage_held c i db' = retainage_held c i db + in_retainageAmount w \<and>
    retainage_released c i db' = retainage_released c i db"
proof -
  obtain num pr cl where lt: "last_percent c i db < p" and id: "ie_id e = i" and
    create: "create_invoice (draw_invoice now c e pr cl (last_percent c i db) p q num) db = Inr (w, db')"
    using draw_alone [OF assms(1)] assms(2) by (metis option.inject)
  let ?calc = "calculateProgressDraw (ie_grandTotal e) (last_percent c i db) p q"
  have db': "db' = db\<lparr>fd_invoices := fd_invoices db @ [w], fd_uid := Suc (fd_uid db)\<rparr>"
    and w: "in_total w = dr_netAmount ?calc" "in_companyId w = c" "in_estimateId w = Some i"
      "\<not> in_isRetainageRelease w" "in_status w = InvDraft" "in_retainageAmount w = dr_retainageAmount ?calc"
      "in_percentComplete w = Some p"
    using create id by (auto simp: create_invoice_Inr draw_invoice_def Let_def)
  have grid: "on_grid 100 (dr_netAmount ?calc)" "on_grid 100 (dr_retainageAmount ?calc)"
    by (simp_all add: calculateProgressDraw_def Let_def)
  have ok': "money_ok db'" using assms(3) w(1,6) grid by (simp add: money_ok_def db')
  have gross: "dr_netAmount ?calc + dr_retainageAmount ?calc = round2 (ie_grandTotal e * (p - last_percent c i db) / 100)"
    by (simp add: draw_splits) (simp add: calculateProgressDraw_def Let_def)
  have "retainage_held c i db' = retainage_held c i db + in_retainageAmount w"
    unfolding retainage_sums [OF ok'] retainage_sums [OF assms(3)] using w by (simp add: db' live_invoices_append)
  moreover have "retainage_released c i db' = retainage_released c i db"
    unfolding retainage_sums [OF ok'] retainage_sums [OF assms(3)] using w by (simp add: db' live_invoices_append)
  moreover have "last_percent c i db' = p"
  proof -
    have live: "live_invoices c i False db' = live_invoices c i False db @ [w]"
      using w by (simp add: db' live_invoices_append)
    have "List.map_filter in_percentComplete (live_invoices c i False db') =
        List.map_filter in_percentComplete (live_invoices c i False db) @ [p]"
      unfolding live by (simp add: List.map_filter_def w)
    then show ?thesis using lt
      by (cases "List.map_filter in_percentComplete (live_invoices c i False db)") (simp_all add: last_percent_def max_def)
  qed
  ultimately show ?thesis using lt gross w by simp
qed

subsection \<open>The theorems at concrete inputs\<close>

definition example_invoice :: "uid \<Rightarrow> nat \<Rightarrow> invoice_status \<Rightarrow> number \<Rightarrow> invoice" where
  "example_invoice i k status amount =
     (new_invoice 0 7 3 4 (Some 5) (invoice_number k) status ''EUR'' amount 0 amount
        [\<lparr>vl_description = msg ''Work'', vl_quantity = 1, vl_unitPrice = amount, vl_lineTotal = amount\<rparr>])
     \<lparr>in_id := i, in_dueDate := Some 0, in_lockedAt := (if status = InvDraft then None else Some 0)\<rparr>"

text \<open>A company with one sent invoice over 1000 that is due, and one progress draw of an approved
  estimate over 10000, with 100 retained.\<close>

definition example_finance :: finance_db where
  "example_finance =
     \<lparr>fd_companies = [\<lparr>fc_id = 7, fc_lateFeePercentPerMonth = Some 3, fc_defaultPaymentTermsDays = 30\<rparr>],
      fd_clients = [\<lparr>ct_id = 4, ct_name = ''Client'', ct_paymentTermsDays = None, ct_datevDebitorNumber = Some ''10001''\<rparr>],
      fd_projects = [\<lparr>ip_id = 3, ip_clientId = Some 4\<rparr>],
      fd_estimates = [\<lparr>ie_id = 5, ie_companyId = 7, ie_projectId = Some 3, ie_approved = True, ie_currency = ''EUR'',
        ie_subtotal = 10000, ie_markupAmount = 0, ie_taxAmount = 0, ie_grandTotal = 10000, ie_lines = []\<rparr>],
      fd_rateItems = [],
      fd_invoices = [example_invoice 20 1 InvSent 1000,
        (example_invoice 21 2 InvDraft 900)\<lparr>in_percentComplete := Some 10, in_retainageAmount := 100\<rparr>],
      fd_payments = [], fd_ledger = [], fd_outbox = [], fd_uid = 30\<rparr>"

definition after_op :: "'a \<times> finance_db \<Rightarrow> finance_db" where
  "after_op r = snd r"

definition result_of :: "(app_error + 'a) \<times> finance_db \<Rightarrow> 'a" where
  "result_of r = projr (fst r)"

lemma run_result: "\<not> isl (fst r) \<Longrightarrow> r = (Inr (result_of r), after_op r)"
  by (cases r; cases "fst r") (simp_all add: result_of_def after_op_def)

definition in_thirty_days :: date where
  "in_thirty_days = 30 * 86400000"

definition plain_payment :: "number \<Rightarrow> payment_input" where
  "plain_payment a = \<lparr>pi_amount = Some a, pi_method = ''transfer'', pi_foreignPayment = None\<rparr>"

definition pay_run :: "(app_error + invoice_status \<times> bool) \<times> finance_db" where
  "pay_run = recordPayment (\<lambda>_. id) (\<lambda>_ _. None) 7 20 (plain_payment 1000) (Some ''cs_1'') example_finance"

lemma example_runs:
  "\<not> isl (fst (void (\<lambda>_. id) 9 7 20 ''wrong client'' example_finance))"
  "\<not> isl (fst (generateProgressInvoice (\<lambda>_. id) 9 7 5 30 10 example_finance))"
  "\<not> isl (fst (releaseRetainage (\<lambda>_. id) 9 7 5 (Some 40) example_finance))"
  "\<not> isl (fst pay_run)"
  "\<not> isl (chargeLateFee in_thirty_days 7 20 example_finance)"
  "invoices_ok example_finance" "money_ok example_finance" "numbers_ok 7 example_finance"
  "last_percent 7 5 example_finance = 10"
  "retainage_held 7 5 example_finance = 100" "retainage_released 7 5 example_finance = 0"
  by code_simp+

lemma example_rows:
  "find_invoice 7 20 example_finance = Inr (example_invoice 20 1 InvSent 1000)"
  "find_estimate 7 5 example_finance = Some (hd (fd_estimates example_finance))"
  "ie_grandTotal (hd (fd_estimates example_finance)) = 10000"
  "in_total (example_invoice 20 1 InvSent 1000) = 1000"
  "paid_amount 20 example_finance = 0"
  by (simp_all add: find_invoice_def find_estimate_def example_finance_def example_invoice_def new_invoice_def
      row_simps paid_amount_def invoice_payments_def)

theorem numbers_consecutive_witness:
  "in_number (result_of (generateProgressInvoice (\<lambda>_. id) 9 7 5 30 10 example_finance)) = ''INV-0003''"
proof -
  let ?g = "generateProgressInvoice (\<lambda>_. id) 9 7 5 30 10 example_finance"
  have "invoice_number (company_count 7 example_finance + 1) = ''INV-0003''" by code_simp
  moreover have "(Inr (result_of ?g), after_op ?g) \<in> {?g, releaseRetainage (\<lambda>_. id) 9 7 5 None example_finance}"
    using run_result [OF example_runs(2)] by simp
  ultimately show ?thesis using numbers_consecutive [OF example_runs(8) disjI1] by fastforce
qed

theorem void_reverses_invoice_witness:
  "in_total (result_of (void (\<lambda>_. id) 9 7 20 ''wrong client'' example_finance)) = - 1000"
  using void_reverses_invoice [OF run_result [OF example_runs(1)] example_rows(1) example_runs(6)] example_rows(4)
  by linarith

theorem single_correction_witness:
  "length (filter (\<lambda>u. in_correctsInvoiceId u = Some 20)
     (fd_invoices (after_op (void (\<lambda>_. id) 9 7 20 ''wrong client'' example_finance)))) = 1"
  using single_correction [OF run_result [OF example_runs(1)]] by simp

theorem payment_settles_invoice_witness: "fst (result_of pay_run) = InvPaid"
proof -
  obtain st dup where r: "result_of pay_run = (st, dup)" by (cases "result_of pay_run")
  have "pay_run = (Inr (st, dup), after_op pay_run)" using run_result [OF example_runs(4)] r by simp
  note run = this [unfolded pay_run_def]
  have "\<not> snd (result_of pay_run)" by code_simp
  with r have "\<not> dup" by simp
  then show ?thesis
    using payment_settles_invoice [OF run example_rows(1)] example_rows(4,5) r
    by (simp add: payment_row_def plain_payment_def)
qed

theorem stripe_redelivery_ignored_witness:
  "\<exists>p \<in> set (fd_payments (after_op pay_run)). pm_stripeCheckoutSessionId p = Some ''cs_1''"
proof -
  obtain st dup where "result_of pay_run = (st, dup)" by (cases "result_of pay_run")
  then have "pay_run = (Inr (st, dup), after_op pay_run)" using run_result [OF example_runs(4)] by simp
  note run = this [unfolded pay_run_def]
  show ?thesis unfolding pay_run_def by (rule conjunct1 [OF stripe_redelivery_ignored [OF run]]) simp
qed

theorem late_fee_charged_once_witness:
  "chargeLateFee (in_thirty_days + 1) 7 20 (snd (projr (chargeLateFee in_thirty_days 7 20 example_finance))) =
     Inl (BadRequestException (msg ''No late fee has accrued on this invoice''))"
proof (rule succeedsE [OF example_runs(5)])
  fix fee db'
  assume run: "chargeLateFee in_thirty_days 7 20 example_finance = Inr (fee, db')"
  then show ?thesis
    using late_fee_charged_once [OF run example_rows(1), of "in_thirty_days + 1"] by simp
qed

theorem retainage_release_bounded_witness:
  "retainage_released 7 5 (after_op (releaseRetainage (\<lambda>_. id) 9 7 5 (Some 40) example_finance)) = 40"
  using retainage_release_bounded [OF run_result [OF example_runs(3)] example_runs(7)] example_runs(11)
  by (simp add: on_grid_def is_integer_def)

theorem progress_draw_advances_witness:
  "last_percent 7 5 (after_op (generateProgressInvoice (\<lambda>_. id) 9 7 5 30 10 example_finance)) = 30"
  using progress_draw_advances [OF run_result [OF example_runs(2)] example_rows(2) example_runs(7)] by simp

subsection \<open>Interleavings that go wrong\<close>

text \<open>Two requests release the same 100: the other one runs after this one has checked what remains,
  and twice the retainage held is paid out.\<close>

lemma concurrent_releases_pay_twice:
  "let db' = after_op (releaseRetainage
       (\<lambda>k db. if k = 2 then after_op (releaseRetainage (\<lambda>_. id) 9 7 5 None db) else db) 9 7 5 None example_finance)
   in retainage_held 7 5 db' = 100 \<and> retainage_released 7 5 db' = 200"
  unfolding Let_def by (intro conjI; code_simp)

text \<open>Two progress draws to 30 percent: both bill the slice from 10 to 30 percent.\<close>

lemma concurrent_draws_bill_twice:
  "map in_subtotal (live_invoices 7 5 False (after_op (generateProgressInvoice
       (\<lambda>k db. if k = 2 then after_op (generateProgressInvoice (\<lambda>_. id) 9 7 5 30 0 db) else db)
       9 7 5 30 0 example_finance))) = [1000, 900, 2000, 2000]"
  by code_simp

text \<open>A payment that was checked before the invoice is voided makes the void invoice paid.\<close>

lemma payment_revives_void_invoice:
  "map in_status (filter (\<lambda>v. in_id v = 20) (fd_invoices (after_op (recordPayment
       (\<lambda>_ db. after_op (void (\<lambda>_. id) 9 7 20 ''wrong client'' db)) (\<lambda>_ _. None) 7 20 (plain_payment 1000) None
       example_finance)))) = [InvPaid]"
  by code_simp

text \<open>A late fee charged after \<open>void\<close> has read the invoice is missing from the correction: invoice and
  Stornorechnung no longer cancel.\<close>

lemma late_fee_escapes_correction:
  "(\<Sum>v \<leftarrow> filter (\<lambda>v. in_id v = 20 \<or> in_correctsInvoiceId v = Some 20) (fd_invoices (after_op (void
       (\<lambda>k db. if k = 2 then snd (projr (chargeLateFee in_thirty_days 7 20 db)) else db)
       in_thirty_days 7 20 ''wrong client'' example_finance))). in_total v) = 30"
  by code_simp

text \<open>The GoBD lock does not stop a late fee: the total of a locked invoice changes after its
  Festschreibung.\<close>

lemma late_fee_changes_locked_invoice:
  "map (\<lambda>v. (in_lockedAt v, in_total v)) (filter (\<lambda>v. in_id v = 20)
     (fd_invoices (snd (projr (chargeLateFee in_thirty_days 7 20 example_finance))))) = [(Some 0, 1030)]"
  by code_simp

text \<open>The DATEV export books a correction like a sale: the sign of the total is dropped and the row is
  always a debit, and with a negative subtotal the tax rate counts as zero, so that a
  Stornorechnung over -1190 is exported as 1190 of tax-exempt revenue.\<close>

lemma datev_rows_positive:
  "row \<in> set (snd (datev_rows company db vs)) \<Longrightarrow>
     0 \<le> dp_amount row \<and> dp_sollHaben row = ''S'' \<and> (\<exists>v \<in> set vs. dp_amount row = \<bar>in_total v\<bar> \<and> dp_gegenkonto row = revenue_account company v)"
  by (induction vs) (auto simp: Let_def buildDatevPostingRow_def split: if_splits)

lemma correction_booked_as_exempt_sale:
  "in_subtotal v \<le> 0 \<Longrightarrow> revenue_account company v = dv_revenueAccountExempt company"
  by (simp add: revenue_account_def tax_percent_def)

lemma datev_books_void_as_revenue:
  "map dp_amount (snd (exportDatevSales \<lparr>dv_revenueAccountStandard = ''8400'', dv_revenueAccountReduced = ''8300'',
       dv_revenueAccountExempt = ''8120''\<rparr> 7 None None
     (after_op (void (\<lambda>_. id) 9 7 20 ''wrong client'' example_finance)))) = [1000]"
  by code_simp

end
