(* ===== verification/Invoice_Life.thy ===== *)
theory Invoice_Life
  imports Invoice_Money
begin

section \<open>The life of an invoice\<close>

text \<open>
  The operations of \<open>InvoicesService\<close>, each running alone, as a transition system on the tables
  (\<open>invoice_op\<close>), and what no sequence of them can do to an invoice: the relation \<open>evolves\<close>
  between an invoice and its later self.
\<close>

text \<open>What never changes; the principal is the total less the late fees charged.\<close>

definition core :: "invoice \<Rightarrow> (uid \<times> uid \<times> string \<times> uid option \<times> uid) \<times> string \<times> date \<times> uid option \<times> number \<times> number \<times> number" where
  "core v = ((in_id v, in_companyId v, in_number v, in_estimateId v, in_clientId v), in_currency v, in_createdAt v,
     in_correctsInvoiceId v, in_subtotal v, in_taxAmount v, in_total v - in_lateFeeChargedTotal v)"

definition evolves :: "invoice \<Rightarrow> invoice \<Rightarrow> bool" where
  "evolves v v' \<longleftrightarrow>
     core v' = core v \<and>
     (\<exists>fees. in_lines v' = in_lines v @ fees) \<and>
     (in_lockedAt v \<noteq> None \<longrightarrow> (in_lockedAt v', in_dueDate v') = (in_lockedAt v, in_dueDate v)) \<and>
     (in_status v = InvVoid \<longrightarrow> (in_status v', in_total v', in_lines v') = (in_status v, in_total v, in_lines v)) \<and>
     (in_status v' = InvDraft \<longrightarrow> in_status v = InvDraft)"

lemma evolves_refl [simp, intro]: "evolves v v"
  by (simp add: evolves_def)

lemma evolves_trans [trans]:
  assumes "evolves u v" and "evolves v w"
  shows "evolves u w"
  unfolding evolves_def
proof (intro conjI impI)
  show "core w = core u" using assms by (simp add: evolves_def)
  obtain f g where "in_lines v = in_lines u @ f" "in_lines w = in_lines v @ g"
    using assms unfolding evolves_def by blast
  then show "\<exists>fees. in_lines w = in_lines u @ fees" by simp
  show "(in_lockedAt w, in_dueDate w) = (in_lockedAt u, in_dueDate u)" if "in_lockedAt u \<noteq> None"
    using assms that unfolding evolves_def by (metis prod.inject)
  show "(in_status w, in_total w, in_lines w) = (in_status u, in_total u, in_lines u)" if "in_status u = InvVoid"
    using assms that unfolding evolves_def by (metis prod.inject)
  show "in_status u = InvDraft" if "in_status w = InvDraft"
    using assms that unfolding evolves_def by blast
qed

lemma evolves_id: "evolves v v' \<Longrightarrow> in_id v' = in_id v"
  by (simp add: evolves_def core_def)

definition all_evolve :: "finance_db \<Rightarrow> finance_db \<Rightarrow> bool" where
  "all_evolve db db' \<longleftrightarrow> (\<forall>v \<in> set (fd_invoices db). \<exists>v' \<in> set (fd_invoices db'). evolves v v')"

lemma all_evolve_refl [simp]: "all_evolve db db"
  by (auto simp: all_evolve_def)

lemma all_evolve_trans: "all_evolve a b \<Longrightarrow> all_evolve b c \<Longrightarrow> all_evolve a c"
  unfolding all_evolve_def by (meson evolves_trans)

inductive invoice_op :: "finance_db \<Rightarrow> finance_db \<Rightarrow> bool" where
  from_estimate: "generateFromEstimate (\<lambda>_. id) now c i db = (r, db') \<Longrightarrow> invoice_op db db'"
| draw: "generateProgressInvoice (\<lambda>_. id) now c i p q db = (r, db') \<Longrightarrow> invoice_op db db'"
| release: "releaseRetainage (\<lambda>_. id) now c i a db = (r, db') \<Longrightarrow> invoice_op db db'"
| send: "send (\<lambda>_. id) now c i db = (r', db') \<Longrightarrow> invoice_op db db'"
| edit: "update_due_date c i d db = Inr db' \<Longrightarrow> invoice_op db db'"
| installment: "addInstallment c i l amount d db = Inr db' \<Longrightarrow> invoice_op db db'"
| late_fee: "chargeLateFee now c i db = Inr (fee, db') \<Longrightarrow> invoice_op db db'"
| pay: "recordPayment (\<lambda>_. id) getRate c i input s db = (Inr r'', db') \<Longrightarrow> invoice_op db db'"
| void: "void (\<lambda>_. id) now c i reason db = (r, db') \<Longrightarrow> invoice_op db db'"

inductive_cases invoice_opE: "invoice_op db db'"

text \<open>Two ways to write: change the rows with one id, or add a row.\<close>

lemma changed_rows:
  assumes ok: "invoices_ok db" and rows: "fd_invoices db' = update_rows (\<lambda>u. in_id u = i) f (fd_invoices db)"
    and uid: "fd_uid db \<le> fd_uid db'"
    and f: "\<And>v. v \<in> set (fd_invoices db) \<Longrightarrow> in_id v = i \<Longrightarrow> evolves v (f v) \<and> (in_lockedAt (f v) = None \<longleftrightarrow> in_status (f v) = InvDraft)"
  shows "invoices_ok db' \<and> all_evolve db db'"
proof -
  have "map in_id (fd_invoices db') = map in_id (fd_invoices db)"
    unfolding rows update_rows_def using f evolves_id by auto
  moreover have "\<forall>v \<in> set (fd_invoices db'). in_id v < fd_uid db' \<and> (in_lockedAt v = None \<longleftrightarrow> in_status v = InvDraft)"
    unfolding rows all_update_rows using ok uid f evolves_id by (fastforce simp: invoices_ok_def list_all_iff)
  ultimately have "invoices_ok db'" using ok by (simp add: invoices_ok_def list_all_iff)
  moreover have "all_evolve db db'"
    unfolding all_evolve_def
  proof
    fix v assume v: "v \<in> set (fd_invoices db)"
    then have "(if in_id v = i then f v else v) \<in> set (fd_invoices db')"
      unfolding rows update_rows_def set_map by (rule imageI)
    moreover have "evolves v (if in_id v = i then f v else v)" using f [OF v] by simp
    ultimately show "\<exists>v' \<in> set (fd_invoices db'). evolves v v'" by blast
  qed
  ultimately show ?thesis by blast
qed

lemma added_row:
  assumes "invoices_ok db" and "fd_invoices db' = fd_invoices db @ [v]" and "in_id v = fd_uid db"
    and "fd_uid db' = Suc (fd_uid db)" and "in_lockedAt v = None \<longleftrightarrow> in_status v = InvDraft"
  shows "invoices_ok db' \<and> all_evolve db db'"
proof
  have "fd_uid db \<notin> set (map in_id (fd_invoices db))"
    using assms(1) by (auto simp: invoices_ok_def list_all_iff)
  then show "invoices_ok db'" using assms by (fastforce simp: invoices_ok_def list_all_iff)
  show "all_evolve db db'" using assms(2) by (auto simp: all_evolve_def)
qed

lemma created_alone:
  assumes "invoices_ok db" and "invoice_creation (\<lambda>num. create_invoice (data num)) c (\<lambda>_. True)"
    and "createInvoiceWithNumber (\<lambda>_. id) c (\<lambda>num. create_invoice (data num)) db = (r, db')"
    and "\<And>num. in_lockedAt (data num) = None \<and> in_status (data num) = InvDraft"
  shows "invoices_ok db' \<and> all_evolve db db'"
proof (cases r)
  case (Inl e)
  then show ?thesis
    using invoice_creation.alone [OF assms(2) assms(3) [unfolded createInvoiceWithNumber_def]] assms(1) by simp
next
  case (Inr v)
  then obtain num where "create_invoice (data num) db = Inr (v, db')"
    using invoice_creation.alone [OF assms(2) assms(3) [unfolded createInvoiceWithNumber_def]] by blast
  then show ?thesis using assms(4) by (intro added_row [OF assms(1)]) (auto simp: create_invoice_Inr)
qed

lemma same_row: "invoices_ok db \<Longrightarrow> find_invoice c i db = Inr v \<Longrightarrow> u \<in> set (fd_invoices db) \<Longrightarrow> in_id u = i \<Longrightarrow> u = v"
  by (auto simp: invoices_ok_def distinct_map inj_on_def dest!: find_invoiceD)

lemma locked_iff: "invoices_ok db \<Longrightarrow> v \<in> set (fd_invoices db) \<Longrightarrow> in_lockedAt v = None \<longleftrightarrow> in_status v = InvDraft"
  by (simp add: invoices_ok_def list_all_iff)

subsection \<open>Every operation keeps the invariant\<close>

lemma from_estimate_keeps:
  assumes "generateFromEstimate (\<lambda>_. id) now c i db = (r, db')" and ok: "invoices_ok db"
  shows "invoices_ok db' \<and> all_evolve db db'"
proof (cases "assertInvoiceableEstimate c i db")
  case (Inl e)
  with assms show ?thesis by (simp add: generateFromEstimate_def)
next
  case (Inr t)
  obtain e p cl where t: "t = (e, p, cl)" by (cases t)
  show ?thesis
    by (rule created_alone [OF ok estimate_creation.invoice_creation_axioms [of now c e p cl db]])
      (use assms(1) Inr t in \<open>simp_all add: generateFromEstimate_def estimate_invoice_def\<close>)
qed

lemma draw_keeps:
  assumes "generateProgressInvoice (\<lambda>_. id) now c i p q db = (r, db')" and ok: "invoices_ok db"
  shows "invoices_ok db' \<and> all_evolve db db'"
  using generateProgressInvoice_cases [OF assms(1)]
proof
  assume "\<exists>e. r = Inl e \<and> e \<noteq> UniqueViolation ''number'' \<and> db' = db"
  with ok show ?thesis by auto
next
  assume "\<exists>e pr cl. assertInvoiceableEstimate c i db = Inr (e, pr, cl) \<and> last_percent c i db < p \<and>
       createInvoiceWithNumber (\<lambda>_. id) c
         (\<lambda>num. create_invoice (draw_invoice now c e pr cl (last_percent c i db) p q num)) db = (r, db')"
  then obtain e pr cl where run: "createInvoiceWithNumber (\<lambda>_. id) c
         (\<lambda>num. create_invoice (draw_invoice now c e pr cl (last_percent c i db) p q num)) db = (r, db')" by blast
  show ?thesis
    by (rule created_alone [OF ok draw_creation.invoice_creation_axioms run]) (simp add: draw_invoice_def Let_def)
qed

lemma release_keeps:
  assumes "releaseRetainage (\<lambda>_. id) now c i a db = (r, db')" and ok: "invoices_ok db"
  shows "invoices_ok db' \<and> all_evolve db db'"
  using releaseRetainage_cases [OF assms(1)]
proof
  assume "\<exists>e. r = Inl e \<and> e \<noteq> UniqueViolation ''number'' \<and> db' = db"
  with ok show ?thesis by auto
next
  assume "\<exists>e pr cl amount. assertInvoiceableEstimate c i db = Inr (e, pr, cl) \<and>
       0 < round2 (retainage_held c i db - retainage_released c i db) \<and>
       amount = (case a of None \<Rightarrow> round2 (retainage_held c i db - retainage_released c i db) | Some x \<Rightarrow> x) \<and>
       amount \<le> round2 (retainage_held c i db - retainage_released c i db) \<and>
       createInvoiceWithNumber (\<lambda>_. id) c
         (\<lambda>num. create_invoice (release_invoice now c e pr cl amount num)) db = (r, db')"
  then obtain e pr cl amount where run: "createInvoiceWithNumber (\<lambda>_. id) c
         (\<lambda>num. create_invoice (release_invoice now c e pr cl amount num)) db = (r, db')" by blast
  show ?thesis
    by (rule created_alone [OF ok release_creation.invoice_creation_axioms run]) (simp add: release_invoice_def)
qed

lemma send_keeps:
  assumes "send (\<lambda>_. id) now c i db = (r, db')" and ok: "invoices_ok db"
  shows "invoices_ok db' \<and> all_evolve db db'"
proof (cases r)
  case (Inl e)
  then show ?thesis using assms by (auto simp: send_def split: sum.splits if_splits)
next
  case (Inr d)
  then obtain v where v: "find_invoice c i db = Inr v" "in_status v = InvDraft"
    and rows: "fd_invoices db' = update_rows (\<lambda>u. in_id u = i) (\<lambda>v. v\<lparr>in_status := InvSent, in_dueDate := Some d,
        in_lockedAt := Some now\<rparr>) (fd_invoices db)" "fd_uid db' = fd_uid db"
    using assms(1) by (auto simp: send_def split: sum.splits if_splits)
  show ?thesis
    by (rule changed_rows [OF ok rows(1)])
      (use rows(2) same_row [OF ok v(1)] v(2) locked_iff [OF ok] in \<open>auto simp: evolves_def core_def\<close>)
qed

lemma edit_keeps:
  assumes "update_due_date c i d db = Inr db'" and ok: "invoices_ok db"
  shows "invoices_ok db' \<and> all_evolve db db'"
proof -
  obtain v where v: "find_invoice c i db = Inr v" "in_lockedAt v = None"
    and rows: "fd_invoices db' = update_rows (\<lambda>u. in_id u = i)
        (\<lambda>v. v\<lparr>in_dueDate := (case d of None \<Rightarrow> in_dueDate v | Some d \<Rightarrow> d)\<rparr>) (fd_invoices db)" "fd_uid db' = fd_uid db"
    using assms(1) by (auto simp: update_due_date_def split: sum.splits if_splits)
  show ?thesis
    by (rule changed_rows [OF ok rows(1)])
      (use rows(2) same_row [OF ok v(1)] v(2) locked_iff [OF ok] in \<open>auto simp: evolves_def core_def\<close>)
qed

lemma installment_keeps:
  assumes "addInstallment c i l amount d db = Inr db'" and ok: "invoices_ok db"
  shows "invoices_ok db' \<and> all_evolve db db'"
proof -
  obtain v where "find_invoice c i db = Inr v"
    using assms(1) by (auto simp: addInstallment_def split: sum.splits)
  then have db': "db' = update_invoice i (\<lambda>w. w\<lparr>in_installments := in_installments w @
          [\<lparr>is_label = l, is_amount = amount, is_dueDate = d, is_sortOrder = length (in_installments v)\<rparr>]\<rparr>) db"
    using assms(1) by (simp add: addInstallment_def)
  have rows: "fd_invoices db' = update_rows (\<lambda>u. in_id u = i) (\<lambda>w. w\<lparr>in_installments := in_installments w @
          [\<lparr>is_label = l, is_amount = amount, is_dueDate = d, is_sortOrder = length (in_installments v)\<rparr>]\<rparr>) (fd_invoices db)"
      "fd_uid db' = fd_uid db"
    by (simp_all add: db')
  show ?thesis
    by (rule changed_rows [OF ok rows(1)]) (use rows(2) locked_iff [OF ok] in \<open>auto simp: evolves_def core_def\<close>)
qed

lemma late_fee_keeps:
  assumes "chargeLateFee now c i db = Inr (fee, db')" and ok: "invoices_ok db"
  shows "invoices_ok db' \<and> all_evolve db db'"
proof -
  obtain v where v: "find_invoice c i db = Inr v" "computeLateFeeAccrued now c v db = Inr fee" "0 < fee"
    and db': "db' = update_invoice i (\<lambda>v. v\<lparr>
                   in_lines := in_lines v @ [\<lparr>vl_description = msg ''Late fee'', vl_quantity = 1,
                                              vl_unitPrice = fee, vl_lineTotal = fee\<rparr>],
                   in_total := in_total v + fee,
                   in_lateFeeChargedTotal := in_lateFeeChargedTotal v + fee,
                   in_lastLateFeeAccrualAt := Some now\<rparr>) db"
    using assms(1) by (rule chargeLateFee_cases)
  have "in_status v = InvSent"
    using v(2,3) by (auto simp: computeLateFeeAccrued_def split: option.splits if_splits)
  then show ?thesis
    by (intro changed_rows [OF ok, of db' i])
      (use same_row [OF ok v(1)] locked_iff [OF ok] in \<open>auto simp: db' evolves_def core_def\<close>)
qed

lemma pay_keeps:
  assumes "recordPayment (\<lambda>_. id) getRate c i input s db = (Inr r, db')" and ok: "invoices_ok db"
  shows "invoices_ok db' \<and> all_evolve db db'"
proof -
  obtain st dup where "r = (st, dup)" by (cases r)
  then obtain v where v: "find_invoice c i db = Inr v" "in_status v \<in> {InvSent, InvPaid}"
    and tx: "recordPaymentTx c v (payment_row getRate v input s) db = ((st, dup), db')"
    using assms(1) by (auto elim!: recordPayment_cases)
  have id: "in_id v = i" using find_invoiceD [OF v(1)] by simp
  note eff = recordPaymentTx_effect [OF tx, simplified, unfolded id]
  have "fd_uid db \<le> fd_uid db'" using tx by (auto simp: recordPaymentTx_def Let_def split: if_splits)
  moreover have "st = InvPaid \<or> st = InvSent" using eff(4) by auto
  ultimately show ?thesis
    by (intro changed_rows [OF ok eff(5)])
      (use same_row [OF ok v(1)] locked_iff [OF ok] v(2) in \<open>auto simp: evolves_def core_def\<close>)
qed

lemma void_keeps:
  assumes "void (\<lambda>_. id) now c i reason db = (r, db')" and ok: "invoices_ok db"
  shows "invoices_ok db' \<and> all_evolve db db'"
proof (cases r)
  case (Inl e)
  from void_cases [OF assms(1)] have "db' = db"
  proof
    assume "\<exists>v. find_invoice c i db = Inr v \<and> in_lockedAt v \<noteq> None \<and> in_status v \<noteq> InvVoid \<and>
       createInvoiceWithNumber (\<lambda>_. id) c (void_tx now c v reason) db = (r, db')"
    then obtain v where run: "createInvoiceWithNumber (\<lambda>_. id) c (void_tx now c v reason) db = (r, db')" by blast
    with Inl show ?thesis using void_creation.alone [OF run [unfolded createInvoiceWithNumber_def]] by simp
  qed auto
  with ok show ?thesis by simp
next
  case (Inr w)
  then have run: "void (\<lambda>_. id) now c i reason db = (Inr w, db')" using assms(1) by simp
  obtain v where v: "find_invoice c i db = Inr v" using void_alone [OF run] by blast
  obtain num where tx: "void_tx now c v reason num db = Inr (w, db')"
    using run v by (auto elim!: void_alone)
  have id: "in_id v = i" using find_invoiceD [OF v] by simp
  note rows = void_tx_rows [OF tx, unfolded id]
  let ?f = "\<lambda>w. w\<lparr>in_status := InvVoid, in_voidedAt := Some now, in_voidReason := Some reason\<rparr>"
  let ?mid = "db\<lparr>fd_invoices := update_rows (\<lambda>u. in_id u = i) ?f (fd_invoices db)\<rparr>"
  have locked: "in_lockedAt v \<noteq> None" using run v by (auto elim!: void_alone)
  have mid: "invoices_ok ?mid \<and> all_evolve db ?mid"
    by (rule changed_rows [OF ok, of ?mid i ?f])
      (use same_row [OF ok v] locked in \<open>auto simp: evolves_def core_def\<close>)
  have "invoices_ok db' \<and> all_evolve ?mid db'"
    by (rule added_row [where v = w]) (use mid rows(1,4) in \<open>simp_all add: rows(2)\<close>)
  with mid show ?thesis using all_evolve_trans by blast
qed

lemma invoice_op_keeps:
  assumes "invoice_op db db'" and "invoices_ok db"
  shows "invoices_ok db' \<and> all_evolve db db'"
  using assms
  by (elim invoice_opE)
    (blast dest: from_estimate_keeps draw_keeps release_keeps send_keeps edit_keeps installment_keeps
      late_fee_keeps pay_keeps void_keeps)+

interpretation invoices: transition_system "\<lambda>db. db = db0 \<and> invoices_ok db0" invoice_op
  "\<lambda>db. invoices_ok db \<and> all_evolve db0 db" for db0
proof unfold_locales
  show "invoices_ok t \<and> all_evolve db0 t" if "invoices_ok s \<and> all_evolve db0 s" "invoice_op s t" for s t
    using invoice_op_keeps [OF that(2)] that(1) all_evolve_trans by blast
qed auto



end
