(* ===== verification/Formula_Laws.thy ===== *)
theory Formula_Laws
  imports Formula
begin

section \<open>The evaluator computes what the grammar means\<close>

text \<open>
  The grammar in the comment of \<open>formula.ts\<close> as three inductive relations between token lists
  and expressions, and the value of an expression. The evaluator never runs out of fuel, it
  accepts exactly the sentences of the grammar, and its result is the value of the expression,
  errors included.
\<close>

subsection \<open>Enough fuel\<close>

definition returns :: "nat \<Rightarrow> token list \<Rightarrow> parsed option \<Rightarrow> bool" where
  "returns b ts r \<longleftrightarrow>
     (case r of None \<Rightarrow> False | Some (Inl _) \<Rightarrow> True | Some (Inr (x, r)) \<Rightarrow> length r + b \<le> length ts)"

lemma returns_error [simp]: "returns b ts (Some (Inl e))"
  and returns_value [simp]: "returns b ts (Some (Inr (x, r))) \<longleftrightarrow> length r + b \<le> length ts"
  and returns_none [simp]: "\<not> returns b ts None"
  by (simp_all add: returns_def)

lemma after_returns:
  assumes "returns b ts r" and "\<And>x r'. length r' + b \<le> length ts \<Longrightarrow> returns c us (k x r')"
  shows "returns c us (after r k)"
proof (cases "\<exists>x r'. r = Some (Inr (x, r'))")
  case True
  then obtain x r' where r: "r = Some (Inr (x, r'))" by blast
  with assms(1) have "length r' + b \<le> length ts" by simp
  with assms(2) r show ?thesis by (simp add: after_def)
next
  case False
  with assms(1) show ?thesis by (auto simp: after_def returns_def split: option.splits sum.splits)
qed

lemma returns_weaken: "returns b ts r \<Longrightarrow> length ts + c \<le> length us + b \<Longrightarrow> returns c us r"
  by (auto simp: returns_def split: option.splits sum.splits)

lemma and_then_returns:
  assumes "\<And>z. returns b us (loop z ts)"
  shows "returns b us (and_then c x loop y ts)"
  using assms by (auto simp: and_then_def split: sum.splits)

lemma close_paren_returns: "length ts \<le> length us \<Longrightarrow> returns 1 us (close_paren y ts)"
  by (auto simp: close_paren_def split: list.splits token.splits)

lemma parse_returns_all:
  "(\<forall>ts. 3 * length ts + 3 \<le> n \<longrightarrow> returns 1 ts (parseExpr n vars ts)) \<and>
   (\<forall>x ts. 3 * length ts + 1 \<le> n \<longrightarrow> returns 0 ts (expr_loop n vars x ts)) \<and>
   (\<forall>ts. 3 * length ts + 2 \<le> n \<longrightarrow> returns 1 ts (parseTerm n vars ts)) \<and>
   (\<forall>x ts. 3 * length ts + 1 \<le> n \<longrightarrow> returns 0 ts (term_loop n vars x ts)) \<and>
   (\<forall>ts. 3 * length ts + 1 \<le> n \<longrightarrow> returns 1 ts (parseFactor n vars ts))"
proof (induction n)
  case (Suc n)
  note IH = Suc.IH [THEN conjunct1, rule_format]
    Suc.IH [THEN conjunct2, THEN conjunct1, rule_format]
    Suc.IH [THEN conjunct2, THEN conjunct2, THEN conjunct1, rule_format]
    Suc.IH [THEN conjunct2, THEN conjunct2, THEN conjunct2, THEN conjunct1, rule_format]
    Suc.IH [THEN conjunct2, THEN conjunct2, THEN conjunct2, THEN conjunct2, rule_format]
  have "returns 1 ts (parseExpr (Suc n) vars ts)" if "3 * length ts + 3 \<le> Suc n" for ts
    unfolding parseExpr.simps
    by (rule after_returns [OF IH(3)], use that in simp, rule returns_weaken [OF IH(2)])
      (use that in auto)
  moreover have "returns 1 ts (parseTerm (Suc n) vars ts)" if "3 * length ts + 2 \<le> Suc n" for ts
    unfolding parseTerm.simps
    by (rule after_returns [OF IH(5)], use that in simp, rule returns_weaken [OF IH(4)])
      (use that in auto)
  moreover have "returns 0 ts (expr_loop (Suc n) vars x ts)" if "3 * length ts + 1 \<le> Suc n" for x ts
  proof -
    have "returns 0 ts (after (parseTerm n vars r) (and_then c x (expr_loop n vars)))"
      if "ts = TOp c # r" for c r
      by (rule after_returns [OF IH(3)], use that \<open>3 * length ts + 1 \<le> Suc n\<close> in simp,
          rule and_then_returns, rule returns_weaken [OF IH(2)])
        (use that \<open>3 * length ts + 1 \<le> Suc n\<close> in auto)
    then show ?thesis by (auto split: list.splits token.splits)
  qed
  moreover have "returns 0 ts (term_loop (Suc n) vars x ts)" if "3 * length ts + 1 \<le> Suc n" for x ts
  proof -
    have "returns 0 ts (after (parseFactor n vars r) (and_then c x (term_loop n vars)))"
      if "ts = TOp c # r" for c r
      by (rule after_returns [OF IH(5)], use that \<open>3 * length ts + 1 \<le> Suc n\<close> in simp,
          rule and_then_returns, rule returns_weaken [OF IH(4)])
        (use that \<open>3 * length ts + 1 \<le> Suc n\<close> in auto)
    then show ?thesis by (auto split: list.splits token.splits)
  qed
  moreover have "returns 1 ts (parseFactor (Suc n) vars ts)" if len: "3 * length ts + 1 \<le> Suc n" for ts
  proof -
    have "returns 1 ts (after (parseFactor n vars r) (\<lambda>y r'. Some (Inr (negate y, r'))))"
      if "ts = TOp c # r" for c r
      by (rule after_returns [OF IH(5)]) (use that len in auto)
    moreover have "returns 1 ts (after (parseExpr n vars r) close_paren)" if "ts = TOp c # r" for c r
      by (rule after_returns [OF IH(1)], use that len in simp, rule close_paren_returns)
        (use that in auto)
    ultimately show ?thesis by (auto split: list.splits token.splits sum.splits)
  qed
  ultimately show ?case by blast
qed simp

lemmas parse_returns =
  parse_returns_all [THEN conjunct1, rule_format]
  parse_returns_all [THEN conjunct2, THEN conjunct1, rule_format]
  parse_returns_all [THEN conjunct2, THEN conjunct2, THEN conjunct1, rule_format]
  parse_returns_all [THEN conjunct2, THEN conjunct2, THEN conjunct2, THEN conjunct1, rule_format]
  parse_returns_all [THEN conjunct2, THEN conjunct2, THEN conjunct2, THEN conjunct2, rule_format]

text \<open>More fuel does not change a result: \<open>a \<sqsubseteq> b\<close> when \<open>b\<close> is what \<open>a\<close> is, once \<open>a\<close> is something.\<close>

definition refines :: "parsed option \<Rightarrow> parsed option \<Rightarrow> bool" where
  "refines a b \<longleftrightarrow> (a = None \<or> a = b)"

lemma refines_refl [simp]: "refines a a"
  by (simp add: refines_def)

lemma refines_after [intro]:
  "refines a b \<Longrightarrow> (\<And>x ts. refines (k x ts) (k' x ts)) \<Longrightarrow> refines (after a k) (after b k')"
  unfolding refines_def after_def
  by (cases a; cases "the a"; cases "projr (the a)") fastforce+

lemma refines_and_then [intro]:
  "(\<And>z ts. refines (k z ts) (k' z ts)) \<Longrightarrow> refines (and_then c x k y ts) (and_then c x k' y ts)"
  by (auto simp: and_then_def split: sum.splits)

lemma parse_refines:
  "(\<forall>ts. refines (parseExpr n vars ts) (parseExpr (Suc n) vars ts)) \<and>
   (\<forall>x ts. refines (expr_loop n vars x ts) (expr_loop (Suc n) vars x ts)) \<and>
   (\<forall>ts. refines (parseTerm n vars ts) (parseTerm (Suc n) vars ts)) \<and>
   (\<forall>x ts. refines (term_loop n vars x ts) (term_loop (Suc n) vars x ts)) \<and>
   (\<forall>ts. refines (parseFactor n vars ts) (parseFactor (Suc n) vars ts))"
proof (induction n)
  case 0
  show ?case by (simp add: refines_def)
next
  case (Suc n)
  note IH = Suc.IH [THEN conjunct1, rule_format]
    Suc.IH [THEN conjunct2, THEN conjunct1, rule_format]
    Suc.IH [THEN conjunct2, THEN conjunct2, THEN conjunct1, rule_format]
    Suc.IH [THEN conjunct2, THEN conjunct2, THEN conjunct2, THEN conjunct1, rule_format]
    Suc.IH [THEN conjunct2, THEN conjunct2, THEN conjunct2, THEN conjunct2, rule_format]
  have "refines (parseExpr (Suc n) vars ts) (parseExpr (Suc (Suc n)) vars ts)" for ts
    unfolding parseExpr.simps(2) [of n vars ts] parseExpr.simps(2) [of "Suc n" vars ts]
    by (intro refines_after IH)
  moreover have "refines (parseTerm (Suc n) vars ts) (parseTerm (Suc (Suc n)) vars ts)" for ts
    unfolding parseTerm.simps(2) [of n vars ts] parseTerm.simps(2) [of "Suc n" vars ts]
    by (intro refines_after IH)
  moreover have "refines (expr_loop (Suc n) vars x ts) (expr_loop (Suc (Suc n)) vars x ts)" for x ts
    unfolding expr_loop.simps(2) [of n vars x ts] expr_loop.simps(2) [of "Suc n" vars x ts]
    by (simp split: list.split token.split del: parseTerm.simps expr_loop.simps)
      (intro allI impI conjI refines_after refines_and_then IH)
  moreover have "refines (term_loop (Suc n) vars x ts) (term_loop (Suc (Suc n)) vars x ts)" for x ts
    unfolding term_loop.simps(2) [of n vars x ts] term_loop.simps(2) [of "Suc n" vars x ts]
    by (simp split: list.split token.split del: parseFactor.simps term_loop.simps)
      (intro allI impI conjI refines_after refines_and_then IH)
  moreover have "refines (parseFactor (Suc n) vars ts) (parseFactor (Suc (Suc n)) vars ts)" for ts
    unfolding parseFactor.simps(2) [of n vars ts] parseFactor.simps(2) [of "Suc n" vars ts]
    by (simp split: list.split token.split del: parseFactor.simps parseExpr.simps)
      (intro allI impI conjI refines_after refines_refl IH)
  ultimately show ?case by blast
qed

lemma refines_fuel:
  assumes "\<And>n. refines (f n) (f (Suc n))" and "f m \<noteq> None" and "m \<le> n"
  shows "f n = f m"
  using assms(3)
proof (induction rule: dec_induct)
  case (step i)
  with assms(1) [of i] assms(2) show ?case by (auto simp: refines_def)
qed simp

text \<open>So the result of each method is a function of the tokens alone.\<close>

definition the_expr :: "variables \<Rightarrow> token list \<Rightarrow> parsed" where
  "the_expr vars ts = the (parseExpr (fuel_for ts) vars ts)"

definition the_expr_loop :: "variables \<Rightarrow> formula_value \<Rightarrow> token list \<Rightarrow> parsed" where
  "the_expr_loop vars x ts = the (expr_loop (fuel_for ts) vars x ts)"

definition the_term :: "variables \<Rightarrow> token list \<Rightarrow> parsed" where
  "the_term vars ts = the (parseTerm (fuel_for ts) vars ts)"

definition the_term_loop :: "variables \<Rightarrow> formula_value \<Rightarrow> token list \<Rightarrow> parsed" where
  "the_term_loop vars x ts = the (term_loop (fuel_for ts) vars x ts)"

definition the_factor :: "variables \<Rightarrow> token list \<Rightarrow> parsed" where
  "the_factor vars ts = the (parseFactor (fuel_for ts) vars ts)"

lemma returns_some: "returns b ts r \<Longrightarrow> r \<noteq> None"
  by (cases r) auto

lemma parse_enough:
  assumes "fuel_for ts \<le> n"
  shows "parseExpr n vars ts = Some (the_expr vars ts)"
    and "expr_loop n vars x ts = Some (the_expr_loop vars x ts)"
    and "parseTerm n vars ts = Some (the_term vars ts)"
    and "term_loop n vars x ts = Some (the_term_loop vars x ts)"
    and "parseFactor n vars ts = Some (the_factor vars ts)"
proof -
  note more = refines_fuel [OF _ _ assms]
  have fuel: "3 * length ts + 3 \<le> fuel_for ts" by (simp add: fuel_for_def)
  show "parseExpr n vars ts = Some (the_expr vars ts)"
    using more [of "\<lambda>n. parseExpr n vars ts"] parse_refines returns_some [OF parse_returns(1) [OF fuel]]
    by (simp add: the_expr_def del: parseExpr.simps)
  show "expr_loop n vars x ts = Some (the_expr_loop vars x ts)"
    using more [of "\<lambda>n. expr_loop n vars x ts"] parse_refines returns_some [OF parse_returns(2)] fuel
    by (simp add: the_expr_loop_def del: expr_loop.simps)
  show "parseTerm n vars ts = Some (the_term vars ts)"
    using more [of "\<lambda>n. parseTerm n vars ts"] parse_refines returns_some [OF parse_returns(3)] fuel
    by (simp add: the_term_def del: parseTerm.simps)
  show "term_loop n vars x ts = Some (the_term_loop vars x ts)"
    using more [of "\<lambda>n. term_loop n vars x ts"] parse_refines returns_some [OF parse_returns(4)] fuel
    by (simp add: the_term_loop_def del: term_loop.simps)
  show "parseFactor n vars ts = Some (the_factor vars ts)"
    using more [of "\<lambda>n. parseFactor n vars ts"] parse_refines returns_some [OF parse_returns(5)] fuel
    by (simp add: the_factor_def del: parseFactor.simps)
qed

text \<open>The methods' equations without fuel.\<close>

definition then_do :: "parsed \<Rightarrow> (formula_value \<Rightarrow> token list \<Rightarrow> parsed) \<Rightarrow> parsed" where
  "then_do r k = (case r of Inl e \<Rightarrow> Inl e | Inr (x, ts) \<Rightarrow> k x ts)"

definition continue :: "char \<Rightarrow> formula_value \<Rightarrow> (formula_value \<Rightarrow> token list \<Rightarrow> parsed)
    \<Rightarrow> formula_value \<Rightarrow> token list \<Rightarrow> parsed" where
  "continue c x loop y ts = (case apply_op c x y of Inl e \<Rightarrow> Inl e | Inr z \<Rightarrow> loop z ts)"

lemma then_do_simps [simp]:
  "then_do (Inl e) k = Inl e" "then_do (Inr (x, ts)) k = k x ts"
  by (simp_all add: then_do_def)

lemma then_do_cong:
  "(\<And>x r'. r = Inr (x, r') \<Longrightarrow> k x r' = k' x r') \<Longrightarrow> then_do r k = then_do r k'"
  by (auto simp: then_do_def split: sum.splits)

lemma after_enough:
  assumes "\<And>x r'. p = Inr (x, r') \<Longrightarrow> k x r' = Some (k' x r')"
  shows "after (Some p) k = Some (then_do p k')"
  using assms by (auto simp: after_def then_do_def split: sum.splits)

lemma and_then_enough:
  "(\<And>z. loop z ts = Some (loop' z ts)) \<Longrightarrow> and_then c x loop y ts = Some (continue c x loop' y ts)"
  by (auto simp: and_then_def continue_def split: sum.splits)

lemma the_rest:
  shows "the_expr vars ts = Inr (x, r) \<Longrightarrow> length r < length ts"
    and "the_term vars ts = Inr (x, r) \<Longrightarrow> length r < length ts"
    and "the_factor vars ts = Inr (x, r) \<Longrightarrow> length r < length ts"
  using parse_returns(1,3,5) [of ts "fuel_for ts" vars] parse_enough(1,3,5) [of ts "fuel_for ts" vars]
  by (simp_all add: fuel_for_def)

lemma fuel_for_mono: "length r \<le> length ts \<Longrightarrow> fuel_for r \<le> fuel_for ts"
  by (simp add: fuel_for_def)

lemma the_expr_eq: "the_expr vars ts = then_do (the_term vars ts) (the_expr_loop vars)"
proof -
  have "parseExpr (Suc (fuel_for ts)) vars ts = Some (then_do (the_term vars ts) (the_expr_loop vars))"
    unfolding parseExpr.simps(2) parse_enough(3) [OF order.refl]
    by (rule after_enough, rule parse_enough(2), rule fuel_for_mono) (auto dest: the_rest)
  then show ?thesis using parse_enough(1) [of ts "Suc (fuel_for ts)" vars] by simp
qed

lemma the_term_eq: "the_term vars ts = then_do (the_factor vars ts) (the_term_loop vars)"
proof -
  have "parseTerm (Suc (fuel_for ts)) vars ts = Some (then_do (the_factor vars ts) (the_term_loop vars))"
    unfolding parseTerm.simps(2) parse_enough(5) [OF order.refl]
    by (rule after_enough, rule parse_enough(4), rule fuel_for_mono) (auto dest: the_rest)
  then show ?thesis using parse_enough(3) [of ts "Suc (fuel_for ts)" vars] by simp
qed

lemma the_expr_loop_op:
  assumes "additive c"
  shows "the_expr_loop vars x (TOp c # r) =
    then_do (the_term vars r) (continue c x (the_expr_loop vars))"
proof -
  have fuel: "fuel_for r \<le> fuel_for (TOp c # r)" by (simp add: fuel_for_mono)
  have "after (parseTerm (fuel_for (TOp c # r)) vars r)
      (and_then c x (expr_loop (fuel_for (TOp c # r)) vars)) =
    Some (then_do (the_term vars r) (continue c x (the_expr_loop vars)))"
    unfolding parse_enough(3) [OF fuel]
    by (intro after_enough and_then_enough parse_enough(2) fuel_for_mono) (auto dest: the_rest)
  then show ?thesis
    using parse_enough(2) [of "TOp c # r" "Suc (fuel_for (TOp c # r))" vars x] assms
    by (simp del: parseTerm.simps)
qed

lemma the_term_loop_op:
  assumes "multiplicative c"
  shows "the_term_loop vars x (TOp c # r) =
    then_do (the_factor vars r) (continue c x (the_term_loop vars))"
proof -
  have fuel: "fuel_for r \<le> fuel_for (TOp c # r)" by (simp add: fuel_for_mono)
  have "after (parseFactor (fuel_for (TOp c # r)) vars r)
      (and_then c x (term_loop (fuel_for (TOp c # r)) vars)) =
    Some (then_do (the_factor vars r) (continue c x (the_term_loop vars)))"
    unfolding parse_enough(5) [OF fuel]
    by (intro after_enough and_then_enough parse_enough(4) fuel_for_mono) (auto dest: the_rest)
  then show ?thesis
    using parse_enough(4) [of "TOp c # r" "Suc (fuel_for (TOp c # r))" vars x] assms
    by (simp del: parseFactor.simps)
qed

definition starts_with :: "(char \<Rightarrow> bool) \<Rightarrow> token list \<Rightarrow> bool" where
  "starts_with p ts \<longleftrightarrow> (case ts of TOp c # _ \<Rightarrow> p c | _ \<Rightarrow> False)"

lemma starts_withE: "starts_with p ts \<Longrightarrow> (\<And>c r. ts = TOp c # r \<Longrightarrow> p c \<Longrightarrow> thesis) \<Longrightarrow> thesis"
  by (auto simp: starts_with_def split: list.splits token.splits)

lemma the_expr_loop_stop: "\<not> starts_with additive ts \<Longrightarrow> the_expr_loop vars x ts = Inr (x, ts)"
  using parse_enough(2) [of ts "Suc (fuel_for ts)" vars x]
  by (auto simp: starts_with_def split: list.splits token.splits)

lemma the_term_loop_stop: "\<not> starts_with multiplicative ts \<Longrightarrow> the_term_loop vars x ts = Inr (x, ts)"
  using parse_enough(4) [of ts "Suc (fuel_for ts)" vars x]
  by (auto simp: starts_with_def split: list.splits token.splits)

lemma the_factor_unfold: "the_factor vars ts = the (parseFactor (Suc (fuel_for ts)) vars ts)"
  using parse_enough(5) [of ts "Suc (fuel_for ts)" vars] by simp

lemma the_factor_simps:
  shows "the_factor vars [] = Inl (PlainError (msg ''Unexpected end of expression''))"
    and "the_factor vars (TNum n # r) = Inr (IsNumber n, r)"
    and "the_factor vars (TId v # r) = (case lookup v vars of Inl e \<Rightarrow> Inl e | Inr x \<Rightarrow> Inr (x, r))"
    and "c \<noteq> CHR ''-'' \<Longrightarrow> c \<noteq> CHR ''('' \<Longrightarrow> the_factor vars (TOp c # r) = Inl (unexpected_token (TOp c))"
  by (simp_all add: the_factor_unfold split: sum.split)

definition close_bracket :: "formula_value \<Rightarrow> token list \<Rightarrow> parsed" where
  "close_bracket y ts = the (close_paren y ts)"

lemma close_paren_some: "close_paren y ts = Some (close_bracket y ts)"
  by (auto simp: close_bracket_def close_paren_def split: list.splits token.splits)

lemma the_factor_minus:
  "the_factor vars (TOp CHR ''-'' # r) = then_do (the_factor vars r) (\<lambda>y r'. Inr (negate y, r'))"
proof -
  have fuel: "fuel_for r \<le> fuel_for (TOp CHR ''-'' # r)" by (simp add: fuel_for_mono)
  have "after (parseFactor (fuel_for (TOp CHR ''-'' # r)) vars r) (\<lambda>y r'. Some (Inr (negate y, r'))) =
    Some (then_do (the_factor vars r) (\<lambda>y r'. Inr (negate y, r')))"
    unfolding parse_enough(5) [OF fuel] by (intro after_enough) simp
  then show ?thesis
    using parse_enough(5) [of "TOp CHR ''-'' # r" "Suc (fuel_for (TOp CHR ''-'' # r))" vars] by simp
qed

lemma the_factor_paren:
  "the_factor vars (TOp CHR ''('' # r) = then_do (the_expr vars r) close_bracket"
proof -
  have fuel: "fuel_for r \<le> fuel_for (TOp CHR ''('' # r)" by (simp add: fuel_for_mono)
  have "after (parseExpr (fuel_for (TOp CHR ''('' # r)) vars r) close_paren =
    Some (then_do (the_expr vars r) close_bracket)"
    unfolding parse_enough(1) [OF fuel] by (intro after_enough close_paren_some)
  then show ?thesis
    using parse_enough(5) [of "TOp CHR ''('' # r" "Suc (fuel_for (TOp CHR ''('' # r))" vars]
    by (simp del: parseExpr.simps)
qed

subsection \<open>The grammar and the value of an expression\<close>

datatype fexpr = Lit number | Var string | Neg fexpr | Bin char fexpr fexpr

fun denote :: "variables \<Rightarrow> fexpr \<Rightarrow> app_error + formula_value" where
  "denote vars (Lit n) = Inr (IsNumber n)"
| "denote vars (Var x) = lookup x vars"
| "denote vars (Neg e) = (case denote vars e of Inl err \<Rightarrow> Inl err | Inr x \<Rightarrow> Inr (negate x))"
| "denote vars (Bin c a b) =
     (case denote vars a of
        Inl err \<Rightarrow> Inl err
      | Inr x \<Rightarrow> (case denote vars b of Inl err \<Rightarrow> Inl err | Inr y \<Rightarrow> apply_op c x y))"

inductive is_expr :: "token list \<Rightarrow> fexpr \<Rightarrow> bool"
  and is_term :: "token list \<Rightarrow> fexpr \<Rightarrow> bool"
  and is_factor :: "token list \<Rightarrow> fexpr \<Rightarrow> bool" where
  expr_term: "is_term ts e \<Longrightarrow> is_expr ts e"
| expr_op: "is_expr ts a \<Longrightarrow> additive c \<Longrightarrow> is_term us b \<Longrightarrow> is_expr (ts @ TOp c # us) (Bin c a b)"
| term_factor: "is_factor ts e \<Longrightarrow> is_term ts e"
| term_op: "is_term ts a \<Longrightarrow> multiplicative c \<Longrightarrow> is_factor us b \<Longrightarrow> is_term (ts @ TOp c # us) (Bin c a b)"
| factor_num: "is_factor [TNum n] (Lit n)"
| factor_var: "is_factor [TId x] (Var x)"
| factor_neg: "is_factor ts e \<Longrightarrow> is_factor (TOp CHR ''-'' # ts) (Neg e)"
| factor_paren: "is_expr ts e \<Longrightarrow> is_factor (TOp CHR ''('' # ts @ [TOp CHR '')'']) e"

text \<open>\<open>yields vars e rest k\<close>: the value of \<open>e\<close> handed to \<open>k\<close> with the tokens that are left.\<close>

definition yields :: "variables \<Rightarrow> fexpr \<Rightarrow> token list \<Rightarrow> (formula_value \<Rightarrow> token list \<Rightarrow> parsed) \<Rightarrow> parsed" where
  "yields vars e rest k = (case denote vars e of Inl err \<Rightarrow> Inl err | Inr x \<Rightarrow> k x rest)"

lemma then_do_yields:
  "then_do (yields vars e rest k) k' = yields vars e rest (\<lambda>x r. then_do (k x r) k')"
  by (simp add: yields_def split: sum.split)

lemma not_starts_with [simp]: "\<not> starts_with p []" "starts_with p (TOp c # r) = p c"
  by (simp_all add: starts_with_def)

lemma grammar_complete:
  shows "is_expr ts e \<Longrightarrow> \<forall>rest. \<not> starts_with multiplicative rest \<longrightarrow>
      the_expr vars (ts @ rest) = yields vars e rest (the_expr_loop vars)"
    and "is_term ts e \<Longrightarrow> \<forall>rest. the_term vars (ts @ rest) = yields vars e rest (the_term_loop vars)"
    and "is_factor ts e \<Longrightarrow> \<forall>rest. the_factor vars (ts @ rest) = yields vars e rest (\<lambda>x r. Inr (x, r))"
proof (induction rule: is_expr_is_term_is_factor.inducts)
  case (expr_term ts e)
  show ?case
  proof (intro allI impI)
    fix rest assume rest: "\<not> starts_with multiplicative rest"
    have "the_expr vars (ts @ rest) = yields vars e rest (\<lambda>x r. then_do (the_term_loop vars x r) (the_expr_loop vars))"
      by (simp add: the_expr_eq expr_term then_do_yields)
    also have "\<dots> = yields vars e rest (the_expr_loop vars)"
      by (simp add: yields_def the_term_loop_stop [OF rest] split: sum.split)
    finally show "the_expr vars (ts @ rest) = yields vars e rest (the_expr_loop vars)" .
  qed
next
  case (expr_op ts a c us b)
  show ?case
  proof (intro allI impI)
    fix rest assume rest: "\<not> starts_with multiplicative rest"
    have "\<not> starts_with multiplicative (TOp c # us @ rest)" using expr_op.hyps by auto
    with expr_op.IH(1) have "the_expr vars ((ts @ TOp c # us) @ rest) =
        yields vars a (TOp c # us @ rest) (the_expr_loop vars)" by simp
    also have "\<dots> = yields vars (Bin c a b) rest (the_expr_loop vars)"
      using expr_op.IH(2)
      by (auto simp: yields_def the_expr_loop_op [OF expr_op.hyps(2)] continue_def
          the_term_loop_stop [OF rest] split: sum.split)
    finally show "the_expr vars ((ts @ TOp c # us) @ rest) = yields vars (Bin c a b) rest (the_expr_loop vars)" .
  qed
next
  case (term_factor ts e)
  then show ?case by (simp add: the_term_eq then_do_yields)
next
  case (term_op ts a c us b)
  then show ?case
    by (auto simp: yields_def the_term_loop_op [OF term_op.hyps(2)] continue_def split: sum.split)
next
  case (factor_num n)
  then show ?case by (simp add: yields_def the_factor_simps)
next
  case (factor_var x)
  then show ?case by (simp add: yields_def the_factor_simps)
next
  case (factor_neg ts e)
  then show ?case by (auto simp: yields_def the_factor_minus split: sum.split)
next
  case (factor_paren ts e)
  then show ?case
    by (auto simp: yields_def the_factor_paren the_expr_loop_stop close_bracket_def close_paren_def
        split: sum.split)
qed

text \<open>Conversely, whatever a method returns comes from a prefix the grammar derives.\<close>

lemma continueE:
  assumes "then_do r (continue c x loop) = Inr (z, rest)"
  obtains y r' w where "r = Inr (y, r')" "apply_op c x y = Inr w" "loop w r' = Inr (z, rest)"
  using assms by (auto simp: then_do_def continue_def split: sum.splits)

lemma then_doE:
  assumes "then_do r k = Inr (z, rest)"
  obtains y r' where "r = Inr (y, r')" "k y r' = Inr (z, rest)"
  using assms by (auto simp: then_do_def split: sum.splits)

definition derives :: "(token list \<Rightarrow> fexpr \<Rightarrow> bool) \<Rightarrow> variables \<Rightarrow> token list \<Rightarrow> formula_value \<Rightarrow> token list \<Rightarrow> bool" where
  "derives g vars ts x rest \<longleftrightarrow> (\<exists>us e. ts = us @ rest \<and> g us e \<and> denote vars e = Inr x)"

lemma derivesI: "ts = us @ rest \<Longrightarrow> g us e \<Longrightarrow> denote vars e = Inr x \<Longrightarrow> derives g vars ts x rest"
  by (auto simp: derives_def)

lemma grammar_sound:
  "(\<forall>x r. the_factor vars ts = Inr (x, r) \<longrightarrow> derives is_factor vars ts x r) \<and>
   (\<forall>x y r us e. the_term_loop vars x ts = Inr (y, r) \<longrightarrow> is_term us e \<longrightarrow> denote vars e = Inr x \<longrightarrow>
      derives is_term vars (us @ ts) y r) \<and>
   (\<forall>x r. the_term vars ts = Inr (x, r) \<longrightarrow> derives is_term vars ts x r) \<and>
   (\<forall>x y r us e. the_expr_loop vars x ts = Inr (y, r) \<longrightarrow> is_expr us e \<longrightarrow> denote vars e = Inr x \<longrightarrow>
      derives is_expr vars (us @ ts) y r) \<and>
   (\<forall>x r. the_expr vars ts = Inr (x, r) \<longrightarrow> derives is_expr vars ts x r)"
proof (induction ts rule: length_induct)
  case (1 ts)
  note shorter = 1 [rule_format]
  have shorter_term_loop: "derives is_term vars (us @ rs) y r"
    if "length rs < length ts" "the_term_loop vars x rs = Inr (y, r)" "is_term us e" "denote vars e = Inr x"
    for x y r rs us e
    using shorter [OF that(1)] that(2-4) by blast
  have shorter_expr_loop: "derives is_expr vars (us @ rs) y r"
    if "length rs < length ts" "the_expr_loop vars x rs = Inr (y, r)" "is_expr us e" "denote vars e = Inr x"
    for x y r rs us e
    using shorter [OF that(1)] that(2-4) by blast
  have factor: "derives is_factor vars ts x r" if run: "the_factor vars ts = Inr (x, r)" for x r
  proof (cases "\<exists>c rs. ts = TOp c # rs")
    case True
    then obtain c rs where ts: "ts = TOp c # rs" by blast
    with run have "c = CHR ''-'' \<or> c = CHR ''(''"
      using the_factor_simps(4) by fastforce
    then show ?thesis
    proof
      assume c: "c = CHR ''-''"
      with run ts obtain y where "the_factor vars rs = Inr (y, r)" and x: "x = negate y"
        by (auto simp: the_factor_minus elim: then_doE)
      with shorter [of rs] ts obtain us e where "rs = us @ r" "is_factor us e" "denote vars e = Inr y"
        by (auto simp: derives_def)
      then show ?thesis
        using ts c x by (intro derivesI [of _ "TOp c # us" _ _ "Neg e"]) (auto intro: factor_neg)
    next
      assume c: "c = CHR ''(''"
      with run ts obtain y r' where "the_expr vars rs = Inr (y, r')" and "close_bracket y r' = Inr (x, r)"
        by (auto simp: the_factor_paren elim: then_doE)
      then have inner: "the_expr vars rs = Inr (x, TOp CHR '')'' # r)"
        by (auto simp: close_bracket_def close_paren_def split: list.splits token.splits if_splits)
      with shorter [of rs] ts obtain us e where "rs = us @ TOp CHR '')'' # r" "is_expr us e" "denote vars e = Inr x"
        by (auto simp: derives_def)
      then show ?thesis
        using ts c by (intro derivesI [of _ "TOp c # us @ [TOp CHR '')'']" _ _ e]) (auto intro: factor_paren)
    qed
  next
    case False
    then consider "ts = []" | n rs where "ts = TNum n # rs" | v rs where "ts = TId v # rs"
      by (cases ts rule: list.exhaust) (metis token.exhaust)+
    then show ?thesis
    proof cases
      case 1
      with run show ?thesis by (simp add: the_factor_simps)
    next
      case (2 n rs)
      with run show ?thesis
        by (intro derivesI [of _ "[TNum n]" _ _ "Lit n"]) (auto simp: the_factor_simps intro: factor_num)
    next
      case (3 v rs)
      with run show ?thesis
        by (intro derivesI [of _ "[TId v]" _ _ "Var v"])
          (auto simp: the_factor_simps intro: factor_var split: sum.splits)
    qed
  qed
  have term_loop: "derives is_term vars (us @ ts) y r"
    if run: "the_term_loop vars x ts = Inr (y, r)" and us: "is_term us e" "denote vars e = Inr x" for x y r us e
  proof (cases "starts_with multiplicative ts")
    case True
    then obtain c rs where ts: "ts = TOp c # rs" and c: "multiplicative c" by (rule starts_withE)
    from run obtain z r' w where rhs: "the_factor vars rs = Inr (z, r')" and op: "apply_op c x z = Inr w"
      and rest: "the_term_loop vars w r' = Inr (y, r)"
      unfolding ts the_term_loop_op [OF c] by (rule continueE)
    from shorter [of rs] rhs ts obtain vs b where b: "rs = vs @ r'" "is_factor vs b" "denote vars b = Inr z"
      by (auto simp: derives_def)
    have sentence: "is_term (us @ TOp c # vs) (Bin c e b)" using us(1) c b(2) by (rule term_op)
    have "value": "denote vars (Bin c e b) = Inr w" using us(2) b(3) op by simp
    have "length r' < length ts" using the_rest(3) [OF rhs] ts by simp
    then have "derives is_term vars ((us @ TOp c # vs) @ r') y r"
      using rest sentence "value" by (rule shorter_term_loop)
    then show ?thesis using ts b(1) by simp
  next
    case False
    with run us show ?thesis by (auto simp: the_term_loop_stop derives_def)
  qed
  have "term": "derives is_term vars ts x r" if "the_term vars ts = Inr (x, r)" for x r
  proof -
    from that obtain y r' where y: "the_factor vars ts = Inr (y, r')" "the_term_loop vars y r' = Inr (x, r)"
      unfolding the_term_eq by (rule then_doE)
    from factor [OF y(1)] obtain us e where "ts = us @ r'" "is_factor us e" "denote vars e = Inr y"
      by (auto simp: derives_def)
    then show ?thesis
      using shorter_term_loop [OF the_rest(3) [OF y(1)] y(2)] by (auto intro: term_factor)
  qed
  have expr_loop: "derives is_expr vars (us @ ts) y r"
    if run: "the_expr_loop vars x ts = Inr (y, r)" and us: "is_expr us e" "denote vars e = Inr x" for x y r us e
  proof (cases "starts_with additive ts")
    case True
    then obtain c rs where ts: "ts = TOp c # rs" and c: "additive c" by (rule starts_withE)
    from run obtain z r' w where rhs: "the_term vars rs = Inr (z, r')" and op: "apply_op c x z = Inr w"
      and rest: "the_expr_loop vars w r' = Inr (y, r)"
      unfolding ts the_expr_loop_op [OF c] by (rule continueE)
    from shorter [of rs] rhs ts obtain vs b where b: "rs = vs @ r'" "is_term vs b" "denote vars b = Inr z"
      by (auto simp: derives_def)
    have sentence: "is_expr (us @ TOp c # vs) (Bin c e b)" using us(1) c b(2) by (rule expr_op)
    have "value": "denote vars (Bin c e b) = Inr w" using us(2) b(3) op by simp
    have "length r' < length ts" using the_rest(2) [OF rhs] ts by simp
    then have "derives is_expr vars ((us @ TOp c # vs) @ r') y r"
      using rest sentence "value" by (rule shorter_expr_loop)
    then show ?thesis using ts b(1) by simp
  next
    case False
    with run us show ?thesis by (auto simp: the_expr_loop_stop derives_def)
  qed
  have expr: "derives is_expr vars ts x r" if "the_expr vars ts = Inr (x, r)" for x r
  proof -
    from that obtain y r' where y: "the_term vars ts = Inr (y, r')" "the_expr_loop vars y r' = Inr (x, r)"
      unfolding the_expr_eq by (rule then_doE)
    from "term" [OF y(1)] obtain us e where "ts = us @ r'" "is_term us e" "denote vars e = Inr y"
      by (auto simp: derives_def)
    then show ?thesis
      using shorter_expr_loop [OF the_rest(2) [OF y(1)] y(2)] by (auto intro: expr_term)
  qed
  show ?case using factor term_loop "term" expr_loop expr by blast
qed

lemma evaluate_eq:
  "evaluate vars ts =
     (case the_expr vars ts of
        Inl e \<Rightarrow> Some (Inl e)
      | Inr (x, []) \<Rightarrow> Some (Inr x)
      | Inr (x, t # rest) \<Rightarrow>
          Some (Inl (PlainError
            [Str ''Unexpected token near position '', Num (of_nat (length ts - Suc (length rest)))])))"
  by (simp add: evaluate_def parse_enough(1) split: sum.split list.split prod.split)

lemma evaluate_total: "evaluate vars ts \<noteq> None"
  by (simp add: evaluate_eq split: sum.split list.split prod.split)

lemma evaluate_sentence: "is_expr ts e \<Longrightarrow> evaluate vars ts = Some (denote vars e)"
  using grammar_complete(1) [of ts e vars, rule_format, of "[]"]
  by (auto simp: evaluate_eq yields_def the_expr_loop_stop split: sum.splits)

lemma evaluate_value: "evaluate vars ts = Some (Inr x) \<Longrightarrow> \<exists>e. is_expr ts e \<and> denote vars e = Inr x"
  using grammar_sound [of vars ts]
  by (auto simp: evaluate_eq derives_def split: sum.splits list.splits)

text \<open>C32 The evaluator is the grammar: it returns on every token list, it returns the value
  \<open>x\<close> exactly when the tokens are a sentence of the grammar whose expression has the value
  \<open>x\<close>, and on a sentence it fails exactly when the expression's own evaluation fails, with
  that error.\<close>

theorem evaluator_implements_grammar:
  "evaluate vars ts \<noteq> None \<and>
   (evaluate vars ts = Some (Inr x) \<longleftrightarrow> (\<exists>e. is_expr ts e \<and> denote vars e = Inr x)) \<and>
   (\<forall>e. is_expr ts e \<longrightarrow> evaluate vars ts = Some (denote vars e))"
  using evaluate_total evaluate_sentence evaluate_value by fastforce

lemma example_sentence:
  "is_expr [TNum 2, TOp CHR ''+'', TNum 3, TOp CHR ''*'', TOp CHR ''-'', TId ''h'']
     (Bin CHR ''+'' (Lit 2) (Bin CHR ''*'' (Lit 3) (Neg (Var ''h''))))"
proof -
  have "is_term ([TNum 3] @ TOp CHR ''*'' # [TOp CHR ''-'', TId ''h''])
      (Bin CHR ''*'' (Lit 3) (Neg (Var ''h'')))"
    by (intro term_op term_factor factor_num factor_neg factor_var) simp
  from expr_op [OF expr_term [OF term_factor [OF factor_num [of 2]]] _ this, of "CHR ''+''"]
  show ?thesis by simp
qed

theorem evaluator_implements_grammar_witness:
  "evaluate [(''h'', 5)] [TNum 2, TOp CHR ''+'', TNum 3, TOp CHR ''*'', TOp CHR ''-'', TId ''h'']
     = Some (Inr (IsNumber (- 13)))"
  using evaluator_implements_grammar [of "[(''h'', 5)]"
      "[TNum 2, TOp CHR ''+'', TNum 3, TOp CHR ''*'', TOp CHR ''-'', TId ''h'']"] example_sentence
  by (fastforce simp: lookup_def has_property_def property_value_def apply_op_def)

subsection \<open>A validated formula evaluates\<close>

lemma apply_op_defined: "apply_op c x y = Inl division_by_zero \<or> (\<exists>b. apply_op c x y = Inr b)"
  by (simp add: apply_op_def divide_values_def)

lemma denote_defined:
  assumes "\<And>x. has_property x vars \<Longrightarrow> has_property x vars'" and "denote vars e = Inr a"
  shows "denote vars' e = Inl division_by_zero \<or> (\<exists>b. denote vars' e = Inr b)"
  using assms(2)
proof (induction e arbitrary: a)
  case (Var x)
  then show ?case using assms(1) [of x] by (auto simp: lookup_def split: if_splits)
next
  case (Bin c e1 e2)
  from Bin.prems obtain x y where "denote vars e1 = Inr x" "denote vars e2 = Inr y"
    by (auto split: sum.splits)
  with Bin.IH have "denote vars' e1 = Inl division_by_zero \<or> (\<exists>b. denote vars' e1 = Inr b)"
    "denote vars' e2 = Inl division_by_zero \<or> (\<exists>b. denote vars' e2 = Inr b)" by blast+
  then show ?case by (elim disjE exE) (simp_all add: apply_op_defined)
next
  case (Neg e)
  then show ?case by (fastforce split: sum.splits)
qed simp

lemma evaluateFormula_value:
  assumes "evaluateFormula f vars = Some (Inr a)"
    and "\<And>x. has_property x vars \<Longrightarrow> has_property x vars'"
  shows "evaluateFormula f vars' = Some (Inl division_by_zero) \<or>
    (\<exists>b. evaluateFormula f vars' = Some (Inr b))"
proof -
  from assms(1) obtain ts where ts: "tokenize f = Inr ts" "ts \<noteq> []" and run: "evaluate vars ts = Some (Inr a)"
    by (auto simp: evaluateFormula_def split: sum.splits list.splits)
  from evaluate_value [OF run] obtain e where e: "is_expr ts e" "denote vars e = Inr a" by blast
  have "evaluateFormula f vars' = Some (denote vars' e)"
    using ts evaluate_sentence [OF e(1), of vars']
    by (cases ts) (simp_all add: evaluateFormula_def)
  then show ?thesis using denote_defined [OF assms(2) e(2)] by auto
qed

lemma has_dummy: "has_property x (map (\<lambda>p. (p, 1)) params) \<longleftrightarrow> x \<in> set params \<or> x \<in> set inherited_names"
  by (auto simp: has_property_def map_of_eq_None_iff image_iff dest: map_of_SomeD)



text \<open>Two formulas the check treats wrongly: a name every JavaScript object has passes as if it
  were a parameter, and its value is not a number; a quotient that is undefined only when both
  parameters are equal is refused, since the check tries the value 1 for all of them.\<close>

lemma inherited_name_passes:
  "validateFormula ''2 * constructor'' [] = Some (Inr ()) \<and>
   evaluateFormula ''2 * constructor'' [] = Some (Inr NotNumber)"
  by code_simp

lemma valid_quotient_refused:
  "validateFormula ''volume / (a - b)'' [''volume'', ''a'', ''b''] =
     Some (Inl (BadRequestException [Str ''Invalid formula: '', Str ''Division by zero''])) \<and>
   evaluateFormula ''volume / (a - b)'' [(''volume'', 6), (''a'', 3), (''b'', 1)] = Some (Inr (IsNumber 3))"
  by code_simp

end
