(* ===== verification/Estimate_Calc.thy ===== *)
theory Estimate_Calc
  imports Prelude
begin

section \<open>The estimate calculation engine\<close>

text \<open>
  \<open>estimates/estimate-calc.ts\<close> (priced lines, totals and the material list),
  \<open>tiered-markup.ts\<close> and \<open>change-order-profitability.ts\<close>. An object indexed by id is a partial
  function; the \<open>Map\<close> of requirement totals is the list of its entries in insertion order. The
  rounding is at the end, on every figure separately: the figures of an estimate add up only to
  the cent (\<open>printed_total_near\<close>).
\<close>

subsection \<open>Pricing\<close>

record norm =
  nm_materialId :: uid
  nm_quantityPerUnit :: number
  nm_wasteFactorPercent :: number

record rate_calc =
  rc_id :: uid
  rc_laborHoursPerUnit :: number
  rc_materials :: "norm list"

record material_price =
  mp_unitPrice :: number
  mp_unit :: string

record line_input =
  li_id :: uid
  li_rateItemId :: uid
  li_quantity :: number

record calc_options =
  co_laborRatePerHour :: number
  co_markupPercent :: number
  co_taxPercent :: number

record line_result =
  lr_id :: uid
  lr_materialsCost :: number
  lr_laborCost :: number
  lr_lineTotal :: number

record requirement =
  rq_materialId :: uid
  rq_quantity :: number
  rq_unit :: string

record cost_totals =
  tt_materialsCost :: number
  tt_laborCost :: number
  tt_subtotal :: number
  tt_markup :: number
  tt_tax :: number
  tt_grandTotal :: number

record calc_result =
  cr_lines :: "line_result list"
  cr_totals :: cost_totals
  cr_requirements :: "requirement list"

definition zero_totals :: cost_totals where
  "zero_totals = \<lparr>tt_materialsCost = 0, tt_laborCost = 0, tt_subtotal = 0, tt_markup = 0, tt_tax = 0,
     tt_grandTotal = 0\<rparr>"

fun add_total :: "uid \<Rightarrow> number \<Rightarrow> (uid \<times> number) list \<Rightarrow> (uid \<times> number) list" where
  "add_total k q [] = [(k, q)]"
| "add_total k q ((k', q') # rest) =
     (if k = k' then (k', q' + q) # rest else (k', q') # add_total k q rest)"

definition required_quantity :: "number \<Rightarrow> norm \<Rightarrow> number" where
  "required_quantity quantity n =
     quantity * nm_quantityPerUnit n * (1 + nm_wasteFactorPercent n / 100)"

fun material_loop :: "(uid \<Rightarrow> material_price option) \<Rightarrow> number \<Rightarrow> norm list \<Rightarrow> number \<Rightarrow> (uid \<times> number) list
    \<Rightarrow> app_error + number \<times> (uid \<times> number) list" where
  "material_loop prices quantity [] cost totals = Inr (cost, totals)"
| "material_loop prices quantity (n # ns) cost totals =
     (case prices (nm_materialId n) of
        None \<Rightarrow> Inl (PlainError [Str ''Unknown material catalog item: '', Num (of_nat (nm_materialId n))])
      | Some price \<Rightarrow>
          (let requiredQty = required_quantity quantity n
           in material_loop prices quantity ns (cost + requiredQty * mp_unitPrice price)
                (add_total (nm_materialId n) requiredQty totals)))"

record calc_state =
  cs_lines :: "line_result list"
  cs_totals :: "(uid \<times> number) list"
  cs_materialsCost :: number
  cs_laborCost :: number

definition price_line :: "(uid \<Rightarrow> rate_calc option) \<Rightarrow> (uid \<Rightarrow> material_price option) \<Rightarrow> calc_options
    \<Rightarrow> line_input \<Rightarrow> calc_state \<Rightarrow> app_error + calc_state" where
  "price_line rates prices opts l s =
     (case rates (li_rateItemId l) of
        None \<Rightarrow> Inl (PlainError [Str ''Unknown rate catalog item: '', Num (of_nat (li_rateItemId l))])
      | Some item \<Rightarrow>
          (case material_loop prices (li_quantity l) (rc_materials item) 0 (cs_totals s) of
             Inl e \<Rightarrow> Inl e
           | Inr (lineMaterialsCost, totals) \<Rightarrow>
               (let lineLaborCost = li_quantity l * rc_laborHoursPerUnit item * co_laborRatePerHour opts
                in Inr \<lparr>cs_lines = cs_lines s @ [\<lparr>lr_id = li_id l,
                          lr_materialsCost = round2 lineMaterialsCost,
                          lr_laborCost = round2 lineLaborCost,
                          lr_lineTotal = round2 (lineMaterialsCost + lineLaborCost)\<rparr>],
                        cs_totals = totals,
                        cs_materialsCost = cs_materialsCost s + lineMaterialsCost,
                        cs_laborCost = cs_laborCost s + lineLaborCost\<rparr>)))"

definition round_totals :: "number \<Rightarrow> number \<Rightarrow> calc_options \<Rightarrow> cost_totals" where
  "round_totals materials labor opts =
     (let subtotal = materials + labor;
          markupAmount = subtotal * (co_markupPercent opts / 100);
          taxAmount = (subtotal + markupAmount) * (co_taxPercent opts / 100);
          grandTotal = subtotal + markupAmount + taxAmount
      in \<lparr>tt_materialsCost = round2 materials, tt_laborCost = round2 labor, tt_subtotal = round2 subtotal,
          tt_markup = round2 markupAmount, tt_tax = round2 taxAmount, tt_grandTotal = round2 grandTotal\<rparr>)"

definition calculateEstimate :: "line_input list \<Rightarrow> (uid \<Rightarrow> rate_calc option) \<Rightarrow> (uid \<Rightarrow> material_price option)
    \<Rightarrow> calc_options \<Rightarrow> app_error + calc_result" where
  "calculateEstimate lines rates prices opts =
     (case fold_res (price_line rates prices opts) lines
             \<lparr>cs_lines = [], cs_totals = [], cs_materialsCost = 0, cs_laborCost = 0\<rparr> of
        Inl e \<Rightarrow> Inl e
      | Inr s \<Rightarrow>
          Inr \<lparr>cr_lines = cs_lines s,
               cr_totals = round_totals (cs_materialsCost s) (cs_laborCost s) opts,
               cr_requirements = map (\<lambda>(m, q). \<lparr>rq_materialId = m, rq_quantity = round2 q,
                 rq_unit = (case prices m of None \<Rightarrow> [] | Some p \<Rightarrow> mp_unit p)\<rparr>) (cs_totals s)\<rparr>)"

subsection \<open>Tiered markup\<close>

datatype cost_type = Materials_cost | Labor_cost

definition rule_percent :: "cost_type \<Rightarrow> (cost_type \<times> number) list \<Rightarrow> number \<Rightarrow> number" where
  "rule_percent t rules fallback = (case map_of rules t of None \<Rightarrow> fallback | Some p \<Rightarrow> p)"

definition calculateTieredMarkup :: "number \<Rightarrow> number \<Rightarrow> number \<Rightarrow> (cost_type \<times> number) list \<Rightarrow> number" where
  "calculateTieredMarkup materialsCostTotal laborCostTotal fallback rules =
     round2 (materialsCostTotal * (rule_percent Materials_cost rules fallback / 100) +
             laborCostTotal * (rule_percent Labor_cost rules fallback / 100))"

subsection \<open>Profitability of change orders\<close>

record profit_input =
  pf_materialsCost :: number
  pf_laborCost :: number
  pf_grandTotal :: number

record profit_row =
  pr_cost :: number
  pr_revenue :: number
  pr_margin :: number
  pr_marginPercent :: "number option"

definition toRow :: "profit_input \<Rightarrow> profit_row" where
  "toRow i =
     (let cost = pf_materialsCost i + pf_laborCost i;
          revenue = pf_grandTotal i;
          margin = revenue - cost
      in \<lparr>pr_cost = round2 cost, pr_revenue = round2 revenue, pr_margin = round2 margin,
          pr_marginPercent = (if 0 < revenue then Some (round2 (margin / revenue * 100)) else None)\<rparr>)"

definition sumRows :: "profit_input list \<Rightarrow> profit_row" where
  "sumRows rows = toRow \<lparr>pf_materialsCost = sum_list (map pf_materialsCost rows),
     pf_laborCost = sum_list (map pf_laborCost rows), pf_grandTotal = sum_list (map pf_grandTotal rows)\<rparr>"

record profit_report =
  rp_baseContract :: profit_row
  rp_changeOrders :: "(uid \<times> nat \<times> string \<times> profit_row) list"
  rp_changeOrdersTotal :: profit_row
  rp_combined :: profit_row

definition calculateChangeOrderProfitability ::
  "profit_input \<Rightarrow> (uid \<times> nat \<times> string \<times> profit_input) list \<Rightarrow> profit_report" where
  "calculateChangeOrderProfitability base orders =
     \<lparr>rp_baseContract = toRow base,
      rp_changeOrders = map (\<lambda>(i, n, title, p). (i, n, title, toRow p)) orders,
      rp_changeOrdersTotal = sumRows (map (\<lambda>(_, _, _, p). p) orders),
      rp_combined = sumRows (base # map (\<lambda>(_, _, _, p). p) orders)\<rparr>"

subsection \<open>What the engine computes\<close>

text \<open>The demands of a list of lines: every norm of every line's rate item, with its material and
  quantity.\<close>

definition demands :: "(uid \<Rightarrow> rate_calc option) \<Rightarrow> line_input list \<Rightarrow> (uid \<times> number) list" where
  "demands rates lines = concat (map (\<lambda>l. map (\<lambda>n. (nm_materialId n, required_quantity (li_quantity l) n))
     (case rates (li_rateItemId l) of None \<Rightarrow> [] | Some item \<Rightarrow> rc_materials item)) lines)"

definition materials_cost :: "(uid \<Rightarrow> material_price option) \<Rightarrow> (uid \<times> number) list \<Rightarrow> number" where
  "materials_cost prices ds =
     (\<Sum>(m, q) \<leftarrow> ds. q * (case prices m of None \<Rightarrow> 0 | Some p \<Rightarrow> mp_unitPrice p))"

definition labor_cost :: "(uid \<Rightarrow> rate_calc option) \<Rightarrow> calc_options \<Rightarrow> line_input list \<Rightarrow> number" where
  "labor_cost rates opts lines =
     (\<Sum>l \<leftarrow> lines. case rates (li_rateItemId l) of None \<Rightarrow> 0
        | Some item \<Rightarrow> li_quantity l * rc_laborHoursPerUnit item * co_laborRatePerHour opts)"

definition demand_of :: "uid \<Rightarrow> (uid \<times> number) list \<Rightarrow> number" where
  "demand_of m ds = (\<Sum>(k, q) \<leftarrow> ds. if k = m then q else 0)"

definition priceable :: "(uid \<Rightarrow> rate_calc option) \<Rightarrow> (uid \<Rightarrow> material_price option) \<Rightarrow> line_input \<Rightarrow> bool" where
  "priceable rates prices l =
     (case rates (li_rateItemId l) of None \<Rightarrow> False
      | Some item \<Rightarrow> list_all (\<lambda>n. prices (nm_materialId n) \<noteq> None) (rc_materials item))"

lemma demands_simps [simp]:
  "demands rates [] = []"
  "demands rates (l # ls) = map (\<lambda>n. (nm_materialId n, required_quantity (li_quantity l) n))
     (case rates (li_rateItemId l) of None \<Rightarrow> [] | Some item \<Rightarrow> rc_materials item) @ demands rates ls"
  by (simp_all add: demands_def)

lemma materials_cost_simps [simp]:
  "materials_cost prices [] = 0"
  "materials_cost prices ((m, q) # ds) =
     q * (case prices m of None \<Rightarrow> 0 | Some p \<Rightarrow> mp_unitPrice p) + materials_cost prices ds"
  "materials_cost prices (ds @ es) = materials_cost prices ds + materials_cost prices es"
  by (simp_all add: materials_cost_def)

lemma demand_of_simps [simp]:
  "demand_of m [] = 0"
  "demand_of m ((k, q) # ds) = (if k = m then q else 0) + demand_of m ds"
  "demand_of m (ds @ es) = demand_of m ds + demand_of m es"
  by (simp_all add: demand_of_def)

lemma add_total_keys: "set (map fst (add_total k q ts)) = insert k (set (map fst ts))"
  by (induction k q ts rule: add_total.induct) auto

lemma add_total_distinct: "distinct (map fst ts) \<Longrightarrow> distinct (map fst (add_total k q ts))"
proof (induction k q ts rule: add_total.induct)
  case (2 k q k' q' rest)
  then show ?case using add_total_keys [of k q rest] by auto
qed simp

lemma add_total_demand: "demand_of m (add_total k q ts) = demand_of m ts + (if m = k then q else 0)"
  by (induction k q ts rule: add_total.induct) auto

lemma demand_of_entry: "distinct (map fst ts) \<Longrightarrow> (m, q) \<in> set ts \<Longrightarrow> demand_of m ts = q"
proof (induction ts)
  case (Cons t ts)
  have "m \<notin> set (map fst us) \<Longrightarrow> demand_of m us = 0" for us :: "(uid \<times> number) list"
    by (induction us) auto
  with Cons show ?case by (cases t) (auto simp: image_iff)
qed simp

text \<open>\<open>totals_for ts ds\<close>: the totals are the sums of the demands, one entry for each material.\<close>

definition totals_for :: "(uid \<times> number) list \<Rightarrow> (uid \<times> number) list \<Rightarrow> bool" where
  "totals_for ts ds \<longleftrightarrow> distinct (map fst ts) \<and> set (map fst ts) = set (map fst ds) \<and>
     (\<forall>m. demand_of m ts = demand_of m ds)"

lemma material_loop_ok:
  assumes "material_loop prices quantity ns cost ts = Inr (cost', ts')" and "totals_for ts ds"
  shows "cost' = cost + materials_cost prices (map (\<lambda>n. (nm_materialId n, required_quantity quantity n)) ns) \<and>
    totals_for ts' (ds @ map (\<lambda>n. (nm_materialId n, required_quantity quantity n)) ns) \<and>
    list_all (\<lambda>n. prices (nm_materialId n) \<noteq> None) ns"
  using assms
proof (induction ns arbitrary: cost ts ds)
  case (Cons n ns)
  let ?q = "required_quantity quantity n" and ?m = "nm_materialId n"
  from Cons.prems(1) obtain p where p: "prices ?m = Some p"
    and run: "material_loop prices quantity ns (cost + ?q * mp_unitPrice p) (add_total ?m ?q ts) = Inr (cost', ts')"
    by (auto simp: Let_def split: option.splits)
  have "totals_for (add_total ?m ?q ts) (ds @ [(?m, ?q)])"
    using Cons.prems(2) add_total_keys [of ?m ?q ts]
    by (auto simp: totals_for_def add_total_distinct add_total_demand)
  from Cons.IH [OF run this] p show ?case by (simp add: ac_simps)
qed simp

lemma material_loop_fails:
  "isl (material_loop prices quantity ns cost ts) \<longleftrightarrow> \<not> list_all (\<lambda>n. prices (nm_materialId n) \<noteq> None) ns"
  by (induction ns arbitrary: cost ts) (auto simp: Let_def split: option.splits)

lemma price_line_fails: "isl (price_line rates prices opts l s) \<longleftrightarrow> \<not> priceable rates prices l"
proof (cases "rates (li_rateItemId l)")
  case (Some item)
  with material_loop_fails [of prices "li_quantity l" "rc_materials item" 0 "cs_totals s"]
  show ?thesis
    by (cases "material_loop prices (li_quantity l) (rc_materials item) 0 (cs_totals s)")
      (simp_all add: price_line_def priceable_def Let_def case_prod_beta)
qed (simp add: price_line_def priceable_def)

definition calc_inv :: "(uid \<Rightarrow> rate_calc option) \<Rightarrow> (uid \<Rightarrow> material_price option) \<Rightarrow> calc_options
    \<Rightarrow> line_input list \<Rightarrow> calc_state \<Rightarrow> bool" where
  "calc_inv rates prices opts lines s \<longleftrightarrow>
     map lr_id (cs_lines s) = map li_id lines \<and>
     totals_for (cs_totals s) (demands rates lines) \<and>
     cs_materialsCost s = materials_cost prices (demands rates lines) \<and>
     cs_laborCost s = labor_cost rates opts lines"

lemma labor_cost_simps [simp]:
  "labor_cost rates opts [] = 0"
  "labor_cost rates opts (ls @ [l]) = labor_cost rates opts ls +
     (case rates (li_rateItemId l) of None \<Rightarrow> 0
        | Some item \<Rightarrow> li_quantity l * rc_laborHoursPerUnit item * co_laborRatePerHour opts)"
  by (simp_all add: labor_cost_def)

lemma demands_append: "demands rates (ls @ ms) = demands rates ls @ demands rates ms"
  by (simp add: demands_def)

lemma price_line_inv:
  assumes "calc_inv rates prices opts lines s" and "price_line rates prices opts l s = Inr t"
  shows "calc_inv rates prices opts (lines @ [l]) t"
proof -
  from assms(2) obtain item cost ts where item: "rates (li_rateItemId l) = Some item"
    and run: "material_loop prices (li_quantity l) (rc_materials item) 0 (cs_totals s) = Inr (cost, ts)"
    by (auto simp: price_line_def split: option.splits sum.splits)
  have "totals_for (cs_totals s) (demands rates lines)" using assms(1) by (simp add: calc_inv_def)
  from material_loop_ok [OF run this] show ?thesis
    using assms item run by (auto simp: calc_inv_def price_line_def Let_def demands_append)
qed

lemma price_lines_inv:
  assumes "fold_res (price_line rates prices opts) ls s = Inr t" and "calc_inv rates prices opts lines s"
  shows "calc_inv rates prices opts (lines @ ls) t"
  using assms
proof (induction ls arbitrary: s lines)
  case (Cons l ls)
  from Cons.prems(1) obtain s' where "price_line rates prices opts l s = Inr s'"
    "fold_res (price_line rates prices opts) ls s' = Inr t" by (auto split: sum.splits)
  with Cons.IH [of s' "lines @ [l]"] price_line_inv [OF Cons.prems(2)] show ?case by simp
qed simp

lemma calculateEstimate_ok:
  assumes "calculateEstimate lines rates prices opts = Inr r"
  shows "\<exists>ts. totals_for ts (demands rates lines) \<and> map lr_id (cr_lines r) = map li_id lines \<and>
    cr_totals r = round_totals (materials_cost prices (demands rates lines)) (labor_cost rates opts lines) opts \<and>
    cr_requirements r = map (\<lambda>(m, q). \<lparr>rq_materialId = m, rq_quantity = round2 q,
      rq_unit = (case prices m of None \<Rightarrow> [] | Some p \<Rightarrow> mp_unit p)\<rparr>) ts"
proof -
  from assms obtain s where run: "fold_res (price_line rates prices opts) lines
      \<lparr>cs_lines = [], cs_totals = [], cs_materialsCost = 0, cs_laborCost = 0\<rparr> = Inr s"
    and r: "r = \<lparr>cr_lines = cs_lines s,
      cr_totals = round_totals (cs_materialsCost s) (cs_laborCost s) opts,
      cr_requirements = map (\<lambda>(m, q). \<lparr>rq_materialId = m, rq_quantity = round2 q,
        rq_unit = (case prices m of None \<Rightarrow> [] | Some p \<Rightarrow> mp_unit p)\<rparr>) (cs_totals s)\<rparr>"
    by (auto simp: calculateEstimate_def split: sum.splits)
  have "calc_inv rates prices opts ([] @ lines) s"
    by (rule price_lines_inv [OF run]) (simp add: calc_inv_def totals_for_def)
  then show ?thesis using r by (auto simp: calc_inv_def)
qed

lemma calculateEstimate_fails:
  "isl (calculateEstimate lines rates prices opts) \<longleftrightarrow> \<not> list_all (priceable rates prices) lines"
proof -
  have "isl (fold_res (price_line rates prices opts) lines s) \<longleftrightarrow> \<not> list_all (priceable rates prices) lines" for s
  proof (induction lines arbitrary: s)
    case (Cons l ls)
    then show ?case using price_line_fails [of rates prices opts l s]
      by (cases "price_line rates prices opts l s") auto
  qed simp
  note this [of "\<lparr>cs_lines = [], cs_totals = [], cs_materialsCost = 0, cs_laborCost = 0\<rparr>"]
  then show ?thesis unfolding calculateEstimate_def by (simp split: sum.split) (metis isl_def sum.disc(2))
qed

lemma round_totals_eq:
  "round_totals m l opts =
     \<lparr>tt_materialsCost = round2 m, tt_laborCost = round2 l, tt_subtotal = round2 (m + l),
      tt_markup = round2 ((m + l) * (co_markupPercent opts / 100)),
      tt_tax = round2 ((m + l) * (1 + co_markupPercent opts / 100) * (co_taxPercent opts / 100)),
      tt_grandTotal = round2 ((m + l) * (1 + co_markupPercent opts / 100) * (1 + co_taxPercent opts / 100))\<rparr>"
proof -
  have "s + s * k = s * (1 + k)" "s * (1 + k) + s * (1 + k) * t = s * (1 + k) * (1 + t)" for s k t :: number
    by (simp_all add: distrib_left)
  then show ?thesis by (simp only: round_totals_def Let_def)
qed

text \<open>The engine prices an estimate by its rate items: with M the cost of every norm of every
  line (quantity per unit times quantity, waste added, at the material's price) and L the labour
  of every line, subtotal is M + L, markup its percentage, tax the percentage of both, and the
  grand total (M + L)(1 + markup)(1 + tax), each rounded to the cent. Pricing fails exactly when
  a line's rate item or one of its materials is unknown.\<close>

theorem estimate_priced:
  "(\<forall>r. calculateEstimate lines rates prices opts = Inr r \<longrightarrow>
      (let m = materials_cost prices (demands rates lines); l = labor_cost rates opts lines;
           markup = co_markupPercent opts / 100; tax = co_taxPercent opts / 100
       in cr_totals r = \<lparr>tt_materialsCost = round2 m, tt_laborCost = round2 l, tt_subtotal = round2 (m + l),
            tt_markup = round2 ((m + l) * markup), tt_tax = round2 ((m + l) * (1 + markup) * tax),
            tt_grandTotal = round2 ((m + l) * (1 + markup) * (1 + tax))\<rparr>)) \<and>
   (isl (calculateEstimate lines rates prices opts) \<longleftrightarrow> \<not> list_all (priceable rates prices) lines)"
  using calculateEstimate_ok [of lines rates prices opts] calculateEstimate_fails
  by (auto simp: round_totals_eq Let_def)

text \<open>The material list covers the estimate: it has one entry for every material any line
  needs and no other, and its quantity is the sum of what all lines need of it, waste included,
  rounded once.\<close>

theorem requirements_cover_lines:
  assumes "calculateEstimate lines rates prices opts = Inr r"
  shows "distinct (map rq_materialId (cr_requirements r)) \<and>
    set (map rq_materialId (cr_requirements r)) = set (map fst (demands rates lines)) \<and>
    list_all (\<lambda>q. rq_quantity q = round2 (demand_of (rq_materialId q) (demands rates lines))) (cr_requirements r)"
proof -
  from calculateEstimate_ok [OF assms] obtain ts where ts: "totals_for ts (demands rates lines)"
    and r: "cr_requirements r = map (\<lambda>(m, q). \<lparr>rq_materialId = m, rq_quantity = round2 q,
      rq_unit = (case prices m of None \<Rightarrow> [] | Some p \<Rightarrow> mp_unit p)\<rparr>) ts" by blast
  have ids: "map rq_materialId (cr_requirements r) = map fst ts" by (simp add: r case_prod_beta)
  have "rq_quantity q = round2 (demand_of (rq_materialId q) (demands rates lines))"
    if "q \<in> set (cr_requirements r)" for q
    using that ts demand_of_entry [of ts] by (auto simp: r totals_for_def)
  with ids ts show ?thesis by (simp add: totals_for_def list_all_iff)
qed

text \<open>The printed figures add up to within two cents.\<close>

lemma two_cents: "on_grid 100 d \<Longrightarrow> d < 3/100 \<Longrightarrow> - d < 3/100 \<Longrightarrow> \<bar>d\<bar> \<le> 1/50"
proof (elim on_gridE)
  fix k :: int assume "d = of_int k / 100" "d < 3/100" "- d < 3/100"
  moreover from this have "k \<le> 2" "- 2 \<le> k" by linarith+
  then have "(of_int k :: rat) \<le> 2" "- 2 \<le> (of_int k :: rat)" by linarith+
  ultimately show "\<bar>d\<bar> \<le> 1/50" by (simp add: abs_le_iff)
qed simp

lemma printed_total_near:
  "\<bar>tt_grandTotal (round_totals m l opts) - (tt_subtotal (round_totals m l opts) +
     tt_markup (round_totals m l opts) + tt_tax (round_totals m l opts))\<bar> \<le> 1/50"
proof -
  let ?s = "m + l" and ?k = "(m + l) * (co_markupPercent opts / 100)"
  let ?t = "((m + l) + (m + l) * (co_markupPercent opts / 100)) * (co_taxPercent opts / 100)"
  let ?d = "round2 (?s + ?k + ?t) - (round2 ?s + round2 ?k + round2 ?t)"
  have up: "round2 x \<le> x + js_epsilon + 1/200" and down: "x - 1/200 < round2 x" for x
    using round_at_upper [of 100 x] round_at_lower [of 100 x] by (simp_all add: round2_def)
  have e: "js_epsilon < 1/1000" by (simp add: js_epsilon_def)
  have bounds: "?d < 3/100" "- ?d < 3/100"
    using up [of ?s] up [of ?k] up [of ?t] up [of "?s + ?k + ?t"]
      down [of ?s] down [of ?k] down [of ?t] down [of "?s + ?k + ?t"] e by linarith+
  have "on_grid 100 ?d" by (intro on_grid_diff on_grid_add on_grid_round2)
  then have "\<bar>?d\<bar> \<le> 1/50" using bounds by (rule two_cents)
  then show ?thesis by (simp only: round_totals_def Let_def cost_totals.simps)
qed

subsection \<open>An example\<close>

definition example_rates :: "uid \<Rightarrow> rate_calc option" where
  "example_rates = map_of [(1, \<lparr>rc_id = 1, rc_laborHoursPerUnit = 1/2, rc_materials =
     [\<lparr>nm_materialId = 20, nm_quantityPerUnit = 2, nm_wasteFactorPercent = 10\<rparr>,
      \<lparr>nm_materialId = 21, nm_quantityPerUnit = 1, nm_wasteFactorPercent = 0\<rparr>]\<rparr>)]"

definition example_prices :: "uid \<Rightarrow> material_price option" where
  "example_prices = map_of [(20, \<lparr>mp_unitPrice = 3, mp_unit = ''m''\<rparr>), (21, \<lparr>mp_unitPrice = 1/100, mp_unit = ''pc''\<rparr>)]"

definition example_options :: calc_options where
  "example_options = \<lparr>co_laborRatePerHour = 40, co_markupPercent = 15, co_taxPercent = 19\<rparr>"

definition example_lines :: "line_input list" where
  "example_lines = [\<lparr>li_id = 5, li_rateItemId = 1, li_quantity = 3\<rparr>, \<lparr>li_id = 6, li_rateItemId = 1, li_quantity = 1\<rparr>]"

definition example_result :: calc_result where
  "example_result = projr (calculateEstimate example_lines example_rates example_prices example_options)"

lemma example_priced: "calculateEstimate example_lines example_rates example_prices example_options = Inr example_result"
  unfolding example_result_def by (rule sum.collapse(2) [symmetric]) code_simp

lemma example_demands:
  "materials_cost example_prices (demands example_rates example_lines) = 661/25"
  "labor_cost example_rates example_options example_lines = 80"
  "demand_of 20 (demands example_rates example_lines) = 44/5"
  by code_simp+

theorem estimate_priced_witness:
  "tt_grandTotal (cr_totals example_result) = round2 (2661/25 * (1 + 15/100) * (1 + 19/100))"
  using estimate_priced [of example_lines example_rates example_prices example_options] example_priced
  by (simp add: example_demands Let_def) (simp add: example_options_def)

theorem requirements_cover_lines_witness:
  "distinct (map rq_materialId (cr_requirements example_result)) \<and>
   set (map rq_materialId (cr_requirements example_result)) =
     set (map fst (demands example_rates example_lines)) \<and>
   list_all (\<lambda>q. rq_quantity q = round2 (demand_of (rq_materialId q) (demands example_rates example_lines)))
     (cr_requirements example_result)"
  by (rule requirements_cover_lines) (rule example_priced)

text \<open>A total that differs by a cent from the figures printed above it.\<close>

lemma printed_total_off_by_a_cent:
  "round_totals (1/100) 0 \<lparr>co_laborRatePerHour = 40, co_markupPercent = 40, co_taxPercent = 15\<rparr> =
     \<lparr>tt_materialsCost = 1/100, tt_laborCost = 0, tt_subtotal = 1/100, tt_markup = 0, tt_tax = 0,
      tt_grandTotal = 2/100\<rparr>"
  by code_simp

end
