(* ===== verification/Estimates_DB.thy ===== *)
theory Estimates_DB
  imports Estimate_Calc "HOL-Library.Char_ord" "HOL-Library.List_Lexorder"
begin

section \<open>The tables of estimates and change orders\<close>

text \<open>
  The rows \<open>estimates/estimates.service.ts\<close> and \<open>estimates/change-orders.service.ts\<close> read and write
  (\<open>prisma/schema.prisma\<close>), and the catalogue lookups and pricing both share. The rates of an
  estimate (labour rate, markup, tax) are one field, and so are its six totals.
\<close>

datatype est_status = Es_draft | Es_pending_approval | Es_approved

datatype decision = Dec_pending | Dec_approved | Dec_rejected | Dec_countered

record est_company =
  ec_id :: uid
  ec_currency :: string
  ec_approvalThresholdAmount :: "number option"
  ec_requiredApprovalCount :: nat
  ec_changeOrderApprovalThresholdAmount :: "number option"
  ec_changeOrderRequiredApprovalCount :: nat
  ec_hideCostDataFromRoles :: "string list"

record est_project =
  ep_id :: uid
  ep_companyId :: uid
  ep_currency :: "string option"
  ep_clientId :: "uid option"

record est_client =
  ek_id :: uid
  ek_email :: "string option"

record rate_row =
  rr_id :: uid
  rr_companyId :: uid
  rr_code :: string
  rr_name :: string
  rr_unit :: string
  rr_laborHoursPerUnit :: number
  rr_materials :: "norm list"

record material_row =
  mt_id :: uid
  mt_companyId :: uid
  mt_defaultUnitPrice :: number
  mt_unit :: string

record assembly =
  as_id :: uid
  as_companyId :: uid
  as_items :: "(uid \<times> number) list"

record estimate =
  es_id :: uid
  es_companyId :: uid
  es_projectId :: "uid option"
  es_name :: string
  es_status :: est_status
  es_rates :: calc_options
  es_currency :: string
  es_isTemplate :: bool
  es_currentVersion :: nat
  es_totals :: cost_totals
  es_clientDecision :: decision
  es_sentAt :: "date option"
  es_decisionAt :: "date option"
  es_clientDecisionNote :: "string option"
  es_counterOfferAmount :: "number option"
  es_clientAccessToken :: "string option"
  es_signerName :: "string option"
  es_signatureImageKey :: "string option"
  es_signedIp :: "string option"
  es_variantOfId :: "uid option"
  es_variantLabel :: "string option"
  es_coverLetter :: "string option"
  es_reminderCount :: nat
  es_lastReminderSentAt :: "date option"
  es_createdAt :: date

record est_line =
  el_id :: uid
  el_estimateId :: uid
  el_sectionId :: "uid option"
  el_rateItemId :: uid
  el_quantity :: number
  el_materialsCost :: number
  el_laborCost :: number
  el_lineTotal :: number
  el_sortOrder :: nat
  el_costCodeId :: "uid option"

record est_section =
  sn_id :: uid
  sn_estimateId :: uid
  sn_name :: string
  sn_sortOrder :: nat

record revision_line =
  rl_code :: string
  rl_name :: message
  rl_unit :: string
  rl_quantity :: number
  rl_materialsCost :: number
  rl_laborCost :: number
  rl_lineTotal :: number

record revision =
  rv_id :: uid
  rv_estimateId :: uid
  rv_versionNumber :: nat
  rv_name :: string
  rv_rates :: calc_options
  rv_totals :: cost_totals
  rv_lines :: "revision_line list"

record approval =
  ap_subjectId :: uid
  ap_userId :: uid
  ap_actorName :: string
  ap_approvedAt :: date

record change_order =
  ch_id :: uid
  ch_companyId :: uid
  ch_estimateId :: uid
  ch_number :: nat
  ch_title :: string
  ch_description :: "string option"
  ch_status :: est_status
  ch_totals :: cost_totals
  ch_clientDecision :: decision
  ch_sentAt :: "date option"
  ch_decisionAt :: "date option"
  ch_clientDecisionNote :: "string option"
  ch_clientAccessToken :: "string option"
  ch_signerName :: "string option"
  ch_signatureImageKey :: "string option"
  ch_signedIp :: "string option"
  ch_reminderCount :: nat
  ch_lastReminderSentAt :: "date option"
  ch_scheduleImpactDays :: "int option"

record co_line =
  cl_id :: uid
  cl_changeOrderId :: uid
  cl_rateItemId :: uid
  cl_quantity :: number
  cl_materialsCost :: number
  cl_laborCost :: number
  cl_lineTotal :: number
  cl_sortOrder :: nat
  cl_costCodeId :: "uid option"

record est_db =
  eb_uid :: uid
  eb_companies :: "est_company list"
  eb_projects :: "est_project list"
  eb_clients :: "est_client list"
  eb_rates :: "rate_row list"
  eb_materials :: "material_row list"
  eb_assemblies :: "assembly list"
  eb_costCodes :: "(uid \<times> uid) list"
  eb_markupRules :: "(uid \<times> cost_type \<times> number \<times> bool) list"
  eb_estimates :: "estimate list"
  eb_lines :: "est_line list"
  eb_sections :: "est_section list"
  eb_requirements :: "(uid \<times> requirement) list"
  eb_revisions :: "revision list"
  eb_approvals :: "approval list"
  eb_changeOrders :: "change_order list"
  eb_coLines :: "co_line list"
  eb_coApprovals :: "approval list"
  eb_outbox :: "(uid \<times> string \<times> uid) list"

record actor =
  ac_userId :: "uid option"
  ac_name :: string

type_synonym 'a est_op = "(app_error + 'a) \<times> est_db"

subsection \<open>Reads\<close>

definition find_est :: "uid \<Rightarrow> uid \<Rightarrow> est_db \<Rightarrow> app_error + estimate" where
  "find_est companyId i db =
     (case find_row (\<lambda>e. es_id e = i \<and> es_companyId e = companyId) (eb_estimates db) of
        None \<Rightarrow> Inl (NotFoundException (msg ''Estimate not found''))
      | Some e \<Rightarrow> Inr e)"

definition est_lines :: "uid \<Rightarrow> est_db \<Rightarrow> est_line list" where
  "est_lines i db = sort_key el_sortOrder (filter (\<lambda>l. el_estimateId l = i) (eb_lines db))"

definition est_sections :: "uid \<Rightarrow> est_db \<Rightarrow> est_section list" where
  "est_sections i db = sort_key sn_sortOrder (filter (\<lambda>s. sn_estimateId s = i) (eb_sections db))"

definition find_company :: "uid \<Rightarrow> est_db \<Rightarrow> est_company option" where
  "find_company companyId db = find_row (\<lambda>c. ec_id c = companyId) (eb_companies db)"

definition find_est_project :: "uid \<Rightarrow> uid \<Rightarrow> est_db \<Rightarrow> est_project option" where
  "find_est_project companyId i db = find_row (\<lambda>p. ep_id p = i \<and> ep_companyId p = companyId) (eb_projects db)"

definition find_rate :: "uid \<Rightarrow> uid \<Rightarrow> est_db \<Rightarrow> rate_row option" where
  "find_rate companyId i db = find_row (\<lambda>r. rr_id r = i \<and> rr_companyId r = companyId) (eb_rates db)"

definition cost_code_ok :: "uid \<Rightarrow> uid option \<Rightarrow> est_db \<Rightarrow> bool" where
  "cost_code_ok companyId c db = (case c of None \<Rightarrow> True | Some k \<Rightarrow> (k, companyId) \<in> set (eb_costCodes db))"

definition enqueue :: "uid \<Rightarrow> string \<Rightarrow> uid \<Rightarrow> est_db \<Rightarrow> est_db" where
  "enqueue companyId event i db = db\<lparr>eb_outbox := eb_outbox db @ [(companyId, event, i)]\<rparr>"

definition update_est :: "uid \<Rightarrow> (estimate \<Rightarrow> estimate) \<Rightarrow> est_db \<Rightarrow> est_db" where
  "update_est i f db = db\<lparr>eb_estimates := update_rows (\<lambda>e. es_id e = i) f (eb_estimates db)\<rparr>"

subsection \<open>Pricing against the company's catalogue\<close>

definition rates_by_id :: "uid \<Rightarrow> est_db \<Rightarrow> uid \<Rightarrow> rate_calc option" where
  "rates_by_id companyId db i =
     map_option (\<lambda>r. \<lparr>rc_id = rr_id r, rc_laborHoursPerUnit = rr_laborHoursPerUnit r, rc_materials = rr_materials r\<rparr>)
       (find_rate companyId i db)"

definition prices_by_id :: "uid \<Rightarrow> est_db \<Rightarrow> uid \<Rightarrow> material_price option" where
  "prices_by_id companyId db i =
     map_option (\<lambda>m. \<lparr>mp_unitPrice = mt_defaultUnitPrice m, mp_unit = mt_unit m\<rparr>)
       (find_row (\<lambda>m. mt_id m = i \<and> mt_companyId m = companyId) (eb_materials db))"

definition computeForLines :: "uid \<Rightarrow> line_input list \<Rightarrow> calc_options \<Rightarrow> est_db \<Rightarrow> app_error + calc_result" where
  "computeForLines companyId lines opts db =
     (if lines = [] then Inr \<lparr>cr_lines = [], cr_totals = zero_totals, cr_requirements = []\<rparr>
      else calculateEstimate lines (rates_by_id companyId db) (prices_by_id companyId db) opts)"

definition est_line_input :: "est_line \<Rightarrow> line_input" where
  "est_line_input l = \<lparr>li_id = el_id l, li_rateItemId = el_rateItemId l, li_quantity = el_quantity l\<rparr>"

definition store_line :: "line_result \<Rightarrow> est_line list \<Rightarrow> est_line list" where
  "store_line r = update_rows (\<lambda>l. el_id l = lr_id r)
     (\<lambda>l. l\<lparr>el_materialsCost := lr_materialsCost r, el_laborCost := lr_laborCost r, el_lineTotal := lr_lineTotal r\<rparr>)"

end
