(* ===== verification/Estimates.thy ===== *)
theory Estimates
  imports Estimates_DB
begin

section \<open>The estimates service\<close>

text \<open>
  \<open>estimates/estimates.service.ts\<close>, first half: what a role may see, lines and pricing, the approval
  chain and revisions. The client's side, variants and templates are in theory Estimate_Client.

  An operation returns its result beside the database it leaves, since several of them run more
  than one transaction and an error in a later one keeps what the earlier ones wrote. What a
  caller gets to see is \<open>shown\<close>: cost figures are blanked for the roles the company hides them
  from. Foreign keys are not checked, and requests run one after the other.
\<close>

subsection \<open>What a role may see\<close>

definition shouldHideCostData :: "uid \<Rightarrow> string option \<Rightarrow> est_db \<Rightarrow> bool" where
  "shouldHideCostData companyId role db =
     (if \<not> truthy role \<or> role = Some ''owner'' \<or> role = Some ''admin'' then False
      else case find_company companyId db of
        None \<Rightarrow> False
      | Some c \<Rightarrow> the role \<in> set (ec_hideCostDataFromRoles c))"

record estimate_view =
  ev_id :: uid
  ev_name :: string
  ev_status :: est_status
  ev_clientDecision :: decision
  ev_taxPercent :: number
  ev_laborRatePerHour :: "number option"
  ev_markupPercent :: "number option"
  ev_materialsCostTotal :: "number option"
  ev_laborCostTotal :: "number option"
  ev_subtotal :: number
  ev_markupAmount :: "number option"
  ev_taxAmount :: number
  ev_grandTotal :: number
  ev_isStale :: bool
  ev_lines :: "(uid \<times> number \<times> number option \<times> number option \<times> number) list"

definition full_view :: "estimate \<Rightarrow> est_line list \<Rightarrow> bool \<Rightarrow> estimate_view" where
  "full_view e ls stale =
     \<lparr>ev_id = es_id e, ev_name = es_name e, ev_status = es_status e, ev_clientDecision = es_clientDecision e,
      ev_taxPercent = co_taxPercent (es_rates e),
      ev_laborRatePerHour = Some (co_laborRatePerHour (es_rates e)),
      ev_markupPercent = Some (co_markupPercent (es_rates e)),
      ev_materialsCostTotal = Some (tt_materialsCost (es_totals e)),
      ev_laborCostTotal = Some (tt_laborCost (es_totals e)),
      ev_subtotal = tt_subtotal (es_totals e),
      ev_markupAmount = Some (tt_markup (es_totals e)),
      ev_taxAmount = tt_tax (es_totals e), ev_grandTotal = tt_grandTotal (es_totals e),
      ev_isStale = stale,
      ev_lines = map (\<lambda>l. (el_rateItemId l, el_quantity l, Some (el_materialsCost l), Some (el_laborCost l),
        el_lineTotal l)) ls\<rparr>"

definition redactCostData :: "estimate_view \<Rightarrow> estimate_view" where
  "redactCostData v =
     v\<lparr>ev_materialsCostTotal := None, ev_laborCostTotal := None, ev_markupAmount := None,
       ev_markupPercent := None, ev_laborRatePerHour := None,
       ev_lines := map (\<lambda>(r, q, _, _, t). (r, q, None, None, t)) (ev_lines v)\<rparr>"

definition shown :: "uid \<Rightarrow> string option \<Rightarrow> bool \<Rightarrow> uid \<Rightarrow> est_db \<Rightarrow> app_error + estimate_view" where
  "shown companyId role stale i db =
     (case find_est companyId i db of
        Inl e \<Rightarrow> Inl e
      | Inr e \<Rightarrow>
          (let v = full_view e (est_lines i db) stale
           in Inr (if shouldHideCostData companyId role db then redactCostData v else v)))"

definition list_estimates :: "uid \<Rightarrow> string option \<Rightarrow> (estimate \<Rightarrow> bool) \<Rightarrow> est_db \<Rightarrow> estimate_view list" where
  "list_estimates companyId role visible db =
     map (\<lambda>e. let v = full_view e [] False in if shouldHideCostData companyId role db then redactCostData v else v)
       (filter (\<lambda>e. es_companyId e = companyId \<and> \<not> es_isTemplate e \<and> visible e) (eb_estimates db))"

definition clientLink :: "uid \<Rightarrow> uid \<Rightarrow> est_db \<Rightarrow> app_error + string" where
  "clientLink companyId i db =
     (case find_est companyId i db of
        Inl e \<Rightarrow> Inl e
      | Inr e \<Rightarrow>
          if truthy (es_clientAccessToken e) then Inr (the (es_clientAccessToken e))
          else Inl (BadRequestException (msg ''This estimate hasn't been sent to the client yet'')))"

definition get_estimate :: "uid \<Rightarrow> string option \<Rightarrow> uid \<Rightarrow> est_db \<Rightarrow> app_error + estimate_view" where
  "get_estimate companyId role i db =
     (case find_est companyId i db of
        Inl e \<Rightarrow> Inl e
      | Inr e \<Rightarrow>
          if es_isTemplate e \<or> est_lines i db = [] then shown companyId role False i db
          else case computeForLines companyId (map est_line_input (est_lines i db)) (es_rates e) db of
            Inl err \<Rightarrow> Inl err
          | Inr r \<Rightarrow> shown companyId role (tt_grandTotal (cr_totals r) \<noteq> tt_grandTotal (es_totals e)) i db)"

subsection \<open>Lines and pricing\<close>

definition blank_estimate :: "date \<Rightarrow> uid \<Rightarrow> uid option \<Rightarrow> string \<Rightarrow> calc_options \<Rightarrow> string \<Rightarrow> estimate" where
  "blank_estimate now companyId projectId name rates currency =
     \<lparr>es_id = 0, es_companyId = companyId, es_projectId = projectId, es_name = name, es_status = Es_draft,
      es_rates = rates, es_currency = currency, es_isTemplate = False, es_currentVersion = 1,
      es_totals = zero_totals, es_clientDecision = Dec_pending, es_sentAt = None, es_decisionAt = None,
      es_clientDecisionNote = None, es_counterOfferAmount = None, es_clientAccessToken = None,
      es_signerName = None, es_signatureImageKey = None, es_signedIp = None, es_variantOfId = None,
      es_variantLabel = None, es_coverLetter = None, es_reminderCount = 0, es_lastReminderSentAt = None,
      es_createdAt = now\<rparr>"

definition insert_estimate :: "estimate \<Rightarrow> est_db \<Rightarrow> uid \<times> est_db" where
  "insert_estimate e db =
     (eb_uid db, db\<lparr>eb_estimates := eb_estimates db @ [e\<lparr>es_id := eb_uid db\<rparr>], eb_uid := Suc (eb_uid db)\<rparr>)"

definition resolveCurrency :: "uid \<Rightarrow> est_project \<Rightarrow> est_db \<Rightarrow> app_error + string" where
  "resolveCurrency companyId p db =
     (if truthy (ep_currency p) then Inr (the (ep_currency p))
      else case find_company companyId db of None \<Rightarrow> Inl RecordNotFound | Some c \<Rightarrow> Inr (ec_currency c))"

definition create_estimate :: "date \<Rightarrow> uid \<Rightarrow> uid \<Rightarrow> string \<Rightarrow> calc_options \<Rightarrow> est_db \<Rightarrow> uid est_op" where
  "create_estimate now companyId projectId name rates db =
     (case find_est_project companyId projectId db of
        None \<Rightarrow> (Inl (NotFoundException (msg ''Project not found'')), db)
      | Some p \<Rightarrow>
          (case resolveCurrency companyId p db of
             Inl e \<Rightarrow> (Inl e, db)
           | Inr currency \<Rightarrow>
               (case insert_estimate (blank_estimate now companyId (Some projectId) name rates currency) db of
                  (i, db1) \<Rightarrow> (Inr i, db1))))"

text \<open>\<open>recalc\<close> is \<open>recalculate\<close> up to what is returned: it prices the lines and stores the result.\<close>

definition recalc :: "uid \<Rightarrow> uid \<Rightarrow> est_db \<Rightarrow> app_error + est_db" where
  "recalc companyId i db =
     (case find_est companyId i db of
        Inl e \<Rightarrow> Inl e
      | Inr e \<Rightarrow>
          if est_lines i db = [] then Inr (update_est i (\<lambda>e. e\<lparr>es_totals := zero_totals\<rparr>) db)
          else case computeForLines companyId (map est_line_input (est_lines i db)) (es_rates e) db of
            Inl err \<Rightarrow> Inl err
          | Inr r \<Rightarrow>
              Inr (update_est i (\<lambda>e. e\<lparr>es_totals := cr_totals r\<rparr>)
                     (db\<lparr>eb_lines := fold store_line (cr_lines r) (eb_lines db)\<rparr>)))"

definition recalculate :: "uid \<Rightarrow> string option \<Rightarrow> uid \<Rightarrow> est_db \<Rightarrow> estimate_view est_op" where
  "recalculate companyId role i db =
     (case recalc companyId i db of
        Inl e \<Rightarrow> (Inl e, db)
      | Inr db1 \<Rightarrow> (shown companyId role False i db1, db1))"

definition new_line :: "uid \<Rightarrow> uid \<Rightarrow> uid option \<Rightarrow> uid \<Rightarrow> number \<Rightarrow> nat \<Rightarrow> uid option \<Rightarrow> est_line" where
  "new_line i estimateId sectionId rateItemId quantity sortOrder costCodeId =
     \<lparr>el_id = i, el_estimateId = estimateId, el_sectionId = sectionId, el_rateItemId = rateItemId,
      el_quantity = quantity, el_materialsCost = 0, el_laborCost = 0, el_lineTotal = 0,
      el_sortOrder = sortOrder, el_costCodeId = costCodeId\<rparr>"

definition insert_line :: "(uid \<Rightarrow> est_line) \<Rightarrow> est_db \<Rightarrow> est_db" where
  "insert_line l db = db\<lparr>eb_lines := eb_lines db @ [l (eb_uid db)], eb_uid := Suc (eb_uid db)\<rparr>"

definition addLine :: "uid \<Rightarrow> string option \<Rightarrow> uid \<Rightarrow> uid \<Rightarrow> number \<Rightarrow> uid option \<Rightarrow> uid option \<Rightarrow> est_db \<Rightarrow> estimate_view est_op" where
  "addLine companyId role estimateId rateItemId quantity sectionId costCodeId db =
     (case find_est companyId estimateId db of
        Inl e \<Rightarrow> (Inl e, db)
      | Inr _ \<Rightarrow>
          if find_rate companyId rateItemId db = None
          then (Inl (NotFoundException (msg ''Rate catalog item not found'')), db)
          else if \<not> cost_code_ok companyId costCodeId db
          then (Inl (NotFoundException (msg ''Cost code not found'')), db)
          else recalculate companyId role estimateId
                 (insert_line (\<lambda>i. new_line i estimateId sectionId rateItemId quantity 0 costCodeId) db))"

definition addAssemblyToEstimate :: "uid \<Rightarrow> string option \<Rightarrow> uid \<Rightarrow> uid \<Rightarrow> number \<Rightarrow> uid option \<Rightarrow> est_db \<Rightarrow> estimate_view est_op" where
  "addAssemblyToEstimate companyId role estimateId assemblyId quantity sectionId db =
     (case find_est companyId estimateId db of
        Inl e \<Rightarrow> (Inl e, db)
      | Inr _ \<Rightarrow>
          (case find_row (\<lambda>a. as_id a = assemblyId \<and> as_companyId a = companyId) (eb_assemblies db) of
             None \<Rightarrow> (Inl (NotFoundException (msg ''Assembly not found'')), db)
           | Some a \<Rightarrow>
               recalculate companyId role estimateId
                 (fold (\<lambda>(rateItemId, perUnit). insert_line
                          (\<lambda>i. new_line i estimateId sectionId rateItemId (perUnit * quantity) 0 None))
                    (as_items a) db)))"

definition updateCoverLetter :: "uid \<Rightarrow> uid \<Rightarrow> string option \<Rightarrow> est_db \<Rightarrow> unit est_op" where
  "updateCoverLetter companyId i letter db =
     (case find_est companyId i db of
        Inl e \<Rightarrow> (Inl e, db)
      | Inr _ \<Rightarrow> (Inr (), update_est i (\<lambda>e. e\<lparr>es_coverLetter := letter\<rparr>) db))"

subsection \<open>Approval\<close>

definition revision_line_of :: "uid \<Rightarrow> est_db \<Rightarrow> est_line \<Rightarrow> revision_line" where
  "revision_line_of companyId db l =
     (let info = find_rate companyId (el_rateItemId l) db
      in \<lparr>rl_code = (case info of None \<Rightarrow> [] | Some r \<Rightarrow> rr_code r),
          rl_name = (case info of None \<Rightarrow> [Num (of_nat (el_rateItemId l))] | Some r \<Rightarrow> msg (rr_name r)),
          rl_unit = (case info of None \<Rightarrow> [] | Some r \<Rightarrow> rr_unit r),
          rl_quantity = el_quantity l, rl_materialsCost = el_materialsCost l,
          rl_laborCost = el_laborCost l, rl_lineTotal = el_lineTotal l\<rparr>)"

definition finalize_tx :: "uid \<Rightarrow> estimate \<Rightarrow> est_line list \<Rightarrow> calc_result \<Rightarrow> est_db \<Rightarrow> est_db" where
  "finalize_tx companyId e ls r db =
     update_est (es_id e) (\<lambda>x. x\<lparr>es_status := Es_approved, es_currentVersion := Suc (es_currentVersion x)\<rparr>)
       (db\<lparr>eb_requirements := filter (\<lambda>(i, _). i \<noteq> es_id e) (eb_requirements db) @
              map (\<lambda>q. (es_id e, q)) (cr_requirements r),
           eb_revisions := eb_revisions db @
             [\<lparr>rv_id = eb_uid db, rv_estimateId = es_id e, rv_versionNumber = es_currentVersion e,
               rv_name = es_name e, rv_rates = es_rates e, rv_totals = es_totals e,
               rv_lines = map (revision_line_of companyId db) ls\<rparr>],
           eb_uid := Suc (eb_uid db)\<rparr>)"

definition finalizeApproval :: "uid \<Rightarrow> string option \<Rightarrow> estimate \<Rightarrow> est_line list \<Rightarrow> est_db \<Rightarrow> estimate_view est_op" where
  "finalizeApproval companyId role e ls db =
     (case computeForLines companyId (map est_line_input ls) (es_rates e) db of
        Inl err \<Rightarrow> (Inl err, db)
      | Inr r \<Rightarrow>
          (let db1 = finalize_tx companyId e ls r db
           in (shown companyId role False (es_id e) db1, db1)))"

definition approvals_of :: "uid \<Rightarrow> approval list \<Rightarrow> approval list" where
  "approvals_of i = filter (\<lambda>a. ap_subjectId a = i)"

definition recordApprovalStep :: "date \<Rightarrow> uid \<Rightarrow> actor \<Rightarrow> string option \<Rightarrow> estimate \<Rightarrow> est_line list \<Rightarrow> nat
    \<Rightarrow> est_db \<Rightarrow> estimate_view est_op" where
  "recordApprovalStep now companyId actor role e ls requiredCount db =
     (case ac_userId actor of
        None \<Rightarrow> (Inl (BadRequestException (msg ''Only a signed-in user can approve'')), db)
      | Some userId \<Rightarrow>
          if \<exists>a \<in> set (eb_approvals db). ap_subjectId a = es_id e \<and> ap_userId a = userId
          then (Inl (BadRequestException (msg ''You have already approved this estimate'')), db)
          else
            (let db1 = update_est (es_id e) (\<lambda>x. x\<lparr>es_status := Es_pending_approval\<rparr>)
                   (db\<lparr>eb_approvals := eb_approvals db @
                      [\<lparr>ap_subjectId = es_id e, ap_userId = userId, ap_actorName = ac_name actor,
                        ap_approvedAt = now\<rparr>]\<rparr>)
             in if requiredCount \<le> length (approvals_of (es_id e) (eb_approvals db1))
                then finalizeApproval companyId role e ls db1
                else (shown companyId role False (es_id e) db1, db1)))"

definition approve :: "date \<Rightarrow> uid \<Rightarrow> actor \<Rightarrow> string option \<Rightarrow> uid \<Rightarrow> est_db \<Rightarrow> estimate_view est_op" where
  "approve now companyId actor role i db =
     (case recalc companyId i db of
        Inl e \<Rightarrow> (Inl e, db)
      | Inr db1 \<Rightarrow>
          (case find_est companyId i db1 of
             Inl e \<Rightarrow> (Inl e, db1)
           | Inr e \<Rightarrow>
               if es_status e = Es_approved then finalizeApproval companyId role e (est_lines i db1) db1
               else case find_company companyId db1 of
                 None \<Rightarrow> (Inl RecordNotFound, db1)
               | Some c \<Rightarrow>
                   (case ec_approvalThresholdAmount c of
                      None \<Rightarrow> finalizeApproval companyId role e (est_lines i db1) db1
                    | Some threshold \<Rightarrow>
                        if threshold \<le> tt_grandTotal (es_totals e)
                        then recordApprovalStep now companyId actor role e (est_lines i db1)
                               (ec_requiredApprovalCount c) db1
                        else finalizeApproval companyId role e (est_lines i db1) db1)))"

subsection \<open>Revisions\<close>

record revision_view =
  vv_id :: uid
  vv_versionNumber :: nat
  vv_name :: string
  vv_taxPercent :: number
  vv_laborRatePerHour :: "number option"
  vv_markupPercent :: "number option"
  vv_materialsCostTotal :: "number option"
  vv_laborCostTotal :: "number option"
  vv_subtotal :: number
  vv_markupAmount :: "number option"
  vv_taxAmount :: number
  vv_grandTotal :: number
  vv_lines :: "(string \<times> message \<times> string \<times> number \<times> number option \<times> number option \<times> number) list"

definition revision_shown :: "bool \<Rightarrow> revision \<Rightarrow> revision_view" where
  "revision_shown hide r =
     (let cost = (\<lambda>x. if hide then None else Some x)
      in \<lparr>vv_id = rv_id r, vv_versionNumber = rv_versionNumber r, vv_name = rv_name r,
          vv_taxPercent = co_taxPercent (rv_rates r),
          vv_laborRatePerHour = cost (co_laborRatePerHour (rv_rates r)),
          vv_markupPercent = cost (co_markupPercent (rv_rates r)),
          vv_materialsCostTotal = cost (tt_materialsCost (rv_totals r)),
          vv_laborCostTotal = cost (tt_laborCost (rv_totals r)),
          vv_subtotal = tt_subtotal (rv_totals r), vv_markupAmount = cost (tt_markup (rv_totals r)),
          vv_taxAmount = tt_tax (rv_totals r), vv_grandTotal = tt_grandTotal (rv_totals r),
          vv_lines = map (\<lambda>l. (rl_code l, rl_name l, rl_unit l, rl_quantity l, cost (rl_materialsCost l),
            cost (rl_laborCost l), rl_lineTotal l)) (rv_lines r)\<rparr>)"

definition listRevisions :: "uid \<Rightarrow> string option \<Rightarrow> uid \<Rightarrow> est_db \<Rightarrow> app_error + revision_view list" where
  "listRevisions companyId role i db =
     (case find_est companyId i db of
        Inl e \<Rightarrow> Inl e
      | Inr _ \<Rightarrow> Inr (map (revision_shown (shouldHideCostData companyId role db))
          (sort_key (\<lambda>r. - int (rv_versionNumber r)) (filter (\<lambda>r. rv_estimateId r = i) (eb_revisions db)))))"

text \<open>\<open>find_revision\<close> is \<open>getRevision\<close> before the redaction.\<close>

definition find_revision :: "uid \<Rightarrow> uid \<Rightarrow> uid \<Rightarrow> est_db \<Rightarrow> app_error + revision" where
  "find_revision companyId i revisionId db =
     (case find_est companyId i db of
        Inl e \<Rightarrow> Inl e
      | Inr _ \<Rightarrow>
          (case find_row (\<lambda>r. rv_id r = revisionId \<and> rv_estimateId r = i) (eb_revisions db) of
             None \<Rightarrow> Inl (NotFoundException (msg ''Revision not found''))
           | Some r \<Rightarrow> Inr r))"

definition getRevision :: "uid \<Rightarrow> string option \<Rightarrow> uid \<Rightarrow> uid \<Rightarrow> est_db \<Rightarrow> app_error + revision_view" where
  "getRevision companyId role i revisionId db =
     map_sum id (revision_shown (shouldHideCostData companyId role db)) (find_revision companyId i revisionId db)"

text \<open>A \<open>Map\<close> built from the lines keeps the last line of a code.\<close>

definition by_code :: "revision_line list \<Rightarrow> string \<Rightarrow> revision_line option" where
  "by_code ls c = find_row (\<lambda>l. rl_code l = c) (rev ls)"

record revision_diff =
  rd_from :: "nat \<times> number"
  rd_to :: "nat \<times> number"
  rd_grandTotalDelta :: number
  rd_added :: "revision_line list"
  rd_removed :: "revision_line list"
  rd_changed :: "(revision_line \<times> number \<times> number) list"

definition diff_lines :: "revision_line list \<Rightarrow> revision_line list \<Rightarrow>
    revision_line list \<times> revision_line list \<times> (revision_line \<times> number \<times> number) list" where
  "diff_lines from_lines to_lines =
     (filter (\<lambda>l. by_code from_lines (rl_code l) = None) to_lines,
      filter (\<lambda>l. by_code to_lines (rl_code l) = None) from_lines,
      concat (map (\<lambda>l. case by_code from_lines (rl_code l) of
          None \<Rightarrow> []
        | Some p \<Rightarrow> if rl_quantity p \<noteq> rl_quantity l \<or> rl_lineTotal p \<noteq> rl_lineTotal l
                   then [(l, rl_quantity p, rl_lineTotal p)] else []) to_lines))"

definition diffRevisions :: "uid \<Rightarrow> uid \<Rightarrow> uid \<Rightarrow> uid \<Rightarrow> est_db \<Rightarrow> app_error + revision_diff" where
  "diffRevisions companyId i from_id to_id db =
     (case find_revision companyId i from_id db of
        Inl e \<Rightarrow> Inl e
      | Inr f \<Rightarrow>
          (case find_revision companyId i to_id db of
             Inl e \<Rightarrow> Inl e
           | Inr t \<Rightarrow>
               (case diff_lines (rv_lines f) (rv_lines t) of
                  (added, removed, changed) \<Rightarrow>
                    Inr \<lparr>rd_from = (rv_versionNumber f, tt_grandTotal (rv_totals f)),
                         rd_to = (rv_versionNumber t, tt_grandTotal (rv_totals t)),
                         rd_grandTotalDelta = tt_grandTotal (rv_totals t) - tt_grandTotal (rv_totals f),
                         rd_added = added, rd_removed = removed, rd_changed = changed\<rparr>)))"

end
