(* ===== verification/Estimate_Client.thy ===== *)
theory Estimate_Client
  imports Estimates
begin

section \<open>The client's side of an estimate, variants and templates\<close>

text \<open>
  \<open>estimates/estimates.service.ts\<close>, second half: sending, the client's view and decision, variants,
  templates and suggestions; and the cadence of \<open>estimate-reminders/estimate-reminders.service.ts\<close>.
  The random access token and the key under which a signature image was stored are arguments.
  Between the read of an estimate and the transaction that decides it other requests may run:
  they are the argument \<open>env\<close>. A note the client leaves out does not overwrite the stored one
  (\<open>undefined\<close> in a Prisma update), and neither does a counter offer or a signature.
\<close>

subsection \<open>Sending\<close>

definition client_email :: "estimate \<Rightarrow> est_db \<Rightarrow> string option" where
  "client_email e db =
     (case Option.bind (es_projectId e) (\<lambda>p. find_row (\<lambda>r. ep_id r = p) (eb_projects db)) of
        None \<Rightarrow> None
      | Some p \<Rightarrow>
          (case ep_clientId p of
             None \<Rightarrow> None
           | Some c \<Rightarrow> Option.bind (find_row (\<lambda>r. ek_id r = c) (eb_clients db)) ek_email))"

definition send_estimate :: "date \<Rightarrow> uid \<Rightarrow> string \<Rightarrow> uid \<Rightarrow> est_db \<Rightarrow> string option est_op" where
  "send_estimate now companyId token i db =
     (case find_est companyId i db of
        Inl e \<Rightarrow> (Inl e, db)
      | Inr e \<Rightarrow>
          if es_status e \<noteq> Es_approved
          then (Inl (BadRequestException (msg ''Only an approved estimate can be sent to the client'')), db)
          else (Inr (client_email e db),
                enqueue companyId ''estimate.sent'' i
                  (update_est i (\<lambda>e. e\<lparr>es_clientAccessToken := Some token, es_sentAt := Some now,
                     es_clientDecision := Dec_pending, es_decisionAt := None,
                     es_clientDecisionNote := None\<rparr>) db)))"

subsection \<open>Decisions\<close>

datatype client_input =
    Approve "string option" string string
  | Reject "string option"
  | Counter "string option" number

fun input_decision :: "client_input \<Rightarrow> decision" where
  "input_decision (Approve _ _ _) = Dec_approved"
| "input_decision (Reject _) = Dec_rejected"
| "input_decision (Counter _ _) = Dec_countered"

fun input_note :: "client_input \<Rightarrow> string option" where
  "input_note (Approve n _ _) = n"
| "input_note (Reject n) = n"
| "input_note (Counter n _) = n"

definition keep :: "'a option \<Rightarrow> 'a option \<Rightarrow> 'a option" where
  "keep new old = (case new of None \<Rightarrow> old | Some v \<Rightarrow> Some v)"

definition decide_row :: "date \<Rightarrow> client_input \<Rightarrow> string option \<Rightarrow> estimate \<Rightarrow> estimate" where
  "decide_row now d signerIp e =
     (let e1 = e\<lparr>es_clientDecision := input_decision d, es_decisionAt := Some now,
                 es_clientDecisionNote := keep (input_note d) (es_clientDecisionNote e)\<rparr>
      in case d of
           Approve _ signer key \<Rightarrow>
             e1\<lparr>es_signerName := Some signer, es_signatureImageKey := Some key,
                es_signedIp := keep signerIp (es_signedIp e)\<rparr>
         | Reject _ \<Rightarrow> e1
         | Counter _ amount \<Rightarrow> e1\<lparr>es_counterOfferAmount := Some amount\<rparr>)"

definition root_of :: "estimate \<Rightarrow> uid" where
  "root_of e = (case es_variantOfId e of None \<Rightarrow> es_id e | Some r \<Rightarrow> r)"

definition sibling :: "estimate \<Rightarrow> estimate \<Rightarrow> bool" where
  "sibling e x \<longleftrightarrow> es_companyId x = es_companyId e \<and> es_id x \<noteq> es_id e \<and>
     (es_id x = root_of e \<or> es_variantOfId x = Some (root_of e))"

definition decline_siblings :: "date \<Rightarrow> estimate \<Rightarrow> est_db \<Rightarrow> est_db" where
  "decline_siblings now e db =
     db\<lparr>eb_estimates := update_rows (\<lambda>x. sibling e x \<and> es_clientDecision x = Dec_pending)
          (\<lambda>x. x\<lparr>es_clientDecision := Dec_rejected, es_decisionAt := Some now,
                 es_clientDecisionNote := Some ''Auto-declined - a sibling variant was approved''\<rparr>)
          (eb_estimates db)\<rparr>"

definition decision_event :: "client_input \<Rightarrow> string" where
  "decision_event d = (case d of Approve _ _ _ \<Rightarrow> ''estimate.client_approved''
     | Counter _ _ \<Rightarrow> ''estimate.client_countered'' | Reject _ \<Rightarrow> ''estimate.client_rejected'')"

definition applyDecision :: "(est_db \<Rightarrow> est_db) \<Rightarrow> date \<Rightarrow> estimate \<Rightarrow> client_input \<Rightarrow> string option \<Rightarrow> est_db \<Rightarrow> decision est_op" where
  "applyDecision env now e d signerIp db =
     (if es_clientDecision e \<noteq> Dec_pending
      then (Inl (BadRequestException (msg ''This estimate has already been decided'')), db)
      else
        (let db1 = update_est (es_id e) (decide_row now d signerIp) (env db);
             db2 = (if input_decision d = Dec_approved then decline_siblings now e db1 else db1)
         in (Inr (input_decision d), enqueue (es_companyId e) (decision_event d) (es_id e) db2)))"

definition decide :: "(est_db \<Rightarrow> est_db) \<Rightarrow> date \<Rightarrow> string \<Rightarrow> client_input \<Rightarrow> string option \<Rightarrow> est_db \<Rightarrow> decision est_op" where
  "decide env now token d signerIp db =
     (case find_row (\<lambda>e. es_clientAccessToken e = Some token) (eb_estimates db) of
        None \<Rightarrow> (Inl (NotFoundException (msg ''Estimate not found'')), db)
      | Some e \<Rightarrow> applyDecision env now e d signerIp db)"

definition decideForClient :: "(est_db \<Rightarrow> est_db) \<Rightarrow> date \<Rightarrow> uid \<Rightarrow> uid \<Rightarrow> uid \<Rightarrow> client_input \<Rightarrow> string option
    \<Rightarrow> est_db \<Rightarrow> decision est_op" where
  "decideForClient env now companyId clientId i d signerIp db =
     (case find_row (\<lambda>e. es_id e = i \<and> es_companyId e = companyId \<and> es_sentAt e \<noteq> None \<and>
              (\<exists>p \<in> set (eb_projects db). es_projectId e = Some (ep_id p) \<and> ep_clientId p = Some clientId))
            (eb_estimates db) of
        None \<Rightarrow> (Inl (NotFoundException (msg ''Estimate not found'')), db)
      | Some e \<Rightarrow> applyDecision env now e d signerIp db)"

definition declineOnBehalfOfClient :: "(est_db \<Rightarrow> est_db) \<Rightarrow> date \<Rightarrow> uid \<Rightarrow> uid \<Rightarrow> string \<Rightarrow> est_db \<Rightarrow> decision est_op" where
  "declineOnBehalfOfClient env now companyId i note db =
     (case find_est companyId i db of
        Inl e \<Rightarrow> (Inl e, db)
      | Inr e \<Rightarrow>
          if es_sentAt e = None
          then (Inl (BadRequestException (msg ''This estimate hasn't been sent to the client yet'')), db)
          else applyDecision env now e (Reject (Some note)) None db)"

record public_estimate =
  pe_id :: uid
  pe_name :: string
  pe_variantLabel :: "string option"
  pe_clientDecision :: decision
  pe_decisionAt :: "date option"
  pe_clientDecisionNote :: "string option"
  pe_counterOfferAmount :: "number option"
  pe_currency :: string
  pe_lines :: "(uid \<times> number \<times> number) list"
  pe_subtotal :: number
  pe_markupAmount :: number
  pe_taxAmount :: number
  pe_grandTotal :: number

definition getByToken :: "string \<Rightarrow> est_db \<Rightarrow> app_error + public_estimate" where
  "getByToken token db =
     (case find_row (\<lambda>e. es_clientAccessToken e = Some token) (eb_estimates db) of
        None \<Rightarrow> Inl (NotFoundException (msg ''Estimate not found''))
      | Some e \<Rightarrow>
          Inr \<lparr>pe_id = es_id e, pe_name = es_name e, pe_variantLabel = es_variantLabel e,
               pe_clientDecision = es_clientDecision e, pe_decisionAt = es_decisionAt e,
               pe_clientDecisionNote = es_clientDecisionNote e, pe_counterOfferAmount = es_counterOfferAmount e,
               pe_currency = es_currency e,
               pe_lines = map (\<lambda>l. (el_id l, el_quantity l, el_lineTotal l)) (est_lines (es_id e) db),
               pe_subtotal = tt_subtotal (es_totals e), pe_markupAmount = tt_markup (es_totals e),
               pe_taxAmount = tt_tax (es_totals e), pe_grandTotal = tt_grandTotal (es_totals e)\<rparr>)"

subsection \<open>Variants and templates\<close>

fun clone_sections :: "uid \<Rightarrow> est_section list \<Rightarrow> est_db \<Rightarrow> (uid \<times> uid) list \<times> est_db" where
  "clone_sections target [] db = ([], db)"
| "clone_sections target (s # ss) db =
     (let i = eb_uid db;
          db1 = db\<lparr>eb_sections := eb_sections db @
            [\<lparr>sn_id = i, sn_estimateId = target, sn_name = sn_name s, sn_sortOrder = sn_sortOrder s\<rparr>],
            eb_uid := Suc i\<rparr>
      in case clone_sections target ss db1 of (ids, db2) \<Rightarrow> ((sn_id s, i) # ids, db2))"

definition clone_line :: "uid \<Rightarrow> (uid \<times> uid) list \<Rightarrow> est_line \<Rightarrow> uid \<Rightarrow> est_line" where
  "clone_line target ids l i =
     new_line i target (Option.bind (el_sectionId l) (map_of ids)) (el_rateItemId l) (el_quantity l)
       (el_sortOrder l) None"

definition cloneSectionsAndLines :: "uid \<Rightarrow> string option \<Rightarrow> est_section list \<Rightarrow> est_line list \<Rightarrow> uid \<Rightarrow> est_db
    \<Rightarrow> estimate_view est_op" where
  "cloneSectionsAndLines companyId role sections lines target db =
     (case clone_sections target sections db of
        (ids, db1) \<Rightarrow>
          if lines \<noteq> []
          then recalculate companyId role target (fold (\<lambda>l. insert_line (clone_line target ids l)) lines db1)
          else (shown companyId role False target db1, db1))"

definition createVariant :: "date \<Rightarrow> uid \<Rightarrow> string option \<Rightarrow> uid \<Rightarrow> string \<Rightarrow> est_db \<Rightarrow> estimate_view est_op" where
  "createVariant now companyId role i label db =
     (case find_est companyId i db of
        Inl e \<Rightarrow> (Inl e, db)
      | Inr source \<Rightarrow>
          (case insert_estimate ((blank_estimate now companyId (es_projectId source) (es_name source)
                  (es_rates source) (es_currency source))
                \<lparr>es_variantOfId := Some (root_of source), es_variantLabel := Some label\<rparr>) db of
             (target, db1) \<Rightarrow>
               cloneSectionsAndLines companyId role (est_sections i db) (est_lines i db) target db1))"

definition listVariants :: "uid \<Rightarrow> uid \<Rightarrow> est_db \<Rightarrow> app_error + estimate list" where
  "listVariants companyId i db =
     (case find_est companyId i db of
        Inl e \<Rightarrow> Inl e
      | Inr source \<Rightarrow>
          Inr (sort_key es_createdAt (filter (\<lambda>e. es_companyId e = companyId \<and>
            (es_id e = root_of source \<or> es_variantOfId e = Some (root_of source))) (eb_estimates db))))"

definition saveAsTemplate :: "date \<Rightarrow> uid \<Rightarrow> string option \<Rightarrow> uid \<Rightarrow> string \<Rightarrow> est_db \<Rightarrow> estimate_view est_op" where
  "saveAsTemplate now companyId role i name db =
     (case find_est companyId i db of
        Inl e \<Rightarrow> (Inl e, db)
      | Inr e \<Rightarrow>
          (case insert_estimate ((blank_estimate now companyId None name (es_rates e) ''EUR'')
                \<lparr>es_isTemplate := True\<rparr>) db of
             (target, db1) \<Rightarrow>
               cloneSectionsAndLines companyId role (est_sections i db) (est_lines i db) target db1))"

definition createFromTemplate :: "date \<Rightarrow> uid \<Rightarrow> string option \<Rightarrow> uid \<Rightarrow> uid \<Rightarrow> string \<Rightarrow> calc_options \<Rightarrow> est_db
    \<Rightarrow> estimate_view est_op" where
  "createFromTemplate now companyId role templateId projectId name rates db =
     (case find_row (\<lambda>e. es_id e = templateId \<and> es_companyId e = companyId \<and> es_isTemplate e) (eb_estimates db) of
        None \<Rightarrow> (Inl (NotFoundException (msg ''Template not found'')), db)
      | Some template \<Rightarrow>
          (case find_est_project companyId projectId db of
             None \<Rightarrow> (Inl (NotFoundException (msg ''Project not found'')), db)
           | Some p \<Rightarrow>
               (case resolveCurrency companyId p db of
                  Inl e \<Rightarrow> (Inl e, db)
                | Inr currency \<Rightarrow>
                    (case insert_estimate (blank_estimate now companyId (Some projectId) name rates currency) db of
                       (target, db1) \<Rightarrow>
                         cloneSectionsAndLines companyId role (est_sections templateId db)
                           (est_lines templateId db) target db1))))"

definition listTemplates :: "uid \<Rightarrow> est_db \<Rightarrow> estimate list" where
  "listTemplates companyId db =
     sort_key es_name (filter (\<lambda>e. es_companyId e = companyId \<and> es_isTemplate e) (eb_estimates db))"

subsection \<open>Suggestions\<close>

fun count_item :: "uid \<Rightarrow> (uid \<times> nat) list \<Rightarrow> (uid \<times> nat) list" where
  "count_item k [] = [(k, 1)]"
| "count_item k ((k', n) # rest) = (if k = k' then (k', Suc n) # rest else (k', n) # count_item k rest)"

definition approved_estimate :: "uid \<Rightarrow> uid \<Rightarrow> est_db \<Rightarrow> bool" where
  "approved_estimate companyId i db \<longleftrightarrow>
     (\<exists>e \<in> set (eb_estimates db). es_id e = i \<and> es_companyId e = companyId \<and> es_status e = Es_approved)"

definition suggestedLines :: "uid \<Rightarrow> uid \<Rightarrow> nat \<Rightarrow> est_db \<Rightarrow> app_error + (rate_row \<times> nat) list" where
  "suggestedLines companyId i limit db =
     (case find_est companyId i db of
        Inl e \<Rightarrow> Inl e
      | Inr _ \<Rightarrow>
          (let current = map el_rateItemId (est_lines i db);
               approved = filter (\<lambda>l. approved_estimate companyId (el_estimateId l) db) (eb_lines db);
               matches = map el_estimateId (filter (\<lambda>l. el_rateItemId l \<in> set current) approved);
               siblings = (if current = [] then approved
                           else filter (\<lambda>l. el_estimateId l \<in> set matches) (eb_lines db));
               counts = fold count_item
                 (filter (\<lambda>k. k \<notin> set current) (map el_rateItemId siblings)) [];
               ranked = take limit (sort_key (\<lambda>(_, n). - int n) counts)
           in Inr (concat (map (\<lambda>(k, n). case find_row (\<lambda>r. rr_id r = k) (eb_rates db) of
                None \<Rightarrow> [] | Some r \<Rightarrow> [(r, n)]) ranked))))"

subsection \<open>Reminders\<close>

definition CADENCE_DAYS :: "int list" where
  "CADENCE_DAYS = [3, 7, 14]"

definition DAY_MS :: int where
  "DAY_MS = 24 * 60 * 60 * 1000"

definition reminder_candidates :: "uid \<Rightarrow> est_db \<Rightarrow> estimate list" where
  "reminder_candidates companyId db =
     filter (\<lambda>e. es_companyId e = companyId \<and> es_sentAt e \<noteq> None \<and> es_clientDecision e = Dec_pending \<and>
       es_reminderCount e < length CADENCE_DAYS) (eb_estimates db)"

definition reminder_due :: "date \<Rightarrow> estimate \<Rightarrow> est_db \<Rightarrow> bool" where
  "reminder_due now e db \<longleftrightarrow>
     CADENCE_DAYS ! es_reminderCount e \<le> (now - the (es_sentAt e)) div DAY_MS \<and> truthy (client_email e db)"

definition remindPendingEstimates :: "date \<Rightarrow> uid \<Rightarrow> est_db \<Rightarrow> nat \<times> est_db" where
  "remindPendingEstimates now companyId db =
     (let due = filter (\<lambda>e. reminder_due now e db) (reminder_candidates companyId db)
      in (length due,
          fold (\<lambda>e. update_est (es_id e)
            (\<lambda>x. x\<lparr>es_reminderCount := Suc (es_reminderCount e), es_lastReminderSentAt := Some now\<rparr>)) due db))"

end
