(* ===== verification/Estimate_Laws.thy ===== *)
theory Estimate_Laws
  imports Estimate_Client "HOL-Library.Sublist"
begin

section \<open>What holds of estimates over every sequence of operations\<close>

text \<open>
  Revisions are only ever appended and are numbered without gaps; an estimate above the company's
  threshold is approved only with enough approvals by different people; a client decides once for
  each time the estimate is sent. The operations are taken apart into the few ways they write the
  tables (\<open>core\<close> says what most of them leave alone).
\<close>

subsection \<open>The invariant\<close>

definition versions :: "uid \<Rightarrow> est_db \<Rightarrow> nat list" where
  "versions i db = map rv_versionNumber (filter (\<lambda>r. rv_estimateId r = i) (eb_revisions db))"

definition unique_approvals :: "approval list \<Rightarrow> bool" where
  "unique_approvals as \<longleftrightarrow> distinct (map (\<lambda>a. (ap_subjectId a, ap_userId a)) as)"

lemma card_distinct_approvers:
  "unique_approvals as \<Longrightarrow> card (set (map ap_userId (approvals_of i as))) = length (approvals_of i as)"
proof -
  assume "unique_approvals as"
  then have "distinct (map ap_userId (approvals_of i as))"
    by (simp add: unique_approvals_def approvals_of_def distinct_map inj_on_def)
  then show ?thesis by (metis distinct_card length_map)
qed

definition core :: "est_db \<Rightarrow> (uid \<times> nat) list \<times> revision list \<times> approval list" where
  "core db = (map (\<lambda>e. (es_id e, es_currentVersion e)) (eb_estimates db), eb_revisions db, eb_approvals db)"

definition est_inv :: "est_db \<Rightarrow> bool" where
  "est_inv db \<longleftrightarrow>
     distinct (map es_id (eb_estimates db)) \<and>
     (\<forall>e \<in> set (eb_estimates db). es_id e < eb_uid db \<and> 1 \<le> es_currentVersion e \<and>
        versions (es_id e) db = [1..<es_currentVersion e]) \<and>
     (\<forall>r \<in> set (eb_revisions db). rv_estimateId r < eb_uid db) \<and>
     unique_approvals (eb_approvals db)"

text \<open>\<open>advances db db'\<close>: the invariant is kept and no revision is lost or changed.\<close>

definition advances :: "est_db \<Rightarrow> est_db \<Rightarrow> bool" where
  "advances db db' \<longleftrightarrow> (est_inv db \<longrightarrow> est_inv db' \<and> prefix (eb_revisions db) (eb_revisions db'))"

lemma advances_refl [simp]: "advances db db"
  by (simp add: advances_def)

lemma advances_trans [trans]: "advances a b \<Longrightarrow> advances b c \<Longrightarrow> advances a c"
  unfolding advances_def using prefix_order.trans by blast

definition frames :: "est_db \<Rightarrow> est_db \<Rightarrow> bool" where
  "frames db db' \<longleftrightarrow> core db' = core db \<and> eb_uid db \<le> eb_uid db'"

lemma frames_refl [simp]: "frames db db"
  by (simp add: frames_def)

lemma frames_trans [trans]: "frames a b \<Longrightarrow> frames b c \<Longrightarrow> frames a c"
  by (simp add: frames_def)

lemma inv_by_core:
  "est_inv db \<longleftrightarrow>
     (case core db of (ids, revs, as) \<Rightarrow>
        distinct (map fst ids) \<and>
        (\<forall>(i, v) \<in> set ids. i < eb_uid db \<and> 1 \<le> v \<and>
           map rv_versionNumber (filter (\<lambda>r. rv_estimateId r = i) revs) = [1..<v]) \<and>
        (\<forall>r \<in> set revs. rv_estimateId r < eb_uid db) \<and> unique_approvals as)"
  by (auto simp: est_inv_def core_def versions_def o_def)

lemma frames_advances: "frames db db' \<Longrightarrow> advances db db'"
  unfolding frames_def advances_def inv_by_core by (force simp: core_def)

subsection \<open>What the writes leave alone\<close>

lemma find_row_update_any:
  assumes "\<And>r. p (f r) = p r"
  shows "find_row p (update_rows q f rows) =
    map_option (\<lambda>r. if q r then f r else r) (find_row p rows)"
  by (induction rows) (auto simp: update_rows_def row_simps assms)

lemma map_update_est:
  "(\<And>e. g (f e) = g e) \<Longrightarrow> map g (eb_estimates (update_est i f db)) = map g (eb_estimates db)"
  by (simp add: update_est_def map_update_rows)

lemma update_est_other [simp]:
  "eb_uid (update_est i f db) = eb_uid db" "eb_revisions (update_est i f db) = eb_revisions db"
  "eb_approvals (update_est i f db) = eb_approvals db" "eb_lines (update_est i f db) = eb_lines db"
  "eb_companies (update_est i f db) = eb_companies db" "eb_rates (update_est i f db) = eb_rates db"
  "eb_requirements (update_est i f db) = eb_requirements db"
  "eb_materials (update_est i f db) = eb_materials db" "eb_sections (update_est i f db) = eb_sections db"
  by (simp_all add: update_est_def)

lemma enqueue_other [simp]:
  "eb_uid (enqueue c ev i db) = eb_uid db" "eb_revisions (enqueue c ev i db) = eb_revisions db"
  "eb_approvals (enqueue c ev i db) = eb_approvals db" "eb_estimates (enqueue c ev i db) = eb_estimates db"
  "eb_lines (enqueue c ev i db) = eb_lines db"
  by (simp_all add: enqueue_def)

lemma frames_update_est:
  "(\<And>e. es_id (f e) = es_id e \<and> es_currentVersion (f e) = es_currentVersion e) \<Longrightarrow> frames db (update_est i f db)"
  by (simp add: frames_def core_def map_update_est)

lemma frames_enqueue [simp]: "frames db (enqueue c ev i db)"
  by (simp add: frames_def core_def)

lemma frames_insert_line [simp]: "frames db (insert_line l db)"
  by (simp add: frames_def core_def insert_line_def)

lemma frames_fold: "(\<And>x db. frames db (f x db)) \<Longrightarrow> frames db (fold f xs db)"
  by (induction xs arbitrary: db) (auto intro: frames_trans)

lemma frames_clone_sections: "clone_sections t ss db = (ids, db') \<Longrightarrow> frames db db'"
proof (induction ss arbitrary: db ids)
  case (Cons s ss)
  let ?db1 = "db\<lparr>eb_sections := eb_sections db @ [\<lparr>sn_id = eb_uid db, sn_estimateId = t, sn_name = sn_name s,
      sn_sortOrder = sn_sortOrder s\<rparr>], eb_uid := Suc (eb_uid db)\<rparr>"
  from Cons.prems have "frames ?db1 db'"
    by (cases "clone_sections t ss ?db1") (auto simp: Let_def dest: Cons.IH)
  moreover have "frames db ?db1" by (simp add: frames_def core_def)
  ultimately show ?case by (blast intro: frames_trans)
qed simp

lemma frames_recalc: "recalc c i db = Inr db' \<Longrightarrow> frames db db'"
  by (auto simp: recalc_def frames_def core_def map_update_est split: sum.splits if_splits)

lemma frames_recalculate: "frames db (snd (recalculate c role i db))"
  using frames_recalc by (auto simp: recalculate_def split: sum.splits)

lemma frames_decline: "frames db (decline_siblings now e db)"
  by (simp add: frames_def core_def decline_siblings_def map_update_rows)

lemma decide_row_keeps [simp]:
  "es_id (decide_row now d ip e) = es_id e" "es_currentVersion (decide_row now d ip e) = es_currentVersion e"
  by (simp_all add: decide_row_def Let_def split: client_input.split)

subsection \<open>The writes that do not\<close>

lemma advances_insert:
  assumes "es_currentVersion e = 1"
  shows "advances db (snd (insert_estimate e db))"
  using assms unfolding advances_def inv_by_core
  by (fastforce simp: insert_estimate_def core_def filter_empty_conv)

lemma advances_finalize:
  assumes "(es_id e, es_currentVersion e) \<in> set (fst (core db))"
  shows "advances db (finalize_tx c e ls r db)"
proof -
  let ?i = "es_id e" and ?v = "es_currentVersion e"
  let ?up = "\<lambda>x. if es_id x = ?i then Suc (es_currentVersion x) else es_currentVersion x"
  have ids: "map es_id (eb_estimates (finalize_tx c e ls r db)) = map es_id (eb_estimates db)"
    by (simp add: finalize_tx_def update_est_def map_update_rows)
  have rows: "\<exists>y \<in> set (eb_estimates db). es_id x = es_id y \<and> es_currentVersion x = ?up y"
    if "x \<in> set (eb_estimates (finalize_tx c e ls r db))" for x
    using that by (auto simp: finalize_tx_def update_est_def update_rows_def)
  have revs: "eb_revisions (finalize_tx c e ls r db) = eb_revisions db @
      [\<lparr>rv_id = eb_uid db, rv_estimateId = ?i, rv_versionNumber = ?v, rv_name = es_name e,
        rv_rates = es_rates e, rv_totals = es_totals e, rv_lines = map (revision_line_of c db) ls\<rparr>]"
    by (simp add: finalize_tx_def)
  have rest: "eb_uid (finalize_tx c e ls r db) = Suc (eb_uid db)"
    "eb_approvals (finalize_tx c e ls r db) = eb_approvals db"
    by (simp_all add: finalize_tx_def)
  show ?thesis unfolding advances_def
  proof (intro impI conjI)
    assume inv: "est_inv db"
    from assms obtain y where y: "y \<in> set (eb_estimates db)" "es_id y = ?i" "es_currentVersion y = ?v"
      by (auto simp: core_def)
    have same: "es_currentVersion z = ?v" if "z \<in> set (eb_estimates db)" "es_id z = ?i" for z
      using inv y that by (metis est_inv_def distinct_map inj_on_def)
    have "versions (es_id x) (finalize_tx c e ls r db) = [1..<es_currentVersion x] \<and>
        1 \<le> es_currentVersion x \<and> es_id x < Suc (eb_uid db)"
      if x: "x \<in> set (eb_estimates (finalize_tx c e ls r db))" for x
    proof -
      from rows [OF x] obtain z where z: "z \<in> set (eb_estimates db)" "es_id x = es_id z"
        "es_currentVersion x = ?up z" by blast
      with inv have "versions (es_id z) db = [1..<es_currentVersion z]" "1 \<le> es_currentVersion z"
        "es_id z < eb_uid db" by (auto simp: est_inv_def)
      then show ?thesis using z same [of z] by (auto simp: versions_def revs)
    qed
    moreover have "?i < eb_uid db" using inv y by (auto simp: est_inv_def)
    ultimately show "est_inv (finalize_tx c e ls r db)"
      using inv by (auto simp: est_inv_def ids revs rest less_Suc_eq)
    show "prefix (eb_revisions db) (eb_revisions (finalize_tx c e ls r db))"
      by (simp add: revs)
  qed
qed

subsection \<open>Approval\<close>

lemma find_est_core: "find_est c i db = Inr e \<Longrightarrow> (es_id e, es_currentVersion e) \<in> set (fst (core db)) \<and> es_id e = i"
  by (auto simp: find_est_def core_def dest!: find_row_SomeD split: option.splits)

lemma advances_finalizeApproval:
  assumes "(es_id e, es_currentVersion e) \<in> set (fst (core db))"
  shows "advances db (snd (finalizeApproval c role e ls db))"
  using advances_finalize [OF assms] by (auto simp: finalizeApproval_def Let_def split: sum.splits)

text \<open>An approval step inserts an approval by a user that has none yet for the estimate.\<close>

definition with_approval :: "approval \<Rightarrow> est_db \<Rightarrow> est_db" where
  "with_approval a db = update_est (ap_subjectId a) (\<lambda>x. x\<lparr>es_status := Es_pending_approval\<rparr>)
     (db\<lparr>eb_approvals := eb_approvals db @ [a]\<rparr>)"

lemma with_approval_core [simp]: "fst (core (with_approval a db)) = fst (core db)"
  by (simp add: core_def with_approval_def map_update_est)

lemma with_approval_other [simp]:
  "eb_approvals (with_approval a db) = eb_approvals db @ [a]" "eb_revisions (with_approval a db) = eb_revisions db"
  "eb_uid (with_approval a db) = eb_uid db"
  by (simp_all add: with_approval_def)

lemma advances_with_approval:
  assumes "\<forall>b \<in> set (eb_approvals db). (ap_subjectId b, ap_userId b) \<noteq> (ap_subjectId a, ap_userId a)"
  shows "advances db (with_approval a db)"
  using assms unfolding advances_def inv_by_core
  by (force simp: core_def unique_approvals_def with_approval_def map_update_est)

lemma recordApprovalStep_cases:
  assumes "recordApprovalStep now c actor role e ls n db = (r, db')"
  obtains "db' = db" "isl r"
  | a where "\<forall>b \<in> set (eb_approvals db). (ap_subjectId b, ap_userId b) \<noteq> (ap_subjectId a, ap_userId a)"
      "ap_subjectId a = es_id e" "ac_userId actor = Some (ap_userId a)"
      "(r, db') = (if n \<le> length (approvals_of (es_id e) (eb_approvals (with_approval a db)))
         then finalizeApproval c role e ls (with_approval a db)
         else (shown c role False (es_id e) (with_approval a db), with_approval a db))"
proof (cases "ac_userId actor")
  case None
  with assms that(1) show thesis by (auto simp: recordApprovalStep_def)
next
  case (Some u)
  let ?a = "\<lparr>ap_subjectId = es_id e, ap_userId = u, ap_actorName = ac_name actor, ap_approvedAt = now\<rparr>"
  show thesis
  proof (cases "\<exists>b \<in> set (eb_approvals db). ap_subjectId b = es_id e \<and> ap_userId b = u")
    case True
    with Some assms that(1) show thesis by (auto simp: recordApprovalStep_def)
  next
    case False
    have "recordApprovalStep now c actor role e ls n db =
        (let db1 = with_approval ?a db
         in if n \<le> length (approvals_of (es_id e) (eb_approvals db1))
            then finalizeApproval c role e ls db1 else (shown c role False (es_id e) db1, db1))"
      by (simp only: recordApprovalStep_def Some option.case if_not_P [OF False] with_approval_def approval.simps)
    with False Some assms show thesis by (intro that(2) [of ?a]) (auto simp only: Let_def approval.simps)
  qed
qed

lemma advances_recordApprovalStep:
  assumes "(es_id e, es_currentVersion e) \<in> set (fst (core db))"
  shows "advances db (snd (recordApprovalStep now c actor role e ls n db))"
proof (cases "recordApprovalStep now c actor role e ls n db")
  case (Pair r db')
  then show ?thesis
  proof (cases rule: recordApprovalStep_cases)
    case (2 a)
    from 2(1) have "advances db (with_approval a db)" by (rule advances_with_approval)
    moreover have "advances (with_approval a db) db'"
      using 2(4) advances_finalizeApproval [of e "with_approval a db" c role ls] assms
      by (cases "n \<le> length (approvals_of (es_id e) (eb_approvals (with_approval a db)))") (auto dest: sym)
    ultimately show ?thesis using Pair by (auto intro: advances_trans)
  qed (simp add: Pair)
qed

lemma advances_approve: "advances db (snd (approve now c actor role i db))"
proof (cases "recalc c i db")
  case (Inr db1)
  then have 1: "advances db db1" by (intro frames_advances frames_recalc)
  have "advances db1 (snd (approve now c actor role i db))"
    by (auto simp: approve_def Inr split: sum.splits option.splits
        intro!: advances_finalizeApproval advances_recordApprovalStep dest: find_est_core)
  with 1 show ?thesis by (rule advances_trans)
qed (simp add: approve_def)

subsection \<open>Every operation\<close>

lemma advances_inserted:
  "insert_estimate e db = (i, db') \<Longrightarrow> es_currentVersion e = 1 \<Longrightarrow> advances db db'"
  using advances_insert [of e db] by simp

lemma frames_cloned: "frames db (snd (cloneSectionsAndLines c role ss ls t db))"
proof (cases "clone_sections t ss db")
  case (Pair ids db1)
  then have 1: "frames db db1" by (rule frames_clone_sections)
  have 2: "frames db1 (fold (\<lambda>l. insert_line (clone_line t ids l)) ls db1)" by (rule frames_fold) simp
  show ?thesis
    using 1 frames_trans [OF 1 frames_trans [OF 2 frames_recalculate]]
    by (simp add: cloneSectionsAndLines_def Pair)
qed

lemma advances_new_clone:
  assumes "insert_estimate e db = (i, db1)" and "es_currentVersion e = 1"
  shows "advances db (snd (cloneSectionsAndLines c role ss ls i db1))"
  using advances_trans [OF advances_inserted [OF assms] frames_advances [OF frames_cloned]] .

lemma advances_create: "advances db (snd (create_estimate now c p name rates db))"
  by (auto simp: create_estimate_def blank_estimate_def split: option.splits sum.splits prod.splits
      intro: advances_inserted)

lemma advances_createVariant: "advances db (snd (createVariant now c role i label db))"
  by (auto simp: createVariant_def blank_estimate_def split: sum.splits prod.splits intro: advances_new_clone)

lemma advances_saveAsTemplate: "advances db (snd (saveAsTemplate now c role i name db))"
  by (auto simp: saveAsTemplate_def blank_estimate_def split: sum.splits prod.splits intro: advances_new_clone)

lemma advances_createFromTemplate: "advances db (snd (createFromTemplate now c role t p name rates db))"
  by (auto simp: createFromTemplate_def blank_estimate_def split: option.splits sum.splits prod.splits
      intro: advances_new_clone)

lemma frames_addLine: "frames db (snd (addLine c role i r q s k db))"
  by (auto simp: addLine_def split: sum.splits intro: frames_trans frames_insert_line frames_recalculate)

lemma frames_addAssembly: "frames db (snd (addAssemblyToEstimate c role i a q s db))"
  by (auto simp: addAssemblyToEstimate_def split: sum.splits option.splits
      intro!: frames_trans [OF frames_fold frames_recalculate])

lemma frames_updateCoverLetter: "frames db (snd (updateCoverLetter c i letter db))"
  by (auto simp: updateCoverLetter_def split: sum.splits intro!: frames_update_est)

lemma frames_send: "frames db (snd (send_estimate now c token i db))"
  by (auto simp: send_estimate_def split: sum.splits intro!: frames_trans [OF frames_update_est frames_enqueue])

lemma frames_remind: "frames db (snd (remindPendingEstimates now c db))"
  by (auto simp: remindPendingEstimates_def Let_def intro!: frames_fold frames_update_est)

text \<open>A decision runs after whatever other requests did since the estimate was read.\<close>

lemma frames_decided: "frames (env db) (snd (applyDecision env now e d ip db)) \<or> snd (applyDecision env now e d ip db) = db"
  by (auto simp: applyDecision_def Let_def
      intro!: frames_trans [OF frames_trans [OF frames_update_est frames_decline] frames_enqueue]
        frames_trans [OF frames_update_est frames_enqueue])

lemma advances_applyDecision:
  assumes "advances db (env db)" shows "advances db (snd (applyDecision env now e d ip db))"
  using frames_decided [of env db now e d ip] advances_trans [OF assms frames_advances] by force

lemmas decision_doors = decide_def decideForClient_def declineOnBehalfOfClient_def

text \<open>One request to the estimates service, by anyone; a reminder pass is one too. \<open>env\<close> is what
  other requests do while a decision is between its read and its write.\<close>

inductive est_step :: "est_db \<Rightarrow> est_db \<Rightarrow> bool" where
  create: "est_step db (snd (create_estimate now c p name rates db))"
| add_line: "est_step db (snd (addLine c role i r q s k db))"
| add_assembly: "est_step db (snd (addAssemblyToEstimate c role i a q s db))"
| cover_letter: "est_step db (snd (updateCoverLetter c i letter db))"
| recalculate: "est_step db (snd (recalculate c role i db))"
| approve: "est_step db (snd (approve now c actor role i db))"
| send: "est_step db (snd (send_estimate now c token i db))"
| decide: "est_step\<^sup>*\<^sup>* db (env db) \<Longrightarrow> est_step db (snd (decide env now token d ip db))"
| decide_for_client: "est_step\<^sup>*\<^sup>* db (env db) \<Longrightarrow> est_step db (snd (decideForClient env now c client i d ip db))"
| decline: "est_step\<^sup>*\<^sup>* db (env db) \<Longrightarrow> est_step db (snd (declineOnBehalfOfClient env now c i note db))"
| variant: "est_step db (snd (createVariant now c role i label db))"
| template: "est_step db (snd (saveAsTemplate now c role i name db))"
| from_template: "est_step db (snd (createFromTemplate now c role t p name rates db))"
| remind: "est_step db (snd (remindPendingEstimates now c db))"

lemma rtranclp_advances: "(\<lambda>x y. est_step x y \<and> advances x y)\<^sup>*\<^sup>* a b \<Longrightarrow> advances a b"
  by (induction rule: rtranclp_induct) (auto intro: advances_trans)

lemma step_advances: "est_step db db' \<Longrightarrow> advances db db'"
proof (induction rule: est_step.induct)
  case (decide db env now token d ip)
  then have "advances db (env db)" by (intro rtranclp_advances)
  then show ?case by (auto simp: decision_doors split: option.splits intro: advances_applyDecision)
next
  case (decide_for_client db env now c client i d ip)
  then have "advances db (env db)" by (intro rtranclp_advances)
  then show ?case by (auto simp: decision_doors split: option.splits intro: advances_applyDecision)
next
  case (decline db env now c i n)
  then have "advances db (env db)" by (intro rtranclp_advances)
  then show ?case by (auto simp: decision_doors split: sum.splits intro: advances_applyDecision)
qed (auto intro: frames_advances frames_addLine frames_addAssembly frames_updateCoverLetter frames_recalculate
    frames_send frames_remind advances_create advances_approve advances_createVariant advances_saveAsTemplate
    advances_createFromTemplate)

interpretation estimates: transition_system "\<lambda>db. db = db0 \<and> est_inv db0" est_step
  "\<lambda>db. est_inv db \<and> prefix (eb_revisions db0) (eb_revisions db)" for db0
proof unfold_locales
  show "est_inv t \<and> prefix (eb_revisions db0) (eb_revisions t)"
    if "est_inv s \<and> prefix (eb_revisions db0) (eb_revisions s)" "est_step s t" for s t
    using step_advances [OF that(2)] that(1) prefix_order.trans unfolding advances_def by blast
qed auto

end
