(* ===== verification/Estimate_Approval.thy ===== *)
theory Estimate_Approval
  imports Estimate_Laws
begin

section \<open>Approval, snapshots and the difference of revisions\<close>

text \<open>
  What \<open>approve\<close> of \<open>estimates.service.ts\<close> guarantees: the threshold-gated chain of distinct
  approvers, and the revision and material list that an approval freezes; and what
  \<open>diffRevisions\<close> reports.
\<close>

subsection \<open>Lookups after the writes\<close>

lemma find_est_update:
  assumes "\<And>e. es_id (f e) = es_id e" "\<And>e. es_companyId (f e) = es_companyId e"
  shows "find_est c i (update_est i f db) = map_sum id f (find_est c i db)"
  using find_row_update_any [of "\<lambda>e. es_id e = i \<and> es_companyId e = c" f "\<lambda>e. es_id e = i" "eb_estimates db"]
  by (auto simp: find_est_def update_est_def assms dest: find_row_SomeD split: option.splits)

lemma find_est_cong: "eb_estimates db = eb_estimates db' \<Longrightarrow> find_est c i db = find_est c i db'"
  by (simp add: find_est_def)

lemma find_est_keys: "find_est c i db = Inr e \<Longrightarrow> es_id e = i \<and> es_companyId e = c"
  by (auto simp: find_est_def dest: find_row_SomeD split: option.splits)

lemma est_lines_cong: "eb_lines db = eb_lines db' \<Longrightarrow> est_lines i db = est_lines i db'"
  by (simp add: est_lines_def)

lemma computeForLines_cong:
  "eb_rates db = eb_rates db' \<Longrightarrow> eb_materials db = eb_materials db' \<Longrightarrow>
     computeForLines c ls opts db = computeForLines c ls opts db'"
  by (simp add: computeForLines_def rates_by_id_def [abs_def] prices_by_id_def [abs_def] find_rate_def)

lemma store_line_keeps:
  assumes "\<And>l v w x. g (l\<lparr>el_materialsCost := v, el_laborCost := w, el_lineTotal := x\<rparr>) = g l"
  shows "map g (fold store_line rs ls) = map g ls"
  by (induction rs arbitrary: ls) (simp_all add: store_line_def map_update_rows assms)

text \<open>Storing the priced figures changes neither which lines an estimate has nor their order.\<close>

lemma map_eq_list_all2: "map k xs = map k ys \<longleftrightarrow> list_all2 (\<lambda>x y. k x = k y) xs ys"
  by (simp add: list.rel_map flip: list.rel_eq)

lemma map_filter_eq:
  assumes "map k xs = map k ys" and "\<And>x y. k x = k y \<Longrightarrow> p x = p y"
  shows "map k (filter p xs) = map k (filter p ys)"
  using assms(1) unfolding map_eq_list_all2
proof (induction rule: list_all2_induct)
  case (Cons x xs y ys)
  with assms(2) [OF Cons.hyps(1)] show ?case by simp
qed simp

lemma map_insort_eq:
  fixes f :: "'a \<Rightarrow> nat"
  assumes "map k xs = map k ys" and "k x = k y" and "\<And>x y. k x = k y \<Longrightarrow> f x = f y"
  shows "map k (insort_key f x xs) = map k (insort_key f y ys)"
  using assms(1) unfolding map_eq_list_all2
proof (induction rule: list_all2_induct)
  case (Cons u us v vs)
  with assms(2) assms(3) [OF assms(2)] assms(3) [OF Cons.hyps(1)] show ?case by simp
qed (simp add: assms(2))

lemma map_sort_eq:
  fixes f :: "'a \<Rightarrow> nat"
  assumes "map k xs = map k ys" and "\<And>x y. k x = k y \<Longrightarrow> f x = f y"
  shows "map k (sort_key f xs) = map k (sort_key f ys)"
  using assms(1) unfolding map_eq_list_all2
proof (induction rule: list_all2_induct)
  case (Cons x xs y ys)
  from Cons.IH have "map k (sort_key f xs) = map k (sort_key f ys)" by (simp add: map_eq_list_all2)
  from map_insort_eq [OF this Cons.hyps(1) assms(2)] show ?case by (simp add: sort_key_def map_eq_list_all2)
qed simp

definition line_key :: "est_line \<Rightarrow> uid \<times> uid \<times> uid option \<times> uid \<times> number \<times> nat" where
  "line_key l = (el_id l, el_estimateId l, el_sectionId l, el_rateItemId l, el_quantity l, el_sortOrder l)"

lemma est_lines_store:
  "map line_key (est_lines i (db\<lparr>eb_lines := fold store_line rs (eb_lines db)\<rparr>)) = map line_key (est_lines i db)"
  unfolding est_lines_def
  by (rule map_sort_eq, rule map_filter_eq) (simp_all add: store_line_keeps line_key_def)

lemma line_inputs_by_key: "map line_key ls = map line_key ms \<Longrightarrow> map est_line_input ls = map est_line_input ms"
  unfolding map_eq_list_all2 by (induction rule: list_all2_induct) (auto simp: line_key_def est_line_input_def)

text \<open>Pricing leaves an estimate whose totals are what its lines and rates give now.\<close>

definition priced :: "uid \<Rightarrow> uid \<Rightarrow> estimate \<Rightarrow> est_db \<Rightarrow> calc_result \<Rightarrow> bool" where
  "priced c i e db r \<longleftrightarrow>
     computeForLines c (map est_line_input (est_lines i db)) (es_rates e) db = Inr r \<and> es_totals e = cr_totals r"

lemma recalc_found:
  assumes "recalc c i db = Inr db'"
  obtains e r where "find_est c i db = Inr e" "find_est c i db' = Inr (e\<lparr>es_totals := cr_totals r\<rparr>)"
    "priced c i (e\<lparr>es_totals := cr_totals r\<rparr>) db' r" "eb_companies db' = eb_companies db"
    "eb_approvals db' = eb_approvals db" "eb_revisions db' = eb_revisions db" "eb_rates db' = eb_rates db"
proof -
  from assms obtain e where e: "find_est c i db = Inr e" by (auto simp: recalc_def split: sum.splits)
  show thesis
  proof (cases "est_lines i db = []")
    case True
    let ?r = "\<lparr>cr_lines = [], cr_totals = zero_totals, cr_requirements = []\<rparr>"
    have db': "db' = update_est i (\<lambda>e. e\<lparr>es_totals := zero_totals\<rparr>) db"
      using assms e True by (simp add: recalc_def)
    have "est_lines i db' = []" using True by (simp add: db' est_lines_def)
    with e show thesis
      by (intro that [of e ?r]) (simp_all add: db' find_est_update priced_def computeForLines_def)
  next
    case False
    with assms e obtain r where r: "computeForLines c (map est_line_input (est_lines i db)) (es_rates e) db = Inr r"
      and db': "db' = update_est i (\<lambda>e. e\<lparr>es_totals := cr_totals r\<rparr>)
        (db\<lparr>eb_lines := fold store_line (cr_lines r) (eb_lines db)\<rparr>)"
      by (auto simp: recalc_def split: sum.splits)
    have "est_lines i db' = est_lines i (db\<lparr>eb_lines := fold store_line (cr_lines r) (eb_lines db)\<rparr>)"
      by (simp add: db' est_lines_def)
    then have "map est_line_input (est_lines i db') = map est_line_input (est_lines i db)"
      by (intro line_inputs_by_key) (simp add: est_lines_store)
    moreover have "computeForLines c ls opts db' = computeForLines c ls opts db" for ls opts
      by (rule computeForLines_cong) (simp_all add: db')
    ultimately have "priced c i (e\<lparr>es_totals := cr_totals r\<rparr>) db' r" using r by (simp add: priced_def)
    moreover have "find_est c i db' = Inr (e\<lparr>es_totals := cr_totals r\<rparr>)"
      using e by (simp add: db' find_est_update) (simp add: find_est_def)
    ultimately show thesis using e by (intro that) (simp_all add: db')
  qed
qed

subsection \<open>The approval chain\<close>

definition below_threshold :: "uid \<Rightarrow> estimate \<Rightarrow> est_db \<Rightarrow> bool" where
  "below_threshold c e db \<longleftrightarrow>
     (\<exists>co. find_company c db = Some co \<and>
        (case ec_approvalThresholdAmount co of None \<Rightarrow> True | Some t \<Rightarrow> tt_grandTotal (es_totals e) < t))"

lemma finalizeApproval_priced:
  assumes "computeForLines c (map est_line_input ls) (es_rates e) db = Inr q"
  shows "snd (finalizeApproval c role e ls db) = finalize_tx c e ls q db"
  using assms by (simp add: finalizeApproval_def Let_def)

lemma with_approval_pricing:
  "computeForLines c ls opts (with_approval a db) = computeForLines c ls opts db"
  by (rule computeForLines_cong) (simp_all add: with_approval_def)

text \<open>The four ways an approval request ends, once the estimate has been recalculated.\<close>

lemma approve_cases:
  assumes run: "approve now c actor role i db = (r, db')" and "recalc c i db = Inr db1"
    and "find_est c i db1 = Inr e" and "priced c i e db1 q"
  obtains (refused) "db' = db1" "isl r" "es_status e \<noteq> Es_approved"
  | (final) "db' = finalize_tx c e (est_lines i db1) q db1" "es_status e = Es_approved \<or> below_threshold c e db1"
  | (step) a where "db' = with_approval a db1" "ap_subjectId a = i"
  | (last) a co where "db' = finalize_tx c e (est_lines i db1) q (with_approval a db1)" "ap_subjectId a = i"
      "ac_userId actor = Some (ap_userId a)" "find_company c db1 = Some co"
      "ec_requiredApprovalCount co \<le> length (approvals_of i (eb_approvals db1 @ [a]))"
proof -
  have price: "computeForLines c (map est_line_input (est_lines i db1)) (es_rates e) db1 = Inr q"
    using assms(4) by (simp add: priced_def)
  note fin = finalizeApproval_priced [OF price]
  have i: "es_id e = i" using assms(3) by (auto dest: find_est_keys)
  consider "es_status e = Es_approved \<or> below_threshold c e db1"
    | "es_status e \<noteq> Es_approved" "find_company c db1 = None"
    | co t where "es_status e \<noteq> Es_approved" "find_company c db1 = Some co"
        "ec_approvalThresholdAmount co = Some t" "t \<le> tt_grandTotal (es_totals e)"
    by (cases "find_company c db1") (fastforce simp: below_threshold_def split: option.splits)+
  then show thesis
  proof cases
    case 1
    have "approve now c actor role i db = finalizeApproval c role e (est_lines i db1) db1"
      using 1 by (auto simp: approve_def assms(2,3) below_threshold_def split: option.splits)
    with 1 fin [of role] run show thesis by (intro final) auto
  next
    case 2
    with run show thesis by (intro refused) (auto simp: approve_def assms(2,3))
  next
    case 3
    then have "recordApprovalStep now c actor role e (est_lines i db1) (ec_requiredApprovalCount co) db1 = (r, db')"
      using run by (simp add: approve_def assms(2,3))
    then show thesis
    proof (cases rule: recordApprovalStep_cases)
      case 1
      with 3 show thesis by (intro refused)
    next
      case (2 a)
      have fin': "snd (finalizeApproval c role e (est_lines i db1) (with_approval a db1)) =
          finalize_tx c e (est_lines i db1) q (with_approval a db1)"
        by (rule finalizeApproval_priced) (simp add: with_approval_pricing price)
      show thesis
      proof (cases "ec_requiredApprovalCount co \<le> length (approvals_of i (eb_approvals db1 @ [a]))")
        case True
        with 2 i fin' have "db' = finalize_tx c e (est_lines i db1) q (with_approval a db1)" by (auto dest: sym)
        with True 2 3 i show thesis by (intro last) auto
      next
        case False
        with 2 i show thesis by (intro step) auto
      qed
    qed
  qed
qed

lemma find_est_finalize:
  "find_est c' i (finalize_tx c e ls r db) =
     map_sum id (\<lambda>x. if es_id x = es_id e
        then x\<lparr>es_status := Es_approved, es_currentVersion := Suc (es_currentVersion x)\<rparr> else x) (find_est c' i db)"
proof -
  let ?f = "\<lambda>x. x\<lparr>es_status := Es_approved, es_currentVersion := Suc (es_currentVersion x)\<rparr>"
  have "find_est c' i (finalize_tx c e ls r db) =
      (case map_option (\<lambda>x. if es_id x = es_id e then ?f x else x)
         (find_row (\<lambda>e. es_id e = i \<and> es_companyId e = c') (eb_estimates db)) of
        None \<Rightarrow> Inl (NotFoundException (msg ''Estimate not found'')) | Some e \<Rightarrow> Inr e)"
    unfolding find_est_def finalize_tx_def update_est_def
    by (subst find_row_update_any [symmetric]) simp_all
  then show ?thesis by (auto simp: find_est_def split: option.splits)
qed

lemma find_est_with_approval:
  assumes "find_est c i db = Inr e" "ap_subjectId a = i"
  shows "find_est c i (with_approval a db) = Inr (e\<lparr>es_status := Es_pending_approval\<rparr>)"
  using assms by (simp add: with_approval_def find_est_update) (simp add: find_est_def)

definition approvers :: "uid \<Rightarrow> est_db \<Rightarrow> uid set" where
  "approvers i db = set (map ap_userId (approvals_of i (eb_approvals db)))"

lemma card_approvers:
  "unique_approvals (eb_approvals db) \<Longrightarrow> card (approvers i db) = length (approvals_of i (eb_approvals db))"
  unfolding approvers_def by (rule card_distinct_approvers)

text \<open>C20 Above the company's threshold, approval needs enough people: when an approve request turns
  an estimate that was not approved into an approved one and its total is at or above the
  threshold, the caller is a signed-in user, is among the approvers, and at least the required
  number of different users have approved it.\<close>

theorem approval_needs_distinct_approvers:
  assumes "est_inv db" and "find_est c i db = Inr e" and "es_status e \<noteq> Es_approved"
    and "find_company c db = Some co" and "ec_approvalThresholdAmount co = Some t"
    and "approve now c actor role i db = (r, db')" and "find_est c i db' = Inr e'"
    and "es_status e' = Es_approved" and "t \<le> tt_grandTotal (es_totals e')"
  shows "\<exists>u. ac_userId actor = Some u \<and> u \<in> approvers i db' \<and>
    ec_requiredApprovalCount co \<le> card (approvers i db')"
proof (cases "recalc c i db")
  case (Inl err)
  then show ?thesis using assms(2,3,6,7,8) by (simp add: approve_def)
next
  case (Inr db1)
  from recalc_found [OF this] obtain q where e1: "find_est c i db1 = Inr (e\<lparr>es_totals := cr_totals q\<rparr>)"
    "priced c i (e\<lparr>es_totals := cr_totals q\<rparr>) db1 q"
    and same: "eb_companies db1 = eb_companies db" using assms(2) by auto
  have co: "find_company c db1 = Some co" using assms(4) same by (simp add: find_company_def)
  have inv: "est_inv db'" using assms(1,6) advances_approve [of db now c actor role i] by (simp add: advances_def)
  from assms(6) Inr e1 show ?thesis
  proof (cases rule: approve_cases)
    case refused
    then have "es_status e' = es_status e" using e1 assms(7) by auto
    then show ?thesis using assms(3,8) by simp
  next
    case final
    then have "es_totals e' = cr_totals q" using e1 assms(7) by (auto simp: find_est_finalize split: if_splits)
    with final assms(3,5,9) co show ?thesis by (simp add: below_threshold_def)
  next
    case (step a)
    then show ?thesis using e1 assms(7,8) find_est_with_approval by fastforce
  next
    case (last a co')
    have "eb_approvals db' = eb_approvals db1 @ [a]" using last(1) by (simp add: finalize_tx_def)
    moreover have "unique_approvals (eb_approvals db')" using inv by (simp add: est_inv_def)
    ultimately show ?thesis using last co card_approvers [of db' i]
      by (auto simp: approvers_def approvals_of_def)
  qed
qed


subsection \<open>History\<close>

text \<open>C28 Revisions are history: over any sequence of requests (concurrent client decisions
  included) no revision is ever removed or changed, and the revisions of each estimate are
  numbered 1, 2, 3, ... up to the one before its current version.\<close>

theorem revision_history:
  assumes "est_inv db" and "est_step\<^sup>*\<^sup>* db db'"
  shows "prefix (eb_revisions db) (eb_revisions db') \<and>
    list_all (\<lambda>e. versions (es_id e) db' = [1..<es_currentVersion e]) (eb_estimates db')"
  using estimates.inv_reachable [of db db db'] assms by (auto simp: est_inv_def list_all_iff)

subsection \<open>Differences\<close>

definition keyed :: "revision_line list \<Rightarrow> (string \<times> number \<times> number) list" where
  "keyed ls = map (\<lambda>l. (rl_code l, rl_quantity l, rl_lineTotal l)) ls"

lemma by_code_distinct:
  assumes "distinct (map rl_code ls)"
  shows "by_code ls k = Some l \<longleftrightarrow> l \<in> set ls \<and> rl_code l = k"
  using assms find_row_key [of rl_code "rev ls" l k]
  by (auto simp: by_code_def rev_map [symmetric] dest: find_row_SomeD)

lemma by_code_None: "by_code ls k = None \<longleftrightarrow> k \<notin> rl_code ` set ls"
  by (auto simp: by_code_def find_row_None)

definition agree :: "('k \<times> 'v) set \<Rightarrow> ('k \<times> 'v) set \<Rightarrow> bool" where
  "agree A B \<longleftrightarrow> (\<forall>k v w. (k, v) \<in> A \<longrightarrow> (k, w) \<in> B \<longrightarrow> v = w)"

lemma agree_iff:
  assumes "inj_on fst A" "inj_on fst B"
  shows "A = B \<longleftrightarrow> agree A B \<and> fst ` A = fst ` B"
proof
  show "agree A B \<and> fst ` A = fst ` B" if "A = B"
    using that assms unfolding agree_def inj_on_def by (metis Pair_inject fst_conv)
  show "A = B" if "agree A B \<and> fst ` A = fst ` B"
    using that unfolding agree_def by (force simp: image_iff set_eq_iff)
qed

lemma keyed_functional: "distinct (map rl_code ls) \<Longrightarrow> inj_on fst (set (keyed ls))"
  by (auto simp: keyed_def inj_on_def distinct_map)

lemma triple_empty: "{(a, b, c). P a b c} = {} \<longleftrightarrow> (\<forall>a b c. \<not> P a b c)"
  by auto

lemma agree_keyed: "agree A (set (keyed ys)) \<longleftrightarrow>
    (\<forall>l \<in> set ys. \<forall>q t. (rl_code l, q, t) \<in> A \<longrightarrow> (q, t) = (rl_quantity l, rl_lineTotal l))"
  (is "_ \<longleftrightarrow> ?all")
proof
  show ?all if "agree A (set (keyed ys))"
  proof (intro ballI allI impI)
    fix l q t assume "l \<in> set ys" "(rl_code l, q, t) \<in> A"
    moreover from this have "(rl_code l, rl_quantity l, rl_lineTotal l) \<in> set (keyed ys)" by (simp add: keyed_def)
    ultimately show "(q, t) = (rl_quantity l, rl_lineTotal l)" using that unfolding agree_def by blast
  qed
  show "agree A (set (keyed ys))" if ?all
    unfolding agree_def
  proof (intro allI impI)
    fix k v w assume kv: "(k, v) \<in> A" and "(k, w) \<in> set (keyed ys)"
    then obtain l where l: "l \<in> set ys" "k = rl_code l" "w = (rl_quantity l, rl_lineTotal l)"
      by (auto simp: keyed_def)
    with kv that show "v = w" by (cases v) blast
  qed
qed

definition changed_line :: "revision_line list \<Rightarrow> revision_line \<Rightarrow> (revision_line \<times> number \<times> number) list" where
  "changed_line xs l = (case by_code xs (rl_code l) of None \<Rightarrow> []
     | Some p \<Rightarrow> if rl_quantity p \<noteq> rl_quantity l \<or> rl_lineTotal p \<noteq> rl_lineTotal l
                then [(l, rl_quantity p, rl_lineTotal p)] else [])"

lemma changed_line_mem:
  "(l, q, t) \<in> set (changed_line xs m) \<longleftrightarrow> l = m \<and> (q, t) \<noteq> (rl_quantity m, rl_lineTotal m) \<and>
     (\<exists>p. by_code xs (rl_code m) = Some p \<and> q = rl_quantity p \<and> t = rl_lineTotal p)"
  by (cases "by_code xs (rl_code m)") (auto simp: changed_line_def)

lemma diff_lines_changed: "snd (snd (diff_lines xs ys)) = concat (map (changed_line xs) ys)"
  by (simp add: diff_lines_def changed_line_def [abs_def])

text \<open>The difference of two revisions whose lines have different rate codes is exact: a line is
  reported changed just when the other revision has its code with another quantity or total (and
  those old values are shown), and nothing is reported just when both hold the same codes with the
  same quantities and totals.\<close>

theorem revision_diff_exact:
  assumes "distinct (map rl_code xs)" and "distinct (map rl_code ys)"
  shows "(case diff_lines xs ys of (added, removed, changed) \<Rightarrow>
     set changed = {(l, q, t). l \<in> set ys \<and> (q, t) \<noteq> (rl_quantity l, rl_lineTotal l) \<and>
        (rl_code l, q, t) \<in> set (keyed xs)} \<and>
     (added = [] \<and> removed = [] \<and> changed = [] \<longleftrightarrow> set (keyed xs) = set (keyed ys)))"
proof -
  obtain added removed changed where d: "diff_lines xs ys = (added, removed, changed)" by (metis prod_cases3)
  have add: "added = [] \<longleftrightarrow> rl_code ` set ys \<subseteq> rl_code ` set xs"
    and rem: "removed = [] \<longleftrightarrow> rl_code ` set xs \<subseteq> rl_code ` set ys"
    using d by (fastforce simp: diff_lines_def filter_empty_conv by_code_None)+
  have ch: "set changed = {(l, q, t). l \<in> set ys \<and> (q, t) \<noteq> (rl_quantity l, rl_lineTotal l) \<and>
        (rl_code l, q, t) \<in> set (keyed xs)}"
  proof -
    have old: "(\<exists>p. by_code xs k = Some p \<and> q = rl_quantity p \<and> t = rl_lineTotal p) \<longleftrightarrow>
        (k, q, t) \<in> set (keyed xs)" for k q t
      using assms(1) by (auto simp: by_code_distinct keyed_def)
    have "(l, q, t) \<in> set changed \<longleftrightarrow> l \<in> set ys \<and> (q, t) \<noteq> (rl_quantity l, rl_lineTotal l) \<and>
        (\<exists>p. by_code xs (rl_code l) = Some p \<and> q = rl_quantity p \<and> t = rl_lineTotal p)" for l q t
    proof -
      have "(l, q, t) \<in> set changed \<longleftrightarrow> (\<exists>m \<in> set ys. (l, q, t) \<in> set (changed_line xs m))"
        using diff_lines_changed [of xs ys] d by simp
      also have "\<dots> \<longleftrightarrow> l \<in> set ys \<and> (q, t) \<noteq> (rl_quantity l, rl_lineTotal l) \<and>
          (\<exists>p. by_code xs (rl_code l) = Some p \<and> q = rl_quantity p \<and> t = rl_lineTotal p)"
        unfolding changed_line_mem by blast
      finally show ?thesis .
    qed
    then show ?thesis unfolding old by auto
  qed
  have "changed = [] \<longleftrightarrow> agree (set (keyed xs)) (set (keyed ys))"
  proof -
    have "set changed = {} \<longleftrightarrow> (\<forall>l \<in> set ys. \<forall>q t. (rl_code l, q, t) \<in> set (keyed xs) \<longrightarrow>
        (q, t) = (rl_quantity l, rl_lineTotal l))"
      unfolding ch triple_empty by (simp only: imp_conjL Ball_def de_Morgan_conj not_not) blast
    also have "\<dots> \<longleftrightarrow> agree (set (keyed xs)) (set (keyed ys))"
      using agree_keyed [of "set (keyed xs)" ys] by simp
    finally show ?thesis by simp
  qed
  moreover have "rl_code ` set ls = fst ` set (keyed ls)" for ls by (force simp: keyed_def)
  ultimately have "added = [] \<and> removed = [] \<and> changed = [] \<longleftrightarrow> set (keyed xs) = set (keyed ys)"
    using add rem agree_iff [OF keyed_functional [OF assms(1)] keyed_functional [OF assms(2)]] by auto
  then show ?thesis using ch d by simp
qed

subsection \<open>An example\<close>

text \<open>A company with a threshold of 100 and two approvers, and a draft estimate of one line.\<close>

definition empty_est_db :: est_db where
  "empty_est_db = \<lparr>eb_uid = 40,
     eb_companies = [\<lparr>ec_id = 1, ec_currency = ''EUR'', ec_approvalThresholdAmount = Some 100,
       ec_requiredApprovalCount = 2, ec_changeOrderApprovalThresholdAmount = Some 100,
       ec_changeOrderRequiredApprovalCount = 2, ec_hideCostDataFromRoles = [''worker'']\<rparr>],
     eb_projects = [\<lparr>ep_id = 2, ep_companyId = 1, ep_currency = None, ep_clientId = Some 3\<rparr>],
     eb_clients = [\<lparr>ek_id = 3, ek_email = Some ''client@example.com''\<rparr>],
     eb_rates = [\<lparr>rr_id = 10, rr_companyId = 1, rr_code = ''W1'', rr_name = ''Wall'', rr_unit = ''m2'',
       rr_laborHoursPerUnit = 1/2,
       rr_materials = [\<lparr>nm_materialId = 20, nm_quantityPerUnit = 2, nm_wasteFactorPercent = 10\<rparr>]\<rparr>],
     eb_materials = [\<lparr>mt_id = 20, mt_companyId = 1, mt_defaultUnitPrice = 3, mt_unit = ''m''\<rparr>],
     eb_assemblies = [], eb_costCodes = [], eb_markupRules = [], eb_estimates = [], eb_lines = [],
     eb_sections = [], eb_requirements = [], eb_revisions = [], eb_approvals = [], eb_changeOrders = [],
     eb_coLines = [], eb_coApprovals = [], eb_outbox = []\<rparr>"

definition draft_db :: est_db where
  "draft_db = empty_est_db\<lparr>
     eb_estimates := [(blank_estimate 0 1 (Some 2) ''House'' example_options ''EUR'')\<lparr>es_id := 30\<rparr>],
     eb_lines := [new_line 31 30 None 10 10 0 None]\<rparr>"

definition approve_as :: "uid \<Rightarrow> uid \<Rightarrow> est_db \<Rightarrow> est_db" where
  "approve_as user i db = snd (approve 5 1 \<lparr>ac_userId = Some user, ac_name = ''A''\<rparr> None i db)"

lemma draft_inv: "est_inv draft_db"
  by code_simp

lemma approve_as_step: "est_step db (approve_as user i db)"
  unfolding approve_as_def by (rule est_step.approve)

definition pending_db :: est_db where
  "pending_db = approve_as 7 30 draft_db"

definition approved_db :: est_db where
  "approved_db = approve_as 8 30 pending_db"

lemma pending_inv: "est_inv pending_db"
  using step_advances [OF approve_as_step] draft_inv by (simp add: advances_def pending_db_def)

lemma pending_facts:
  "case find_est 1 30 pending_db of Inl _ \<Rightarrow> False | Inr e \<Rightarrow> es_status e = Es_pending_approval"
  "case find_company 1 pending_db of None \<Rightarrow> False
     | Some co \<Rightarrow> ec_approvalThresholdAmount co = Some 100 \<and> ec_requiredApprovalCount co = 2"
  "eb_revisions pending_db = []"
  by code_simp+

lemma approved_facts:
  "case find_est 1 30 approved_db of Inl _ \<Rightarrow> False
     | Inr e \<Rightarrow> es_status e = Es_approved \<and> tt_grandTotal (es_totals e) = 18201/50"
  "\<not> isl (fst (approve 5 1 \<lparr>ac_userId = Some 8, ac_name = ''A''\<rparr> None 30 pending_db))"
  by code_simp+

lemma approved_run: "approve 5 1 \<lparr>ac_userId = Some 8, ac_name = ''A''\<rparr> None 30 pending_db =
    (fst (approve 5 1 \<lparr>ac_userId = Some 8, ac_name = ''A''\<rparr> None 30 pending_db), approved_db)"
  by (simp add: approved_db_def approve_as_def)

theorem revision_history_witness:
  "prefix (eb_revisions draft_db) (eb_revisions approved_db) \<and>
   list_all (\<lambda>e. versions (es_id e) approved_db = [1..<es_currentVersion e]) (eb_estimates approved_db)"
  by (rule revision_history [OF draft_inv])
    (metis approved_db_def pending_db_def approve_as_step rtranclp.simps)

theorem approval_needs_distinct_approvers_witness:
  "\<exists>u. Some (8::uid) = Some u \<and> u \<in> approvers 30 approved_db \<and> 2 \<le> card (approvers 30 approved_db)"
proof -
  from pending_facts(1,2) obtain e co where "find_est 1 30 pending_db = Inr e"
    "es_status e \<noteq> Es_approved" "find_company 1 pending_db = Some co"
    "ec_approvalThresholdAmount co = Some 100" "ec_requiredApprovalCount co = 2"
    by (auto split: sum.splits option.splits)
  moreover from approved_facts(1) obtain e' where "find_est 1 30 approved_db = Inr e'"
    "es_status e' = Es_approved" "100 \<le> tt_grandTotal (es_totals e')" by (auto split: sum.splits)
  ultimately show ?thesis
    using approval_needs_distinct_approvers [OF pending_inv, OF _ _ _ _ approved_run] by fastforce
qed


definition example_revision :: "number \<Rightarrow> string \<Rightarrow> revision_line list" where
  "example_revision q code = [\<lparr>rl_code = ''W1'', rl_name = msg ''Wall'', rl_unit = ''m2'', rl_quantity = q,
       rl_materialsCost = 0, rl_laborCost = 0, rl_lineTotal = 26 * q\<rparr>,
     \<lparr>rl_code = code, rl_name = msg ''Door'', rl_unit = ''pc'', rl_quantity = 1,
       rl_materialsCost = 0, rl_laborCost = 0, rl_lineTotal = 300\<rparr>]"

theorem revision_diff_exact_witness:
  "case diff_lines (example_revision 10 ''D1'') (example_revision 12 ''D1'') of (added, removed, changed) \<Rightarrow>
     set changed = {(l, q, t). l \<in> set (example_revision 12 ''D1'') \<and> (q, t) \<noteq> (rl_quantity l, rl_lineTotal l) \<and>
        (rl_code l, q, t) \<in> set (keyed (example_revision 10 ''D1''))} \<and>
     (added = [] \<and> removed = [] \<and> changed = [] \<longleftrightarrow>
        set (keyed (example_revision 10 ''D1'')) = set (keyed (example_revision 12 ''D1'')))"
  by (rule revision_diff_exact) (simp_all add: example_revision_def)

text \<open>An estimate may carry the same rate code on several lines. Then the map of old lines keeps only
  the last of them, and a revision compared with itself shows a change.\<close>

lemma repeated_code_differs_from_itself:
  "length (snd (snd (diff_lines (example_revision 10 ''W1'') (example_revision 10 ''W1'')))) = 1"
  by code_simp

text \<open>The figures a role without cost data is left with give the hidden ones away: the markup amount is
  what the shown total leaves after the shown subtotal and tax, to within two cents.\<close>

lemma redaction_leaves_markup:
  "let v = redactCostData (full_view (e\<lparr>es_totals := round_totals m l opts\<rparr>) ls stale)
   in ev_markupAmount v = None \<and>
      \<bar>ev_grandTotal v - ev_subtotal v - ev_taxAmount v - tt_markup (round_totals m l opts)\<bar> \<le> 1/50"
  using printed_total_near [of m l opts]
  by (simp add: redactCostData_def full_view_def Let_def algebra_simps)

end
