(* ===== verification/Estimate_Variants.thy ===== *)
theory Estimate_Variants
  imports Estimate_Approval
begin

section \<open>Variants and templates\<close>

text \<open>
  What \<open>cloneSectionsAndLines\<close> of \<open>estimates.service.ts\<close> copies: every line, in its order, into the
  section cloned from its own, priced against today's catalogue; and what it leaves behind.
\<close>

definition owners_old :: "est_db \<Rightarrow> bool" where
  "owners_old db \<longleftrightarrow> (\<forall>l \<in> set (eb_lines db). el_estimateId l < eb_uid db) \<and>
     (\<forall>s \<in> set (eb_sections db). sn_estimateId s < eb_uid db) \<and>
     (\<forall>e \<in> set (eb_estimates db). es_id e < eb_uid db)"

definition line_content :: "est_line \<Rightarrow> uid \<times> number \<times> nat" where
  "line_content l = (el_rateItemId l, el_quantity l, el_sortOrder l)"

lemma fold_insert_lines:
  "eb_lines (fold (\<lambda>l. insert_line (f l)) ls db) =
     eb_lines db @ map (\<lambda>(l, i). f l i) (zip ls [eb_uid db..<eb_uid db + length ls])"
proof (induction ls arbitrary: db)
  case (Cons l ls)
  have "[eb_uid db..<eb_uid db + length (l # ls)] = eb_uid db # [Suc (eb_uid db)..<Suc (eb_uid db) + length ls]"
    by (subst upt_conv_Cons) simp_all
  then show ?case by (simp add: Cons.IH) (simp add: insert_line_def)
qed simp

lemma fold_insert_line_other:
  "eb_estimates (fold (\<lambda>l. insert_line (f l)) ls db) = eb_estimates db"
  by (induction ls arbitrary: db) (simp_all add: insert_line_def)

lemma clone_sections_other:
  "clone_sections t ss db = (ids, db') \<Longrightarrow> eb_lines db' = eb_lines db \<and> eb_estimates db' = eb_estimates db"
proof (induction ss arbitrary: db ids)
  case (Cons s ss)
  let ?db1 = "db\<lparr>eb_sections := eb_sections db @ [\<lparr>sn_id = eb_uid db, sn_estimateId = t, sn_name = sn_name s,
      sn_sortOrder = sn_sortOrder s\<rparr>], eb_uid := Suc (eb_uid db)\<rparr>"
  show ?case using Cons.prems Cons.IH [of ?db1]
    by (cases "clone_sections t ss ?db1") (auto simp: Let_def)
qed simp

lemma est_lines_appended:
  assumes "eb_lines db' = eb_lines db @ new" and "\<forall>l \<in> set new. el_estimateId l = t"
    and "\<forall>l \<in> set (eb_lines db). el_estimateId l \<noteq> t" and "sorted (map el_sortOrder new)"
  shows "est_lines t db' = new" and "j \<noteq> t \<Longrightarrow> est_lines j db' = est_lines j db"
proof -
  have "filter (\<lambda>l. el_estimateId l = t) (eb_lines db') = new"
    using assms(1-3) by (simp add: filter_empty_conv)
  then show "est_lines t db' = new" using assms(4) by (simp add: est_lines_def sort_key_sorted)
  show "est_lines j db' = est_lines j db" if "j \<noteq> t"
  proof -
    have "filter (\<lambda>l. el_estimateId l = j) new = []" using assms(2) that by (auto simp: filter_empty_conv)
    then show ?thesis by (simp add: est_lines_def assms(1))
  qed
qed

lemma map_zip_upt:
  assumes "\<And>l i. h (f l i) = k l"
  shows "map h (map (\<lambda>(l, i). f l i) (zip ls [n..<n + length ls])) = map k ls"
  by (rule nth_equalityI) (simp_all add: assms)

lemma recalc_shape:
  assumes "recalc c t db = Inr db'"
  shows "\<exists>ts ls. db' = update_est t (\<lambda>e. e\<lparr>es_totals := ts\<rparr>) (db\<lparr>eb_lines := ls\<rparr>)"
proof (cases "est_lines t db = []")
  case True
  then have "db' = update_est t (\<lambda>e. e\<lparr>es_totals := zero_totals\<rparr>) (db\<lparr>eb_lines := eb_lines db\<rparr>)"
    using assms by (simp add: recalc_def split: sum.splits)
  then show ?thesis by blast
next
  case False
  then show ?thesis using assms by (auto simp: recalc_def split: sum.splits)
qed

lemma recalc_lines:
  assumes "recalc c t db = Inr db'"
  shows "map line_key (est_lines j db') = map line_key (est_lines j db)"
proof -
  have "eb_lines db' = eb_lines db \<or> (\<exists>rs. eb_lines db' = fold store_line rs (eb_lines db))"
    using assms by (auto simp: recalc_def split: sum.splits if_splits)
  then show ?thesis
  proof (elim disjE exE)
    fix rs assume "eb_lines db' = fold store_line rs (eb_lines db)"
    then have "est_lines j db' = est_lines j (db\<lparr>eb_lines := fold store_line rs (eb_lines db)\<rparr>)"
      by (simp add: est_lines_def)
    then show ?thesis by (simp add: est_lines_store)
  qed (simp add: est_lines_def)
qed

lemma line_content_by_key: "map line_key ls = map line_key ms \<Longrightarrow> map line_content ls = map line_content ms"
  unfolding map_eq_list_all2 by (induction rule: list_all2_induct) (auto simp: line_key_def line_content_def)

text \<open>What a clone into a new estimate \<open>t\<close> leaves, when it succeeds.\<close>

lemma cloned_lines:
  assumes "cloneSectionsAndLines c role ss ls t db = (Inr v, db')"
    and old: "\<forall>l \<in> set (eb_lines db). el_estimateId l \<noteq> t" and sorted: "sorted (map el_sortOrder ls)"
  shows "map line_content (est_lines t db') = map line_content ls"
    and "j \<noteq> t \<Longrightarrow> map line_key (est_lines j db') = map line_key (est_lines j db)"
proof -
  obtain ids db1 where c: "clone_sections t ss db = (ids, db1)" by fastforce
  with clone_sections_other have db1: "eb_lines db1 = eb_lines db" by blast
  let ?db2 = "fold (\<lambda>l. insert_line (clone_line t ids l)) ls db1"
  let ?new = "map (\<lambda>(l, i). clone_line t ids l i) (zip ls [eb_uid db1..<eb_uid db1 + length ls])"
  have lines: "eb_lines ?db2 = eb_lines db @ ?new" by (simp add: fold_insert_lines db1)
  have own: "\<forall>l \<in> set ?new. el_estimateId l = t" by (auto simp: clone_line_def new_line_def)
  have "map el_sortOrder ?new = map el_sortOrder ls"
    by (rule map_zip_upt) (simp add: clone_line_def new_line_def)
  then have srt: "sorted (map el_sortOrder ?new)" using sorted by simp
  note app = est_lines_appended [OF lines own old srt]
  have content: "map line_content ?new = map line_content ls"
    by (rule map_zip_upt) (simp add: clone_line_def new_line_def line_content_def)
  have "map line_key (est_lines k db') = map line_key (est_lines k ?db2)" for k
    using assms(1) recalc_lines [of c t ?db2 db' k] db1
    by (cases "ls = []") (auto simp: cloneSectionsAndLines_def c recalculate_def split: sum.splits)
  from line_content_by_key [OF this [of t]] this [of j] app content
  show "map line_content (est_lines t db') = map line_content ls"
    "j \<noteq> t \<Longrightarrow> map line_key (est_lines j db') = map line_key (est_lines j db)" by simp_all
qed

lemma cloned_row:
  assumes "cloneSectionsAndLines c role ss ls t db = (Inr v, db')"
  shows "find_est c j db' = find_est c j db \<or>
    (\<exists>e ts. j = t \<and> find_est c j db = Inr e \<and> find_est c j db' = Inr (e\<lparr>es_totals := ts\<rparr>))"
proof -
  obtain ids db1 where c: "clone_sections t ss db = (ids, db1)" by fastforce
  let ?db2 = "fold (\<lambda>l. insert_line (clone_line t ids l)) ls db1"
  have same: "find_est c j ?db2 = find_est c j db" "find_est c j db1 = find_est c j db"
    using clone_sections_other [OF c] by (simp_all add: find_est_def fold_insert_line_other)
  show ?thesis
  proof (cases "ls = []")
    case True
    with assms same show ?thesis by (simp add: cloneSectionsAndLines_def c)
  next
    case False
    with assms have "recalc c t ?db2 = Inr db'"
      by (auto simp: cloneSectionsAndLines_def c recalculate_def split: sum.splits)
    then obtain ts x where db': "db' = update_est t (\<lambda>e. e\<lparr>es_totals := ts\<rparr>) (?db2\<lparr>eb_lines := x\<rparr>)"
      using recalc_shape by blast
    have rows: "find_row p (update_rows (\<lambda>e. es_id e = t) (\<lambda>e. e\<lparr>es_totals := ts\<rparr>) rs) =
        map_option (\<lambda>e. if es_id e = t then e\<lparr>es_totals := ts\<rparr> else e) (find_row p rs)"
      if "\<And>e. p (e\<lparr>es_totals := ts\<rparr>) = p e" for p rs
      by (rule find_row_update_any) (rule that)
    show ?thesis
    proof (cases "find_est c j db")
      case (Inl err)
      with same have "find_row (\<lambda>e. es_id e = j \<and> es_companyId e = c) (eb_estimates ?db2) = None"
        by (simp add: find_est_def split: option.splits)
      with Inl show ?thesis
        by (simp add: find_est_def db' update_est_def rows split: option.splits)
    next
      case (Inr e)
      with same have "find_row (\<lambda>e. es_id e = j \<and> es_companyId e = c) (eb_estimates ?db2) = Some e"
        by (simp add: find_est_def split: option.splits)
      moreover have "es_id e = j" using Inr find_est_keys by blast
      ultimately show ?thesis using Inr
        by (auto simp: find_est_def db' update_est_def rows)
    qed
  qed
qed

text \<open>A variant is a faithful copy: it is a new draft in the group of the original's root, with the
  same project, rates and currency and no client decision, its lines are the original's lines
  (rate item, quantity, order), and the original's own lines and row are left as they were.\<close>

theorem variant_copies_estimate:
  assumes "createVariant now c role i label db = (Inr v, db')" and "find_est c i db = Inr e" and "owners_old db"
  shows "map line_content (est_lines (eb_uid db) db') = map line_content (est_lines i db) \<and>
    map line_key (est_lines i db') = map line_key (est_lines i db) \<and> find_est c i db' = Inr e \<and>
    (case find_est c (eb_uid db) db' of Inl _ \<Rightarrow> False
     | Inr x \<Rightarrow> es_status x = Es_draft \<and> es_clientDecision x = Dec_pending \<and> es_rates x = es_rates e \<and>
         es_projectId x = es_projectId e \<and> es_currency x = es_currency e \<and> root_of x = root_of e \<and>
         es_variantLabel x = Some label)"
proof -
  let ?t = "eb_uid db"
  let ?x = "(blank_estimate now c (es_projectId e) (es_name e) (es_rates e) (es_currency e))
      \<lparr>es_variantOfId := Some (root_of e), es_variantLabel := Some label\<rparr>"
  let ?db1 = "snd (insert_estimate ?x db)"
  have i: "i \<noteq> ?t"
    using assms(2,3) by (auto simp: find_est_def owners_old_def dest!: find_row_SomeD split: option.splits)
  have run: "cloneSectionsAndLines c role (est_sections i db) (est_lines i db) ?t ?db1 = (Inr v, db')"
    using assms(1,2) by (simp add: createVariant_def insert_estimate_def)
  have lines1: "est_lines k ?db1 = est_lines k db" for k by (simp add: est_lines_def insert_estimate_def)
  have old: "\<forall>l \<in> set (eb_lines ?db1). el_estimateId l \<noteq> ?t"
    using assms(3) by (auto simp: owners_old_def insert_estimate_def)
  have srt: "sorted (map el_sortOrder (est_lines i db))" by (simp add: est_lines_def)
  note copied = cloned_lines [OF run old srt]
  have none: "find_row (\<lambda>y. es_id y = ?t \<and> es_companyId y = c) (eb_estimates db) = None"
    using assms(3) by (auto simp: find_row_None owners_old_def)
  have new1: "find_est c ?t ?db1 = Inr (?x\<lparr>es_id := ?t\<rparr>)"
    by (simp add: find_est_def insert_estimate_def find_row_append none row_simps blank_estimate_def)
  have old1: "find_est c i ?db1 = Inr e"
    using assms(2) by (auto simp: find_est_def insert_estimate_def find_row_append split: option.splits)
  have "find_est c i db' = Inr e" using cloned_row [OF run, of i] old1 i by auto
  moreover from cloned_row [OF run, of ?t] new1 have "case find_est c ?t db' of Inl _ \<Rightarrow> False
     | Inr x \<Rightarrow> es_status x = Es_draft \<and> es_clientDecision x = Dec_pending \<and> es_rates x = es_rates e \<and>
         es_projectId x = es_projectId e \<and> es_currency x = es_currency e \<and> root_of x = root_of e \<and>
         es_variantLabel x = Some label"
    by (auto simp: root_of_def blank_estimate_def)
  ultimately show ?thesis using copied(1) copied(2) [of i] i by (simp add: lines1)
qed

lemma variant_facts:
  "\<not> isl (fst (createVariant 9 1 None 30 ''Premium'' draft_db))"
  "case find_est 1 30 draft_db of Inl _ \<Rightarrow> False | Inr _ \<Rightarrow> True" "owners_old draft_db"
  by code_simp+

theorem variant_copies_estimate_witness:
  "map line_content (est_lines 40 (snd (createVariant 9 1 None 30 ''Premium'' draft_db))) =
     map line_content (est_lines 30 draft_db)"
proof -
  have "eb_uid draft_db = 40" by code_simp
  moreover obtain e where "find_est 1 30 draft_db = Inr e" using variant_facts(2) by (auto split: sum.splits)
  moreover obtain v where "fst (createVariant 9 1 None 30 ''Premium'' draft_db) = Inr v"
    using variant_facts(1) by (cases "fst (createVariant 9 1 None 30 ''Premium'' draft_db)") auto
  then have "createVariant 9 1 None 30 ''Premium'' draft_db = (Inr v, snd (createVariant 9 1 None 30 ''Premium'' draft_db))"
    by (metis prod.collapse)
  ultimately show ?thesis using variant_copies_estimate variant_facts(3) by fastforce
qed

text \<open>The cost code of a line is not copied.\<close>

lemma variant_drops_cost_codes:
  "let db = draft_db\<lparr>eb_lines := [new_line 31 30 None 10 10 0 (Some 50)]\<rparr>
   in map el_costCodeId (est_lines 40 (snd (createVariant 9 1 None 30 ''Premium'' db))) = [None]"
  by code_simp

end
