(* ===== verification/Change_Orders.thy ===== *)
theory Change_Orders
  imports Estimate_Client
begin

section \<open>Change orders\<close>

text \<open>
  \<open>estimates/change-orders.service.ts\<close> (with the tiered markup its pricing applies) and the pass of
  \<open>change-order-reminders.service.ts\<close>. A change order is priced with its estimate's rates; the
  markup is per cost type as soon as the company has one active markup rule. What a request returns
  is the change order with its lines and approvals. The signature image is stored outside the
  database: its key is part of the client's input.
\<close>

subsection \<open>Reads\<close>

type_synonym order_view = "change_order \<times> co_line list \<times> approval list"

definition find_order :: "uid \<Rightarrow> uid \<Rightarrow> est_db \<Rightarrow> app_error + change_order" where
  "find_order companyId i db =
     (case find_row (\<lambda>w. ch_id w = i \<and> ch_companyId w = companyId) (eb_changeOrders db) of
        None \<Rightarrow> Inl (NotFoundException (msg ''Change order not found''))
      | Some co \<Rightarrow> Inr co)"

definition co_lines :: "uid \<Rightarrow> est_db \<Rightarrow> co_line list" where
  "co_lines i db = sort_key cl_sortOrder (filter (\<lambda>l. cl_changeOrderId l = i) (eb_coLines db))"

definition get_order :: "uid \<Rightarrow> uid \<Rightarrow> est_db \<Rightarrow> app_error + order_view" where
  "get_order companyId i db =
     map_sum id (\<lambda>co. (co, co_lines i db, approvals_of i (eb_coApprovals db))) (find_order companyId i db)"

definition list_orders :: "uid \<Rightarrow> uid \<Rightarrow> est_db \<Rightarrow> change_order list" where
  "list_orders companyId estimateId db =
     sort_key ch_number (filter (\<lambda>w. ch_companyId w = companyId \<and> ch_estimateId w = estimateId) (eb_changeOrders db))"

definition order_link :: "uid \<Rightarrow> uid \<Rightarrow> uid \<Rightarrow> est_db \<Rightarrow> app_error + string" where
  "order_link companyId estimateId i db =
     (case find_row (\<lambda>w. ch_id w = i \<and> ch_estimateId w = estimateId \<and> ch_companyId w = companyId)
             (eb_changeOrders db) of
        None \<Rightarrow> Inl (NotFoundException (msg ''Change order not found''))
      | Some co \<Rightarrow>
          if truthy (ch_clientAccessToken co) then Inr (the (ch_clientAccessToken co))
          else Inl (BadRequestException (msg ''This change order hasn't been sent to the client yet'')))"

definition totals_profit :: "cost_totals \<Rightarrow> profit_input" where
  "totals_profit t = \<lparr>pf_materialsCost = tt_materialsCost t, pf_laborCost = tt_laborCost t,
     pf_grandTotal = tt_grandTotal t\<rparr>"

definition profitability :: "uid \<Rightarrow> uid \<Rightarrow> est_db \<Rightarrow> app_error + profit_report" where
  "profitability companyId estimateId db =
     (case find_est companyId estimateId db of
        Inl e \<Rightarrow> Inl e
      | Inr e \<Rightarrow>
          Inr (calculateChangeOrderProfitability (totals_profit (es_totals e))
            (map (\<lambda>w. (ch_id w, ch_number w, ch_title w, totals_profit (ch_totals w)))
              (filter (\<lambda>w. ch_status w = Es_approved) (list_orders companyId estimateId db)))))"

subsection \<open>Drafting\<close>

definition update_order :: "uid \<Rightarrow> (change_order \<Rightarrow> change_order) \<Rightarrow> est_db \<Rightarrow> est_db" where
  "update_order i f db = db\<lparr>eb_changeOrders := update_rows (\<lambda>w. ch_id w = i) f (eb_changeOrders db)\<rparr>"

definition new_order :: "uid \<Rightarrow> uid \<Rightarrow> uid \<Rightarrow> nat \<Rightarrow> string \<Rightarrow> string option \<Rightarrow> change_order" where
  "new_order i companyId estimateId number title description =
     \<lparr>ch_id = i, ch_companyId = companyId, ch_estimateId = estimateId, ch_number = number, ch_title = title,
      ch_description = description, ch_status = Es_draft, ch_totals = zero_totals,
      ch_clientDecision = Dec_pending, ch_sentAt = None, ch_decisionAt = None, ch_clientDecisionNote = None,
      ch_clientAccessToken = None, ch_signerName = None, ch_signatureImageKey = None, ch_signedIp = None,
      ch_reminderCount = 0, ch_lastReminderSentAt = None, ch_scheduleImpactDays = None\<rparr>"

definition create_order :: "uid \<Rightarrow> uid \<Rightarrow> string \<Rightarrow> string option \<Rightarrow> est_db \<Rightarrow> change_order est_op" where
  "create_order companyId estimateId title description db =
     (case find_est companyId estimateId db of
        Inl e \<Rightarrow> (Inl e, db)
      | Inr e \<Rightarrow>
          if es_status e \<noteq> Es_approved
          then (Inl (BadRequestException
            (msg ''Change orders can only be raised against an approved estimate'')), db)
          else
            (let number = length (filter (\<lambda>w. ch_estimateId w = estimateId) (eb_changeOrders db)) + 1;
                 co = new_order (eb_uid db) companyId estimateId number title description
             in if \<exists>w \<in> set (eb_changeOrders db). ch_estimateId w = estimateId \<and> ch_number w = number
                then (Inl (UniqueViolation ''estimateId,number''), db)
                else (Inr co, db\<lparr>eb_changeOrders := eb_changeOrders db @ [co], eb_uid := Suc (eb_uid db)\<rparr>)))"

definition co_line_input :: "co_line \<Rightarrow> line_input" where
  "co_line_input l = \<lparr>li_id = cl_id l, li_rateItemId = cl_rateItemId l, li_quantity = cl_quantity l\<rparr>"

definition store_co_line :: "line_result \<Rightarrow> co_line list \<Rightarrow> co_line list" where
  "store_co_line r = update_rows (\<lambda>l. cl_id l = lr_id r)
     (\<lambda>l. l\<lparr>cl_materialsCost := lr_materialsCost r, cl_laborCost := lr_laborCost r, cl_lineTotal := lr_lineTotal r\<rparr>)"

definition active_rules :: "uid \<Rightarrow> est_db \<Rightarrow> (cost_type \<times> number) list" where
  "active_rules companyId db =
     map (\<lambda>(_, t, p, _). (t, p)) (filter (\<lambda>(c, _, _, active). c = companyId \<and> active) (eb_markupRules db))"

definition order_totals :: "cost_totals \<Rightarrow> calc_options \<Rightarrow> (cost_type \<times> number) list \<Rightarrow> cost_totals" where
  "order_totals t opts rules =
     (let markupAmount = (if rules \<noteq> []
            then calculateTieredMarkup (tt_materialsCost t) (tt_laborCost t) (co_markupPercent opts) rules
            else tt_markup t);
          taxAmount = of_int (js_round ((tt_subtotal t + markupAmount) * (co_taxPercent opts / 100) * 100)) / 100;
          grandTotal = of_int (js_round ((tt_subtotal t + markupAmount + taxAmount) * 100)) / 100
      in t\<lparr>tt_markup := markupAmount, tt_tax := taxAmount, tt_grandTotal := grandTotal\<rparr>)"

text \<open>\<open>recompute_order\<close> is \<open>recompute\<close> up to what is returned.\<close>

definition recompute_order :: "uid \<Rightarrow> uid \<Rightarrow> est_db \<Rightarrow> app_error + est_db" where
  "recompute_order companyId i db =
     (case find_order companyId i db of
        Inl e \<Rightarrow> Inl e
      | Inr co \<Rightarrow>
          (case find_row (\<lambda>e. es_id e = ch_estimateId co) (eb_estimates db) of
             None \<Rightarrow> Inl RecordNotFound
           | Some e \<Rightarrow>
               if co_lines i db = [] then Inr (update_order i (\<lambda>w. w\<lparr>ch_totals := zero_totals\<rparr>) db)
               else case calculateEstimate (map co_line_input (co_lines i db)) (rates_by_id companyId db)
                      (prices_by_id companyId db) (es_rates e) of
                 Inl err \<Rightarrow> Inl err
               | Inr r \<Rightarrow>
                   Inr (update_order i
                     (\<lambda>w. w\<lparr>ch_totals := order_totals (cr_totals r) (es_rates e) (active_rules companyId db)\<rparr>)
                     (db\<lparr>eb_coLines := fold store_co_line (cr_lines r) (eb_coLines db)\<rparr>))))"

definition recompute :: "uid \<Rightarrow> uid \<Rightarrow> est_db \<Rightarrow> order_view est_op" where
  "recompute companyId i db =
     (case recompute_order companyId i db of
        Inl e \<Rightarrow> (Inl e, db)
      | Inr db1 \<Rightarrow> (get_order companyId i db1, db1))"

definition add_order_line :: "uid \<Rightarrow> uid \<Rightarrow> uid \<Rightarrow> number \<Rightarrow> uid option \<Rightarrow> est_db \<Rightarrow> order_view est_op" where
  "add_order_line companyId i rateItemId quantity costCodeId db =
     (case find_order companyId i db of
        Inl e \<Rightarrow> (Inl e, db)
      | Inr co \<Rightarrow>
          if ch_status co \<noteq> Es_draft
          then (Inl (BadRequestException (msg ''Only a draft change order can be edited'')), db)
          else if find_rate companyId rateItemId db = None
          then (Inl (NotFoundException (msg ''Rate catalog item not found'')), db)
          else if \<not> cost_code_ok companyId costCodeId db
          then (Inl (NotFoundException (msg ''Cost code not found'')), db)
          else recompute companyId i
                 (db\<lparr>eb_coLines := eb_coLines db @
                    [\<lparr>cl_id = eb_uid db, cl_changeOrderId = i, cl_rateItemId = rateItemId, cl_quantity = quantity,
                      cl_materialsCost = 0, cl_laborCost = 0, cl_lineTotal = 0, cl_sortOrder = 0,
                      cl_costCodeId = costCodeId\<rparr>],
                   eb_uid := Suc (eb_uid db)\<rparr>))"

definition remove_order_line :: "uid \<Rightarrow> uid \<Rightarrow> uid \<Rightarrow> est_db \<Rightarrow> order_view est_op" where
  "remove_order_line companyId i lineId db =
     (case find_order companyId i db of
        Inl e \<Rightarrow> (Inl e, db)
      | Inr co \<Rightarrow>
          if ch_status co \<noteq> Es_draft
          then (Inl (BadRequestException (msg ''Only a draft change order can be edited'')), db)
          else recompute companyId i
                 (db\<lparr>eb_coLines := filter (\<lambda>l. \<not> (cl_id l = lineId \<and> cl_changeOrderId l = i)) (eb_coLines db)\<rparr>))"

definition setScheduleImpact :: "uid \<Rightarrow> uid \<Rightarrow> int \<Rightarrow> est_db \<Rightarrow> unit est_op" where
  "setScheduleImpact companyId i days db =
     (case find_order companyId i db of
        Inl e \<Rightarrow> (Inl e, db)
      | Inr co \<Rightarrow>
          if ch_status co \<noteq> Es_draft
          then (Inl (BadRequestException (msg ''Only a draft change order can be edited'')), db)
          else (Inr (), update_order i (\<lambda>w. w\<lparr>ch_scheduleImpactDays := Some days\<rparr>) db))"

subsection \<open>Approval\<close>

definition finalize_order :: "uid \<Rightarrow> uid \<Rightarrow> est_db \<Rightarrow> order_view est_op" where
  "finalize_order companyId i db =
     (let db1 = update_order i (\<lambda>w. w\<lparr>ch_status := Es_approved\<rparr>) db in (get_order companyId i db1, db1))"

definition record_order_approval :: "date \<Rightarrow> uid \<Rightarrow> actor \<Rightarrow> change_order \<Rightarrow> nat \<Rightarrow> est_db \<Rightarrow> order_view est_op" where
  "record_order_approval now companyId actor co requiredCount db =
     (case ac_userId actor of
        None \<Rightarrow> (Inl (BadRequestException (msg ''Only a signed-in user can approve'')), db)
      | Some userId \<Rightarrow>
          if \<exists>a \<in> set (eb_coApprovals db). ap_subjectId a = ch_id co \<and> ap_userId a = userId
          then (Inl (BadRequestException (msg ''You have already approved this change order'')), db)
          else
            (let db1 = update_order (ch_id co) (\<lambda>w. w\<lparr>ch_status := Es_pending_approval\<rparr>)
                   (db\<lparr>eb_coApprovals := eb_coApprovals db @
                      [\<lparr>ap_subjectId = ch_id co, ap_userId = userId, ap_actorName = ac_name actor,
                        ap_approvedAt = now\<rparr>]\<rparr>)
             in if requiredCount \<le> length (approvals_of (ch_id co) (eb_coApprovals db1))
                then finalize_order companyId (ch_id co) db1
                else (get_order companyId (ch_id co) db1, db1)))"

definition approve_order :: "date \<Rightarrow> uid \<Rightarrow> actor \<Rightarrow> uid \<Rightarrow> est_db \<Rightarrow> order_view est_op" where
  "approve_order now companyId actor i db =
     (case find_order companyId i db of
        Inl e \<Rightarrow> (Inl e, db)
      | Inr co \<Rightarrow>
          if ch_status co \<noteq> Es_draft \<and> ch_status co \<noteq> Es_pending_approval
          then (Inl (BadRequestException (msg ''Only a draft change order can be approved'')), db)
          else if co_lines i db = []
          then (Inl (BadRequestException (msg ''Add at least one line before approving'')), db)
          else case find_company companyId db of
            None \<Rightarrow> (Inl RecordNotFound, db)
          | Some c \<Rightarrow>
              (case ec_changeOrderApprovalThresholdAmount c of
                 None \<Rightarrow> finalize_order companyId i db
               | Some threshold \<Rightarrow>
                   if threshold \<le> tt_grandTotal (ch_totals co)
                   then record_order_approval now companyId actor co (ec_changeOrderRequiredApprovalCount c) db
                   else finalize_order companyId i db))"

subsection \<open>The client's side\<close>

definition order_client_email :: "change_order \<Rightarrow> est_db \<Rightarrow> string option" where
  "order_client_email co db =
     Option.bind (find_row (\<lambda>e. es_id e = ch_estimateId co) (eb_estimates db)) (\<lambda>e. client_email e db)"

definition send_order :: "date \<Rightarrow> uid \<Rightarrow> string \<Rightarrow> uid \<Rightarrow> est_db \<Rightarrow> string option est_op" where
  "send_order now companyId token i db =
     (case find_order companyId i db of
        Inl e \<Rightarrow> (Inl e, db)
      | Inr co \<Rightarrow>
          if ch_status co \<noteq> Es_approved
          then (Inl (BadRequestException (msg ''Only an approved change order can be sent to the client'')), db)
          else if find_row (\<lambda>e. es_id e = ch_estimateId co) (eb_estimates db) = None
          then (Inl RecordNotFound, db)
          else (Inr (order_client_email co db),
                enqueue companyId ''change_order.sent'' i
                  (update_order i (\<lambda>w. w\<lparr>ch_clientAccessToken := Some token, ch_sentAt := Some now,
                     ch_clientDecision := Dec_pending, ch_decisionAt := None,
                     ch_clientDecisionNote := None\<rparr>) db)))"

record public_order =
  po_id :: uid
  po_number :: nat
  po_title :: string
  po_description :: "string option"
  po_clientDecision :: decision
  po_decisionAt :: "date option"
  po_clientDecisionNote :: "string option"
  po_scheduleImpactDays :: "int option"
  po_lines :: "(uid \<times> number \<times> number) list"
  po_subtotal :: number
  po_markupAmount :: number
  po_taxAmount :: number
  po_grandTotal :: number

definition order_by_token :: "string \<Rightarrow> est_db \<Rightarrow> app_error + public_order" where
  "order_by_token token db =
     (case find_row (\<lambda>w. ch_clientAccessToken w = Some token) (eb_changeOrders db) of
        None \<Rightarrow> Inl (NotFoundException (msg ''Change order not found''))
      | Some co \<Rightarrow>
          Inr \<lparr>po_id = ch_id co, po_number = ch_number co, po_title = ch_title co,
               po_description = ch_description co, po_clientDecision = ch_clientDecision co,
               po_decisionAt = ch_decisionAt co, po_clientDecisionNote = ch_clientDecisionNote co,
               po_scheduleImpactDays = ch_scheduleImpactDays co,
               po_lines = map (\<lambda>l. (cl_id l, cl_quantity l, cl_lineTotal l)) (co_lines (ch_id co) db),
               po_subtotal = tt_subtotal (ch_totals co), po_markupAmount = tt_markup (ch_totals co),
               po_taxAmount = tt_tax (ch_totals co), po_grandTotal = tt_grandTotal (ch_totals co)\<rparr>)"

datatype order_input =
    Approve_order "string option" string string
  | Reject_order "string option"

definition decide_order_row :: "date \<Rightarrow> order_input \<Rightarrow> string option \<Rightarrow> change_order \<Rightarrow> change_order" where
  "decide_order_row now d signerIp w =
     (case d of
        Approve_order n signer key \<Rightarrow>
          w\<lparr>ch_clientDecision := Dec_approved, ch_decisionAt := Some now,
            ch_clientDecisionNote := keep n (ch_clientDecisionNote w), ch_signerName := Some signer,
            ch_signatureImageKey := Some key, ch_signedIp := keep signerIp (ch_signedIp w)\<rparr>
      | Reject_order n \<Rightarrow>
          w\<lparr>ch_clientDecision := Dec_rejected, ch_decisionAt := Some now,
            ch_clientDecisionNote := keep n (ch_clientDecisionNote w)\<rparr>)"

definition order_decision :: "order_input \<Rightarrow> decision" where
  "order_decision d = (case d of Approve_order _ _ _ \<Rightarrow> Dec_approved | Reject_order _ \<Rightarrow> Dec_rejected)"

definition apply_order_decision :: "(est_db \<Rightarrow> est_db) \<Rightarrow> date \<Rightarrow> change_order \<Rightarrow> order_input \<Rightarrow> string option
    \<Rightarrow> est_db \<Rightarrow> decision est_op" where
  "apply_order_decision env now co d signerIp db =
     (if ch_clientDecision co \<noteq> Dec_pending
      then (Inl (BadRequestException (msg ''This change order has already been decided'')), db)
      else (Inr (order_decision d),
            enqueue (ch_companyId co)
              (case d of Approve_order _ _ _ \<Rightarrow> ''change_order.client_approved''
               | Reject_order _ \<Rightarrow> ''change_order.client_rejected'') (ch_id co)
              (update_order (ch_id co) (decide_order_row now d signerIp) (env db))))"

definition decide_order :: "(est_db \<Rightarrow> est_db) \<Rightarrow> date \<Rightarrow> string \<Rightarrow> order_input \<Rightarrow> string option \<Rightarrow> est_db \<Rightarrow> decision est_op" where
  "decide_order env now token d signerIp db =
     (case find_row (\<lambda>w. ch_clientAccessToken w = Some token) (eb_changeOrders db) of
        None \<Rightarrow> (Inl (NotFoundException (msg ''Change order not found'')), db)
      | Some co \<Rightarrow> apply_order_decision env now co d signerIp db)"

definition order_for_client :: "uid \<Rightarrow> uid \<Rightarrow> change_order \<Rightarrow> est_db \<Rightarrow> bool" where
  "order_for_client companyId clientId co db \<longleftrightarrow>
     ch_companyId co = companyId \<and> ch_sentAt co \<noteq> None \<and>
     (\<exists>e \<in> set (eb_estimates db). es_id e = ch_estimateId co \<and>
        (\<exists>p \<in> set (eb_projects db). es_projectId e = Some (ep_id p) \<and> ep_clientId p = Some clientId))"

definition decide_order_for_client :: "(est_db \<Rightarrow> est_db) \<Rightarrow> date \<Rightarrow> uid \<Rightarrow> uid \<Rightarrow> uid \<Rightarrow> order_input \<Rightarrow> string option
    \<Rightarrow> est_db \<Rightarrow> decision est_op" where
  "decide_order_for_client env now companyId clientId i d signerIp db =
     (case find_row (\<lambda>w. ch_id w = i \<and> order_for_client companyId clientId w db) (eb_changeOrders db) of
        None \<Rightarrow> (Inl (NotFoundException (msg ''Change order not found'')), db)
      | Some co \<Rightarrow> apply_order_decision env now co d signerIp db)"

definition decline_order :: "(est_db \<Rightarrow> est_db) \<Rightarrow> date \<Rightarrow> uid \<Rightarrow> uid \<Rightarrow> string \<Rightarrow> est_db \<Rightarrow> decision est_op" where
  "decline_order env now companyId i reason db =
     (case find_order companyId i db of
        Inl e \<Rightarrow> (Inl e, db)
      | Inr co \<Rightarrow>
          if ch_sentAt co = None
          then (Inl (BadRequestException (msg ''This change order hasn't been sent to the client yet'')), db)
          else apply_order_decision env now co (Reject_order (Some reason)) None db)"

subsection \<open>Reminders\<close>

definition order_reminder_due :: "date \<Rightarrow> uid \<Rightarrow> change_order \<Rightarrow> est_db \<Rightarrow> bool" where
  "order_reminder_due now companyId co db \<longleftrightarrow>
     ch_companyId co = companyId \<and> ch_sentAt co \<noteq> None \<and> ch_clientDecision co = Dec_pending \<and>
     ch_reminderCount co < length CADENCE_DAYS \<and>
     CADENCE_DAYS ! ch_reminderCount co \<le> (now - the (ch_sentAt co)) div DAY_MS \<and>
     truthy (order_client_email co db)"

definition remindPendingChangeOrders :: "date \<Rightarrow> uid \<Rightarrow> est_db \<Rightarrow> nat \<times> est_db" where
  "remindPendingChangeOrders now companyId db =
     (let due = filter (\<lambda>w. order_reminder_due now companyId w db) (eb_changeOrders db)
      in (length due,
          fold (\<lambda>w. update_order (ch_id w)
            (\<lambda>x. x\<lparr>ch_reminderCount := Suc (ch_reminderCount w), ch_lastReminderSentAt := Some now\<rparr>)) due db))"

end
