(* ===== verification/Change_Order_Laws.thy ===== *)
theory Change_Order_Laws
  imports Change_Orders Estimate_Laws
begin

section \<open>What holds of change orders over every sequence of operations\<close>

text \<open>
  A change order is frozen from its first approval step on, is approved only by enough people when
  its total is at or above the company's threshold, and the change orders of an estimate are
  numbered without gaps: over any sequence of requests to the change order service, the reminder
  pass and the estimates service.
\<close>

subsection \<open>The invariant\<close>

definition order_gate :: "est_db \<Rightarrow> change_order \<Rightarrow> bool" where
  "order_gate db w \<longleftrightarrow>
     (case find_company (ch_companyId w) db of
        None \<Rightarrow> True
      | Some c \<Rightarrow>
          (case ec_changeOrderApprovalThresholdAmount c of
             None \<Rightarrow> True
           | Some t \<Rightarrow> t \<le> tt_grandTotal (ch_totals w) \<longrightarrow>
               ec_changeOrderRequiredApprovalCount c \<le> length (approvals_of (ch_id w) (eb_coApprovals db))))"

definition numbers_of_estimate :: "uid \<Rightarrow> est_db \<Rightarrow> nat list" where
  "numbers_of_estimate e db = map ch_number (filter (\<lambda>w. ch_estimateId w = e) (eb_changeOrders db))"

definition lines_ok :: "est_db \<Rightarrow> bool" where
  "lines_ok db \<longleftrightarrow> distinct (map cl_id (eb_coLines db)) \<and> (\<forall>l \<in> set (eb_coLines db). cl_id l < eb_uid db)"

definition co_inv :: "est_db \<Rightarrow> bool" where
  "co_inv db \<longleftrightarrow>
     distinct (map ch_id (eb_changeOrders db)) \<and>
     (\<forall>w \<in> set (eb_changeOrders db). ch_id w < eb_uid db \<and> (ch_status w = Es_approved \<longrightarrow> order_gate db w)) \<and>
     (\<forall>e. numbers_of_estimate e db = [1..<Suc (length (numbers_of_estimate e db))]) \<and>
     unique_approvals (eb_coApprovals db) \<and> lines_ok db"

definition frozen :: "change_order \<Rightarrow> change_order \<Rightarrow> bool" where
  "frozen w v \<longleftrightarrow> ch_id v = ch_id w \<and> ch_companyId v = ch_companyId w \<and> ch_estimateId v = ch_estimateId w \<and>
     ch_number v = ch_number w \<and> ch_title v = ch_title w \<and> ch_totals v = ch_totals w \<and>
     ch_scheduleImpactDays v = ch_scheduleImpactDays w \<and> ch_status v \<noteq> Es_draft \<and>
     (ch_status w = Es_approved \<longrightarrow> ch_status v = Es_approved)"

definition settled :: "est_db \<Rightarrow> est_db \<Rightarrow> bool" where
  "settled db db' \<longleftrightarrow> (\<forall>w \<in> set (eb_changeOrders db). ch_status w \<noteq> Es_draft \<longrightarrow>
     (\<exists>v \<in> set (eb_changeOrders db'). frozen w v) \<and> co_lines (ch_id w) db' = co_lines (ch_id w) db)"

definition order_evolves :: "est_db \<Rightarrow> est_db \<Rightarrow> bool" where
  "order_evolves db db' \<longleftrightarrow> (co_inv db \<longrightarrow> co_inv db' \<and> settled db db')"

lemma frozen_refl: "ch_status w \<noteq> Es_draft \<Longrightarrow> frozen w w"
  by (simp add: frozen_def)

lemma frozen_trans: "frozen u v \<Longrightarrow> frozen v w \<Longrightarrow> frozen u w"
  by (auto simp: frozen_def)

lemma order_evolves_refl [simp]: "order_evolves db db"
  unfolding order_evolves_def settled_def using frozen_refl by blast

lemma settled_trans: "settled a b \<Longrightarrow> settled b c \<Longrightarrow> settled a c"
proof (unfold settled_def [of a c], intro ballI impI)
  fix w assume ab: "settled a b" and bc: "settled b c" and w: "w \<in> set (eb_changeOrders a)" "ch_status w \<noteq> Es_draft"
  from ab w obtain v where v: "v \<in> set (eb_changeOrders b)" "frozen w v"
    and lines: "co_lines (ch_id w) b = co_lines (ch_id w) a" unfolding settled_def by blast
  from v(2) have d: "ch_status v \<noteq> Es_draft" "ch_id v = ch_id w" by (simp_all add: frozen_def)
  with bc v(1) obtain u where "u \<in> set (eb_changeOrders c)" "frozen v u" "co_lines (ch_id v) c = co_lines (ch_id v) b"
    unfolding settled_def by blast
  with v(2) lines d show "(\<exists>u \<in> set (eb_changeOrders c). frozen w u) \<and> co_lines (ch_id w) c = co_lines (ch_id w) a"
    using frozen_trans by auto
qed

lemma order_evolves_trans [trans]: "order_evolves a b \<Longrightarrow> order_evolves b c \<Longrightarrow> order_evolves a c"
  unfolding order_evolves_def using settled_trans by blast

subsection \<open>An update of one change order\<close>

lemma map_filter_update_rows:
  "(\<And>r. p r \<Longrightarrow> g (f r) = g r \<and> q (f r) = q r) \<Longrightarrow> map g (filter q (update_rows p f rows)) = map g (filter q rows)"
  by (induction rows) (auto simp: update_rows_def)

definition order_keys :: "change_order \<Rightarrow> uid \<times> uid \<times> uid \<times> nat" where
  "order_keys w = (ch_id w, ch_companyId w, ch_estimateId w, ch_number w)"

lemma order_gate_cong:
  "ch_id v = ch_id w \<Longrightarrow> ch_companyId v = ch_companyId w \<Longrightarrow> ch_totals v = ch_totals w \<Longrightarrow>
   eb_companies db' = eb_companies db \<Longrightarrow> eb_coApprovals db' = eb_coApprovals db \<Longrightarrow>
   order_gate db' v = order_gate db w"
  by (simp add: order_gate_def find_company_def cong: option.case_cong)

lemma update_order_other [simp]:
  "eb_companies (update_order i f db) = eb_companies db" "eb_coApprovals (update_order i f db) = eb_coApprovals db"
  "eb_coLines (update_order i f db) = eb_coLines db" "eb_uid (update_order i f db) = eb_uid db"
  "eb_changeOrders (update_order i f db) = update_rows (\<lambda>w. ch_id w = i) f (eb_changeOrders db)"
  by (simp_all add: update_order_def)

lemma order_gate_mono:
  assumes "order_gate db w" "eb_companies db' = eb_companies db" "eb_coApprovals db' = eb_coApprovals db @ as"
  shows "order_gate db' w"
  using assms by (auto simp: order_gate_def find_company_def approvals_of_def split: option.splits)

lemma order_evolves_update:
  assumes rows: "eb_changeOrders db' = update_rows (\<lambda>w. ch_id w = i) f (eb_changeOrders db)"
    and keys: "\<And>w. order_keys (f w) = order_keys w"
    and same: "eb_companies db' = eb_companies db" "eb_uid db \<le> eb_uid db'"
      "eb_coApprovals db' = eb_coApprovals db @ as"
    and fresh: "co_inv db \<Longrightarrow> unique_approvals (eb_coApprovals db') \<and> lines_ok db'"
    and gate: "\<And>w. co_inv db \<Longrightarrow> w \<in> set (eb_changeOrders db) \<Longrightarrow> ch_id w = i \<Longrightarrow>
      ch_status (f w) = Es_approved \<Longrightarrow> order_gate db' (f w)"
    and froze: "\<And>w. co_inv db \<Longrightarrow> w \<in> set (eb_changeOrders db) \<Longrightarrow> ch_id w = i \<Longrightarrow>
      ch_status w = Es_draft \<or> frozen w (f w)"
    and lines: "\<And>w. co_inv db \<Longrightarrow> w \<in> set (eb_changeOrders db) \<Longrightarrow> ch_status w \<noteq> Es_draft \<Longrightarrow>
      co_lines (ch_id w) db' = co_lines (ch_id w) db"
  shows "order_evolves db db'"
  unfolding order_evolves_def
proof
  assume inv: "co_inv db"
  have key: "ch_id (f w) = ch_id w" "ch_companyId (f w) = ch_companyId w"
    "ch_estimateId (f w) = ch_estimateId w" "ch_number (f w) = ch_number w" for w
    using keys [of w] by (simp_all add: order_keys_def)
  have ids: "map ch_id (eb_changeOrders db') = map ch_id (eb_changeOrders db)"
    unfolding rows by (rule map_update_rows) (simp add: key)
  have nums: "numbers_of_estimate e db' = numbers_of_estimate e db" for e
    unfolding numbers_of_estimate_def rows by (rule map_filter_update_rows) (simp add: key)
  have each: "ch_id v < eb_uid db' \<and> (ch_status v = Es_approved \<longrightarrow> order_gate db' v)"
    if v: "v \<in> set (eb_changeOrders db')" for v
  proof -
    from v obtain w where w: "w \<in> set (eb_changeOrders db)" "v = (if ch_id w = i then f w else w)"
      by (auto simp: rows update_rows_def)
    with inv have "ch_id w < eb_uid db" "ch_status w = Es_approved \<longrightarrow> order_gate db w" by (auto simp: co_inv_def)
    with w same gate [OF inv w(1)] order_gate_mono [of db w db' as] show ?thesis by (auto simp: key)
  qed
  have "settled db db'"
    unfolding settled_def
  proof (intro ballI impI conjI)
    fix w assume w: "w \<in> set (eb_changeOrders db)" "ch_status w \<noteq> Es_draft"
    then have "(if ch_id w = i then f w else w) \<in> set (eb_changeOrders db')"
      by (auto simp: rows update_rows_def)
    moreover have "frozen w (if ch_id w = i then f w else w)"
      using froze [OF inv w(1)] w(2) frozen_refl by auto
    ultimately show "\<exists>v \<in> set (eb_changeOrders db'). frozen w v" by blast
    show "co_lines (ch_id w) db' = co_lines (ch_id w) db" by (rule lines [OF inv w])
  qed
  with inv each fresh [OF inv] show "co_inv db' \<and> settled db db'"
    by (simp add: co_inv_def ids nums)
qed

text \<open>Sending, deciding and reminding write none of the fields that matter here.\<close>

lemma order_evolves_light:
  assumes "\<And>w. order_keys (f w) = order_keys w \<and> ch_status (f w) = ch_status w \<and> ch_totals (f w) = ch_totals w \<and>
    ch_title (f w) = ch_title w \<and> ch_scheduleImpactDays (f w) = ch_scheduleImpactDays w"
  shows "order_evolves db (update_order i f db)"
proof (rule order_evolves_update [where i = i and f = f and as = "[]"])
  show "ch_status w = Es_draft \<or> frozen w (f w)" for w
    using assms [of w] by (auto simp: frozen_def order_keys_def)
  show "order_gate (update_order i f db) (f w)"
    if "co_inv db" "w \<in> set (eb_changeOrders db)" "ch_status (f w) = Es_approved" for w
  proof -
    have "order_gate db w" using that assms [of w] by (simp add: co_inv_def)
    moreover have "order_gate (update_order i f db) (f w) = order_gate db w"
      using assms [of w] by (intro order_gate_cong) (simp_all add: order_keys_def)
    ultimately show ?thesis by simp
  qed
qed (use assms in \<open>auto simp: co_lines_def co_inv_def lines_ok_def\<close>)

subsection \<open>Drafting\<close>

lemma found_order: "find_order c i db = Inr w \<Longrightarrow> w \<in> set (eb_changeOrders db) \<and> ch_id w = i \<and> ch_companyId w = c"
  by (auto simp: find_order_def dest: find_row_SomeD split: option.splits)

lemma only_order:
  assumes "co_inv db" "find_order c i db = Inr w" "v \<in> set (eb_changeOrders db)" "ch_id v = i"
  shows "v = w"
  using assms found_order [OF assms(2)] by (auto simp: co_inv_def distinct_map inj_on_def)

definition store_one :: "line_result \<Rightarrow> co_line \<Rightarrow> co_line" where
  "store_one r l = (if cl_id l = lr_id r then l\<lparr>cl_materialsCost := lr_materialsCost r,
     cl_laborCost := lr_laborCost r, cl_lineTotal := lr_lineTotal r\<rparr> else l)"

lemma store_one_keeps [simp]:
  "cl_id (store_one r l) = cl_id l" "cl_changeOrderId (store_one r l) = cl_changeOrderId l"
  by (simp_all add: store_one_def)

lemma fold_store_one_keeps [simp]:
  "cl_id (fold store_one rs l) = cl_id l" "cl_changeOrderId (fold store_one rs l) = cl_changeOrderId l"
  by (induction rs arbitrary: l) simp_all

lemma fold_store_one_other: "\<forall>r \<in> set rs. lr_id r \<noteq> cl_id l \<Longrightarrow> fold store_one rs l = l"
  by (induction rs) (simp_all add: store_one_def)

lemma fold_store_map: "fold store_co_line rs ls = map (fold store_one rs) ls"
proof (induction rs arbitrary: ls)
  case (Cons r rs)
  have "store_co_line r ls = map (store_one r) ls"
    by (simp add: store_co_line_def update_rows_def store_one_def)
  with Cons show ?case by simp
qed simp

lemma other_lines_kept:
  assumes "distinct (map cl_id ls)" and "lr_id ` set rs \<subseteq> cl_id ` {l \<in> set ls. cl_changeOrderId l = i}" and "j \<noteq> i"
  shows "filter (\<lambda>l. cl_changeOrderId l = j) (fold store_co_line rs ls) = filter (\<lambda>l. cl_changeOrderId l = j) ls"
proof -
  have "fold store_one rs l = l" if "l \<in> set ls" "cl_changeOrderId l = j" for l
  proof (rule fold_store_one_other, intro ballI notI)
    fix r assume "r \<in> set rs" "lr_id r = cl_id l"
    with assms(2) obtain m where "m \<in> set ls" "cl_changeOrderId m = i" "cl_id m = cl_id l" by force
    with assms(1,3) that show False by (metis distinct_map inj_onD)
  qed
  then have "map (fold store_one rs) (filter (\<lambda>l. cl_changeOrderId l = j) ls) = filter (\<lambda>l. cl_changeOrderId l = j) ls"
    by (intro map_idI) auto
  then show ?thesis by (simp add: fold_store_map filter_map o_def)
qed

text \<open>A draft edit: only the draft's own row and lines change.\<close>

lemma order_evolves_draft:
  assumes draft: "find_order c i db = Inr w" "ch_status w = Es_draft"
    and rows: "eb_changeOrders db' = update_rows (\<lambda>w. ch_id w = i) f (eb_changeOrders db)"
    and f: "\<And>w. order_keys (f w) = order_keys w \<and> ch_status (f w) = ch_status w"
    and same: "eb_companies db' = eb_companies db" "eb_uid db \<le> eb_uid db'" "eb_coApprovals db' = eb_coApprovals db"
    and ok: "lines_ok db \<Longrightarrow> lines_ok db'"
    and lines: "\<And>j. lines_ok db \<Longrightarrow> j \<noteq> i \<Longrightarrow> co_lines j db' = co_lines j db"
  shows "order_evolves db db'"
proof (rule order_evolves_update [OF rows, where as = "[]"])
  note only = only_order [OF _ draft(1)]
  show "ch_status v = Es_draft \<or> frozen v (f v)"
    if "co_inv db" "v \<in> set (eb_changeOrders db)" "ch_id v = i" for v
    using only [OF that] draft(2) by simp
  show "order_gate db' (f v)"
    if "co_inv db" "v \<in> set (eb_changeOrders db)" "ch_id v = i" "ch_status (f v) = Es_approved" for v
    using only [OF that(1-3)] that(4) draft(2) f [of v] by simp
  show "co_lines (ch_id v) db' = co_lines (ch_id v) db"
    if "co_inv db" "v \<in> set (eb_changeOrders db)" "ch_status v \<noteq> Es_draft" for v
    using only [OF that(1,2)] that(3) draft(2) lines that(1) by (auto simp: co_inv_def)
qed (use f same ok in \<open>auto simp: co_inv_def\<close>)

lemma order_evolves_draft_row:
  assumes "find_order c i db = Inr w" "ch_status w = Es_draft"
    and "\<And>w. order_keys (f w) = order_keys w \<and> ch_status (f w) = ch_status w"
  shows "order_evolves db (update_order i f db)"
  by (rule order_evolves_draft [OF assms(1,2) _ assms(3)]) (simp_all add: lines_ok_def co_lines_def)

lemma order_evolves_recompute_order:
  assumes "recompute_order c i db = Inr db'" and "find_order c i db = Inr w" and "ch_status w = Es_draft"
  shows "order_evolves db db'"
proof (cases "co_lines i db = []")
  case True
  then have "db' = update_order i (\<lambda>w. w\<lparr>ch_totals := zero_totals\<rparr>) db"
    using assms by (auto simp: recompute_order_def split: option.splits)
  then show ?thesis
    using order_evolves_draft_row [OF assms(2,3)] by (simp add: order_keys_def)
next
  case False
  with assms obtain e where e: "find_row (\<lambda>e. es_id e = ch_estimateId w) (eb_estimates db) = Some e"
    by (auto simp: recompute_order_def split: option.splits)
  with False assms obtain r where r: "calculateEstimate (map co_line_input (co_lines i db)) (rates_by_id c db)
      (prices_by_id c db) (es_rates e) = Inr r"
    and db': "db' = update_order i
        (\<lambda>w. w\<lparr>ch_totals := order_totals (cr_totals r) (es_rates e) (active_rules c db)\<rparr>)
        (db\<lparr>eb_coLines := fold store_co_line (cr_lines r) (eb_coLines db)\<rparr>)"
    by (auto simp: recompute_order_def split: sum.splits)
  from calculateEstimate_ok [OF r] have "map lr_id (cr_lines r) = map cl_id (co_lines i db)"
    by (auto simp: co_line_input_def o_def)
  then have "lr_id ` set (cr_lines r) = cl_id ` set (co_lines i db)" by (metis list.set_map)
  then have ids: "lr_id ` set (cr_lines r) \<subseteq> cl_id ` {l \<in> set (eb_coLines db). cl_changeOrderId l = i}"
    by (auto simp: co_lines_def)
  show ?thesis
  proof (rule order_evolves_draft [OF assms(2,3), where
      f = "\<lambda>w. w\<lparr>ch_totals := order_totals (cr_totals r) (es_rates e) (active_rules c db)\<rparr>"])
    show "lines_ok db'" if "lines_ok db"
      using that by (auto simp: db' lines_ok_def fold_store_map o_def)
    show "co_lines j db' = co_lines j db" if "lines_ok db" "j \<noteq> i" for j
      using other_lines_kept [OF _ ids that(2)] that(1) by (simp add: db' co_lines_def lines_ok_def)
  qed (auto simp: db' order_keys_def)
qed

lemma order_evolves_recompute:
  assumes "order_evolves db0 db" and "find_order c i db = Inr w" and "ch_status w = Es_draft"
  shows "order_evolves db0 (snd (recompute c i db))"
proof (cases "recompute_order c i db")
  case (Inr db1)
  from order_evolves_trans [OF assms(1) order_evolves_recompute_order [OF this assms(2,3)]] show ?thesis
    by (simp add: recompute_def Inr)
qed (simp add: recompute_def assms(1))

lemma find_order_cong: "eb_changeOrders db = eb_changeOrders db' \<Longrightarrow> find_order c i db = find_order c i db'"
  by (simp add: find_order_def)

lemma update_rows_same [simp]: "update_rows p (\<lambda>r. r) rows = rows"
  by (simp add: update_rows_def)

lemma order_evolves_add_line: "order_evolves db (snd (add_order_line c i r q k db))"
proof (cases "find_order c i db")
  case (Inr w)
  show ?thesis
  proof (cases "ch_status w = Es_draft \<and> find_rate c r db \<noteq> None \<and> cost_code_ok c k db")
    case True
    let ?db1 = "db\<lparr>eb_coLines := eb_coLines db @ [\<lparr>cl_id = eb_uid db, cl_changeOrderId = i, cl_rateItemId = r,
      cl_quantity = q, cl_materialsCost = 0, cl_laborCost = 0, cl_lineTotal = 0, cl_sortOrder = 0,
      cl_costCodeId = k\<rparr>], eb_uid := Suc (eb_uid db)\<rparr>"
    have "order_evolves db ?db1"
      by (rule order_evolves_draft [OF Inr, where f = "\<lambda>w. w"])
        (use True in \<open>auto simp: lines_ok_def co_lines_def\<close>)
    moreover have "find_order c i ?db1 = Inr w" using Inr by (simp add: find_order_def)
    ultimately have "order_evolves db (snd (recompute c i ?db1))" using True by (auto intro: order_evolves_recompute)
    then show ?thesis using True by (auto simp: add_order_line_def Inr)
  qed (auto simp: add_order_line_def Inr)
qed (simp add: add_order_line_def)

lemma order_evolves_remove_line: "order_evolves db (snd (remove_order_line c i k db))"
proof (cases "find_order c i db")
  case (Inr w)
  show ?thesis
  proof (cases "ch_status w = Es_draft")
    case True
    let ?db1 = "db\<lparr>eb_coLines := filter (\<lambda>l. \<not> (cl_id l = k \<and> cl_changeOrderId l = i)) (eb_coLines db)\<rparr>"
    have "order_evolves db ?db1"
    proof (rule order_evolves_draft [OF Inr True, where f = "\<lambda>w. w"])
      show "co_lines j ?db1 = co_lines j db" if "j \<noteq> i" for j
        using that by (auto simp: co_lines_def intro!: arg_cong [where f = "sort_key cl_sortOrder"] filter_cong)
    qed (auto simp: lines_ok_def distinct_map inj_on_def)
    moreover have "find_order c i ?db1 = Inr w" using Inr by (simp add: find_order_def)
    ultimately have "order_evolves db (snd (recompute c i ?db1))" using True by (auto intro: order_evolves_recompute)
    then show ?thesis using True by (simp add: remove_order_line_def Inr)
  qed (simp add: remove_order_line_def Inr)
qed (simp add: remove_order_line_def)

lemma order_evolves_schedule: "order_evolves db (snd (setScheduleImpact c i days db))"
proof (cases "find_order c i db")
  case (Inr w)
  show ?thesis
  proof (cases "ch_status w = Es_draft")
    case True
    then show ?thesis unfolding setScheduleImpact_def Inr
      using order_evolves_draft_row [OF Inr True] by (simp add: order_keys_def)
  qed (simp add: setScheduleImpact_def Inr)
qed (simp add: setScheduleImpact_def)

subsection \<open>Creating\<close>

lemma order_evolves_create: "order_evolves db (snd (create_order c e title d db))"
proof (cases "create_order c e title d db")
  case (Pair r db')
  show ?thesis
  proof (cases "db' = db")
    case False
    let ?n = "length (numbers_of_estimate e db) + 1"
    let ?w = "new_order (eb_uid db) c e ?n title d"
    have db': "db' = db\<lparr>eb_changeOrders := eb_changeOrders db @ [?w], eb_uid := Suc (eb_uid db)\<rparr>"
      using Pair False
      by (auto simp: create_order_def Let_def numbers_of_estimate_def split: sum.splits if_splits)
    have gate: "order_gate db' v = order_gate db v" for v by (rule order_gate_cong) (simp_all add: db')
    have "co_inv db'" if inv: "co_inv db"
    proof -
      have "numbers_of_estimate k db' = [1..<Suc (length (numbers_of_estimate k db'))]" for k
      proof (cases "k = e")
        case True
        then have "numbers_of_estimate k db' = numbers_of_estimate e db @ [?n]"
          by (simp add: numbers_of_estimate_def db' new_order_def)
        moreover have "numbers_of_estimate e db = [1..<?n]" using inv by (simp add: co_inv_def)
        ultimately show ?thesis by simp
      next
        case False
        then have "numbers_of_estimate k db' = numbers_of_estimate k db"
          by (simp add: numbers_of_estimate_def db' new_order_def)
        with inv show ?thesis by (simp add: co_inv_def)
      qed
      moreover have "\<forall>v \<in> set (eb_changeOrders db'). ch_id v < eb_uid db' \<and>
          (ch_status v = Es_approved \<longrightarrow> order_gate db' v)"
        using inv by (auto simp: co_inv_def gate) (auto simp: db' new_order_def less_Suc_eq)
      moreover have "distinct (map ch_id (eb_changeOrders db'))"
        using inv by (auto simp: co_inv_def db' new_order_def)
      ultimately show ?thesis using inv by (auto simp: co_inv_def lines_ok_def db' less_Suc_eq)
    qed
    moreover have "settled db db'" by (auto simp: settled_def db' co_lines_def intro: frozen_refl)
    ultimately show ?thesis by (simp add: order_evolves_def Pair)
  qed (simp add: Pair)
qed

subsection \<open>Approval\<close>

lemma order_evolves_status:
  assumes "find_order c i db = Inr w" and "ch_status w \<noteq> Es_approved \<or> s = Es_approved" and "s \<noteq> Es_draft"
    and "s = Es_approved \<Longrightarrow> order_gate (db\<lparr>eb_coApprovals := eb_coApprovals db @ as\<rparr>) w"
    and "unique_approvals (eb_coApprovals db) \<Longrightarrow> unique_approvals (eb_coApprovals db @ as)"
  shows "order_evolves db (update_order i (\<lambda>w. w\<lparr>ch_status := s\<rparr>) (db\<lparr>eb_coApprovals := eb_coApprovals db @ as\<rparr>))"
proof (rule order_evolves_update [where i = i and as = as and f = "\<lambda>w. w\<lparr>ch_status := s\<rparr>"])
  let ?db1 = "db\<lparr>eb_coApprovals := eb_coApprovals db @ as\<rparr>"
  let ?db' = "update_order i (\<lambda>w. w\<lparr>ch_status := s\<rparr>) ?db1"
  show "order_gate ?db' (v\<lparr>ch_status := s\<rparr>)"
    if "co_inv db" "v \<in> set (eb_changeOrders db)" "ch_id v = i" "ch_status (v\<lparr>ch_status := s\<rparr>) = Es_approved" for v
  proof -
    have "order_gate ?db' (v\<lparr>ch_status := s\<rparr>) = order_gate ?db1 w"
      using only_order [OF that(1) assms(1) that(2,3)] by (intro order_gate_cong) simp_all
    with that(4) assms(4) show ?thesis by simp
  qed
  show "ch_status v = Es_draft \<or> frozen v (v\<lparr>ch_status := s\<rparr>)"
    if "co_inv db" "v \<in> set (eb_changeOrders db)" "ch_id v = i" for v
    using only_order [OF that(1) assms(1) that(2,3)] assms(2,3) by (auto simp: frozen_def)
qed (use assms(5) in \<open>auto simp: order_keys_def co_inv_def lines_ok_def co_lines_def\<close>)

lemma order_evolves_finalize:
  assumes "find_order c i db = Inr w" and "order_gate db w"
  shows "order_evolves db (snd (finalize_order c i db))"
  using order_evolves_status [OF assms(1), of Es_approved "[]"] assms(2) by (simp add: finalize_order_def Let_def)

lemma order_evolves_approve: "order_evolves db (snd (approve_order now c actor i db))"
proof (cases "find_order c i db")
  case (Inr w)
  have w: "ch_id w = i" "ch_companyId w = c" using found_order [OF Inr] by simp_all
  show ?thesis
  proof (cases "(ch_status w = Es_draft \<or> ch_status w = Es_pending_approval) \<and> co_lines i db \<noteq> [] \<and>
      find_company c db \<noteq> None")
    case True
    then obtain co where co: "find_company c db = Some co" by auto
    show ?thesis
    proof (cases "\<exists>t. ec_changeOrderApprovalThresholdAmount co = Some t \<and> t \<le> tt_grandTotal (ch_totals w)")
      case False
      then have "order_gate db w" by (auto simp: order_gate_def w co split: option.splits)
      from order_evolves_finalize [OF Inr this] False True co show ?thesis
        by (auto simp: approve_order_def Inr split: option.splits)
    next
      case above: True
      then have run: "approve_order now c actor i db =
          record_order_approval now c actor w (ec_changeOrderRequiredApprovalCount co) db"
        using True co by (auto simp: approve_order_def Inr)
      show ?thesis
      proof (cases "ac_userId actor")
        case (Some u)
        let ?a = "\<lparr>ap_subjectId = i, ap_userId = u, ap_actorName = ac_name actor, ap_approvedAt = now\<rparr>"
        let ?db1 = "update_order i (\<lambda>w. w\<lparr>ch_status := Es_pending_approval\<rparr>)
          (db\<lparr>eb_coApprovals := eb_coApprovals db @ [?a]\<rparr>)"
        let ?v = "w\<lparr>ch_status := Es_pending_approval\<rparr>"
        show ?thesis
        proof (cases "\<exists>a \<in> set (eb_coApprovals db). ap_subjectId a = i \<and> ap_userId a = u")
          case new: False
          then have 1: "order_evolves db ?db1"
            using True by (intro order_evolves_status [OF Inr]) (auto simp: unique_approvals_def)
          have v: "find_order c i ?db1 = Inr ?v"
            using Inr find_row_update_any [of "\<lambda>w. ch_id w = i \<and> ch_companyId w = c"
              "\<lambda>w. w\<lparr>ch_status := Es_pending_approval\<rparr>" "\<lambda>w. ch_id w = i" "eb_changeOrders db"]
            by (auto simp: find_order_def w split: option.splits)
          have 2: "order_evolves ?db1 (snd (finalize_order c i ?db1))"
            if "ec_changeOrderRequiredApprovalCount co \<le> length (approvals_of i (eb_coApprovals ?db1))"
            using that co by (intro order_evolves_finalize [OF v])
              (simp add: order_gate_def w find_company_def split: option.split)
          show ?thesis using 1 order_evolves_trans [OF 1 2] new
            by (auto simp: run record_order_approval_def Some w Let_def)
        qed (simp add: run record_order_approval_def Some w)
      qed (simp add: run record_order_approval_def)
    qed
  qed (auto simp: approve_order_def Inr split: option.splits)
qed (simp add: approve_order_def)

end
