(* ===== verification/Change_Order_Life.thy ===== *)
theory Change_Order_Life
  imports Change_Order_Laws Estimate_Approval
begin

section \<open>The life of a change order\<close>

text \<open>
  The requests of the change order service, of its reminder pass and of the estimates service as one
  step relation, and what every sequence of them keeps. A client's decision runs after whatever
  other requests did since the change order was read (\<open>env\<close>).
\<close>

subsection \<open>The estimates service leaves change orders alone\<close>

definition apart :: "est_db \<Rightarrow> est_db \<Rightarrow> bool" where
  "apart db db' \<longleftrightarrow> eb_companies db' = eb_companies db \<and> eb_changeOrders db' = eb_changeOrders db \<and>
     eb_coLines db' = eb_coLines db \<and> eb_coApprovals db' = eb_coApprovals db \<and> eb_uid db \<le> eb_uid db'"

lemma apart_refl [simp]: "apart db db"
  by (simp add: apart_def)

lemma apart_trans [trans]: "apart a b \<Longrightarrow> apart b c \<Longrightarrow> apart a c"
  by (simp add: apart_def)

lemma apart_writes [simp]:
  "apart db (update_est i f db)" "apart db (enqueue c ev i db)" "apart db (insert_line l db)"
  "apart db (snd (insert_estimate e db))" "apart db (decline_siblings now e db)"
  "apart db (finalize_tx c e ls r db)" "apart db (with_approval a db)"
  by (simp_all add: apart_def update_est_def enqueue_def insert_line_def insert_estimate_def decline_siblings_def
      finalize_tx_def with_approval_def)

lemma apart_inserted: "insert_estimate e db = (i, db') \<Longrightarrow> apart db db'"
  using apart_writes(4) [of db e] by simp

lemma apart_fold: "(\<And>x db. apart db (f x db)) \<Longrightarrow> apart db (fold f xs db)"
  by (induction xs arbitrary: db) (auto intro: apart_trans)

lemma apart_clone_sections: "clone_sections t ss db = (ids, db') \<Longrightarrow> apart db db'"
proof (induction ss arbitrary: db ids)
  case (Cons s ss)
  let ?db1 = "db\<lparr>eb_sections := eb_sections db @ [\<lparr>sn_id = eb_uid db, sn_estimateId = t, sn_name = sn_name s,
      sn_sortOrder = sn_sortOrder s\<rparr>], eb_uid := Suc (eb_uid db)\<rparr>"
  from Cons.prems have "apart ?db1 db'"
    by (cases "clone_sections t ss ?db1") (auto simp: Let_def dest: Cons.IH)
  then show ?case by (simp add: apart_def)
qed simp

lemma apart_recalc: "recalc c i db = Inr db' \<Longrightarrow> apart db db'"
  by (auto simp: recalc_def apart_def update_est_def split: sum.splits if_splits)

lemma apart_recalculate: "apart db (snd (recalculate c role i db))"
  using apart_recalc by (auto simp: recalculate_def split: sum.splits)

lemma apart_cloned: "apart db (snd (cloneSectionsAndLines c role ss ls t db))"
proof (cases "clone_sections t ss db")
  case (Pair ids db1)
  then have 1: "apart db db1" by (rule apart_clone_sections)
  have 2: "apart db1 (fold (\<lambda>l. insert_line (clone_line t ids l)) ls db1)" by (rule apart_fold) simp
  show ?thesis
    using 1 apart_trans [OF 1 apart_trans [OF 2 apart_recalculate]]
    by (simp add: cloneSectionsAndLines_def Pair)
qed

lemma apart_finalizeApproval: "apart db (snd (finalizeApproval c role e ls db))"
  by (auto simp: finalizeApproval_def Let_def split: sum.splits)

lemma apart_recordApprovalStep: "apart db (snd (recordApprovalStep now c actor role e ls n db))"
proof (cases "recordApprovalStep now c actor role e ls n db")
  case (Pair r db')
  then show ?thesis
  proof (cases rule: recordApprovalStep_cases)
    case (2 a)
    have "apart (with_approval a db) db'"
      using 2(4) apart_finalizeApproval [of "with_approval a db" c role e ls]
      by (cases "n \<le> length (approvals_of (es_id e) (eb_approvals (with_approval a db)))") (auto dest: sym)
    then show ?thesis using Pair apart_trans [OF apart_writes(7)] by auto
  qed (simp add: Pair)
qed

lemma apart_approve: "apart db (snd (approve now c actor role i db))"
proof (cases "recalc c i db")
  case (Inr db1)
  have "apart db1 (snd (approve now c actor role i db))"
    by (auto simp: approve_def Inr split: sum.splits option.splits
        intro!: apart_finalizeApproval apart_recordApprovalStep)
  with apart_recalc [OF Inr] show ?thesis by (rule apart_trans)
qed (simp add: approve_def)

lemma apart_applyDecision: "apart db (env db) \<Longrightarrow> apart db (snd (applyDecision env now e d ip db))"
  by (simp add: applyDecision_def Let_def apart_def enqueue_def decline_siblings_def update_est_def)

lemmas apart_intros = apart_recalculate apart_approve apart_applyDecision apart_inserted
  apart_trans [OF apart_inserted apart_cloned] apart_trans [OF apart_writes(3) apart_recalculate]
  apart_trans [OF apart_writes(1) apart_writes(2)]

lemma rtranclp_apart: "(\<lambda>x y. est_step x y \<and> apart x y)\<^sup>*\<^sup>* a b \<Longrightarrow> apart a b"
  by (induction rule: rtranclp_induct) (auto intro: apart_trans)

lemma apart_assembly: "apart db (snd (addAssemblyToEstimate c role i a q s db))"
  by (auto simp: addAssemblyToEstimate_def split: sum.splits option.splits
      intro!: apart_trans [OF apart_fold apart_recalculate])

lemma apart_remind: "apart db (snd (remindPendingEstimates now c db))"
  by (auto simp: remindPendingEstimates_def Let_def intro!: apart_fold)

lemma est_step_apart: "est_step db db' \<Longrightarrow> apart db db'"
proof (induction rule: est_step.induct)
  case (decide db env now token d ip)
  then have "apart db (env db)" by (intro rtranclp_apart)
  then show ?case by (auto simp: decision_doors split: option.splits intro: apart_intros)
next
  case (decide_for_client db env now c client i d ip)
  then have "apart db (env db)" by (intro rtranclp_apart)
  then show ?case by (auto simp: decision_doors split: option.splits intro: apart_intros)
next
  case (decline db env now c i n)
  then have "apart db (env db)" by (intro rtranclp_apart)
  then show ?case by (auto simp: decision_doors split: sum.splits intro: apart_intros)
qed (auto simp: create_estimate_def addLine_def updateCoverLetter_def send_estimate_def createVariant_def
    saveAsTemplate_def createFromTemplate_def apart_assembly apart_remind
    split: sum.splits option.splits prod.splits intro: apart_intros)

lemma apart_evolves:
  assumes "apart db db'"
  shows "order_evolves db db'"
proof (rule order_evolves_update [where f = "\<lambda>w. w" and as = "[]" and i = 0])
  have "order_gate db' w = order_gate db w" for w
    using assms by (intro order_gate_cong) (simp_all add: apart_def)
  then show "order_gate db' w" if "co_inv db" "w \<in> set (eb_changeOrders db)" "ch_status w = Es_approved" for w
    using that by (simp add: co_inv_def)
qed (use assms frozen_refl in \<open>auto simp: apart_def co_inv_def lines_ok_def co_lines_def\<close>)

subsection \<open>Every operation\<close>

lemma decide_order_row_keeps:
  "order_keys (decide_order_row now d ip w) = order_keys w" "ch_status (decide_order_row now d ip w) = ch_status w"
  "ch_totals (decide_order_row now d ip w) = ch_totals w" "ch_title (decide_order_row now d ip w) = ch_title w"
  "ch_scheduleImpactDays (decide_order_row now d ip w) = ch_scheduleImpactDays w"
  by (simp_all add: decide_order_row_def order_keys_def split: order_input.split)

lemma order_evolves_decided:
  assumes "order_evolves db (env db)"
  shows "order_evolves db (snd (apply_order_decision env now w d ip db))"
proof -
  have "order_evolves (env db) (update_order (ch_id w) (decide_order_row now d ip) (env db))"
    by (rule order_evolves_light) (simp add: decide_order_row_keeps)
  then have "order_evolves db (enqueue c ev k (update_order (ch_id w) (decide_order_row now d ip) (env db)))" for c ev k
    using assms order_evolves_trans apart_evolves apart_writes(2) by blast
  then show ?thesis by (simp add: apply_order_decision_def)
qed

lemma order_evolves_send: "order_evolves db (snd (send_order now c token i db))"
proof -
  have "order_evolves db (enqueue c ev i (update_order i (\<lambda>w. w\<lparr>ch_clientAccessToken := Some token, ch_sentAt := Some now,
      ch_clientDecision := Dec_pending, ch_decisionAt := None, ch_clientDecisionNote := None\<rparr>) db))" for ev
    by (rule order_evolves_trans [OF order_evolves_light apart_evolves [OF apart_writes(2)]]) (simp add: order_keys_def)
  then show ?thesis by (simp add: send_order_def split: sum.split)
qed

lemma order_evolves_fold: "(\<And>x db. order_evolves db (f x db)) \<Longrightarrow> order_evolves db (fold f xs db)"
  by (induction xs arbitrary: db) (auto intro: order_evolves_trans)

lemma order_evolves_remind: "order_evolves db (snd (remindPendingChangeOrders now c db))"
  by (auto simp: remindPendingChangeOrders_def Let_def order_keys_def intro!: order_evolves_fold order_evolves_light)

inductive order_step :: "est_db \<Rightarrow> est_db \<Rightarrow> bool" where
  estimate: "est_step db db' \<Longrightarrow> order_step db db'"
| create: "order_step db (snd (create_order c e title d db))"
| add_line: "order_step db (snd (add_order_line c i r q k db))"
| remove_line: "order_step db (snd (remove_order_line c i k db))"
| schedule: "order_step db (snd (setScheduleImpact c i days db))"
| approve: "order_step db (snd (approve_order now c actor i db))"
| send: "order_step db (snd (send_order now c token i db))"
| decide: "order_step\<^sup>*\<^sup>* db (env db) \<Longrightarrow> order_step db (snd (decide_order env now token d ip db))"
| decide_for_client:
    "order_step\<^sup>*\<^sup>* db (env db) \<Longrightarrow> order_step db (snd (decide_order_for_client env now c client i d ip db))"
| decline: "order_step\<^sup>*\<^sup>* db (env db) \<Longrightarrow> order_step db (snd (decline_order env now c i n db))"
| remind: "order_step db (snd (remindPendingChangeOrders now c db))"

lemma rtranclp_evolves: "(\<lambda>x y. order_step x y \<and> order_evolves x y)\<^sup>*\<^sup>* a b \<Longrightarrow> order_evolves a b"
  by (induction rule: rtranclp_induct) (auto intro: order_evolves_trans)

lemma order_step_evolves: "order_step db db' \<Longrightarrow> order_evolves db db'"
proof (induction rule: order_step.induct)
  case (decide db env now token d ip)
  then have "order_evolves db (env db)" by (intro rtranclp_evolves)
  then show ?case by (auto simp: decide_order_def split: option.splits intro: order_evolves_decided)
next
  case (decide_for_client db env now c client i d ip)
  then have "order_evolves db (env db)" by (intro rtranclp_evolves)
  then show ?case by (auto simp: decide_order_for_client_def split: option.splits intro: order_evolves_decided)
next
  case (decline db env now c i n)
  then have "order_evolves db (env db)" by (intro rtranclp_evolves)
  then show ?case by (auto simp: decline_order_def split: sum.splits intro: order_evolves_decided)
qed (auto intro: apart_evolves est_step_apart order_evolves_create order_evolves_add_line order_evolves_remove_line order_evolves_schedule
    order_evolves_approve order_evolves_send order_evolves_remind)

interpretation change_orders: transition_system "\<lambda>db. db = db0 \<and> co_inv db0" order_step
  "\<lambda>db. co_inv db \<and> settled db0 db" for db0
proof unfold_locales
  show "co_inv t \<and> settled db0 t" if "co_inv s \<and> settled db0 s" "order_step s t" for s t
    using order_step_evolves [OF that(2)] that(1) settled_trans unfolding order_evolves_def by blast
  show "co_inv s \<and> settled db0 s" if "s = db0 \<and> co_inv db0" for s
    using order_evolves_refl [of db0] that unfolding order_evolves_def by blast
qed

text \<open>Once its approval has begun a change order is frozen: over any sequence of requests, its
  lines (with quantities and prices), totals, title, number and schedule impact stay exactly as
  they were, it never returns to draft, and an approved one stays approved.\<close>

theorem change_order_frozen:
  assumes "co_inv db" and "order_step\<^sup>*\<^sup>* db db'" and "w \<in> set (eb_changeOrders db)" and "ch_status w \<noteq> Es_draft"
  shows "(\<exists>v \<in> set (eb_changeOrders db'). ch_id v = ch_id w \<and> ch_totals v = ch_totals w \<and>
      ch_title v = ch_title w \<and> ch_number v = ch_number w \<and>
      ch_scheduleImpactDays v = ch_scheduleImpactDays w \<and> ch_status v \<noteq> Es_draft \<and>
      (ch_status w = Es_approved \<longrightarrow> ch_status v = Es_approved)) \<and>
    co_lines (ch_id w) db' = co_lines (ch_id w) db"
  using change_orders.inv_reachable [of db db db'] assms unfolding settled_def frozen_def by blast

definition order_approvers :: "uid \<Rightarrow> est_db \<Rightarrow> uid set" where
  "order_approvers i db = set (map ap_userId (approvals_of i (eb_coApprovals db)))"


text \<open>The change orders of every estimate are numbered CO-1, CO-2, ... without gaps, over any
  sequence of requests, and raising the next one on an approved estimate always succeeds with the
  next number.\<close>

theorem change_orders_numbered:
  assumes "co_inv db" and "order_step\<^sup>*\<^sup>* db db'"
  shows "numbers_of_estimate e db' = [1..<Suc (length (numbers_of_estimate e db'))] \<and>
    (case find_est c e db' of Inl _ \<Rightarrow> True
     | Inr x \<Rightarrow> if es_status x = Es_approved
         then map_sum id ch_number (fst (create_order c e title d db')) =
           Inr (Suc (length (numbers_of_estimate e db')))
         else isl (fst (create_order c e title d db')))"
proof -
  have nums: "numbers_of_estimate e db' = [1..<Suc (length (numbers_of_estimate e db'))]"
    using change_orders.inv_reachable [of db db db'] assms by (auto simp: co_inv_def)
  let ?n = "length (filter (\<lambda>w. ch_estimateId w = e) (eb_changeOrders db')) + 1"
  have len: "?n = Suc (length (numbers_of_estimate e db'))" by (simp add: numbers_of_estimate_def)
  have "?n \<notin> set (numbers_of_estimate e db')" unfolding len by (subst nums) simp
  moreover have "m \<notin> set (numbers_of_estimate e db') \<Longrightarrow>
      \<not> (\<exists>w \<in> set (eb_changeOrders db'). ch_estimateId w = e \<and> ch_number w = m)" for m
    by (auto simp: numbers_of_estimate_def)
  ultimately have unused: "\<not> (\<exists>w \<in> set (eb_changeOrders db'). ch_estimateId w = e \<and> ch_number w = ?n)" by blast
  have "fst (create_order c e title d db') = (case find_est c e db' of Inl err \<Rightarrow> Inl err
      | Inr x \<Rightarrow> if es_status x \<noteq> Es_approved
          then Inl (BadRequestException (msg ''Change orders can only be raised against an approved estimate''))
          else Inr (new_order (eb_uid db') c e ?n title d))"
    unfolding create_order_def Let_def if_not_P [OF unused] by (simp split: sum.split)
  then show ?thesis using nums unfolding len by (simp add: new_order_def split: sum.split)
qed

subsection \<open>An example\<close>

text \<open>An approved estimate; a change order of one line is raised and approved by two users.\<close>

definition signed_db :: est_db where
  "signed_db = draft_db\<lparr>eb_estimates := map (\<lambda>e. e\<lparr>es_status := Es_approved\<rparr>) (eb_estimates draft_db)\<rparr>"

definition order_draft_db :: est_db where
  "order_draft_db = snd (add_order_line 1 40 10 6 None (snd (create_order 1 30 ''Extra'' None signed_db)))"

definition approve_order_as :: "uid \<Rightarrow> est_db \<Rightarrow> est_db" where
  "approve_order_as user db = snd (approve_order 5 1 \<lparr>ac_userId = Some user, ac_name = ''A''\<rparr> 40 db)"

definition order_pending_db :: est_db where
  "order_pending_db = approve_order_as 7 order_draft_db"

definition order_approved_db :: est_db where
  "order_approved_db = approve_order_as 8 order_pending_db"

lemma signed_inv: "co_inv signed_db"
  by (simp add: co_inv_def signed_db_def draft_db_def empty_est_db_def numbers_of_estimate_def
      unique_approvals_def lines_ok_def)

lemma order_steps: "order_step\<^sup>*\<^sup>* signed_db order_pending_db" "order_step order_pending_db order_approved_db"
proof -
  show "order_step order_pending_db order_approved_db"
    unfolding order_approved_db_def approve_order_as_def by (rule order_step.approve)
  have "order_step order_draft_db order_pending_db"
    unfolding order_pending_db_def approve_order_as_def by (rule order_step.approve)
  moreover have "order_step (snd (create_order 1 30 ''Extra'' None signed_db)) order_draft_db"
    unfolding order_draft_db_def by (rule order_step.add_line)
  moreover have "order_step signed_db (snd (create_order 1 30 ''Extra'' None signed_db))"
    by (rule order_step.create)
  ultimately show "order_step\<^sup>*\<^sup>* signed_db order_pending_db"
    by - (rule rtranclp.rtrancl_into_rtrancl, rule rtranclp.rtrancl_into_rtrancl, rule r_into_rtranclp)
qed

lemma order_last_step: "order_step\<^sup>*\<^sup>* order_pending_db order_approved_db"
  by (rule r_into_rtranclp) (rule order_steps(2))

lemma order_pending_inv: "co_inv order_pending_db"
  using change_orders.inv_reachable [of signed_db signed_db] signed_inv order_steps(1) by blast

lemma order_facts:
  "map ch_id (eb_changeOrders order_pending_db) = [40]"
  "map ch_status (eb_changeOrders order_pending_db) = [Es_pending_approval]"
  "map ch_status (eb_changeOrders order_approved_db) = [Es_approved]"
  "map (tt_grandTotal \<circ> ch_totals) (eb_changeOrders order_approved_db) = [21841/100]"
  "map ch_companyId (eb_changeOrders order_approved_db) = [1]"
  "map ch_id (eb_changeOrders order_approved_db) = [40]"
  "case find_company 1 order_approved_db of None \<Rightarrow> False
     | Some c \<Rightarrow> ec_changeOrderApprovalThresholdAmount c = Some 100 \<and> ec_changeOrderRequiredApprovalCount c = 2"
  by code_simp+

theorem change_order_frozen_witness: "co_lines 40 order_approved_db = co_lines 40 order_pending_db"
proof -
  from order_facts(1,2) obtain w where w: "w \<in> set (eb_changeOrders order_pending_db)" "ch_id w = 40"
    "ch_status w = Es_pending_approval" by (cases "eb_changeOrders order_pending_db") auto
  then show ?thesis
    using change_order_frozen [OF order_pending_inv order_last_step w(1)] by simp
qed


theorem change_orders_numbered_witness:
  "numbers_of_estimate 30 order_approved_db = [1] \<and>
   map_sum id ch_number (fst (create_order 1 30 ''More'' None order_approved_db)) = Inr 2"
proof -
  have "case find_est 1 30 order_approved_db of Inl _ \<Rightarrow> False | Inr x \<Rightarrow> es_status x = Es_approved"
    "length (numbers_of_estimate 30 order_approved_db) = 1" by code_simp+
  then show ?thesis
    using change_orders_numbered [OF signed_inv rtranclp.rtrancl_into_rtrancl [OF order_steps],
        of 30 1 "''More''" None]
    by (auto split: sum.splits)
qed

end
