(* ===== verification/Client_Signoff.thy ===== *)
theory Client_Signoff
  imports Change_Order_Life
begin

section \<open>The client's sign-off\<close>

text \<open>
  Estimates and change orders share the contract of a sign-off: a pending document is decided by the
  first answer and every later answer is refused. The locale states it for any way of reaching the
  document; it is interpreted for the public link and the portal of estimates and for the public
  link of change orders. The contract needs the answers one after the other: at the end are the
  runs in which two answers overlap.
\<close>

locale client_signoff =
  fixes row :: "'s \<Rightarrow> 'r option"
    and decision_of :: "'r \<Rightarrow> decision"
    and answer :: "'i \<Rightarrow> 's \<Rightarrow> (app_error + decision) \<times> 's"
    and outcome :: "'i \<Rightarrow> decision"
  assumes decided: "row s = Some r \<Longrightarrow> decision_of r = Dec_pending \<Longrightarrow>
      fst (answer i s) = Inr (outcome i) \<and>
      (\<exists>r'. row (snd (answer i s)) = Some r' \<and> decision_of r' = outcome i)"
    and refused: "row s = Some r \<Longrightarrow> decision_of r \<noteq> Dec_pending \<Longrightarrow> isl (fst (answer i s)) \<and> snd (answer i s) = s"
    and outcome_final: "outcome i \<noteq> Dec_pending"
begin

lemma later_answers:
  assumes "row s = Some r" and "decision_of r \<noteq> Dec_pending"
  shows "fold (\<lambda>i s. snd (answer i s)) is s = s"
  by (induction "is") (use refused [OF assms] in simp_all)

lemma first_answer_counts:
  assumes "row s = Some r" and "decision_of r = Dec_pending"
  shows "fst (answer i s) = Inr (outcome i)"
    and "fold (\<lambda>i s. snd (answer i s)) is (snd (answer i s)) = snd (answer i s)"
    and "isl (fst (answer j (snd (answer i s))))"
proof -
  from decided [OF assms] obtain r' where "fst (answer i s) = Inr (outcome i)"
    "row (snd (answer i s)) = Some r'" "decision_of r' \<noteq> Dec_pending" using outcome_final by metis
  then show "fst (answer i s) = Inr (outcome i)"
    "fold (\<lambda>i s. snd (answer i s)) is (snd (answer i s)) = snd (answer i s)"
    "isl (fst (answer j (snd (answer i s))))"
    using later_answers refused by blast+
qed

end

subsection \<open>Estimates\<close>

lemma input_decision_final: "input_decision d \<noteq> Dec_pending"
  by (cases d) simp_all

lemma decide_row_decision [simp]:
  "es_clientDecision (decide_row now d ip e) = input_decision d"
  "es_clientAccessToken (decide_row now d ip e) = es_clientAccessToken e"
  by (simp_all add: decide_row_def Let_def split: client_input.split)

text \<open>How an answer rewrites the table, nobody interfering.\<close>

definition settled_row :: "date \<Rightarrow> client_input \<Rightarrow> string option \<Rightarrow> estimate \<Rightarrow> estimate \<Rightarrow> estimate" where
  "settled_row now d ip e x =
     (if es_id x = es_id e then decide_row now d ip x
      else if input_decision d = Dec_approved \<and> sibling e x \<and> es_clientDecision x = Dec_pending
      then x\<lparr>es_clientDecision := Dec_rejected, es_decisionAt := Some now,
             es_clientDecisionNote := Some ''Auto-declined - a sibling variant was approved''\<rparr>
      else x)"

lemma applyDecision_rows:
  assumes "es_clientDecision e = Dec_pending"
  shows "fst (applyDecision id now e d ip db) = Inr (input_decision d)"
    and "eb_estimates (snd (applyDecision id now e d ip db)) = map (settled_row now d ip e) (eb_estimates db)"
  using assms by (auto simp: applyDecision_def Let_def enqueue_def decline_siblings_def update_est_def
      update_rows_def settled_row_def sibling_def)

lemma find_settled_row:
  assumes "find_row p rows = Some e" and "\<And>x. p (settled_row now d ip e x) = p x"
  shows "find_row p (map (settled_row now d ip e) rows) = Some (decide_row now d ip e)"
proof -
  have "find_row p (map (settled_row now d ip e) rows) = map_option (settled_row now d ip e) (find_row p rows)"
    by (induction rows) (auto simp: row_simps assms(2))
  then show ?thesis by (simp add: assms(1) settled_row_def)
qed

lemma settled_row_token [simp]: "es_clientAccessToken (settled_row now d ip e x) = es_clientAccessToken x"
  by (simp add: settled_row_def)

abbreviation by_token :: "string \<Rightarrow> est_db \<Rightarrow> estimate option" where
  "by_token token db \<equiv> find_row (\<lambda>e. es_clientAccessToken e = Some token) (eb_estimates db)"

interpretation public_link: client_signoff "by_token token" es_clientDecision
  "\<lambda>(now, d, ip). decide id now token d ip" "\<lambda>(now, d, ip). input_decision d" for token
proof unfold_locales
  fix db e and i :: "date \<times> client_input \<times> string option"
  obtain now d ip where i: "i = (now, d, ip)" by (metis prod_cases3)
  assume e: "by_token token db = Some e"
  show "fst ((case i of (now, d, ip) \<Rightarrow> decide id now token d ip) db) = Inr (case i of (now, d, ip) \<Rightarrow> input_decision d) \<and>
      (\<exists>r'. by_token token (snd ((case i of (now, d, ip) \<Rightarrow> decide id now token d ip) db)) = Some r' \<and>
        es_clientDecision r' = (case i of (now, d, ip) \<Rightarrow> input_decision d))"
    if "es_clientDecision e = Dec_pending"
    using that e find_settled_row [OF e, of now d ip] by (simp add: i decide_def applyDecision_rows)
  show "isl (fst ((case i of (now, d, ip) \<Rightarrow> decide id now token d ip) db)) \<and>
      snd ((case i of (now, d, ip) \<Rightarrow> decide id now token d ip) db) = db"
    if "es_clientDecision e \<noteq> Dec_pending"
    using that e by (simp add: i decide_def applyDecision_def)
qed (auto simp: input_decision_final split: prod.split)

text \<open>A client decides once: the first answer through the link of a pending estimate is accepted,
  and every later answer through it is refused and changes nothing, however many there are.\<close>

theorem client_decides_once:
  assumes "by_token token db = Some e" and "es_clientDecision e = Dec_pending"
  shows "fst (decide id now token d ip db) = Inr (input_decision d) \<and>
    isl (fst (decide id now2 token d2 ip2 (snd (decide id now token d ip db)))) \<and>
    fold (\<lambda>(now, d, ip) db. snd (decide id now token d ip db)) later (snd (decide id now token d ip db)) =
      snd (decide id now token d ip db)"
  using public_link.first_answer_counts(1) [OF assms, of "(now, d, ip)"]
    public_link.first_answer_counts(2) [OF assms, of later "(now, d, ip)"]
    public_link.first_answer_counts(3) [OF assms, of "(now2, d2, ip2)" "(now, d, ip)"]
  by (simp add: case_prod_beta')

text \<open>C29 Approving one variant settles its whole group: the approved estimate carries the decision,
  its time and the signature, every variant that was still pending is declined, and no other row
  and no other column changes.\<close>

theorem client_approval_settles_variants:
  assumes "by_token token db = Some e" and "es_clientDecision e = Dec_pending"
    and "distinct (map es_id (eb_estimates db))"
  shows "let db' = snd (decide id now token (Approve n signer key) ip db) in
    eb_estimates db' = map (\<lambda>x.
      if x = e then e\<lparr>es_clientDecision := Dec_approved, es_decisionAt := Some now,
          es_clientDecisionNote := keep n (es_clientDecisionNote e), es_signerName := Some signer,
          es_signatureImageKey := Some key, es_signedIp := keep ip (es_signedIp e)\<rparr>
      else if sibling e x \<and> es_clientDecision x = Dec_pending
      then x\<lparr>es_clientDecision := Dec_rejected, es_decisionAt := Some now,
          es_clientDecisionNote := Some ''Auto-declined - a sibling variant was approved''\<rparr>
      else x) (eb_estimates db) \<and>
    list_all (\<lambda>x. sibling e x \<longrightarrow> es_clientDecision x \<noteq> Dec_pending) (eb_estimates db')"
proof -
  have e: "e \<in> set (eb_estimates db)" using assms(1) by (auto dest: find_row_SomeD)
  have same: "es_id x = es_id e \<longleftrightarrow> x = e" if "x \<in> set (eb_estimates db)" for x
    using assms(3) e that by (auto simp: distinct_map inj_on_def)
  have rows: "eb_estimates (snd (decide id now token (Approve n signer key) ip db)) =
      map (settled_row now (Approve n signer key) ip e) (eb_estimates db)"
    using assms(1,2) by (simp add: decide_def applyDecision_rows)
  have "sibling e (settled_row now (Approve n signer key) ip e x) \<longrightarrow>
      es_clientDecision (settled_row now (Approve n signer key) ip e x) \<noteq> Dec_pending" for x
    by (auto simp: settled_row_def sibling_def)
  then show ?thesis unfolding Let_def rows
    by (auto simp: list_all_iff same settled_row_def decide_row_def)
qed

subsection \<open>The portal\<close>

definition portal_estimate :: "uid \<Rightarrow> uid \<Rightarrow> uid \<Rightarrow> est_db \<Rightarrow> estimate option" where
  "portal_estimate companyId clientId i db =
     find_row (\<lambda>e. es_id e = i \<and> es_companyId e = companyId \<and> es_sentAt e \<noteq> None \<and>
       (\<exists>p \<in> set (eb_projects db). es_projectId e = Some (ep_id p) \<and> ep_clientId p = Some clientId))
     (eb_estimates db)"

lemma settled_row_portal [simp]:
  "es_id (settled_row now d ip e x) = es_id x" "es_companyId (settled_row now d ip e x) = es_companyId x"
  "es_sentAt (settled_row now d ip e x) = es_sentAt x" "es_projectId (settled_row now d ip e x) = es_projectId x"
  by (simp_all add: settled_row_def decide_row_def Let_def split: client_input.split)

lemma decided_projects: "eb_projects (snd (applyDecision id now e d ip db)) = eb_projects db"
  by (simp add: applyDecision_def Let_def enqueue_def decline_siblings_def update_est_def)

interpretation portal: client_signoff "portal_estimate companyId clientId i" es_clientDecision
  "\<lambda>(now, d, ip). decideForClient id now companyId clientId i d ip" "\<lambda>(now, d, ip). input_decision d"
  for companyId clientId i
proof unfold_locales
  fix db e and a :: "date \<times> client_input \<times> string option"
  obtain now d ip where a: "a = (now, d, ip)" by (metis prod_cases3)
  assume e: "portal_estimate companyId clientId i db = Some e"
  then have run: "decideForClient id now companyId clientId i d ip db = applyDecision id now e d ip db"
    by (simp add: decideForClient_def portal_estimate_def)
  show "fst ((case a of (now, d, ip) \<Rightarrow> decideForClient id now companyId clientId i d ip) db) =
        Inr (case a of (now, d, ip) \<Rightarrow> input_decision d) \<and>
      (\<exists>r'. portal_estimate companyId clientId i
          (snd ((case a of (now, d, ip) \<Rightarrow> decideForClient id now companyId clientId i d ip) db)) = Some r' \<and>
        es_clientDecision r' = (case a of (now, d, ip) \<Rightarrow> input_decision d))"
    if "es_clientDecision e = Dec_pending"
    using that find_settled_row [OF e [unfolded portal_estimate_def], of now d ip]
    by (simp add: a run applyDecision_rows portal_estimate_def decided_projects)
  show "isl (fst ((case a of (now, d, ip) \<Rightarrow> decideForClient id now companyId clientId i d ip) db)) \<and>
      snd ((case a of (now, d, ip) \<Rightarrow> decideForClient id now companyId clientId i d ip) db) = db"
    if "es_clientDecision e \<noteq> Dec_pending"
    using that by (simp add: a run applyDecision_def)
qed (auto simp: input_decision_final split: prod.split)

subsection \<open>Change orders\<close>

abbreviation order_of_token :: "string \<Rightarrow> est_db \<Rightarrow> change_order option" where
  "order_of_token token db \<equiv> find_row (\<lambda>w. ch_clientAccessToken w = Some token) (eb_changeOrders db)"

lemma decide_order_row_fields [simp]:
  "ch_clientDecision (decide_order_row now d ip w) = order_decision d"
  "ch_clientAccessToken (decide_order_row now d ip w) = ch_clientAccessToken w"
  by (simp_all add: decide_order_row_def order_decision_def split: order_input.split)

interpretation order_signoff: client_signoff "order_of_token token" ch_clientDecision
  "\<lambda>(now, d, ip). decide_order id now token d ip" "\<lambda>(now, d, ip). order_decision d" for token
proof unfold_locales
  fix db w and a :: "date \<times> order_input \<times> string option"
  obtain now d ip where a: "a = (now, d, ip)" by (metis prod_cases3)
  assume w: "order_of_token token db = Some w"
  then have run: "decide_order id now token d ip db = apply_order_decision id now w d ip db"
    by (simp add: decide_order_def)
  have "order_of_token token (update_order (ch_id w) (decide_order_row now d ip) db) =
      map_option (\<lambda>x. if ch_id x = ch_id w then decide_order_row now d ip x else x) (order_of_token token db)"
    by (simp add: find_row_update_any)
  then show "fst ((case a of (now, d, ip) \<Rightarrow> decide_order id now token d ip) db) =
        Inr (case a of (now, d, ip) \<Rightarrow> order_decision d) \<and>
      (\<exists>r'. order_of_token token (snd ((case a of (now, d, ip) \<Rightarrow> decide_order id now token d ip) db)) = Some r' \<and>
        ch_clientDecision r' = (case a of (now, d, ip) \<Rightarrow> order_decision d))"
    if "ch_clientDecision w = Dec_pending"
    using that w by (simp add: a run apply_order_decision_def enqueue_def)
  show "isl (fst ((case a of (now, d, ip) \<Rightarrow> decide_order id now token d ip) db)) \<and>
      snd ((case a of (now, d, ip) \<Rightarrow> decide_order id now token d ip) db) = db"
    if "ch_clientDecision w \<noteq> Dec_pending"
    using that by (simp add: a run apply_order_decision_def)
qed (auto simp: order_decision_def split: prod.split order_input.split)

lemma order_decided_once:
  assumes "order_of_token token db = Some w" and "ch_clientDecision w = Dec_pending"
  shows "fst (decide_order id now token d ip db) = Inr (order_decision d)"
    and "isl (fst (decide_order id now2 token d2 ip2 (snd (decide_order id now token d ip db))))"
  using order_signoff.first_answer_counts(1) [OF assms, of "(now, d, ip)"]
    order_signoff.first_answer_counts(3) [OF assms, of "(now2, d2, ip2)" "(now, d, ip)"]
  by simp_all

subsection \<open>Examples\<close>

text \<open>Two variants out with the client.\<close>

definition sent_db :: est_db where
  "sent_db = signed_db\<lparr>eb_estimates :=
     [(hd (eb_estimates signed_db))\<lparr>es_clientAccessToken := Some ''t1'', es_sentAt := Some 9\<rparr>,
      (hd (eb_estimates signed_db))\<lparr>es_id := 33, es_variantOfId := Some 30,
        es_clientAccessToken := Some ''t2'', es_sentAt := Some 9\<rparr>]\<rparr>"

definition basic_variant :: estimate where
  "basic_variant = (hd (eb_estimates signed_db))\<lparr>es_clientAccessToken := Some ''t1'', es_sentAt := Some 9\<rparr>"

lemma sent_facts:
  "by_token ''t1'' sent_db = Some basic_variant"
  "es_clientDecision basic_variant = Dec_pending" "distinct (map es_id (eb_estimates sent_db))"
  by (simp_all add: sent_db_def basic_variant_def signed_db_def draft_db_def blank_estimate_def row_simps)

theorem client_decides_once_witness:
  "isl (fst (decide id 11 ''t1'' (Approve None ''Eve'' ''k'') None
     (snd (decide id 10 ''t1'' (Reject None) None sent_db))))"
  using client_decides_once [OF sent_facts(1,2), of 10 "Reject None" None 11 "Approve None ''Eve'' ''k''" None "[]"]
  by simp

theorem client_approval_settles_variants_witness:
  "map es_clientDecision (eb_estimates (snd (decide id 10 ''t1'' (Approve None ''Eve'' ''k'') None sent_db))) =
     [Dec_approved, Dec_rejected]"
  using client_approval_settles_variants [OF sent_facts, of 10 None "''Eve''" "''k''" None]
  by (simp add: Let_def)
    (simp add: sent_db_def basic_variant_def signed_db_def draft_db_def blank_estimate_def sibling_def root_of_def)

text \<open>Two answers that overlap are both accepted: the pending state is read before the transaction that
  writes, which does not check it again. Here the second variant is approved while the approval of the first is under
  way, and the group ends with two approved variants; and an answer that was rejected is approved.\<close>

lemma both_variants_approved:
  "map es_clientDecision (eb_estimates (snd (decide
      (\<lambda>db. snd (decide id 10 ''t2'' (Approve None ''Eve'' ''k2'') None db)) 11 ''t1'' (Approve None ''Eve'' ''k'') None
      sent_db))) = [Dec_approved, Dec_approved]"
  by code_simp

lemma rejection_overwritten:
  "let run = decide (\<lambda>db. snd (decide id 10 ''t1'' (Reject None) None db)) 11 ''t1'' (Approve None ''Eve'' ''k'') None sent_db
   in map es_clientDecision (eb_estimates (snd run)) = [Dec_approved, Dec_rejected] \<and>
      map (\<lambda>(_, ev, _). ev) (eb_outbox (snd run)) = [''estimate.client_rejected'', ''estimate.client_approved'']"
  by code_simp

text \<open>A countered estimate can be sent again, which reopens the decision; the counter offer stays behind, and the public view still shows it once
  the client has approved.\<close>

lemma counter_offer_survives_resend:
  "let db1 = snd (decide id 10 ''t1'' (Counter None 250) None sent_db);
       db2 = snd (send_estimate 20 1 ''t3'' 30 db1);
       db3 = snd (decide id 30 ''t3'' (Approve None ''Eve'' ''k'') None db2)
   in map es_clientDecision (eb_estimates db2) = [Dec_pending, Dec_pending] \<and>
      (case getByToken ''t3'' db3 of Inl _ \<Rightarrow> False
       | Inr v \<Rightarrow> pe_clientDecision v = Dec_approved \<and> pe_counterOfferAmount v = Some 250)"
  by code_simp

text \<open>An estimate that was reminded three times is never reminded again, not even after it is sent anew.\<close>

lemma no_reminders_after_resend:
  "let spent = sent_db\<lparr>eb_estimates := map (\<lambda>e. e\<lparr>es_reminderCount := 3\<rparr>) (eb_estimates sent_db)\<rparr>
   in reminder_candidates 1 (snd (send_estimate 20 1 ''t3'' 30 spent)) = []"
  by code_simp

end
