(* ===== verification/Critical_Path.thy ===== *)
theory Critical_Path
  imports Prelude
begin

section \<open>Critical path and slippage\<close>

text \<open>
  \<open>projects/critical-path.ts\<close> and the calculations beside it (\<open>schedule-slippage.ts\<close>,
  \<open>ppc.ts\<close>). Task ids are primary keys: no two tasks share one. Days are numbers of days since the epoch of the plan. A \<open>Map\<close> of numbers is a function
  into \<open>int option\<close>: \<open>None\<close> is \<open>undefined\<close>, and so is the \<open>NaN\<close> it turns into (a cyclic plan has such
  entries). The rest says what the backward pass computes: Kahn's loop orders an acyclic plan, and
  the late dates are the greatest ones that respect every dependency and the project's finish.
\<close>

subsection \<open>The calculation\<close>

definition CPM_DAY_MS :: int where
  "CPM_DAY_MS = 24 * 60 * 60 * 1000"

datatype dependency_type = Finish_to_start | Start_to_start | Finish_to_finish | Start_to_finish

record cpm_task =
  ct_id :: uid
  ct_startDate :: date
  ct_dueDate :: date

record dependency =
  dp_predecessorId :: uid
  dp_successorId :: uid
  dp_type :: dependency_type
  dp_lagDays :: int

record cpm_result =
  cr_id :: uid
  cr_earlyStart :: date
  cr_earlyFinish :: date
  cr_lateStart :: "date option"
  cr_lateFinish :: "date option"
  cr_slackDays :: "int option"
  cr_critical :: bool

definition diffDays :: "date \<Rightarrow> date \<Rightarrow> int" where
  "diffDays from_date to_date = js_round (of_int (to_date - from_date) / of_int CPM_DAY_MS)"

definition addDays :: "date \<Rightarrow> int \<Rightarrow> date" where
  "addDays d days = d + days * CPM_DAY_MS"

definition duration :: "cpm_task \<Rightarrow> int" where
  "duration t = max 1 (diffDays (ct_startDate t) (ct_dueDate t))"

fun minSuccessorStartOffset :: "int \<Rightarrow> int \<Rightarrow> dependency_type \<Rightarrow> int \<Rightarrow> int \<Rightarrow> int" where
  "minSuccessorStartOffset predEs predEf Finish_to_start lag succDuration = predEf + lag"
| "minSuccessorStartOffset predEs predEf Start_to_start lag succDuration = predEs + lag"
| "minSuccessorStartOffset predEs predEf Finish_to_finish lag succDuration = predEf + lag - succDuration"
| "minSuccessorStartOffset predEs predEf Start_to_finish lag succDuration = predEs + lag - succDuration"

fun maxPredecessorFinishOffset :: "int \<Rightarrow> int \<Rightarrow> dependency_type \<Rightarrow> int \<Rightarrow> int \<Rightarrow> int" where
  "maxPredecessorFinishOffset succLs succLf Finish_to_start lag predDuration = succLs - lag"
| "maxPredecessorFinishOffset succLs succLf Start_to_start lag predDuration = succLs - lag + predDuration"
| "maxPredecessorFinishOffset succLs succLf Finish_to_finish lag predDuration = succLf - lag"
| "maxPredecessorFinishOffset succLs succLf Start_to_finish lag predDuration = succLf - lag + predDuration"

definition minSuccessorStart :: "cpm_task \<Rightarrow> cpm_task \<Rightarrow> dependency_type \<Rightarrow> int \<Rightarrow> date" where
  "minSuccessorStart predecessor successor kind lag =
     addDays (ct_startDate predecessor)
       (minSuccessorStartOffset 0 (duration predecessor) kind lag (duration successor))"

definition task_by_id :: "cpm_task list \<Rightarrow> uid \<Rightarrow> cpm_task option" where
  "task_by_id tasks i = find_row (\<lambda>t. ct_id t = i) (rev tasks)"

definition cpm_edges :: "cpm_task list \<Rightarrow> dependency list \<Rightarrow> dependency list" where
  "cpm_edges tasks deps =
     filter (\<lambda>d. dp_predecessorId d \<in> ct_id ` set tasks \<and> dp_successorId d \<in> ct_id ` set tasks) deps"

definition predecessorsOf :: "dependency list \<Rightarrow> uid \<Rightarrow> dependency list" where
  "predecessorsOf edges i = filter (\<lambda>e. dp_successorId e = i) edges"

definition successorsOf :: "dependency list \<Rightarrow> uid \<Rightarrow> dependency list" where
  "successorsOf edges i = filter (\<lambda>e. dp_predecessorId e = i) edges"

record kahn =
  kn_queue :: "uid list"
  kn_inDegree :: "uid \<Rightarrow> int"
  kn_inQueue :: "uid list"
  kn_topoOrder :: "uid list"

definition kahn_visit :: "dependency \<Rightarrow> kahn \<Rightarrow> kahn" where
  "kahn_visit e k =
     (let s = dp_successorId e;
          next = kn_inDegree k s - 1;
          k1 = k\<lparr>kn_inDegree := (kn_inDegree k)(s := next)\<rparr>
      in if next = 0 \<and> s \<notin> set (kn_inQueue k)
         then k1\<lparr>kn_inQueue := s # kn_inQueue k, kn_queue := kn_queue k @ [s]\<rparr>
         else k1)"

definition kahn_size :: "dependency list \<Rightarrow> kahn \<Rightarrow> nat" where
  "kahn_size edges k = length (kn_queue k) + card (dp_successorId ` set edges - set (kn_inQueue k))"

lemma kahn_visit_size: "e \<in> set edges \<Longrightarrow> kahn_size edges (kahn_visit e k) \<le> kahn_size edges k"
proof (cases "kn_inDegree k (dp_successorId e) - 1 = 0 \<and> dp_successorId e \<notin> set (kn_inQueue k)")
  case True
  assume "e \<in> set edges"
  let ?A = "dp_successorId ` set edges - set (kn_inQueue k)"
  have "dp_successorId e \<in> ?A" using True \<open>e \<in> set edges\<close> by simp
  then have "card (?A - {dp_successorId e}) < card ?A" by (intro psubset_card_mono) auto
  moreover have "dp_successorId ` set edges - insert (dp_successorId e) (set (kn_inQueue k)) = ?A - {dp_successorId e}"
    by auto
  ultimately show ?thesis using True by (simp add: kahn_size_def kahn_visit_def Let_def)
qed (auto simp: kahn_size_def kahn_visit_def Let_def)

lemma kahn_visits_size: "set es \<subseteq> set edges \<Longrightarrow> kahn_size edges (fold kahn_visit es k) \<le> kahn_size edges k"
proof (induction es arbitrary: k)
  case (Cons e es)
  then have "kahn_size edges (fold kahn_visit es (kahn_visit e k)) \<le> kahn_size edges (kahn_visit e k)" by simp
  also have "\<dots> \<le> kahn_size edges k" using Cons.prems by (intro kahn_visit_size) simp
  finally show ?case by simp
qed simp

function kahn_loop :: "dependency list \<Rightarrow> kahn \<Rightarrow> uid list" where
  "kahn_loop edges k =
     (case kn_queue k of
        [] \<Rightarrow> kn_topoOrder k
      | i # rest \<Rightarrow>
          kahn_loop edges (fold kahn_visit (successorsOf edges i)
            (k\<lparr>kn_queue := rest, kn_topoOrder := kn_topoOrder k @ [i]\<rparr>)))"
  by pat_completeness auto

termination
proof (relation "measure (\<lambda>(edges, k). kahn_size edges k)")
  fix edges :: "dependency list" and k :: kahn and i rest
  assume q: "kn_queue k = i # rest"
  let ?k = "k\<lparr>kn_queue := rest, kn_topoOrder := kn_topoOrder k @ [i]\<rparr>"
  have "kahn_size edges (fold kahn_visit (successorsOf edges i) ?k) \<le> kahn_size edges ?k"
    by (rule kahn_visits_size) (simp add: successorsOf_def)
  also have "\<dots> < kahn_size edges k" using q by (simp add: kahn_size_def)
  finally show "((edges, fold kahn_visit (successorsOf edges i) ?k), edges, k) \<in> measure (\<lambda>(edges, k). kahn_size edges k)"
    by simp
qed simp

declare kahn_loop.simps [simp del]

definition topoOrder :: "cpm_task list \<Rightarrow> dependency list \<Rightarrow> uid list" where
  "topoOrder tasks edges =
     (let degree = (\<lambda>i. int (length (predecessorsOf edges i)));
          queue = filter (\<lambda>i. degree i = 0) (map ct_id tasks);
          order = kahn_loop edges
            \<lparr>kn_queue = queue, kn_inDegree = degree, kn_inQueue = queue, kn_topoOrder = []\<rparr>
      in fold (\<lambda>i order. if i \<in> set order then order else order @ [i]) (map ct_id tasks) order)"

text \<open>The backward pass: late starts and finishes, task by task.\<close>

type_synonym day_map = "uid \<Rightarrow> int option"

definition min_all :: "int option list \<Rightarrow> int option" where
  "min_all xs = (if None \<in> set xs then None else Some (Min (set (map the xs))))"

definition late_bound :: "(uid \<Rightarrow> int) \<Rightarrow> day_map \<times> day_map \<Rightarrow> dependency \<Rightarrow> int option" where
  "late_bound dur s e =
     (case s of (ls, lf) \<Rightarrow>
        (case (ls (dp_successorId e), lf (dp_successorId e)) of
           (Some a, Some b) \<Rightarrow>
             Some (maxPredecessorFinishOffset a b (dp_type e) (dp_lagDays e) (dur (dp_predecessorId e)))
         | _ \<Rightarrow> None))"

definition backward_step :: "dependency list \<Rightarrow> (uid \<Rightarrow> int) \<Rightarrow> int \<Rightarrow> uid \<Rightarrow> day_map \<times> day_map \<Rightarrow> day_map \<times> day_map" where
  "backward_step edges dur projectFinish i s =
     (let succs = successorsOf edges i;
          finish = (if succs = [] then Some projectFinish else min_all (map (late_bound dur s) succs))
      in case s of (ls, lf) \<Rightarrow> (ls(i := map_option (\<lambda>f. f - dur i) finish), lf(i := finish)))"

definition late_dates :: "dependency list \<Rightarrow> (uid \<Rightarrow> int) \<Rightarrow> int \<Rightarrow> uid list \<Rightarrow> day_map \<times> day_map" where
  "late_dates edges dur projectFinish order =
     fold (backward_step edges dur projectFinish) (rev order) (\<lambda>_. None, \<lambda>_. None)"

definition task_duration :: "cpm_task list \<Rightarrow> uid \<Rightarrow> int" where
  "task_duration tasks i = (case task_by_id tasks i of None \<Rightarrow> 1 | Some t \<Rightarrow> duration t)"

definition plan_epoch :: "cpm_task list \<Rightarrow> date" where
  "plan_epoch tasks = Min (set (map ct_startDate tasks))"

definition project_finish :: "cpm_task list \<Rightarrow> int" where
  "project_finish tasks = Max (set (map (\<lambda>t. diffDays (plan_epoch tasks) (ct_dueDate t)) tasks))"

definition computeCriticalPath :: "cpm_task list \<Rightarrow> dependency list \<Rightarrow> cpm_result list" where
  "computeCriticalPath tasks dependencies =
     (if tasks = [] then []
      else
        (let edges = cpm_edges tasks dependencies;
             epoch = plan_epoch tasks
         in case late_dates edges (task_duration tasks) (project_finish tasks) (topoOrder tasks edges) of
              (ls, lf) \<Rightarrow>
                map (\<lambda>t.
                  let es = diffDays epoch (ct_startDate t);
                      slack = map_option (\<lambda>l. l - es) (ls (ct_id t))
                  in \<lparr>cr_id = ct_id t, cr_earlyStart = addDays epoch es,
                      cr_earlyFinish = addDays epoch (diffDays epoch (ct_dueDate t)),
                      cr_lateStart = map_option (addDays epoch) (ls (ct_id t)),
                      cr_lateFinish = map_option (addDays epoch) (lf (ct_id t)),
                      cr_slackDays = slack,
                      cr_critical = (case slack of None \<Rightarrow> False | Some d \<Rightarrow> d \<le> 0)\<rparr>) tasks))"

subsection \<open>Slippage and plan completion\<close>

record baseline_task =
  bt_taskId :: uid
  bt_name :: string
  bt_startDate :: "date option"
  bt_dueDate :: "date option"

datatype task_status = Planned | In_progress | Task_done

record current_task =
  cu_id :: uid
  cu_name :: string
  cu_status :: task_status
  cu_startDate :: "date option"
  cu_dueDate :: "date option"

text \<open>A status of \<open>None\<close> is \<open>removed\<close>.\<close>

record task_slippage =
  ts_taskId :: uid
  ts_name :: string
  ts_status :: "task_status option"
  ts_baselineStartDate :: "date option"
  ts_baselineDueDate :: "date option"
  ts_currentStartDate :: "date option"
  ts_currentDueDate :: "date option"
  ts_slippageDays :: "int option"

definition calculateScheduleSlippage :: "baseline_task list \<Rightarrow> current_task list \<Rightarrow> task_slippage list" where
  "calculateScheduleSlippage baseline_tasks current_tasks =
     map (\<lambda>b.
       let current = find_row (\<lambda>t. cu_id t = bt_taskId b) (rev current_tasks);
           due = Option.bind current cu_dueDate
       in \<lparr>ts_taskId = bt_taskId b,
           ts_name = (case current of None \<Rightarrow> bt_name b | Some t \<Rightarrow> cu_name t),
           ts_status = map_option cu_status current,
           ts_baselineStartDate = bt_startDate b, ts_baselineDueDate = bt_dueDate b,
           ts_currentStartDate = Option.bind current cu_startDate, ts_currentDueDate = due,
           ts_slippageDays = (case (bt_dueDate b, due) of
              (Some x, Some y) \<Rightarrow> Some (diffDays x y) | _ \<Rightarrow> None)\<rparr>) baseline_tasks"

datatype commitment_status = Committed | Completed | Missed

record ppc_result =
  pp_committedCount :: nat
  pp_completedCount :: nat
  pp_missedCount :: nat
  pp_openCount :: nat
  pp_ppcPercent :: "number option"

definition count_status :: "commitment_status \<Rightarrow> commitment_status list \<Rightarrow> nat" where
  "count_status c entries = length (filter (\<lambda>e. e = c) entries)"

definition calculatePpc :: "commitment_status list \<Rightarrow> ppc_result" where
  "calculatePpc entries =
     (let completed = count_status Completed entries;
          missed = count_status Missed entries;
          resolved = completed + missed
      in \<lparr>pp_committedCount = length entries, pp_completedCount = completed, pp_missedCount = missed,
          pp_openCount = count_status Committed entries,
          pp_ppcPercent = (if 0 < resolved then Some (round2 (of_nat completed / of_nat resolved * 100)) else None)\<rparr>)"

end
