(* ===== verification/Critical_Path_Laws.thy ===== *)
theory Critical_Path_Laws
  imports Critical_Path
begin

section \<open>What the critical path calculation computes\<close>

subsection \<open>Kahn's loop\<close>

text \<open>\<open>ordered edges xs\<close>: every task of \<open>xs\<close> comes after all its predecessors.\<close>

definition ordered :: "dependency list \<Rightarrow> uid list \<Rightarrow> bool" where
  "ordered edges xs \<longleftrightarrow> (\<forall>n < length xs. \<forall>e \<in> set edges. dp_successorId e = xs ! n \<longrightarrow>
     dp_predecessorId e \<in> set (take n xs))"

lemma ordered_Nil [simp]: "ordered edges []"
  by (simp add: ordered_def)

lemma ordered_snoc:
  "ordered edges (xs @ [x]) \<longleftrightarrow> ordered edges xs \<and>
     (\<forall>e \<in> set edges. dp_successorId e = x \<longrightarrow> dp_predecessorId e \<in> set xs)"
  by (auto simp: ordered_def less_Suc_eq nth_append)

lemma ordered_closed: "ordered edges xs \<Longrightarrow> e \<in> set edges \<Longrightarrow> dp_successorId e \<in> set xs \<Longrightarrow> dp_predecessorId e \<in> set xs"
  unfolding ordered_def by (metis in_set_conv_nth in_set_takeD)

text \<open>The invariant: \<open>open_edges\<close> counts the edges into a task whose other end is not yet ordered.\<close>

definition open_edges :: "dependency list \<Rightarrow> uid list \<Rightarrow> uid \<Rightarrow> int" where
  "open_edges edges done_ids i =
     int (length (filter (\<lambda>e. dp_successorId e = i \<and> dp_predecessorId e \<notin> set done_ids) edges))"

definition kahn_inv :: "uid set \<Rightarrow> dependency list \<Rightarrow> kahn \<Rightarrow> bool" where
  "kahn_inv ids edges k \<longleftrightarrow>
     set (kn_inQueue k) = set (kn_topoOrder k) \<union> set (kn_queue k) \<and>
     distinct (kn_topoOrder k @ kn_queue k) \<and> set (kn_inQueue k) \<subseteq> ids \<and>
     ordered edges (kn_topoOrder k) \<and>
     (\<forall>i \<in> ids. kn_inDegree k i = open_edges edges (kn_topoOrder k) i) \<and>
     (\<forall>i \<in> ids. i \<in> set (kn_inQueue k) \<longleftrightarrow> kn_inDegree k i = 0)"

text \<open>Visiting the edges out of the task just ordered.\<close>

lemma visit_edges:
  assumes "\<And>e. e \<in> set es \<Longrightarrow> dp_successorId e \<in> ids"
    and "\<forall>i \<in> ids. kn_inDegree k i = d i + int (length (filter (\<lambda>e. dp_successorId e = i) es))"
    and "\<forall>i \<in> ids. i \<in> set (kn_inQueue k) \<longleftrightarrow> kn_inDegree k i = 0"
    and "\<forall>i. 0 \<le> d i"
    and "set (kn_inQueue k) = set (kn_topoOrder k) \<union> set (kn_queue k)"
    and "distinct (kn_topoOrder k @ kn_queue k)" and "set (kn_inQueue k) \<subseteq> ids"
  shows "let k' = fold kahn_visit es k in
    kn_topoOrder k' = kn_topoOrder k \<and> (\<forall>i \<in> ids. kn_inDegree k' i = d i) \<and>
    (\<forall>i \<in> ids. i \<in> set (kn_inQueue k') \<longleftrightarrow> kn_inDegree k' i = 0) \<and>
    set (kn_inQueue k') = set (kn_topoOrder k') \<union> set (kn_queue k') \<and>
    distinct (kn_topoOrder k' @ kn_queue k') \<and> set (kn_inQueue k') \<subseteq> ids"
  using assms
proof (induction es arbitrary: k)
  case Nil
  then show ?case by (simp add: Let_def)
next
  case (Cons e es)
  let ?s = "dp_successorId e" and ?k = "kahn_visit e k"
  have s: "?s \<in> ids" using Cons.prems(1) by simp
  have deg: "kn_inDegree ?k = (kn_inDegree k)(?s := kn_inDegree k ?s - 1)" and topo: "kn_topoOrder ?k = kn_topoOrder k"
    by (simp_all add: kahn_visit_def Let_def)
  have pos: "0 < kn_inDegree k ?s" using bspec [OF Cons.prems(2) s] spec [OF Cons.prems(4), of ?s] by simp
  then have fresh: "?s \<notin> set (kn_inQueue k)" using bspec [OF Cons.prems(3) s] by simp
  then have new: "?s \<notin> set (kn_topoOrder k)" "?s \<notin> set (kn_queue k)" using Cons.prems(5) by auto
  show ?case
  proof (cases "kn_inDegree k ?s - 1 = 0")
    case True
    then have q: "kn_inQueue ?k = ?s # kn_inQueue k" "kn_queue ?k = kn_queue k @ [?s]"
      using fresh by (simp_all add: kahn_visit_def Let_def)
    have "let k' = fold kahn_visit es ?k in kn_topoOrder k' = kn_topoOrder ?k \<and> (\<forall>i \<in> ids. kn_inDegree k' i = d i) \<and>
        (\<forall>i \<in> ids. i \<in> set (kn_inQueue k') \<longleftrightarrow> kn_inDegree k' i = 0) \<and>
        set (kn_inQueue k') = set (kn_topoOrder k') \<union> set (kn_queue k') \<and>
        distinct (kn_topoOrder k' @ kn_queue k') \<and> set (kn_inQueue k') \<subseteq> ids"
    proof (rule Cons.IH)
      show "\<forall>i \<in> ids. kn_inDegree ?k i = d i + int (length (filter (\<lambda>e. dp_successorId e = i) es))"
        using Cons.prems(2) by (auto simp: deg)
      show "\<forall>i \<in> ids. i \<in> set (kn_inQueue ?k) \<longleftrightarrow> kn_inDegree ?k i = 0"
        using Cons.prems(3) True by (auto simp: deg q)
    qed (use Cons.prems(1,4-7) new s in \<open>auto simp: q topo\<close>)
    then show ?thesis by (simp add: topo)
  next
    case False
    then have q: "kn_inQueue ?k = kn_inQueue k" "kn_queue ?k = kn_queue k"
      by (simp_all add: kahn_visit_def Let_def)
    have "let k' = fold kahn_visit es ?k in kn_topoOrder k' = kn_topoOrder ?k \<and> (\<forall>i \<in> ids. kn_inDegree k' i = d i) \<and>
        (\<forall>i \<in> ids. i \<in> set (kn_inQueue k') \<longleftrightarrow> kn_inDegree k' i = 0) \<and>
        set (kn_inQueue k') = set (kn_topoOrder k') \<union> set (kn_queue k') \<and>
        distinct (kn_topoOrder k' @ kn_queue k') \<and> set (kn_inQueue k') \<subseteq> ids"
    proof (rule Cons.IH)
      show "\<forall>i \<in> ids. kn_inDegree ?k i = d i + int (length (filter (\<lambda>e. dp_successorId e = i) es))"
        using Cons.prems(2) by (auto simp: deg)
      show "\<forall>i \<in> ids. i \<in> set (kn_inQueue ?k) \<longleftrightarrow> kn_inDegree ?k i = 0"
        using Cons.prems(3) False pos fresh by (auto simp: deg q)
    qed (use Cons.prems(1,4-7) in \<open>auto simp: q topo\<close>)
    then show ?thesis by (simp add: topo)
  qed
qed

lemma open_edges_snoc:
  "i \<notin> set xs \<Longrightarrow> open_edges edges xs j =
     open_edges edges (xs @ [i]) j + int (length (filter (\<lambda>e. dp_successorId e = j) (successorsOf edges i)))"
  by (induction edges) (auto simp: open_edges_def successorsOf_def)

lemma open_edges_zero:
  "open_edges edges xs i = 0 \<longleftrightarrow> (\<forall>e \<in> set edges. dp_successorId e = i \<longrightarrow> dp_predecessorId e \<in> set xs)"
  by (auto simp: open_edges_def filter_empty_conv)

definition edges_in :: "uid set \<Rightarrow> dependency list \<Rightarrow> bool" where
  "edges_in ids edges \<longleftrightarrow> (\<forall>e \<in> set edges. dp_predecessorId e \<in> ids \<and> dp_successorId e \<in> ids)"

lemma kahn_inv_step:
  assumes inv: "kahn_inv ids edges k" and q: "kn_queue k = i # rest" and closed: "edges_in ids edges"
  shows "kahn_inv ids edges (fold kahn_visit (successorsOf edges i)
    (k\<lparr>kn_queue := rest, kn_topoOrder := kn_topoOrder k @ [i]\<rparr>))"
proof -
  let ?k = "k\<lparr>kn_queue := rest, kn_topoOrder := kn_topoOrder k @ [i]\<rparr>"
  let ?k' = "fold kahn_visit (successorsOf edges i) ?k"
  have i: "i \<in> ids" "i \<notin> set (kn_topoOrder k)" "kn_inDegree k i = 0"
    using inv q by (auto simp: kahn_inv_def)
  define k' where "k' = ?k'"
  have visited: "let k' = ?k' in
    kn_topoOrder k' = kn_topoOrder ?k \<and> (\<forall>j \<in> ids. kn_inDegree k' j = open_edges edges (kn_topoOrder k @ [i]) j) \<and>
    (\<forall>j \<in> ids. j \<in> set (kn_inQueue k') \<longleftrightarrow> kn_inDegree k' j = 0) \<and>
    set (kn_inQueue k') = set (kn_topoOrder k') \<union> set (kn_queue k') \<and>
    distinct (kn_topoOrder k' @ kn_queue k') \<and> set (kn_inQueue k') \<subseteq> ids"
  proof (rule visit_edges)
    show "\<forall>j \<in> ids. kn_inDegree ?k j = open_edges edges (kn_topoOrder k @ [i]) j +
        int (length (filter (\<lambda>e. dp_successorId e = j) (successorsOf edges i)))"
      using inv open_edges_snoc [OF i(2)] by (simp add: kahn_inv_def)
    show "dp_successorId e \<in> ids" if "e \<in> set (successorsOf edges i)" for e
      using that closed by (auto simp: successorsOf_def edges_in_def)
  qed (use inv q in \<open>auto simp: kahn_inv_def open_edges_def\<close>)
  then have topo: "kn_topoOrder k' = kn_topoOrder k @ [i]" unfolding Let_def k'_def [symmetric] by simp
  have "open_edges edges (kn_topoOrder k) i = 0" "ordered edges (kn_topoOrder k)"
    using inv i(1,3) unfolding kahn_inv_def by metis+
  then have "ordered edges (kn_topoOrder k')" by (simp add: topo ordered_snoc open_edges_zero)
  moreover from visited have "\<forall>j \<in> ids. kn_inDegree k' j = open_edges edges (kn_topoOrder k') j"
    "\<forall>j \<in> ids. j \<in> set (kn_inQueue k') \<longleftrightarrow> kn_inDegree k' j = 0"
    "set (kn_inQueue k') = set (kn_topoOrder k') \<union> set (kn_queue k')"
    "distinct (kn_topoOrder k' @ kn_queue k')" "set (kn_inQueue k') \<subseteq> ids"
    unfolding Let_def k'_def [symmetric] topo by - (elim conjE, assumption)+
  ultimately show ?thesis unfolding kahn_inv_def k'_def [symmetric] by (intro conjI)
qed

lemma kahn_loop_inv:
  assumes "kahn_inv ids edges k" and "edges_in ids edges"
  shows "\<exists>k'. kahn_inv ids edges k' \<and> kn_queue k' = [] \<and> kahn_loop edges k = kn_topoOrder k'"
  using assms
proof (induction edges k rule: kahn_loop.induct)
  case (1 edges k)
  show ?case
  proof (cases "kn_queue k")
    case Nil
    with "1.prems"(1) show ?thesis by (subst kahn_loop.simps) auto
  next
    case (Cons i rest)
    from "1.IH" [OF Cons kahn_inv_step [OF "1.prems"(1) Cons "1.prems"(2)] "1.prems"(2)] show ?thesis
      by (subst kahn_loop.simps) (simp add: Cons)
  qed
qed

definition edge_rel :: "dependency list \<Rightarrow> (uid \<times> uid) set" where
  "edge_rel edges = (\<lambda>e. (dp_predecessorId e, dp_successorId e)) ` set edges"

lemma kahn_complete:
  assumes "kahn_inv ids edges k" and "kn_queue k = []" and "edges_in ids edges" and "acyclic (edge_rel edges)"
  shows "set (kn_topoOrder k) = ids"
proof -
  have wf: "wf (edge_rel edges)" using assms(4) by (intro finite_acyclic_wf) (simp_all add: edge_rel_def)
  have "x \<in> ids \<longrightarrow> x \<in> set (kn_topoOrder k)" for x
    using wf
  proof (induction x rule: wf_induct_rule)
    case (less x)
    show ?case
    proof
      assume x: "x \<in> ids"
      have "\<forall>e \<in> set edges. dp_successorId e = x \<longrightarrow> dp_predecessorId e \<in> set (kn_topoOrder k)"
        using less assms(3) by (fastforce simp: edge_rel_def edges_in_def)
      then have "open_edges edges (kn_topoOrder k) x = 0" by (simp add: open_edges_zero)
      then have "x \<in> set (kn_inQueue k)" using assms(1) x unfolding kahn_inv_def by metis
      then show "x \<in> set (kn_topoOrder k)" using assms(1,2) by (simp add: kahn_inv_def)
    qed
  qed
  then show ?thesis using assms(1) by (auto simp: kahn_inv_def)
qed

definition acyclic_plan :: "cpm_task list \<Rightarrow> dependency list \<Rightarrow> bool" where
  "acyclic_plan tasks deps \<longleftrightarrow> distinct (map ct_id tasks) \<and> acyclic (edge_rel (cpm_edges tasks deps))"

lemma topoOrder_ok:
  assumes "acyclic_plan tasks deps"
  defines "edges \<equiv> cpm_edges tasks deps"
  shows "set (topoOrder tasks edges) = ct_id ` set tasks" and "distinct (topoOrder tasks edges)"
    and "ordered edges (topoOrder tasks edges)"
proof -
  let ?ids = "ct_id ` set tasks" and ?d = "\<lambda>i. int (length (predecessorsOf edges i))"
  let ?q = "filter (\<lambda>i. ?d i = 0) (map ct_id tasks)"
  let ?k = "\<lparr>kn_queue = ?q, kn_inDegree = ?d, kn_inQueue = ?q, kn_topoOrder = []\<rparr>"
  have closed: "edges_in ?ids edges" by (auto simp: edges_in_def edges_def cpm_edges_def)
  have "kahn_inv ?ids edges ?k"
    using assms(1) by (auto simp: kahn_inv_def acyclic_plan_def open_edges_def predecessorsOf_def)
  from kahn_loop_inv [OF this closed] obtain k where k: "kahn_inv ?ids edges k" "kn_queue k = []"
    "kahn_loop edges ?k = kn_topoOrder k" by blast
  have all: "set (kn_topoOrder k) = ?ids"
    using kahn_complete [OF k(1,2) closed] assms(1) by (simp add: acyclic_plan_def edges_def)
  have "fold (\<lambda>i order. if i \<in> set order then order else order @ [i]) is (kn_topoOrder k) = kn_topoOrder k"
    if "set is \<subseteq> ?ids" for "is"
    using that by (induction "is") (simp_all add: all)
  then have "topoOrder tasks edges = kn_topoOrder k" using k(3) by (simp add: topoOrder_def Let_def)
  with k all show "set (topoOrder tasks edges) = ?ids" "distinct (topoOrder tasks edges)"
    "ordered edges (topoOrder tasks edges)" by (auto simp: kahn_inv_def)
qed

subsection \<open>The backward pass\<close>

text \<open>The two offset functions state the same constraint, once for the successor and once for the
  predecessor.\<close>

lemma offsets_dual:
  "minSuccessorStartOffset (f - d) f kind lag d' \<le> g - d' \<longleftrightarrow>
   f \<le> maxPredecessorFinishOffset (g - d') g kind lag d"
  by (cases kind) auto

lemma max_offset_mono:
  "a \<le> a' \<Longrightarrow> b \<le> b' \<Longrightarrow> maxPredecessorFinishOffset a b kind lag d \<le> maxPredecessorFinishOffset a' b' kind lag d"
  by (cases kind) auto

definition late_ok :: "dependency list \<Rightarrow> (uid \<Rightarrow> int) \<Rightarrow> int \<Rightarrow> day_map \<times> day_map \<Rightarrow> uid \<Rightarrow> bool" where
  "late_ok edges dur pf s i \<longleftrightarrow>
     (\<exists>f. snd s i = Some f \<and> fst s i = Some (f - dur i) \<and>
        f = (if successorsOf edges i = [] then pf
             else Min ((\<lambda>e. maxPredecessorFinishOffset (the (fst s (dp_successorId e))) (the (snd s (dp_successorId e)))
                    (dp_type e) (dp_lagDays e) (dur i)) ` set (successorsOf edges i))))"

lemma late_ok_cong:
  assumes "\<And>j. j = i \<or> (\<exists>e \<in> set edges. dp_predecessorId e = i \<and> dp_successorId e = j) \<Longrightarrow>
      fst s j = fst s' j \<and> snd s j = snd s' j"
  shows "late_ok edges dur pf s i = late_ok edges dur pf s' i"
proof -
  have "(\<lambda>e. maxPredecessorFinishOffset (the (fst s (dp_successorId e))) (the (snd s (dp_successorId e)))
        (dp_type e) (dp_lagDays e) (dur i)) ` set (successorsOf edges i) =
      (\<lambda>e. maxPredecessorFinishOffset (the (fst s' (dp_successorId e))) (the (snd s' (dp_successorId e)))
        (dp_type e) (dp_lagDays e) (dur i)) ` set (successorsOf edges i)"
  proof (intro image_cong refl)
    fix e assume "e \<in> set (successorsOf edges i)"
    then have "fst s (dp_successorId e) = fst s' (dp_successorId e) \<and> snd s (dp_successorId e) = snd s' (dp_successorId e)"
      by (intro assms) (auto simp: successorsOf_def)
    then show "maxPredecessorFinishOffset (the (fst s (dp_successorId e))) (the (snd s (dp_successorId e)))
        (dp_type e) (dp_lagDays e) (dur i) =
      maxPredecessorFinishOffset (the (fst s' (dp_successorId e))) (the (snd s' (dp_successorId e)))
        (dp_type e) (dp_lagDays e) (dur i)" by simp
  qed
  then show ?thesis using assms [of i] by (simp add: late_ok_def)
qed

lemma backward_step_ok:
  assumes "\<And>e. e \<in> set (successorsOf edges i) \<Longrightarrow> dp_successorId e \<noteq> i \<and> late_ok edges dur pf s (dp_successorId e)"
  shows "late_ok edges dur pf (backward_step edges dur pf i s) i"
proof -
  let ?b = "\<lambda>e. maxPredecessorFinishOffset (the (fst s (dp_successorId e))) (the (snd s (dp_successorId e)))
    (dp_type e) (dp_lagDays e) (dur i)"
  let ?succs = "successorsOf edges i"
  obtain ls lf where s: "s = (ls, lf)" by fastforce
  have bounds: "late_bound dur s e = Some (?b e)" if "e \<in> set ?succs" for e
    using assms [OF that] that by (auto simp: late_ok_def late_bound_def s successorsOf_def)
  let ?f = "if ?succs = [] then pf else Min (?b ` set ?succs)"
  define F where "F = ?f"
  have "(if ?succs = [] then Some pf else min_all (map (late_bound dur s) ?succs)) = Some ?f"
  proof (cases "?succs = []")
    case False
    have "map (late_bound dur s) ?succs = map (\<lambda>e. Some (?b e)) ?succs" using bounds by simp
    then have "min_all (map (late_bound dur s) ?succs) = Some (Min (?b ` set ?succs))"
      by (auto simp: min_all_def image_image)
    then show ?thesis using False by simp
  qed simp
  then have fin: "(if ?succs = [] then Some pf else min_all (map (late_bound dur s) ?succs)) = Some F"
    by (simp only: F_def)
  have step: "backward_step edges dur pf i s = (ls(i := Some (F - dur i)), lf(i := Some F))"
    unfolding backward_step_def Let_def fin by (simp add: s)
  have bounds': "(\<lambda>e. maxPredecessorFinishOffset (the ((ls(i := Some (F - dur i))) (dp_successorId e)))
        (the ((lf(i := Some F)) (dp_successorId e))) (dp_type e) (dp_lagDays e) (dur i)) ` set ?succs = ?b ` set ?succs"
    using assms by (intro image_cong) (auto simp: s)
  have eqF: "F = (if ?succs = [] then pf else Min ((\<lambda>e. maxPredecessorFinishOffset
      (the ((ls(i := Some (F - dur i))) (dp_successorId e))) (the ((lf(i := Some F)) (dp_successorId e)))
      (dp_type e) (dp_lagDays e) (dur i)) ` set ?succs))"
    unfolding bounds' by (rule F_def)
  show ?thesis unfolding late_ok_def step fst_conv snd_conv by (intro exI [of _ F] conjI eqF) simp_all
qed

lemma backward_step_other:
  "j \<noteq> i \<Longrightarrow> fst (backward_step edges dur pf i s) j = fst s j \<and> snd (backward_step edges dur pf i s) j = snd s j"
  by (auto simp: backward_step_def Let_def split: prod.split)

lemma late_dates_Cons: "late_dates edges dur pf (x # xs) = backward_step edges dur pf x (late_dates edges dur pf xs)"
  by (simp add: late_dates_def)

text \<open>In an ordered list, the successors of a task of a suffix are in what follows it.\<close>

lemma successors_follow:
  assumes "ordered edges (zs @ x # ys)" and "distinct (zs @ x # ys)" and "e \<in> set edges" and "dp_predecessorId e = x"
    and "dp_successorId e \<in> set (zs @ x # ys)"
  shows "dp_successorId e \<in> set ys"
proof -
  from assms(5) obtain n where n: "n < length (zs @ x # ys)" "dp_successorId e = (zs @ x # ys) ! n"
    by (metis in_set_conv_nth)
  then have "x \<in> set (take n (zs @ x # ys))" using assms(1,3,4) by (auto simp: ordered_def)
  then obtain m where "m < n" "(zs @ x # ys) ! m = x"
    by (metis in_set_conv_nth length_take min_less_iff_conj nth_take)
  moreover have "(zs @ x # ys) ! length zs = x" by simp
  moreover have "m < length (zs @ x # ys)" using \<open>m < n\<close> n(1) by simp
  ultimately have "m = length zs"
    using nth_eq_iff_index_eq [OF assms(2), of m "length zs"] by simp
  with \<open>m < n\<close> have "length zs < n" by simp
  then have "(zs @ x # ys) ! n = ys ! (n - Suc (length zs))" by (simp add: nth_append)
  moreover have "n - Suc (length zs) < length ys" using n(1) \<open>length zs < n\<close> by auto
  ultimately show ?thesis using n(2) by simp
qed

lemma late_dates_ok:
  assumes "ordered edges (zs @ ys)" and "distinct (zs @ ys)" and "edges_in (set (zs @ ys)) edges"
  shows "\<forall>i \<in> set ys. late_ok edges dur pf (late_dates edges dur pf ys) i"
  using assms
proof (induction ys arbitrary: zs)
  case (Cons x ys)
  let ?s = "late_dates edges dur pf ys"
  have follow: "dp_successorId e \<in> set ys" if "e \<in> set edges" "dp_predecessorId e = x" for e
    using successors_follow [OF Cons.prems(1,2) that] Cons.prems(3) that(1) by (simp add: edges_in_def)
  have IH: "\<forall>i \<in> set ys. late_ok edges dur pf ?s i" using Cons.IH [of "zs @ [x]"] Cons.prems by simp
  have stay: "late_ok edges dur pf (backward_step edges dur pf x ?s) i" if i: "i \<in> set ys" for i
  proof -
    obtain us vs where ys: "ys = us @ i # vs" using i by (metis split_list)
    have "dp_successorId e \<noteq> x" if "e \<in> set edges" "dp_predecessorId e = i" for e
    proof -
      have "dp_successorId e \<in> set vs"
        using successors_follow [of edges "zs @ x # us" i vs e] Cons.prems that ys by (simp add: edges_in_def)
      then show ?thesis using Cons.prems(2) ys by auto
    qed
    moreover have "i \<noteq> x" using Cons.prems(2) i by auto
    ultimately have "late_ok edges dur pf (backward_step edges dur pf x ?s) i = late_ok edges dur pf ?s i"
      by (intro late_ok_cong) (metis backward_step_other)
    with IH i show ?thesis by simp
  qed
  have "late_ok edges dur pf (backward_step edges dur pf x ?s) x"
  proof (rule backward_step_ok)
    fix e assume "e \<in> set (successorsOf edges x)"
    then have "dp_successorId e \<in> set ys" by (intro follow) (auto simp: successorsOf_def)
    then show "dp_successorId e \<noteq> x \<and> late_ok edges dur pf ?s (dp_successorId e)"
      using IH Cons.prems(2) by auto
  qed
  with stay show ?case by (simp add: late_dates_Cons)
qed simp

subsection \<open>The greatest late dates\<close>

text \<open>\<open>plan_ok\<close>: finishes that respect every dependency, where a task nothing depends on finishes by
  the end of the project.\<close>

definition plan_ok :: "cpm_task list \<Rightarrow> dependency list \<Rightarrow> (uid \<Rightarrow> int) \<Rightarrow> bool" where
  "plan_ok tasks deps f \<longleftrightarrow>
     (let edges = cpm_edges tasks deps; dur = task_duration tasks in
        (\<forall>i \<in> set (map ct_id tasks). successorsOf edges i = [] \<longrightarrow> f i \<le> project_finish tasks) \<and>
        (\<forall>e \<in> set edges.
           minSuccessorStartOffset (f (dp_predecessorId e) - dur (dp_predecessorId e)) (f (dp_predecessorId e))
             (dp_type e) (dp_lagDays e) (dur (dp_successorId e))
           \<le> f (dp_successorId e) - dur (dp_successorId e)))"

definition late_finish :: "cpm_task list \<Rightarrow> dependency list \<Rightarrow> uid \<Rightarrow> int" where
  "late_finish tasks deps i =
     (let edges = cpm_edges tasks deps in
        the (snd (late_dates edges (task_duration tasks) (project_finish tasks) (topoOrder tasks edges)) i))"

lemma edges_in_plan: "edges_in (ct_id ` set tasks) (cpm_edges tasks deps)"
  by (auto simp: edges_in_def cpm_edges_def)

lemma late_finish_bound:
  assumes "acyclic_plan tasks deps" and "i \<in> ct_id ` set tasks"
  defines "edges \<equiv> cpm_edges tasks deps" and "dur \<equiv> task_duration tasks"
  shows "late_dates edges dur (project_finish tasks) (topoOrder tasks edges) = (ls, lf) \<Longrightarrow>
      lf i = Some (late_finish tasks deps i) \<and> ls i = Some (late_finish tasks deps i - dur i)"
    and "late_finish tasks deps i =
      (if successorsOf edges i = [] then project_finish tasks
       else Min ((\<lambda>e. maxPredecessorFinishOffset
              (late_finish tasks deps (dp_successorId e) - dur (dp_successorId e))
              (late_finish tasks deps (dp_successorId e)) (dp_type e) (dp_lagDays e) (dur i))
            ` set (successorsOf edges i)))"
proof -
  let ?s = "late_dates edges dur (project_finish tasks) (topoOrder tasks edges)"
  let ?f = "late_finish tasks deps"
  note topo = topoOrder_ok [OF assms(1), folded edges_def]
  have ok: "late_ok edges dur (project_finish tasks) ?s j" if "j \<in> ct_id ` set tasks" for j
    using late_dates_ok [of edges "[]" "topoOrder tasks edges"] topo edges_in_plan [of tasks deps, folded edges_def] that
    by auto
  have f: "snd ?s j = Some (?f j) \<and> fst ?s j = Some (?f j - dur j)" if "j \<in> ct_id ` set tasks" for j
    using ok [OF that] by (auto simp: late_ok_def late_finish_def Let_def edges_def dur_def)
  show "?s = (ls, lf) \<Longrightarrow> lf i = Some (?f i) \<and> ls i = Some (?f i - dur i)" using f [OF assms(2)] by simp
  have sub: "dp_successorId e \<in> ct_id ` set tasks" if "e \<in> set (successorsOf edges i)" for e
    using that edges_in_plan [of tasks deps] by (auto simp: successorsOf_def edges_in_def edges_def)
  have "(\<lambda>e. maxPredecessorFinishOffset (the (fst ?s (dp_successorId e))) (the (snd ?s (dp_successorId e)))
        (dp_type e) (dp_lagDays e) (dur i)) ` set (successorsOf edges i) =
    (\<lambda>e. maxPredecessorFinishOffset (?f (dp_successorId e) - dur (dp_successorId e)) (?f (dp_successorId e))
        (dp_type e) (dp_lagDays e) (dur i)) ` set (successorsOf edges i)"
    using f [OF sub] by (intro image_cong) auto
  with ok [OF assms(2)] f [OF assms(2)] show "?f i =
      (if successorsOf edges i = [] then project_finish tasks
       else Min ((\<lambda>e. maxPredecessorFinishOffset (?f (dp_successorId e) - dur (dp_successorId e))
              (?f (dp_successorId e)) (dp_type e) (dp_lagDays e) (dur i)) ` set (successorsOf edges i)))"
    by (auto simp: late_ok_def)
qed

lemma late_finish_ok:
  assumes "acyclic_plan tasks deps"
  shows "plan_ok tasks deps (late_finish tasks deps)"
  unfolding plan_ok_def Let_def
proof (intro conjI ballI impI)
  fix i assume "i \<in> set (map ct_id tasks)" "successorsOf (cpm_edges tasks deps) i = []"
  then show "late_finish tasks deps i \<le> project_finish tasks"
    using late_finish_bound(2) [OF assms, of i] by simp
next
  fix e assume e: "e \<in> set (cpm_edges tasks deps)"
  then have p: "dp_predecessorId e \<in> ct_id ` set tasks" and
    s: "e \<in> set (successorsOf (cpm_edges tasks deps) (dp_predecessorId e))"
    by (auto simp: cpm_edges_def successorsOf_def)
  from s have "successorsOf (cpm_edges tasks deps) (dp_predecessorId e) \<noteq> []" by auto
  with s show "minSuccessorStartOffset (late_finish tasks deps (dp_predecessorId e) - task_duration tasks (dp_predecessorId e))
      (late_finish tasks deps (dp_predecessorId e)) (dp_type e) (dp_lagDays e) (task_duration tasks (dp_successorId e))
    \<le> late_finish tasks deps (dp_successorId e) - task_duration tasks (dp_successorId e)"
    unfolding offsets_dual by (subst late_finish_bound(2) [OF assms p]) (auto intro!: Min_le)
qed

lemma late_finish_greatest:
  assumes "acyclic_plan tasks deps" and "plan_ok tasks deps g" and "i \<in> ct_id ` set tasks"
  shows "g i \<le> late_finish tasks deps i"
proof -
  let ?E = "cpm_edges tasks deps" and ?d = "task_duration tasks" and ?f = "late_finish tasks deps"
  have "wf ((edge_rel ?E)\<inverse>)"
    using assms(1) by (intro finite_acyclic_wf_converse) (simp_all add: acyclic_plan_def edge_rel_def)
  then show ?thesis using assms(3)
  proof (induction i rule: wf_induct_rule)
    case (less i)
    show ?case
    proof (cases "successorsOf ?E i = []")
      case True
      then show ?thesis
        using less.prems assms(2) by (subst late_finish_bound(2) [OF assms(1)]) (auto simp: plan_ok_def Let_def)
    next
      case False
      have "g i \<le> maxPredecessorFinishOffset (?f (dp_successorId e) - ?d (dp_successorId e)) (?f (dp_successorId e))
          (dp_type e) (dp_lagDays e) (?d i)" if e: "e \<in> set (successorsOf ?E i)" for e
      proof -
        from e have m: "e \<in> set ?E" "dp_predecessorId e = i" by (auto simp: successorsOf_def)
        then have "g (dp_successorId e) \<le> ?f (dp_successorId e)"
          by (intro less.IH) (auto simp: edge_rel_def cpm_edges_def)
        moreover have "g i \<le> maxPredecessorFinishOffset (g (dp_successorId e) - ?d (dp_successorId e)) (g (dp_successorId e))
            (dp_type e) (dp_lagDays e) (?d i)"
          using assms(2) m by (auto simp: plan_ok_def Let_def offsets_dual)
        ultimately show ?thesis using max_offset_mono by (metis diff_right_mono order_trans)
      qed
      then show ?thesis using False less.prems
        by (subst late_finish_bound(2) [OF assms(1)]) auto
    qed
  qed
qed

lemma task_by_id_of:
  "distinct (map ct_id tasks) \<Longrightarrow> t \<in> set tasks \<Longrightarrow> task_by_id tasks (ct_id t) = Some t"
  unfolding task_by_id_def by (intro find_row_key) (auto simp: distinct_map inj_on_def)

lemma task_duration_of:
  "distinct (map ct_id tasks) \<Longrightarrow> t \<in> set tasks \<Longrightarrow> task_duration tasks (ct_id t) = duration t"
  by (simp add: task_duration_def task_by_id_of)

lemma critical_path_rows:
  assumes "acyclic_plan tasks deps"
  defines "f \<equiv> late_finish tasks deps"
  shows "list_all2 (\<lambda>t r. cr_id r = ct_id t \<and>
        cr_lateFinish r = Some (addDays (plan_epoch tasks) (f (ct_id t))) \<and>
        cr_lateStart r = Some (addDays (plan_epoch tasks) (f (ct_id t) - duration t)) \<and>
        cr_slackDays r = Some (f (ct_id t) - duration t - diffDays (plan_epoch tasks) (ct_startDate t)) \<and>
        cr_critical r = (f (ct_id t) - duration t - diffDays (plan_epoch tasks) (ct_startDate t) \<le> 0))
      tasks (computeCriticalPath tasks deps)"
proof -
  let ?E = "cpm_edges tasks deps"
  obtain ls lf where l: "late_dates ?E (task_duration tasks) (project_finish tasks) (topoOrder tasks ?E) = (ls, lf)"
    by fastforce
  have "lf (ct_id t) = Some (f (ct_id t)) \<and> ls (ct_id t) = Some (f (ct_id t) - duration t)" if "t \<in> set tasks" for t
    using late_finish_bound(1) [OF assms(1) _ l, of "ct_id t"] task_duration_of [of tasks t] assms(1) that
    by (simp add: acyclic_plan_def f_def)
  then show ?thesis by (auto simp: computeCriticalPath_def l Let_def list_all2_map2 list.rel_refl_strong)
qed

lemma critical_path_row:
  assumes "acyclic_plan tasks deps" and "r \<in> set (computeCriticalPath tasks deps)"
  shows "\<exists>t \<in> set tasks.
    cr_slackDays r = Some (late_finish tasks deps (ct_id t) - duration t - diffDays (plan_epoch tasks) (ct_startDate t)) \<and>
    cr_critical r = (late_finish tasks deps (ct_id t) - duration t - diffDays (plan_epoch tasks) (ct_startDate t) \<le> 0)"
  using critical_path_rows [OF assms(1)] assms(2)
  by (auto simp: list_all2_conv_all_nth in_set_conv_nth intro!: bexI [OF _ nth_mem])


definition plan_example :: "cpm_task list" where
  "plan_example =
     [\<lparr>ct_id = 1, ct_startDate = 0, ct_dueDate = 3 * CPM_DAY_MS\<rparr>,
      \<lparr>ct_id = 2, ct_startDate = 3 * CPM_DAY_MS, ct_dueDate = 5 * CPM_DAY_MS\<rparr>,
      \<lparr>ct_id = 3, ct_startDate = 0, ct_dueDate = CPM_DAY_MS\<rparr>]"

definition plan_example_links :: "dependency list" where
  "plan_example_links =
     [\<lparr>dp_predecessorId = 1, dp_successorId = 2, dp_type = Finish_to_start, dp_lagDays = 0\<rparr>,
      \<lparr>dp_predecessorId = 3, dp_successorId = 2, dp_type = Start_to_start, dp_lagDays = 1\<rparr>]"

lemma acyclic_by_rank:
  fixes rank :: "uid \<Rightarrow> nat"
  assumes "\<forall>e \<in> set edges. rank (dp_predecessorId e) < rank (dp_successorId e)"
  shows "acyclic (edge_rel edges)"
  by (rule wf_acyclic, rule wf_subset [OF wf_measure [of rank]]) (use assms in \<open>auto simp: edge_rel_def\<close>)

lemma plan_example_acyclic: "acyclic_plan plan_example plan_example_links"
  unfolding acyclic_plan_def
proof
  show "acyclic (edge_rel (cpm_edges plan_example plan_example_links))"
    by (rule acyclic_by_rank [of _ "\<lambda>i. if i = 2 then 1 else 0"])
      (simp add: cpm_edges_def plan_example_def plan_example_links_def)
qed (simp add: plan_example_def)

text \<open>Whole days, no task shorter than one, and every start respects its predecessors: what the cascade
  and the form leave behind.\<close>

definition scheduled_plan :: "cpm_task list \<Rightarrow> dependency list \<Rightarrow> bool" where
  "scheduled_plan tasks deps \<longleftrightarrow>
     (\<forall>t \<in> set tasks. CPM_DAY_MS dvd ct_startDate t \<and> CPM_DAY_MS dvd ct_dueDate t \<and> ct_startDate t < ct_dueDate t) \<and>
     (\<forall>e \<in> set deps. \<forall>p \<in> set tasks. \<forall>s \<in> set tasks. ct_id p = dp_predecessorId e \<and> ct_id s = dp_successorId e \<longrightarrow>
        minSuccessorStart p s (dp_type e) (dp_lagDays e) \<le> ct_startDate s)"

lemma diffDays_dvd: "CPM_DAY_MS dvd a \<Longrightarrow> CPM_DAY_MS dvd b \<Longrightarrow> diffDays a b = b div CPM_DAY_MS - a div CPM_DAY_MS"
  by (elim dvdE) (simp add: diffDays_def CPM_DAY_MS_def js_round_def diff_divide_distrib floor_unique)

lemma addDays_le:
  assumes "CPM_DAY_MS dvd a" and "CPM_DAY_MS dvd b"
  shows "addDays a n \<le> b \<longleftrightarrow> a div CPM_DAY_MS + n \<le> b div CPM_DAY_MS"
proof -
  obtain k l where "a = CPM_DAY_MS * k" "b = CPM_DAY_MS * l" using assms by (auto elim!: dvdE)
  then show ?thesis by (auto simp: addDays_def CPM_DAY_MS_def)
qed

lemma whole_day_end:
  assumes "CPM_DAY_MS dvd epoch" and "CPM_DAY_MS dvd ct_startDate t" and "CPM_DAY_MS dvd ct_dueDate t"
    and "ct_startDate t < ct_dueDate t"
  shows "diffDays epoch (ct_startDate t) + duration t = diffDays epoch (ct_dueDate t)"
proof -
  obtain k l where "ct_startDate t = CPM_DAY_MS * k" "ct_dueDate t = CPM_DAY_MS * l" using assms by (auto elim!: dvdE)
  then show ?thesis using assms by (simp add: duration_def diffDays_dvd CPM_DAY_MS_def)
qed

lemma minSuccessorStart_offset:
  assumes "CPM_DAY_MS dvd epoch" and "CPM_DAY_MS dvd ct_startDate p" and "CPM_DAY_MS dvd ct_startDate s"
  shows "minSuccessorStart p s kind lag \<le> ct_startDate s \<longleftrightarrow>
    minSuccessorStartOffset (diffDays epoch (ct_startDate p)) (diffDays epoch (ct_startDate p) + duration p)
      kind lag (duration s) \<le> diffDays epoch (ct_startDate s)"
  using assms by (cases kind) (simp_all add: minSuccessorStart_def addDays_le diffDays_dvd, linarith+)

text \<open>On a plan without cycles whose dates are whole days and whose starts respect every dependency,
  no task has negative slack: the dates as scheduled are themselves one of the assignments the late
  finishes dominate.\<close>

theorem scheduled_plan_no_negative_slack:
  assumes "acyclic_plan tasks deps" and "scheduled_plan tasks deps" and "r \<in> set (computeCriticalPath tasks deps)"
  shows "\<exists>d \<ge> 0. cr_slackDays r = Some d \<and> cr_critical r = (d = 0)"
proof -
  let ?es = "\<lambda>t. diffDays (plan_epoch tasks) (ct_startDate t)"
  let ?f = "late_finish tasks deps"
  define g where "g i = (case task_by_id tasks i of None \<Rightarrow> 0 | Some t \<Rightarrow> ?es t + duration t)" for i
  have dist: "distinct (map ct_id tasks)" using assms(1) by (simp add: acyclic_plan_def)
  have g: "g (ct_id t) = ?es t + duration t" if "t \<in> set tasks" for t
    using task_by_id_of [OF dist that] by (simp add: g_def)
  have whole: "CPM_DAY_MS dvd ct_startDate t" "CPM_DAY_MS dvd ct_dueDate t" "ct_startDate t < ct_dueDate t"
    if "t \<in> set tasks" for t using assms(2) that by (auto simp: scheduled_plan_def)
  have ep: "CPM_DAY_MS dvd plan_epoch tasks" if "tasks \<noteq> []"
  proof -
    from that have "plan_epoch tasks \<in> set (map ct_startDate tasks)" unfolding plan_epoch_def by (intro Min_in) auto
    then show ?thesis using whole(1) by auto
  qed
  have "plan_ok tasks deps g" unfolding plan_ok_def Let_def
  proof (intro conjI ballI impI)
    fix i assume "i \<in> set (map ct_id tasks)"
    then obtain t where t: "t \<in> set tasks" "i = ct_id t" by auto
    have "g i = diffDays (plan_epoch tasks) (ct_dueDate t)"
      using g [OF t(1)] whole [OF t(1)] ep t whole_day_end [of "plan_epoch tasks" t] by (cases tasks) auto
    also have "\<dots> \<le> project_finish tasks" using t by (auto simp: project_finish_def)
    finally show "g i \<le> project_finish tasks" .
  next
    fix e assume e: "e \<in> set (cpm_edges tasks deps)"
    then obtain p s where ps: "p \<in> set tasks" "s \<in> set tasks" "ct_id p = dp_predecessorId e" "ct_id s = dp_successorId e"
      "e \<in> set deps" by (auto simp: cpm_edges_def)
    then have "minSuccessorStart p s (dp_type e) (dp_lagDays e) \<le> ct_startDate s"
      using assms(2) by (auto simp: scheduled_plan_def)
    then have "minSuccessorStartOffset (?es p) (?es p + duration p) (dp_type e) (dp_lagDays e) (duration s) \<le> ?es s"
      using ps whole ep minSuccessorStart_offset [of "plan_epoch tasks" p s] by (cases tasks) auto
    then show "minSuccessorStartOffset (g (dp_predecessorId e) - task_duration tasks (dp_predecessorId e))
        (g (dp_predecessorId e)) (dp_type e) (dp_lagDays e) (task_duration tasks (dp_successorId e))
      \<le> g (dp_successorId e) - task_duration tasks (dp_successorId e)"
      using g [OF ps(1)] g [OF ps(2)] task_duration_of [OF dist ps(1)] task_duration_of [OF dist ps(2)] ps(3,4) by simp
  qed
  from late_finish_greatest [OF assms(1) this]
  have "?es t \<le> ?f (ct_id t) - duration t" if "t \<in> set tasks" for t using g [OF that] that by fastforce
  moreover obtain t where "t \<in> set tasks" "cr_slackDays r = Some (?f (ct_id t) - duration t - ?es t)"
    "cr_critical r = (?f (ct_id t) - duration t - ?es t \<le> 0)"
    using critical_path_row [OF assms(1,3)] by blast
  ultimately show ?thesis by (intro exI [of _ "?f (ct_id t) - duration t - ?es t"]) fastforce
qed

subsection \<open>Worked plans\<close>

lemma plan_example_slack:
  "map cr_slackDays (computeCriticalPath plan_example plan_example_links) = [Some 0, Some 0, Some 2]"
  by code_simp

lemma plan_example_scheduled: "scheduled_plan plan_example plan_example_links"
  by (simp add: scheduled_plan_def plan_example_def plan_example_links_def minSuccessorStart_def addDays_def
      duration_def diffDays_def js_round_def CPM_DAY_MS_def)

lemma plan_example_early: "plan_ok plan_example plan_example_links (\<lambda>i. if i = 1 then 3 else if i = 2 then 5 else 1)"
  by code_simp


lemma scheduled_plan_no_negative_slack_witness:
  "\<exists>d. 0 \<le> d \<and> cr_slackDays (hd (computeCriticalPath plan_example plan_example_links)) = Some d \<and>
     cr_critical (hd (computeCriticalPath plan_example plan_example_links)) = (d = 0)"
proof -
  have "computeCriticalPath plan_example plan_example_links \<noteq> []" using plan_example_slack by auto
  from hd_in_set [OF this] show ?thesis
    using scheduled_plan_no_negative_slack [OF plan_example_acyclic plan_example_scheduled] by blast
qed

text \<open>Only a task without successors is held to the project's finish.  A ten day task that a one day
  task starts together with gets nine days of slack and is not critical, although it is the one that
  ends the project.\<close>

lemma start_to_start_hides_the_last_task:
  "map (\<lambda>r. (cr_id r, cr_slackDays r, cr_critical r, cr_lateFinish r))
     (computeCriticalPath
        [\<lparr>ct_id = 1, ct_startDate = 0, ct_dueDate = 10 * CPM_DAY_MS\<rparr>,
         \<lparr>ct_id = 2, ct_startDate = 0, ct_dueDate = CPM_DAY_MS\<rparr>]
        [\<lparr>dp_predecessorId = 1, dp_successorId = 2, dp_type = Start_to_start, dp_lagDays = 0\<rparr>]) =
   [(1, Some 9, False, Some (19 * CPM_DAY_MS)), (2, Some 9, False, Some (10 * CPM_DAY_MS))]"
  by code_simp

end
