(* ===== verification/Permissions.thy ===== *)
theory Permissions
  imports Prelude
begin

section \<open>Roles and permissions\<close>

text \<open>
  \<open>packages/shared/src/permissions.ts\<close>, \<open>report-access.ts\<close>, \<open>common/permissions/permissions.service.ts\<close>
  and \<open>admin-appointment.ts\<close>. A permission is its key, a string; a \<open>Set\<close> of them is a list without
  repetitions in insertion order. The stored overrides are rows unique on company, role and
  permission; one instance of the service also keeps the rows it last read, per company, with the
  time it read them. The audit trail is left out.
\<close>

subsection \<open>Roles and capabilities\<close>

datatype membership_role = Owner | Admin | Estimator | Foreman | Accountant | Worker

datatype permission_section = Sec_finance | Sec_commercial | Sec_site | Sec_people | Sec_projects | Sec_settings

type_synonym permission = string

text \<open>\<open>new Set([...xs, x])\<close>.\<close>

definition js_add :: "'a \<Rightarrow> 'a list \<Rightarrow> 'a list" where
  "js_add x xs = (if x \<in> set xs then xs else xs @ [x])"

definition PERMISSIONS :: "(permission \<times> permission_section) list" where
  "PERMISSIONS =
     [(''finance.view'', Sec_finance), (''finance.manage'', Sec_finance), (''finance.export'', Sec_finance),
      (''finance.taxProfiles'', Sec_finance), (''reports.custom'', Sec_finance), (''costing.view'', Sec_finance),
      (''estimates.view'', Sec_commercial), (''estimates.manage'', Sec_commercial),
      (''pricing.manage'', Sec_commercial), (''pricing.approve'', Sec_commercial),
      (''clients.view'', Sec_commercial), (''clients.manage'', Sec_commercial),
      (''contracts.view'', Sec_commercial), (''contracts.manage'', Sec_commercial),
      (''purchasing.view'', Sec_commercial), (''purchasing.manage'', Sec_commercial),
      (''subcontractors.view'', Sec_commercial), (''subcontractors.manage'', Sec_commercial),
      (''site.manage'', Sec_site), (''site.dailyLogs.create'', Sec_site), (''site.crewTime'', Sec_site),
      (''equipment.costs'', Sec_site), (''templates.field'', Sec_site), (''reports.operations'', Sec_site),
      (''people.rates'', Sec_people), (''people.contacts'', Sec_people), (''hr.cases'', Sec_people),
      (''hr.payroll'', Sec_people), (''training.manage'', Sec_people), (''people.manage'', Sec_people),
      (''projects.all'', Sec_projects), (''projects.manage'', Sec_projects), (''documents.delete'', Sec_projects),
      (''templates.company'', Sec_settings), (''settings.roles'', Sec_settings), (''settings.company'', Sec_settings),
      (''settings.integrations'', Sec_settings), (''settings.export'', Sec_settings)]"

definition PERMISSION_KEYS :: "permission list" where
  "PERMISSION_KEYS = map fst PERMISSIONS"

text \<open>\<open>value in PERMISSIONS\<close> also finds what an object inherits.\<close>

definition object_prototype :: "string list" where
  "object_prototype =
     [''constructor'', ''__defineGetter__'', ''__defineSetter__'', ''hasOwnProperty'', ''__lookupGetter__'',
      ''__lookupSetter__'', ''isPrototypeOf'', ''propertyIsEnumerable'', ''toString'', ''valueOf'', ''__proto__'',
      ''toLocaleString'']"

definition isPermission :: "string \<Rightarrow> bool" where
  "isPermission v \<longleftrightarrow> v \<in> set PERMISSION_KEYS \<or> v \<in> set object_prototype"

definition WORKER :: "permission list" where
  "WORKER = [''projects.all'']"

definition FOREMAN :: "permission list" where
  "FOREMAN = WORKER @
     [''site.manage'', ''site.dailyLogs.create'', ''site.crewTime'', ''templates.field'', ''reports.operations'',
      ''subcontractors.view'', ''purchasing.view'', ''people.contacts'', ''training.manage'']"

definition ESTIMATOR :: "permission list" where
  "ESTIMATOR = WORKER @
     [''estimates.view'', ''estimates.manage'', ''pricing.manage'', ''clients.view'', ''clients.manage'',
      ''contracts.view'', ''costing.view'', ''purchasing.view'', ''subcontractors.view'']"

definition ACCOUNTANT :: "permission list" where
  "ACCOUNTANT = WORKER @
     [''finance.view'', ''finance.manage'', ''finance.export'', ''finance.taxProfiles'', ''reports.custom'',
      ''reports.operations'', ''costing.view'', ''estimates.view'', ''clients.view'', ''contracts.view'',
      ''purchasing.view'', ''purchasing.manage'', ''subcontractors.view'', ''hr.payroll'', ''people.rates'',
      ''people.contacts'', ''equipment.costs'']"

fun DEFAULT_GRANTS :: "membership_role \<Rightarrow> permission list" where
  "DEFAULT_GRANTS Owner = PERMISSION_KEYS"
| "DEFAULT_GRANTS Admin = PERMISSION_KEYS"
| "DEFAULT_GRANTS Accountant = ACCOUNTANT"
| "DEFAULT_GRANTS Estimator = ESTIMATOR"
| "DEFAULT_GRANTS Foreman = FOREMAN"
| "DEFAULT_GRANTS Worker = WORKER"

definition all_roles :: "membership_role list" where
  "all_roles = [Owner, Admin, Accountant, Estimator, Foreman, Worker]"

definition LOCKED_ROLES :: "membership_role list" where
  "LOCKED_ROLES = [Owner]"

definition SENSITIVE_PERMISSIONS :: "permission list" where
  "SENSITIVE_PERMISSIONS =
     [''finance.view'', ''finance.manage'', ''finance.export'', ''finance.taxProfiles'', ''reports.custom'',
      ''costing.view'', ''people.rates'', ''hr.cases'', ''hr.payroll'', ''people.manage'', ''settings.roles'',
      ''settings.integrations'', ''settings.export'']"

record permission_override =
  po_role :: membership_role
  po_permission :: permission
  po_granted :: bool

definition apply_override :: "membership_role \<Rightarrow> permission_override \<Rightarrow> permission list \<Rightarrow> permission list" where
  "apply_override r v granted =
     (if po_role v \<noteq> r then granted
      else if po_granted v then js_add (po_permission v) granted
      else filter (\<lambda>p. p \<noteq> po_permission v) granted)"

definition forRole :: "permission_override list \<Rightarrow> membership_role \<Rightarrow> permission list" where
  "forRole overrides r =
     (if r \<in> set LOCKED_ROLES then DEFAULT_GRANTS r
      else fold (apply_override r) overrides (DEFAULT_GRANTS r))"

text \<open>A custom role is the pair of its base roles and its extra permissions.\<close>

definition effectivePermissions ::
  "membership_role \<Rightarrow> permission_override list \<Rightarrow> (membership_role list \<times> string list) option \<Rightarrow> permission list" where
  "effectivePermissions role overrides customRole =
     (let result = forRole overrides role;
          bases = (case customRole of None \<Rightarrow> [] | Some (baseRoles, _) \<Rightarrow> baseRoles);
          extra = (case customRole of None \<Rightarrow> [] | Some (_, extra) \<Rightarrow> extra);
          result = fold (\<lambda>base. fold js_add (forRole overrides base)) bases result
      in fold (\<lambda>p r. if isPermission p then js_add p r else r) extra result)"

datatype crew_kind = Crew_time | Crew_expenses | Crew_timeOff | Crew_training | Crew_tools

fun CREW_PERMISSIONS :: "crew_kind \<Rightarrow> permission list" where
  "CREW_PERMISSIONS Crew_time = [''site.crewTime'', ''hr.payroll'']"
| "CREW_PERMISSIONS Crew_expenses = [''site.crewTime'', ''finance.view'']"
| "CREW_PERMISSIONS Crew_timeOff = [''site.crewTime'', ''hr.cases'', ''hr.payroll'']"
| "CREW_PERMISSIONS Crew_training = [''training.manage'', ''site.crewTime'']"
| "CREW_PERMISSIONS Crew_tools = [''site.manage'']"

definition seesCrew :: "permission list option \<Rightarrow> crew_kind \<Rightarrow> bool" where
  "seesCrew permissions kind \<longleftrightarrow>
     (\<exists>p \<in> set (CREW_PERMISSIONS kind). case permissions of None \<Rightarrow> False | Some ps \<Rightarrow> p \<in> set ps)"

definition REPORT_PERMISSIONS :: "(string \<times> permission) list" where
  "REPORT_PERMISSIONS =
     [(''overview'', ''finance.view''), (''period-comparison'', ''finance.view''), (''project-margins'', ''finance.view''),
      (''invoice-aging'', ''finance.view''), (''cash-flow-forecast'', ''finance.view''), (''revenue-trend'', ''finance.view''),
      (''tax-summary'', ''finance.view''), (''wip-report'', ''finance.view''), (''backlog'', ''finance.view''),
      (''estimate-at-completion'', ''costing.view''), (''win-rate'', ''costing.view''), (''portfolio'', ''costing.view''),
      (''compliance-calendar'', ''reports.operations''), (''geofence-violations'', ''reports.operations''),
      (''equipment-utilization'', ''reports.operations''), (''warehouse-turnover'', ''reports.operations'')]"

definition canViewReport :: "string \<Rightarrow> permission list option \<Rightarrow> bool" where
  "canViewReport report permissions \<longleftrightarrow>
     (case (permissions, map_of REPORT_PERMISSIONS report) of
        (Some ps, Some needed) \<Rightarrow> needed \<in> set ps | _ \<Rightarrow> False)"

subsection \<open>The company's overrides\<close>

record stored_override =
  so_companyId :: uid
  so_role :: membership_role
  so_permission :: string
  so_granted :: bool
  so_updatedByUserId :: "uid option"

record perm_state =
  pm_overrides :: "stored_override list"
  pm_cache :: "uid \<Rightarrow> (date \<times> permission_override list) option"

definition CACHE_TTL_MS :: int where
  "CACHE_TTL_MS = 30 * 1000"

definition stored_for :: "uid \<Rightarrow> stored_override list \<Rightarrow> permission_override list" where
  "stored_for companyId rows =
     map (\<lambda>r. \<lparr>po_role = so_role r, po_permission = so_permission r, po_granted = so_granted r\<rparr>)
       (filter (\<lambda>r. so_companyId r = companyId \<and> isPermission (so_permission r)) rows)"

text \<open>The cache is looked up at \<open>now\<close>; on a miss the rows are read, other requests may run
  (\<open>env\<close>), and at \<open>now'\<close> the rows are put in the cache.\<close>

definition overridesFor ::
  "(perm_state \<Rightarrow> perm_state) \<Rightarrow> date \<Rightarrow> date \<Rightarrow> uid \<Rightarrow> perm_state \<Rightarrow> permission_override list \<times> perm_state" where
  "overridesFor env now now' companyId s =
     (case pm_cache s companyId of
        Some (readAt, overrides) \<Rightarrow>
          if now - readAt < CACHE_TTL_MS then (overrides, s)
          else (let rows = stored_for companyId (pm_overrides s); s' = env s
                in (rows, s'\<lparr>pm_cache := (pm_cache s')(companyId \<mapsto> (now', rows))\<rparr>))
      | None \<Rightarrow>
          (let rows = stored_for companyId (pm_overrides s); s' = env s
           in (rows, s'\<lparr>pm_cache := (pm_cache s')(companyId \<mapsto> (now', rows))\<rparr>)))"

definition effectiveFor ::
  "(perm_state \<Rightarrow> perm_state) \<Rightarrow> date \<Rightarrow> date \<Rightarrow> uid \<Rightarrow> membership_role \<Rightarrow>
   (membership_role list \<times> string list) option \<Rightarrow> perm_state \<Rightarrow> permission list \<times> perm_state" where
  "effectiveFor env now now' companyId role customRole s =
     (case overridesFor env now now' companyId s of
        (overrides, s') \<Rightarrow> (effectivePermissions role overrides customRole, s'))"

record role_permission_row =
  rp_role :: membership_role
  rp_permission :: permission
  rp_granted :: bool
  rp_isDefault :: bool

definition permission_matrix :: "permission_override list \<Rightarrow> role_permission_row list" where
  "permission_matrix overrides =
     concat (map (\<lambda>role.
       let granted = effectivePermissions role overrides None
       in map (\<lambda>p. \<lparr>rp_role = role, rp_permission = p, rp_granted = p \<in> set granted,
            rp_isDefault = (p \<in> set granted) = (p \<in> set (DEFAULT_GRANTS role))\<rparr>) PERMISSION_KEYS) all_roles)"

definition same_cell :: "uid \<Rightarrow> membership_role \<Rightarrow> string \<Rightarrow> stored_override \<Rightarrow> bool" where
  "same_cell companyId role permission r \<longleftrightarrow>
     so_companyId r = companyId \<and> so_role r = role \<and> so_permission r = permission"

definition drop_cache :: "uid \<Rightarrow> perm_state \<Rightarrow> perm_state" where
  "drop_cache companyId s = s\<lparr>pm_cache := (pm_cache s)(companyId := None)\<rparr>"

text \<open>What comes back is whether the new value is the default.\<close>

definition setGrant ::
  "uid \<Rightarrow> uid option \<Rightarrow> membership_role \<Rightarrow> membership_role \<Rightarrow> string \<Rightarrow> bool \<Rightarrow> perm_state \<Rightarrow> (app_error + bool) \<times> perm_state" where
  "setGrant companyId actorId actorRole role permission granted s =
     (if \<not> isPermission permission
      then (Inl (BadRequestException [Str (''Unknown permission '' @ quoted permission)]), s)
      else if role \<in> set LOCKED_ROLES
      then (Inl (BadRequestException (msg ''The owner always has every permission'')), s)
      else if role = Admin \<and> actorRole \<noteq> Owner
      then (Inl (ForbiddenException (msg ''Only the owner can change an admin's permissions'')), s)
      else
        (let isDefault = (permission \<in> set (DEFAULT_GRANTS role)) = granted;
             rows =
               (if isDefault then filter (\<lambda>r. \<not> same_cell companyId role permission r) (pm_overrides s)
                else upsert_row (same_cell companyId role permission)
                  \<lparr>so_companyId = companyId, so_role = role, so_permission = permission, so_granted = granted,
                   so_updatedByUserId = actorId\<rparr>
                  (\<lambda>r. r\<lparr>so_granted := granted, so_updatedByUserId := actorId\<rparr>) (pm_overrides s))
         in (Inr isDefault, drop_cache companyId (s\<lparr>pm_overrides := rows\<rparr>))))"

definition reset_where :: "uid \<Rightarrow> membership_role \<Rightarrow> membership_role option \<Rightarrow> stored_override \<Rightarrow> bool" where
  "reset_where companyId actorRole role r \<longleftrightarrow>
     so_companyId r = companyId \<and>
     (case role of Some x \<Rightarrow> so_role r = x | None \<Rightarrow> actorRole = Owner \<or> so_role r \<noteq> Admin)"

definition resetToDefaults ::
  "uid \<Rightarrow> membership_role \<Rightarrow> membership_role option \<Rightarrow> perm_state \<Rightarrow> (app_error + nat) \<times> perm_state" where
  "resetToDefaults companyId actorRole role s =
     (if role = Some Admin \<and> actorRole \<noteq> Owner
      then (Inl (ForbiddenException (msg ''Only the owner can change an admin's permissions'')), s)
      else (Inr (length (filter (reset_where companyId actorRole role) (pm_overrides s))),
        drop_cache companyId
          (s\<lparr>pm_overrides := filter (\<lambda>r. \<not> reset_where companyId actorRole role r) (pm_overrides s)\<rparr>)))"

text \<open>The catalog the settings screen reads (\<open>permissions.controller.ts\<close>).\<close>

definition permission_catalog :: "(permission \<times> permission_section \<times> bool) list" where
  "permission_catalog = map (\<lambda>(key, sec). (key, sec, key \<in> set SENSITIVE_PERMISSIONS)) PERMISSIONS"

definition editable_roles :: "membership_role \<Rightarrow> (membership_role \<times> bool) list" where
  "editable_roles actorRole =
     map (\<lambda>role. (role, role \<notin> set LOCKED_ROLES \<and> (role \<noteq> Admin \<or> actorRole = Owner))) all_roles"

definition assertMayAppointAdmin :: "membership_role option \<Rightarrow> bool \<Rightarrow> app_error + unit" where
  "assertMayAppointAdmin actorRole touchesAdmin =
     (if touchesAdmin \<and> actorRole \<noteq> Some Owner
      then Inl (ForbiddenException (msg ''Only the owner can appoint, change or remove an admin'')) else Inr ())"

end
