(* ===== verification/Rate_Limiter.thy ===== *)
theory Rate_Limiter
  imports Prelude
begin

section \<open>The fixed-window rate limiter\<close>

text \<open>
  \<open>common/rate-limiter/rate-limiter.service.ts\<close>. The \<open>Map\<close> of buckets is a function into
  \<open>option\<close>; the clock is an argument. A run over the times of the attempts of one key says how
  many are let through.
\<close>

subsection \<open>The service\<close>

record bucket =
  bk_count :: nat
  bk_resetAt :: date

type_synonym buckets = "string \<Rightarrow> bucket option"

definition consume :: "date \<Rightarrow> string \<Rightarrow> nat \<Rightarrow> int \<Rightarrow> buckets \<Rightarrow> (app_error + unit) \<times> buckets" where
  "consume now key limit windowMs buckets =
     (case buckets key of
        None \<Rightarrow> (Inr (), buckets(key \<mapsto> \<lparr>bk_count = 1, bk_resetAt = now + windowMs\<rparr>))
      | Some bucket \<Rightarrow>
          if bk_resetAt bucket \<le> now
          then (Inr (), buckets(key \<mapsto> \<lparr>bk_count = 1, bk_resetAt = now + windowMs\<rparr>))
          else if limit \<le> bk_count bucket
          then (Inl (TooManyRequests (msg ''Too many attempts - please try again later'')), buckets)
          else (Inr (), buckets(key \<mapsto> bucket\<lparr>bk_count := Suc (bk_count bucket)\<rparr>)))"

definition reset_limit :: "string \<Rightarrow> buckets \<Rightarrow> buckets" where
  "reset_limit key buckets = buckets(key := None)"

definition sweep :: "date \<Rightarrow> buckets \<Rightarrow> buckets" where
  "sweep now buckets =
     (\<lambda>key. case buckets key of None \<Rightarrow> None
        | Some bucket \<Rightarrow> if bk_resetAt bucket \<le> now then None else Some bucket)"

subsection \<open>How much it lets through\<close>

text \<open>The times, in order, at which attempts with one key are let through.\<close>

fun admitted :: "string \<Rightarrow> nat \<Rightarrow> int \<Rightarrow> date list \<Rightarrow> buckets \<Rightarrow> date list" where
  "admitted key limit windowMs [] buckets = []"
| "admitted key limit windowMs (t # ts) buckets =
     (case consume t key limit windowMs buckets of
        (Inl e, buckets') \<Rightarrow> admitted key limit windowMs ts buckets'
      | (Inr _, buckets') \<Rightarrow> t # admitted key limit windowMs ts buckets')"

definition between :: "date \<Rightarrow> date \<Rightarrow> date list \<Rightarrow> nat" where
  "between a b ts = length (filter (\<lambda>t. a \<le> t \<and> t < b) ts)"

lemma between_Nil [simp]: "between a b [] = 0"
  by (simp add: between_def)

lemma between_Cons [simp]: "between a b (t # ts) = (if a \<le> t \<and> t < b then 1 else 0) + between a b ts"
  by (simp add: between_def)

lemma admitted_set: "set (admitted key limit w ts buckets) \<subseteq> set ts"
proof (induction ts arbitrary: buckets)
  case (Cons t ts)
  obtain r buckets' where c: "consume t key limit w buckets = (r, buckets')" by fastforce
  show ?case using Cons.IH [of buckets'] by (auto simp: c split: sum.splits)
qed simp

lemma between_none: "\<forall>t \<in> set ts. b \<le> t \<Longrightarrow> between a b (admitted key limit w ts buckets) = 0"
  using admitted_set [of key limit w ts buckets] by (fastforce simp: between_def filter_empty_conv)

lemma consume_open:
  assumes "buckets key = None \<or> (\<exists>b. buckets key = Some b \<and> bk_resetAt b \<le> t)"
  shows "consume t key limit w buckets = (Inr (), buckets(key \<mapsto> \<lparr>bk_count = 1, bk_resetAt = t + w\<rparr>))"
  using assms by (auto simp: consume_def)

text \<open>A running bucket admits what is left of it before it resets.\<close>

lemma bucket_admits:
  assumes "sorted ts" and "buckets key = Some b" and "c \<le> bk_resetAt b" and "bk_count b \<le> limit"
  shows "between a c (admitted key limit w ts buckets) + bk_count b \<le> limit"
  using assms
proof (induction ts arbitrary: buckets b)
  case (Cons t ts)
  show ?case
  proof (cases "bk_resetAt b \<le> t")
    case True
    then have "\<forall>u \<in> set (t # ts). c \<le> u" using Cons.prems(1,3) by auto
    then show ?thesis using between_none [of "t # ts" c] Cons.prems(4) by simp
  next
    case False
    show ?thesis
    proof (cases "limit \<le> bk_count b")
      case True
      then show ?thesis using False Cons.prems Cons.IH [of buckets b] by (simp add: consume_def)
    next
      case less: False
      let ?b = "b\<lparr>bk_count := Suc (bk_count b)\<rparr>"
      have "between a c (admitted key limit w ts (buckets(key \<mapsto> ?b))) + bk_count ?b \<le> limit"
        using Cons.prems less by (intro Cons.IH) auto
      then show ?thesis using False less Cons.prems(2) by (simp add: consume_def)
    qed
  qed
qed simp

text \<open>From no running bucket: one full bucket at most before the interval ends.\<close>

lemma fresh_admits:
  assumes "sorted ts" and "buckets key = None \<or> (\<exists>b. buckets key = Some b \<and> (\<forall>t \<in> set ts. bk_resetAt b \<le> t))"
    and "\<forall>t \<in> set ts. c \<le> t + w" and "0 < limit"
  shows "between a c (admitted key limit w ts buckets) \<le> limit"
proof (cases ts)
  case (Cons t us)
  let ?b = "\<lparr>bk_count = 1, bk_resetAt = t + w\<rparr>"
  have "consume t key limit w buckets = (Inr (), buckets(key \<mapsto> ?b))"
    using assms(2) Cons by (intro consume_open) auto
  moreover have "between a c (admitted key limit w us (buckets(key \<mapsto> ?b))) + bk_count ?b \<le> limit"
    using assms Cons by (intro bucket_admits) auto
  ultimately show ?thesis by (simp add: Cons)
qed simp

lemma two_buckets:
  assumes "sorted ts" and "buckets key = Some b" and "bk_count b \<le> limit" and "c \<le> bk_resetAt b + w" and "0 < limit"
  shows "between a c (admitted key limit w ts buckets) + bk_count b \<le> 2 * limit"
  using assms
proof (induction ts arbitrary: buckets b)
  case (Cons t ts)
  show ?case
  proof (cases "bk_resetAt b \<le> t")
    case True
    have "between a c (admitted key limit w (t # ts) buckets) \<le> limit"
      using Cons.prems True by (intro fresh_admits) fastforce+
    then show ?thesis using Cons.prems(3) by simp
  next
    case False
    show ?thesis
    proof (cases "limit \<le> bk_count b")
      case True
      then show ?thesis using False Cons.prems Cons.IH [of buckets b] by (simp add: consume_def)
    next
      case less: False
      let ?b = "b\<lparr>bk_count := Suc (bk_count b)\<rparr>"
      have "between a c (admitted key limit w ts (buckets(key \<mapsto> ?b))) + bk_count ?b \<le> 2 * limit"
        using Cons.prems less by (intro Cons.IH) auto
      then show ?thesis using False less Cons.prems(2) by (simp add: consume_def)
    qed
  qed
qed simp



text \<open>An attempt can be let through when the limit was already used up within the window: two at the
  end of one bucket, and one more a moment later, when the bucket has reset.\<close>

lemma more_than_limit_within_window:
  "admitted ''k'' 2 10 [0, 9, 10] (\<lambda>_. None) = [0, 9, 10] \<and> between 1 11 [0, 9, 10] = 2 \<and>
   admitted ''k'' 2 10 [0, 9, 9, 10, 11, 12] (\<lambda>_. None) = [0, 9, 10, 11]"
  by code_simp

end
