(* ===== verification/Accounts.thy ===== *)
theory Accounts
  imports Permissions Rate_Limiter
begin

section \<open>Accounts, sessions, members and invites\<close>

text \<open>
  The tables behind signing in (\<open>User\<close>, \<open>UserSession\<close>, \<open>Membership\<close>, \<open>CustomRole\<close>, \<open>Invite\<close>,
  \<open>PasswordResetToken\<close>, the policy columns of \<open>Company\<close> and the seats of \<open>Subscription\<close>), and the
  services \<open>sessions.service.ts\<close>, \<open>custom-roles.service.ts\<close>, \<open>members.service.ts\<close>, \<open>invites.service.ts\<close>,
  \<open>password-policy.ts\<close>. Random tokens and the hashes of new passwords are arguments; \<open>bcrypt.compare\<close>,
  SHA-256 and the verification of a TOTP code are parameters. A token that is signed is the record it
  is signed over. Mails and the audit trail are left out.
\<close>

subsection \<open>Tables\<close>

record app_user =
  us_id :: uid
  us_email :: string
  us_passwordHash :: string
  us_name :: string
  us_totpSecret :: "string option"
  us_totpEnabledAt :: "date option"
  us_totpBackupCodes :: "string list"
  us_pendingTotpSecret :: "string option"

record membership =
  mb_id :: uid
  mb_userId :: uid
  mb_companyId :: uid
  mb_role :: membership_role
  mb_customRoleId :: "uid option"

record custom_role =
  ro_id :: uid
  ro_companyId :: uid
  ro_name :: string
  ro_basePermissions :: "membership_role list"
  ro_extraPermissions :: "string list"

record invite =
  iv_id :: uid
  iv_companyId :: uid
  iv_email :: string
  iv_role :: membership_role
  iv_token :: string
  iv_expiresAt :: date
  iv_acceptedAt :: "date option"

record user_session =
  se_id :: uid
  se_userId :: uid
  se_companyId :: "uid option"
  se_lastSeenAt :: date
  se_revokedAt :: "date option"

record reset_token =
  rt_id :: uid
  rt_userId :: uid
  rt_tokenHash :: string
  rt_expiresAt :: date
  rt_usedAt :: "date option"

record company_policy =
  cy_id :: uid
  cy_passwordMinLength :: nat
  cy_passwordRequireSymbol :: bool
  cy_sessionTimeoutMinutes :: "int option"

record access_db =
  ad_users :: "app_user list"
  ad_memberships :: "membership list"
  ad_customRoles :: "custom_role list"
  ad_invites :: "invite list"
  ad_sessions :: "user_session list"
  ad_resetTokens :: "reset_token list"
  ad_companies :: "company_policy list"
  ad_subscriptions :: "(uid \<times> nat) list"
  ad_plans :: "string list"
  ad_uid :: uid

type_synonym 'a access_op = "access_db \<Rightarrow> (app_error + 'a) \<times> access_db"

text \<open>\<open>AuthUser\<close> without its name and email.\<close>

record auth_user =
  au_userId :: uid
  au_companyId :: uid
  au_role :: membership_role
  au_additionalRoles :: "membership_role list option"
  au_permissions :: "permission list option"
  au_sid :: "uid option"

definition find_membership :: "uid \<Rightarrow> uid \<Rightarrow> access_db \<Rightarrow> membership option" where
  "find_membership userId companyId db =
     find_row (\<lambda>m. mb_userId m = userId \<and> mb_companyId m = companyId) (ad_memberships db)"

definition find_user :: "uid \<Rightarrow> access_db \<Rightarrow> app_user option" where
  "find_user i db = find_row (\<lambda>u. us_id u = i) (ad_users db)"

definition custom_role_of :: "membership \<Rightarrow> access_db \<Rightarrow> custom_role option" where
  "custom_role_of m db =
     Option.bind (mb_customRoleId m) (\<lambda>i. find_row (\<lambda>r. ro_id r = i) (ad_customRoles db))"

subsection \<open>Sessions\<close>

definition TOUCH_INTERVAL_MS :: int where
  "TOUCH_INTERVAL_MS = 60 * 1000"

definition create_session :: "date \<Rightarrow> uid \<Rightarrow> uid \<Rightarrow> access_db \<Rightarrow> uid \<times> access_db" where
  "create_session now userId companyId db =
     (ad_uid db,
      db\<lparr>ad_sessions := ad_sessions db @
           [\<lparr>se_id = ad_uid db, se_userId = userId, se_companyId = Some companyId,
             se_lastSeenAt = now, se_revokedAt = None\<rparr>],
         ad_uid := Suc (ad_uid db)\<rparr>)"

definition revoke_sessions :: "(user_session \<Rightarrow> bool) \<Rightarrow> date \<Rightarrow> access_db \<Rightarrow> access_db" where
  "revoke_sessions p now db =
     db\<lparr>ad_sessions := update_rows (\<lambda>s. se_revokedAt s = None \<and> p s)
         (\<lambda>s. s\<lparr>se_revokedAt := Some now\<rparr>) (ad_sessions db)\<rparr>"

definition revokeAllInCompany :: "date \<Rightarrow> uid \<Rightarrow> uid \<Rightarrow> access_db \<Rightarrow> nat \<times> access_db" where
  "revokeAllInCompany now userId companyId db =
     (let p = (\<lambda>s. se_userId s = userId \<and>
            (se_companyId s = Some companyId \<or> se_companyId s = None))
      in (length (filter (\<lambda>s. se_revokedAt s = None \<and> p s) (ad_sessions db)), revoke_sessions p now db))"

definition isRevoked :: "uid \<Rightarrow> access_db \<Rightarrow> bool" where
  "isRevoked sessionId db =
     (case find_row (\<lambda>s. se_id s = sessionId) (ad_sessions db) of
        None \<Rightarrow> True | Some s \<Rightarrow> se_revokedAt s \<noteq> None)"

definition touch :: "date \<Rightarrow> uid \<Rightarrow> access_db \<Rightarrow> access_db" where
  "touch now sessionId db =
     db\<lparr>ad_sessions := update_rows (\<lambda>s. se_id s = sessionId) (\<lambda>s. s\<lparr>se_lastSeenAt := now\<rparr>) (ad_sessions db)\<rparr>"

definition session_timeout :: "uid \<Rightarrow> access_db \<Rightarrow> int option" where
  "session_timeout companyId db =
     (case find_row (\<lambda>c. cy_id c = companyId) (ad_companies db) of
        None \<Rightarrow> None
      | Some c \<Rightarrow> if cy_sessionTimeoutMinutes c = Some 0 then None else cy_sessionTimeoutMinutes c)"

definition stillActive :: "date \<Rightarrow> uid \<Rightarrow> uid \<Rightarrow> access_db \<Rightarrow> bool \<times> access_db" where
  "stillActive now sessionId companyId db =
     (case find_row (\<lambda>s. se_id s = sessionId) (ad_sessions db) of
        None \<Rightarrow> (False, db)
      | Some s \<Rightarrow>
          if se_revokedAt s \<noteq> None then (False, db)
          else
            (let idleMs = now - se_lastSeenAt s in
             if (case session_timeout companyId db of None \<Rightarrow> False | Some t \<Rightarrow> t * 60 * 1000 < idleMs) then (False, db)
             else (True, if TOUCH_INTERVAL_MS \<le> idleMs then touch now sessionId db else db)))"

definition revokeCurrent :: "date \<Rightarrow> uid \<Rightarrow> uid option \<Rightarrow> access_db \<Rightarrow> access_db" where
  "revokeCurrent now userId sessionId db =
     (case sessionId of None \<Rightarrow> db
      | Some i \<Rightarrow> revoke_sessions (\<lambda>s. se_id s = i \<and> se_userId s = userId) now db)"

definition revoke_session :: "date \<Rightarrow> uid \<Rightarrow> uid \<Rightarrow> unit access_op" where
  "revoke_session now userId sessionId db =
     (case find_row (\<lambda>s. se_id s = sessionId) (ad_sessions db) of
        None \<Rightarrow> (Inl (NotFoundException (msg ''Session not found'')), db)
      | Some s \<Rightarrow>
          if se_userId s \<noteq> userId then (Inl (ForbiddenException (msg ''Not your session'')), db)
          else (Inr (), db\<lparr>ad_sessions := update_rows (\<lambda>s. se_id s = sessionId)
                  (\<lambda>s. s\<lparr>se_revokedAt := Some now\<rparr>) (ad_sessions db)\<rparr>))"

subsection \<open>Custom roles and members\<close>

definition create_custom_role ::
  "uid \<Rightarrow> membership_role option \<Rightarrow> string \<Rightarrow> membership_role list \<Rightarrow> string list \<Rightarrow> custom_role access_op" where
  "create_custom_role companyId actorRole name basePermissions extraPermissions db =
     (case assertMayAppointAdmin actorRole (Admin \<in> set basePermissions) of
        Inl e \<Rightarrow> (Inl e, db)
      | Inr _ \<Rightarrow>
          if \<exists>r \<in> set (ad_customRoles db). ro_companyId r = companyId \<and> ro_name r = name
          then (Inl (BadRequestException
            [Str (''A custom role named '' @ quoted name @ '' already exists'')]), db)
          else
            (let role = \<lparr>ro_id = ad_uid db, ro_companyId = companyId, ro_name = name,
                   ro_basePermissions = basePermissions, ro_extraPermissions = extraPermissions\<rparr>
             in (Inr role, db\<lparr>ad_customRoles := ad_customRoles db @ [role], ad_uid := Suc (ad_uid db)\<rparr>)))"

definition delete_custom_role :: "uid \<Rightarrow> membership_role option \<Rightarrow> uid \<Rightarrow> unit access_op" where
  "delete_custom_role companyId actorRole i db =
     (case find_row (\<lambda>r. ro_id r = i \<and> ro_companyId r = companyId) (ad_customRoles db) of
        None \<Rightarrow> (Inl (NotFoundException (msg ''Custom role not found'')), db)
      | Some role \<Rightarrow>
          (case assertMayAppointAdmin actorRole (Admin \<in> set (ro_basePermissions role)) of
             Inl e \<Rightarrow> (Inl e, db)
           | Inr _ \<Rightarrow>
               (Inr (), db\<lparr>ad_customRoles := filter (\<lambda>r. ro_id r \<noteq> i) (ad_customRoles db),
                  ad_memberships := update_rows (\<lambda>m. mb_customRoleId m = Some i)
                    (\<lambda>m. m\<lparr>mb_customRoleId := None\<rparr>) (ad_memberships db)\<rparr>)))"

definition update_member :: "membership \<Rightarrow> (membership \<Rightarrow> membership) \<Rightarrow> access_db \<Rightarrow> access_db" where
  "update_member m f db = db\<lparr>ad_memberships := update_rows (\<lambda>x. mb_id x = mb_id m) f (ad_memberships db)\<rparr>"

definition updateRole :: "uid \<Rightarrow> membership_role option \<Rightarrow> uid \<Rightarrow> membership_role \<Rightarrow> unit access_op" where
  "updateRole companyId actorRole userId role db =
     (case find_membership userId companyId db of
        None \<Rightarrow> (Inl (NotFoundException (msg ''Member not found'')), db)
      | Some m \<Rightarrow>
          if mb_role m = Owner
          then (Inl (BadRequestException
            (msg ''The owner's role can't be changed here - ownership transfer isn't supported yet'')), db)
          else
            (case assertMayAppointAdmin actorRole (mb_role m = Admin \<or> role = Admin) of
               Inl e \<Rightarrow> (Inl e, db)
             | Inr _ \<Rightarrow> (Inr (), update_member m (\<lambda>x. x\<lparr>mb_role := role\<rparr>) db)))"

definition bases_admin :: "custom_role option \<Rightarrow> bool" where
  "bases_admin role \<longleftrightarrow> (case role of None \<Rightarrow> False | Some r \<Rightarrow> Admin \<in> set (ro_basePermissions r))"

definition assignCustomRole :: "uid \<Rightarrow> membership_role option \<Rightarrow> uid \<Rightarrow> uid option \<Rightarrow> unit access_op" where
  "assignCustomRole companyId actorRole userId customRoleId db =
     (case find_membership userId companyId db of
        None \<Rightarrow> (Inl (NotFoundException (msg ''Member not found'')), db)
      | Some m \<Rightarrow>
          (let company_role = (\<lambda>i. find_row (\<lambda>r. ro_id r = i \<and> ro_companyId r = companyId) (ad_customRoles db));
               wanted = Option.bind customRoleId company_role;
               current = Option.bind (mb_customRoleId m) company_role
           in if customRoleId \<noteq> None \<and> wanted = None
              then (Inl (NotFoundException (msg ''Custom role not found'')), db)
              else
                (case assertMayAppointAdmin actorRole (mb_role m = Admin \<or> bases_admin wanted \<or> bases_admin current) of
                   Inl e \<Rightarrow> (Inl e, db)
                 | Inr _ \<Rightarrow> (Inr (), update_member m (\<lambda>x. x\<lparr>mb_customRoleId := customRoleId\<rparr>) db))))"

definition remove_member :: "uid \<Rightarrow> membership_role option \<Rightarrow> uid \<Rightarrow> unit access_op" where
  "remove_member companyId actorRole userId db =
     (case find_membership userId companyId db of
        None \<Rightarrow> (Inl (NotFoundException (msg ''Member not found'')), db)
      | Some m \<Rightarrow>
          if mb_role m = Owner
          then (Inl (BadRequestException (msg ''The owner can't be removed from their own company'')), db)
          else
            (case assertMayAppointAdmin actorRole (mb_role m = Admin) of
               Inl e \<Rightarrow> (Inl e, db)
             | Inr _ \<Rightarrow> (Inr (), db\<lparr>ad_memberships := filter (\<lambda>x. mb_id x \<noteq> mb_id m) (ad_memberships db)\<rparr>)))"

subsection \<open>Password policy\<close>

definition is_symbol :: "char \<Rightarrow> bool" where
  "is_symbol c \<longleftrightarrow> c \<notin> set ''ABCDEFGHIJKLMNOPQRSTUVWXYZabcdefghijklmnopqrstuvwxyz0123456789''"

definition assertPasswordPolicy :: "string \<Rightarrow> nat \<Rightarrow> bool \<Rightarrow> app_error + unit" where
  "assertPasswordPolicy password minLength requireSymbol =
     (if length password < minLength
      then Inl (BadRequestException [Str ''Password must be at least '', Num (of_nat minLength), Str '' characters''])
      else if requireSymbol \<and> \<not> (\<exists>c \<in> set password. is_symbol c)
      then Inl (BadRequestException (msg ''Password must include at least one symbol''))
      else Inr ())"

end
