(* ===== verification/Signing_In.thy ===== *)
theory Signing_In
  imports Accounts
begin

section \<open>Signing in\<close>

text \<open>
  \<open>invites.service.ts\<close>, \<open>auth.service.ts\<close>, \<open>two-factor.service.ts\<close>, \<open>password-reset.service.ts\<close> and
  \<open>jwt-auth.guard.ts\<close>. \<open>compare\<close> is \<open>bcrypt.compare\<close>, \<open>sha\<close> is SHA-256, \<open>totp\<close> checks a code against a
  stored secret; what \<open>verifyAsync\<close> makes of a token is an argument, \<open>None\<close> when it throws. Where other
  requests can run between a check and the transaction that repeats it, \<open>env\<close> is what they do. The
  serializable transaction of an acceptance is one step.
\<close>

subsection \<open>Invites\<close>

datatype sign_in = Signed_in auth_user | Requires_2fa uid

definition INVITE_TTL_MS :: int where
  "INVITE_TTL_MS = 14 * 24 * 60 * 60 * 1000"

definition company_seats :: "uid \<Rightarrow> access_db \<Rightarrow> nat" where
  "company_seats companyId db =
     (case find_row (\<lambda>s. fst s = companyId) (ad_subscriptions db) of None \<Rightarrow> 1 | Some s \<Rightarrow> snd s)"

definition member_count :: "uid \<Rightarrow> access_db \<Rightarrow> nat" where
  "member_count companyId db = length (filter (\<lambda>m. mb_companyId m = companyId) (ad_memberships db))"

definition pending_invites :: "date \<Rightarrow> uid \<Rightarrow> uid option \<Rightarrow> access_db \<Rightarrow> nat" where
  "pending_invites now companyId excluded db =
     length (filter (\<lambda>i. iv_companyId i = companyId \<and> iv_acceptedAt i = None \<and> now < iv_expiresAt i \<and>
        excluded \<noteq> Some (iv_id i)) (ad_invites db))"

definition assertSeatAvailable :: "date \<Rightarrow> uid \<Rightarrow> uid option \<Rightarrow> access_db \<Rightarrow> app_error + unit" where
  "assertSeatAvailable now companyId excluded db =
     (let seats = company_seats companyId db in
      if seats \<le> member_count companyId db + pending_invites now companyId excluded db
      then Inl (BadRequestException [Str ''Seat limit reached ('', Num (of_nat seats),
        Str '') - upgrade seats before inviting another person''])
      else Inr ())"

definition listPending :: "date \<Rightarrow> uid \<Rightarrow> access_db \<Rightarrow> invite list" where
  "listPending now companyId db =
     filter (\<lambda>i. iv_companyId i = companyId \<and> iv_acceptedAt i = None \<and> now < iv_expiresAt i) (rev (ad_invites db))"

definition user_by_email :: "string \<Rightarrow> access_db \<Rightarrow> app_user option" where
  "user_by_email email db = find_row (\<lambda>u. us_email u = email) (ad_users db)"

definition create_invite ::
  "(string \<Rightarrow> string) \<Rightarrow> date \<Rightarrow> uid \<Rightarrow> membership_role option \<Rightarrow> string \<Rightarrow> membership_role \<Rightarrow> string \<Rightarrow> invite access_op" where
  "create_invite sha now companyId actorRole email role token db =
     (case assertMayAppointAdmin actorRole (role = Admin) of
        Inl e \<Rightarrow> (Inl e, db)
      | Inr _ \<Rightarrow>
          (case assertSeatAvailable now companyId None db of
             Inl e \<Rightarrow> (Inl e, db)
           | Inr _ \<Rightarrow>
               if (case user_by_email email db of None \<Rightarrow> False
                   | Some u \<Rightarrow> find_membership (us_id u) companyId db \<noteq> None)
               then (Inl (ConflictException (msg ''This person is already a member'')), db)
               else if \<exists>i \<in> set (ad_invites db). iv_token i = sha token
               then (Inl (UniqueViolation ''token''), db)
               else
                 (let i = \<lparr>iv_id = ad_uid db, iv_companyId = companyId, iv_email = email, iv_role = role,
                        iv_token = sha token, iv_expiresAt = now + INVITE_TTL_MS, iv_acceptedAt = None\<rparr>
                  in (Inr i, db\<lparr>ad_invites := ad_invites db @ [i], ad_uid := Suc (ad_uid db)\<rparr>))))"

definition revoke_invite :: "uid \<Rightarrow> membership_role option \<Rightarrow> uid \<Rightarrow> unit access_op" where
  "revoke_invite companyId actorRole i db =
     (case find_row (\<lambda>v. iv_id v = i \<and> iv_companyId v = companyId) (ad_invites db) of
        None \<Rightarrow> (Inl (NotFoundException (msg ''Invite not found'')), db)
      | Some v \<Rightarrow>
          (case assertMayAppointAdmin actorRole (iv_role v = Admin) of
             Inl e \<Rightarrow> (Inl e, db)
           | Inr _ \<Rightarrow> (Inr (), db\<lparr>ad_invites := filter (\<lambda>v. iv_id v \<noteq> i) (ad_invites db)\<rparr>)))"

definition getByToken :: "(string \<Rightarrow> string) \<Rightarrow> date \<Rightarrow> string \<Rightarrow> access_db \<Rightarrow> app_error + invite" where
  "getByToken sha now token db =
     (case find_row (\<lambda>i. iv_token i = sha token) (ad_invites db) of
        None \<Rightarrow> Inl (NotFoundException (msg ''Invite not found or expired''))
      | Some i \<Rightarrow>
          if iv_acceptedAt i \<noteq> None \<or> iv_expiresAt i < now
          then Inl (NotFoundException (msg ''Invite not found or expired'')) else Inr i)"

definition new_user :: "uid \<Rightarrow> string \<Rightarrow> string \<Rightarrow> string \<Rightarrow> app_user" where
  "new_user i email name passwordHash =
     \<lparr>us_id = i, us_email = email, us_passwordHash = passwordHash, us_name = name, us_totpSecret = None,
      us_totpEnabledAt = None, us_totpBackupCodes = [], us_pendingTotpSecret = None\<rparr>"

definition new_membership :: "uid \<Rightarrow> uid \<Rightarrow> uid \<Rightarrow> membership_role \<Rightarrow> membership" where
  "new_membership i userId companyId role =
     \<lparr>mb_id = i, mb_userId = userId, mb_companyId = companyId, mb_role = role, mb_customRoleId = None\<rparr>"

text \<open>The transaction: \<open>Inl\<close> is the id of an existing account, \<open>Inr\<close> the name and password hash of a new one.\<close>

definition accept_tx :: "date \<Rightarrow> invite \<Rightarrow> uid + (string \<times> string) \<Rightarrow> access_db \<Rightarrow> app_error + (uid \<times> access_db)" where
  "accept_tx now ivt who db =
     (case assertSeatAvailable now (iv_companyId ivt) (Some (iv_id ivt)) db of
        Inl e \<Rightarrow> Inl e
      | Inr _ \<Rightarrow>
          (case (case who of
                   Inl userId \<Rightarrow> if find_user userId db = None then Inl RecordNotFound else Inr (userId, db)
                 | Inr (name, passwordHash) \<Rightarrow>
                     if user_by_email (iv_email ivt) db \<noteq> None then Inl (UniqueViolation ''email'')
                     else Inr (ad_uid db,
                       db\<lparr>ad_users := ad_users db @ [new_user (ad_uid db) (iv_email ivt) name passwordHash],
                          ad_uid := Suc (ad_uid db)\<rparr>)) of
             Inl e \<Rightarrow> Inl e
           | Inr (userId, db1) \<Rightarrow>
               if find_membership userId (iv_companyId ivt) db1 \<noteq> None
               then Inl (ConflictException (msg ''This person is already a member''))
               else if \<not> (\<exists>i \<in> set (ad_invites db1). iv_id i = iv_id ivt) then Inl RecordNotFound
               else Inr (userId,
                 db1\<lparr>ad_memberships := ad_memberships db1 @
                       [new_membership (ad_uid db1) userId (iv_companyId ivt) (iv_role ivt)],
                     ad_invites := update_rows (\<lambda>i. iv_id i = iv_id ivt) (\<lambda>i. i\<lparr>iv_acceptedAt := Some now\<rparr>) (ad_invites db1),
                     ad_uid := Suc (ad_uid db1)\<rparr>)))"

definition finalizeAcceptance :: "date \<Rightarrow> invite \<Rightarrow> uid + (string \<times> string) \<Rightarrow> sign_in access_op" where
  "finalizeAcceptance now ivt who db =
     (case accept_tx now ivt who db of
        Inl e \<Rightarrow> (Inl e, db)
      | Inr (userId, db1) \<Rightarrow>
          (case create_session now userId (iv_companyId ivt) db1 of
             (sid, db2) \<Rightarrow>
               (Inr (Signed_in \<lparr>au_userId = userId, au_companyId = iv_companyId ivt, au_role = iv_role ivt,
                  au_additionalRoles = None, au_permissions = None, au_sid = Some sid\<rparr>), db2)))"

definition accept_invite ::
  "(string \<Rightarrow> string) \<Rightarrow> (string \<Rightarrow> string \<Rightarrow> bool) \<Rightarrow> (access_db \<Rightarrow> access_db) \<Rightarrow> date \<Rightarrow> date \<Rightarrow>
   string \<Rightarrow> string \<Rightarrow> string \<Rightarrow> string \<Rightarrow> sign_in access_op" where
  "accept_invite sha compare env now now' token name password passwordHash db =
     (case getByToken sha now token db of
        Inl e \<Rightarrow> (Inl e, db)
      | Inr ivt \<Rightarrow>
          (case assertSeatAvailable now (iv_companyId ivt) (Some (iv_id ivt)) db of
             Inl e \<Rightarrow> (Inl e, db)
           | Inr _ \<Rightarrow>
               (case user_by_email (iv_email ivt) db of
                  Some u \<Rightarrow>
                    if find_membership (us_id u) (iv_companyId ivt) db \<noteq> None
                    then (Inl (ConflictException (msg ''This person is already a member'')), db)
                    else if \<not> compare password (us_passwordHash u)
                    then (Inl (UnauthorizedException (msg ''Invalid email or password'')), db)
                    else if us_totpEnabledAt u \<noteq> None then (Inr (Requires_2fa (us_id u)), db)
                    else finalizeAcceptance now' ivt (Inl (us_id u)) (env db)
                | None \<Rightarrow>
                    (case find_row (\<lambda>c. cy_id c = iv_companyId ivt) (ad_companies db) of
                       None \<Rightarrow> (Inl RecordNotFound, db)
                     | Some c \<Rightarrow>
                         (case assertPasswordPolicy password (cy_passwordMinLength c) (cy_passwordRequireSymbol c) of
                            Inl e \<Rightarrow> (Inl e, db)
                          | Inr _ \<Rightarrow> finalizeAcceptance now' ivt (Inr (name, passwordHash)) (env db))))))"

subsection \<open>Passwords and the second factor\<close>

record auth_state =
  gs_db :: access_db
  gs_limits :: buckets

type_synonym 'a auth_op = "auth_state \<Rightarrow> (app_error + 'a) \<times> auth_state"

definition lower_char :: "char \<Rightarrow> char" where
  "lower_char c = (let n = of_char c :: nat in if 65 \<le> n \<and> n \<le> 90 then char_of (n + 32) else c)"

definition upper_char :: "char \<Rightarrow> char" where
  "upper_char c = (let n = of_char c :: nat in if 97 \<le> n \<and> n \<le> 122 then char_of (n - 32) else c)"

definition issueAccessToken :: "date \<Rightarrow> membership \<Rightarrow> access_db \<Rightarrow> auth_user \<times> access_db" where
  "issueAccessToken now m db =
     (case create_session now (mb_userId m) (mb_companyId m) db of
        (sid, db1) \<Rightarrow>
          (\<lparr>au_userId = mb_userId m, au_companyId = mb_companyId m, au_role = mb_role m,
            au_additionalRoles = map_option ro_basePermissions (custom_role_of m db), au_permissions = None,
            au_sid = Some sid\<rparr>, db1))"

definition memberships_of :: "uid \<Rightarrow> access_db \<Rightarrow> membership list" where
  "memberships_of userId db = filter (\<lambda>m. mb_userId m = userId) (ad_memberships db)"

definition signup ::
  "date \<Rightarrow> string \<Rightarrow> string \<Rightarrow> string \<Rightarrow> string \<Rightarrow> sign_in access_op" where
  "signup now email name passwordHash planCode db =
     (if user_by_email email db \<noteq> None
      then (Inl (ConflictException (msg ''An account with this email already exists'')), db)
      else if planCode \<notin> set (ad_plans db)
      then (Inl (ConflictException [Str (''Unknown plan '' @ quoted planCode)]), db)
      else
        (let companyId = ad_uid db; userId = Suc companyId;
             m = new_membership (Suc userId) userId companyId Owner;
             db1 = db\<lparr>ad_companies := ad_companies db @
                     [\<lparr>cy_id = companyId, cy_passwordMinLength = 8, cy_passwordRequireSymbol = False,
                       cy_sessionTimeoutMinutes = None\<rparr>],
                   ad_users := ad_users db @ [new_user userId email name passwordHash],
                   ad_memberships := ad_memberships db @ [m],
                   ad_subscriptions := ad_subscriptions db @ [(companyId, 1)],
                   ad_uid := Suc (Suc userId)\<rparr>
         in case issueAccessToken now m db1 of (au, db2) \<Rightarrow> (Inr (Signed_in au), db2)))"

definition LOGIN_IP_LIMIT :: nat where "LOGIN_IP_LIMIT = 20"
definition LOGIN_EMAIL_LIMIT :: nat where "LOGIN_EMAIL_LIMIT = 8"
definition LOGIN_WINDOW_MS :: int where "LOGIN_WINDOW_MS = 15 * 60 * 1000"

definition login_email_key :: "string \<Rightarrow> string" where
  "login_email_key email = ''login-email:'' @ map lower_char email"

definition login_ip_key :: "string option \<Rightarrow> string" where
  "login_ip_key ip = ''login-ip:'' @ (case ip of None \<Rightarrow> ''unknown'' | Some a \<Rightarrow> a)"

definition login ::
  "(string \<Rightarrow> string \<Rightarrow> bool) \<Rightarrow> date \<Rightarrow> string \<Rightarrow> string \<Rightarrow> string option \<Rightarrow> sign_in auth_op" where
  "login compare now email password ip s =
     (case consume now (login_ip_key ip) LOGIN_IP_LIMIT LOGIN_WINDOW_MS (gs_limits s) of
        (Inl e, l1) \<Rightarrow> (Inl e, s\<lparr>gs_limits := l1\<rparr>)
      | (Inr _, l1) \<Rightarrow>
          (case consume now (login_email_key email) LOGIN_EMAIL_LIMIT LOGIN_WINDOW_MS l1 of
             (Inl e, l2) \<Rightarrow> (Inl e, s\<lparr>gs_limits := l2\<rparr>)
           | (Inr _, l2) \<Rightarrow>
               (let s2 = s\<lparr>gs_limits := l2\<rparr> in
                case user_by_email email (gs_db s) of
                  None \<Rightarrow> (Inl (UnauthorizedException (msg ''Invalid email or password'')), s2)
                | Some u \<Rightarrow>
                    if \<not> compare password (us_passwordHash u)
                    then (Inl (UnauthorizedException (msg ''Invalid email or password'')), s2)
                    else
                      (let s3 = s2\<lparr>gs_limits := reset_limit (login_email_key email) (reset_limit (login_ip_key ip) l2)\<rparr> in
                       case memberships_of (us_id u) (gs_db s) of
                         [] \<Rightarrow> (Inl (UnauthorizedException (msg ''This account has no company membership'')), s3)
                       | m # _ \<Rightarrow>
                           if us_totpEnabledAt u \<noteq> None then (Inr (Requires_2fa (us_id u)), s3)
                           else (case issueAccessToken now m (gs_db s) of
                                   (au, db1) \<Rightarrow> (Inr (Signed_in au), s3\<lparr>gs_db := db1\<rparr>))))))"

definition update_user :: "uid \<Rightarrow> (app_user \<Rightarrow> app_user) \<Rightarrow> access_db \<Rightarrow> access_db" where
  "update_user i f db = db\<lparr>ad_users := update_rows (\<lambda>u. us_id u = i) f (ad_users db)\<rparr>"

definition VERIFY_LIMIT :: nat where "VERIFY_LIMIT = 8"
definition VERIFY_WINDOW_MS :: int where "VERIFY_WINDOW_MS = 15 * 60 * 1000"

fun findBackupCodeIndex :: "(string \<Rightarrow> string \<Rightarrow> bool) \<Rightarrow> string list \<Rightarrow> string \<Rightarrow> nat option" where
  "findBackupCodeIndex compare [] candidate = None"
| "findBackupCodeIndex compare (h # hs) candidate =
     (if compare (map upper_char candidate) h then Some 0
      else map_option Suc (findBackupCodeIndex compare hs candidate))"

definition verifyCodeForUser ::
  "(string \<Rightarrow> string \<Rightarrow> bool) \<Rightarrow> (string \<Rightarrow> string \<Rightarrow> bool) \<Rightarrow> (auth_state \<Rightarrow> auth_state) \<Rightarrow> date \<Rightarrow>
   string \<Rightarrow> uid \<Rightarrow> string \<Rightarrow> bool auth_op" where
  "verifyCodeForUser compare totp env now key userId code s =
     (case consume now key VERIFY_LIMIT VERIFY_WINDOW_MS (gs_limits s) of
        (Inl e, l1) \<Rightarrow> (Inl e, s\<lparr>gs_limits := l1\<rparr>)
      | (Inr _, l1) \<Rightarrow>
          (let s1 = s\<lparr>gs_limits := l1\<rparr> in
           case find_user userId (gs_db s) of
             None \<Rightarrow> (Inr False, s1)
           | Some u \<Rightarrow>
               (case (us_totpSecret u, us_totpEnabledAt u) of
                  (Some secret, Some _) \<Rightarrow>
                    if totp code secret then (Inr True, s1\<lparr>gs_limits := reset_limit key l1\<rparr>)
                    else
                      (case findBackupCodeIndex compare (us_totpBackupCodes u) code of
                         None \<Rightarrow> (Inr False, s1)
                       | Some n \<Rightarrow>
                           (let remaining = take n (us_totpBackupCodes u) @ drop (Suc n) (us_totpBackupCodes u);
                                s2 = env s1
                            in (Inr True, s2\<lparr>gs_db := update_user userId (\<lambda>u. u\<lparr>us_totpBackupCodes := remaining\<rparr>) (gs_db s2),
                                             gs_limits := reset_limit key (gs_limits s2)\<rparr>)))
                | _ \<Rightarrow> (Inr False, s1))))"

definition verifyChallenge ::
  "(string \<Rightarrow> string \<Rightarrow> bool) \<Rightarrow> (string \<Rightarrow> string \<Rightarrow> bool) \<Rightarrow> (auth_state \<Rightarrow> auth_state) \<Rightarrow> (uid \<Rightarrow> string) \<Rightarrow> date \<Rightarrow>
   (uid \<times> string option) option \<Rightarrow> string \<Rightarrow> sign_in auth_op" where
  "verifyChallenge compare totp env key now payload code s =
     (case payload of
        Some (userId, Some kind) \<Rightarrow>
          if kind \<noteq> ''2fa_challenge''
          then (Inl (UnauthorizedException (msg ''Invalid or expired challenge'')), s)
          else
            (case verifyCodeForUser compare totp env now (key userId) userId code s of
               (Inl e, s1) \<Rightarrow> (Inl e, s1)
             | (Inr False, s1) \<Rightarrow> (Inl (UnauthorizedException (msg ''Invalid code'')), s1)
             | (Inr True, s1) \<Rightarrow>
                 (case memberships_of userId (gs_db s1) of
                    [] \<Rightarrow> (Inl (UnauthorizedException (msg ''This account has no company membership'')), s1)
                  | m # _ \<Rightarrow>
                      (case issueAccessToken now m (gs_db s1) of (au, db1) \<Rightarrow> (Inr (Signed_in au), s1\<lparr>gs_db := db1\<rparr>))))
      | _ \<Rightarrow> (Inl (UnauthorizedException (msg ''Invalid or expired challenge'')), s))"

text \<open>The payload of the challenge of an invite: account, invite token, kind.\<close>

definition completeAcceptAfterTwoFactor ::
  "(string \<Rightarrow> string) \<Rightarrow> (string \<Rightarrow> string \<Rightarrow> bool) \<Rightarrow> (string \<Rightarrow> string \<Rightarrow> bool) \<Rightarrow> (auth_state \<Rightarrow> auth_state) \<Rightarrow>
   (access_db \<Rightarrow> access_db) \<Rightarrow> (uid \<Rightarrow> string) \<Rightarrow> date \<Rightarrow> (uid \<times> string \<times> string option) option \<Rightarrow> string \<Rightarrow> sign_in auth_op" where
  "completeAcceptAfterTwoFactor sha compare totp env env' key now payload code s =
     (case payload of
        Some (userId, token, Some kind) \<Rightarrow>
          if kind \<noteq> ''invite_2fa_challenge''
          then (Inl (UnauthorizedException (msg ''Invalid or expired challenge'')), s)
          else
            (case verifyCodeForUser compare totp env now (key userId) userId code s of
               (Inl e, s1) \<Rightarrow> (Inl e, s1)
             | (Inr False, s1) \<Rightarrow> (Inl (UnauthorizedException (msg ''Invalid code'')), s1)
             | (Inr True, s1) \<Rightarrow>
                 (case getByToken sha now token (gs_db s1) of
                    Inl e \<Rightarrow> (Inl e, s1)
                  | Inr ivt \<Rightarrow>
                      (case assertSeatAvailable now (iv_companyId ivt) (Some (iv_id ivt)) (gs_db s1) of
                         Inl e \<Rightarrow> (Inl e, s1)
                       | Inr _ \<Rightarrow>
                           (case finalizeAcceptance now ivt (Inl userId) (env' (gs_db s1)) of
                              (r, db1) \<Rightarrow> (r, s1\<lparr>gs_db := db1\<rparr>)))))
      | _ \<Rightarrow> (Inl (UnauthorizedException (msg ''Invalid or expired challenge'')), s))"

text \<open>Setting the second factor up: \<open>encrypted\<close> is the stored form of the new secret.\<close>

definition setup_2fa :: "(string \<Rightarrow> string \<Rightarrow> bool) \<Rightarrow> uid \<Rightarrow> string option \<Rightarrow> string \<Rightarrow> unit access_op" where
  "setup_2fa compare userId currentPassword encrypted db =
     (case find_user userId db of
        None \<Rightarrow> (Inl RecordNotFound, db)
      | Some u \<Rightarrow>
          if us_totpEnabledAt u \<noteq> None \<and> (\<not> truthy currentPassword \<or> \<not> compare (the currentPassword) (us_passwordHash u))
          then (Inl (UnauthorizedException (msg ''Current password is required to replace an active authenticator'')), db)
          else (Inr (), update_user userId (\<lambda>u. u\<lparr>us_pendingTotpSecret := Some encrypted\<rparr>) db))"

definition enable_2fa ::
  "(string \<Rightarrow> string \<Rightarrow> bool) \<Rightarrow> date \<Rightarrow> uid \<Rightarrow> string \<Rightarrow> string list \<Rightarrow> unit access_op" where
  "enable_2fa totp now userId code hashedCodes db =
     (case find_user userId db of
        None \<Rightarrow> (Inl RecordNotFound, db)
      | Some u \<Rightarrow>
          if \<not> truthy (us_pendingTotpSecret u) then (Inl (BadRequestException (msg ''Call setup first'')), db)
          else if \<not> totp code (the (us_pendingTotpSecret u)) then (Inl (BadRequestException (msg ''Invalid code'')), db)
          else (Inr (), update_user userId (\<lambda>x. x\<lparr>us_totpSecret := us_pendingTotpSecret u, us_pendingTotpSecret := None,
                  us_totpEnabledAt := Some now, us_totpBackupCodes := hashedCodes\<rparr>) db))"

definition disable_2fa :: "(string \<Rightarrow> string \<Rightarrow> bool) \<Rightarrow> uid \<Rightarrow> string \<Rightarrow> unit access_op" where
  "disable_2fa compare userId password db =
     (case find_user userId db of
        None \<Rightarrow> (Inl RecordNotFound, db)
      | Some u \<Rightarrow>
          if \<not> compare password (us_passwordHash u) then (Inl (UnauthorizedException (msg ''Invalid password'')), db)
          else (Inr (), update_user userId (\<lambda>x. x\<lparr>us_totpSecret := None, us_pendingTotpSecret := None,
                  us_totpEnabledAt := None, us_totpBackupCodes := []\<rparr>) db))"

subsection \<open>Resetting a password\<close>

definition TOKEN_TTL_MS :: int where "TOKEN_TTL_MS = 60 * 60 * 1000"
definition FORGOT_PASSWORD_LIMIT :: nat where "FORGOT_PASSWORD_LIMIT = 5"
definition FORGOT_PASSWORD_WINDOW_MS :: int where "FORGOT_PASSWORD_WINDOW_MS = 15 * 60 * 1000"

definition INVALID_RESET_LINK :: app_error where
  "INVALID_RESET_LINK = BadRequestException (msg ''This reset link is invalid or has expired'')"

definition forgotPassword :: "(string \<Rightarrow> string) \<Rightarrow> date \<Rightarrow> string \<Rightarrow> string \<Rightarrow> unit auth_op" where
  "forgotPassword sha now email rawToken s =
     (case consume now (''forgot-password:'' @ map lower_char email) FORGOT_PASSWORD_LIMIT FORGOT_PASSWORD_WINDOW_MS
             (gs_limits s) of
        (Inl e, l1) \<Rightarrow> (Inl e, s\<lparr>gs_limits := l1\<rparr>)
      | (Inr _, l1) \<Rightarrow>
          (case user_by_email email (gs_db s) of
             None \<Rightarrow> (Inr (), s\<lparr>gs_limits := l1\<rparr>)
           | Some u \<Rightarrow>
               (let db = gs_db s;
                    t = \<lparr>rt_id = ad_uid db, rt_userId = us_id u, rt_tokenHash = sha rawToken,
                      rt_expiresAt = now + TOKEN_TTL_MS, rt_usedAt = None\<rparr>
                in if \<exists>x \<in> set (ad_resetTokens db). rt_tokenHash x = sha rawToken
                   then (Inl (UniqueViolation ''tokenHash''), s\<lparr>gs_limits := l1\<rparr>)
                   else (Inr (), s\<lparr>gs_limits := l1,
                     gs_db := db\<lparr>ad_resetTokens := ad_resetTokens db @ [t], ad_uid := Suc (ad_uid db)\<rparr>\<rparr>))))"

definition strictest_policy :: "uid \<Rightarrow> access_db \<Rightarrow> nat \<times> bool" where
  "strictest_policy userId db =
     (let policies = map (\<lambda>m. find_row (\<lambda>c. cy_id c = mb_companyId m) (ad_companies db)) (memberships_of userId db)
      in fold (\<lambda>p (n, sym). case p of None \<Rightarrow> (n, sym)
            | Some c \<Rightarrow> (max n (cy_passwordMinLength c), sym \<or> cy_passwordRequireSymbol c)) policies (8, False))"

text \<open>The transaction: the link is claimed by one conditional write.\<close>

definition reset_tx :: "date \<Rightarrow> reset_token \<Rightarrow> string \<Rightarrow> access_db \<Rightarrow> app_error + access_db" where
  "reset_tx now r passwordHash db =
     (let claim = (\<lambda>t. rt_id t = rt_id r \<and> rt_usedAt t = None \<and> now < rt_expiresAt t) in
      if length (filter claim (ad_resetTokens db)) \<noteq> 1 then Inl INVALID_RESET_LINK
      else
        (let db1 = db\<lparr>ad_resetTokens := update_rows claim (\<lambda>t. t\<lparr>rt_usedAt := Some now\<rparr>) (ad_resetTokens db)\<rparr> in
         if find_user (rt_userId r) db1 = None then Inl RecordNotFound
         else Inr (revoke_sessions (\<lambda>s. se_userId s = rt_userId r) now
                (update_user (rt_userId r) (\<lambda>u. u\<lparr>us_passwordHash := passwordHash\<rparr>) db1))))"

definition resetPassword ::
  "(string \<Rightarrow> string) \<Rightarrow> (access_db \<Rightarrow> access_db) \<Rightarrow> date \<Rightarrow> date \<Rightarrow> string \<Rightarrow> string \<Rightarrow> string \<Rightarrow> unit access_op" where
  "resetPassword sha env now now' token password passwordHash db =
     (case find_row (\<lambda>t. rt_tokenHash t = sha token) (ad_resetTokens db) of
        None \<Rightarrow> (Inl INVALID_RESET_LINK, db)
      | Some r \<Rightarrow>
          if rt_usedAt r \<noteq> None \<or> rt_expiresAt r < now then (Inl INVALID_RESET_LINK, db)
          else
            (case strictest_policy (rt_userId r) db of
               (minLength, requireSymbol) \<Rightarrow>
                 (case assertPasswordPolicy password minLength requireSymbol of
                    Inl e \<Rightarrow> (Inl e, db)
                  | Inr _ \<Rightarrow>
                      (case reset_tx now' r passwordHash (env db) of
                         Inl e \<Rightarrow> (Inl e, env db)
                       | Inr db1 \<Rightarrow> (Inr (), db1)))))"

subsection \<open>The guard of every internal request\<close>

text \<open>\<open>header.split('' '')\<close> with the first two parts.\<close>

definition extractBearerToken :: "string option \<Rightarrow> string option" where
  "extractBearerToken header =
     (case header of
        None \<Rightarrow> None
      | Some h \<Rightarrow>
          (let kind = takeWhile (\<lambda>c. c \<noteq> CHR '' '') h;
               rest = dropWhile (\<lambda>c. c \<noteq> CHR '' '') h
           in if kind = ''Bearer'' \<and> rest \<noteq> [] then Some (takeWhile (\<lambda>c. c \<noteq> CHR '' '') (tl rest)) else None))"

text \<open>\<open>verify\<close> is \<open>jwtService.verifyAsync\<close>: the signed record and its \<open>kind\<close>, or \<open>None\<close>.\<close>

definition jwt_guard ::
  "(string \<Rightarrow> (auth_user \<times> string option) option) \<Rightarrow> date \<Rightarrow> bool \<Rightarrow> string option \<Rightarrow> perm_state \<Rightarrow>
   auth_user option access_op" where
  "jwt_guard verify now isPublic header perms db =
     (if isPublic then (Inr None, db)
      else if \<not> truthy (extractBearerToken header)
      then (Inl (UnauthorizedException (msg ''Missing bearer token'')), db)
      else
        (case verify (the (extractBearerToken header)) of
           None \<Rightarrow> (Inl (UnauthorizedException (msg ''Invalid or expired token'')), db)
         | Some (payload, kind) \<Rightarrow>
             if truthy kind then (Inl (UnauthorizedException (msg ''Invalid or expired token'')), db)
             else
               (case (case au_sid payload of None \<Rightarrow> (True, db)
                      | Some sid \<Rightarrow> stillActive now sid (au_companyId payload) db) of
                  (False, db1) \<Rightarrow> (Inl (UnauthorizedException (msg ''Session has been signed out'')), db1)
                | (True, db1) \<Rightarrow>
                    (case find_membership (au_userId payload) (au_companyId payload) db1 of
                       None \<Rightarrow> (Inl (UnauthorizedException (msg ''You're no longer a member of this company'')), db1)
                     | Some m \<Rightarrow>
                         (let custom = custom_role_of m db1 in
                          (Inr (Some (payload\<lparr>au_role := mb_role m,
                              au_additionalRoles := map_option ro_basePermissions custom,
                              au_permissions := Some (fst (effectiveFor (\<lambda>s. s) now now (au_companyId payload) (mb_role m)
                                (map_option (\<lambda>r. (ro_basePermissions r, ro_extraPermissions r)) custom) perms))\<rparr>)), db1))))))"

end
