(* ===== verification/Permission_Laws.thy ===== *)
theory Permission_Laws
  imports Permissions
begin

section \<open>What a company's permission settings can and cannot do\<close>

text \<open>
  The capabilities of a member in closed form, the invariant of the stored overrides (one row per
  cell, only differences from the default, none for the owner), and the cache: on one instance that
  serves one request at a time it is never out of date.
\<close>

subsection \<open>Capabilities in closed form\<close>

lemma set_js_add [simp]: "set (js_add x xs) = insert x (set xs)"
  by (auto simp: js_add_def)

lemma set_fold_js_add [simp]: "set (fold js_add ys xs) = set xs \<union> set ys"
  by (induction ys arbitrary: xs) auto

text \<open>The last override of a cell decides it.\<close>

definition decided :: "permission_override list \<Rightarrow> membership_role \<Rightarrow> permission \<Rightarrow> bool option" where
  "decided overrides r p =
     map_option po_granted (find_row (\<lambda>v. po_role v = r \<and> po_permission v = p) (rev overrides))"

definition role_holds :: "permission_override list \<Rightarrow> membership_role \<Rightarrow> permission \<Rightarrow> bool" where
  "role_holds overrides r p =
     (if r = Owner then p \<in> set PERMISSION_KEYS
      else case decided overrides r p of None \<Rightarrow> p \<in> set (DEFAULT_GRANTS r) | Some g \<Rightarrow> g)"

lemma mem_fold_override:
  "p \<in> set (fold (apply_override r) overrides granted) \<longleftrightarrow>
     (case decided overrides r p of None \<Rightarrow> p \<in> set granted | Some g \<Rightarrow> g)"
proof (induction overrides arbitrary: granted rule: rev_induct)
  case (snoc v overrides)
  then show ?case
    by (auto simp: apply_override_def decided_def row_simps split: option.splits)
qed (simp add: decided_def row_simps)

lemma mem_forRole: "p \<in> set (forRole overrides r) \<longleftrightarrow> role_holds overrides r p"
  by (auto simp: forRole_def role_holds_def LOCKED_ROLES_def mem_fold_override)

lemma mem_effective_None [simp]: "p \<in> set (effectivePermissions role overrides None) \<longleftrightarrow> role_holds overrides role p"
  by (simp add: effectivePermissions_def mem_forRole)

lemma set_fold_bases:
  "set (fold (\<lambda>base. fold js_add (forRole overrides base)) bases xs) = set xs \<union> (\<Union>b \<in> set bases. set (forRole overrides b))"
  by (induction bases arbitrary: xs) auto

lemma set_fold_extra:
  "set (fold (\<lambda>p r. if isPermission p then js_add p r else r) extra xs) = set xs \<union> {p \<in> set extra. isPermission p}"
  by (induction extra arbitrary: xs) auto

text \<open>The capabilities of a member, on every branch: the owner holds every permission whatever the
  settings say; any other role holds what the last override of that cell says, or its default when
  there is none; a custom role only adds, the capabilities of its base roles under the same overrides
  and those of its extra permissions that exist.\<close>

theorem effective_permissions_exact:
  "p \<in> set (effectivePermissions role overrides customRole) \<longleftrightarrow>
     role_holds overrides role p \<or>
     (\<exists>baseRoles extra. customRole = Some (baseRoles, extra) \<and>
        ((\<exists>b \<in> set baseRoles. role_holds overrides b p) \<or> (p \<in> set extra \<and> isPermission p)))"
  by (auto simp: effectivePermissions_def Let_def set_fold_extra set_fold_bases mem_forRole split: option.splits)

subsection \<open>The stored overrides\<close>

definition cell_key :: "stored_override \<Rightarrow> uid \<times> membership_role \<times> string" where
  "cell_key r = (so_companyId r, so_role r, so_permission r)"

definition override_ok :: "stored_override \<Rightarrow> bool" where
  "override_ok r \<longleftrightarrow> so_role r \<noteq> Owner \<and> isPermission (so_permission r) \<and>
     so_granted r \<noteq> (so_permission r \<in> set (DEFAULT_GRANTS (so_role r)))"

definition overrides_inv :: "perm_state \<Rightarrow> bool" where
  "overrides_inv s \<longleftrightarrow>
     distinct (map cell_key (pm_overrides s)) \<and>
     (\<forall>r \<in> set (pm_overrides s). override_ok r)"

definition cache_inv :: "perm_state \<Rightarrow> bool" where
  "cache_inv s \<longleftrightarrow> (\<forall>c readAt rows. pm_cache s c = Some (readAt, rows) \<longrightarrow> rows = stored_for c (pm_overrides s))"

definition perm_inv :: "perm_state \<Rightarrow> bool" where
  "perm_inv s \<longleftrightarrow> overrides_inv s \<and> cache_inv s"

lemma same_cell_key: "same_cell c r p = (\<lambda>x. cell_key x = (c, r, p))"
  by (auto simp: same_cell_def cell_key_def)

lemma stored_for_filter:
  "(\<And>r. r \<in> set rows \<Longrightarrow> so_companyId r = c \<Longrightarrow> q r) \<Longrightarrow> stored_for c (filter q rows) = stored_for c rows"
  by (induction rows) (auto simp: stored_for_def)

lemma stored_for_upsert_other:
  assumes "c \<noteq> c'" and "so_companyId new = c'" and "\<And>r. cell_key (f r) = cell_key r"
  shows "stored_for c (upsert_row (same_cell c' role p) new f rows) = stored_for c rows"
proof -
  have "stored_for c (update_rows (same_cell c' role p) f rows) = stored_for c rows"
  proof (induction rows)
    case (Cons r rows)
    from assms(3) [of r] have "so_companyId (f r) = so_companyId r" by (simp add: cell_key_def)
    with Cons assms(1) show ?case by (auto simp: stored_for_def update_rows_def same_cell_def)
  qed (simp add: stored_for_def update_rows_def)
  then show ?thesis using assms(1,2) by (auto simp: upsert_row_def stored_for_def)
qed

lemma overrides_inv_filter: "overrides_inv s \<Longrightarrow> overrides_inv (s\<lparr>pm_overrides := filter q (pm_overrides s)\<rparr>)"
  by (auto simp: overrides_inv_def distinct_map_filter)

lemma overrides_inv_cache [simp]: "overrides_inv (s\<lparr>pm_cache := c\<rparr>) = overrides_inv s"
  by (simp add: overrides_inv_def)

lemma overrides_inv_drop_cache [simp]: "overrides_inv (drop_cache c s) = overrides_inv s"
  by (simp add: drop_cache_def)

lemma cache_inv_write:
  assumes "cache_inv s" and "\<And>c'. c' \<noteq> c \<Longrightarrow> stored_for c' rows = stored_for c' (pm_overrides s)"
  shows "cache_inv (drop_cache c (s\<lparr>pm_overrides := rows\<rparr>))"
  using assms by (auto simp: cache_inv_def drop_cache_def)

text \<open>The rows a change leaves when it is not refused.\<close>

definition granted_rows ::
  "uid \<Rightarrow> uid option \<Rightarrow> membership_role \<Rightarrow> string \<Rightarrow> bool \<Rightarrow> stored_override list \<Rightarrow> stored_override list" where
  "granted_rows c actorId role p g rows =
     (if (p \<in> set (DEFAULT_GRANTS role)) = g then filter (\<lambda>r. \<not> same_cell c role p r) rows
      else upsert_row (same_cell c role p)
        \<lparr>so_companyId = c, so_role = role, so_permission = p, so_granted = g, so_updatedByUserId = actorId\<rparr>
        (\<lambda>r. r\<lparr>so_granted := g, so_updatedByUserId := actorId\<rparr>) rows)"

lemma setGrant_cases:
  assumes "setGrant c actorId actorRole role p g s = (res, s')"
  shows "(isl res \<and> s' = s) \<or>
    (\<not> isl res \<and> isPermission p \<and> role \<noteq> Owner \<and> (role = Admin \<longrightarrow> actorRole = Owner) \<and>
     s' = drop_cache c (s\<lparr>pm_overrides := granted_rows c actorId role p g (pm_overrides s)\<rparr>))"
proof -
  note def = setGrant_def [of c actorId actorRole role p g s, unfolded Let_def, folded granted_rows_def]
  have unlocked: "role \<noteq> Owner" if "role \<notin> set LOCKED_ROLES" using that by (simp add: LOCKED_ROLES_def)
  show ?thesis
  proof (cases "\<not> isPermission p \<or> role \<in> set LOCKED_ROLES \<or> (role = Admin \<and> actorRole \<noteq> Owner)")
    case True
    then have "isl (fst (setGrant c actorId actorRole role p g s)) \<and> snd (setGrant c actorId actorRole role p g s) = s"
      unfolding def by auto
    with assms show ?thesis by simp
  next
    case False
    with assms have "(Inr ((p \<in> set (DEFAULT_GRANTS role)) = g),
        drop_cache c (s\<lparr>pm_overrides := granted_rows c actorId role p g (pm_overrides s)\<rparr>)) = (res, s')"
      unfolding def by (simp only: de_Morgan_disj de_Morgan_conj not_not if_False simp_thms split: if_splits)
    with False unlocked show ?thesis by auto
  qed
qed

lemma granted_rows_inv:
  assumes "overrides_inv s" and "role \<noteq> Owner" and "isPermission p"
  shows "overrides_inv (s\<lparr>pm_overrides := granted_rows c actorId role p g (pm_overrides s)\<rparr>)"
proof (cases "(p \<in> set (DEFAULT_GRANTS role)) = g")
  case True
  then show ?thesis using assms(1) by (simp add: granted_rows_def overrides_inv_filter)
next
  case False
  let ?ups = "upsert_row (same_cell c role p)
     \<lparr>so_companyId = c, so_role = role, so_permission = p, so_granted = g, so_updatedByUserId = actorId\<rparr>
     (\<lambda>r. r\<lparr>so_granted := g, so_updatedByUserId := actorId\<rparr>) (pm_overrides s)"
  have "distinct (map cell_key ?ups)"
    using assms(1) unfolding same_cell_key by (intro distinct_keys_upsert) (auto simp: overrides_inv_def cell_key_def)
  moreover have "\<forall>r \<in> set ?ups. override_ok r"
  proof -
    have "override_ok r" if "so_role r = role" "so_permission r = p" "so_granted r = g" for r
      unfolding override_ok_def that using assms(2,3) False by (simp only: simp_thms)
    moreover have "\<forall>r \<in> set (pm_overrides s). override_ok r" using assms(1) by (simp add: overrides_inv_def)
    ultimately show ?thesis by (auto simp: upsert_row_def update_rows_def same_cell_def)
  qed
  ultimately show ?thesis using False by (simp add: granted_rows_def overrides_inv_def)
qed

lemma granted_rows_other:
  "c' \<noteq> c \<Longrightarrow> stored_for c' (granted_rows c actorId role p g rows) = stored_for c' rows"
  by (auto simp: granted_rows_def stored_for_upsert_other cell_key_def same_cell_def intro!: stored_for_filter)

lemma setGrant_inv: "perm_inv s \<Longrightarrow> perm_inv (snd (setGrant c actorId actorRole role p g s))"
  using setGrant_cases [of c actorId actorRole role p g s "fst (setGrant c actorId actorRole role p g s)"
      "snd (setGrant c actorId actorRole role p g s)"]
  by (auto simp: perm_inv_def granted_rows_inv intro!: cache_inv_write granted_rows_other)

lemma reset_inv: "perm_inv s \<Longrightarrow> perm_inv (snd (resetToDefaults companyId actorRole role s))"
proof -
  assume inv: "perm_inv s"
  have "cache_inv (drop_cache companyId (s\<lparr>pm_overrides := filter (\<lambda>r. \<not> reset_where companyId actorRole role r) (pm_overrides s)\<rparr>))"
    using inv by (intro cache_inv_write stored_for_filter) (auto simp: perm_inv_def reset_where_def)
  then show ?thesis using inv by (simp add: resetToDefaults_def perm_inv_def overrides_inv_filter)
qed

lemma overridesFor_read:
  assumes "perm_inv s"
  shows "fst (overridesFor (\<lambda>s. s) now now' c s) = stored_for c (pm_overrides s)"
    and "perm_inv (snd (overridesFor (\<lambda>s. s) now now' c s))"
    and "pm_overrides (snd (overridesFor (\<lambda>s. s) now now' c s)) = pm_overrides s"
  using assms by (auto simp: overridesFor_def Let_def perm_inv_def cache_inv_def overrides_inv_def split: option.splits)

text \<open>What one cell says under the stored rows.\<close>

definition stored_cell :: "perm_state \<Rightarrow> uid \<Rightarrow> membership_role \<Rightarrow> permission \<Rightarrow> bool option" where
  "stored_cell s c r p = map_option so_granted (find_row (same_cell c r p) (pm_overrides s))"

lemma find_row_rev_key:
  "distinct (map key rows) \<Longrightarrow> find_row (\<lambda>x. key x = k) (rev rows) = find_row (\<lambda>x. key x = k) rows"
proof (cases "find_row (\<lambda>x. key x = k) rows")
  case None
  then have "find_row (\<lambda>x. key x = k) (rev rows) = None" by (simp add: find_row_None)
  with None show ?thesis by simp
next
  case (Some r)
  moreover assume "distinct (map key rows)"
  ultimately show ?thesis using find_row_key [of key "rev rows" r k] find_row_SomeD [OF Some] by (simp add: rev_map [symmetric])
qed

lemma decided_stored:
  assumes "overrides_inv s"
  shows "decided (stored_for c (pm_overrides s)) r p = stored_cell s c r p"
proof -
  have perm: "\<forall>x \<in> set rows. isPermission (so_permission x) \<Longrightarrow>
      map_option po_granted (find_row (\<lambda>v. po_role v = r \<and> po_permission v = p) (stored_for c rows)) =
      map_option so_granted (find_row (same_cell c r p) rows)" for rows
    by (induction rows) (auto simp: stored_for_def row_simps same_cell_def)
  have "rev (stored_for c (pm_overrides s)) = stored_for c (rev (pm_overrides s))"
    by (simp add: stored_for_def rev_map rev_filter)
  then show ?thesis
    using assms perm [of "rev (pm_overrides s)"] find_row_rev_key [of cell_key "pm_overrides s" "(c, r, p)"]
    by (simp add: decided_def stored_cell_def overrides_inv_def override_ok_def same_cell_key)
qed

text \<open>The capabilities of a role in a company, as the service computes them at a given moment.\<close>

definition role_capability :: "perm_state \<Rightarrow> uid \<Rightarrow> membership_role \<Rightarrow> permission \<Rightarrow> bool" where
  "role_capability s c r p \<longleftrightarrow>
     (\<forall>now now'. p \<in> set (fst (effectiveFor (\<lambda>s. s) now now' c r None s)))"

lemma effectiveFor_current:
  "perm_inv s \<Longrightarrow> fst (effectiveFor (\<lambda>s. s) now now' c r custom s) =
     effectivePermissions r (stored_for c (pm_overrides s)) custom"
  using overridesFor_read(1) [of s now now' c] by (cases "overridesFor (\<lambda>s. s) now now' c s") (simp add: effectiveFor_def)

lemma role_capability_eq:
  "perm_inv s \<Longrightarrow> role_capability s c r p =
     (if r = Owner then p \<in> set PERMISSION_KEYS
      else case stored_cell s c r p of None \<Rightarrow> p \<in> set (DEFAULT_GRANTS r) | Some g \<Rightarrow> g)"
  by (simp add: role_capability_def effectiveFor_current role_holds_def decided_stored perm_inv_def)

lemma stored_cell_filter:
  assumes "overrides_inv s" and "\<And>r. same_cell c role p r \<Longrightarrow> q r"
  shows "stored_cell (s\<lparr>pm_overrides := filter q (pm_overrides s)\<rparr>) c role p = stored_cell s c role p"
proof -
  have "find_row (same_cell c role p) (filter q rows) = find_row (same_cell c role p) rows" for rows
    using assms(2) by (induction rows) (auto simp: row_simps)
  then show ?thesis by (simp add: stored_cell_def)
qed

lemma stored_cell_dropped:
  "(\<And>r. same_cell c role p r \<Longrightarrow> \<not> q r) \<Longrightarrow>
     stored_cell (s\<lparr>pm_overrides := filter q (pm_overrides s)\<rparr>) c role p = None"
  by (auto simp: stored_cell_def find_row_None)

lemma stored_cell_drop_cache [simp]: "stored_cell (drop_cache c' s) c r p = stored_cell s c r p"
  by (simp add: stored_cell_def drop_cache_def)

lemma stored_cell_granted_rows:
  assumes "overrides_inv s"
  shows "stored_cell (s\<lparr>pm_overrides := granted_rows c a role p g (pm_overrides s)\<rparr>) c' r' p' =
    (if (c', r', p') = (c, role, p)
     then (if (p \<in> set (DEFAULT_GRANTS role)) = g then None else Some g)
     else stored_cell s c' r' p')"
proof (cases "(p \<in> set (DEFAULT_GRANTS role)) = g")
  case True
  then show ?thesis
    using stored_cell_filter [OF assms, of c' r' p' "\<lambda>x. \<not> same_cell c role p x"]
      stored_cell_dropped [of c' r' p' "\<lambda>x. \<not> same_cell c role p x" s]
    by (auto simp: granted_rows_def same_cell_def)
next
  case False
  have "find_row (\<lambda>x. cell_key x = (c', r', p')) (upsert_row (\<lambda>x. cell_key x = (c, role, p))
        \<lparr>so_companyId = c, so_role = role, so_permission = p, so_granted = g, so_updatedByUserId = a\<rparr>
        (\<lambda>x. x\<lparr>so_granted := g, so_updatedByUserId := a\<rparr>) (pm_overrides s)) =
     (if (c', r', p') = (c, role, p)
      then Some (case find_row (\<lambda>x. cell_key x = (c', r', p')) (pm_overrides s) of
          None \<Rightarrow> \<lparr>so_companyId = c, so_role = role, so_permission = p, so_granted = g, so_updatedByUserId = a\<rparr>
        | Some x \<Rightarrow> x\<lparr>so_granted := g, so_updatedByUserId := a\<rparr>)
      else find_row (\<lambda>x. cell_key x = (c', r', p')) (pm_overrides s))"
    by (rule find_row_upsert) (simp_all add: cell_key_def)
  then show ?thesis
    using False by (auto simp: granted_rows_def stored_cell_def same_cell_key split: option.splits)
qed

text \<open>A change of one cell of the permission matrix does exactly that, at once on the instance
  that made it: afterwards the role holds the capability if and only if it was granted, and every
  other capability of every role in every company is what it was.\<close>

theorem permission_change_exact:
  assumes "perm_inv s" and "setGrant companyId actorId actorRole role permission granted s = (Inr d, s')"
  shows "role_capability s' c r p =
    (if c = companyId \<and> r = role \<and> p = permission then granted else role_capability s c r p)"
proof -
  have inv': "perm_inv s'" using setGrant_inv [OF assms(1)] assms(2) by (metis snd_conv)
  from setGrant_cases [OF assms(2)] have role: "role \<noteq> Owner" and
    s': "s' = drop_cache companyId (s\<lparr>pm_overrides := granted_rows companyId actorId role permission granted (pm_overrides s)\<rparr>)"
    by auto
  have "stored_cell s' c r p =
    (if (c, r, p) = (companyId, role, permission)
     then (if (permission \<in> set (DEFAULT_GRANTS role)) = granted then None else Some granted)
     else stored_cell s c r p)"
    using assms(1) by (simp add: s' stored_cell_granted_rows perm_inv_def)
  then show ?thesis using role
    by (auto simp: role_capability_eq [OF assms(1)] role_capability_eq [OF inv'] split: if_splits)
qed

subsection \<open>Over every sequence of changes\<close>

text \<open>Any member who may open the settings sends these requests; \<open>actorRole\<close> is theirs.\<close>

inductive perm_step :: "membership_role \<Rightarrow> perm_state \<Rightarrow> perm_state \<Rightarrow> bool" where
  grant: "perm_step actorRole s (snd (setGrant companyId actorId actorRole role permission granted s))"
| reset: "perm_step actorRole s (snd (resetToDefaults companyId actorRole role s))"
| read: "perm_step actorRole s (snd (overridesFor (\<lambda>s. s) now now' companyId s))"

definition any_step :: "perm_state \<Rightarrow> perm_state \<Rightarrow> bool" where
  "any_step s t \<longleftrightarrow> (\<exists>actorRole. perm_step actorRole s t)"

definition no_settings :: "perm_state \<Rightarrow> bool" where
  "no_settings s \<longleftrightarrow> pm_overrides s = [] \<and> (\<forall>c. pm_cache s c = None)"

lemma perm_step_inv: "perm_inv s \<Longrightarrow> perm_step a s t \<Longrightarrow> perm_inv t"
  by (auto elim!: perm_step.cases intro: setGrant_inv reset_inv overridesFor_read(2))

interpretation permissions: transition_system no_settings any_step perm_inv
proof
  show "perm_inv s" if "no_settings s" for s
    using that by (simp add: no_settings_def perm_inv_def overrides_inv_def cache_inv_def)
qed (auto simp: any_step_def intro: perm_step_inv)

lemma perm_step_admin:
  assumes "perm_inv s" and "perm_step a s t" and "a \<noteq> Owner"
  shows "stored_cell t c Admin p = stored_cell s c Admin p"
  using assms(2)
proof cases
  case (grant companyId actorId role permission granted)
  then show ?thesis
    using setGrant_cases [of companyId actorId a role permission granted s "fst (setGrant companyId actorId a role permission granted s)"
        "snd (setGrant companyId actorId a role permission granted s)"] assms(1,3)
    by (auto simp: stored_cell_granted_rows perm_inv_def)
next
  case (reset companyId role)
  have "stored_cell (s\<lparr>pm_overrides := filter (\<lambda>r. \<not> reset_where companyId a role r) (pm_overrides s)\<rparr>) c Admin p =
      stored_cell s c Admin p" if "role \<noteq> Some Admin"
    using assms(1,3) that by (intro stored_cell_filter) (auto simp: perm_inv_def reset_where_def same_cell_def split: option.splits)
  then show ?thesis using reset assms(3) by (auto simp: resetToDefaults_def)
next
  case (read now now' companyId)
  then show ?thesis using overridesFor_read(3) [OF assms(1)] by (simp add: stored_cell_def)
qed

text \<open>C13  Whatever sequence of changes, resets and reads is made from a company without settings: only
  differences from the defaults are stored, at most one per cell and none for the owner; the owner
  holds every permission; and changes made by anyone but an owner leave an admin's capabilities alone.\<close>

theorem settings_never_lock_out:
  assumes "no_settings s0" and "any_step\<^sup>*\<^sup>* s0 s"
  shows "distinct (map cell_key (pm_overrides s)) \<and>
    (\<forall>r \<in> set (pm_overrides s). so_role r \<noteq> Owner \<and>
       so_granted r \<noteq> (so_permission r \<in> set (DEFAULT_GRANTS (so_role r)))) \<and>
    (\<forall>p \<in> set PERMISSION_KEYS. role_capability s c Owner p) \<and>
    (\<forall>a t p. a \<noteq> Owner \<and> perm_step a s t \<longrightarrow> role_capability t c Admin p = role_capability s c Admin p)"
proof -
  have inv: "perm_inv s" using permissions.inv_reachable assms by blast
  then have "distinct (map cell_key (pm_overrides s))" "\<forall>r \<in> set (pm_overrides s). override_ok r"
    "\<forall>p \<in> set PERMISSION_KEYS. role_capability s c Owner p"
    by (auto simp: perm_inv_def overrides_inv_def role_capability_eq)
  moreover have "role_capability t c Admin p = role_capability s c Admin p" if "a \<noteq> Owner" "perm_step a s t" for a t p
    using inv perm_step_inv [OF inv that(2)] perm_step_admin [OF inv that(2,1)] by (simp add: role_capability_eq)
  ultimately show ?thesis by (auto simp: override_ok_def)
qed

subsection \<open>Worked changes\<close>

definition settings_example :: perm_state where
  "settings_example = \<lparr>pm_overrides = [], pm_cache = (\<lambda>_. None)\<rparr>"

lemma settings_example_inv: "perm_inv settings_example"
  by (simp add: settings_example_def perm_inv_def overrides_inv_def cache_inv_def)

lemma permission_change_exact_witness:
  "fst (setGrant 1 None Admin Foreman ''costing.view'' True settings_example) = Inr False \<and>
   role_capability (snd (setGrant 1 None Admin Foreman ''costing.view'' True settings_example)) 1 Foreman ''costing.view''"
proof
  show r: "fst (setGrant 1 None Admin Foreman ''costing.view'' True settings_example) = Inr False" by code_simp
  show "role_capability (snd (setGrant 1 None Admin Foreman ''costing.view'' True settings_example)) 1 Foreman ''costing.view''"
    using permission_change_exact [OF settings_example_inv prod_eqI [of _ "(Inr False, _)", simplified, OF r refl],
        of 1 Foreman "''costing.view''"] by simp
qed

lemma settings_never_lock_out_witness:
  "role_capability (snd (setGrant 1 None Admin Worker ''projects.all'' False settings_example)) 1 Owner ''settings.roles''"
proof -
  have "''settings.roles'' \<in> set PERMISSION_KEYS" by code_simp
  moreover
  have "no_settings settings_example" by (simp add: no_settings_def settings_example_def)
  moreover have "any_step\<^sup>*\<^sup>* settings_example (snd (setGrant 1 None Admin Worker ''projects.all'' False settings_example))"
    by (rule r_into_rtranclp) (auto simp: any_step_def intro: perm_step.grant)
  ultimately show ?thesis using settings_never_lock_out by blast
qed

text \<open>Two requests on one instance: a read misses the cache and takes the rows, a foreman's right is
  revoked and the cache dropped, and only then the read puts its rows in the cache.  For the next thirty
  seconds the revoked right is still served.\<close>

definition revoke_crew_time :: "perm_state \<Rightarrow> perm_state" where
  "revoke_crew_time s = snd (setGrant 1 None Owner Foreman ''site.crewTime'' False s)"

lemma revoked_right_served_from_cache:
  "let s = snd (overridesFor revoke_crew_time 0 5 1 settings_example) in
     map (\<lambda>r. (so_role r, so_permission r, so_granted r)) (pm_overrides s) = [(Foreman, ''site.crewTime'', False)] \<and>
     ''site.crewTime'' \<in> set (fst (effectiveFor (\<lambda>s. s) 30004 30004 1 Foreman None s)) \<and>
     ''site.crewTime'' \<notin> set (fst (effectiveFor (\<lambda>s. s) 30005 30005 1 Foreman None s))"
  by code_simp

text \<open>\<open>value in PERMISSIONS\<close> accepts the names every object inherits.\<close>

lemma inherited_name_is_a_permission:
  "fst (setGrant 1 None Admin Worker ''toString'' True settings_example) = Inr False \<and>
   fst (setGrant 1 None Admin Worker ''no.such'' True settings_example) =
     Inl (BadRequestException [Str (''Unknown permission '' @ quoted ''no.such'')])"
  by code_simp

end
