(* ===== verification/JS_Text.thy ===== *)
theory JS_Text
  imports Prelude "HOL-Library.Word"
begin

section \<open>JavaScript text and bit operations\<close>

text \<open>
  What the guards and the webhook code use of the language: \<open>split\<close>, \<open>trim\<close>, \<open>Number(text)\<close>,
  \<open>parseInt(text, 16)\<close>, \<open>toString(16)\<close>, and the 32-bit operators.  A value of \<open>32 word\<close> stands for the
  number that \<open>x >>> 0\<close> makes of it.
\<close>

unbundle bit_operations_syntax

subsection \<open>Text\<close>

fun split_on :: "char \<Rightarrow> string \<Rightarrow> string list" where
  "split_on x [] = [[]]"
| "split_on x (c # cs) =
     (if c = x then [] # split_on x cs
      else (case split_on x cs of [] \<Rightarrow> [[c]] | s # ss \<Rightarrow> (c # s) # ss))"

definition is_space :: "char \<Rightarrow> bool" where
  "is_space c \<longleftrightarrow> c \<in> {CHR '' '', CHR 0x09, CHR 0x0A, CHR 0x0B, CHR 0x0C, CHR 0x0D, CHR 0xA0}"

definition js_trim :: "string \<Rightarrow> string" where
  "js_trim s = rev (dropWhile is_space (rev (dropWhile is_space s)))"

definition digit_of :: "char \<Rightarrow> nat option" where
  "digit_of c = (let n = of_char c in if 48 \<le> n \<and> n \<le> 57 then Some (n - 48) else None)"

definition hex_digit :: "char \<Rightarrow> nat option" where
  "hex_digit c =
     (let n = of_char c :: nat in
      if 48 \<le> n \<and> n \<le> 57 then Some (n - 48)
      else if 97 \<le> n \<and> n \<le> 102 then Some (n - 87)
      else if 65 \<le> n \<and> n \<le> 70 then Some (n - 55) else None)"

definition is_digit :: "char \<Rightarrow> bool" where
  "is_digit c \<longleftrightarrow> digit_of c \<noteq> None"

definition digits_value :: "nat \<Rightarrow> (char \<Rightarrow> nat option) \<Rightarrow> string \<Rightarrow> nat" where
  "digits_value base d s = foldl (\<lambda>n c. n * base + (case d c of None \<Rightarrow> 0 | Some k \<Rightarrow> k)) 0 s"

abbreviation dec_value :: "string \<Rightarrow> nat" where
  "dec_value \<equiv> digits_value 10 digit_of"

text \<open>The digits \<open>toString(10)\<close> and \<open>toString(16)\<close> write.\<close>

definition digit_char :: "nat \<Rightarrow> char" where
  "digit_char n = char_of (if n < 10 then 48 + n else 87 + n)"

fun show_base :: "nat \<Rightarrow> nat \<Rightarrow> string" where
  "show_base b n = (if b < 2 \<or> n < b then [digit_char n] else show_base b (n div b) @ [digit_char (n mod b)])"

declare show_base.simps [simp del]

abbreviation show_nat :: "nat \<Rightarrow> string" where
  "show_nat \<equiv> show_base 10"

subsection \<open>\<open>Number(text)\<close>\<close>

datatype js_number = NaN | Infinite | Finite number

definition unsigned_decimal :: "string \<Rightarrow> js_number" where
  "unsigned_decimal s =
     (let ip = takeWhile is_digit s; r = dropWhile is_digit s;
          fp = (case r of [] \<Rightarrow> [] | c # t \<Rightarrow> if c = CHR ''.'' then takeWhile is_digit t else []);
          r2 = (case r of [] \<Rightarrow> [] | c # t \<Rightarrow> if c = CHR ''.'' then dropWhile is_digit t else r);
          m = of_nat (dec_value ip) + of_nat (dec_value fp) / 10 ^ length fp
      in if ip = [] \<and> fp = [] then NaN
         else (case r2 of [] \<Rightarrow> Finite m
               | e # t \<Rightarrow>
                   if e \<noteq> CHR ''e'' \<and> e \<noteq> CHR ''E'' then NaN
                   else
                     (let neg = (t \<noteq> [] \<and> hd t = CHR ''-'');
                          k = (if t \<noteq> [] \<and> (hd t = CHR ''-'' \<or> hd t = CHR ''+'') then tl t else t)
                      in if k = [] \<or> \<not> list_all is_digit k then NaN
                         else Finite (if neg then m / 10 ^ dec_value k else m * 10 ^ dec_value k))))"

definition in_base :: "nat \<Rightarrow> string \<Rightarrow> js_number" where
  "in_base b s =
     (if s \<noteq> [] \<and> list_all (\<lambda>c. case hex_digit c of None \<Rightarrow> False | Some d \<Rightarrow> d < b) s
      then Finite (of_nat (digits_value b hex_digit s)) else NaN)"

definition negate :: "js_number \<Rightarrow> js_number" where
  "negate x = (case x of NaN \<Rightarrow> NaN | Infinite \<Rightarrow> Infinite | Finite r \<Rightarrow> Finite (- r))"

definition signed_decimal :: "string \<Rightarrow> js_number" where
  "signed_decimal s =
     (let neg = (hd s = CHR ''-''); t = (if hd s = CHR ''-'' \<or> hd s = CHR ''+'' then tl s else s);
          x = (if t = ''Infinity'' then Infinite else unsigned_decimal t)
      in if neg then negate x else x)"

definition js_Number :: "string \<Rightarrow> js_number" where
  "js_Number s =
     (let t = js_trim s; p = take 2 t in
      if t = [] then Finite 0
      else if p = ''0x'' \<or> p = ''0X'' then in_base 16 (drop 2 t)
      else if p = ''0o'' \<or> p = ''0O'' then in_base 8 (drop 2 t)
      else if p = ''0b'' \<or> p = ''0B'' then in_base 2 (drop 2 t)
      else signed_decimal t)"

subsection \<open>The 32-bit operators\<close>

text \<open>\<open>x << k\<close> uses the last five bits of \<open>k\<close>, after \<open>ToInt32\<close>.\<close>

definition to_int32 :: "number \<Rightarrow> int" where
  "to_int32 r = (if 0 \<le> r then \<lfloor>r\<rfloor> else - \<lfloor>- r\<rfloor>)"

definition js_shl :: "32 word \<Rightarrow> int \<Rightarrow> 32 word" where
  "js_shl x k = push_bit (nat (k mod 32)) x"

subsection \<open>Laws\<close>

lemma split_on_append:
  assumes "x \<notin> set s"
  shows "split_on x (s @ x # t) = s # split_on x t"
  using assms by (induction s) auto

lemma split_on_length: "t \<in> set (split_on x s) \<Longrightarrow> length t \<le> length s"
proof (induction s arbitrary: t)
  case (Cons c cs)
  obtain u us where "split_on x cs = u # us" by (cases "split_on x cs") (auto elim: split_on.elims split: list.splits if_splits)
  with Cons show ?case by (auto split: if_splits intro: le_SucI)
qed simp

lemma split_on_none: "x \<notin> set s \<Longrightarrow> split_on x s = [s]"
  by (induction s) auto

lemma show_base_digits: "1 < b \<Longrightarrow> set (show_base b n) \<subseteq> digit_char ` {..<b}"
proof (induction n rule: less_induct)
  case (less n)
  show ?case
  proof (cases "n < b")
    case False
    then have "n div b < n" using less.prems by (intro div_less_dividend) auto
    then have "set (show_base b (n div b)) \<subseteq> digit_char ` {..<b}" by (rule less.IH) (rule less.prems)
    moreover have "show_base b n = show_base b (n div b) @ [digit_char (n mod b)]"
      using False less.prems by (subst show_base.simps) simp
    ultimately show ?thesis using less.prems by simp
  qed (use less.prems in \<open>simp add: show_base.simps\<close>)
qed

lemma digit_char_value: "n < 10 \<Longrightarrow> digit_of (digit_char n) = Some n"
  by (simp add: digit_char_def digit_of_def of_char_of)

lemma hex_char_value: "n < 16 \<Longrightarrow> hex_digit (digit_char n) = Some n"
  by (auto simp: digit_char_def hex_digit_def of_char_of)

lemma digits_value_Nil [simp]: "digits_value b d [] = 0"
  by (simp add: digits_value_def)

lemma digits_value_snoc:
  "digits_value b d (s @ [c]) = digits_value b d s * b + (case d c of None \<Rightarrow> 0 | Some k \<Rightarrow> k)"
  by (simp add: digits_value_def)

lemma digits_value_show:
  assumes "1 < b" and "\<And>k. k < b \<Longrightarrow> d (digit_char k) = Some k"
  shows "digits_value b d (show_base b n) = n"
proof (induction n rule: less_induct)
  case (less n)
  show ?case
  proof (cases "n < b")
    case True
    then show ?thesis using assms by (subst show_base.simps) (simp add: digits_value_def)
  next
    case False
    then have "n div b < n" using assms(1) by (intro div_less_dividend) auto
    with less False assms show ?thesis by (subst show_base.simps) (simp add: digits_value_snoc)
  qed
qed

lemma show_base_not_Nil [simp]: "show_base b n \<noteq> []"
  by (subst show_base.simps) simp

lemma show_nat_digits: "c \<in> set (show_nat n) \<Longrightarrow> is_digit c"
  using show_base_digits [of 10 n] digit_char_value by (fastforce simp: is_digit_def)

lemma dec_value_show [simp]: "dec_value (show_nat n) = n"
  by (rule digits_value_show) (simp_all add: digit_char_value)

lemma js_Number_show: "js_Number (show_nat n) = Finite (of_nat n)"
proof -
  let ?s = "show_nat n"
  have d: "list_all is_digit ?s" using show_nat_digits by (auto simp: list_all_iff)
  then have sp: "list_all (\<lambda>c. \<not> is_space c) ?s"
    by (auto simp: list_all_iff is_space_def is_digit_def digit_of_def Let_def)
  then have trim: "js_trim ?s = ?s"
    unfolding js_trim_def by (metis (mono_tags, lifting) dropWhile_eq_self_iff hd_in_set list_all_iff rev_rev_ident set_rev)
  have w: "takeWhile is_digit ?s = ?s" "dropWhile is_digit ?s = []" using d by (simp_all add: list_all_iff)
  have h: "is_digit (hd ?s)" using d by (simp add: list_all_iff)
  then have "hd ?s \<noteq> CHR ''-''" "hd ?s \<noteq> CHR ''+''" by (auto simp: is_digit_def digit_of_def)
  moreover have "?s \<noteq> ''Infinity''" using d by (auto simp: is_digit_def digit_of_def)
  moreover have "take 2 ?s \<noteq> [a, c]" if "\<not> is_digit c" for a c
  proof
    assume "take 2 ?s = [a, c]"
    then have "c \<in> set ?s" by (metis in_set_takeD list.set_intros(1) list.set_intros(2))
    with d that show False by (auto simp: list_all_iff)
  qed
  then have "take 2 ?s \<notin> {''0x'', ''0X'', ''0o'', ''0O'', ''0b'', ''0B''}" by (simp add: is_digit_def digit_of_def)
  moreover have "unsigned_decimal ?s = Finite (of_nat n)" unfolding unsigned_decimal_def w by simp
  ultimately show ?thesis by (simp add: js_Number_def trim signed_decimal_def)
qed

end
