(* ===== verification/Project_Access.thy ===== *)
theory Project_Access
  imports Signing_In Permission_Laws JS_Text
begin

section \<open>Who sees which project\<close>

text \<open>
  \<open>project-access.service.ts\<close> and \<open>project-access.guard.ts\<close>. The three questions the service answers,
  may this caller touch a project, which projects are hidden from them, which of a list they may see,
  are three pieces of code; they agree. A viewer without a user or a role is an internal caller. The
  text of an id in a request is read by \<open>key\<close>; \<open>owner_of\<close> is \<open>projectIdOf\<close>.
\<close>

subsection \<open>The service\<close>

record project_row =
  pq_id :: uid
  pq_companyId :: uid
  pq_restrictedToMembers :: bool

record project_db =
  pd_projects :: "project_row list"
  pd_members :: "(uid \<times> uid \<times> uid) list"
  pd_assignments :: "(uid \<times> uid \<times> uid option) list"
  pd_access :: access_db
  pd_perms :: perm_state

text \<open>A member is company, project, user; an assignment is company, project and the user of its worker.\<close>

definition seesEveryProject :: "uid option \<Rightarrow> membership_role option \<Rightarrow> bool" where
  "seesEveryProject userId role \<longleftrightarrow> userId = None \<or> role = None \<or> role = Some Owner \<or> role = Some Admin"

definition granted_now :: "uid \<Rightarrow> membership_role \<Rightarrow> (membership_role list \<times> string list) option \<Rightarrow> project_db \<Rightarrow> permission list" where
  "granted_now companyId role customRole db = fst (effectiveFor (\<lambda>s. s) 0 0 companyId role customRole (pd_perms db))"

definition ownProjectScope :: "uid \<Rightarrow> uid \<Rightarrow> membership_role \<Rightarrow> project_db \<Rightarrow> uid list option" where
  "ownProjectScope companyId userId role db =
     (if seesEveryProject (Some userId) (Some role) then None
      else
        (let granted = granted_now companyId role None db;
             customRole = Option.bind (find_membership userId companyId (pd_access db))
               (\<lambda>m. map_option (\<lambda>r. (ro_basePermissions r, ro_extraPermissions r)) (custom_role_of m (pd_access db)));
             granted = (if ''projects.all'' \<in> set granted then granted else granted_now companyId role customRole db)
         in if ''projects.all'' \<in> set granted then None
            else Some (map (\<lambda>(_, p, _). p) (filter (\<lambda>(c, _, u). c = companyId \<and> u = userId) (pd_members db)) @
                       map (\<lambda>(_, p, _). p) (filter (\<lambda>(c, _, u). c = companyId \<and> u = Some userId) (pd_assignments db)))))"

definition company_project :: "uid \<Rightarrow> uid \<Rightarrow> project_db \<Rightarrow> project_row option" where
  "company_project companyId projectId db =
     find_row (\<lambda>p. pq_id p = projectId \<and> pq_companyId p = companyId) (pd_projects db)"

definition is_member :: "uid \<Rightarrow> uid \<Rightarrow> project_db \<Rightarrow> bool" where
  "is_member projectId userId db \<longleftrightarrow> (\<exists>(_, p, u) \<in> set (pd_members db). p = projectId \<and> u = userId)"

definition NO_ACCESS :: app_error where
  "NO_ACCESS = ForbiddenException (msg ''You don't have access to this project'')"

definition assertAccess :: "uid \<Rightarrow> uid \<Rightarrow> uid option \<Rightarrow> membership_role option \<Rightarrow> project_db \<Rightarrow> app_error + unit" where
  "assertAccess companyId projectId userId role db =
     (case (userId, role) of
        (Some u, Some r) \<Rightarrow>
          if seesEveryProject userId role then Inr ()
          else
            (let own = ownProjectScope companyId u r db in
             if own \<noteq> None \<and> projectId \<notin> set (the own)
             then (if company_project companyId projectId db \<noteq> None then Inl NO_ACCESS else Inr ())
             else
               (case company_project companyId projectId db of
                  None \<Rightarrow> Inr ()
                | Some p \<Rightarrow>
                    if \<not> pq_restrictedToMembers p then Inr ()
                    else if is_member projectId u db then Inr () else Inl NO_ACCESS))
      | _ \<Rightarrow> Inr ())"

definition hiddenProjectIds :: "uid \<Rightarrow> uid option \<Rightarrow> membership_role option \<Rightarrow> project_db \<Rightarrow> uid list" where
  "hiddenProjectIds companyId userId role db =
     (case (userId, role) of
        (Some u, Some r) \<Rightarrow>
          if seesEveryProject userId role then []
          else
            (let own = ownProjectScope companyId u r db;
                 company = filter (\<lambda>p. pq_companyId p = companyId) (pd_projects db);
                 restricted = (\<lambda>p. pq_restrictedToMembers p \<and> \<not> is_member (pq_id p) u db)
             in case own of
                  None \<Rightarrow> map pq_id (filter restricted company)
                | Some ids \<Rightarrow>
                    map pq_id (filter (\<lambda>p. pq_id p \<notin> set ids) company) @
                    map pq_id (filter (\<lambda>p. pq_id p \<in> set ids \<and> restricted p) company))
      | _ \<Rightarrow> [])"

definition filterAccessible :: "project_row list \<Rightarrow> uid option \<Rightarrow> membership_role option \<Rightarrow> project_db \<Rightarrow> project_row list" where
  "filterAccessible projects userId role db =
     (case (userId, role) of
        (Some u, Some r) \<Rightarrow>
          if r = Owner \<or> r = Admin then projects
          else
            (let company = (case projects of [] \<Rightarrow> None | p # _ \<Rightarrow> find_row (\<lambda>q. pq_id q = pq_id p) (pd_projects db));
                 own = Option.bind company (\<lambda>c. ownProjectScope (pq_companyId c) u r db);
                 visible = (case own of None \<Rightarrow> projects | Some ids \<Rightarrow> filter (\<lambda>p. pq_id p \<in> set ids) projects);
                 restrictedIds = map pq_id (filter pq_restrictedToMembers visible)
             in if restrictedIds = [] then visible
                else filter (\<lambda>p. \<not> pq_restrictedToMembers p \<or>
                       (pq_id p \<in> set restrictedIds \<and> is_member (pq_id p) u db)) visible)
      | _ \<Rightarrow> projects)"

subsection \<open>The guard\<close>

datatype param_value = Absent | One string | Many "string list"

fun param_strings :: "param_value \<Rightarrow> string list" where
  "param_strings Absent = []"
| "param_strings (One s) = (if s = [] then [] else [s])"
| "param_strings (Many ss) = filter (\<lambda>s. s \<noteq> []) ss"

fun firstString :: "param_value \<Rightarrow> string option" where
  "firstString Absent = None"
| "firstString (One s) = (if s = [] then None else Some s)"
| "firstString (Many ss) = (case ss of [] \<Rightarrow> None | s # _ \<Rightarrow> Some s)"

record guarded_request =
  gq_paramProjectId :: param_value
  gq_paramId :: param_value
  gq_projectsIdRoute :: bool
  gq_queryProjectId :: param_value
  gq_queryProjectIds :: param_value
  gq_bodyProjectId :: param_value
  gq_resources :: "(string \<times> param_value) list"

definition named_projects :: "guarded_request \<Rightarrow> string list" where
  "named_projects q =
     param_strings (gq_paramProjectId q) @
     (if gq_projectsIdRoute q then (case firstString (gq_paramId q) of None \<Rightarrow> [] | Some s \<Rightarrow> if s = [] then [] else [s]) else []) @
     param_strings (gq_queryProjectId q) @
     filter (\<lambda>s. s \<noteq> []) (concat (map (\<lambda>l. map js_trim (split_on CHR '','' l)) (param_strings (gq_queryProjectIds q)))) @
     param_strings (gq_bodyProjectId q)"

text \<open>A resource already checked through the request's own project ids is not looked at twice.\<close>

definition check_resource ::
  "(string \<Rightarrow> uid) \<Rightarrow> (string \<Rightarrow> string \<Rightarrow> uid option) \<Rightarrow> (uid \<Rightarrow> app_error + unit) \<Rightarrow> string \<times> param_value \<Rightarrow>
   uid list \<Rightarrow> app_error + uid list" where
  "check_resource key owner_of access r checked =
     (case firstString (snd r) of
        None \<Rightarrow> Inr checked
      | Some i \<Rightarrow>
          if i = [] then Inr checked
          else
            (case owner_of (fst r) i of
               None \<Rightarrow> Inr checked
             | Some p \<Rightarrow>
                 if p \<in> set checked then Inr checked
                 else map_sum id (\<lambda>_. p # checked) (access p)))"

definition project_guard ::
  "(string \<Rightarrow> uid) \<Rightarrow> (string \<Rightarrow> string \<Rightarrow> uid option) \<Rightarrow> bool \<Rightarrow> auth_user option \<Rightarrow> guarded_request \<Rightarrow> project_db \<Rightarrow> app_error + unit" where
  "project_guard key owner_of isPublic user q db =
     (if isPublic then Inr ()
      else
        (case user of
           None \<Rightarrow> Inr ()
         | Some u \<Rightarrow>
             if seesEveryProject (Some (au_userId u)) (Some (au_role u)) then Inr ()
             else
               (let access = (\<lambda>p. assertAccess (au_companyId u) p (Some (au_userId u)) (Some (au_role u)) db);
                    named = map key (named_projects q)
                in case fold_res (\<lambda>p _. access p) (remdups named) () of
                     Inl e \<Rightarrow> Inl e
                   | Inr _ \<Rightarrow> map_sum id (\<lambda>_. ()) (fold_res (check_resource key owner_of access) (gq_resources q) named))))"

subsection \<open>The three answers agree\<close>

definition project_ids_unique :: "project_db \<Rightarrow> bool" where
  "project_ids_unique db \<longleftrightarrow> distinct (map pq_id (pd_projects db))"

lemma company_project_of:
  assumes "project_ids_unique db" and "p \<in> set (pd_projects db)"
  shows "company_project (pq_companyId p) (pq_id p) db = Some p"
proof -
  have "find_row (\<lambda>q. pq_id q = pq_id p \<and> pq_companyId q = pq_companyId p) rows = Some p"
    if "distinct (map pq_id rows)" "p \<in> set rows" for rows
    using that by (induction rows) (auto simp: row_simps)
  then show ?thesis using assms by (simp add: company_project_def project_ids_unique_def)
qed

lemma project_visible_iff:
  assumes "project_ids_unique db" and "p \<in> set (pd_projects db)" and "pq_companyId p = companyId"
    and "set projects \<subseteq> {q \<in> set (pd_projects db). pq_companyId q = companyId}"
  shows "(assertAccess companyId (pq_id p) userId role db = Inl NO_ACCESS \<longleftrightarrow>
      pq_id p \<in> set (hiddenProjectIds companyId userId role db)) \<and>
    filterAccessible projects userId role db =
      filter (\<lambda>q. pq_id q \<notin> set (hiddenProjectIds companyId userId role db)) projects"
proof (cases "\<exists>u r. userId = Some u \<and> role = Some r \<and> r \<noteq> Owner \<and> r \<noteq> Admin")
  case True
  then obtain u r where ur: "userId = Some u" "role = Some r" "r \<noteq> Owner" "r \<noteq> Admin" by blast
  then have sees: "\<not> seesEveryProject userId role" by (simp add: seesEveryProject_def)
  have inj: "inj_on pq_id (set (pd_projects db))"
    using assms(1) by (simp add: project_ids_unique_def distinct_map)
  have mem: "pq_id q \<in> set (map pq_id (filter P (filter (\<lambda>x. pq_companyId x = companyId) (pd_projects db)))) \<longleftrightarrow> P q"
    if "q \<in> set (pd_projects db)" "pq_companyId q = companyId" for q P
    using inj_on_image_mem_iff [OF inj that(1), of "{x \<in> set (pd_projects db). pq_companyId x = companyId \<and> P x}"] that
    by (auto simp: image_iff)
  let ?own = "ownProjectScope companyId u r db"
  have hidden: "pq_id q \<in> set (hiddenProjectIds companyId userId role db) \<longleftrightarrow>
      (?own \<noteq> None \<and> pq_id q \<notin> set (the ?own)) \<or> (pq_restrictedToMembers q \<and> \<not> is_member (pq_id q) u db)"
    if "q \<in> set (pd_projects db)" "pq_companyId q = companyId" for q
  proof (cases ?own)
    case None
    then show ?thesis using mem [OF that] sees by (simp add: hiddenProjectIds_def ur del: set_map set_filter filter_filter)
  next
    case (Some ids)
    then show ?thesis using mem [OF that] sees
      by (simp add: hiddenProjectIds_def ur Let_def del: set_map set_filter filter_filter)
  qed
  have "assertAccess companyId (pq_id p) userId role db = Inl NO_ACCESS \<longleftrightarrow>
      (?own \<noteq> None \<and> pq_id p \<notin> set (the ?own)) \<or> (pq_restrictedToMembers p \<and> \<not> is_member (pq_id p) u db)"
    using company_project_of [OF assms(1,2)] sees by (auto simp: assertAccess_def ur assms(3) Let_def)
  moreover have "filterAccessible projects userId role db =
      filter (\<lambda>q. \<not> ((?own \<noteq> None \<and> pq_id q \<notin> set (the ?own)) \<or> (pq_restrictedToMembers q \<and> \<not> is_member (pq_id q) u db))) projects"
  proof (cases projects)
    case (Cons p0 ps)
    then have "find_row (\<lambda>q. pq_id q = pq_id p0) (pd_projects db) = Some p0"
      using assms(1,4) by (intro find_row_key) (auto simp: project_ids_unique_def)
    moreover have "pq_companyId p0 = companyId" using Cons assms(4) by auto
    ultimately have own: "Option.bind (case projects of [] \<Rightarrow> None | p # _ \<Rightarrow> find_row (\<lambda>q. pq_id q = pq_id p) (pd_projects db))
        (\<lambda>c. ownProjectScope (pq_companyId c) u r db) = ?own" by (simp add: Cons)
    show ?thesis
      using ur(3,4)
      by (cases ?own) (auto simp: filterAccessible_def ur(1,2) own Let_def filter_empty_conv intro!: filter_cong)
  qed (simp add: filterAccessible_def ur Let_def)
  moreover have "filter (\<lambda>q. pq_id q \<notin> set (hiddenProjectIds companyId userId role db)) projects =
      filter (\<lambda>q. \<not> ((?own \<noteq> None \<and> pq_id q \<notin> set (the ?own)) \<or> (pq_restrictedToMembers q \<and> \<not> is_member (pq_id q) u db))) projects"
    using hidden assms(4) by (intro filter_cong) auto
  ultimately show ?thesis using hidden [OF assms(2,3)] by simp
next
  case False
  then show ?thesis
    by (cases userId; cases role)
      (auto simp: assertAccess_def hiddenProjectIds_def filterAccessible_def seesEveryProject_def NO_ACCESS_def)
qed

text \<open>C12  The three ways the code asks whether a caller may see a project give one answer, for every
  caller, role, override and custom role: a project of the company is refused by the access check
  exactly when it is among the hidden ones, and filtering a list of the company's projects keeps
  exactly those that are not.\<close>

theorem project_visibility_agrees:
  assumes "project_ids_unique db" and "p \<in> set (pd_projects db)" and "pq_companyId p = companyId"
    and "set projects \<subseteq> {q \<in> set (pd_projects db). pq_companyId q = companyId}"
  shows "(assertAccess companyId (pq_id p) userId role db = Inl NO_ACCESS \<longleftrightarrow>
      pq_id p \<in> set (hiddenProjectIds companyId userId role db)) \<and>
    filterAccessible projects userId role db =
      filter (\<lambda>q. pq_id q \<notin> set (hiddenProjectIds companyId userId role db)) projects"
  by (rule project_visible_iff [OF assms])

subsection \<open>What the guard lets through\<close>

lemma fold_access_ok:
  "fold_res (\<lambda>p _. access p) ps () = Inr () \<Longrightarrow> p \<in> set ps \<Longrightarrow> access p = Inr ()"
  by (induction ps) (auto split: sum.splits)

lemma fold_resources_ok:
  assumes "fold_res (check_resource key owner_of access) rs checked = Inr out"
    and "\<forall>p \<in> set checked. access p = Inr ()"
    and "(model, v) \<in> set rs" and "firstString v = Some i" and "i \<noteq> []" and "owner_of model i = Some p"
  shows "access p = Inr ()"
  using assms
proof (induction rs arbitrary: checked)
  case (Cons r rs)
  from Cons.prems(1) obtain checked' where step: "check_resource key owner_of access r checked = Inr checked'"
    and rest: "fold_res (check_resource key owner_of access) rs checked' = Inr out" by (auto split: sum.splits)
  have ok: "\<forall>p \<in> set checked'. access p = Inr ()"
    using step Cons.prems(2) by (auto simp: check_resource_def map_sum_def split: option.splits if_splits sum.splits)
  show ?case
  proof (cases "r = (model, v)")
    case True
    then have "p \<in> set checked'"
      using step Cons.prems(4-6) by (auto simp: check_resource_def map_sum_def split: if_splits sum.splits)
    then show ?thesis using ok by blast
  next
    case False
    then show ?thesis using Cons.IH [OF rest ok] Cons.prems(3-6) by auto
  qed
qed simp

lemma guard_run:
  "(case a of Inl e \<Rightarrow> Inl e | Inr _ \<Rightarrow> map_sum id (\<lambda>_. ()) b) = Inr () \<Longrightarrow> a = Inr () \<and> (\<exists>out. b = Inr out)"
  by (cases a; cases b) simp_all

text \<open>What a request names, read off its parts: a path parameter, the \<open>:id\<close> of a project route, a query
  parameter, a part of a comma separated list, a field of the body; alone or in an array.\<close>

fun values_of :: "param_value \<Rightarrow> string set" where
  "values_of Absent = {}"
| "values_of (One s) = {s}"
| "values_of (Many ss) = set ss"

definition mentions :: "guarded_request \<Rightarrow> string \<Rightarrow> bool" where
  "mentions q s \<longleftrightarrow> s \<noteq> [] \<and>
     (s \<in> values_of (gq_paramProjectId q) \<or> gq_projectsIdRoute q \<and> firstString (gq_paramId q) = Some s \<or>
      s \<in> values_of (gq_queryProjectId q) \<or> s \<in> values_of (gq_bodyProjectId q) \<or>
      (\<exists>l part. l \<in> values_of (gq_queryProjectIds q) \<and> part \<in> set (split_on CHR '','' l) \<and> s = js_trim part))"

lemma param_strings_values: "set (param_strings v) = {s \<in> values_of v. s \<noteq> []}"
  by (cases v) auto

lemma mentioned_named:
  assumes "mentions q s"
  shows "s \<in> set (named_projects q)"
proof -
  have nil: "part = []" if "part \<in> set (split_on CHR '','' [])" for part using that by simp
  have list: "s \<in> set (filter (\<lambda>s. s \<noteq> []) (concat (map (\<lambda>l. map js_trim (split_on CHR '','' l)) (param_strings (gq_queryProjectIds q)))))"
    if "l \<in> values_of (gq_queryProjectIds q)" "part \<in> set (split_on CHR '','' l)" "s = js_trim part" for l part
  proof -
    have "s \<noteq> []" using assms by (simp add: mentions_def)
    with that nil have "l \<noteq> []" by (auto simp: js_trim_def)
    with that \<open>s \<noteq> []\<close> show ?thesis by (auto simp: param_strings_values)
  qed
  have s: "s \<noteq> []" using assms by (simp add: mentions_def)
  then have single: "s \<in> values_of (gq_paramProjectId q) \<or> gq_projectsIdRoute q \<and> firstString (gq_paramId q) = Some s \<or>
      s \<in> values_of (gq_queryProjectId q) \<or> s \<in> values_of (gq_bodyProjectId q) \<Longrightarrow> s \<in> set (named_projects q)"
    unfolding named_projects_def set_append param_strings_values by (elim disjE conjE) (simp_all only: Un_iff mem_Collect_eq if_True option.case if_False list.set insert_iff simp_thms)
  have several: "l \<in> values_of (gq_queryProjectIds q) \<Longrightarrow> part \<in> set (split_on CHR '','' l) \<Longrightarrow> s = js_trim part \<Longrightarrow>
      s \<in> set (named_projects q)" for l part
    using list unfolding named_projects_def set_append by blast
  from assms show ?thesis unfolding mentions_def using single several by blast
qed

text \<open>C11  A request the project guard lets through touches no project hidden from its caller: neither any
  project its path, query or body names, a comma separated list included, nor the project that owns a
  row its path names through a declared resource.\<close>

theorem guard_hides_projects:
  assumes "project_guard key owner_of False (Some u) q db = Inr ()" and "project_ids_unique db"
    and "p \<in> set (pd_projects db)" and "pq_companyId p = au_companyId u"
    and "(\<exists>s. mentions q s \<and> key s = pq_id p) \<or>
      (\<exists>model v i. (model, v) \<in> set (gq_resources q) \<and> firstString v = Some i \<and> i \<noteq> [] \<and> owner_of model i = Some (pq_id p))"
  shows "pq_id p \<notin> set (hiddenProjectIds (au_companyId u) (Some (au_userId u)) (Some (au_role u)) db)"
proof (cases "seesEveryProject (Some (au_userId u)) (Some (au_role u))")
  case True
  then show ?thesis by (simp add: hiddenProjectIds_def)
next
  case False
  define access where "access = (\<lambda>p. assertAccess (au_companyId u) p (Some (au_userId u)) (Some (au_role u)) db)"
  define named where "named = map key (named_projects q)"
  have run: "(case fold_res (\<lambda>p _. access p) (remdups named) () of Inl e \<Rightarrow> Inl e
      | Inr _ \<Rightarrow> map_sum id (\<lambda>_. ()) (fold_res (check_resource key owner_of access) (gq_resources q) named)) = Inr ()"
    using assms(1) False unfolding project_guard_def Let_def access_def named_def by (simp only: option.case if_False)
  note both = guard_run [OF run]
  then obtain out where res: "fold_res (check_resource key owner_of access) (gq_resources q) named = Inr out" by blast
  have n: "\<forall>p \<in> set named. access p = Inr ()"
    using fold_access_ok [OF conjunct1 [OF both]] by simp
  have "access (pq_id p) = Inr ()"
  proof (cases "pq_id p \<in> set named")
    case True
    then show ?thesis using n by blast
  next
    case other: False
    then have "\<not> (\<exists>s. mentions q s \<and> key s = pq_id p)" 
      by (metis image_eqI mentioned_named named_def list.set_map)
    with assms(5) obtain model v i where "(model, v) \<in> set (gq_resources q)" "firstString v = Some i" "i \<noteq> []"
      "owner_of model i = Some (pq_id p)" by blast
    then show ?thesis by (rule fold_resources_ok [OF res n])
  qed
  then have "assertAccess (au_companyId u) (pq_id p) (Some (au_userId u)) (Some (au_role u)) db = Inr ()"
    by (simp only: access_def)
  moreover have "set [p] \<subseteq> {r \<in> set (pd_projects db). pq_companyId r = au_companyId u}" using assms(3,4) by simp
  ultimately show ?thesis
    using project_visible_iff [OF assms(2,3,4), of "[p]" "Some (au_userId u)" "Some (au_role u)"] by simp
qed

subsection \<open>A worked company\<close>

definition projects_example :: project_db where
  "projects_example =
     \<lparr>pd_projects = [\<lparr>pq_id = 60, pq_companyId = 1, pq_restrictedToMembers = False\<rparr>,
        \<lparr>pq_id = 61, pq_companyId = 1, pq_restrictedToMembers = True\<rparr>,
        \<lparr>pq_id = 62, pq_companyId = 1, pq_restrictedToMembers = True\<rparr>],
      pd_members = [(1, 61, 4)], pd_assignments = [(1, 62, Some 4)],
      pd_access =
        \<lparr>ad_users = [], ad_memberships = [new_membership 8 4 1 Foreman], ad_customRoles = [], ad_invites = [],
         ad_sessions = [], ad_resetTokens = [], ad_companies = [], ad_subscriptions = [], ad_plans = [], ad_uid = 100\<rparr>,
      pd_perms = snd (setGrant 1 None Owner Foreman ''projects.all'' False \<lparr>pm_overrides = [], pm_cache = (\<lambda>_. None)\<rparr>)\<rparr>"

lemma projects_example_hidden: "hiddenProjectIds 1 (Some 4) (Some Foreman) projects_example = [60, 62]"
  by code_simp

lemma project_visibility_agrees_witness:
  "assertAccess 1 62 (Some 4) (Some Foreman) projects_example = Inl NO_ACCESS \<and>
   filterAccessible (pd_projects projects_example) (Some 4) (Some Foreman) projects_example =
     [\<lparr>pq_id = 61, pq_companyId = 1, pq_restrictedToMembers = True\<rparr>]"
proof -
  let ?p = "\<lparr>pq_id = 62, pq_companyId = 1, pq_restrictedToMembers = True\<rparr>"
  have "project_ids_unique projects_example" "?p \<in> set (pd_projects projects_example)"
    "set (pd_projects projects_example) \<subseteq> {q \<in> set (pd_projects projects_example). pq_companyId q = 1}"
    by (simp_all add: project_ids_unique_def projects_example_def)
  then have all: "(assertAccess 1 (pq_id ?p) (Some 4) (Some Foreman) projects_example = Inl NO_ACCESS \<longleftrightarrow>
      pq_id ?p \<in> set (hiddenProjectIds 1 (Some 4) (Some Foreman) projects_example)) \<and>
    filterAccessible (pd_projects projects_example) (Some 4) (Some Foreman) projects_example =
      filter (\<lambda>q. pq_id q \<notin> set (hiddenProjectIds 1 (Some 4) (Some Foreman) projects_example)) (pd_projects projects_example)"
    by (intro project_visibility_agrees) simp_all
  have "filter (\<lambda>q. pq_id q \<notin> set [60, 62]) (pd_projects projects_example) =
     [\<lparr>pq_id = 61, pq_companyId = 1, pq_restrictedToMembers = True\<rparr>]" by (simp add: projects_example_def)
  then show ?thesis using all unfolding projects_example_hidden by simp
qed

definition request_example :: guarded_request where
  "request_example = \<lparr>gq_paramProjectId = Absent, gq_paramId = One ''t1'', gq_projectsIdRoute = False,
     gq_queryProjectId = Absent, gq_queryProjectIds = One ''b, b'', gq_bodyProjectId = Absent,
     gq_resources = [(''Task'', One ''t1'')]\<rparr>"

definition caller_example :: auth_user where
  "caller_example = \<lparr>au_userId = 4, au_companyId = 1, au_role = Foreman, au_additionalRoles = None,
     au_permissions = None, au_sid = None\<rparr>"

lemma guard_hides_projects_witness:
  "61 \<notin> set (hiddenProjectIds 1 (Some 4) (Some Foreman) projects_example) \<and>
   project_guard (\<lambda>s. if s = ''b'' then 61 else 62) (\<lambda>_ _. Some 62) False (Some caller_example) request_example projects_example = Inl NO_ACCESS"
proof
  have "project_guard (\<lambda>s. 61) (\<lambda>_ _. Some 61) False (Some caller_example) request_example projects_example = Inr ()"
    by code_simp
  from guard_hides_projects [OF this, of "\<lparr>pq_id = 61, pq_companyId = 1, pq_restrictedToMembers = True\<rparr>"]
  show "61 \<notin> set (hiddenProjectIds 1 (Some 4) (Some Foreman) projects_example)"
    by (simp add: caller_example_def project_ids_unique_def projects_example_def request_example_def)
  show "project_guard (\<lambda>s. if s = ''b'' then 61 else 62) (\<lambda>_ _. Some 62) False (Some caller_example) request_example projects_example = Inl NO_ACCESS"
    by code_simp
qed

end
