(* ===== verification/Tasks.thy ===== *)
theory Tasks
  imports Critical_Path Project_Access
begin

section \<open>Tasks and their dependencies\<close>

text \<open>
  \<open>projects/tasks.service.ts\<close>, \<open>schedule-baseline.service.ts\<close> and \<open>milestones.service.ts\<close>: the
  tables of a project's schedule and every operation on them.  The services run without transactions;
  where a check and the write it guards can be separated by another request, that request is the
  argument \<open>env\<close>.  \<open>cascadeShift\<close> recurses over the tasks it moves; its depth is bounded by fuel,
  one unit per task and one more, which theory \<open>Task_Laws\<close> shows to be enough.
\<close>

subsection \<open>The tables\<close>

record task_row =
  tk_id :: uid
  tk_companyId :: uid
  tk_projectId :: uid
  tk_name :: string
  tk_estimateLineId :: "uid option"
  tk_status :: task_status
  tk_startDate :: "date option"
  tk_dueDate :: "date option"
  tk_sortOrder :: int
  tk_isOutdoorWork :: bool

record dependency_row =
  de_id :: uid
  de_predecessorId :: uid
  de_successorId :: uid
  de_type :: dependency_type
  de_lagDays :: int

record milestone =
  me_id :: uid
  me_projectId :: uid
  me_name :: string
  me_dueDate :: "date option"

record task_commitment =
  tc_id :: uid
  tc_companyId :: uid
  tc_taskId :: uid
  tc_weekStarting :: date
  tc_status :: commitment_status
  tc_varianceReason :: "string option"
  tc_committedByName :: string
  tc_resolvedAt :: "date option"

record schedule_baseline =
  sb_id :: uid
  sb_companyId :: uid
  sb_projectId :: uid
  sb_name :: string
  sb_createdByName :: string
  sb_tasks :: "baseline_task list"

text \<open>An estimate line is its id with the project and the company of its estimate.\<close>

record plan_db =
  pl_tasks :: "task_row list"
  pl_dependencies :: "dependency_row list"
  pl_milestones :: "milestone list"
  pl_commitments :: "task_commitment list"
  pl_baselines :: "schedule_baseline list"
  pl_estimateLines :: "(uid \<times> uid \<times> uid) list"
  pl_projects :: project_db
  pl_uid :: uid

type_synonym 'a plan_op = "plan_db \<Rightarrow> (app_error + 'a) \<times> plan_db"

definition find_task :: "uid \<Rightarrow> plan_db \<Rightarrow> task_row option" where
  "find_task i db = find_row (\<lambda>t. tk_id t = i) (pl_tasks db)"

definition company_task :: "uid \<Rightarrow> uid \<Rightarrow> plan_db \<Rightarrow> task_row option" where
  "company_task companyId i db =
     find_row (\<lambda>t. tk_id t = i \<and> company_project companyId (tk_projectId t) (pl_projects db) \<noteq> None) (pl_tasks db)"

definition has_project :: "uid \<Rightarrow> uid \<Rightarrow> plan_db \<Rightarrow> bool" where
  "has_project companyId projectId db \<longleftrightarrow> company_project companyId projectId (pl_projects db) \<noteq> None"

definition PROJECT_NOT_FOUND :: app_error where
  "PROJECT_NOT_FOUND = NotFoundException (msg ''Project not found'')"

definition TASK_NOT_FOUND :: app_error where
  "TASK_NOT_FOUND = NotFoundException (msg ''Task not found'')"

text \<open>\<open>orderBy: [{ sortOrder: "asc" }, { startDate: "asc" }]\<close>; a missing date comes last.\<close>

definition by_date :: "('r \<Rightarrow> date option) \<Rightarrow> 'r list \<Rightarrow> 'r list" where
  "by_date f rows = sort_key (\<lambda>r. f r = None) (sort_key (\<lambda>r. case f r of None \<Rightarrow> 0 | Some d \<Rightarrow> d) rows)"

definition TASKS_QUERY_CAP :: nat where "TASKS_QUERY_CAP = 5000"

definition project_tasks :: "uid \<Rightarrow> plan_db \<Rightarrow> task_row list" where
  "project_tasks projectId db = filter (\<lambda>t. tk_projectId t = projectId) (pl_tasks db)"

definition listForProject :: "uid \<Rightarrow> uid \<Rightarrow> plan_db \<Rightarrow> app_error + task_row list" where
  "listForProject companyId projectId db =
     (if \<not> has_project companyId projectId db then Inl PROJECT_NOT_FOUND
      else Inr (take TASKS_QUERY_CAP (sort_key tk_sortOrder (by_date tk_startDate (project_tasks projectId db)))))"

subsection \<open>Creating and moving tasks\<close>

record task_input =
  kt_projectId :: uid
  kt_name :: string
  kt_estimateLineId :: "uid option"
  kt_startDate :: "date option"
  kt_dueDate :: "date option"
  kt_isOutdoorWork :: bool

definition create_task :: "uid \<Rightarrow> task_input \<Rightarrow> task_row plan_op" where
  "create_task companyId input db =
     (let p = kt_projectId input in
      if \<not> has_project companyId p db then (Inl PROJECT_NOT_FOUND, db)
      else if (case kt_estimateLineId input of None \<Rightarrow> False
               | Some l \<Rightarrow> (l, p, companyId) \<notin> set (pl_estimateLines db))
      then (Inl (BadRequestException (msg ''Estimate line does not belong to this project'')), db)
      else
        (let orders = map tk_sortOrder (project_tasks p db);
             task = \<lparr>tk_id = pl_uid db, tk_companyId = companyId, tk_projectId = p, tk_name = kt_name input,
               tk_estimateLineId = kt_estimateLineId input, tk_status = Planned, tk_startDate = kt_startDate input,
               tk_dueDate = kt_dueDate input,
               tk_sortOrder = (if orders = [] then 0 else Max (set orders)) + 1,
               tk_isOutdoorWork = kt_isOutdoorWork input\<rparr>
         in (Inr task, db\<lparr>pl_tasks := pl_tasks db @ [task], pl_uid := Suc (pl_uid db)\<rparr>)))"

text \<open>A task with both dates, as the calculator takes it.\<close>

definition cpm_of :: "task_row \<Rightarrow> cpm_task option" where
  "cpm_of t =
     (case (tk_startDate t, tk_dueDate t) of
        (Some s, Some d) \<Rightarrow> Some \<lparr>ct_id = tk_id t, ct_startDate = s, ct_dueDate = d\<rparr>
      | _ \<Rightarrow> None)"

definition write_dates :: "uid \<Rightarrow> date \<Rightarrow> date \<Rightarrow> plan_db \<Rightarrow> plan_db" where
  "write_dates i s d db =
     db\<lparr>pl_tasks := update_rows (\<lambda>t. tk_id t = i) (\<lambda>t. t\<lparr>tk_startDate := Some s, tk_dueDate := Some d\<rparr>) (pl_tasks db)\<rparr>"

text \<open>The edges out of a task, each with its successor as it stands when they are read.\<close>

definition links_out :: "uid \<Rightarrow> plan_db \<Rightarrow> (dependency_row \<times> task_row) list" where
  "links_out i db =
     List.map_filter (\<lambda>e. if de_predecessorId e = i then map_option (Pair e) (find_task (de_successorId e) db) else None)
       (pl_dependencies db)"

fun fold_opt :: "('a \<Rightarrow> 's \<Rightarrow> 's option) \<Rightarrow> 'a list \<Rightarrow> 's \<Rightarrow> 's option" where
  "fold_opt f [] s = Some s"
| "fold_opt f (x # xs) s = Option.bind (f x s) (fold_opt f xs)"

type_synonym cascade = "uid list \<times> plan_db"

definition cascade_edge ::
  "(uid \<Rightarrow> cascade \<Rightarrow> cascade option) \<Rightarrow> cpm_task \<Rightarrow> dependency_row \<times> task_row \<Rightarrow> cascade \<Rightarrow> cascade option" where
  "cascade_edge go task link st =
     (case cpm_of (snd link) of
        None \<Rightarrow> Some st
      | Some succ \<Rightarrow>
          (let requiredStart = minSuccessorStart task succ (de_type (fst link)) (de_lagDays (fst link)) in
           if ct_startDate succ < requiredStart
           then
             (let deltaMs = requiredStart - ct_startDate succ;
                  newDueDate = ct_dueDate succ + deltaMs
              in go (ct_id succ) (fst st, write_dates (ct_id succ) requiredStart newDueDate (snd st)))
           else Some st))"

primrec cascade_from :: "nat \<Rightarrow> uid \<Rightarrow> cascade \<Rightarrow> cascade option" where
  "cascade_from 0 i st = None"
| "cascade_from (Suc n) i st =
     (if i \<in> set (fst st) then Some st
      else
        (let visited = i # fst st in
         case Option.bind (find_task i (snd st)) cpm_of of
           None \<Rightarrow> Some (visited, snd st)
         | Some task \<Rightarrow> fold_opt (cascade_edge (cascade_from n) task) (links_out i (snd st)) (visited, snd st)))"

definition cascadeShift :: "uid \<Rightarrow> plan_db \<Rightarrow> plan_db" where
  "cascadeShift i db =
     (case cascade_from (Suc (length (pl_tasks db))) i ([], db) of None \<Rightarrow> db | Some st \<Rightarrow> snd st)"

text \<open>\<open>None\<close> is a field the request leaves out.\<close>

record task_update =
  tu_status :: "task_status option"
  tu_startDate :: "date option"
  tu_dueDate :: "date option"
  tu_sortOrder :: "int option"
  tu_isOutdoorWork :: "bool option"

definition given :: "'a option \<Rightarrow> 'a \<Rightarrow> 'a" where
  "given x y = (case x of None \<Rightarrow> y | Some z \<Rightarrow> z)"

definition apply_update :: "task_update \<Rightarrow> task_row \<Rightarrow> task_row" where
  "apply_update input t =
     t\<lparr>tk_status := given (tu_status input) (tk_status t),
       tk_startDate := (if tu_startDate input = None then tk_startDate t else tu_startDate input),
       tk_dueDate := (if tu_dueDate input = None then tk_dueDate t else tu_dueDate input),
       tk_sortOrder := given (tu_sortOrder input) (tk_sortOrder t),
       tk_isOutdoorWork := given (tu_isOutdoorWork input) (tk_isOutdoorWork t)\<rparr>"

definition update_task :: "uid \<Rightarrow> uid \<Rightarrow> task_update \<Rightarrow> uid option \<Rightarrow> membership_role option \<Rightarrow> task_row plan_op" where
  "update_task companyId taskId input userId role db =
     (case company_task companyId taskId db of
        None \<Rightarrow> (Inl TASK_NOT_FOUND, db)
      | Some task \<Rightarrow>
          (case assertAccess companyId (tk_projectId task) userId role (pl_projects db) of
             Inl e \<Rightarrow> (Inl e, db)
           | Inr _ \<Rightarrow>
               (let db1 = db\<lparr>pl_tasks := update_rows (\<lambda>t. tk_id t = taskId) (apply_update input) (pl_tasks db)\<rparr>
                in (Inr (apply_update input task),
                    if tu_startDate input \<noteq> None \<or> tu_dueDate input \<noteq> None then cascadeShift taskId db1 else db1))))"

definition shift_date :: "int \<Rightarrow> date option \<Rightarrow> date option" where
  "shift_date offsetMs = map_option (\<lambda>d. d + offsetMs)"

definition shiftProjectSchedule :: "uid \<Rightarrow> uid \<Rightarrow> int \<Rightarrow> (nat \<times> nat) plan_op" where
  "shiftProjectSchedule companyId projectId days db =
     (if \<not> has_project companyId projectId db then (Inl PROJECT_NOT_FOUND, db)
      else
        (let offsetMs = days * CPM_DAY_MS;
             open_task = (\<lambda>t. tk_projectId t = projectId \<and> tk_status t \<noteq> Task_done);
             dated = (\<lambda>m. me_projectId m = projectId \<and> me_dueDate m \<noteq> None)
         in (Inr (length (filter open_task (pl_tasks db)), length (filter dated (pl_milestones db))),
             db\<lparr>pl_tasks := update_rows open_task
                  (\<lambda>t. t\<lparr>tk_startDate := shift_date offsetMs (tk_startDate t), tk_dueDate := shift_date offsetMs (tk_dueDate t)\<rparr>)
                  (pl_tasks db),
                pl_milestones := update_rows dated (\<lambda>m. m\<lparr>me_dueDate := shift_date offsetMs (me_dueDate m)\<rparr>)
                  (pl_milestones db)\<rparr>)))"

subsection \<open>Dependencies\<close>

text \<open>\<open>wouldCreateCycle\<close>: breadth first from the would-be successor.\<close>

fun enqueue_new :: "uid list \<Rightarrow> uid list \<times> uid list \<Rightarrow> uid list \<times> uid list" where
  "enqueue_new [] s = s"
| "enqueue_new (i # is) (queue, seen) =
     (if i \<in> set seen then enqueue_new is (queue, seen) else enqueue_new is (queue @ [i], i # seen))"

definition succs_of :: "dependency_row list \<Rightarrow> uid \<Rightarrow> uid list" where
  "succs_of edges i = map de_successorId (filter (\<lambda>e. de_predecessorId e = i) edges)"

lemma enqueue_new_size:
  assumes "set is \<subseteq> D" and "finite D" and "enqueue_new is (queue, seen) = (queue', seen')"
  shows "length queue' + card (D - set seen') \<le> length queue + card (D - set seen)"
  using assms(1,3)
proof (induction "is" arbitrary: queue seen)
  case (Cons i "is")
  show ?case
  proof (cases "i \<in> set seen")
    case False
    have "D - set (i # seen) = (D - set seen) - {i}" by auto
    moreover have "i \<in> D - set seen" using Cons.prems(1) False by simp
    ultimately have "Suc (card (D - set (i # seen))) = card (D - set seen)"
      using assms(2) by (metis card_Suc_Diff1 finite_Diff)
    with Cons.IH [of "queue @ [i]" "i # seen"] Cons.prems False show ?thesis by simp
  qed (use Cons in simp)
qed simp

lemma succs_size:
  assumes "enqueue_new (succs_of edges i) (queue, seen) = (queue', seen')"
  shows "length queue' + card (de_successorId ` set edges - set seen')
    < Suc (length queue + card (de_successorId ` set edges - set seen))"
proof -
  have "set (succs_of edges i) \<subseteq> de_successorId ` set edges" by (auto simp: succs_of_def)
  from enqueue_new_size [OF this _ assms] show ?thesis by simp
qed

function cycle_search :: "dependency_row list \<Rightarrow> uid \<Rightarrow> uid list \<Rightarrow> uid list \<Rightarrow> bool" where
  "cycle_search edges goal [] seen = False"
| "cycle_search edges goal (current # queue) seen =
     (if current = goal then True
      else case enqueue_new (succs_of edges current) (queue, seen) of (queue', seen') \<Rightarrow> cycle_search edges goal queue' seen')"
  by pat_completeness auto

termination
  by (relation "measure (\<lambda>(edges, goal, queue, seen). length queue + card (de_successorId ` set edges - set seen))")
    (auto split: prod.split dest: succs_size)

declare cycle_search.simps [simp del]

definition wouldCreateCycle :: "uid \<Rightarrow> uid \<Rightarrow> plan_db \<Rightarrow> bool" where
  "wouldCreateCycle predecessorId successorId db =
     cycle_search (pl_dependencies db) predecessorId [successorId] [successorId]"

definition addDependency ::
  "(plan_db \<Rightarrow> plan_db) \<Rightarrow> uid \<Rightarrow> uid \<Rightarrow> uid \<Rightarrow> dependency_type \<Rightarrow> int \<Rightarrow> uid option \<Rightarrow> membership_role option \<Rightarrow> uid plan_op" where
  "addDependency env companyId successorId predecessorId kind lag userId role db =
     (case company_task companyId successorId db of
        None \<Rightarrow> (Inl TASK_NOT_FOUND, db)
      | Some successor \<Rightarrow>
          (case assertAccess companyId (tk_projectId successor) userId role (pl_projects db) of
             Inl e \<Rightarrow> (Inl e, db)
           | Inr _ \<Rightarrow>
               if predecessorId = successorId
               then (Inl (BadRequestException (msg ''A task cannot depend on itself'')), db)
               else if find_row (\<lambda>t. tk_id t = predecessorId \<and> tk_projectId t = tk_projectId successor) (pl_tasks db) = None
               then (Inl (BadRequestException (msg ''Predecessor task does not belong to the same project'')), db)
               else if wouldCreateCycle predecessorId successorId db
               then (Inl (BadRequestException (msg ''This dependency would create a circular chain'')), db)
               else if \<exists>e \<in> set (pl_dependencies db). de_predecessorId e = predecessorId \<and> de_successorId e = successorId
               then (Inl (BadRequestException (msg ''This dependency already exists'')), db)
               else
                 (let db1 = env db in
                  if \<exists>e \<in> set (pl_dependencies db1). de_predecessorId e = predecessorId \<and> de_successorId e = successorId
                  then (Inl (UniqueViolation ''predecessorId_successorId''), db1)
                  else
                    (let e = \<lparr>de_id = pl_uid db1, de_predecessorId = predecessorId, de_successorId = successorId,
                               de_type = kind, de_lagDays = lag\<rparr>
                     in (Inr (de_id e),
                         cascadeShift predecessorId
                           (db1\<lparr>pl_dependencies := pl_dependencies db1 @ [e], pl_uid := Suc (pl_uid db1)\<rparr>))))))"

definition removeDependency :: "uid \<Rightarrow> uid \<Rightarrow> uid option \<Rightarrow> membership_role option \<Rightarrow> unit plan_op" where
  "removeDependency companyId dependencyId userId role db =
     (case find_row (\<lambda>e. de_id e = dependencyId \<and> company_task companyId (de_successorId e) db \<noteq> None) (pl_dependencies db) of
        None \<Rightarrow> (Inl (NotFoundException (msg ''Dependency not found'')), db)
      | Some e \<Rightarrow>
          (case company_task companyId (de_successorId e) db of
             None \<Rightarrow> (Inl (NotFoundException (msg ''Dependency not found'')), db)
           | Some successor \<Rightarrow>
               (case assertAccess companyId (tk_projectId successor) userId role (pl_projects db) of
                  Inl x \<Rightarrow> (Inl x, db)
                | Inr _ \<Rightarrow> (Inr (), db\<lparr>pl_dependencies := filter (\<lambda>e. de_id e \<noteq> dependencyId) (pl_dependencies db)\<rparr>))))"

subsection \<open>Reading the schedule\<close>

definition dependencies_among :: "uid list \<Rightarrow> plan_db \<Rightarrow> dependency list" where
  "dependencies_among ids db =
     map (\<lambda>e. \<lparr>dp_predecessorId = de_predecessorId e, dp_successorId = de_successorId e, dp_type = de_type e,
         dp_lagDays = de_lagDays e\<rparr>)
       (filter (\<lambda>e. de_predecessorId e \<in> set ids \<and> de_successorId e \<in> set ids) (pl_dependencies db))"

definition critical_path_of :: "task_row list \<Rightarrow> plan_db \<Rightarrow> cpm_result list" where
  "critical_path_of tasks db =
     (let scheduled = List.map_filter cpm_of tasks
      in computeCriticalPath scheduled (dependencies_among (map ct_id scheduled) db))"

definition getCriticalPath :: "uid \<Rightarrow> uid \<Rightarrow> plan_db \<Rightarrow> app_error + cpm_result list" where
  "getCriticalPath companyId projectId db =
     (if \<not> has_project companyId projectId db then Inl PROJECT_NOT_FOUND
      else Inr (critical_path_of (project_tasks projectId db) db))"

record portfolio_project =
  po_projectId :: uid
  po_tasks :: "(task_row \<times> bool) list"
  po_milestones :: "milestone list"

definition portfolioSchedule :: "uid \<Rightarrow> uid list \<Rightarrow> plan_db \<Rightarrow> portfolio_project list" where
  "portfolioSchedule companyId projectIds db =
     map (\<lambda>p.
       let tasks = sort_key tk_sortOrder (by_date tk_startDate (project_tasks (pq_id p) db));
           criticalIds = map cr_id (filter cr_critical (critical_path_of tasks db))
       in \<lparr>po_projectId = pq_id p, po_tasks = map (\<lambda>t. (t, tk_id t \<in> set criticalIds)) tasks,
           po_milestones = filter (\<lambda>m. me_projectId m = pq_id p) (pl_milestones db)\<rparr>)
       (filter (\<lambda>p. pq_id p \<in> set projectIds \<and> pq_companyId p = companyId) (pd_projects (pl_projects db)))"

record look_ahead =
  lk_task :: task_row
  lk_weekIndex :: int
  lk_ready :: bool
  lk_blockedByTaskNames :: "string list"

text \<open>The finish-to-start predecessors of a task that are not done.\<close>

definition blocked_by :: "uid \<Rightarrow> plan_db \<Rightarrow> task_row list" where
  "blocked_by i db =
     List.map_filter
       (\<lambda>e. if de_successorId e = i \<and> de_type e = Finish_to_start
            then (case find_task (de_predecessorId e) db of
                    None \<Rightarrow> None | Some p \<Rightarrow> if tk_status p \<noteq> Task_done then Some p else None)
            else None)
       (pl_dependencies db)"

definition week_index :: "int \<Rightarrow> date \<Rightarrow> date \<Rightarrow> int" where
  "week_index weeks windowStart d = max 0 (min (weeks - 1) ((d - windowStart) div (7 * CPM_DAY_MS)))"

definition getLookAhead :: "date \<Rightarrow> uid \<Rightarrow> uid \<Rightarrow> int \<Rightarrow> plan_db \<Rightarrow> app_error + look_ahead list" where
  "getLookAhead now companyId projectId weeks db =
     (if \<not> has_project companyId projectId db then Inl PROJECT_NOT_FOUND
      else
        (let windowStart = now - now mod CPM_DAY_MS;
             windowEnd = windowStart + weeks * 7 * CPM_DAY_MS
         in Inr (map (\<lambda>t. \<lparr>lk_task = t, lk_weekIndex = week_index weeks windowStart (the (tk_startDate t)),
                     lk_ready = (blocked_by (tk_id t) db = []),
                     lk_blockedByTaskNames = map tk_name (blocked_by (tk_id t) db)\<rparr>)
              (by_date tk_startDate
                (filter (\<lambda>t. tk_status t \<noteq> Task_done \<and> (case tk_startDate t of None \<Rightarrow> False | Some d \<Rightarrow> d < windowEnd))
                  (project_tasks projectId db))))))"

subsection \<open>Weekly commitments\<close>

definition commitTask ::
  "uid \<Rightarrow> string \<Rightarrow> uid \<Rightarrow> date \<Rightarrow> uid option \<Rightarrow> membership_role option \<Rightarrow> uid plan_op" where
  "commitTask companyId committedByName taskId weekStarting userId role db =
     (case company_task companyId taskId db of
        None \<Rightarrow> (Inl TASK_NOT_FOUND, db)
      | Some task \<Rightarrow>
          (case assertAccess companyId (tk_projectId task) userId role (pl_projects db) of
             Inl e \<Rightarrow> (Inl e, db)
           | Inr _ \<Rightarrow>
               if \<exists>c \<in> set (pl_commitments db). tc_taskId c = taskId \<and> tc_weekStarting c = weekStarting
               then (Inl (BadRequestException (msg ''This task is already committed for that week'')), db)
               else
                 (Inr (pl_uid db),
                  db\<lparr>pl_commitments := pl_commitments db @
                       [\<lparr>tc_id = pl_uid db, tc_companyId = companyId, tc_taskId = taskId, tc_weekStarting = weekStarting,
                         tc_status = Committed, tc_varianceReason = None, tc_committedByName = committedByName,
                         tc_resolvedAt = None\<rparr>],
                     pl_uid := Suc (pl_uid db)\<rparr>)))"

definition resolveCommitment ::
  "date \<Rightarrow> uid \<Rightarrow> uid \<Rightarrow> commitment_status \<Rightarrow> string option \<Rightarrow> uid option \<Rightarrow> membership_role option \<Rightarrow> unit plan_op" where
  "resolveCommitment now companyId i status varianceReason userId role db =
     (case find_row (\<lambda>c. tc_id c = i \<and> tc_companyId c = companyId) (pl_commitments db) of
        None \<Rightarrow> (Inl (NotFoundException (msg ''Commitment not found'')), db)
      | Some c \<Rightarrow>
          (case find_task (tc_taskId c) db of
             None \<Rightarrow> (Inl (NotFoundException (msg ''Commitment not found'')), db)
           | Some task \<Rightarrow>
               (case assertAccess companyId (tk_projectId task) userId role (pl_projects db) of
                  Inl e \<Rightarrow> (Inl e, db)
                | Inr _ \<Rightarrow>
                    if tc_status c \<noteq> Committed
                    then (Inl (BadRequestException (msg ''Only an open commitment can be resolved'')), db)
                    else if status = Missed \<and> \<not> truthy varianceReason
                    then (Inl (BadRequestException (msg ''A variance reason is required when marking a commitment as missed'')), db)
                    else
                      (Inr (), db\<lparr>pl_commitments := update_rows (\<lambda>c. tc_id c = i)
                         (\<lambda>c. c\<lparr>tc_status := status,
                                tc_varianceReason := (if varianceReason = None then tc_varianceReason c else varianceReason),
                                tc_resolvedAt := Some now\<rparr>) (pl_commitments db)\<rparr>))))"

definition project_commitment :: "uid option \<Rightarrow> plan_db \<Rightarrow> task_commitment \<Rightarrow> bool" where
  "project_commitment projectId db c \<longleftrightarrow>
     (case projectId of None \<Rightarrow> True
      | Some p \<Rightarrow> (case find_task (tc_taskId c) db of None \<Rightarrow> False | Some t \<Rightarrow> tk_projectId t = p))"

definition listCommitmentsForProject :: "uid \<Rightarrow> uid \<Rightarrow> plan_db \<Rightarrow> task_commitment list" where
  "listCommitmentsForProject companyId projectId db =
     sort_key (\<lambda>c. - tc_weekStarting c)
       (filter (\<lambda>c. tc_companyId c = companyId \<and> project_commitment (Some projectId) db c) (pl_commitments db))"

text \<open>The key of a week is its first day, \<open>toISOString().slice(0, 10)\<close>, here its number.\<close>

definition ppcReport :: "uid \<Rightarrow> uid option \<Rightarrow> plan_db \<Rightarrow> ppc_result \<times> (int \<times> ppc_result) list" where
  "ppcReport companyId projectId db =
     (let commitments = filter (\<lambda>c. tc_companyId c = companyId \<and> project_commitment projectId db c) (pl_commitments db);
          key = (\<lambda>c. tc_weekStarting c div CPM_DAY_MS)
      in (calculatePpc (map tc_status commitments),
          map (\<lambda>w. (w, calculatePpc (map tc_status (filter (\<lambda>c. key c = w) commitments))))
            (sort (remdups (map key commitments)))))"

subsection \<open>Baselines and milestones\<close>

definition create_baseline :: "uid \<Rightarrow> string \<Rightarrow> uid \<Rightarrow> string \<Rightarrow> schedule_baseline plan_op" where
  "create_baseline companyId createdByName projectId name db =
     (if \<not> has_project companyId projectId db then (Inl PROJECT_NOT_FOUND, db)
      else
        (let b = \<lparr>sb_id = pl_uid db, sb_companyId = companyId, sb_projectId = projectId, sb_name = name,
               sb_createdByName = createdByName,
               sb_tasks = map (\<lambda>t. \<lparr>bt_taskId = tk_id t, bt_name = tk_name t, bt_startDate = tk_startDate t,
                 bt_dueDate = tk_dueDate t\<rparr>) (project_tasks projectId db)\<rparr>
         in (Inr b, db\<lparr>pl_baselines := pl_baselines db @ [b], pl_uid := Suc (pl_uid db)\<rparr>)))"

definition list_baselines :: "uid \<Rightarrow> uid \<Rightarrow> plan_db \<Rightarrow> app_error + schedule_baseline list" where
  "list_baselines companyId projectId db =
     (if \<not> has_project companyId projectId db then Inl PROJECT_NOT_FOUND
      else Inr (rev (filter (\<lambda>b. sb_companyId b = companyId \<and> sb_projectId b = projectId) (pl_baselines db))))"

definition compare_baseline :: "uid \<Rightarrow> uid \<Rightarrow> plan_db \<Rightarrow> app_error + task_slippage list" where
  "compare_baseline companyId i db =
     (case find_row (\<lambda>b. sb_id b = i \<and> sb_companyId b = companyId) (pl_baselines db) of
        None \<Rightarrow> Inl (NotFoundException (msg ''Schedule baseline not found''))
      | Some b \<Rightarrow> Inr (calculateScheduleSlippage (sb_tasks b)
            (map (\<lambda>t. \<lparr>cu_id = tk_id t, cu_name = tk_name t, cu_status = tk_status t, cu_startDate = tk_startDate t,
               cu_dueDate = tk_dueDate t\<rparr>) (project_tasks (sb_projectId b) db))))"

definition list_milestones :: "uid \<Rightarrow> uid \<Rightarrow> plan_db \<Rightarrow> app_error + milestone list" where
  "list_milestones companyId projectId db =
     (if \<not> has_project companyId projectId db then Inl PROJECT_NOT_FOUND
      else Inr (by_date me_dueDate (filter (\<lambda>m. me_projectId m = projectId) (pl_milestones db))))"

definition create_milestone :: "uid \<Rightarrow> uid \<Rightarrow> string \<Rightarrow> date option \<Rightarrow> uid plan_op" where
  "create_milestone companyId projectId name dueDate db =
     (if \<not> has_project companyId projectId db then (Inl PROJECT_NOT_FOUND, db)
      else (Inr (pl_uid db),
        db\<lparr>pl_milestones := pl_milestones db @
             [\<lparr>me_id = pl_uid db, me_projectId = projectId, me_name = name, me_dueDate = dueDate\<rparr>],
           pl_uid := Suc (pl_uid db)\<rparr>))"

end
