(* ===== verification/Task_Laws.thy ===== *)
theory Task_Laws
  imports Tasks
begin

section \<open>What moving a task does to the schedule\<close>

subsection \<open>Reading and writing dates\<close>

definition dep_rel :: "plan_db \<Rightarrow> (uid \<times> uid) set" where
  "dep_rel db = (\<lambda>e. (de_predecessorId e, de_successorId e)) ` set (pl_dependencies db)"

abbreviation downstream :: "uid \<Rightarrow> plan_db \<Rightarrow> uid set" where
  "downstream i db \<equiv> (dep_rel db)\<^sup>+ `` {i}"

text \<open>A task as it stands later: the same, or moved as a whole to a later day.\<close>

definition later :: "task_row \<Rightarrow> task_row \<Rightarrow> bool" where
  "later t t' \<longleftrightarrow> t' = t \<or>
     (\<exists>s d k. tk_startDate t = Some s \<and> tk_dueDate t = Some d \<and> 0 \<le> k \<and>
        t' = t\<lparr>tk_startDate := Some (s + k), tk_dueDate := Some (d + k)\<rparr>)"

definition moved :: "plan_db \<Rightarrow> plan_db \<Rightarrow> bool" where
  "moved db db' \<longleftrightarrow>
     (\<forall>i. rel_option later (find_task i db) (find_task i db')) \<and>
     map tk_id (pl_tasks db') = map tk_id (pl_tasks db) \<and> db'\<lparr>pl_tasks := []\<rparr> = db\<lparr>pl_tasks := []\<rparr>"

lemma later_refl [simp]: "later t t"
  by (simp add: later_def)

lemma later_trans: "later t u \<Longrightarrow> later u v \<Longrightarrow> later t v"
proof (cases "u = t \<or> v = u")
  case False
  assume "later t u" "later u v"
  with False obtain s d k k' where "tk_startDate t = Some s" "tk_dueDate t = Some d" "0 \<le> k" "0 \<le> k'"
    "u = t\<lparr>tk_startDate := Some (s + k), tk_dueDate := Some (d + k)\<rparr>"
    "v = u\<lparr>tk_startDate := Some (s + k + k'), tk_dueDate := Some (d + k + k')\<rparr>"
    by (auto simp: later_def)
  then show ?thesis unfolding later_def
    by (intro disjI2 exI [of _ s] exI [of _ d] exI [of _ "k + k'"]) simp
qed auto

lemma moved_refl [simp]: "moved db db"
  by (simp add: moved_def option.rel_refl)

lemma moved_trans:
  assumes "moved a b" and "moved b c"
  shows "moved a c"
proof -
  have "rel_option later (find_task i a) (find_task i c)" for i
    using assms later_trans unfolding moved_def by (metis (no_types, lifting) option.rel_sel)
  then show ?thesis using assms by (simp add: moved_def)
qed

lemma moved_deps:
  assumes "moved db db'"
  shows "pl_dependencies db' = pl_dependencies db" and "dep_rel db' = dep_rel db"
    and "length (pl_tasks db') = length (pl_tasks db)"
proof -
  have "pl_dependencies (db'\<lparr>pl_tasks := []\<rparr>) = pl_dependencies (db\<lparr>pl_tasks := []\<rparr>)"
    using assms unfolding moved_def by metis
  then show "pl_dependencies db' = pl_dependencies db" by simp
  then show "dep_rel db' = dep_rel db" by (simp add: dep_rel_def)
  show "length (pl_tasks db') = length (pl_tasks db)" using assms unfolding moved_def by (metis length_map)
qed

lemma find_write_dates:
  "find_task i (write_dates j s d db) =
     (if i = j then map_option (\<lambda>t. t\<lparr>tk_startDate := Some s, tk_dueDate := Some d\<rparr>) (find_task i db) else find_task i db)"
  by (simp add: find_task_def write_dates_def find_row_update [where key = tk_id])

lemma find_task_id: "find_task i db = Some t \<Longrightarrow> tk_id t = i"
  unfolding find_task_def by (drule find_row_SomeD) simp

lemma cpm_of_Some:
  "cpm_of t = Some c \<longleftrightarrow> tk_startDate t = Some (ct_startDate c) \<and> tk_dueDate t = Some (ct_dueDate c) \<and> ct_id c = tk_id t"
  by (cases c) (auto simp: cpm_of_def split: option.splits)

text \<open>Pushing a task to a later start than it had when the cascade began, whatever it has now.\<close>

lemma write_moved:
  assumes "moved db0 db" and "find_task j db0 = Some t" and "cpm_of t = Some c" and "ct_startDate c \<le> r"
  shows "moved db0 (write_dates j r (ct_dueDate c + (r - ct_startDate c)) db)"
proof -
  from assms(1,2) obtain u where u: "find_task j db = Some u" "later t u"
    unfolding moved_def by (metis option_rel_Some1)
  have "later t (u\<lparr>tk_startDate := Some r, tk_dueDate := Some (ct_dueDate c + (r - ct_startDate c))\<rparr>)"
    using u(2) assms(3,4) unfolding later_def cpm_of_Some
    by (intro disjI2 exI [of _ "ct_startDate c"] exI [of _ "ct_dueDate c"] exI [of _ "r - ct_startDate c"]) auto
  then have "rel_option later (find_task i db0) (find_task i (write_dates j r (ct_dueDate c + (r - ct_startDate c)) db))" for i
    using assms(1,2) u(1) by (simp add: find_write_dates moved_def)
  then show ?thesis using assms(1) by (simp add: moved_def write_dates_def map_update_rows)
qed

subsection \<open>The cascade\<close>

lemma fold_opt_invariant:
  assumes "\<And>x s s'. x \<in> set xs \<Longrightarrow> P s \<Longrightarrow> f x s = Some s' \<Longrightarrow> P s'" and "P s" and "fold_opt f xs s = Some t"
  shows "P t"
  using assms
proof (induction xs arbitrary: s)
  case (Cons x xs)
  from Cons.prems(3) obtain s' where s: "f x s = Some s'" "fold_opt f xs s' = Some t"
    by (auto simp: bind_eq_Some_conv)
  have "P s'" using Cons.prems(1) [of x s s'] Cons.prems(2) s(1) by simp
  then show ?case using Cons.IH [of s'] Cons.prems(1) s(2) by (meson list.set_intros(2))
qed simp

lemma links_out_iff:
  "(e, t) \<in> set (links_out i db) \<longleftrightarrow>
     e \<in> set (pl_dependencies db) \<and> de_predecessorId e = i \<and> find_task (de_successorId e) db = Some t"
proof -
  have "(e, t) \<in> set (List.map_filter (\<lambda>e. if de_predecessorId e = i then map_option (Pair e) (find_task (de_successorId e) db) else None) es)
     \<longleftrightarrow> e \<in> set es \<and> de_predecessorId e = i \<and> find_task (de_successorId e) db = Some t" for es
    by (induction es) (auto simp: List.map_filter_simps split: option.splits)
  then show ?thesis by (simp only: links_out_def)
qed

definition dates_at :: "uid \<Rightarrow> plan_db \<Rightarrow> cpm_task option" where
  "dates_at i db = Option.bind (find_task i db) cpm_of"

lemma cascade_unfold:
  "cascade_from (Suc n) i (V, db) =
     (if i \<in> set V then Some (V, db)
      else (case dates_at i db of None \<Rightarrow> Some (i # V, db)
            | Some task \<Rightarrow> fold_opt (cascade_edge (cascade_from n) task) (links_out i db) (i # V, db)))"
  by (simp add: dates_at_def Let_def cong: option.case_cong)

text \<open>One edge: nothing, or a write and the cascade of the successor.\<close>

lemma cascade_edgeE:
  assumes "cascade_edge go task (e, t) (V, db) = Some st"
  obtains "st = (V, db)" "\<And>c. cpm_of t = Some c \<Longrightarrow> minSuccessorStart task c (de_type e) (de_lagDays e) \<le> ct_startDate c"
  | c where "cpm_of t = Some c" "ct_startDate c < minSuccessorStart task c (de_type e) (de_lagDays e)"
    "go (tk_id t) (V, write_dates (tk_id t) (minSuccessorStart task c (de_type e) (de_lagDays e))
       (ct_dueDate c + (minSuccessorStart task c (de_type e) (de_lagDays e) - ct_startDate c)) db) = Some st"
proof (cases "cpm_of t")
  case None
  then show ?thesis using assms that(1) by (simp add: cascade_edge_def)
next
  case (Some c)
  then have "ct_id c = tk_id t" by (simp add: cpm_of_Some)
  with Some show ?thesis using assms that
    by (cases "ct_startDate c < minSuccessorStart task c (de_type e) (de_lagDays e)") (auto simp: cascade_edge_def Let_def)
qed

definition same_outside :: "uid set \<Rightarrow> plan_db \<Rightarrow> plan_db \<Rightarrow> bool" where
  "same_outside D db db' \<longleftrightarrow> (\<forall>j. j \<notin> D \<longrightarrow> find_task j db' = find_task j db)"

lemma same_outside_trans: "same_outside D a b \<Longrightarrow> same_outside D' b c \<Longrightarrow> D' \<subseteq> D \<Longrightarrow> same_outside D a c"
  by (auto simp: same_outside_def subset_eq)

lemma same_outside_write: "j \<in> D \<Longrightarrow> same_outside D db (write_dates j s d db)"
  by (auto simp: same_outside_def find_write_dates)

lemma downstream_step: "e \<in> set (pl_dependencies db) \<Longrightarrow> de_predecessorId e = i \<Longrightarrow> de_successorId e \<in> downstream i db"
  by (auto simp: dep_rel_def intro!: r_into_trancl imageI)

lemma downstream_trans: "j \<in> downstream i db \<Longrightarrow> downstream j db \<subseteq> downstream i db"
  by (auto intro: trancl_trans)

lemma downstream_moved: "moved db db' \<Longrightarrow> downstream i db' = downstream i db"
  by (simp add: moved_deps)

text \<open>A cascade only moves tasks downstream, and only to later days than they had.\<close>

lemma cascade_moved:
  "cascade_from n i (V, db) = Some (V', db') \<Longrightarrow>
     moved db db' \<and> same_outside (downstream i db) db db' \<and> set V \<subseteq> set V'"
proof (induction n arbitrary: i V db V' db')
  case (Suc n)
  let ?P = "\<lambda>st. moved db (snd st) \<and> same_outside (downstream i db) db (snd st) \<and> set V \<subseteq> set (fst st)"
  have step: "?P st'" if "x \<in> set (links_out i db)" "?P st" "cascade_edge (cascade_from n) task x st = Some st'" for x st st' task
  proof -
    obtain e t W db1 W' db2 where x: "x = (e, t)" "st = (W, db1)" "st' = (W', db2)" by (cases x, cases st, cases st')
    have t: "find_task (de_successorId e) db = Some t" "de_successorId e \<in> downstream i db" "tk_id t = de_successorId e"
      using that(1) downstream_step [of e db i] find_task_id unfolding x links_out_iff by blast+
    from that(3) [unfolded x] show ?thesis
    proof (cases rule: cascade_edgeE)
      case 1
      then show ?thesis using that(2) x by simp
    next
      case (2 c)
      let ?r = "minSuccessorStart task c (de_type e) (de_lagDays e)"
      let ?w = "write_dates (tk_id t) ?r (ct_dueDate c + (?r - ct_startDate c)) db1"
      have w: "moved db ?w" using write_moved [OF _ t(1) 2(1)] that(2) 2(2) t(3) x(2) by simp
      have "same_outside (downstream i db) db1 ?w" using t(2,3) by (simp only: same_outside_write)
      then have sw: "same_outside (downstream i db) db ?w"
        using that(2) x(2) by (auto intro: same_outside_trans)
      have go: "moved ?w db2" "same_outside (downstream (tk_id t) ?w) ?w db2" "set W \<subseteq> set W'"
        using Suc.IH [OF 2(3)] by blast+
      have "downstream (tk_id t) ?w \<subseteq> downstream i db"
        using downstream_trans [OF t(2)] downstream_moved [OF w] t(3) by simp
      then have "same_outside (downstream i db) db db2" by (rule same_outside_trans [OF sw go(2)])
      then show ?thesis using moved_trans [OF w go(1)] go(3) that(2) x(2,3) by auto
    qed
  qed
  show ?case
  proof (cases "i \<in> set V \<or> dates_at i db = None")
    case True
    then show ?thesis using Suc.prems unfolding cascade_unfold by (auto simp: same_outside_def split: if_splits)
  next
    case False
    then obtain task where task: "dates_at i db = Some task" by blast
    have "?P (i # V, db)" by (auto simp: same_outside_def)
    moreover have "fold_opt (cascade_edge (cascade_from n) task) (links_out i db) (i # V, db) = Some (V', db')"
      using Suc.prems False task unfolding cascade_unfold by simp
    ultimately have "?P (V', db')"
      using fold_opt_invariant [of "links_out i db" ?P "cascade_edge (cascade_from n) task"] step by blast
    then show ?thesis by simp
  qed
qed simp

text \<open>The depth: every call marks a task that was not marked, so one unit of fuel per unmarked task and
  one more are enough.\<close>

lemma fold_opt_total:
  assumes "\<And>x s. x \<in> set xs \<Longrightarrow> P s \<Longrightarrow> \<exists>s'. f x s = Some s' \<and> P s'" and "P s"
  shows "\<exists>t. fold_opt f xs s = Some t"
  using assms
proof (induction xs arbitrary: s)
  case (Cons x xs)
  then obtain s' where "f x s = Some s'" "P s'" by (meson list.set_intros(1))
  with Cons show ?case by simp
qed simp

definition unmarked :: "uid list \<Rightarrow> plan_db \<Rightarrow> nat" where
  "unmarked V db = card (tk_id ` set (pl_tasks db) - set V)"

lemma write_ids: "map tk_id (pl_tasks (write_dates j s d db)) = map tk_id (pl_tasks db)"
  by (simp add: write_dates_def map_update_rows)

lemma unmarked_mono:
  assumes "map tk_id (pl_tasks db') = map tk_id (pl_tasks db)" and "set V \<subseteq> set V'"
  shows "unmarked V' db' \<le> unmarked V db"
proof -
  have "tk_id ` set (pl_tasks db') = tk_id ` set (pl_tasks db)" using assms(1) by (metis list.set_map)
  then show ?thesis unfolding unmarked_def using assms(2) by (auto intro!: card_mono)
qed

lemma unmarked_less:
  assumes "dates_at i db = Some task" and "i \<notin> set V"
  shows "unmarked (i # V) db < unmarked V db"
proof -
  obtain t where "find_task i db = Some t" using assms(1) by (auto simp: dates_at_def bind_eq_Some_conv)
  then have "i \<in> tk_id ` set (pl_tasks db)" unfolding find_task_def by (auto dest: find_row_SomeD)
  with assms(2) have "i \<in> tk_id ` set (pl_tasks db) - set V" by simp
  moreover have "tk_id ` set (pl_tasks db) - set (i # V) = (tk_id ` set (pl_tasks db) - set V) - {i}" by auto
  ultimately show ?thesis unfolding unmarked_def by (metis List.finite_set card_Diff1_less finite_Diff finite_imageI)
qed

lemma cascade_total: "unmarked V db < n \<Longrightarrow> \<exists>st. cascade_from n i (V, db) = Some st"
proof (induction n arbitrary: i V db)
  case (Suc n)
  show ?case
  proof (cases "i \<in> set V \<or> dates_at i db = None")
    case False
    then obtain task where task: "dates_at i db = Some task" by blast
    let ?P = "\<lambda>st. unmarked (fst st) (snd st) < n"
    have "\<exists>st'. cascade_edge (cascade_from n) task x st = Some st' \<and> ?P st'" if "?P st" for x st
    proof -
      obtain e t W db1 where x: "x = (e, t)" "st = (W, db1)" by (cases x, cases st)
      show ?thesis
      proof (cases "cpm_of t")
        case (Some c)
        let ?w = "write_dates (ct_id c) (minSuccessorStart task c (de_type e) (de_lagDays e))
          (ct_dueDate c + (minSuccessorStart task c (de_type e) (de_lagDays e) - ct_startDate c)) db1"
        have small: "unmarked W ?w < n" using that x unmarked_mono [OF write_ids] by (metis fst_conv le_less_trans order_refl snd_conv)
        then obtain W' db2 where go: "cascade_from n (ct_id c) (W, ?w) = Some (W', db2)" using Suc.IH by fast
        have "unmarked W' db2 \<le> unmarked W ?w"
          using cascade_moved [OF go] unmarked_mono unfolding moved_def by blast
        with small go Some that x show ?thesis by (auto simp: cascade_edge_def Let_def)
      qed (use that x in \<open>auto simp: cascade_edge_def\<close>)
    qed
    moreover have "?P (i # V, db)" using unmarked_less [OF task] False Suc.prems by fastforce
    ultimately have "\<exists>st. fold_opt (cascade_edge (cascade_from n) task) (links_out i db) (i # V, db) = Some st"
      by (rule fold_opt_total)
    then show ?thesis using False task unfolding cascade_unfold by simp
  qed (auto simp: cascade_unfold simp del: cascade_from.simps)
qed simp

lemma cascadeShift_eq:
  obtains V where "cascade_from (Suc (length (pl_tasks db))) i ([], db) = Some (V, cascadeShift i db)"
proof -
  have "unmarked [] db \<le> length (pl_tasks db)"
    unfolding unmarked_def using card_length [of "map tk_id (pl_tasks db)"] by simp
  then have "\<exists>st. cascade_from (Suc (length (pl_tasks db))) i ([], db) = Some st" by (intro cascade_total) simp
  then obtain V db' where "cascade_from (Suc (length (pl_tasks db))) i ([], db) = Some (V, db')" by fast
  with that show ?thesis by (simp add: cascadeShift_def)
qed

subsection \<open>The dependencies it leaves satisfied\<close>

definition link_ok :: "plan_db \<Rightarrow> dependency_row \<Rightarrow> bool" where
  "link_ok db e \<longleftrightarrow>
     (case (dates_at (de_predecessorId e) db, dates_at (de_successorId e) db) of
        (Some p, Some s) \<Rightarrow> minSuccessorStart p s (de_type e) (de_lagDays e) \<le> ct_startDate s
      | _ \<Rightarrow> True)"

text \<open>The database rejects a second dependency between two tasks.\<close>

definition links_unique :: "plan_db \<Rightarrow> bool" where
  "links_unique db \<longleftrightarrow> distinct (map (\<lambda>e. (de_predecessorId e, de_successorId e)) (pl_dependencies db))"

lemma links_uniqueD:
  "links_unique db \<Longrightarrow> e \<in> set (pl_dependencies db) \<Longrightarrow> e' \<in> set (pl_dependencies db) \<Longrightarrow>
   de_predecessorId e = de_predecessorId e' \<Longrightarrow> de_successorId e = de_successorId e' \<Longrightarrow> e = e'"
  unfolding links_unique_def distinct_map inj_on_def by simp

text \<open>A move keeps a task's length, so what it needs of its predecessors moves along or stays.\<close>

lemma later_dates:
  assumes "later t t'" and "cpm_of t = Some c"
  obtains c' where "cpm_of t' = Some c'" "ct_startDate c \<le> ct_startDate c'" "duration c' = duration c" "ct_id c' = ct_id c"
proof -
  from assms obtain k where "0 \<le> k" "tk_startDate t' = Some (ct_startDate c + k)" "tk_dueDate t' = Some (ct_dueDate c + k)"
    "tk_id t' = tk_id t" unfolding later_def cpm_of_Some by (elim disjE exE conjE) (auto intro: that [of 0])
  with that [of "\<lparr>ct_id = ct_id c, ct_startDate = ct_startDate c + k, ct_dueDate = ct_dueDate c + k\<rparr>"] assms(2)
  show ?thesis by (simp add: cpm_of_Some duration_def diffDays_def)
qed

lemma moved_dates:
  assumes "moved db db'" and "dates_at j db = Some c"
  obtains c' where "dates_at j db' = Some c'" "ct_startDate c \<le> ct_startDate c'" "duration c' = duration c"
proof -
  from assms(2) obtain t where t: "find_task j db = Some t" "cpm_of t = Some c" by (auto simp: dates_at_def bind_eq_Some_conv)
  with assms(1) obtain t' where t': "find_task j db' = Some t'" "later t t'" unfolding moved_def by (metis option_rel_Some1)
  from later_dates [OF t'(2) t(2)] that t' show ?thesis by (auto simp: dates_at_def)
qed

lemma minSuccessorStart_duration:
  "duration s = duration s' \<Longrightarrow> minSuccessorStart p s kind lag = minSuccessorStart p s' kind lag"
  by (simp add: minSuccessorStart_def)

definition starts_by :: "uid \<Rightarrow> date \<Rightarrow> plan_db \<Rightarrow> bool" where
  "starts_by j r db \<longleftrightarrow> (\<forall>c. dates_at j db = Some c \<longrightarrow> r \<le> ct_startDate c)"

lemma starts_by_moved:
  assumes "moved db db'" and "dates_at j db \<noteq> None" and "starts_by j r db"
  shows "starts_by j r db'"
proof -
  from assms(2) obtain c where c: "dates_at j db = Some c" by blast
  from moved_dates [OF assms(1) c] obtain c' where "dates_at j db' = Some c'" "ct_startDate c \<le> ct_startDate c'" by blast
  moreover have "r \<le> ct_startDate c" using assms(3) c by (simp add: starts_by_def)
  ultimately show ?thesis by (simp add: starts_by_def)
qed

definition served :: "cpm_task \<Rightarrow> dependency_row \<times> task_row \<Rightarrow> plan_db \<Rightarrow> bool" where
  "served task l db \<longleftrightarrow> (\<forall>c. cpm_of (snd l) = Some c \<longrightarrow>
     starts_by (tk_id (snd l)) (minSuccessorStart task c (de_type (fst l)) (de_lagDays (fst l))) db)"

lemma served_moved:
  assumes "moved db db1" and "l \<in> set (links_out i db)" and "served task l db1" and "moved db1 db2"
  shows "served task l db2"
  unfolding served_def
proof (intro allI impI)
  fix c assume c: "cpm_of (snd l) = Some c"
  have f: "find_task (de_successorId (fst l)) db = Some (snd l)" using assms(2) links_out_iff by (metis prod.collapse)
  then have "dates_at (tk_id (snd l)) db = Some c" using c find_task_id [OF f] by (simp add: dates_at_def)
  then have "dates_at (tk_id (snd l)) db1 \<noteq> None" using moved_dates [OF assms(1)] by fastforce
  with assms(3,4) c show "starts_by (tk_id (snd l)) (minSuccessorStart task c (de_type (fst l)) (de_lagDays (fst l))) db2"
    unfolding served_def using starts_by_moved by blast
qed

lemma cascade_edge_serves:
  assumes "links_unique db" and "l \<in> set (links_out i db)" and "moved db db1"
    and "cascade_edge (cascade_from n) task l (W, db1) = Some (W', db2)"
  shows "moved db db2 \<and> served task l db2 \<and> (\<forall>y \<in> set (links_out i db). served task y db1 \<longrightarrow> served task y db2)"
proof -
  obtain e t where l: "l = (e, t)" by (cases l)
  have t: "find_task (de_successorId e) db = Some t" "tk_id t = de_successorId e" "e \<in> set (pl_dependencies db)" "de_predecessorId e = i"
    using assms(2) find_task_id unfolding l links_out_iff by blast+
  from assms(4) [unfolded l] show ?thesis
  proof (cases rule: cascade_edgeE)
    case 1
    have "served task l db" using 1(2) t(1,2) by (simp add: served_def starts_by_def dates_at_def l)
    then have "served task l db1" by (rule served_moved [OF moved_refl assms(2) _ assms(3)])
    with 1(1) assms(3) show ?thesis by simp
  next
    case (2 c)
    define r where "r = minSuccessorStart task c (de_type e) (de_lagDays e)"
    define w where "w = write_dates (tk_id t) r (ct_dueDate c + (r - ct_startDate c)) db1"
    have go: "moved w db2" using cascade_moved 2(3) unfolding w_def r_def by blast
    have dw: "moved db w" unfolding w_def by (rule write_moved [OF assms(3) _ 2(1)]) (use t 2(2) in \<open>simp_all add: r_def\<close>)
    have "starts_by (tk_id t) r w"
      by (auto simp: starts_by_def w_def dates_at_def find_write_dates cpm_of_Some bind_eq_Some_conv)
    then have "served task l w" using 2(1) by (simp add: served_def l r_def)
    then have "served task l db2" by (rule served_moved [OF dw assms(2) _ go])
    moreover have "served task y db2" if y: "y \<in> set (links_out i db)" "served task y db1" for y
    proof (cases "y = l")
      case False
      obtain e' t' where e': "y = (e', t')" by (cases y)
      have t': "find_task (de_successorId e') db = Some t'" "tk_id t' = de_successorId e'" "e' \<in> set (pl_dependencies db)" "de_predecessorId e' = i"
        using y(1) find_task_id unfolding e' links_out_iff by blast+
      have "tk_id t' \<noteq> tk_id t"
      proof
        assume eq: "tk_id t' = tk_id t"
        then have "de_successorId e' = de_successorId e" "t' = t" using t(1,2) t'(1,2) by simp_all
        moreover from this have "e' = e" using links_uniqueD [OF assms(1) t'(3) t(3)] t(4) t'(4) by simp
        ultimately show False using False l e' by simp
      qed
      then have "served task y w" using y(2) by (simp add: served_def starts_by_def e' w_def dates_at_def find_write_dates)
      then show ?thesis by (rule served_moved [OF dw y(1) _ go])
    qed (use \<open>served task l db2\<close> in simp)
    ultimately show ?thesis using moved_trans [OF dw go] by blast
  qed
qed

lemma cascade_edges_serve:
  assumes "links_unique db" and "set ls \<subseteq> set (links_out i db)" and "moved db db1"
    and "fold_opt (cascade_edge (cascade_from n) task) ls (W, db1) = Some (W', db2)"
    and "Q \<subseteq> set (links_out i db)" and "\<forall>l \<in> Q. served task l db1"
  shows "\<forall>l \<in> Q \<union> set ls. served task l db2"
  using assms(2-6)
proof (induction ls arbitrary: W db1 Q)
  case (Cons l ls)
  from Cons.prems(3) obtain W1 db' where step: "cascade_edge (cascade_from n) task l (W, db1) = Some (W1, db')"
    and rest: "fold_opt (cascade_edge (cascade_from n) task) ls (W1, db') = Some (W', db2)"
    by (auto simp: bind_eq_Some_conv)
  have l: "l \<in> set (links_out i db)" using Cons.prems(1) by simp
  note s = cascade_edge_serves [OF assms(1) l Cons.prems(2) step]
  have "\<forall>x \<in> insert l Q \<union> set ls. served task x db2"
    by (rule Cons.IH [OF _ _ rest]) (use s Cons.prems(1,4,5) in auto)
  then show ?case by simp
qed simp

lemma dates_outside: "same_outside D db db' \<Longrightarrow> j \<notin> D \<Longrightarrow> dates_at j db' = dates_at j db"
  by (simp add: same_outside_def dates_at_def)

lemma cascade_direct:
  assumes "cascade_from (Suc n) i (V, db) = Some (V', db')" and "i \<notin> set V" and "links_unique db"
    and "i \<notin> downstream i db" and "e \<in> set (pl_dependencies db)" and "de_predecessorId e = i"
  shows "link_ok db' e"
proof (cases "dates_at i db")
  case None
  then show ?thesis using assms(1,2,6) None unfolding cascade_unfold by (simp add: link_ok_def)
next
  case (Some task)
  have m: "moved db db'" "same_outside (downstream i db) db db'" using cascade_moved [OF assms(1)] by blast+
  have "dates_at i db' = Some task" using dates_outside [OF m(2) assms(4)] Some by simp
  moreover have "minSuccessorStart task c' (de_type e) (de_lagDays e) \<le> ct_startDate c'"
    if c': "dates_at (de_successorId e) db' = Some c'" for c'
  proof -
    from c' obtain t' where "find_task (de_successorId e) db' = Some t'" by (auto simp: dates_at_def bind_eq_Some_conv)
    with m(1) obtain t where t: "find_task (de_successorId e) db = Some t" "later t t'"
      unfolding moved_def by (metis option_rel_Some2)
    have l: "(e, t) \<in> set (links_out i db)" using t(1) assms(5,6) by (simp add: links_out_iff)
    have "fold_opt (cascade_edge (cascade_from n) task) (links_out i db) (i # V, db) = Some (V', db')"
      using assms(1,2) Some unfolding cascade_unfold by simp
    from cascade_edges_serve [OF assms(3) order_refl moved_refl this, of "{}"] l have srv: "served task (e, t) db'" by simp
    have "cpm_of t \<noteq> None" using c' t \<open>find_task (de_successorId e) db' = Some t'\<close>
      by (auto simp: later_def dates_at_def cpm_of_def split: option.splits)
    then obtain c where c: "cpm_of t = Some c" by blast
    then have "dates_at (de_successorId e) db = Some c" using t(1) by (simp add: dates_at_def)
    from moved_dates [OF m(1) this] c' have "duration c' = duration c" by auto
    then have "minSuccessorStart task c' (de_type e) (de_lagDays e) = minSuccessorStart task c (de_type e) (de_lagDays e)"
      by (rule minSuccessorStart_duration)
    moreover have "starts_by (tk_id t) (minSuccessorStart task c (de_type e) (de_lagDays e)) db'"
      using srv c by (simp add: served_def)
    ultimately show ?thesis using c' find_task_id [OF t(1)] by (simp add: starts_by_def)
  qed
  ultimately show ?thesis using assms(6) by (simp add: link_ok_def split: option.split)
qed

end
