(* ===== verification/Task_Plans.thy ===== *)
theory Task_Plans
  imports Task_Laws
begin

section \<open>Schedules that stay consistent\<close>

subsection \<open>Where every task waits for one other\<close>

text \<open>Below task \<open>i\<close> no task has two predecessors: the branches of the cascade do not meet.\<close>

definition single_pred :: "uid \<Rightarrow> plan_db \<Rightarrow> bool" where
  "single_pred i db \<longleftrightarrow> (\<forall>e \<in> set (pl_dependencies db). \<forall>e' \<in> set (pl_dependencies db).
     de_successorId e = de_successorId e' \<and> de_successorId e \<in> downstream i db \<longrightarrow> e = e')"

definition branch :: "uid \<Rightarrow> plan_db \<Rightarrow> uid set" where
  "branch j db = insert j (downstream j db)"

lemma dep_relE:
  assumes "(p, s) \<in> dep_rel db"
  obtains e where "e \<in> set (pl_dependencies db)" "de_predecessorId e = p" "de_successorId e = s"
  using assms by (auto simp: dep_rel_def)

lemma single_pred_unique:
  "single_pred i db \<Longrightarrow> (p, x) \<in> dep_rel db \<Longrightarrow> (p', x) \<in> dep_rel db \<Longrightarrow> x \<in> downstream i db \<Longrightarrow> p = p'"
  unfolding single_pred_def by (metis dep_relE)

lemma branch_iff: "x \<in> branch j db \<longleftrightarrow> (j, x) \<in> (dep_rel db)\<^sup>*"
  by (auto simp: branch_def rtrancl_eq_or_trancl)

lemma branch_downstream: "(i, j) \<in> dep_rel db \<Longrightarrow> branch j db \<subseteq> downstream i db"
  by (auto simp: branch_iff intro: rtrancl_into_trancl2)

lemma branches_comparable:
  assumes "single_pred i db" and "(s, x) \<in> (dep_rel db)\<^sup>*" and "(i, s) \<in> dep_rel db"
  shows "(s', x) \<in> (dep_rel db)\<^sup>* \<Longrightarrow> (s, s') \<in> (dep_rel db)\<^sup>* \<or> (s', s) \<in> (dep_rel db)\<^sup>*"
  using assms(2)
proof (induction rule: rtrancl_induct)
  case (step y x)
  show ?case
  proof (cases "s' = x")
    case False
    then obtain z where z: "(s', z) \<in> (dep_rel db)\<^sup>*" "(z, x) \<in> dep_rel db" using step.prems by (metis rtranclE)
    have "x \<in> downstream i db"
      using assms(3) step.hyps by (auto intro: rtrancl_into_trancl2 rtrancl_into_rtrancl)
    with single_pred_unique [OF assms(1) z(2) step.hyps(2)] have "z = y" by blast
    with z(1) step.IH show ?thesis by blast
  qed (use step.hyps in \<open>auto intro: rtrancl_into_rtrancl\<close>)
qed blast

lemma branches_meet_once:
  assumes "single_pred i db" and "acyclic (dep_rel db)" and "(i, s) \<in> dep_rel db" and "(i, s') \<in> dep_rel db"
    and "(s, s') \<in> (dep_rel db)\<^sup>*"
  shows "s = s'"
proof (rule ccontr)
  assume "s \<noteq> s'"
  then obtain z where z: "(s, z) \<in> (dep_rel db)\<^sup>*" "(z, s') \<in> dep_rel db" using assms(5) by (metis rtranclE)
  have "s' \<in> downstream i db" using assms(4) by auto
  with single_pred_unique [OF assms(1) z(2) assms(4)] have "z = i" by blast
  with z(1) assms(3) have "(i, i) \<in> (dep_rel db)\<^sup>+" by (simp add: rtrancl_into_trancl2)
  with assms(2) show False by (simp add: acyclic_def)
qed

lemma branches_disjoint:
  assumes "single_pred i db" and "acyclic (dep_rel db)" and "(i, s) \<in> dep_rel db" and "(i, s') \<in> dep_rel db"
    and "s \<noteq> s'"
  shows "branch s db \<inter> branch s' db = {}"
  using branches_comparable [OF assms(1) _ assms(3), of _ s'] branches_meet_once [OF assms(1,2)] assms(3-5)
  unfolding branch_iff [symmetric] by (metis branch_iff disjoint_iff)

lemma branch_split:
  assumes "x \<in> downstream i db"
  obtains s where "(i, s) \<in> dep_rel db" "x \<in> branch s db"
  using assms unfolding branch_iff by (meson Image_singleton_iff tranclD)

lemma branch_closed: "e \<in> set (pl_dependencies db) \<Longrightarrow> de_predecessorId e \<in> branch j db \<Longrightarrow> de_successorId e \<in> branch j db"
  unfolding branch_iff by (rule rtrancl_into_rtrancl) (auto simp: dep_rel_def)

lemma link_ok_cong:
  "dates_at (de_predecessorId e) db' = dates_at (de_predecessorId e) db \<Longrightarrow>
   dates_at (de_successorId e) db' = dates_at (de_successorId e) db \<Longrightarrow> link_ok db' e = link_ok db e"
  by (simp add: link_ok_def)

text \<open>One branch after another: what the cascade of one branch does is not seen in the others.\<close>

definition below_ok :: "uid set \<Rightarrow> plan_db \<Rightarrow> bool" where
  "below_ok D db \<longleftrightarrow> (\<forall>e \<in> set (pl_dependencies db). de_predecessorId e \<in> D \<longrightarrow> link_ok db e)"

lemma single_pred_below: "single_pred i db \<Longrightarrow> j \<in> downstream i db \<Longrightarrow> single_pred j db"
  unfolding single_pred_def using downstream_trans by blast

lemma acyclic_notin: "acyclic (dep_rel db) \<Longrightarrow> i \<notin> downstream i db"
  by (simp add: acyclic_def)

lemma below_ok_outside:
  assumes "same_outside D db db'" and "pl_dependencies db' = pl_dependencies db" and "below_ok E db"
    and "\<And>e. e \<in> set (pl_dependencies db) \<Longrightarrow> de_predecessorId e \<in> E \<Longrightarrow> de_predecessorId e \<notin> D \<and> de_successorId e \<notin> D"
  shows "below_ok E db'"
  using assms dates_outside [OF assms(1)] link_ok_cong unfolding below_ok_def by metis

lemma links_out_distinct:
  assumes "links_unique db"
  shows "distinct (map (\<lambda>l. de_successorId (fst l)) (links_out i db))"
proof -
  define f where "f = (\<lambda>e :: dependency_row. if de_predecessorId e = i then map_option (Pair e) (find_task (de_successorId e) db) else None)"
  have f: "f e = Some l \<Longrightarrow> fst l = e \<and> de_predecessorId e = i" for e l by (auto simp: f_def split: if_splits)
  have sub: "l \<in> set (List.map_filter f es) \<Longrightarrow> fst l \<in> set es \<and> de_predecessorId (fst l) = i" for l es
    using f by (induction es) (auto simp: List.map_filter_simps split: option.splits)
  have "distinct (map (\<lambda>l. de_successorId (fst l)) (List.map_filter f es))"
    if "distinct (map (\<lambda>e. (de_predecessorId e, de_successorId e)) es)" for es
    using that
  proof (induction es)
    case (Cons e es)
    show ?case
    proof (cases "f e")
      case (Some l)
      have "de_successorId (fst l) \<noteq> de_successorId (fst l')" if "l' \<in> set (List.map_filter f es)" for l'
        using Cons.prems f [OF Some] sub [OF that] by (auto simp: image_iff)
      with Some Cons show ?thesis by (fastforce simp: List.map_filter_simps)
    qed (use Cons in \<open>simp add: List.map_filter_simps\<close>)
  qed (simp add: List.map_filter_simps)
  note key = this
  from assms have "distinct (map (\<lambda>e. (de_predecessorId e, de_successorId e)) (pl_dependencies db))"
    by (simp only: links_unique_def)
  from key [OF this] show ?thesis by (simp only: links_out_def f_def)
qed

text \<open>What holds while the edges of \<open>i\<close> are worked off: the branches still to come are untouched.\<close>

definition fresh_branch :: "plan_db \<Rightarrow> uid list \<times> plan_db \<Rightarrow> dependency_row \<times> task_row \<Rightarrow> bool" where
  "fresh_branch db st l \<longleftrightarrow>
     set (fst st) \<inter> branch (de_successorId (fst l)) db = {} \<and>
     (\<forall>j \<in> branch (de_successorId (fst l)) db. find_task j (snd st) = find_task j db)"

definition tree_inv :: "uid \<Rightarrow> plan_db \<Rightarrow> uid list \<Rightarrow> cascade \<Rightarrow> bool" where
  "tree_inv i db V st \<longleftrightarrow> moved db (snd st) \<and> below_ok (downstream i db) (snd st) \<and> set (fst st) \<subseteq> set V \<union> branch i db"

lemma branch_moved: "moved db db' \<Longrightarrow> branch j db' = branch j db"
  by (simp add: branch_def moved_deps)

lemma tree_edge:
  assumes IH: "\<And>j W d W' d'. cascade_from n j (W, d) = Some (W', d') \<Longrightarrow> acyclic (dep_rel d) \<Longrightarrow> links_unique d \<Longrightarrow>
      single_pred j d \<Longrightarrow> set W \<inter> branch j d = {} \<Longrightarrow> below_ok (downstream j d) d \<Longrightarrow>
      below_ok (branch j d) d' \<and> set W' \<subseteq> set W \<union> branch j d"
    and g: "acyclic (dep_rel db)" "links_unique db" "single_pred i db"
    and l: "(e, t) \<in> set (links_out i db)"
    and inv: "tree_inv i db V (W, db1)" and fresh: "fresh_branch db (W, db1) (e, t)"
    and step: "cascade_edge (cascade_from n) task (e, t) (W, db1) = Some (W', db2)"
  shows "tree_inv i db V (W', db2) \<and> set W' \<subseteq> set W \<union> branch (de_successorId e) db \<and>
    same_outside (branch (de_successorId e) db) db1 db2"
  using step
proof (cases rule: cascade_edgeE)
  case 1
  with inv show ?thesis by (simp add: same_outside_def)
next
  case (2 c)
  let ?s = "de_successorId e"
  define r where "r = minSuccessorStart task c (de_type e) (de_lagDays e)"
  define w where "w = write_dates ?s r (ct_dueDate c + (r - ct_startDate c)) db1"
  have t: "find_task ?s db = Some t" "tk_id t = ?s" "e \<in> set (pl_dependencies db)" "de_predecessorId e = i"
    using l find_task_id unfolding links_out_iff by blast+
  then have s: "(i, ?s) \<in> dep_rel db" by (auto simp: dep_rel_def)
  have m1: "moved db db1" and b1: "below_ok (downstream i db) db1" and W: "set W \<subseteq> set V \<union> branch i db"
    using inv by (simp_all add: tree_inv_def)
  have go: "cascade_from n ?s (W, w) = Some (W', db2)" using 2(3) t(2) by (simp add: w_def r_def)
  have mw: "moved db w" unfolding w_def by (rule write_moved [OF m1 t(1) 2(1)]) (use 2(2) in \<open>simp add: r_def\<close>)
  have deps: "dep_rel w = dep_rel db" "pl_dependencies w = pl_dependencies db" "pl_dependencies db1 = pl_dependencies db"
    using mw m1 by (simp_all add: moved_deps)
  have below_s: "branch ?s db \<subseteq> downstream i db" by (rule branch_downstream [OF s])
  have ww: "same_outside {?s} db1 w" by (simp add: w_def same_outside_write)
  have "below_ok (downstream ?s db) w"
  proof (rule below_ok_outside [OF ww])
    show "below_ok (downstream ?s db) db1" using b1 below_s by (auto simp: below_ok_def branch_def)
    fix x assume "x \<in> set (pl_dependencies db1)" "de_predecessorId x \<in> downstream ?s db"
    then show "de_predecessorId x \<notin> {?s} \<and> de_successorId x \<notin> {?s}"
      using g(1) deps(3) by (auto simp: acyclic_def dep_rel_def intro: trancl_into_trancl dest: trancl_into_trancl [of ?s _ _ "de_successorId x"])
  qed (use deps in simp)
  moreover have "single_pred ?s w"
    using single_pred_below [OF g(3), of ?s] below_s deps by (auto simp: single_pred_def branch_def)
  moreover have "set W \<inter> branch ?s w = {}" using fresh deps(1) by (simp add: fresh_branch_def branch_def)
  moreover have "links_unique w" using g(2) deps(2) by (simp add: links_unique_def)
  ultimately have rec: "below_ok (branch ?s db) db2" "set W' \<subseteq> set W \<union> branch ?s db"
    using IH [OF go] g(1) deps(1) by (simp_all add: branch_def)
  have c: "moved w db2" "same_outside (downstream ?s w) w db2" using cascade_moved [OF go] by blast+
  have so: "same_outside (branch ?s db) db1 db2"
    using ww c(2) deps(1) by (auto simp: same_outside_def branch_def)
  have d2: "pl_dependencies db2 = pl_dependencies db" using moved_deps [OF c(1)] deps(2) by simp
  have "link_ok db2 x" if x: "x \<in> set (pl_dependencies db)" "de_predecessorId x \<in> downstream i db" for x
  proof (cases "de_predecessorId x \<in> branch ?s db")
    case True
    then show ?thesis using rec(1) x(1) d2 by (simp add: below_ok_def)
  next
    case False
    obtain q where q: "(i, q) \<in> dep_rel db" "de_predecessorId x \<in> branch q db" using x(2) by (rule branch_split)
    then have "q \<noteq> ?s" using False by blast
    then have "branch q db \<inter> branch ?s db = {}" by (rule branches_disjoint [OF g(3,1) q(1) s])
    then have "de_successorId x \<notin> branch ?s db" using branch_closed [OF x(1) q(2)] by blast
    with False so have "link_ok db2 x = link_ok db1 x" by (intro link_ok_cong) (simp_all add: dates_outside)
    then show ?thesis using b1 x deps(3) by (simp add: below_ok_def)
  qed
  then have "below_ok (downstream i db) db2" by (simp add: below_ok_def d2)
  moreover have "branch ?s db \<subseteq> branch i db" using below_s by (auto simp: branch_def)
  ultimately show ?thesis using moved_trans [OF mw c(1)] rec(2) W so by (auto simp: tree_inv_def)
qed

lemma link_rel: "l \<in> set (links_out i db) \<Longrightarrow> (i, de_successorId (fst l)) \<in> dep_rel db"
  by (cases l) (auto simp: links_out_iff dep_rel_def)

lemma tree_edges:
  assumes IH: "\<And>j W d W' d'. cascade_from n j (W, d) = Some (W', d') \<Longrightarrow> acyclic (dep_rel d) \<Longrightarrow> links_unique d \<Longrightarrow>
      single_pred j d \<Longrightarrow> set W \<inter> branch j d = {} \<Longrightarrow> below_ok (downstream j d) d \<Longrightarrow>
      below_ok (branch j d) d' \<and> set W' \<subseteq> set W \<union> branch j d"
    and g: "acyclic (dep_rel db)" "links_unique db" "single_pred i db"
  shows "set ls \<subseteq> set (links_out i db) \<Longrightarrow> distinct (map (\<lambda>l. de_successorId (fst l)) ls) \<Longrightarrow>
    tree_inv i db V st \<Longrightarrow> \<forall>l \<in> set ls. fresh_branch db st l \<Longrightarrow>
    fold_opt (cascade_edge (cascade_from n) task) ls st = Some st' \<Longrightarrow> tree_inv i db V st'"
proof (induction ls arbitrary: st)
  case (Cons l ls)
  obtain e t where l: "l = (e, t)" by (cases l)
  obtain W db1 where st: "st = (W, db1)" by (cases st)
  from Cons.prems(5) obtain W1 db2 where step: "cascade_edge (cascade_from n) task (e, t) (W, db1) = Some (W1, db2)"
    and rest: "fold_opt (cascade_edge (cascade_from n) task) ls (W1, db2) = Some st'"
    unfolding l st by (auto simp: bind_eq_Some_conv)
  have le: "(e, t) \<in> set (links_out i db)" using Cons.prems(1) l by simp
  have fresh: "fresh_branch db (W, db1) (e, t)" using Cons.prems(4) l st by simp
  have inv: "tree_inv i db V (W, db1)" using Cons.prems(3) st by simp
  have after: "tree_inv i db V (W1, db2)" "set W1 \<subseteq> set W \<union> branch (de_successorId e) db"
    "same_outside (branch (de_successorId e) db) db1 db2"
    using tree_edge [OF IH g le inv fresh step] by blast+
  have "fresh_branch db (W1, db2) l'" if l': "l' \<in> set ls" for l'
  proof -
    have "(i, de_successorId (fst l')) \<in> dep_rel db" "(i, de_successorId e) \<in> dep_rel db"
      using Cons.prems(1) l' link_rel [OF le] by (auto intro: link_rel)
    moreover have "de_successorId (fst l') \<noteq> de_successorId e" using Cons.prems(2) l' l by (auto simp: image_iff)
    ultimately have dis: "branch (de_successorId (fst l')) db \<inter> branch (de_successorId e) db = {}"
      using branches_disjoint [OF g(3,1)] by blast
    have "fresh_branch db (W, db1) l'" using Cons.prems(4) l' st by simp
    with dis after(2,3) show ?thesis unfolding fresh_branch_def same_outside_def by auto
  qed
  then show ?case using Cons.IH [OF _ _ after(1) _ rest] Cons.prems(1,2) by simp
qed simp

lemma tree_cascade:
  "cascade_from n i (V, db) = Some (V', db') \<Longrightarrow> acyclic (dep_rel db) \<Longrightarrow> links_unique db \<Longrightarrow> single_pred i db \<Longrightarrow>
   set V \<inter> branch i db = {} \<Longrightarrow> below_ok (downstream i db) db \<Longrightarrow>
   below_ok (branch i db) db' \<and> set V' \<subseteq> set V \<union> branch i db"
proof (induction n arbitrary: i V db V' db')
  case (Suc n)
  have i: "i \<notin> set V" using Suc.prems(5) by (auto simp: branch_def)
  have m: "moved db db'" using cascade_moved [OF Suc.prems(1)] by blast
  have inv: "tree_inv i db V (V', db')"
  proof (cases "dates_at i db")
    case None
    then show ?thesis using Suc.prems(1,6) i unfolding cascade_unfold by (auto simp: tree_inv_def branch_def)
  next
    case (Some task)
    have run: "fold_opt (cascade_edge (cascade_from n) task) (links_out i db) (i # V, db) = Some (V', db')"
      using Suc.prems(1) i Some unfolding cascade_unfold by simp
    have start: "tree_inv i db V (i # V, db)" using Suc.prems(6) by (auto simp: tree_inv_def branch_def)
    have fresh: "\<forall>l \<in> set (links_out i db). fresh_branch db (i # V, db) l"
    proof
      fix l assume "l \<in> set (links_out i db)"
      then have "(i, de_successorId (fst l)) \<in> dep_rel db" by (rule link_rel)
      then have "branch (de_successorId (fst l)) db \<subseteq> downstream i db" by (rule branch_downstream)
      moreover have "i \<notin> downstream i db" using Suc.prems(2) by (rule acyclic_notin)
      ultimately show "fresh_branch db (i # V, db) l" using Suc.prems(5) by (auto simp: fresh_branch_def branch_def)
    qed
    show ?thesis
      by (rule tree_edges [OF _ Suc.prems(2,3,4) order_refl links_out_distinct [OF Suc.prems(3)] start fresh run])
        (rule Suc.IH)
  qed
  have deps: "pl_dependencies db' = pl_dependencies db" using m by (rule moved_deps)
  have "link_ok db' e" if e: "e \<in> set (pl_dependencies db)" "de_predecessorId e \<in> branch i db" for e
  proof (cases "de_predecessorId e = i")
    case True
    then show ?thesis using cascade_direct [OF Suc.prems(1) i Suc.prems(3) acyclic_notin [OF Suc.prems(2)] e(1)] by simp
  next
    case False
    then show ?thesis using e inv deps by (simp add: tree_inv_def below_ok_def branch_def)
  qed
  then show ?case using inv deps by (auto simp: below_ok_def tree_inv_def)
qed simp

subsection \<open>The check for circular chains\<close>

lemma enqueue_new_sets:
  "enqueue_new is (queue, seen) = (queue', seen') \<Longrightarrow>
   set seen' = set seen \<union> set is \<and> set queue' = set queue \<union> (set is - set seen)"
  by (induction "is" arbitrary: queue seen) (fastforce split: if_splits)+

definition links_rel :: "dependency_row list \<Rightarrow> (uid \<times> uid) set" where
  "links_rel edges = (\<lambda>e. (de_predecessorId e, de_successorId e)) ` set edges"

lemma succs_of_iff: "y \<in> set (succs_of edges x) \<longleftrightarrow> (x, y) \<in> links_rel edges"
  by (force simp: succs_of_def links_rel_def)

text \<open>A path that leaves a set of visited tasks passes through the queue.\<close>

lemma path_leaves:
  assumes "(x, goal) \<in> (links_rel edges)\<^sup>*" and "goal \<notin> P"
    and "\<forall>x \<in> P. set (succs_of edges x) \<subseteq> P \<union> Q"
  shows "x \<in> P \<Longrightarrow> \<exists>q \<in> Q. (q, goal) \<in> (links_rel edges)\<^sup>*"
  using assms(1)
proof (induction rule: converse_rtrancl_induct)
  case (step x y)
  then have "y \<in> P \<union> Q" using assms(3) succs_of_iff by blast
  with step show ?case by blast
qed (use assms(2) in blast)

lemma cycle_search_iff:
  "set seen = P \<union> set queue \<Longrightarrow> goal \<notin> P \<Longrightarrow> \<forall>x \<in> P. set (succs_of edges x) \<subseteq> set seen \<Longrightarrow>
   cycle_search edges goal queue seen \<longleftrightarrow> (\<exists>x \<in> set queue. (x, goal) \<in> (links_rel edges)\<^sup>*)"
proof (induction edges goal queue seen arbitrary: P rule: cycle_search.induct)
  case (2 edges goal current queue seen)
  obtain queue' seen' where q: "enqueue_new (succs_of edges current) (queue, seen) = (queue', seen')" by fastforce
  show ?case
  proof (cases "current = goal")
    case False
    note sets = enqueue_new_sets [OF q]
    have "set seen' = insert current P \<union> set queue'" using sets 2(2) by auto
    moreover have cl: "\<forall>x \<in> insert current P. set (succs_of edges x) \<subseteq> set seen'" using sets 2(4) by auto
    moreover have "goal \<notin> insert current P" using 2(3) False by simp
    ultimately have IH: "cycle_search edges goal queue' seen' \<longleftrightarrow> (\<exists>x \<in> set queue'. (x, goal) \<in> (links_rel edges)\<^sup>*)"
      using 2(1) [OF False q [symmetric]] by blast
    have "(\<exists>x \<in> set queue'. (x, goal) \<in> (links_rel edges)\<^sup>*) \<longleftrightarrow> (\<exists>x \<in> set (current # queue). (x, goal) \<in> (links_rel edges)\<^sup>*)"
    proof
      assume "\<exists>x \<in> set queue'. (x, goal) \<in> (links_rel edges)\<^sup>*"
      then obtain x where "x \<in> set queue'" "(x, goal) \<in> (links_rel edges)\<^sup>*" by blast
      then show "\<exists>x \<in> set (current # queue). (x, goal) \<in> (links_rel edges)\<^sup>*"
        using sets succs_of_iff by (metis DiffD1 UnE converse_rtrancl_into_rtrancl list.set_intros)
    next
      assume "\<exists>x \<in> set (current # queue). (x, goal) \<in> (links_rel edges)\<^sup>*"
      then consider "(current, goal) \<in> (links_rel edges)\<^sup>*" | x where "x \<in> set queue" "(x, goal) \<in> (links_rel edges)\<^sup>*" by auto
      then show "\<exists>x \<in> set queue'. (x, goal) \<in> (links_rel edges)\<^sup>*"
      proof cases
        case 1
        show ?thesis
          by (rule path_leaves [OF 1, of "insert current P"])
            (use cl \<open>goal \<notin> insert current P\<close> \<open>set seen' = insert current P \<union> set queue'\<close> in auto)
      qed (use sets in blast)
    qed
    with IH show ?thesis by (subst cycle_search.simps) (simp add: q False)
  qed (auto simp: cycle_search.simps)
qed (simp add: cycle_search.simps)

lemma wouldCreateCycle_iff: "wouldCreateCycle p s db \<longleftrightarrow> (s, p) \<in> (dep_rel db)\<^sup>*"
  using cycle_search_iff [of "[s]" "{}" "[s]" p "pl_dependencies db"]
  by (simp add: wouldCreateCycle_def dep_rel_def links_rel_def)

subsection \<open>Every sequence of requests\<close>

definition plan_inv :: "plan_db \<Rightarrow> bool" where
  "plan_inv db \<longleftrightarrow> links_unique db \<and> acyclic (dep_rel db)"

inductive plan_step :: "plan_db \<Rightarrow> plan_db \<Rightarrow> bool" where
  create: "plan_step db (snd (create_task c input db))"
| update: "plan_step db (snd (update_task c i upd u r db))"
| shift: "plan_step db (snd (shiftProjectSchedule c p days db))"
| depend: "plan_step db (snd (addDependency (\<lambda>db. db) c s p kind lag u r db))"
| independ: "plan_step db (snd (removeDependency c d u r db))"
| commit: "plan_step db (snd (commitTask c by_name i week u r db))"
| resolve: "plan_step db (snd (resolveCommitment now c i st reason u r db))"
| baseline: "plan_step db (snd (create_baseline c by_name p name db))"
| milestone: "plan_step db (snd (create_milestone c p name due db))"

lemma cascadeShift_moved: "moved db (cascadeShift i db) \<and> same_outside (downstream i db) db (cascadeShift i db)"
proof -
  obtain V where "cascade_from (Suc (length (pl_tasks db))) i ([], db) = Some (V, cascadeShift i db)" by (rule cascadeShift_eq)
  from cascade_moved [OF this] show ?thesis by blast
qed

lemma cascadeShift_deps [simp]: "pl_dependencies (cascadeShift i db) = pl_dependencies db"
  using cascadeShift_moved moved_deps(1) by blast

lemma plan_inv_cong: "pl_dependencies db' = pl_dependencies db \<Longrightarrow> plan_inv db \<Longrightarrow> plan_inv db'"
  by (simp add: plan_inv_def links_unique_def dep_rel_def)

lemma plan_inv_add:
  assumes "plan_inv db" and "de_predecessorId e \<noteq> de_successorId e"
    and "\<not> wouldCreateCycle (de_predecessorId e) (de_successorId e) db"
    and "\<not> (\<exists>x \<in> set (pl_dependencies db). de_predecessorId x = de_predecessorId e \<and> de_successorId x = de_successorId e)"
    and "pl_dependencies db' = pl_dependencies db @ [e]"
  shows "plan_inv db'"
proof -
  have "dep_rel db' = insert (de_predecessorId e, de_successorId e) (dep_rel db)" using assms(5) by (simp add: dep_rel_def)
  then have "acyclic (dep_rel db')" using assms(1,3) by (simp add: plan_inv_def acyclic_insert wouldCreateCycle_iff)
  moreover have "links_unique db'" using assms(1,4,5) by (auto simp: plan_inv_def links_unique_def)
  ultimately show ?thesis by (simp add: plan_inv_def)
qed

lemma addDependency_inv:
  assumes "plan_inv db"
  shows "plan_inv (snd (addDependency (\<lambda>db. db) c s p kind lag u r db))"
proof (cases "pl_dependencies (snd (addDependency (\<lambda>db. db) c s p kind lag u r db)) = pl_dependencies db")
  case True
  then show ?thesis using assms plan_inv_cong by blast
next
  case False
  let ?e = "\<lparr>de_id = pl_uid db, de_predecessorId = p, de_successorId = s, de_type = kind, de_lagDays = lag\<rparr>"
  have "p \<noteq> s \<and> \<not> wouldCreateCycle p s db \<and>
      \<not> (\<exists>x \<in> set (pl_dependencies db). de_predecessorId x = p \<and> de_successorId x = s) \<and>
      pl_dependencies (snd (addDependency (\<lambda>db. db) c s p kind lag u r db)) = pl_dependencies db @ [?e]"
    using False unfolding addDependency_def Let_def
    by (cases "company_task c s db") (simp_all split: sum.splits if_split_asm)
  then show ?thesis using plan_inv_add [OF assms, of ?e] by simp
qed

lemma plan_inv_step:
  assumes "plan_inv db" and "plan_step db db'"
  shows "plan_inv db'"
  using assms(2)
proof cases
  case (depend c s p kind lag u r)
  then show ?thesis using addDependency_inv [OF assms(1)] by simp
next
  case (independ c d u r)
  have "acyclic (dep_rel (db\<lparr>pl_dependencies := filter q (pl_dependencies db)\<rparr>)) \<and>
      links_unique (db\<lparr>pl_dependencies := filter q (pl_dependencies db)\<rparr>)" for q
    using assms(1) unfolding plan_inv_def links_unique_def
    by (auto simp: dep_rel_def distinct_map_filter intro: acyclic_subset [of "dep_rel db"])
  with assms(1) independ show ?thesis
    by (auto simp: removeDependency_def plan_inv_def split: option.split sum.split)
next
  case (create c input)
  then show ?thesis using assms(1) by (auto intro!: plan_inv_cong [OF _ assms(1)] simp: create_task_def Let_def)
next
  case (update c i upd u r)
  then show ?thesis by (auto intro!: plan_inv_cong [OF _ assms(1)] simp: update_task_def Let_def split: option.split sum.split)
next
  case (shift c p days)
  then show ?thesis by (auto intro!: plan_inv_cong [OF _ assms(1)] simp: shiftProjectSchedule_def Let_def)
next
  case (commit c by_name i week u r)
  then show ?thesis by (auto intro!: plan_inv_cong [OF _ assms(1)] simp: commitTask_def split: option.split sum.split)
next
  case (resolve now c i st reason u r)
  then show ?thesis by (auto intro!: plan_inv_cong [OF _ assms(1)] simp: resolveCommitment_def split: option.split sum.split)
next
  case (baseline c by_name p name)
  then show ?thesis by (auto intro!: plan_inv_cong [OF _ assms(1)] simp: create_baseline_def Let_def)
next
  case (milestone c p name due)
  then show ?thesis by (auto intro!: plan_inv_cong [OF _ assms(1)] simp: create_milestone_def)
qed

interpretation plans: transition_system "\<lambda>db. pl_dependencies db = []" plan_step plan_inv
proof
  fix db :: plan_db
  assume "pl_dependencies db = []"
  then show "plan_inv db" by (simp add: plan_inv_def links_unique_def dep_rel_def acyclic_def)
qed (rule plan_inv_step)

text \<open>C26 Whatever requests a company's planners send, one after another, the dependencies between tasks
  never form a circle and never repeat: the breadth-first check refuses exactly the dependencies that
  would close one.\<close>

theorem dependencies_stay_acyclic:
  assumes "pl_dependencies db0 = []" and "plan_step\<^sup>*\<^sup>* db0 db"
  shows "acyclic (dep_rel db) \<and> distinct (map (\<lambda>e. (de_predecessorId e, de_successorId e)) (pl_dependencies db)) \<and>
    (wouldCreateCycle p s db \<longleftrightarrow> \<not> acyclic (insert (p, s) (dep_rel db)))"
proof -
  have "plan_inv db" using plans.inv_reachable assms by blast
  then show ?thesis by (auto simp: plan_inv_def links_unique_def acyclic_insert wouldCreateCycle_iff)
qed

text \<open>The update of a task, taken apart.\<close>

lemma update_task_result:
  assumes "update_task c i upd u r db = (Inr t, db')"
  shows "db' = (if tu_startDate upd \<noteq> None \<or> tu_dueDate upd \<noteq> None
     then cascadeShift i (db\<lparr>pl_tasks := update_rows (\<lambda>t. tk_id t = i) (apply_update upd) (pl_tasks db)\<rparr>)
     else db\<lparr>pl_tasks := update_rows (\<lambda>t. tk_id t = i) (apply_update upd) (pl_tasks db)\<rparr>)"
  using assms unfolding update_task_def Let_def
  by (cases "company_task c i db") (auto split: sum.splits)


text \<open>Where no task below the one that moved waits for two others, the whole plan is consistent after
  the cascade: every dependency is satisfied if those not leaving the task were when it was moved.\<close>

theorem chains_stay_consistent:
  assumes "plan_inv db" and "single_pred i db" and "\<forall>e \<in> set (pl_dependencies db). de_predecessorId e \<noteq> i \<longrightarrow> link_ok db e"
  shows "\<forall>e \<in> set (pl_dependencies db). link_ok (cascadeShift i db) e"
proof
  fix e assume e: "e \<in> set (pl_dependencies db)"
  let ?db = "cascadeShift i db"
  obtain V where run: "cascade_from (Suc (length (pl_tasks db))) i ([], db) = Some (V, ?db)" by (rule cascadeShift_eq)
  have ac: "acyclic (dep_rel db)" "links_unique db" using assms(1) by (simp_all add: plan_inv_def)
  have "below_ok (downstream i db) db"
    using assms(3) acyclic_notin [OF ac(1)] by (auto simp: below_ok_def)
  then have below: "below_ok (branch i db) ?db" using tree_cascade [OF run ac assms(2)] by simp
  show "link_ok ?db e"
  proof (cases "de_predecessorId e \<in> branch i db")
    case True
    then show ?thesis using below e by (simp add: below_ok_def)
  next
    case False
    have p: "(de_predecessorId e, de_successorId e) \<in> dep_rel db" using e by (auto simp: dep_rel_def)
    have "de_successorId e \<notin> downstream i db"
    proof
      assume d: "de_successorId e \<in> downstream i db"
      then obtain z where z: "(i, z) \<in> (dep_rel db)\<^sup>*" "(z, de_successorId e) \<in> dep_rel db" by (auto dest: tranclD2)
      with single_pred_unique [OF assms(2) z(2) p d] False show False by (simp add: branch_iff)
    qed
    moreover have "de_predecessorId e \<notin> downstream i db" "de_predecessorId e \<noteq> i" using False by (auto simp: branch_def)
    moreover have "same_outside (downstream i db) db ?db" using cascadeShift_moved by blast
    ultimately have "link_ok ?db e = link_ok db e" by (intro link_ok_cong) (simp_all add: dates_outside)
    with assms(3) e \<open>de_predecessorId e \<noteq> i\<close> show ?thesis by simp
  qed
qed

subsection \<open>Worked schedules\<close>

definition day :: "int \<Rightarrow> date option" where
  "day n = Some (n * CPM_DAY_MS)"

definition task_on :: "uid \<Rightarrow> int \<Rightarrow> int \<Rightarrow> task_row" where
  "task_on i a b = \<lparr>tk_id = i, tk_companyId = 1, tk_projectId = 60, tk_name = [], tk_estimateLineId = None,
     tk_status = Planned, tk_startDate = day a, tk_dueDate = day b, tk_sortOrder = 0, tk_isOutdoorWork = False\<rparr>"

definition after :: "uid \<times> uid \<Rightarrow> dependency_row" where
  "after l = \<lparr>de_id = 100 + 10 * fst l + snd l, de_predecessorId = fst l, de_successorId = snd l,
     de_type = Finish_to_start, de_lagDays = 0\<rparr>"

definition plan_with :: "task_row list \<Rightarrow> (uid \<times> uid) list \<Rightarrow> plan_db" where
  "plan_with tasks links = \<lparr>pl_tasks = tasks, pl_dependencies = map after links, pl_milestones = [], pl_commitments = [],
     pl_baselines = [], pl_estimateLines = [], pl_projects = projects_example, pl_uid = 1000\<rparr>"

definition starts :: "plan_db \<Rightarrow> int list" where
  "starts db = map (\<lambda>t. (case tk_startDate t of None \<Rightarrow> 0 | Some d \<Rightarrow> d div CPM_DAY_MS)) (pl_tasks db)"

definition postpone :: "int \<Rightarrow> task_update" where
  "postpone n = \<lparr>tu_status = None, tu_startDate = None, tu_dueDate = day n, tu_sortOrder = None, tu_isOutdoorWork = None\<rparr>"

definition chain_example :: plan_db where
  "chain_example = plan_with [task_on 1 0 2, task_on 2 2 4, task_on 3 4 5] [(1, 2), (2, 3)]"

lemma plan_with_inv:
  fixes rank :: "uid \<Rightarrow> nat"
  assumes "distinct links" and "\<forall>(p, s) \<in> set links. rank p < rank s"
  shows "plan_inv (plan_with tasks links)"
proof -
  have rel: "dep_rel (plan_with tasks links) = set links" by (force simp: dep_rel_def plan_with_def after_def)
  have "wf (set links)" by (rule wf_subset [OF wf_measure [of rank]]) (use assms(2) in auto)
  moreover have "map (\<lambda>e. (de_predecessorId e, de_successorId e)) (map after links) = links"
    by (induction links) (simp_all add: after_def)
  ultimately show ?thesis using assms(1) rel by (simp add: plan_inv_def links_unique_def wf_acyclic plan_with_def)
qed

lemma chain_example_inv: "plan_inv chain_example"
  unfolding chain_example_def by (rule plan_with_inv [where rank = "\<lambda>i. i"]) simp_all

lemma dependencies_stay_acyclic_witness:
  "wouldCreateCycle 2 1 (snd (addDependency (\<lambda>db. db) 1 2 1 Finish_to_start 0 None None
     (plan_with [task_on 1 0 2, task_on 2 0 1] []))) \<longleftrightarrow>
   \<not> acyclic (insert (2, 1) (dep_rel (snd (addDependency (\<lambda>db. db) 1 2 1 Finish_to_start 0 None None
     (plan_with [task_on 1 0 2, task_on 2 0 1] [])))))"
proof -
  let ?a = "plan_with [task_on 1 0 2, task_on 2 0 1] []"
  have "pl_dependencies ?a = []" by (simp add: plan_with_def)
  moreover have "plan_step\<^sup>*\<^sup>* ?a (snd (addDependency (\<lambda>db. db) 1 2 1 Finish_to_start 0 None None ?a))"
    by (rule r_into_rtranclp) (rule plan_step.depend)
  ultimately show ?thesis using dependencies_stay_acyclic by blast
qed


lemma chains_stay_consistent_witness:
  "link_ok (cascadeShift 1 (plan_with [task_on 1 0 5, task_on 2 2 4, task_on 3 4 5] [(1, 2), (2, 3)])) (after (2, 3))"
proof -
  let ?db = "plan_with [task_on 1 0 5, task_on 2 2 4, task_on 3 4 5] [(1, 2), (2, 3)]"
  have "plan_inv ?db" by (rule plan_with_inv [where rank = "\<lambda>i. i"]) simp_all
  moreover have "single_pred 1 ?db" by (simp add: single_pred_def plan_with_def after_def)
  moreover have "link_ok ?db (after (2, 3))" by code_simp
  then have "\<forall>e \<in> set (pl_dependencies ?db). de_predecessorId e \<noteq> 1 \<longrightarrow> link_ok ?db e"
    by (simp add: plan_with_def after_def)
  ultimately show ?thesis using chains_stay_consistent by (fastforce simp: plan_with_def)
qed

text \<open>Where two chains meet, the second push of the task they share does not go on to its successors:
  task 4 waits for 2 and 3, task 5 for 4.  After task 1 is postponed, task 5 starts before task 4 ends.\<close>

lemma diamond_left_inconsistent:
  "let db = plan_with [task_on 1 0 2, task_on 2 2 3, task_on 3 2 6, task_on 4 6 7, task_on 5 7 8] [(1, 2), (1, 3), (2, 4), (3, 4), (4, 5)];
       db' = snd (update_task 1 1 (postpone 8) None None db)
   in starts db' = [0, 8, 8, 12, 10] \<and> list_all (link_ok db) (pl_dependencies db) \<and> \<not> link_ok db' (after (4, 5))"
  by code_simp

text \<open>The successors of a task are read before the cascade of the first of them runs: here task 3 is
  pushed to day 9 by task 2, which it waits for, and then pulled back to day 5.\<close>

lemma stale_successor_pulled_back:
  "let db = plan_with [task_on 1 0 2, task_on 2 2 6, task_on 3 2 3] [(1, 2), (2, 3), (1, 3)];
       db1 = cascadeShift 2 (snd (update_task 1 2 (postpone 6) None None db));
       db' = snd (update_task 1 1 (postpone 5) None None (plan_with [task_on 1 0 2, task_on 2 2 6, task_on 3 4 5] [(1, 2), (2, 3), (1, 3)]))
   in starts db1 = [0, 2, 6] \<and> starts db' = [0, 5, 5] \<and> \<not> link_ok db' (after (2, 3))"
  by code_simp

text \<open>The check and the write are not one transaction: two requests that add the opposite dependencies
  both pass the check.\<close>

lemma concurrent_dependencies_close_circle:
  "let other = (\<lambda>db. snd (addDependency (\<lambda>db. db) 1 1 2 Finish_to_start 0 None None db));
       r = addDependency other 1 2 1 Finish_to_start 0 None None (plan_with [task_on 1 0 2, task_on 2 0 1] [])
   in \<not> isl (fst r) \<and> map (\<lambda>e. (de_predecessorId e, de_successorId e)) (pl_dependencies (snd r)) = [(2, 1), (1, 2)]"
  by code_simp

end
