(* ===== verification/Sign_In_Laws.thy ===== *)
theory Sign_In_Laws
  imports Signing_In Permission_Laws
begin

section \<open>What signing in guarantees\<close>

text \<open>
  Seats are never oversold, a reset link works once whatever runs beside it, an invite signs nobody in
  to an existing account without that account's password, a session that was signed out stays out, a
  request gets the rights its membership has now, and only an owner makes an admin.
\<close>

subsection \<open>Seats\<close>

definition seats_inv :: "access_db \<Rightarrow> bool" where
  "seats_inv db \<longleftrightarrow>
     (\<forall>m \<in> set (ad_memberships db). mb_companyId m < ad_uid db) \<and>
     (\<forall>s \<in> set (ad_subscriptions db). fst s < ad_uid db) \<and>
     (\<forall>c. member_count c db \<le> company_seats c db)"

text \<open>What requests do to the members of companies.  An acceptance is its transaction, with the invite as
  it was read earlier; the checks before it write nothing.\<close>

inductive member_step :: "access_db \<Rightarrow> access_db \<Rightarrow> bool" where
  signup: "member_step db (snd (signup now email name passwordHash planCode db))"
| invite: "member_step db (snd (create_invite sha now companyId actorRole email role token db))"
| revoke: "member_step db (snd (revoke_invite companyId actorRole i db))"
| accept: "iv_companyId ivt < ad_uid db \<Longrightarrow> member_step db (snd (finalizeAcceptance now ivt who db))"
| role: "member_step db (snd (updateRole companyId actorRole userId r db))"
| custom: "member_step db (snd (assignCustomRole companyId actorRole userId customRoleId db))"
| remove: "member_step db (snd (remove_member companyId actorRole userId db))"
| new_role: "member_step db (snd (create_custom_role companyId actorRole name bases extra db))"
| drop_role: "member_step db (snd (delete_custom_role companyId actorRole i db))"

lemma member_count_update:
  "(\<And>m. mb_companyId (f m) = mb_companyId m) \<Longrightarrow>
     length (filter (\<lambda>m. mb_companyId m = c) (update_rows p f ms)) = length (filter (\<lambda>m. mb_companyId m = c) ms)"
  by (induction ms) (auto simp: update_rows_def)

lemma member_count_filter: "length (filter (\<lambda>x. q x \<and> p x) ms) \<le> length (filter p ms)"
  by (induction ms) auto

lemma seats_inv_same:
  assumes "seats_inv db" and "\<And>c. length (filter (\<lambda>m. mb_companyId m = c) (ad_memberships db')) \<le> member_count c db"
    and "ad_subscriptions db' = ad_subscriptions db" and "ad_uid db \<le> ad_uid db'"
    and "\<forall>m \<in> set (ad_memberships db'). mb_companyId m < ad_uid db"
  shows "seats_inv db'"
proof -
  have "member_count c db' \<le> company_seats c db'" for c
    using assms(1,3) assms(2) [of c] order_trans by (fastforce simp: seats_inv_def member_count_def company_seats_def)
  then show ?thesis using assms by (fastforce simp: seats_inv_def)
qed

lemma seats_inv_update:
  "seats_inv db \<Longrightarrow> (\<And>m. mb_companyId (f m) = mb_companyId m) \<Longrightarrow> seats_inv (update_member m f db)"
  unfolding update_member_def
  by (rule seats_inv_same) (auto simp: member_count_def member_count_update seats_inv_def all_update_rows)

lemma seats_inv_accept:
  assumes "seats_inv db" and "iv_companyId ivt < ad_uid db"
  shows "seats_inv (snd (finalizeAcceptance now ivt who db))"
proof (cases "accept_tx now ivt who db")
  case (Inr r)
  let ?c = "iv_companyId ivt"
  obtain u db1 where r: "accept_tx now ivt who db = Inr (u, db1)" using Inr by (cases r) auto
  have room: "member_count ?c db < company_seats ?c db"
    using r by (auto simp: accept_tx_def assertSeatAvailable_def Let_def split: if_splits)
  from r have mem: "\<exists>i. ad_memberships db1 = ad_memberships db @ [new_membership i u ?c (iv_role ivt)]"
    and sub: "ad_subscriptions db1 = ad_subscriptions db" and uid: "ad_uid db \<le> ad_uid db1"
    by (auto simp: accept_tx_def split: sum.splits prod.splits if_splits)
  then obtain i where mem: "ad_memberships db1 = ad_memberships db @ [new_membership i u ?c (iv_role ivt)]" by blast
  have "member_count c db1 \<le> company_seats c db1" for c
    using assms(1) room by (auto simp: seats_inv_def member_count_def company_seats_def mem sub new_membership_def)
  moreover have "\<forall>m \<in> set (ad_memberships db1). mb_companyId m < ad_uid db1"
    using assms uid by (fastforce simp: seats_inv_def mem new_membership_def)
  moreover have "\<forall>s \<in> set (ad_subscriptions db1). fst s < ad_uid db1"
    using assms(1) uid by (fastforce simp: seats_inv_def sub)
  ultimately have "seats_inv db1" by (simp add: seats_inv_def)
  then show ?thesis
    by (auto simp: finalizeAcceptance_def r create_session_def seats_inv_def member_count_def company_seats_def)
qed (use assms in \<open>simp add: finalizeAcceptance_def\<close>)

lemma seats_inv_signup:
  assumes "seats_inv db"
  shows "seats_inv (snd (signup now email name passwordHash planCode db))"
proof -
  have none: "find_row (\<lambda>s. fst s = c) (ad_subscriptions db) = None" if "ad_uid db \<le> c" for c
    using assms that by (fastforce simp: seats_inv_def find_row_None)
  have zero: "filter (\<lambda>m. mb_companyId m = c) (ad_memberships db) = []" if "ad_uid db \<le> c" for c
    using assms that by (fastforce simp: seats_inv_def filter_empty_conv)
  have cnt: "length (filter (\<lambda>m. mb_companyId m = c) (ad_memberships db)) +
      (if c = ad_uid db then 1 else 0) \<le>
      (case find_row (\<lambda>s. fst s = c) (ad_subscriptions db @ [(ad_uid db, 1)]) of None \<Rightarrow> 1 | Some s \<Rightarrow> snd s)" for c
  proof -
    have "length (filter (\<lambda>m. mb_companyId m = c) (ad_memberships db)) \<le>
        (case find_row (\<lambda>s. fst s = c) (ad_subscriptions db) of None \<Rightarrow> 1 | Some s \<Rightarrow> snd s)"
      using assms by (simp add: seats_inv_def member_count_def company_seats_def)
    then show ?thesis using none [of c] zero [of c] by (auto simp: find_row_append row_simps split: option.splits)
  qed
  have "Suc (length (filter (\<lambda>m. mb_companyId m = ad_uid db) (ad_memberships db))) \<le>
      (case find_row (\<lambda>s. fst s = ad_uid db) (ad_subscriptions db @ [(ad_uid db, 1)]) of None \<Rightarrow> 1 | Some s \<Rightarrow> snd s)"
    using cnt [of "ad_uid db"] by simp
  moreover have "length (filter (\<lambda>m. mb_companyId m = c) (ad_memberships db)) \<le>
      (case find_row (\<lambda>s. fst s = c) (ad_subscriptions db @ [(ad_uid db, 1)]) of None \<Rightarrow> 1 | Some s \<Rightarrow> snd s)"
    if "c \<noteq> ad_uid db" for c using cnt [of c] that by simp
  ultimately have cnt': "length (filter (\<lambda>m. mb_companyId m = c) (ad_memberships db @ [new_membership i u (ad_uid db) Owner])) \<le>
      (case find_row (\<lambda>s. fst s = c) (ad_subscriptions db @ [(ad_uid db, 1)]) of None \<Rightarrow> 1 | Some s \<Rightarrow> snd s)" for c i u
    by (cases "c = ad_uid db") (simp_all add: new_membership_def)
  let ?db' = "snd (signup now email name passwordHash planCode db)"
  have "?db' = db \<or> (\<exists>i u. ad_memberships ?db' = ad_memberships db @ [new_membership i u (ad_uid db) Owner] \<and>
      ad_subscriptions ?db' = ad_subscriptions db @ [(ad_uid db, 1)] \<and> ad_uid db < ad_uid ?db')"
  proof (cases "user_by_email email db = None \<and> planCode \<in> set (ad_plans db)")
    case True
    show ?thesis
      by (rule disjI2, rule exI [of _ "Suc (Suc (ad_uid db))"], rule exI [of _ "Suc (ad_uid db)"])
        (simp add: signup_def True Let_def issueAccessToken_def create_session_def)
  next
    case False
    then have "?db' = db" by (auto simp: signup_def)
    then show ?thesis ..
  qed
  then show ?thesis
  proof (elim disjE exE conjE)
    fix i u assume e: "ad_memberships ?db' = ad_memberships db @ [new_membership i u (ad_uid db) Owner]"
      "ad_subscriptions ?db' = ad_subscriptions db @ [(ad_uid db, 1)]" "ad_uid db < ad_uid ?db'"
    have "member_count c ?db' \<le> company_seats c ?db'" for c
      using cnt' [of c i u] by (simp only: member_count_def company_seats_def e)
    moreover have "\<forall>m \<in> set (ad_memberships ?db'). mb_companyId m < ad_uid ?db'"
      using assms e(3) by (fastforce simp: e(1) seats_inv_def new_membership_def)
    moreover have "\<forall>s \<in> set (ad_subscriptions ?db'). fst s < ad_uid ?db'"
      using assms e(3) by (fastforce simp: e(2) seats_inv_def)
    ultimately show ?thesis by (simp add: seats_inv_def)
  qed (use assms in simp)
qed

text \<open>The operations that leave memberships and subscriptions alone.\<close>

definition same_members :: "access_db \<Rightarrow> access_db \<Rightarrow> bool" where
  "same_members db db' \<longleftrightarrow> ad_memberships db' = ad_memberships db \<and> ad_subscriptions db' = ad_subscriptions db \<and>
     ad_uid db \<le> ad_uid db'"

lemma seats_inv_frame: "same_members db db' \<Longrightarrow> seats_inv db \<Longrightarrow> seats_inv db'"
  by (rule seats_inv_same) (auto simp: same_members_def member_count_def seats_inv_def)

lemma same_members_ops:
  "same_members db (snd (create_invite sha now companyId actorRole email r token db))"
  "same_members db (snd (revoke_invite companyId actorRole i db))"
  "same_members db (snd (create_custom_role companyId actorRole name bases extra db))"
  by (auto simp: same_members_def create_invite_def revoke_invite_def create_custom_role_def Let_def
      split: sum.split option.split)

lemma seats_inv_remove: "seats_inv db \<Longrightarrow> seats_inv (db\<lparr>ad_memberships := filter p (ad_memberships db)\<rparr>)"
  by (rule seats_inv_same) (auto simp: member_count_def member_count_filter seats_inv_def)

lemma seats_inv_updates:
  "seats_inv db \<Longrightarrow> (\<And>m. mb_companyId (f m) = mb_companyId m) \<Longrightarrow>
     seats_inv (db\<lparr>ad_customRoles := rs, ad_memberships := update_rows p f (ad_memberships db)\<rparr>)"
  by (rule seats_inv_same) (auto simp: member_count_def member_count_update seats_inv_def all_update_rows)

lemma seats_inv_step: "member_step db db' \<Longrightarrow> seats_inv db \<Longrightarrow> seats_inv db'"
proof (induction rule: member_step.induct)
  case (signup db now email name passwordHash planCode)
  then show ?case by (rule seats_inv_signup)
next
  case (accept ivt db now who)
  then show ?case by (intro seats_inv_accept)
next
  case (role db companyId actorRole userId r)
  then show ?case by (auto simp: updateRole_def split: sum.split option.split intro: seats_inv_update)
next
  case (custom db companyId actorRole userId customRoleId)
  then show ?case by (auto simp: assignCustomRole_def Let_def split: sum.split option.split intro: seats_inv_update)
next
  case (remove db companyId actorRole userId)
  then show ?case by (auto simp: remove_member_def split: sum.split option.split intro: seats_inv_remove)
next
  case (drop_role db companyId actorRole i)
  then show ?case by (auto simp: delete_custom_role_def split: sum.split option.split intro: seats_inv_updates)
qed (rule seats_inv_frame [OF same_members_ops(1)] seats_inv_frame [OF same_members_ops(2)]
      seats_inv_frame [OF same_members_ops(3)], assumption)+

definition no_accounts :: "access_db \<Rightarrow> bool" where
  "no_accounts db \<longleftrightarrow> ad_memberships db = [] \<and> ad_subscriptions db = []"

interpretation seats: transition_system no_accounts member_step seats_inv
proof
  show "seats_inv db" if "no_accounts db" for db
    using that by (simp add: no_accounts_def seats_inv_def member_count_def)
qed (rule seats_inv_step)


subsection \<open>Invites and accounts\<close>

lemma finalize_existing:
  assumes "finalizeAcceptance now ivt (Inl userId) db = (Inr r, db')"
  shows "\<exists>sid. r = Signed_in \<lparr>au_userId = userId, au_companyId = iv_companyId ivt, au_role = iv_role ivt,
      au_additionalRoles = None, au_permissions = None, au_sid = Some sid\<rparr>"
  using assms
  by (auto simp: finalizeAcceptance_def accept_tx_def create_session_def split: sum.splits prod.splits if_splits)

lemma finalize_new:
  assumes "finalizeAcceptance now ivt (Inr n) db = (Inr r, db')"
  shows "\<exists>sid. r = Signed_in \<lparr>au_userId = ad_uid db, au_companyId = iv_companyId ivt, au_role = iv_role ivt,
      au_additionalRoles = None, au_permissions = None, au_sid = Some sid\<rparr> \<and> user_by_email (iv_email ivt) db = None"
  using assms
  by (auto simp: finalizeAcceptance_def accept_tx_def create_session_def split: sum.splits prod.splits if_splits)

text \<open>Accepting an invite, whatever other requests run between its checks and its transaction, signs
  in only the account the invited address already has, after its own password was confirmed and only
  if it has no second factor, or else an account made for that address by this acceptance. With a
  second factor it answers with a challenge and changes nothing.\<close>

theorem invite_cannot_impersonate:
  assumes "accept_invite sha compare env now now' token name password passwordHash db = (Inr r, db')"
  shows "\<exists>ivt. getByToken sha now token db = Inr ivt \<and>
    (case r of
       Requires_2fa u \<Rightarrow> db' = db \<and> (\<exists>a. user_by_email (iv_email ivt) db = Some a \<and> us_id a = u \<and>
         us_totpEnabledAt a \<noteq> None \<and> compare password (us_passwordHash a))
     | Signed_in au \<Rightarrow>
         (\<exists>a. user_by_email (iv_email ivt) db = Some a \<and> au_userId au = us_id a \<and>
            us_totpEnabledAt a = None \<and> compare password (us_passwordHash a)) \<or>
         (user_by_email (iv_email ivt) db = None \<and> user_by_email (iv_email ivt) (env db) = None \<and>
            au_userId au = ad_uid (env db)))"
proof -
  obtain ivt where i: "getByToken sha now token db = Inr ivt"
    using assms by (cases "getByToken sha now token db") (auto simp: accept_invite_def)
  show ?thesis
  proof (cases "user_by_email (iv_email ivt) db")
    case None
    then have "finalizeAcceptance now' ivt (Inr (name, passwordHash)) (env db) = (Inr r, db')"
      using assms i by (auto simp: accept_invite_def split: sum.splits option.splits)
    from finalize_new [OF this] i None show ?thesis by auto
  next
    case (Some a)
    show ?thesis
    proof (cases "us_totpEnabledAt a")
      case None
      have c: "compare password (us_passwordHash a)"
        and "finalizeAcceptance now' ivt (Inl (us_id a)) (env db) = (Inr r, db')"
        using assms i Some None by (auto simp: accept_invite_def split: sum.splits if_splits)
      from finalize_existing [OF this(2)] i Some None c show ?thesis by auto
    next
      case (Some t)
      then show ?thesis
        using assms i \<open>user_by_email (iv_email ivt) db = Some a\<close>
        by (auto simp: accept_invite_def split: sum.splits if_splits)
    qed
  qed
qed

subsection \<open>Password resets\<close>

definition sessions_revoked :: "uid \<Rightarrow> access_db \<Rightarrow> bool" where
  "sessions_revoked userId db \<longleftrightarrow> (\<forall>s \<in> set (ad_sessions db). se_userId s = userId \<longrightarrow> se_revokedAt s \<noteq> None)"

lemma revoke_sessions_user: "sessions_revoked u (revoke_sessions (\<lambda>s. se_userId s = u) now db)"
  by (auto simp: sessions_revoked_def revoke_sessions_def all_update_rows)

lemma reset_tx_ok:
  assumes "reset_tx now r passwordHash db = Inr db'"
  shows "(\<exists>t \<in> set (ad_resetTokens db). rt_id t = rt_id r \<and> rt_usedAt t = None \<and> now < rt_expiresAt t) \<and>
    (\<forall>t \<in> set (ad_resetTokens db'). rt_id t = rt_id r \<longrightarrow> rt_usedAt t \<noteq> None \<or> rt_expiresAt t \<le> now) \<and>
    map rt_id (ad_resetTokens db') = map rt_id (ad_resetTokens db) \<and>
    (\<forall>u \<in> set (ad_users db'). us_id u = rt_userId r \<longrightarrow> us_passwordHash u = passwordHash) \<and>
    sessions_revoked (rt_userId r) db'"
proof -
  let ?claim = "\<lambda>t. rt_id t = rt_id r \<and> rt_usedAt t = None \<and> now < rt_expiresAt t"
  have one: "length (filter ?claim (ad_resetTokens db)) = 1" and
    db': "db' = revoke_sessions (\<lambda>s. se_userId s = rt_userId r) now
        (update_user (rt_userId r) (\<lambda>u. u\<lparr>us_passwordHash := passwordHash\<rparr>)
          (db\<lparr>ad_resetTokens := update_rows ?claim (\<lambda>t. t\<lparr>rt_usedAt := Some now\<rparr>) (ad_resetTokens db)\<rparr>))"
    using assms by (auto simp: reset_tx_def Let_def split: if_splits)
  from one have "filter ?claim (ad_resetTokens db) \<noteq> []" by auto
  then have "\<exists>t \<in> set (ad_resetTokens db). ?claim t" by (simp add: filter_empty_conv)
  moreover have "sessions_revoked (rt_userId r) db'" unfolding db' by (rule revoke_sessions_user)
  ultimately show ?thesis
    by (auto simp: db' revoke_sessions_def update_user_def all_update_rows map_update_rows)
qed

text \<open>A reset link sets a password at most once.  When it succeeds, whatever other requests ran
  between its first check and its transaction, the link was still unused and unexpired when it was
  claimed, the account has the new password, every session of the account is revoked, and the link is
  used; and if the link was used or had run out by then, the request fails and writes nothing.\<close>

theorem reset_link_works_once:
  assumes "find_row (\<lambda>t. rt_tokenHash t = sha token) (ad_resetTokens db) = Some r"
  shows "(resetPassword sha env now now' token password passwordHash db = (Inr (), db') \<longrightarrow>
      (\<exists>t \<in> set (ad_resetTokens (env db)). rt_id t = rt_id r \<and> rt_usedAt t = None \<and> now' < rt_expiresAt t) \<and>
      (\<forall>t \<in> set (ad_resetTokens db'). rt_id t = rt_id r \<longrightarrow> rt_usedAt t \<noteq> None \<or> rt_expiresAt t \<le> now') \<and>
      (\<forall>u \<in> set (ad_users db'). us_id u = rt_userId r \<longrightarrow> us_passwordHash u = passwordHash) \<and>
      sessions_revoked (rt_userId r) db') \<and>
    ((\<forall>t \<in> set (ad_resetTokens (env db)). rt_id t = rt_id r \<longrightarrow> rt_usedAt t \<noteq> None \<or> rt_expiresAt t \<le> now') \<longrightarrow>
      isl (fst (resetPassword sha env now now' token password passwordHash db)) \<and>
      snd (resetPassword sha env now now' token password passwordHash db) \<in> {db, env db})"
proof (intro conjI impI)
  assume ok: "resetPassword sha env now now' token password passwordHash db = (Inr (), db')"
  then have "reset_tx now' r passwordHash (env db) = Inr db'"
    using assms by (auto simp: resetPassword_def split: if_splits prod.splits sum.splits)
  from reset_tx_ok [OF this]
  show "\<exists>t \<in> set (ad_resetTokens (env db)). rt_id t = rt_id r \<and> rt_usedAt t = None \<and> now' < rt_expiresAt t"
    "\<forall>t \<in> set (ad_resetTokens db'). rt_id t = rt_id r \<longrightarrow> rt_usedAt t \<noteq> None \<or> rt_expiresAt t \<le> now'"
    "\<forall>u \<in> set (ad_users db'). us_id u = rt_userId r \<longrightarrow> us_passwordHash u = passwordHash"
    "sessions_revoked (rt_userId r) db'" by blast+
next
  assume "\<forall>t \<in> set (ad_resetTokens (env db)). rt_id t = rt_id r \<longrightarrow> rt_usedAt t \<noteq> None \<or> rt_expiresAt t \<le> now'"
  then have "filter (\<lambda>t. rt_id t = rt_id r \<and> rt_usedAt t = None \<and> now' < rt_expiresAt t) (ad_resetTokens (env db)) = []"
    by (auto simp: filter_empty_conv)
  then have "reset_tx now' r passwordHash (env db) = Inl INVALID_RESET_LINK" by (simp add: reset_tx_def)
  then show "isl (fst (resetPassword sha env now now' token password passwordHash db))"
    "snd (resetPassword sha env now now' token password passwordHash db) \<in> {db, env db}"
    using assms by (auto simp: resetPassword_def split: prod.split sum.split)
qed

subsection \<open>The guard\<close>

text \<open>A request that passes the guard has the rights its membership has at that moment, not those
  of its token: it comes with a token for one's own kind, its session is not revoked, there is a
  membership in the company, and the role, the extra roles and the permissions are read from it.\<close>

theorem guard_rights_are_current:
  assumes "perm_inv perms" and "jwt_guard verify now False header perms db = (Inr r, db')"
  shows "\<exists>token payload kind m au. extractBearerToken header = Some token \<and> verify token = Some (payload, kind) \<and>
    \<not> truthy kind \<and> r = Some au \<and>
    (\<forall>sid. au_sid payload = Some sid \<longrightarrow> \<not> isRevoked sid db) \<and>
    find_membership (au_userId payload) (au_companyId payload) db = Some m \<and>
    au_userId au = au_userId payload \<and> au_companyId au = au_companyId payload \<and>
    au_role au = mb_role m \<and> au_additionalRoles au = map_option ro_basePermissions (custom_role_of m db) \<and>
    au_permissions au = Some (effectivePermissions (mb_role m) (stored_for (au_companyId payload) (pm_overrides perms))
      (map_option (\<lambda>x. (ro_basePermissions x, ro_extraPermissions x)) (custom_role_of m db)))"
proof -
  obtain token where t: "extractBearerToken header = Some token" and tr: "truthy (Some token)"
    using assms(2) by (cases "extractBearerToken header") (auto simp: jwt_guard_def truthy_def split: if_splits)
  obtain payload kind where v: "verify token = Some (payload, kind)" "\<not> truthy kind"
    using assms(2) t by (auto simp: jwt_guard_def split: if_splits option.splits)
  let ?s = "case au_sid payload of None \<Rightarrow> (True, db) | Some sid \<Rightarrow> stillActive now sid (au_companyId payload) db"
  obtain db1 where s: "?s = (True, db1)"
    using assms(2) t v by (auto simp: jwt_guard_def split: if_splits prod.splits bool.splits)
  have same: "ad_memberships db1 = ad_memberships db" "ad_customRoles db1 = ad_customRoles db"
    and live: "\<forall>sid. au_sid payload = Some sid \<longrightarrow> \<not> isRevoked sid db"
    using s by (auto simp: stillActive_def touch_def isRevoked_def Let_def split: option.splits if_splits)
  have mem: "find_membership u c db1 = find_membership u c db" "custom_role_of m db1 = custom_role_of m db" for u c m
    using same by (simp_all add: find_membership_def custom_role_of_def)
  obtain m where m: "find_membership (au_userId payload) (au_companyId payload) db = Some m"
  proof (cases "find_membership (au_userId payload) (au_companyId payload) db")
    case None
    then have "isl (fst (jwt_guard verify now False header perms db))" by (simp add: jwt_guard_def t tr v s mem)
    then show thesis using assms(2) by simp
  qed (use that in blast)
  have "r = Some (payload\<lparr>au_role := mb_role m,
      au_additionalRoles := map_option ro_basePermissions (custom_role_of m db),
      au_permissions := Some (effectivePermissions (mb_role m) (stored_for (au_companyId payload) (pm_overrides perms))
        (map_option (\<lambda>x. (ro_basePermissions x, ro_extraPermissions x)) (custom_role_of m db)))\<rparr>)"
    using assms(2) by (auto simp: jwt_guard_def t tr v s m mem effectiveFor_current [OF assms(1)] Let_def)
  then show ?thesis using t v live m by auto
qed

subsection \<open>Sessions\<close>

text \<open>What happens to the sessions: new ones, requests that use one, sign-outs of every kind.\<close>

inductive session_step :: "access_db \<Rightarrow> access_db \<Rightarrow> bool" where
  new: "session_step db (snd (create_session now userId companyId db))"
| used: "session_step db (snd (stillActive now sid companyId db))"
| touched: "session_step db (touch now sid db)"
| everywhere: "session_step db (revoke_sessions p now db)"
| current: "session_step db (revokeCurrent now userId sid' db)"
| one: "session_step db (snd (revoke_session now userId sid db))"

definition revoked_ids :: "access_db \<Rightarrow> uid \<Rightarrow> bool" where
  "revoked_ids db i \<longleftrightarrow> i < ad_uid db \<and> (\<forall>s \<in> set (ad_sessions db). se_id s = i \<longrightarrow> se_revokedAt s \<noteq> None)"

lemma revoked_ids_updates:
  "revoked_ids db i \<Longrightarrow> (\<And>s. se_id (f s) = se_id s \<and> (se_revokedAt s \<noteq> None \<longrightarrow> se_revokedAt (f s) \<noteq> None)) \<Longrightarrow>
     revoked_ids (db\<lparr>ad_sessions := update_rows p f (ad_sessions db)\<rparr>) i"
  by (fastforce simp: revoked_ids_def all_update_rows)

lemma session_step_revoked: "session_step db db' \<Longrightarrow> revoked_ids db i \<Longrightarrow> revoked_ids db' i"
proof (induction rule: session_step.induct)
  case (new db now userId companyId)
  then show ?case by (auto simp: create_session_def revoked_ids_def)
qed (auto simp: stillActive_def touch_def revoke_sessions_def revokeCurrent_def revoke_session_def Let_def
       split: option.split intro!: revoked_ids_updates)

text \<open>C22  Signing out is final: once a session is revoked, after any further sequence of sign-ins, uses
  and sign-outs every request with a token of that session is refused.\<close>

theorem signed_out_stays_out:
  assumes "revoked_ids db i" and "session_step\<^sup>*\<^sup>* db db'" and "verify (the (extractBearerToken header)) = Some (payload, kind)"
    and "au_sid payload = Some i"
  shows "isl (fst (jwt_guard verify now False header perms db'))"
proof -
  have "revoked_ids db' i" using assms(2,1) by (induction rule: rtranclp_induct) (auto intro: session_step_revoked)
  then have "fst (stillActive now i c db') = False" for c
    by (auto simp: revoked_ids_def stillActive_def dest!: find_row_SomeD split: option.splits)
  then have "\<exists>d. stillActive now i c db' = (False, d)" for c by (metis prod.collapse)
  then obtain d where "stillActive now i (au_companyId payload) db' = (False, d)" by blast
  then show ?thesis using assms(3,4) by (auto simp: jwt_guard_def)
qed

subsection \<open>Who makes an admin\<close>

definition member_is_admin :: "access_db \<Rightarrow> membership \<Rightarrow> bool" where
  "member_is_admin db m \<longleftrightarrow> mb_role m = Admin \<or> bases_admin (custom_role_of m db)"

definition admin_in :: "access_db \<Rightarrow> uid \<Rightarrow> uid \<Rightarrow> bool" where
  "admin_in db userId companyId \<longleftrightarrow>
     (\<exists>m \<in> set (ad_memberships db). mb_userId m = userId \<and> mb_companyId m = companyId \<and> member_is_admin db m)"

definition admin_invites :: "access_db \<Rightarrow> uid set" where
  "admin_invites db = {iv_id i | i. i \<in> set (ad_invites db) \<and> iv_role i = Admin}"

inductive manage_step :: "membership_role option \<Rightarrow> access_db \<Rightarrow> access_db \<Rightarrow> bool" where
  invite: "manage_step a db (snd (create_invite sha now companyId a email role token db))"
| revoke: "manage_step a db (snd (revoke_invite companyId a i db))"
| role: "manage_step a db (snd (updateRole companyId a userId r db))"
| custom: "manage_step a db (snd (assignCustomRole companyId a userId customRoleId db))"
| remove: "manage_step a db (snd (remove_member companyId a userId db))"
| new_role: "manage_step a db (snd (create_custom_role companyId a name bases extra db))"
| drop_role: "manage_step a db (snd (delete_custom_role companyId a i db))"

definition admins_within :: "access_db \<Rightarrow> access_db \<Rightarrow> bool" where
  "admins_within db db' \<longleftrightarrow>
     (\<forall>u c. admin_in db' u c \<longrightarrow> admin_in db u c) \<and> admin_invites db' \<subseteq> admin_invites db"

lemma admins_within_refl [simp]: "admins_within db db"
  by (simp add: admins_within_def)

lemma member_is_admin_frame [simp]:
  "member_is_admin (db\<lparr>ad_memberships := ms\<rparr>) = member_is_admin db"
  "member_is_admin (db\<lparr>ad_invites := is\<rparr>) = member_is_admin db"
  "member_is_admin (db\<lparr>ad_uid := n\<rparr>) = member_is_admin db"
  by (simp_all add: member_is_admin_def custom_role_of_def fun_eq_iff)

lemma admins_within_update:
  assumes "\<And>m. mb_userId (f m) = mb_userId m \<and> mb_companyId (f m) = mb_companyId m"
    and "\<And>m. m \<in> set (ad_memberships db) \<Longrightarrow> p m \<Longrightarrow> member_is_admin db (f m) \<Longrightarrow> member_is_admin db m"
  shows "admins_within db (db\<lparr>ad_memberships := update_rows p f (ad_memberships db)\<rparr>)"
  using assms by (fastforce simp: admins_within_def admin_in_def admin_invites_def update_rows_def)

lemma admins_within_invite:
  assumes "iv_role i = Admin \<Longrightarrow> False"
  shows "admins_within db (db\<lparr>ad_invites := ad_invites db @ [i], ad_uid := n\<rparr>)"
  using assms by (auto simp: admins_within_def admin_in_def admin_invites_def)

lemma admins_within_fewer:
  "admins_within db (db\<lparr>ad_invites := filter q (ad_invites db)\<rparr>)"
  "admins_within db (db\<lparr>ad_memberships := filter p (ad_memberships db)\<rparr>)"
  by (auto simp: admins_within_def admin_in_def admin_invites_def)

lemma bases_admin_id:
  assumes "distinct (map ro_id rows)"
    and "find_row (\<lambda>r. ro_id r = i \<and> ro_companyId r = c) rows = Some x"
  shows "find_row (\<lambda>r. ro_id r = i) rows = Some x"
  using find_row_SomeD [OF assms(2)] find_row_key [OF assms(1)] by blast

lemma create_invite_result:
  assumes "a \<noteq> Some Owner"
  shows "\<exists>i n. snd (create_invite sha now c a email role token db) \<in>
    {db, db\<lparr>ad_invites := ad_invites db @ [i], ad_uid := n\<rparr>} \<and> iv_role i \<noteq> Admin"
proof (cases "role = Admin")
  case True
  then have "snd (create_invite sha now c a email role token db) = db"
    using assms by (simp add: create_invite_def assertMayAppointAdmin_def)
  moreover have "\<exists>i :: invite. iv_role i \<noteq> Admin" by (rule exI [of _ "\<lparr>iv_id = 0, iv_companyId = 0, iv_email = [], iv_role = Owner,
      iv_token = [], iv_expiresAt = 0, iv_acceptedAt = None\<rparr>"]) simp
  ultimately show ?thesis by blast
next
  case False
  let ?i = "\<lparr>iv_id = ad_uid db, iv_companyId = c, iv_email = email, iv_role = role, iv_token = sha token,
    iv_expiresAt = now + INVITE_TTL_MS, iv_acceptedAt = None\<rparr>"
  have "snd (create_invite sha now c a email role token db) \<in>
      {db, db\<lparr>ad_invites := ad_invites db @ [?i], ad_uid := Suc (ad_uid db)\<rparr>}"
    by (simp add: create_invite_def Let_def split: sum.split)
  then show ?thesis using False by (intro exI [of _ ?i] exI [of _ "Suc (ad_uid db)"]) simp
qed

lemma assign_result:
  assumes "a \<noteq> Some Owner" and "distinct (map ro_id (ad_customRoles db))"
  shows "admins_within db (snd (assignCustomRole c a userId customRoleId db))"
proof (cases "isl (fst (assignCustomRole c a userId customRoleId db))")
  case True
  then have "snd (assignCustomRole c a userId customRoleId db) = db"
    by (auto simp: assignCustomRole_def assertMayAppointAdmin_def Let_def split: option.splits if_splits)
  then show ?thesis by simp
next
  case False
  let ?look = "\<lambda>i. find_row (\<lambda>r. ro_id r = i \<and> ro_companyId r = c) (ad_customRoles db)"
  from False obtain m where ok: "snd (assignCustomRole c a userId customRoleId db) =
      update_member m (\<lambda>x. x\<lparr>mb_customRoleId := customRoleId\<rparr>) db"
    "customRoleId = None \<or> Option.bind customRoleId ?look \<noteq> None" "\<not> bases_admin (Option.bind customRoleId ?look)"
    using assms(1) by (auto simp: assignCustomRole_def assertMayAppointAdmin_def Let_def split: option.splits if_splits)
  have "member_is_admin db x" if "member_is_admin db (x\<lparr>mb_customRoleId := customRoleId\<rparr>)" for x
    using that ok(2,3) bases_admin_id [OF assms(2)]
    by (cases customRoleId) (auto simp: member_is_admin_def custom_role_of_def bases_admin_def split: option.splits)
  then show ?thesis unfolding ok(1) update_member_def by (intro admins_within_update) auto
qed

lemma manage_step_admins:
  assumes "manage_step a db db'" and "a \<noteq> Some Owner" and "distinct (map ro_id (ad_customRoles db))"
  shows "admins_within db db'"
  using assms(1)
proof cases
  case (invite sha now companyId email role token)
  then show ?thesis
    using create_invite_result [OF assms(2), of sha now companyId email role token db] by (auto intro: admins_within_invite)
next
  case (revoke companyId i)
  then show ?thesis by (auto simp: revoke_invite_def admins_within_fewer split: sum.split option.split)
next
  case (role companyId userId r)
  then show ?thesis using assms(2)
    by (auto simp: updateRole_def assertMayAppointAdmin_def update_member_def member_is_admin_def custom_role_of_def
        split: option.split intro!: admins_within_update)
next
  case (custom companyId userId customRoleId)
  then show ?thesis using assign_result [OF assms(2,3)] by simp
next
  case (remove companyId userId)
  then show ?thesis by (auto simp: remove_member_def admins_within_fewer split: sum.split option.split)
next
  case (new_role companyId name bases extra)
  have "member_is_admin (db\<lparr>ad_customRoles := ad_customRoles db @ [r], ad_uid := n\<rparr>) m \<Longrightarrow> member_is_admin db m"
    if "Admin \<notin> set (ro_basePermissions r)" for r n m
    using that by (auto simp: member_is_admin_def custom_role_of_def bases_admin_def find_row_append row_simps
        split: option.splits if_splits Option.bind_splits)
  then have "admins_within db (db\<lparr>ad_customRoles := ad_customRoles db @ [r], ad_uid := n\<rparr>)"
    if "Admin \<notin> set (ro_basePermissions r)" for r n
    using that by (auto simp: admins_within_def admin_in_def admin_invites_def)
  then show ?thesis using assms(2) new_role
    by (auto simp: create_custom_role_def assertMayAppointAdmin_def Let_def)
next
  case (drop_role companyId i)
  let ?db = "db\<lparr>ad_customRoles := filter (\<lambda>r. ro_id r \<noteq> i) (ad_customRoles db),
    ad_memberships := update_rows (\<lambda>m. mb_customRoleId m = Some i) (\<lambda>m. m\<lparr>mb_customRoleId := None\<rparr>) (ad_memberships db)\<rparr>"
  have other: "find_row (\<lambda>r. ro_id r = j) (filter (\<lambda>r. ro_id r \<noteq> i) rows) = (if j = i then None else find_row (\<lambda>r. ro_id r = j) rows)"
    for j rows by (induction rows) (auto simp: row_simps)
  have "member_is_admin ?db m \<Longrightarrow> member_is_admin db m" for m
    by (auto simp: member_is_admin_def custom_role_of_def bases_admin_def other
        split: option.splits if_splits Option.bind_splits)
  moreover have "member_is_admin ?db (m\<lparr>mb_customRoleId := None\<rparr>) \<Longrightarrow> member_is_admin db m" for m
    by (auto simp: member_is_admin_def custom_role_of_def bases_admin_def)
  ultimately have "admins_within db ?db"
    by (fastforce simp: admins_within_def admin_in_def admin_invites_def update_rows_def)
  then show ?thesis using drop_role by (auto simp: delete_custom_role_def split: sum.split option.split)
qed

inductive managed :: "access_db \<Rightarrow> access_db \<Rightarrow> bool" where
  refl: "managed db db"
| step: "managed db db' \<Longrightarrow> manage_step a db' db'' \<Longrightarrow> a \<noteq> Some Owner \<Longrightarrow>
    distinct (map ro_id (ad_customRoles db')) \<Longrightarrow> managed db db''"

text \<open> Nobody but an owner makes an admin: a sequence of requests on invites, members and custom roles
  by actors who are not owners leaves nobody an admin, by role or through a custom role, who was not
  one before, and no invite for one that was not there.\<close>

theorem only_owner_makes_admins:
  assumes "managed db db'"
  shows "(admin_in db' userId companyId \<longrightarrow> admin_in db userId companyId) \<and> admin_invites db' \<subseteq> admin_invites db"
proof -
  have "admins_within db db'"
    using assms
  proof (induction rule: managed.induct)
    case (step db db' a db'')
    then have "admins_within db' db''" by (intro manage_step_admins)
    with step.IH show ?case by (auto simp: admins_within_def)
  qed simp
  then show ?thesis by (simp add: admins_within_def)
qed

subsection \<open>Worked accounts\<close>

text \<open>Company 1 with its owner (account 2), a worker with a custom role based on admin (account 3), a
  foreman (account 4) and two free seats; account 5 has a second factor and an invite.\<close>

definition example_compare :: "string \<Rightarrow> string \<Rightarrow> bool" where
  "example_compare password stored \<longleftrightarrow> stored = ''h:'' @ password"

definition example_sha :: "string \<Rightarrow> string" where
  "example_sha t = ''#'' @ t"

definition example_totp :: "string \<Rightarrow> string \<Rightarrow> bool" where
  "example_totp code secret \<longleftrightarrow> code = secret"

definition accounts_example :: access_db where
  "accounts_example =
     \<lparr>ad_users =
        [new_user 2 ''o@x'' ''Ola'' ''h:own'', new_user 3 ''a@x'' ''Ada'' ''h:ada'', new_user 4 ''f@x'' ''Finn'' ''h:fin'',
         (new_user 5 ''t@x'' ''Tess'' ''h:tess'')\<lparr>us_totpSecret := Some ''123456'', us_totpEnabledAt := Some 0,
           us_totpBackupCodes := [''h:AAAA'', ''h:BBBB'']\<rparr>],
      ad_memberships =
        [new_membership 6 2 1 Owner, (new_membership 7 3 1 Worker)\<lparr>mb_customRoleId := Some 20\<rparr>,
         new_membership 8 4 1 Foreman],
      ad_customRoles = [\<lparr>ro_id = 20, ro_companyId = 1, ro_name = ''Deputy'', ro_basePermissions = [Admin], ro_extraPermissions = []\<rparr>],
      ad_invites =
        [\<lparr>iv_id = 30, iv_companyId = 1, iv_email = ''n@x'', iv_role = Worker, iv_token = ''#new'', iv_expiresAt = 1000, iv_acceptedAt = None\<rparr>,
         \<lparr>iv_id = 31, iv_companyId = 1, iv_email = ''t@x'', iv_role = Worker, iv_token = ''#tess'', iv_expiresAt = 1000, iv_acceptedAt = None\<rparr>],
      ad_sessions =
        [\<lparr>se_id = 40, se_userId = 2, se_companyId = Some 1, se_lastSeenAt = 0, se_revokedAt = None\<rparr>,
         \<lparr>se_id = 41, se_userId = 4, se_companyId = Some 1, se_lastSeenAt = 0, se_revokedAt = Some 5\<rparr>],
      ad_resetTokens = [\<lparr>rt_id = 50, rt_userId = 2, rt_tokenHash = ''#reset'', rt_expiresAt = 1000, rt_usedAt = None\<rparr>],
      ad_companies = [\<lparr>cy_id = 1, cy_passwordMinLength = 8, cy_passwordRequireSymbol = False, cy_sessionTimeoutMinutes = Some 30\<rparr>],
      ad_subscriptions = [(1, 5)], ad_plans = [''starter''], ad_uid = 100\<rparr>"

definition empty_accounts :: access_db where
  "empty_accounts = \<lparr>ad_users = [], ad_memberships = [], ad_customRoles = [], ad_invites = [], ad_sessions = [],
     ad_resetTokens = [], ad_companies = [], ad_subscriptions = [], ad_plans = [''starter''], ad_uid = 1\<rparr>"


lemma invite_cannot_impersonate_witness:
  "\<exists>ivt. getByToken example_sha 10 ''tess'' accounts_example = Inr ivt \<and>
     (\<exists>a. user_by_email (iv_email ivt) accounts_example = Some a \<and> us_id a = 5 \<and> us_totpEnabledAt a \<noteq> None \<and>
        example_compare ''tess'' (us_passwordHash a))"
proof -
  have "fst (accept_invite example_sha example_compare (\<lambda>db. db) 10 10 ''tess'' ''Tess'' ''tess'' [] accounts_example) = Inr (Requires_2fa 5)"
    by code_simp
  then have "accept_invite example_sha example_compare (\<lambda>db. db) 10 10 ''tess'' ''Tess'' ''tess'' [] accounts_example =
      (Inr (Requires_2fa 5), snd (accept_invite example_sha example_compare (\<lambda>db. db) 10 10 ''tess'' ''Tess'' ''tess'' [] accounts_example))"
    by (metis prod.collapse)
  from invite_cannot_impersonate [OF this] show ?thesis by auto
qed

lemma reset_link_works_once_witness:
  "sessions_revoked 2 (snd (resetPassword example_sha (\<lambda>db. db) 10 10 ''reset'' ''longenough'' ''h:longenough'' accounts_example))"
proof -
  let ?r = "\<lparr>rt_id = 50, rt_userId = 2, rt_tokenHash = ''#reset'', rt_expiresAt = 1000, rt_usedAt = None\<rparr>"
  let ?x = "resetPassword example_sha (\<lambda>db. db) 10 10 ''reset'' ''longenough'' ''h:longenough'' accounts_example"
  have "find_row (\<lambda>t. rt_tokenHash t = example_sha ''reset'') (ad_resetTokens accounts_example) = Some ?r"
    by (simp add: accounts_example_def example_sha_def row_simps)
  note once = reset_link_works_once [of example_sha "''reset''" accounts_example, OF this]
  have "fst ?x = Inr ()" by code_simp
  then have "?x = (Inr (), snd ?x)" by (metis prod.collapse)
  then show ?thesis using once [of "\<lambda>db. db" 10 10 "''longenough''" "''h:longenough''" "snd ?x"] by simp
qed

definition example_verify :: "string \<Rightarrow> (auth_user \<times> string option) option" where
  "example_verify t =
     (if t = ''owner'' then Some (\<lparr>au_userId = 2, au_companyId = 1, au_role = Worker, au_additionalRoles = None,
        au_permissions = None, au_sid = Some 40\<rparr>, None)
      else if t = ''foreman'' then Some (\<lparr>au_userId = 4, au_companyId = 1, au_role = Foreman, au_additionalRoles = None,
        au_permissions = None, au_sid = Some 41\<rparr>, None)
      else None)"

lemma guard_rights_are_current_witness:
  "\<exists>au m. fst (jwt_guard example_verify 10 False (Some ''Bearer owner'') settings_example accounts_example) = Inr (Some au) \<and>
     find_membership 2 1 accounts_example = Some m \<and> au_role au = mb_role m \<and> mb_role m = Owner"
proof -
  let ?x = "jwt_guard example_verify 10 False (Some ''Bearer owner'') settings_example accounts_example"
  have role: "(case fst ?x of Inl _ \<Rightarrow> None | Inr r \<Rightarrow> map_option au_role r) = Some Owner" by code_simp
  then obtain r where r: "?x = (Inr r, snd ?x)" by (cases "fst ?x") (auto simp: prod_eq_iff)
  have "extractBearerToken (Some ''Bearer owner'') = Some ''owner''" by code_simp
  with guard_rights_are_current [OF settings_example_inv r] obtain au m where
    "r = Some au" "find_membership 2 1 accounts_example = Some m" "au_role au = mb_role m"
    by (auto simp: example_verify_def)
  moreover from role r have "map_option au_role r = Some Owner" by (metis fst_conv sum.case(2))
  moreover from r have "fst ?x = Inr r" by (metis fst_conv)
  ultimately show ?thesis by auto
qed

lemma signed_out_stays_out_witness:
  "isl (fst (jwt_guard example_verify 20 False (Some ''Bearer foreman'') settings_example
     (snd (create_session 10 4 1 accounts_example))))"
proof (rule signed_out_stays_out)
  show "revoked_ids accounts_example 41" by (simp add: revoked_ids_def accounts_example_def)
  show "session_step\<^sup>*\<^sup>* accounts_example (snd (create_session 10 4 1 accounts_example))"
    by (rule r_into_rtranclp, rule session_step.new)
  have "the (extractBearerToken (Some ''Bearer foreman'')) = ''foreman''" by code_simp
  then show "example_verify (the (extractBearerToken (Some ''Bearer foreman''))) =
      Some (\<lparr>au_userId = 4, au_companyId = 1, au_role = Foreman, au_additionalRoles = None,
        au_permissions = None, au_sid = Some 41\<rparr>, None)"
    by (simp add: example_verify_def)
qed simp

lemma only_owner_makes_admins_witness:
  "\<not> admin_in (snd (updateRole 1 (Some Foreman) 4 Estimator accounts_example)) 4 1"
proof -
  have "managed accounts_example (snd (updateRole 1 (Some Foreman) 4 Estimator accounts_example))"
    by (rule managed.step [OF managed.refl manage_step.role]) (simp_all add: accounts_example_def)
  from only_owner_makes_admins [OF this, of 4 1] have
    "admin_in (snd (updateRole 1 (Some Foreman) 4 Estimator accounts_example)) 4 1 \<longrightarrow> admin_in accounts_example 4 1" by blast
  moreover have "\<not> admin_in accounts_example 4 1"
    by (simp add: admin_in_def accounts_example_def member_is_admin_def custom_role_of_def new_membership_def bases_admin_def)
  ultimately show ?thesis by blast
qed

text \<open>Two requests redeem the same backup code at once and both succeed; and a code redeemed while
  another request redeems a different one is written back.\<close>

definition redeem :: "string \<Rightarrow> auth_state \<Rightarrow> auth_state" where
  "redeem code s = snd (verifyCodeForUser example_compare example_totp (\<lambda>s. s) 10 ''2fa-verify:5'' 5 code s)"

definition signing_in_example :: auth_state where
  "signing_in_example = \<lparr>gs_db = accounts_example, gs_limits = (\<lambda>_. None)\<rparr>"

lemma backup_code_redeemed_twice:
  "fst (verifyCodeForUser example_compare example_totp (redeem ''aaaa'') 10 ''2fa-verify:5'' 5 ''aaaa'' signing_in_example) = Inr True \<and>
   fst (verifyCodeForUser example_compare example_totp (\<lambda>s. s) 10 ''2fa-verify:5'' 5 ''aaaa'' signing_in_example) = Inr True \<and>
   map us_totpBackupCodes (filter (\<lambda>u. us_id u = 5) (ad_users (gs_db
     (snd (verifyCodeForUser example_compare example_totp (redeem ''bbbb'') 10 ''2fa-verify:5'' 5 ''aaaa'' signing_in_example))))) =
     [[''h:BBBB'']]"
  by code_simp

text \<open>A correct password clears the limit of the address it comes from, whatever failed from there
  before: one account of one's own is enough to keep trying others' without ever being held back.\<close>

lemma correct_password_clears_ip_limit:
  "login compare now email password ip s = (Inr r, s') \<Longrightarrow> gs_limits s' (login_ip_key ip) = None"
  by (auto simp: login_def reset_limit_def issueAccessToken_def create_session_def Let_def
      split: prod.splits sum.splits option.splits if_splits list.splits)

text \<open>A foreman who may manage members cannot take an admin-based custom role away, but can remove
  the member who holds it.\<close>

lemma custom_admin_removed_by_foreman:
  "member_is_admin accounts_example ((new_membership 7 3 1 Worker)\<lparr>mb_customRoleId := Some 20\<rparr>) \<and>
   isl (fst (assignCustomRole 1 (Some Foreman) 3 None accounts_example)) \<and>
   fst (remove_member 1 (Some Foreman) 3 accounts_example) = Inr ()"
  by code_simp

end
