(* ===== verification/Project_Path.thy ===== *)
theory Project_Path
  imports Prelude
begin

section \<open>From a row to its project\<close>

text \<open>
  \<open>project-access/project-path.ts\<close>: the breadth-first search for the relations that lead from a model
  to one with a \<open>projectId\<close>, the lookup along such a path, and the filter that drops the rows of hidden
  projects. The data model (\<open>Prisma.dmmf\<close>, generated) is an argument. A row comes with the rows its
  to-one relations lead to; a filter is evaluated as SQL does: a null matches no list.
\<close>

subsection \<open>The search\<close>

record field =
  fl_name :: string
  fl_object :: bool
  fl_type :: string
  fl_isList :: bool
  fl_hasForeignKey :: bool
  fl_isRequired :: bool

type_synonym data_model = "(string \<times> field list) list"

definition fields_of :: "data_model \<Rightarrow> string \<Rightarrow> field list" where
  "fields_of models m = (case map_of models m of None \<Rightarrow> [] | Some fs \<Rightarrow> fs)"

definition has_project_id :: "data_model \<Rightarrow> string \<Rightarrow> bool" where
  "has_project_id models m \<longleftrightarrow> (\<exists>f \<in> set (fields_of models m). \<not> fl_object f \<and> fl_name f = ''projectId'')"

definition to_one :: "field \<Rightarrow> bool" where
  "to_one f \<longleftrightarrow> fl_object f \<and> \<not> fl_isList f \<and> fl_hasForeignKey f \<and> fl_type f \<noteq> ''Project''"

definition relations :: "data_model \<Rightarrow> string \<Rightarrow> field list" where
  "relations models m =
     sort_by (\<lambda>a b. of_bool (fl_isRequired b) - of_bool (fl_isRequired a)) (filter to_one (fields_of models m))"

text \<open>The inner loop: enqueue the relations whose type was not seen.\<close>

fun enqueue :: "string list \<Rightarrow> field list \<Rightarrow> (string \<times> string list) list \<times> string list \<Rightarrow> (string \<times> string list) list \<times> string list" where
  "enqueue path [] (queue, seen) = (queue, seen)"
| "enqueue path (f # fs) (queue, seen) =
     (if fl_type f \<in> set seen then enqueue path fs (queue, seen)
      else enqueue path fs (queue @ [(fl_type f, path @ [fl_name f])], fl_type f # seen))"

definition model_types :: "data_model \<Rightarrow> string set" where
  "model_types models = fl_type ` (\<Union>(m, fs) \<in> set models. set fs)"

lemma finite_model_types [simp]: "finite (model_types models)"
  by (auto simp: model_types_def)

lemma sort_by_set [simp]: "set (sort_by cmp xs) = set xs"
proof -
  have "set (insert_by cmp x ys) = insert x (set ys)" for x ys by (induction ys) auto
  then show ?thesis by (induction xs) auto
qed

lemma relations_types: "f \<in> set (relations models m) \<Longrightarrow> fl_type f \<in> model_types models"
proof -
  assume "f \<in> set (relations models m)"
  then obtain fs where "map_of models m = Some fs" "f \<in> set fs"
    by (cases "map_of models m") (auto simp: relations_def fields_of_def)
  then show ?thesis by (auto simp: model_types_def dest: map_of_SomeD)
qed

lemma enqueue_size:
  assumes "\<forall>f \<in> set fs. fl_type f \<in> T" and "finite T"
  shows "length (fst (enqueue path fs (queue, seen))) + card (T - set (snd (enqueue path fs (queue, seen))))
    \<le> length queue + card (T - set seen)"
  using assms(1)
proof (induction fs arbitrary: queue seen)
  case (Cons f fs)
  show ?case
  proof (cases "fl_type f \<in> set seen")
    case False
    let ?q = "queue @ [(fl_type f, path @ [fl_name f])]"
    have "length (fst (enqueue path fs (?q, fl_type f # seen))) + card (T - set (snd (enqueue path fs (?q, fl_type f # seen))))
        \<le> length ?q + card (T - set (fl_type f # seen))" using Cons.prems by (intro Cons.IH) simp
    moreover have "card (T - set (fl_type f # seen)) < card (T - set seen)"
      using False Cons.prems assms(2) by (intro psubset_card_mono) auto
    ultimately show ?thesis using False by simp
  qed (use Cons in simp)
qed simp

lemma search_size:
  assumes "enqueue path (relations models m) (queue, seen) = (queue', seen')"
  shows "length queue' + card (model_types models - set seen') < Suc (length queue + card (model_types models - set seen))"
proof -
  have "\<forall>f \<in> set (relations models m). fl_type f \<in> model_types models" using relations_types by blast
  from enqueue_size [OF this finite_model_types, of path queue seen] show ?thesis by (simp add: assms)
qed

function search_loop :: "data_model \<Rightarrow> (string \<times> string list) list \<Rightarrow> string list \<Rightarrow> string list option" where
  "search_loop models [] seen = None"
| "search_loop models ((m, path) # queue) seen =
     (if has_project_id models m then Some path
      else case enqueue path (relations models m) (queue, seen) of (queue', seen') \<Rightarrow> search_loop models queue' seen')"
  by pat_completeness auto

termination
  by (relation "measure (\<lambda>(models, queue, seen). length queue + card (model_types models - set seen))")
    (auto split: prod.split dest: search_size)

declare search_loop.simps [simp del]

definition projectPathFor :: "data_model \<Rightarrow> string \<Rightarrow> string list option" where
  "projectPathFor models start =
     (if map_of models start = None \<or> start = ''Project'' then None
      else search_loop models [(start, [])] [start])"

subsection \<open>It finds a shortest path\<close>

text \<open>\<open>walk models m path m'\<close>: following the to-one relations of \<open>path\<close> from \<open>m\<close> leads to \<open>m'\<close>.\<close>

inductive walk :: "data_model \<Rightarrow> string \<Rightarrow> string list \<Rightarrow> string \<Rightarrow> bool"
  for models :: data_model and m :: string where
  here: "walk models m [] m"
| onto: "walk models m path m' \<Longrightarrow> f \<in> set (relations models m') \<Longrightarrow> walk models m (path @ [fl_name f]) (fl_type f)"

definition search_inv :: "data_model \<Rightarrow> string \<Rightarrow> string set \<Rightarrow> (string \<times> string list) list \<Rightarrow> string list \<Rightarrow> bool" where
  "search_inv models start D queue seen \<longleftrightarrow>
     set seen = D \<union> fst ` set queue \<and> start \<in> set seen \<and>
     (\<forall>m \<in> D. \<not> has_project_id models m \<and> (\<forall>f \<in> set (relations models m). fl_type f \<in> set seen)) \<and>
     (\<forall>(m, p) \<in> set queue. walk models start p m \<and> (\<forall>q. walk models start q m \<longrightarrow> length p \<le> length q)) \<and>
     sorted (map (length \<circ> snd) queue) \<and>
     (\<forall>(m, p) \<in> set queue. length p \<le> Suc (length (snd (hd queue))))"

lemma search_invD:
  assumes "search_inv models start D queue seen"
  shows "set seen = D \<union> fst ` set queue" and "start \<in> set seen"
    and "\<And>k. k \<in> D \<Longrightarrow> \<not> has_project_id models k"
    and "\<And>k f. k \<in> D \<Longrightarrow> f \<in> set (relations models k) \<Longrightarrow> fl_type f \<in> set seen"
    and "\<And>k p. (k, p) \<in> set queue \<Longrightarrow> walk models start p k"
    and "\<And>k p q. (k, p) \<in> set queue \<Longrightarrow> walk models start q k \<Longrightarrow> length p \<le> length q"
    and "sorted (map (length \<circ> snd) queue)"
    and "\<And>k p. (k, p) \<in> set queue \<Longrightarrow> length p \<le> Suc (length (snd (hd queue)))"
  using assms unfolding search_inv_def by blast+

text \<open>A walk that does not end among the processed models passes a queued one.\<close>

lemma walk_meets_queue:
  assumes "search_inv models start D queue seen" and "walk models start q m"
  shows "m \<in> D \<or> (\<exists>m1 p1. (m1, p1) \<in> set queue \<and> length p1 \<le> length q \<and> (m1 = m \<or> length p1 < length q))"
proof -
  note inv = search_invD [OF assms(1)]
  have queued: "\<exists>m1 p1. (m1, p1) \<in> set queue \<and> length p1 \<le> length q \<and> m1 = m"
    if w: "walk models start q m" and n: "m \<in> set seen" "m \<notin> D" for q m
  proof -
    obtain p1 where "(m, p1) \<in> set queue" using n inv(1) by auto
    with inv(6) [OF this w] show ?thesis by blast
  qed
  show ?thesis
    using assms(2)
  proof (induction rule: walk.induct)
    case here
    then show ?case using queued [OF walk.here] inv(2) by blast
  next
    case (onto path m' f)
    show ?case
    proof (cases "m' \<in> D")
      case True
      then have "fl_type f \<in> set seen" using inv(4) onto.hyps(2) by blast
      then show ?thesis using queued [OF walk.onto [OF onto.hyps]] by blast
    next
      case False
      then obtain m1 p1 where "(m1, p1) \<in> set queue" "length p1 \<le> length path" using onto.IH by blast
      then show ?thesis by (intro disjI2 exI [of _ m1] exI [of _ p1]) simp
    qed
  qed
qed

lemma enqueue_result:
  assumes "enqueue path fs (queue, seen) = (queue', seen')"
  shows "\<exists>new. queue' = queue @ new \<and> set seen' = set seen \<union> fst ` set new \<and>
    (\<forall>(m, p) \<in> set new. m \<notin> set seen \<and> (\<exists>f \<in> set fs. fl_type f = m \<and> p = path @ [fl_name f])) \<and>
    (\<forall>f \<in> set fs. fl_type f \<in> set seen')"
  using assms
proof (induction fs arbitrary: queue seen)
  case (Cons f fs)
  show ?case
  proof (cases "fl_type f \<in> set seen")
    case True
    with Cons.IH [of queue seen] Cons.prems show ?thesis by (auto split: prod.splits)
  next
    case False
    let ?n = "(fl_type f, path @ [fl_name f])"
    from Cons.IH [of "queue @ [?n]" "fl_type f # seen"] Cons.prems False obtain new where
      "queue' = (queue @ [?n]) @ new" "set seen' = set (fl_type f # seen) \<union> fst ` set new"
      "\<forall>(m, p) \<in> set new. m \<notin> set (fl_type f # seen) \<and> (\<exists>f \<in> set fs. fl_type f = m \<and> p = path @ [fl_name f])"
      "\<forall>f \<in> set fs. fl_type f \<in> set seen'" by auto
    then show ?thesis using False by (intro exI [of _ "?n # new"]) auto
  qed
qed simp

lemma search_inv_step:
  assumes "search_inv models start D ((m, path) # queue) seen" and no: "\<not> has_project_id models m"
    and e: "enqueue path (relations models m) (queue, seen) = (queue', seen')"
  shows "search_inv models start (insert m D) queue' seen'"
proof -
  note inv = search_invD [OF assms(1)]
  from enqueue_result [OF e] obtain new where new: "queue' = queue @ new" "set seen' = set seen \<union> fst ` set new"
    "\<forall>(k, p) \<in> set new. k \<notin> set seen \<and> (\<exists>f \<in> set (relations models m). fl_type f = k \<and> p = path @ [fl_name f])"
    "\<forall>f \<in> set (relations models m). fl_type f \<in> set seen'" by blast
  have len: "length (snd x) = Suc (length path)" if "x \<in> set new" for x using new(3) that by (cases x) auto
  have first: "length path \<le> length (snd x)" if "x \<in> set ((m, path) # queue)" for x using inv(7) that by auto
  have last: "length (snd x) \<le> Suc (length path)" if "x \<in> set queue" for x
    using inv(8) [of "fst x" "snd x"] that by simp
  have walks: "walk models start p k \<and> (\<forall>q. walk models start q k \<longrightarrow> length p \<le> length q)" if n: "(k, p) \<in> set new" for k p
  proof (intro conjI allI impI)
    obtain f where f: "f \<in> set (relations models m)" "fl_type f = k" "p = path @ [fl_name f]" using new(3) n by auto
    have "walk models start path m" using inv(5) by simp
    from walk.onto [OF this f(1)] f show "walk models start p k" by simp
    fix q assume q: "walk models start q k"
    have "k \<notin> set seen" using new(3) n by auto
    then have k: "k \<notin> D" "k \<notin> fst ` set ((m, path) # queue)" using inv(1) by auto
    with walk_meets_queue [OF assms(1) q] obtain m1 p1 where m1: "(m1, p1) \<in> set ((m, path) # queue)" "length p1 < length q"
      by (metis fst_conv image_eqI)
    with first [OF m1(1)] show "length p \<le> length q" using f(3) by simp
  qed
  have "sorted (map (length \<circ> snd) queue')"
  proof -
    have "sorted (map (length \<circ> snd) new)"
      using len by (induction new) auto
    then show ?thesis using inv(7) len last by (auto simp: new(1) sorted_append)
  qed
  moreover have "length p \<le> Suc (length (snd (hd queue')))" if "(k, p) \<in> set queue'" for k p
  proof (cases "queue = []")
    case True
    then have "(k, p) \<in> set new" "hd queue' \<in> set new" using that by (auto simp: new(1) intro!: hd_in_set)
    then show ?thesis using len [of "(k, p)"] len [of "hd queue'"] by simp
  next
    case False
    then have "length path \<le> length (snd (hd queue))" using first [of "hd queue"] by simp
    moreover have "length p \<le> Suc (length path)" using that len [of "(k, p)"] last [of "(k, p)"] by (auto simp: new(1))
    ultimately show ?thesis using False by (simp add: new(1))
  qed
  moreover have "set seen' = insert m D \<union> fst ` set queue'" using inv(1) by (auto simp: new(1,2))
  moreover have "start \<in> set seen'" using inv(2) new(2) by blast
  moreover have "\<forall>k \<in> insert m D. \<not> has_project_id models k \<and> (\<forall>f \<in> set (relations models k). fl_type f \<in> set seen')"
    using inv(3,4) no new(2,4) by blast
  moreover have "\<forall>(k, p) \<in> set queue'. walk models start p k \<and> (\<forall>q. walk models start q k \<longrightarrow> length p \<le> length q)"
  proof (clarify, intro conjI allI impI)
    fix k p assume "(k, p) \<in> set queue'"
    then consider "(k, p) \<in> set ((m, path) # queue)" | "(k, p) \<in> set new" by (auto simp: new(1))
    then have "walk models start p k \<and> (\<forall>q. walk models start q k \<longrightarrow> length p \<le> length q)"
      by cases (use inv(5,6) walks in blast)+
    then show "walk models start p k" "\<And>q. walk models start q k \<Longrightarrow> length p \<le> length q" by blast+
  qed
  ultimately show ?thesis unfolding search_inv_def by blast
qed

lemma search_loop_correct:
  assumes "search_inv models start D queue seen"
  shows "case search_loop models queue seen of
      None \<Rightarrow> \<not> (\<exists>q m. walk models start q m \<and> has_project_id models m)
    | Some path \<Rightarrow> \<exists>m. walk models start path m \<and> has_project_id models m \<and>
        (\<forall>q m'. walk models start q m' \<and> has_project_id models m' \<longrightarrow> length path \<le> length q)"
  using assms
proof (induction models queue seen arbitrary: D rule: search_loop.induct)
  case (1 models seen)
  have "\<not> has_project_id models m" if "walk models start q m" for q m
    using walk_meets_queue [OF 1 that] search_invD(3) [OF 1] by auto
  then show ?case by (auto simp: search_loop.simps)
next
  case (2 models m path queue seen)
  note inv = search_invD [OF "2.prems"]
  show ?case
  proof (cases "has_project_id models m")
    case True
    have "length path \<le> length q" if w: "walk models start q m'" "has_project_id models m'" for q m'
    proof -
      from walk_meets_queue [OF "2.prems" w(1)] inv(3) w(2) obtain m1 p1
        where "(m1, p1) \<in> set ((m, path) # queue)" "length p1 \<le> length q" by blast
      then show ?thesis using inv(7) by fastforce
    qed
    moreover have "walk models start path m" using inv(5) by simp
    ultimately show ?thesis using True by (auto simp: search_loop.simps)
  next
    case False
    obtain queue' seen' where e: "enqueue path (relations models m) (queue, seen) = (queue', seen')" by fastforce
    show ?thesis
      using "2.IH" [OF False e [symmetric] search_inv_step [OF "2.prems" False e]] False e
      by (simp add: search_loop.simps)
  qed
qed

text \<open>C39  The search for the project of a row ends on every data model and is right: it answers nothing
  exactly when no chain of to-one relations leads from the model to one with a \<open>projectId\<close>, and
  otherwise answers such a chain, a shortest one.\<close>

theorem project_path_shortest:
  assumes "map_of models start \<noteq> None" and "start \<noteq> ''Project''"
  shows "case projectPathFor models start of
      None \<Rightarrow> \<not> (\<exists>q m. walk models start q m \<and> has_project_id models m)
    | Some path \<Rightarrow> \<exists>m. walk models start path m \<and> has_project_id models m \<and>
        (\<forall>q m'. walk models start q m' \<and> has_project_id models m' \<longrightarrow> length path \<le> length q)"
proof -
  have "search_inv models start {} [(start, [])] [start]" by (simp add: search_inv_def walk.here)
  from search_loop_correct [OF this] show ?thesis using assms unfolding projectPathFor_def by (simp only: simp_thms if_False)
qed

subsection \<open>Reading the project of a row\<close>

datatype row = Row (row_project: "uid option") (row_links: "(string \<times> row option) list")

definition row_link :: "row \<Rightarrow> string \<Rightarrow> row option" where
  "row_link r x = (case map_of (row_links r) x of None \<Rightarrow> None | Some l \<Rightarrow> l)"

fun readProjectId :: "row option \<Rightarrow> string list \<Rightarrow> uid option" where
  "readProjectId None path = None"
| "readProjectId (Some r) [] = row_project r"
| "readProjectId (Some r) (x # path) = readProjectId (row_link r x) path"

text \<open>What the lookup of the row answers: the row if there is one, a malformed id, or a failure.\<close>

datatype lookup = Found "row option" | Malformed_id | Lookup_failed

definition projectIdOf :: "data_model \<Rightarrow> string \<Rightarrow> lookup \<Rightarrow> app_error + uid option" where
  "projectIdOf models model found =
     (case projectPathFor models model of
        None \<Rightarrow> Inl (PlainError [Str (model @ '' has no path to a project'')])
      | Some path \<Rightarrow>
          (case found of
             Found r \<Rightarrow> Inr (readProjectId r path)
           | Malformed_id \<Rightarrow> Inr (readProjectId None path)
           | Lookup_failed \<Rightarrow> Inl (ServiceUnavailable (msg ''Couldn't check access to this project - try again''))))"

subsection \<open>Leaving out hidden projects\<close>

datatype where_clause =
    Id_not_in "uid list"
  | Project_not_in "uid list"
  | Project_is_null
  | Link_is string where_clause
  | Link_is_null string
  | Either "where_clause list"

definition field_named :: "data_model \<Rightarrow> string \<Rightarrow> string \<Rightarrow> field option" where
  "field_named models m x = find_row (\<lambda>f. fl_name f = x) (fields_of models m)"

fun build_where :: "data_model \<Rightarrow> uid list \<Rightarrow> string \<Rightarrow> string list \<Rightarrow> where_clause" where
  "build_where models hidden m [] =
     (case field_named models m ''projectId'' of
        None \<Rightarrow> Project_not_in hidden
      | Some f \<Rightarrow> if fl_isRequired f then Project_not_in hidden else Either [Project_is_null, Project_not_in hidden])"
| "build_where models hidden m (x # path) =
     (case field_named models m x of
        None \<Rightarrow> Either []
      | Some f \<Rightarrow>
          (let inner = Link_is (fl_name f) (build_where models hidden (fl_type f) path)
           in if fl_isRequired f then inner else Either [Link_is_null (fl_name f), inner]))"

definition excludeProjectsWhere :: "data_model \<Rightarrow> string \<Rightarrow> uid list \<Rightarrow> app_error + where_clause" where
  "excludeProjectsWhere models model hidden =
     (if model = ''Project'' then Inr (Id_not_in hidden)
      else
        (case projectPathFor models model of
           None \<Rightarrow> Inl (PlainError [Str (model @ '' has no path to a project'')])
         | Some path \<Rightarrow> Inr (build_where models hidden model path)))"

text \<open>What the database makes of a filter; \<open>i\<close> is the id of the row.\<close>

fun sql :: "where_clause \<Rightarrow> uid \<Rightarrow> row \<Rightarrow> bool" where
  "sql (Id_not_in ids) i r = (i \<notin> set ids)"
| "sql (Project_not_in ids) i r = (case row_project r of None \<Rightarrow> False | Some p \<Rightarrow> p \<notin> set ids)"
| "sql Project_is_null i r = (row_project r = None)"
| "sql (Link_is x w) i r = (case row_link r x of None \<Rightarrow> False | Some r' \<Rightarrow> sql w i r')"
| "sql (Link_is_null x) i r = (row_link r x = None)"
| "sql (Either ws) i r = (\<exists>w \<in> set ws. sql w i r)"

text \<open>The row has what the data model requires along the path.\<close>

fun conforms :: "data_model \<Rightarrow> string \<Rightarrow> string list \<Rightarrow> row \<Rightarrow> bool" where
  "conforms models m [] r \<longleftrightarrow>
     (case field_named models m ''projectId'' of None \<Rightarrow> False
      | Some f \<Rightarrow> fl_isRequired f \<longrightarrow> row_project r \<noteq> None)"
| "conforms models m (x # path) r \<longleftrightarrow>
     (case field_named models m x of None \<Rightarrow> False
      | Some f \<Rightarrow>
          (case row_link r x of None \<Rightarrow> \<not> fl_isRequired f
           | Some r' \<Rightarrow> conforms models (fl_type f) path r'))"

lemma field_named_name: "field_named models m x = Some f \<Longrightarrow> fl_name f = x"
  by (auto simp: field_named_def dest: find_row_SomeD)

lemma build_where_exact:
  "conforms models m path r \<Longrightarrow> sql (build_where models hidden m path) i r \<longleftrightarrow>
     (case readProjectId (Some r) path of None \<Rightarrow> True | Some p \<Rightarrow> p \<notin> set hidden)"
proof (induction path arbitrary: m r)
  case Nil
  then show ?case by (auto split: option.splits)
next
  case (Cons x path)
  then obtain f where f: "field_named models m x = Some f" by (auto split: option.splits)
  note name = field_named_name [OF f]
  show ?case
  proof (cases "row_link r x")
    case None
    then show ?thesis using Cons.prems by (simp add: f name)
  next
    case (Some r')
    then show ?thesis using Cons.prems Cons.IH [of "fl_type f" r'] by (simp add: f name Let_def)
  qed
qed

text \<open>C40  The filter that keeps a list to the projects a caller may see keeps exactly the right rows, nulls
  and optional links included: a row stays if and only if the lookup the guard uses for a single row
  finds no project for it, or one that is not hidden.\<close>

theorem hidden_rows_left_out:
  assumes "model \<noteq> ''Project''" and "projectPathFor models model = Some path" and "conforms models model path r"
  shows "\<exists>w. excludeProjectsWhere models model hidden = Inr w \<and>
    (sql w i r \<longleftrightarrow>
       (case projectIdOf models model (Found (Some r)) of Inl _ \<Rightarrow> False | Inr None \<Rightarrow> True | Inr (Some p) \<Rightarrow> p \<notin> set hidden))"
  using assms build_where_exact [OF assms(3), of hidden i]
  by (simp add: excludeProjectsWhere_def projectIdOf_def split: option.split)

subsection \<open>A worked data model\<close>

text \<open>An estimate line leads to its project over its section and estimate, or over its project phase.\<close>

definition models_example :: data_model where
  "models_example =
     [(''EstimateLine'',
        [\<lparr>fl_name = ''section'', fl_object = True, fl_type = ''Section'', fl_isList = False, fl_hasForeignKey = True, fl_isRequired = True\<rparr>,
         \<lparr>fl_name = ''task'', fl_object = True, fl_type = ''Task'', fl_isList = False, fl_hasForeignKey = True, fl_isRequired = False\<rparr>]),
      (''Section'',
        [\<lparr>fl_name = ''estimate'', fl_object = True, fl_type = ''Estimate'', fl_isList = False, fl_hasForeignKey = True, fl_isRequired = True\<rparr>]),
      (''Estimate'',
        [\<lparr>fl_name = ''projectId'', fl_object = False, fl_type = ''String'', fl_isList = False, fl_hasForeignKey = False, fl_isRequired = True\<rparr>]),
      (''Task'',
        [\<lparr>fl_name = ''projectId'', fl_object = False, fl_type = ''String'', fl_isList = False, fl_hasForeignKey = False, fl_isRequired = True\<rparr>])]"

lemma models_example_path: "projectPathFor models_example ''EstimateLine'' = Some [''task'']"
  by code_simp

lemma project_path_shortest_witness:
  "\<exists>m. walk models_example ''EstimateLine'' [''task''] m \<and> has_project_id models_example m"
proof -
  have "map_of models_example ''EstimateLine'' \<noteq> None" by (simp add: models_example_def)
  from project_path_shortest [OF this] show ?thesis unfolding models_example_path by auto
qed

lemma hidden_rows_left_out_witness:
  "\<exists>w. excludeProjectsWhere models_example ''EstimateLine'' [7] = Inr w \<and>
     sql w 1 (Row None [(''task'', None)]) \<and>
     \<not> sql w 2 (Row None [(''task'', Some (Row (Some 7) []))])"
proof -
  have c: "conforms models_example ''EstimateLine'' [''task''] (Row None [(''task'', None)])"
    "conforms models_example ''EstimateLine'' [''task''] (Row None [(''task'', Some (Row (Some 7) []))])" by code_simp+
  from hidden_rows_left_out [OF _ models_example_path c(1), of "[7]" 1]
    hidden_rows_left_out [OF _ models_example_path c(2), of "[7]" 2]
  show ?thesis by (auto simp: projectIdOf_def models_example_path row_link_def)
qed

end
