(* ===== verification/Net_Addresses.thy ===== *)
theory Net_Addresses
  imports JS_Text
begin

section \<open>Network addresses a request may come from and a webhook may go to\<close>

text \<open>
  \<open>common/webhooks/webhook-url.ts\<close> and \<open>common/guards/ip-allowlist.guard.ts\<close>.  \<open>isIPv4\<close> and \<open>isIPv6\<close> are
  Node's: a dotted quad without leading zeros, and groups of one to four hexadecimal digits with at
  most one \<open>::\<close> and an optional dotted quad at the end.  The URL parser and the resolver are
  parameters: \<open>parse_url\<close> gives protocol and hostname, \<open>lookup\<close> an address and its family.
\<close>

unbundle bit_operations_syntax

subsection \<open>IPv4\<close>

definition ipv4ToInt :: "nat \<Rightarrow> nat \<Rightarrow> nat \<Rightarrow> nat \<Rightarrow> 32 word" where
  "ipv4ToInt a b c d =
     js_shl (word_of_nat a) 24 OR js_shl (word_of_nat b) 16 OR js_shl (word_of_nat c) 8 OR word_of_nat d"

definition BLOCKED_IPV4 :: "(32 word \<times> int) list" where
  "BLOCKED_IPV4 =
     [(ipv4ToInt 0 0 0 0, 8), (ipv4ToInt 10 0 0 0, 8), (ipv4ToInt 100 64 0 0, 10), (ipv4ToInt 127 0 0 0, 8),
      (ipv4ToInt 169 254 0 0, 16), (ipv4ToInt 172 16 0 0, 12), (ipv4ToInt 192 0 0 0, 24),
      (ipv4ToInt 192 168 0 0, 16), (ipv4ToInt 198 18 0 0, 15), (ipv4ToInt 224 0 0 0, 4), (ipv4ToInt 240 0 0 0, 4)]"

text \<open>\<open>0xffffffff\<close> is the word \<open>-1\<close>.\<close>

definition inCidr :: "32 word \<Rightarrow> 32 word \<times> int \<Rightarrow> bool" where
  "inCidr v block =
     (case block of (network, prefix) \<Rightarrow>
        (let mask = (if prefix = 0 then 0 else js_shl (-1) (32 - prefix)) in v AND mask = network AND mask))"

definition isBlockedIpv4Int :: "32 word \<Rightarrow> bool" where
  "isBlockedIpv4Int v = list_ex (inCidr v) BLOCKED_IPV4"

definition octet :: "string \<Rightarrow> nat option" where
  "octet s =
     (if s \<noteq> [] \<and> length s \<le> 3 \<and> list_all is_digit s \<and> (length s = 1 \<or> hd s \<noteq> CHR ''0'') \<and> dec_value s \<le> 255
      then Some (dec_value s) else None)"

definition isIPv4 :: "string \<Rightarrow> bool" where
  "isIPv4 s \<longleftrightarrow> length (split_on CHR ''.'' s) = 4 \<and> list_all (\<lambda>t. octet t \<noteq> None) (split_on CHR ''.'' s)"

definition parseIpv4 :: "string \<Rightarrow> (32 word) option" where
  "parseIpv4 ip =
     (if \<not> isIPv4 ip then None
      else (case map dec_value (split_on CHR ''.'' ip) of
              [a, b, c, d] \<Rightarrow> Some (ipv4ToInt a b c d) | _ \<Rightarrow> None))"

subsection \<open>IPv6\<close>

fun split_dcolon :: "string \<Rightarrow> string list" where
  "split_dcolon [] = [[]]"
| "split_dcolon [c] = [[c]]"
| "split_dcolon (c # e # cs) =
     (if c = CHR '':'' \<and> e = CHR '':'' then [] # split_dcolon cs
      else (case split_dcolon (e # cs) of [] \<Rightarrow> [[c]] | s # ss \<Rightarrow> (c # s) # ss))"

definition hex_group :: "string \<Rightarrow> bool" where
  "hex_group s \<longleftrightarrow> s \<noteq> [] \<and> length s \<le> 4 \<and> list_all (\<lambda>c. hex_digit c \<noteq> None) s"

fun groups_in :: "bool \<Rightarrow> string list \<Rightarrow> nat option" where
  "groups_in tail [] = Some 0"
| "groups_in tail [s] = (if hex_group s then Some 1 else if tail \<and> isIPv4 s then Some 2 else None)"
| "groups_in tail (s # t # ss) = (if hex_group s then map_option Suc (groups_in tail (t # ss)) else None)"

definition side_groups :: "bool \<Rightarrow> string \<Rightarrow> nat option" where
  "side_groups tail s = (if s = [] then Some 0 else groups_in tail (split_on CHR '':'' s))"

definition isIPv6 :: "string \<Rightarrow> bool" where
  "isIPv6 s =
     (case split_dcolon s of
        [t] \<Rightarrow> side_groups True t = Some 8
      | [h, r] \<Rightarrow>
          (case (side_groups False h, side_groups True r) of (Some a, Some b) \<Rightarrow> a + b \<le> 7 | _ \<Rightarrow> False)
      | _ \<Rightarrow> False)"

definition strip_brackets :: "string \<Rightarrow> string" where
  "strip_brackets s =
     (let t = (case s of [] \<Rightarrow> [] | c # cs \<Rightarrow> if c = CHR ''['' then cs else s)
      in if t \<noteq> [] \<and> last t = CHR '']'' then butlast t else t)"

definition lower_hex :: "char \<Rightarrow> char" where
  "lower_hex c = (let n = of_char c :: nat in if 65 \<le> n \<and> n \<le> 90 then char_of (n + 32) else c)"

text \<open>The dotted tail is what follows the last colon, when it is a dotted quad.\<close>

definition replace_tail :: "string \<Rightarrow> string option" where
  "replace_tail t =
     (let rest = rev (takeWhile (\<lambda>c. c \<noteq> CHR '':'') (rev t))
      in if CHR ''.'' \<notin> set rest then Some t
         else (case parseIpv4 rest of
                 None \<Rightarrow> None
               | Some v4 \<Rightarrow>
                   Some (take (length t - length rest) t @ show_base 16 (unat (drop_bit 16 v4)) @ '':'' @
                         show_base 16 (unat (v4 AND 0xffff)))))"

definition text_groups :: "string \<Rightarrow> string list" where
  "text_groups s = (if s = [] then [] else split_on CHR '':'' s)"

definition parse_hex :: "string \<Rightarrow> nat" where
  "parse_hex s = digits_value 16 hex_digit s"

definition parseIpv6 :: "string \<Rightarrow> nat list option" where
  "parseIpv6 ip =
     (let address = hd (split_on CHR ''%'' (strip_brackets ip)) in
      if \<not> isIPv6 address then None
      else
        (case replace_tail (map lower_hex address) of
           None \<Rightarrow> None
         | Some t \<Rightarrow>
             (let parts = split_dcolon t; headGroups = text_groups (hd parts);
                  restGroups = (case tl parts of [] \<Rightarrow> [] | r # _ \<Rightarrow> text_groups r);
                  fill = (if tl parts = [] then 0 else 8 - length headGroups - length restGroups);
                  groups = map parse_hex (headGroups @ replicate fill ''0'' @ restGroups)
              in if length groups = 8 \<and> list_all (\<lambda>g. g \<le> 0xffff) groups then Some groups else None)))"

definition embeddedIpv4 :: "nat \<Rightarrow> nat \<Rightarrow> 32 word" where
  "embeddedIpv4 high low = js_shl (word_of_nat high) 16 OR word_of_nat low"

definition zero_groups :: "nat list \<Rightarrow> nat \<Rightarrow> nat \<Rightarrow> bool" where
  "zero_groups g m n = list_all (\<lambda>x. x = 0) (drop m (take n g))"

definition isBlockedIpv6 :: "nat list \<Rightarrow> bool" where
  "isBlockedIpv6 g =
     (if zero_groups g 0 5 \<and> g ! 5 = 0xffff then isBlockedIpv4Int (embeddedIpv4 (g ! 6) (g ! 7))
      else if zero_groups g 0 4 \<and> g ! 4 = 0xffff \<and> g ! 5 = 0 then isBlockedIpv4Int (embeddedIpv4 (g ! 6) (g ! 7))
      else if zero_groups g 0 6 then True
      else if g ! 0 = 0x64 \<and> g ! 1 = 0xff9b \<and> (zero_groups g 2 6 \<or> g ! 2 = 1)
      then isBlockedIpv4Int (embeddedIpv4 (g ! 6) (g ! 7))
      else if g ! 0 = 0x2002 then isBlockedIpv4Int (embeddedIpv4 (g ! 1) (g ! 2))
      else if g ! 0 = 0x2001 \<and> g ! 1 = 0 then True
      else if g ! 0 AND 0xfe00 = 0xfc00 then True
      else if g ! 0 AND 0xffc0 = 0xfe80 then True
      else if g ! 0 AND 0xffc0 = 0xfec0 then True
      else if g ! 0 AND 0xff00 = 0xff00 then True
      else False)"

definition isBlockedAddress :: "string \<Rightarrow> bool" where
  "isBlockedAddress ip =
     (case parseIpv4 ip of
        Some v4 \<Rightarrow> isBlockedIpv4Int v4
      | None \<Rightarrow> (case parseIpv6 ip of None \<Rightarrow> True | Some v6 \<Rightarrow> isBlockedIpv6 v6))"

subsection \<open>Webhook URLs\<close>

definition assertPublicWebhookUrl ::
  "(string \<Rightarrow> (string \<times> string) option) \<Rightarrow> (string \<Rightarrow> (string \<times> nat) option) \<Rightarrow> string \<Rightarrow> app_error + unit" where
  "assertPublicWebhookUrl parse_url lookup rawUrl =
     (case parse_url rawUrl of
        None \<Rightarrow> Inl (BadRequestException (msg ''Invalid webhook URL''))
      | Some (protocol, hostname) \<Rightarrow>
          if protocol \<noteq> ''http:'' \<and> protocol \<noteq> ''https:''
          then Inl (BadRequestException (msg ''Webhook URL must use http or https''))
          else if hostname = ''localhost''
          then Inl (BadRequestException (msg ''Webhook URL may not point to localhost''))
          else
            (case lookup (strip_brackets hostname) of
               None \<Rightarrow> Inl (BadRequestException (msg ''Could not resolve the webhook host''))
             | Some (address, family) \<Rightarrow>
                 if isBlockedAddress address
                 then Inl (BadRequestException (msg ''Webhook URL may not point to a private or internal address''))
                 else Inr ()))"

text \<open>The dispatcher is the address its connections are pinned to.\<close>

definition resolvePinnedWebhookDispatcher ::
  "(string \<Rightarrow> (string \<times> string) option) \<Rightarrow> (string \<Rightarrow> (string \<times> nat) option) \<Rightarrow> string \<Rightarrow> app_error + (string \<times> nat)" where
  "resolvePinnedWebhookDispatcher parse_url lookup rawUrl =
     (case parse_url rawUrl of
        None \<Rightarrow> Inl (PlainError (msg ''Invalid URL''))
      | Some (protocol, hostname) \<Rightarrow>
          if hostname = ''localhost'' then Inl (PlainError (msg ''Webhook URL may not point to localhost''))
          else
            (case lookup (strip_brackets hostname) of
               None \<Rightarrow> Inl (PlainError (msg ''Could not resolve the webhook host''))
             | Some (address, family) \<Rightarrow>
                 if isBlockedAddress address
                 then Inl (PlainError (msg ''Webhook destination resolved to a private or internal address''))
                 else Inr (address, family)))"

subsection \<open>The allowlist of a company\<close>

text \<open>\<open>/^\d{1,3}(\.\d{1,3}){3}$/\<close> and the reduction of its octets.\<close>

definition quad :: "string \<Rightarrow> bool" where
  "quad s \<longleftrightarrow> length (split_on CHR ''.'' s) = 4 \<and>
     list_all (\<lambda>t. t \<noteq> [] \<and> length t \<le> 3 \<and> list_all is_digit t) (split_on CHR ''.'' s)"

definition quad_value :: "string \<Rightarrow> 32 word" where
  "quad_value s = foldl (\<lambda>acc o8. js_shl acc 8 + word_of_nat (dec_value o8)) 0 (split_on CHR ''.'' s)"

text \<open>The mask; a prefix that is not a number never gets here.\<close>

definition prefix_mask :: "js_number \<Rightarrow> 32 word" where
  "prefix_mask p =
     (case p of
        NaN \<Rightarrow> 0
      | Infinite \<Rightarrow> js_shl (-1) 0
      | Finite r \<Rightarrow> if r = 0 then 0 else js_shl (-1) (to_int32 (32 - r)))"

definition ipMatches :: "string \<Rightarrow> string \<Rightarrow> bool" where
  "ipMatches ip rule =
     (if CHR ''/'' \<notin> set rule then ip = rule
      else
        (let parts = split_on CHR ''/'' rule; rangeIp = parts ! 0; prefix = js_Number (parts ! 1) in
         if \<not> quad ip \<or> \<not> quad rangeIp \<or> prefix = NaN then False
         else quad_value ip AND prefix_mask prefix = quad_value rangeIp AND prefix_mask prefix))"

definition MAPPED_PREFIX :: string where "MAPPED_PREFIX = ''::ffff:''"

definition isIpAllowed :: "string list \<Rightarrow> string option \<Rightarrow> bool" where
  "isIpAllowed allowlist rawIp =
     (if allowlist = [] then True
      else
        (let requestIp = (case rawIp of None \<Rightarrow> []
               | Some ip \<Rightarrow> if take 7 ip = MAPPED_PREFIX then drop 7 ip else ip)
         in list_ex (ipMatches requestIp) allowlist))"

definition IP_NOT_ALLOWED :: app_error where
  "IP_NOT_ALLOWED = ForbiddenException (msg ''This IP address isn't on the company's allowlist'')"

text \<open>\<open>user_company\<close> is the company of the signed-in user, \<open>allowlist_of\<close> its row.\<close>

definition ip_allowlist_guard ::
  "(uid \<Rightarrow> string list option) \<Rightarrow> bool \<Rightarrow> uid option \<Rightarrow> string option \<Rightarrow> app_error + unit" where
  "ip_allowlist_guard allowlist_of isPublic user_company ip =
     (if isPublic then Inr ()
      else
        (case Option.bind user_company allowlist_of of
           None \<Rightarrow> Inr ()
         | Some allowlist \<Rightarrow> if isIpAllowed allowlist ip then Inr () else Inl IP_NOT_ALLOWED))"

end
