(* ===== verification/Net_Laws.thy ===== *)
theory Net_Laws
  imports Net_Addresses
begin

section \<open>Which addresses the two checks let through\<close>

unbundle bit_operations_syntax

subsection \<open>Dotted quads as numbers\<close>

definition quad_num :: "nat \<Rightarrow> nat \<Rightarrow> nat \<Rightarrow> nat \<Rightarrow> nat" where
  "quad_num a b c d = ((a * 256 + b) * 256 + c) * 256 + d"

definition dotted :: "nat \<Rightarrow> nat \<Rightarrow> nat \<Rightarrow> nat \<Rightarrow> string" where
  "dotted a b c d = show_nat a @ ''.'' @ show_nat b @ ''.'' @ show_nat c @ ''.'' @ show_nat d"

definition octets :: "nat \<Rightarrow> nat \<Rightarrow> nat \<Rightarrow> nat \<Rightarrow> bool" where
  "octets a b c d \<longleftrightarrow> a < 256 \<and> b < 256 \<and> c < 256 \<and> d < 256"

lemma quad_num_less: "octets a b c d \<Longrightarrow> quad_num a b c d < 2 ^ 32"
  by (simp add: octets_def quad_num_def)

lemma bit_small: "m < 2 ^ k \<Longrightarrow> bit (word_of_nat m :: 32 word) j \<Longrightarrow> j < k"
proof (rule ccontr)
  assume m: "m < 2 ^ k" and b: "bit (word_of_nat m :: 32 word) j" and "\<not> j < k"
  then have "m < 2 ^ j" by (metis linorder_not_less order_less_le_trans power_increasing one_le_numeral)
  then have "m div 2 ^ j = 0" by simp
  then have "\<not> bit m j" by (simp add: bit_iff_odd)
  with b show False by (simp add: bit_of_nat_iff)
qed

text \<open>Writing the low bits of a shifted value is addition.\<close>

lemma shl_or:
  assumes "m < 2 ^ k" and "k < 32"
  shows "js_shl x (int k) OR word_of_nat m = x * 2 ^ k + word_of_nat m"
proof -
  have "bit (push_bit k x AND word_of_nat m) j = False" for j
    using bit_small [OF assms(1), of j] by (auto simp: bit_simps)
  then have "push_bit k x AND word_of_nat m = 0" by (intro bit_eqI) simp
  then show ?thesis using assms(2) by (simp add: js_shl_def push_bit_eq_mult disjunctive_add_eq_or)
qed

lemma shl_nat: "k < 32 \<Longrightarrow> js_shl (word_of_nat m) (int k) = (word_of_nat (m * 2 ^ k) :: 32 word)"
  by (simp add: js_shl_def push_bit_eq_mult)

lemma or_nat:
  assumes "m < 2 ^ k" and "k < 32"
  shows "(word_of_nat (n * 2 ^ k) OR word_of_nat m :: 32 word) = word_of_nat (n * 2 ^ k + m)"
  using shl_or [OF assms, of "word_of_nat n"] shl_nat [OF assms(2), of n] by simp

lemma ipv4ToInt_value:
  assumes "octets a b c d"
  shows "ipv4ToInt a b c d = word_of_nat (quad_num a b c d)"
proof -
  have low: "b * 2 ^ 16 < 2 ^ 24" "c * 2 ^ 8 < 2 ^ 16" "d < 2 ^ 8" using assms by (simp_all add: octets_def)
  have e: "a * 2 ^ 24 + b * 2 ^ 16 = (a * 2 ^ 8 + b) * 2 ^ 16"
    "(a * 2 ^ 8 + b) * 2 ^ 16 + c * 2 ^ 8 = ((a * 2 ^ 8 + b) * 2 ^ 8 + c) * 2 ^ 8"
    "((a * 2 ^ 8 + b) * 2 ^ 8 + c) * 2 ^ 8 + d = quad_num a b c d"
    by (simp_all add: quad_num_def)
  have s: "js_shl (word_of_nat m) 24 = word_of_nat (m * 2 ^ 24)" "js_shl (word_of_nat m) 16 = word_of_nat (m * 2 ^ 16)"
    "js_shl (word_of_nat m) 8 = (word_of_nat (m * 2 ^ 8) :: 32 word)" for m
    using shl_nat [of 24] shl_nat [of 16] shl_nat [of 8] by simp_all
  have "ipv4ToInt a b c d =
      ((word_of_nat (a * 2 ^ 24) OR word_of_nat (b * 2 ^ 16)) OR word_of_nat (c * 2 ^ 8)) OR word_of_nat d"
    unfolding ipv4ToInt_def s by (simp only: or.assoc)
  also have "\<dots> = word_of_nat (quad_num a b c d)"
    by (simp only: or_nat [OF low(1), simplified] e(1) or_nat [OF low(2), simplified] e(2) or_nat [OF low(3), simplified] e(3)
        or_nat [OF low(1)] or_nat [OF low(2)] or_nat [OF low(3)] numeral_less_iff semiring_norm)
  finally show ?thesis .
qed

text \<open>Two addresses share a block of prefix \<open>p\<close> when they agree but for the last \<open>32 - p\<close> bits.\<close>

lemma masked_eq:
  fixes v w :: "32 word"
  assumes "k \<le> 32"
  shows "v AND push_bit k (-1) = w AND push_bit k (-1) \<longleftrightarrow> unat v div 2 ^ k = unat w div 2 ^ k"
proof -
  have "v AND push_bit k (-1) = w AND push_bit k (-1) \<longleftrightarrow> drop_bit k v = drop_bit k w"
  proof
    assume eq: "v AND push_bit k (-1) = w AND push_bit k (-1)"
    show "drop_bit k v = drop_bit k w"
    proof (rule bit_eqI)
      fix i assume "possible_bit TYPE(32 word) i"
      have "bit (v AND push_bit k (-1)) (k + i) = bit (w AND push_bit k (-1)) (k + i)" using eq by simp
      then show "bit (drop_bit k v) i = bit (drop_bit k w) i"
        by (auto simp: bit_simps dest: bit_imp_le_length)
    qed
  next
    assume eq: "drop_bit k v = drop_bit k w"
    show "v AND push_bit k (-1) = w AND push_bit k (-1)"
    proof (rule bit_eqI)
      fix i
      have "bit (drop_bit k v) (i - k) = bit (drop_bit k w) (i - k)" using eq by simp
      then show "bit (v AND push_bit k (-1)) i = bit (w AND push_bit k (-1)) i"
        by (auto simp: bit_simps)
    qed
  qed
  also have "\<dots> \<longleftrightarrow> unat (drop_bit k v) = unat (drop_bit k w)" by (rule word_unat_eq_iff)
  finally show ?thesis unfolding unat_drop_bit_eq by (simp only: drop_bit_eq_div)
qed

lemma inCidr_iff:
  assumes "0 < p" and "p \<le> 32"
  shows "inCidr v (n, p) \<longleftrightarrow> unat v div 2 ^ nat (32 - p) = unat n div 2 ^ nat (32 - p)"
proof -
  have "(32 - p) mod 32 = 32 - p" using assms by (intro mod_pos_pos_trivial) auto
  then have "nat ((32 - p) mod 32) = nat (32 - p)" by (simp only:)
  then show ?thesis using assms masked_eq [of "nat (32 - p)" v n] by (simp add: inCidr_def js_shl_def)
qed

lemma unat_quad: "octets a b c d \<Longrightarrow> unat (ipv4ToInt a b c d) = quad_num a b c d"
  using quad_num_less [of a b c d] by (simp add: ipv4ToInt_value unsigned_of_nat take_bit_nat_eq_self)

subsection \<open>The blocked ranges\<close>

definition public_quad :: "nat \<Rightarrow> nat \<Rightarrow> nat \<Rightarrow> nat \<Rightarrow> bool" where
  "public_quad a b c d \<longleftrightarrow>
     a \<noteq> 0 \<and> a \<noteq> 10 \<and> a \<noteq> 127 \<and> a < 224 \<and> \<not> (a = 100 \<and> 64 \<le> b \<and> b < 128) \<and> \<not> (a = 169 \<and> b = 254) \<and>
     \<not> (a = 172 \<and> 16 \<le> b \<and> b < 32) \<and> \<not> (a = 192 \<and> b = 0 \<and> c = 0) \<and> \<not> (a = 192 \<and> b = 168) \<and>
     \<not> (a = 198 \<and> (b = 18 \<or> b = 19))"

lemma pop: "y < 256 \<Longrightarrow> (x * 256 + y) div 256 = (x :: nat)"
  by simp

lemma pair_eq: "y < 256 \<Longrightarrow> y' < 256 \<Longrightarrow> x * 256 + y = x' * 256 + y' \<longleftrightarrow> x = x' \<and> y = (y' :: nat)"
  by (metis add_left_cancel pop)

lemma quad_div:
  assumes "octets a b c d"
  shows "quad_num a b c d div 2 ^ 24 = a" and "quad_num a b c d div 2 ^ 16 = a * 256 + b"
    and "quad_num a b c d div 2 ^ 8 = (a * 256 + b) * 256 + c" and "quad_num a b c d div 2 ^ 22 = (a * 256 + b) div 64"
    and "quad_num a b c d div 2 ^ 20 = (a * 256 + b) div 16" and "quad_num a b c d div 2 ^ 17 = (a * 256 + b) div 2"
    and "quad_num a b c d div 2 ^ 28 = a div 16"
proof -
  have one: "quad_num a b c d div 256 = (a * 256 + b) * 256 + c" and two: "((a * 256 + b) * 256 + c) div 256 = a * 256 + b"
    and three: "(a * 256 + b) div 256 = a"
    using assms unfolding quad_num_def octets_def by (simp_all only: pop)
  have split: "x div (256 * y) = x div 256 div y" for x y :: nat by (simp add: div_mult2_eq)
  have two': "x div 65536 = x div 256 div 256" for x :: nat using split [of x 256] by simp
  show "quad_num a b c d div 2 ^ 8 = (a * 256 + b) * 256 + c" using one by simp
  show s16: "quad_num a b c d div 2 ^ 16 = a * 256 + b" using one two two' [of "quad_num a b c d"] by simp
  have more: "quad_num a b c d div (65536 * y) = (a * 256 + b) div y" for y
    using s16 by (simp add: div_mult2_eq)
  show "quad_num a b c d div 2 ^ 22 = (a * 256 + b) div 64" using more [of 64] by simp
  show "quad_num a b c d div 2 ^ 20 = (a * 256 + b) div 16" using more [of 16] by simp
  show "quad_num a b c d div 2 ^ 17 = (a * 256 + b) div 2" using more [of 2] by simp
  show s24: "quad_num a b c d div 2 ^ 24 = a" using more [of 256] three by simp
  have "quad_num a b c d div 2 ^ 28 = quad_num a b c d div (2 ^ 24 * 16)" by simp
  then show "quad_num a b c d div 2 ^ 28 = a div 16" using s24 by (simp only: div_mult2_eq)
qed

lemma in_block:
  assumes "octets a b c d" and "octets a' b' c' d'"
  shows "inCidr (ipv4ToInt a b c d) (ipv4ToInt a' b' c' d', 8) \<longleftrightarrow> a = a'"
    and "inCidr (ipv4ToInt a b c d) (ipv4ToInt a' b' c' d', 10) \<longleftrightarrow> (a * 256 + b) div 64 = (a' * 256 + b') div 64"
    and "inCidr (ipv4ToInt a b c d) (ipv4ToInt a' b' c' d', 16) \<longleftrightarrow> a * 256 + b = a' * 256 + b'"
    and "inCidr (ipv4ToInt a b c d) (ipv4ToInt a' b' c' d', 12) \<longleftrightarrow> (a * 256 + b) div 16 = (a' * 256 + b') div 16"
    and "inCidr (ipv4ToInt a b c d) (ipv4ToInt a' b' c' d', 24) \<longleftrightarrow> (a * 256 + b) * 256 + c = (a' * 256 + b') * 256 + c'"
    and "inCidr (ipv4ToInt a b c d) (ipv4ToInt a' b' c' d', 15) \<longleftrightarrow> (a * 256 + b) div 2 = (a' * 256 + b') div 2"
    and "inCidr (ipv4ToInt a b c d) (ipv4ToInt a' b' c' d', 4) \<longleftrightarrow> a div 16 = a' div 16"
proof -
  note u = unat_quad [OF assms(1)] unat_quad [OF assms(2)] and q = quad_div [OF assms(1)] quad_div [OF assms(2)]
  let ?v = "ipv4ToInt a b c d" and ?n = "ipv4ToInt a' b' c' d'"
  have cidr: "inCidr ?v (?n, p) \<longleftrightarrow> quad_num a b c d div 2 ^ k = quad_num a' b' c' d' div 2 ^ k"
    if "0 < p" "p \<le> 32" "nat (32 - p) = k" for p k
    using inCidr_iff [OF that(1,2), of ?v ?n] that(3) u by simp
  show "inCidr ?v (?n, 8) \<longleftrightarrow> a = a'" using cidr [of 8 24, unfolded q] by simp
  show "inCidr ?v (?n, 10) \<longleftrightarrow> (a * 256 + b) div 64 = (a' * 256 + b') div 64" using cidr [of 10 22, unfolded q] by simp
  show "inCidr ?v (?n, 16) \<longleftrightarrow> a * 256 + b = a' * 256 + b'" using cidr [of 16 16, unfolded q] by simp
  show "inCidr ?v (?n, 12) \<longleftrightarrow> (a * 256 + b) div 16 = (a' * 256 + b') div 16" using cidr [of 12 20, unfolded q] by simp
  show "inCidr ?v (?n, 24) \<longleftrightarrow> (a * 256 + b) * 256 + c = (a' * 256 + b') * 256 + c'" using cidr [of 24 8, unfolded q] by simp
  show "inCidr ?v (?n, 15) \<longleftrightarrow> (a * 256 + b) div 2 = (a' * 256 + b') div 2" using cidr [of 15 17, unfolded q] by simp
  show "inCidr ?v (?n, 4) \<longleftrightarrow> a div 16 = a' div 16" using cidr [of 4 28, unfolded q] by simp
qed

lemma isBlockedIpv4Int_iff:
  assumes "octets a b c d"
  shows "isBlockedIpv4Int (ipv4ToInt a b c d) \<longleftrightarrow> \<not> public_quad a b c d"
proof -
  have o: "octets 0 0 0 0" "octets 10 0 0 0" "octets 100 64 0 0" "octets 127 0 0 0" "octets 169 254 0 0" "octets 172 16 0 0"
    "octets 192 0 0 0" "octets 192 168 0 0" "octets 198 18 0 0" "octets 224 0 0 0" "octets 240 0 0 0"
    by (simp_all add: octets_def)
  have l: "a < 256" "b < 256" "c < 256" using assms by (simp_all add: octets_def)
  have ranges: "isBlockedIpv4Int (ipv4ToInt a b c d) \<longleftrightarrow>
      a = 0 \<or> a = 10 \<or> (a * 256 + b) div 64 = (100 * 256 + 64) div 64 \<or> a = 127 \<or> a * 256 + b = 169 * 256 + 254 \<or>
      (a * 256 + b) div 16 = (172 * 256 + 16) div 16 \<or> (a * 256 + b) * 256 + c = (192 * 256 + 0) * 256 + 0 \<or>
      a * 256 + b = 192 * 256 + 168 \<or> (a * 256 + b) div 2 = (198 * 256 + 18) div 2 \<or> a div 16 = 224 div 16 \<or>
      a div 16 = 240 div 16"
    unfolding isBlockedIpv4Int_def BLOCKED_IPV4_def list_ex_Cons_iff list_ex_Nil_iff
      in_block(1) [OF assms o(1)] in_block(1) [OF assms o(2)] in_block(2) [OF assms o(3)]
      in_block(1) [OF assms o(4)] in_block(3) [OF assms o(5)] in_block(4) [OF assms o(6)] in_block(5) [OF assms o(7)]
      in_block(3) [OF assms o(8)] in_block(6) [OF assms o(9)] in_block(7) [OF assms o(10)] in_block(7) [OF assms o(11)]
    by (simp only: simp_thms)
  have r100: "(a * 256 + b) div 64 = (100 * 256 + 64) div 64 \<longleftrightarrow> a = 100 \<and> 64 \<le> b \<and> b < 128"
  proof -
    have "b + a * 256 = b + (a * 4) * 64" by simp
    then have "(a * 256 + b) div 64 = a * 4 + b div 64" by simp
    moreover have "b div 64 < 4" "(b div 64 = 1) = (64 \<le> b \<and> b < 128)" using l by auto
    moreover have "a * 4 + k = 401 \<longleftrightarrow> a = 100 \<and> k = 1" if "k < 4" for k :: nat using that by presburger
    ultimately show ?thesis by simp
  qed
  have r169: "a * 256 + b = 169 * 256 + 254 \<longleftrightarrow> a = 169 \<and> b = 254" using l by (simp only: pair_eq)
  have r172: "(a * 256 + b) div 16 = (172 * 256 + 16) div 16 \<longleftrightarrow> a = 172 \<and> 16 \<le> b \<and> b < 32"
  proof -
    have "b + a * 256 = b + (a * 16) * 16" by simp
    then have "(a * 256 + b) div 16 = a * 16 + b div 16" by simp
    moreover have "b div 16 < 16" "(b div 16 = 1) = (16 \<le> b \<and> b < 32)" using l by auto
    moreover have "a * 16 + k = 2753 \<longleftrightarrow> a = 172 \<and> k = 1" if "k < 16" for k :: nat using that by presburger
    ultimately show ?thesis by simp
  qed
  have r192: "(a * 256 + b) * 256 + c = (192 * 256 + 0) * 256 + 0 \<longleftrightarrow> a = 192 \<and> b = 0 \<and> c = 0"
    using l pair_eq [of c 0 "a * 256 + b" "192 * 256"] pair_eq [of b 0 a 192] by simp
  have r168: "a * 256 + b = 192 * 256 + 168 \<longleftrightarrow> a = 192 \<and> b = 168" using l by (simp only: pair_eq)
  have r198: "(a * 256 + b) div 2 = (198 * 256 + 18) div 2 \<longleftrightarrow> a = 198 \<and> (b = 18 \<or> b = 19)"
  proof -
    have "b + a * 256 = b + (a * 128) * 2" by simp
    then have "(a * 256 + b) div 2 = a * 128 + b div 2" by simp
    moreover have "b div 2 < 128" "(b div 2 = 9) = (b = 18 \<or> b = 19)" using l by auto
    moreover have "a * 128 + k = 25353 \<longleftrightarrow> a = 198 \<and> k = 9" if "k < 128" for k :: nat using that by presburger
    ultimately show ?thesis by simp
  qed
  have r224: "a div 16 = 224 div 16 \<or> a div 16 = 240 div 16 \<longleftrightarrow> 224 \<le> a" using l by auto
  from ranges show ?thesis
    unfolding r100 r169 r172 r192 r168 r198 r224 public_quad_def
    by (auto simp: not_le not_less)
qed

lemma digit_char_not_0: "0 < k \<Longrightarrow> k < 10 \<Longrightarrow> digit_char k \<noteq> CHR ''0''"
  using digit_char_value [of k] by (auto simp: digit_of_def)

lemma show_small:
  shows "n < 10 \<Longrightarrow> show_nat n = [digit_char n]"
    and "10 \<le> n \<Longrightarrow> n < 100 \<Longrightarrow> show_nat n = [digit_char (n div 10), digit_char (n mod 10)]"
    and "100 \<le> n \<Longrightarrow> n < 1000 \<Longrightarrow>
      show_nat n = [digit_char (n div 10 div 10), digit_char (n div 10 mod 10), digit_char (n mod 10)]"
proof -
  have step: "show_nat m = (if m < 10 then [digit_char m] else show_nat (m div 10) @ [digit_char (m mod 10)])" for m
    by (subst show_base.simps) simp
  show one: "show_nat n = [digit_char n]" if "n < 10" for n using that by (subst step) simp
  show two: "show_nat n = [digit_char (n div 10), digit_char (n mod 10)]" if "10 \<le> n" "n < 100" for n
    using that one [of "n div 10"] by (subst step) simp
  show "show_nat n = [digit_char (n div 10 div 10), digit_char (n div 10 mod 10), digit_char (n mod 10)]"
    if "100 \<le> n" "n < 1000" using that two [of "n div 10"] by (subst step) simp
qed

lemma show_octet:
  assumes "n < 256"
  shows "octet (show_nat n) = Some n"
proof -
  have "list_all is_digit (show_nat n)" using show_nat_digits by (auto simp: list_all_iff)
  moreover have "length (show_nat n) \<le> 3 \<and> (length (show_nat n) = 1 \<or> hd (show_nat n) \<noteq> CHR ''0'')"
  proof -
    consider "n < 10" | "10 \<le> n" "n < 100" | "100 \<le> n" "n < 1000" using assms by linarith
    then show ?thesis
    proof cases
      case 2
      then show ?thesis using digit_char_not_0 [of "n div 10"] by (simp add: show_small(2))
    next
      case 3
      then have "0 < n div 10 div 10" "n div 10 div 10 < 10" by simp_all
      with 3 show ?thesis using digit_char_not_0 by (simp add: show_small(3))
    qed (simp add: show_small(1))
  qed
  ultimately show ?thesis using assms by (simp add: octet_def)
qed

lemma no_dot [simp]: "CHR ''.'' \<notin> set (show_nat n)" "CHR ''/'' \<notin> set (show_nat n)" "CHR '':'' \<notin> set (show_nat n)"
proof -
  have "\<not> is_digit CHR ''.''" "\<not> is_digit CHR ''/''" "\<not> is_digit CHR '':''" by code_simp+
  then show "CHR ''.'' \<notin> set (show_nat n)" "CHR ''/'' \<notin> set (show_nat n)" "CHR '':'' \<notin> set (show_nat n)"
    using show_nat_digits by blast+
qed

lemma split_dotted: "split_on CHR ''.'' (dotted a b c d) = [show_nat a, show_nat b, show_nat c, show_nat d]"
  by (simp add: dotted_def split_on_append split_on_none)

lemma octet_Some: "octet s = Some n \<Longrightarrow> s \<noteq> [] \<and> length s \<le> 3 \<and> list_all is_digit s \<and> dec_value s = n"
  by (simp add: octet_def split: if_splits)

lemma parse_dotted: "octets a b c d \<Longrightarrow> parseIpv4 (dotted a b c d) = Some (ipv4ToInt a b c d)"
  by (simp add: parseIpv4_def isIPv4_def split_dotted octets_def show_octet)

lemma quad_dotted:
  assumes "octets a b c d"
  shows "quad (dotted a b c d)" and "quad_value (dotted a b c d) = word_of_nat (quad_num a b c d)"
proof -
  have o: "octet (show_nat a) = Some a" "octet (show_nat b) = Some b" "octet (show_nat c) = Some c" "octet (show_nat d) = Some d"
    using assms by (simp_all add: octets_def show_octet)
  then show "quad (dotted a b c d)" using octet_Some unfolding quad_def split_dotted by simp
  show "quad_value (dotted a b c d) = word_of_nat (quad_num a b c d)"
    unfolding quad_value_def split_dotted by (simp add: quad_num_def js_shl_def push_bit_eq_mult)
qed

text \<open>C17 An entry \<open>a.b.c.d/p\<close> of a company's allowlist lets through exactly the addresses that agree with
  it in their first \<open>p\<close> bits.\<close>

theorem allowlist_block_exact:
  assumes "octets a b c d" and "octets a' b' c' d'" and "p \<le> 32"
  shows "isIpAllowed [dotted a b c d @ ''/'' @ show_nat p] (Some (dotted a' b' c' d')) \<longleftrightarrow>
    quad_num a' b' c' d' div 2 ^ (32 - p) = quad_num a b c d div 2 ^ (32 - p)"
proof -
  let ?ip = "dotted a' b' c' d'" and ?range = "dotted a b c d"
  have noslash: "CHR ''/'' \<notin> set ?range" "CHR '':'' \<notin> set ?ip"
    by (simp_all add: dotted_def)
  have parts: "split_on CHR ''/'' (?range @ CHR ''/'' # show_nat q) = [?range, show_nat q]" for q
    using noslash(1) by (simp add: split_on_append split_on_none)
  have "take 7 ?ip \<noteq> MAPPED_PREFIX"
  proof
    assume "take 7 ?ip = MAPPED_PREFIX"
    then have "CHR '':'' \<in> set (take 7 ?ip)" by (simp add: MAPPED_PREFIX_def)
    then show False using noslash(2) in_set_takeD by fast
  qed
  moreover have "prefix_mask (Finite (of_nat p)) = (if p = 0 then 0 else push_bit (32 - p) (-1))"
  proof -
    have "to_int32 (32 - of_nat p) = int (32 - p)" using assms(3) unfolding to_int32_def
      by (metis floor_of_int of_int_of_nat_eq of_nat_0_le_iff of_nat_diff of_nat_numeral)
    moreover have "0 < p \<Longrightarrow> int (32 - p) mod 32 = int (32 - p)" by simp
    ultimately show ?thesis by (simp add: prefix_mask_def js_shl_def del: of_nat_diff)
  qed
  moreover have unat: "unat (word_of_nat (quad_num a b c d) :: 32 word) = quad_num a b c d"
    "unat (word_of_nat (quad_num a' b' c' d') :: 32 word) = quad_num a' b' c' d'"
    using quad_num_less assms(1,2) by (simp_all add: unsigned_of_nat take_bit_nat_eq_self)
  ultimately have "isIpAllowed [?range @ ''/'' @ show_nat p] (Some ?ip) \<longleftrightarrow>
      (if p = 0 then True else quad_num a' b' c' d' div 2 ^ (32 - p) = quad_num a b c d div 2 ^ (32 - p))"
    using masked_eq [of "32 - p" "quad_value ?ip" "quad_value ?range"] quad_dotted [OF assms(1)] quad_dotted [OF assms(2)]
    by (simp add: isIpAllowed_def ipMatches_def Let_def parts js_Number_show)
  moreover have "quad_num a b c d div 2 ^ 32 = 0" "quad_num a' b' c' d' div 2 ^ 32 = 0"
    using quad_num_less assms(1,2) by simp_all
  ultimately show ?thesis by auto
qed

lemma allowlist_block_exact_witness:
  "isIpAllowed [dotted 203 0 113 0 @ ''/'' @ show_nat 24] (Some (dotted 203 0 113 200)) \<and>
   \<not> isIpAllowed [dotted 203 0 113 0 @ ''/'' @ show_nat 24] (Some (dotted 203 0 114 1))"
proof -
  have o: "octets 203 0 113 0" "octets 203 0 113 200" "octets 203 0 114 1" by (simp_all add: octets_def)
  show ?thesis using allowlist_block_exact [OF o(1,2), of 24] allowlist_block_exact [OF o(1,3), of 24]
    by (simp add: quad_num_def)
qed

text \<open>An entry without the number after its slash reads as \<open>/0\<close> and lets every address through, and the
  shift of a prefix above 32 wraps: \<open>/33\<close> compares one bit.  The schema takes any text of up to 64
  characters.\<close>

lemma allowlist_entry_without_prefix:
  "isIpAllowed [''10.0.0.0/''] (Some ''203.0.113.99'') \<and> isIpAllowed [''10.0.0.0/33''] (Some ''99.1.2.3'') \<and>
   \<not> isIpAllowed [''10.0.0.0/32''] (Some ''99.1.2.3'')"
  by code_simp

subsection \<open>Where a webhook goes\<close>

text \<open>The IPv4 address an IPv6 address stands for: mapped, translated, behind NAT64 or 6to4.\<close>

definition carries :: "nat list \<Rightarrow> nat \<Rightarrow> nat \<Rightarrow> bool" where
  "carries g high low \<longleftrightarrow>
     g = [0, 0, 0, 0, 0, 0xffff, high, low] \<or> g = [0, 0, 0, 0, 0xffff, 0, high, low] \<or>
     g = [0x64, 0xff9b, 0, 0, 0, 0, high, low] \<or> (\<exists>a b c d e. g = [0x2002, high, low, a, b, c, d, e])"

lemma embedded_quad:
  assumes "octets a b c d"
  shows "embeddedIpv4 (a * 256 + b) (c * 256 + d) = ipv4ToInt a b c d"
proof -
  have "c * 256 + d < 2 ^ 16" using assms by (simp add: octets_def)
  from or_nat [OF this, of "a * 256 + b"] shl_nat [of 16 "a * 256 + b"]
  show ?thesis by (simp add: embeddedIpv4_def ipv4ToInt_value [OF assms] quad_num_def algebra_simps)
qed

lemma blocked_carrier:
  assumes "octets a b c d" and "carries g (a * 256 + b) (c * 256 + d)"
  shows "isBlockedIpv6 g \<longleftrightarrow> \<not> public_quad a b c d"
proof -
  have e: "isBlockedIpv4Int (embeddedIpv4 (a * 256 + b) (c * 256 + d)) \<longleftrightarrow> \<not> public_quad a b c d"
    using isBlockedIpv4Int_iff [OF assms(1)] embedded_quad [OF assms(1)] by simp
  from assms(2) show ?thesis unfolding carries_def
    by (elim disjE exE) (simp_all add: isBlockedIpv6_def zero_groups_def e)
qed



end
