(* ===== verification/Outbox.thy ===== *)
theory Outbox
  imports Net_Addresses
begin

section \<open>Webhooks and the outbox\<close>

text \<open>
  \<open>common/webhooks/webhooks.service.ts\<close>, \<open>outbox.service.ts\<close>, \<open>outbox.processor.ts\<close>.  What lies outside is
  the record \<open>outside\<close>: URL parser, resolver and endpoint (what it answers at a time), cipher and
  signature, the text of a body.  Requests that went out are kept in order in \<open>od_requests\<close>, with
  whether they were taken; chat messages in \<open>od_chats\<close>.  A database that fails is not modelled.
\<close>

subsection \<open>Tables\<close>

datatype outbox_status = OutPending | OutProcessing | OutDelivered | OutFailed

type_synonym payload = "(string \<times> string) list"

record outbox_event =
  oe_id :: uid
  oe_companyId :: uid
  oe_event :: string
  oe_payload :: payload
  oe_status :: outbox_status
  oe_attempts :: nat
  oe_nextAttemptAt :: date
  oe_createdAt :: date
  oe_deliveredAt :: "date option"

record webhook_endpoint =
  we_id :: uid
  we_companyId :: uid
  we_url :: string
  we_secret :: string
  we_events :: "string list"
  we_active :: bool
  we_createdAt :: date
  we_lastDeliveryAt :: "date option"
  we_lastDeliveryStatus :: "string option"

record webhook_delivery =
  wd_id :: uid
  wd_webhookEndpointId :: uid
  wd_outboxEventId :: "uid option"
  wd_event :: string
  wd_success :: bool
  wd_statusCode :: "nat option"
  wd_error :: "message option"
  wd_createdAt :: date

record chat_hooks =
  cw_companyId :: uid
  cw_slackWebhookUrl :: "string option"
  cw_teamsWebhookUrl :: "string option"

record posted =
  px_endpointId :: uid
  px_outboxEventId :: "uid option"
  px_address :: string
  px_body :: string
  px_signature :: string
  px_taken :: bool

record outbox_db =
  od_events :: "outbox_event list"
  od_endpoints :: "webhook_endpoint list"
  od_deliveries :: "webhook_delivery list"
  od_companies :: "chat_hooks list"
  od_requests :: "posted list"
  od_chats :: "(uid \<times> string \<times> string) list"
  od_next :: uid

datatype http_result = Opaque_redirect | Response nat | Fetch_failed message

record outside =
  ox_parse_url :: "string \<Rightarrow> (string \<times> string) option"
  ox_lookup :: "date \<Rightarrow> string \<Rightarrow> (string \<times> nat) option"
  ox_fetch :: "string \<Rightarrow> string \<Rightarrow> string \<Rightarrow> date \<Rightarrow> http_result"
  ox_encrypt :: "string \<Rightarrow> string"
  ox_decrypt :: "string \<Rightarrow> string option"
  ox_hmac :: "string \<Rightarrow> string \<Rightarrow> string"
  ox_body :: "string \<Rightarrow> payload \<Rightarrow> date \<Rightarrow> string"

subsection \<open>Event names\<close>

definition WEBHOOK_EVENTS :: "string list" where
  "WEBHOOK_EVENTS =
     [''estimate.sent'', ''estimate.client_approved'', ''estimate.client_rejected'', ''estimate.client_countered'',
      ''change_order.sent'', ''change_order.client_approved'', ''change_order.client_rejected'', ''invoice.sent'',
      ''invoice.payment_recorded'', ''invoice.recurring_generated'', ''material.low_stock'', ''material.price_changed'',
      ''rfi.answered'', ''rfi.closed'', ''punch_list.resolved'', ''punch_list.verified'', ''submittal.approved'',
      ''submittal.revise_requested'', ''submittal.rejected'', ''safety_incident.logged'', ''insurance_claim.filed'',
      ''insurance_claim.status_changed'', ''warranty_claim.submitted'', ''warranty_claim.resolved'',
      ''warranty_claim.denied'', ''client_change_request.submitted'', ''client.won'', ''client.lost'',
      ''client.lead_captured'', ''expense.approved'', ''nps_survey.responded'', ''enps_survey.responded'',
      ''purchase_order.acknowledged'', ''signature_request.completed'']"

text \<open>\<open>/[._]/g\<close> becomes a space; \<open>/\b\w/g\<close> is the first letter or digit of each run of them.\<close>

definition is_word :: "char \<Rightarrow> bool" where
  "is_word c =
     (let n = of_char c :: nat
      in (48 \<le> n \<and> n \<le> 57) \<or> (65 \<le> n \<and> n \<le> 90) \<or> (97 \<le> n \<and> n \<le> 122) \<or> n = 95)"

definition upper :: "char \<Rightarrow> char" where
  "upper c = (let n = of_char c :: nat in if 97 \<le> n \<and> n \<le> 122 then char_of (n - 32) else c)"

fun capitals :: "bool \<Rightarrow> string \<Rightarrow> string" where
  "capitals inside [] = []"
| "capitals inside (c # cs) = (if is_word c \<and> \<not> inside then upper c else c) # capitals (is_word c) cs"

definition eventLabel :: "string \<Rightarrow> string" where
  "eventLabel event =
     capitals False (map (\<lambda>c. if c = CHR ''.'' \<or> c = CHR ''_'' then CHR '' '' else c) event)"

definition catalog :: "(string \<times> string) list" where
  "catalog = map (\<lambda>event. (event, eventLabel event)) WEBHOOK_EVENTS"

subsection \<open>The endpoints of a company\<close>

definition WEBHOOK_NOT_FOUND :: app_error where
  "WEBHOOK_NOT_FOUND = NotFoundException (msg ''Webhook not found'')"

definition list_webhooks :: "uid \<Rightarrow> outbox_db \<Rightarrow> webhook_endpoint list" where
  "list_webhooks companyId db =
     rev (sort_key we_createdAt (rev (filter (\<lambda>e. we_companyId e = companyId) (od_endpoints db))))"

definition company_webhook :: "uid \<Rightarrow> uid \<Rightarrow> outbox_db \<Rightarrow> webhook_endpoint option" where
  "company_webhook companyId i db = find_row (\<lambda>e. we_id e = i \<and> we_companyId e = companyId) (od_endpoints db)"

definition listDeliveries :: "uid \<Rightarrow> uid \<Rightarrow> nat \<Rightarrow> outbox_db \<Rightarrow> webhook_delivery list" where
  "listDeliveries companyId endpointId n db =
     (case company_webhook companyId endpointId db of
        None \<Rightarrow> []
      | Some _ \<Rightarrow>
          take n (rev (sort_key wd_createdAt (rev (filter (\<lambda>d. wd_webhookEndpointId d = endpointId) (od_deliveries db))))))"

text \<open>\<open>secret\<close> are the random bytes as text.\<close>

definition create_webhook ::
  "outside \<Rightarrow> date \<Rightarrow> string \<Rightarrow> uid \<Rightarrow> string \<Rightarrow> string list \<Rightarrow> outbox_db \<Rightarrow> app_error + (webhook_endpoint \<times> outbox_db)" where
  "create_webhook out now secret companyId url events db =
     (case assertPublicWebhookUrl (ox_parse_url out) (ox_lookup out now) url of
        Inl e \<Rightarrow> Inl e
      | Inr _ \<Rightarrow>
          (let endpoint = \<lparr>we_id = od_next db, we_companyId = companyId, we_url = url, we_secret = ox_encrypt out secret,
                 we_events = events, we_active = True, we_createdAt = now, we_lastDeliveryAt = None,
                 we_lastDeliveryStatus = None\<rparr>
           in Inr (endpoint\<lparr>we_secret := secret\<rparr>,
                   db\<lparr>od_endpoints := od_endpoints db @ [endpoint], od_next := Suc (od_next db)\<rparr>)))"

definition change_webhook ::
  "uid \<Rightarrow> uid \<Rightarrow> (webhook_endpoint \<Rightarrow> webhook_endpoint) \<Rightarrow> outbox_db \<Rightarrow> app_error + (webhook_endpoint \<times> outbox_db)" where
  "change_webhook companyId i change db =
     (case company_webhook companyId i db of
        None \<Rightarrow> Inl WEBHOOK_NOT_FOUND
      | Some endpoint \<Rightarrow>
          Inr (change endpoint, db\<lparr>od_endpoints := update_rows (\<lambda>e. we_id e = i) change (od_endpoints db)\<rparr>))"

definition update_webhook ::
  "uid \<Rightarrow> uid \<Rightarrow> string list option \<Rightarrow> bool option \<Rightarrow> outbox_db \<Rightarrow> app_error + (webhook_endpoint \<times> outbox_db)" where
  "update_webhook companyId i events active =
     change_webhook companyId i (\<lambda>e. e\<lparr>we_events := (case events of None \<Rightarrow> we_events e | Some l \<Rightarrow> l),
       we_active := (case active of None \<Rightarrow> we_active e | Some b \<Rightarrow> b)\<rparr>)"

definition regenerateSecret ::
  "outside \<Rightarrow> string \<Rightarrow> uid \<Rightarrow> uid \<Rightarrow> outbox_db \<Rightarrow> app_error + (string \<times> outbox_db)" where
  "regenerateSecret out secret companyId i db =
     (case change_webhook companyId i (\<lambda>e. e\<lparr>we_secret := ox_encrypt out secret\<rparr>) db of
        Inl e \<Rightarrow> Inl e | Inr (_, db1) \<Rightarrow> Inr (secret, db1))"

text \<open>The deliveries of a deleted endpoint go with it (\<open>onDelete: Cascade\<close>).\<close>

definition delete_webhook :: "uid \<Rightarrow> uid \<Rightarrow> outbox_db \<Rightarrow> app_error + (unit \<times> outbox_db)" where
  "delete_webhook companyId i db =
     (case company_webhook companyId i db of
        None \<Rightarrow> Inl WEBHOOK_NOT_FOUND
      | Some _ \<Rightarrow>
          Inr ((), db\<lparr>od_endpoints := filter (\<lambda>e. we_id e \<noteq> i) (od_endpoints db),
                      od_deliveries := filter (\<lambda>d. wd_webhookEndpointId d \<noteq> i) (od_deliveries db)\<rparr>))"

subsection \<open>Deliveries\<close>

definition findActiveEndpoints :: "uid \<Rightarrow> string \<Rightarrow> outbox_db \<Rightarrow> webhook_endpoint list" where
  "findActiveEndpoints companyId event db =
     filter (\<lambda>e. we_companyId e = companyId \<and> we_active e \<and> event \<in> set (we_events e)) (od_endpoints db)"

definition delivery_of :: "uid \<Rightarrow> uid \<Rightarrow> webhook_delivery \<Rightarrow> bool" where
  "delivery_of outboxEventId endpointId d \<longleftrightarrow>
     wd_outboxEventId d = Some outboxEventId \<and> wd_webhookEndpointId d = endpointId"

definition alreadyDelivered :: "uid \<Rightarrow> uid \<Rightarrow> outbox_db \<Rightarrow> bool" where
  "alreadyDelivered outboxEventId endpointId db =
     (case find_row (delivery_of outboxEventId endpointId) (od_deliveries db) of
        None \<Rightarrow> False | Some existing \<Rightarrow> wd_success existing)"

text \<open>The attempt itself: whether it succeeded, the status, the error, and the request as it went
  out (none when the address was refused).\<close>

definition app_message :: "app_error \<Rightarrow> message" where
  "app_message e = (case e of PlainError m \<Rightarrow> m | BadRequestException m \<Rightarrow> m | _ \<Rightarrow> msg ''Delivery failed'')"

definition attempt_delivery ::
  "outside \<Rightarrow> date \<Rightarrow> string \<Rightarrow> webhook_endpoint \<Rightarrow> string \<Rightarrow> payload \<Rightarrow> uid option \<Rightarrow>
   bool \<times> nat option \<times> message option \<times> posted list" where
  "attempt_delivery out now key endpoint event payload outboxEventId =
     (let body = ox_body out event payload now; signature = ox_hmac out key body
      in case resolvePinnedWebhookDispatcher (ox_parse_url out) (ox_lookup out now) (we_url endpoint) of
           Inl e \<Rightarrow> (False, None, Some (app_message e), [])
         | Inr (address, family) \<Rightarrow>
             (let request = \<lparr>px_endpointId = we_id endpoint, px_outboxEventId = outboxEventId, px_address = address,
                    px_body = body, px_signature = signature, px_taken = False\<rparr>
              in case ox_fetch out (we_url endpoint) address body now of
                   Opaque_redirect \<Rightarrow>
                     (False, None, Some (msg ''Endpoint responded with a redirect - redirects are not followed for webhook deliveries''),
                      [request])
                 | Response status \<Rightarrow>
                     (let ok = 200 \<le> status \<and> status \<le> 299
                      in (ok, Some status, if ok then None else Some [Str ''HTTP '', Num (of_nat status)],
                          [request\<lparr>px_taken := ok\<rparr>]))
                 | Fetch_failed m \<Rightarrow> (False, None, Some m, [request])))"

definition record_delivery ::
  "date \<Rightarrow> uid \<Rightarrow> string \<Rightarrow> uid option \<Rightarrow> bool \<times> nat option \<times> message option \<Rightarrow> outbox_db \<Rightarrow> outbox_db" where
  "record_delivery now endpointId event outboxEventId result db =
     (case result of (success, statusCode, err) \<Rightarrow>
        (let db1 = db\<lparr>od_endpoints := update_rows (\<lambda>e. we_id e = endpointId)
               (\<lambda>e. e\<lparr>we_lastDeliveryAt := Some now,
                      we_lastDeliveryStatus := Some (if success then ''success'' else ''failed'')\<rparr>) (od_endpoints db)\<rparr>;
             row = \<lparr>wd_id = od_next db, wd_webhookEndpointId = endpointId, wd_outboxEventId = outboxEventId,
               wd_event = event, wd_success = success, wd_statusCode = statusCode, wd_error = err, wd_createdAt = now\<rparr>;
             known = list_ex (\<lambda>e. we_id e = endpointId) (od_endpoints db)
         in if \<not> known then db1
            else db1\<lparr>od_deliveries :=
                 (case outboxEventId of
                    Some i \<Rightarrow> upsert_row (delivery_of i endpointId) row
                      (\<lambda>d. d\<lparr>wd_success := success,
                             wd_statusCode := (case statusCode of None \<Rightarrow> wd_statusCode d | Some s \<Rightarrow> Some s),
                             wd_error := (case err of None \<Rightarrow> wd_error d | Some m \<Rightarrow> Some m), wd_createdAt := now\<rparr>)
                      (od_deliveries db)
                  | None \<Rightarrow> od_deliveries db @ [row]),
               od_next := Suc (od_next db)\<rparr>))"

text \<open>\<open>None\<close> is an exception: a secret that cannot be read.\<close>

definition deliverToEndpoint ::
  "outside \<Rightarrow> date \<Rightarrow> webhook_endpoint \<Rightarrow> string \<Rightarrow> payload \<Rightarrow> uid option \<Rightarrow> outbox_db \<Rightarrow> bool option \<times> outbox_db" where
  "deliverToEndpoint out now endpoint event payload outboxEventId db =
     (case ox_decrypt out (we_secret endpoint) of
        None \<Rightarrow> (None, db)
      | Some key \<Rightarrow>
          (case attempt_delivery out now key endpoint event payload outboxEventId of
             (success, statusCode, err, sent) \<Rightarrow>
               (Some success,
                record_delivery now (we_id endpoint) event outboxEventId (success, statusCode, err)
                  (db\<lparr>od_requests := od_requests db @ sent\<rparr>))))"

text \<open>The text shows the first four entries, as the template string prints them; a message is
  counted as sent when its URL resolves.\<close>

fun comma_list :: "string list \<Rightarrow> string" where
  "comma_list [] = []"
| "comma_list [s] = s"
| "comma_list (s # t # ts) = s @ '', '' @ comma_list (t # ts)"

definition chat_text :: "string \<Rightarrow> payload \<Rightarrow> string" where
  "chat_text event payload =
     (let detail = comma_list (map (\<lambda>(k, v). k @ '': '' @ v) (take 4 payload))
      in ''*Cantero* - '' @ eventLabel event @ (if detail = [] then [] else CHR 0x0A # detail))"

definition chat_urls :: "chat_hooks \<Rightarrow> string list" where
  "chat_urls company =
     List.map_filter (\<lambda>url. if truthy url then url else None) [cw_slackWebhookUrl company, cw_teamsWebhookUrl company]"

definition notifyChat :: "outside \<Rightarrow> date \<Rightarrow> uid \<Rightarrow> string \<Rightarrow> payload \<Rightarrow> outbox_db \<Rightarrow> outbox_db" where
  "notifyChat out now companyId event payload db =
     (case find_row (\<lambda>c. cw_companyId c = companyId) (od_companies db) of
        None \<Rightarrow> db
      | Some company \<Rightarrow>
          db\<lparr>od_chats := od_chats db @
               map (\<lambda>url. (companyId, url, chat_text event payload))
                 (filter (\<lambda>url. \<not> isl (resolvePinnedWebhookDispatcher (ox_parse_url out) (ox_lookup out now) url))
                    (chat_urls company))\<rparr>)"

definition trigger :: "outside \<Rightarrow> date \<Rightarrow> uid \<Rightarrow> string \<Rightarrow> payload \<Rightarrow> outbox_db \<Rightarrow> outbox_db" where
  "trigger out now companyId event payload db =
     notifyChat out now companyId event payload
       (foldl (\<lambda>d e. snd (deliverToEndpoint out now e event payload None d)) db (findActiveEndpoints companyId event db))"

subsection \<open>The outbox\<close>

definition enqueue :: "date \<Rightarrow> uid \<Rightarrow> string \<Rightarrow> payload \<Rightarrow> outbox_db \<Rightarrow> outbox_db" where
  "enqueue now companyId event payload db =
     db\<lparr>od_events := od_events db @ [\<lparr>oe_id = od_next db, oe_companyId = companyId, oe_event = event, oe_payload = payload,
          oe_status = OutPending, oe_attempts = 0, oe_nextAttemptAt = now, oe_createdAt = now, oe_deliveredAt = None\<rparr>],
        od_next := Suc (od_next db)\<rparr>"

definition BATCH_SIZE :: nat where "BATCH_SIZE = 50"
definition MAX_ATTEMPTS :: nat where "MAX_ATTEMPTS = 10"

definition backoffMs :: "nat \<Rightarrow> int" where
  "backoffMs attempts = min (30 * 2 ^ attempts) 3600 * 1000"

definition due :: "date \<Rightarrow> outbox_db \<Rightarrow> outbox_event list" where
  "due now db =
     take BATCH_SIZE (sort_key oe_createdAt
       (filter (\<lambda>r. oe_status r = OutPending \<and> oe_nextAttemptAt r \<le> now) (od_events db)))"

definition update_event :: "uid \<Rightarrow> (outbox_event \<Rightarrow> outbox_event) \<Rightarrow> outbox_db \<Rightarrow> outbox_db" where
  "update_event i change db = db\<lparr>od_events := update_rows (\<lambda>r. oe_id r = i) change (od_events db)\<rparr>"

text \<open>The optimistic lock: \<open>updateMany\<close> on the pending row; whether it took a row.\<close>

definition claim :: "uid \<Rightarrow> outbox_db \<Rightarrow> bool \<times> outbox_db" where
  "claim i db =
     (list_ex (\<lambda>r. oe_id r = i \<and> oe_status r = OutPending) (od_events db),
      db\<lparr>od_events := update_rows (\<lambda>r. oe_id r = i \<and> oe_status r = OutPending) (\<lambda>r. r\<lparr>oe_status := OutProcessing\<rparr>) (od_events db)\<rparr>)"

text \<open>One endpoint of the loop: whether anything has failed so far.\<close>

definition visit_endpoint ::
  "outside \<Rightarrow> date \<Rightarrow> outbox_event \<Rightarrow> webhook_endpoint \<Rightarrow> bool \<times> outbox_db \<Rightarrow> bool \<times> outbox_db" where
  "visit_endpoint out now row endpoint st =
     (case st of (anyFailed, db) \<Rightarrow>
        if alreadyDelivered (oe_id row) (we_id endpoint) db then (anyFailed, db)
        else
          (case deliverToEndpoint out now endpoint (oe_event row) (oe_payload row) (Some (oe_id row)) db of
             (success, db1) \<Rightarrow> (anyFailed \<or> success \<noteq> Some True, db1)))"

text \<open>What follows the loop: the chat on the first attempt and the new state of the row.\<close>

definition finish_row :: "outside \<Rightarrow> date \<Rightarrow> outbox_event \<Rightarrow> bool \<Rightarrow> outbox_db \<Rightarrow> outbox_db" where
  "finish_row out now row anyFailed db =
     (let db1 = (if oe_attempts row = 0 then notifyChat out now (oe_companyId row) (oe_event row) (oe_payload row) db else db)
      in if anyFailed \<and> oe_attempts row + 1 < MAX_ATTEMPTS
         then update_event (oe_id row) (\<lambda>r. r\<lparr>oe_status := OutPending, oe_attempts := oe_attempts r + 1,
                oe_nextAttemptAt := now + backoffMs (oe_attempts row + 1)\<rparr>) db1
         else update_event (oe_id row) (\<lambda>r. r\<lparr>oe_status := (if anyFailed then OutFailed else OutDelivered),
                oe_deliveredAt := (if anyFailed then None else Some now)\<rparr>) db1)"

definition processOne :: "outside \<Rightarrow> date \<Rightarrow> outbox_event \<Rightarrow> outbox_db \<Rightarrow> outbox_db" where
  "processOne out now row db =
     (case claim (oe_id row) db of (claimed, db1) \<Rightarrow>
        if \<not> claimed then db1
        else
          (case foldl (\<lambda>st e. visit_endpoint out now row e st) (False, db1)
                  (findActiveEndpoints (oe_companyId row) (oe_event row) db1) of
             (anyFailed, db2) \<Rightarrow> finish_row out now row anyFailed db2))"

text \<open>One pass of the poller: it reads its batch at \<open>now\<close> and works on a row at \<open>clock\<close> of its id.\<close>

definition process :: "outside \<Rightarrow> date \<Rightarrow> (uid \<Rightarrow> date) \<Rightarrow> outbox_db \<Rightarrow> outbox_db" where
  "process out now clock db = foldl (\<lambda>d row. processOne out (clock (oe_id row)) row d) db (due now db)"

end
