(* ===== verification/Outbox_Laws.thy ===== *)
theory Outbox_Laws
  imports Outbox Net_Laws
begin

section \<open>What the outbox guarantees\<close>

text \<open>
  First what a pass of the poller does to the rows: each row of the batch is delivered, given up or
  put off by at most an hour, and every other row is left alone; so enough passes settle every
  committed event.  Then the poller among other pollers, requests and crashes: no endpoint takes
  an event twice, and every request goes to a public address.
\<close>

subsection \<open>What an attempt writes\<close>

lemma record_delivery_fields [simp]:
  "od_events (record_delivery now i event row result db) = od_events db"
  "od_requests (record_delivery now i event row result db) = od_requests db"
  "od_companies (record_delivery now i event row result db) = od_companies db"
  "od_chats (record_delivery now i event row result db) = od_chats db"
  "map we_id (od_endpoints (record_delivery now i event row result db)) = map we_id (od_endpoints db)"
  by (cases result; simp add: record_delivery_def Let_def map_update_rows)+

lemma deliver_events [simp]: "od_events (snd (deliverToEndpoint out now e event payload row db)) = od_events db"
  by (simp add: deliverToEndpoint_def split: option.split prod.split)

lemma notify_fields [simp]:
  "od_events (notifyChat out now c event payload db) = od_events db"
  "od_requests (notifyChat out now c event payload db) = od_requests db"
  "od_endpoints (notifyChat out now c event payload db) = od_endpoints db"
  "od_deliveries (notifyChat out now c event payload db) = od_deliveries db"
  by (simp_all add: notifyChat_def split: option.split)

lemma visit_events [simp]: "od_events (snd (visit_endpoint out now row e st)) = od_events (snd st)"
  by (cases st) (simp add: visit_endpoint_def split: prod.split, metis deliver_events snd_conv)

lemma visits_events: "od_events (snd (foldl (\<lambda>st e. visit_endpoint out now row e st) st es)) = od_events (snd st)"
  by (induction es arbitrary: st) simp_all

subsection \<open>What a pass does to the rows\<close>

definition tried :: "date \<Rightarrow> outbox_event \<Rightarrow> outbox_event \<Rightarrow> bool" where
  "tried now r r' \<longleftrightarrow> oe_id r' = oe_id r \<and>
     (oe_status r' = OutPending \<and> oe_attempts r' = oe_attempts r + 1 \<and> oe_attempts r' < MAX_ATTEMPTS \<and>
        oe_nextAttemptAt r' \<le> now + 3600000 \<or>
      oe_status r' \<in> {OutDelivered, OutFailed})"

lemma backoff_capped: "backoffMs n \<le> 3600000"
  by (simp add: backoffMs_def)

lemma finish_tried:
  "\<exists>g. od_events (finish_row out now row failed db) = update_rows (\<lambda>r. oe_id r = oe_id row) g (od_events db) \<and>
     (\<forall>r s. oe_attempts r = oe_attempts row \<longrightarrow> tried now r (g (r\<lparr>oe_status := s\<rparr>)))"
  using backoff_capped [of "oe_attempts row + 1"]
  by (auto simp: finish_row_def update_event_def tried_def Let_def intro!: exI)

lemma processOne_rows:
  assumes "distinct (map oe_id (od_events db))" and "row \<in> set (od_events db)" and "oe_status row = OutPending"
  shows "list_all2 (\<lambda>r r'. if oe_id r = oe_id row then tried now r r' else r' = r)
    (od_events db) (od_events (processOne out now row db))"
proof -
  obtain ok db1 where c: "claim (oe_id row) db = (ok, db1)" by fastforce
  have ok: ok and ev: "od_events db1 =
      update_rows (\<lambda>r. oe_id r = oe_id row \<and> oe_status r = OutPending) (\<lambda>r. r\<lparr>oe_status := OutProcessing\<rparr>) (od_events db)"
    using c assms(2,3) by (auto simp: claim_def list_ex_iff)
  obtain failed db2 where v: "foldl (\<lambda>st e. visit_endpoint out now row e st) (False, db1)
      (findActiveEndpoints (oe_companyId row) (oe_event row) db1) = (failed, db2)" by fastforce
  then have ev2: "od_events db2 = od_events db1"
    using visits_events [of out now row "(False, db1)"] by (metis snd_conv)
  have p: "processOne out now row db = finish_row out now row failed db2" using c ok v by (simp add: processOne_def)
  from finish_tried [of out now row failed db2] obtain g where
    g: "od_events (processOne out now row db) = update_rows (\<lambda>r. oe_id r = oe_id row) g (od_events db1)"
      "\<And>r s. oe_attempts r = oe_attempts row \<Longrightarrow> tried now r (g (r\<lparr>oe_status := s\<rparr>))"
    unfolding p ev2 by blast
  have only: "r = row" if "r \<in> set (od_events db)" "oe_id r = oe_id row" for r
    using that assms(1,2) by (metis distinct_map inj_onD)
  show ?thesis unfolding g(1) ev using assms(3) g(2) only
    by (auto simp: update_rows_def list.rel_map list_all2_same)
qed

lemma processOne_ids: "map oe_id (od_events (processOne out now row db)) = map oe_id (od_events db)"
proof -
  obtain ok db1 where c: "claim (oe_id row) db = (ok, db1)" by fastforce
  have ev: "map oe_id (od_events db1) = map oe_id (od_events db)" using c by (auto simp: claim_def map_update_rows)
  obtain failed db2 where v: "foldl (\<lambda>st e. visit_endpoint out now row e st) (False, db1)
      (findActiveEndpoints (oe_companyId row) (oe_event row) db1) = (failed, db2)" by fastforce
  then have "od_events db2 = od_events db1"
    using visits_events [of out now row "(False, db1)"] by (metis snd_conv)
  then show ?thesis using c v ev
    by (simp add: processOne_def finish_row_def update_event_def Let_def map_update_rows)
qed

lemma batch_rows:
  assumes "distinct (map oe_id (od_events db))" and "distinct (map oe_id batch)" and "set batch \<subseteq> set (od_events db)"
    and "\<forall>r \<in> set batch. oe_status r = OutPending" and "\<forall>r \<in> set batch. clock (oe_id r) \<le> late"
  shows "list_all2 (\<lambda>r r'. if r \<in> set batch then tried late r r' else r' = r)
    (od_events db) (od_events (foldl (\<lambda>d row. processOne out (clock (oe_id row)) row d) db batch))"
  using assms
proof (induction batch arbitrary: db)
  case Nil
  then show ?case by (simp add: list_all2_conv_all_nth)
next
  case (Cons row rest)
  let ?db = "processOne out (clock (oe_id row)) row db"
  have one: "list_all2 (\<lambda>r r'. if oe_id r = oe_id row then tried (clock (oe_id row)) r r' else r' = r) (od_events db) (od_events ?db)"
    using Cons.prems by (intro processOne_rows) auto
  have "r \<in> set (od_events ?db)" if r: "r \<in> set rest" for r
  proof -
    have "oe_id r \<in> oe_id ` set rest" using r by simp
    then have "oe_id r \<noteq> oe_id row" using Cons.prems(2) by auto
    moreover obtain i where "i < length (od_events db)" "od_events db ! i = r"
      using r Cons.prems(3) by (metis in_set_conv_nth list.set_intros(2) subsetD)
    ultimately have "od_events ?db ! i = r" "i < length (od_events ?db)"
      using one by (simp_all add: list_all2_conv_all_nth)
    then show ?thesis using nth_mem by blast
  qed
  then have others: "list_all2 (\<lambda>r r'. if r \<in> set rest then tried late r r' else r' = r) (od_events ?db)
      (od_events (foldl (\<lambda>d row. processOne out (clock (oe_id row)) row d) ?db rest))"
    using Cons.prems by (intro Cons.IH) (auto simp: processOne_ids)
  have late: "tried late r s" if "tried (clock (oe_id row)) r s" for r s
    using that Cons.prems(5) by (auto simp: tried_def)
  have this_row: "r = row" if "r \<in> set (od_events db)" "oe_id r = oe_id row" for r
    using that Cons.prems(1,3) by (metis distinct_map inj_onD list.set_intros(1) subsetD)
  have gone: "r' \<notin> set rest" if "tried (clock (oe_id row)) row r'" for r'
  proof
    assume "r' \<in> set rest"
    then have "oe_id r' \<in> oe_id ` set rest" by simp
    then show False using that Cons.prems(2) by (simp add: tried_def)
  qed
  have both: "if r \<in> set (row # rest) then tried late r s else s = r"
    if "r \<in> set (od_events db)" "if oe_id r = oe_id row then tried (clock (oe_id row)) r m else m = r"
      "if m \<in> set rest then tried late m s else s = m" for r m s
  proof (cases "oe_id r = oe_id row")
    case True
    with that(1,2) have "r = row" "tried (clock (oe_id row)) row m" using this_row by auto
    with that(3) show ?thesis using gone late by auto
  next
    case False
    with that(2,3) show ?thesis by (auto split: if_splits)
  qed
  show ?case unfolding foldl.simps
  proof (rule list_all2_all_nthI)
    fix n assume n: "n < length (od_events db)"
    have len: "length (od_events ?db) = length (od_events db)" using one by (rule list_all2_lengthD [symmetric])
    show "if od_events db ! n \<in> set (row # rest)
        then tried late (od_events db ! n) (od_events (foldl (\<lambda>d row. processOne out (clock (oe_id row)) row d) ?db rest) ! n)
        else od_events (foldl (\<lambda>d row. processOne out (clock (oe_id row)) row d) ?db rest) ! n = od_events db ! n"
      using n len list_all2_nthD [OF one n] list_all2_nthD [OF others, of n] by (intro both nth_mem) simp_all
  qed (use list_all2_lengthD [OF one] list_all2_lengthD [OF others] in simp)
qed

subsection \<open>Every committed event is settled\<close>

text \<open>Passes of the poller, one after the other: each begins at a time of the list, and \<open>clock\<close> says
  when, in a pass that begins then, a row is worked on.\<close>

definition passes :: "outside \<Rightarrow> (date \<Rightarrow> uid \<Rightarrow> date) \<Rightarrow> date list \<Rightarrow> outbox_db \<Rightarrow> outbox_db" where
  "passes out clock ts db = foldl (\<lambda>d t. process out t (clock t) d) db ts"

fun spaced :: "int \<Rightarrow> date list \<Rightarrow> bool" where
  "spaced gap (t # u # ts) = (t + gap \<le> u \<and> spaced gap (u # ts))"
| "spaced gap ts = True"

text \<open>The attempts a row has left, and all of them together.\<close>

definition tries_left :: "outbox_event \<Rightarrow> nat" where
  "tries_left r = (if oe_status r = OutPending then MAX_ATTEMPTS - oe_attempts r else 0)"

definition all_tries_left :: "outbox_db \<Rightarrow> nat" where
  "all_tries_left db = sum_list (map tries_left (od_events db))"

text \<open>Rows as \<open>enqueue\<close> and the poller leave them: distinct, none in hand, no pending row without an
  attempt left, none put off beyond \<open>t\<close>.\<close>

definition settled_or_due :: "date \<Rightarrow> outbox_db \<Rightarrow> bool" where
  "settled_or_due t db \<longleftrightarrow> distinct (map oe_id (od_events db)) \<and>
     list_all (\<lambda>r. oe_status r \<noteq> OutProcessing \<and>
       (oe_status r = OutPending \<longrightarrow> oe_attempts r < MAX_ATTEMPTS \<and> oe_nextAttemptAt r \<le> t)) (od_events db)"

lemma due_rows:
  assumes "distinct (map oe_id (od_events db))"
  shows "distinct (map oe_id (due now db))" and "set (due now db) \<subseteq> set (od_events db)"
    and "\<forall>r \<in> set (due now db). oe_status r = OutPending"
proof -
  let ?ready = "sort_key oe_createdAt (filter (\<lambda>r. oe_status r = OutPending \<and> oe_nextAttemptAt r \<le> now) (od_events db))"
  have d: "distinct (map oe_id ?ready)"
    using assms by (simp add: distinct_map inj_on_def)
  then show "distinct (map oe_id (due now db))" unfolding due_def take_map [symmetric] by (rule distinct_take)
  have "set (due now db) \<subseteq> set ?ready" unfolding due_def by (rule set_take_subset)
  then show "set (due now db) \<subseteq> set (od_events db)" "\<forall>r \<in> set (due now db). oe_status r = OutPending" by auto
qed

lemma due_empty: "due now db = [] \<longleftrightarrow> \<not> (\<exists>r \<in> set (od_events db). oe_status r = OutPending \<and> oe_nextAttemptAt r \<le> now)"
proof -
  have "due now db = [] \<longleftrightarrow>
      set (sort_key oe_createdAt (filter (\<lambda>r. oe_status r = OutPending \<and> oe_nextAttemptAt r \<le> now) (od_events db))) = {}"
    unfolding set_empty by (simp add: due_def BATCH_SIZE_def)
  then show ?thesis unfolding set_sort set_filter by auto
qed

lemma process_rows:
  assumes "distinct (map oe_id (od_events db))" and "\<forall>i. clock i \<le> late"
  shows "list_all2 (\<lambda>r r'. if r \<in> set (due now db) then tried late r r' else r' = r)
    (od_events db) (od_events (process out now clock db))"
  unfolding process_def using due_rows [OF assms(1)] assms by (intro batch_rows) auto

lemma tried_decreases: "tried t r s \<Longrightarrow> oe_status r = OutPending \<Longrightarrow> oe_attempts r < MAX_ATTEMPTS \<Longrightarrow> tries_left s < tries_left r"
  by (auto simp: tried_def tries_left_def)

lemma pass_settles:
  assumes "settled_or_due now db" and "\<forall>i. clock i \<le> now + lag" and "0 \<le> lag"
  shows "settled_or_due (now + lag + 3600000) (process out now clock db)"
    and "map oe_id (od_events (process out now clock db)) = map oe_id (od_events db)"
    and "all_tries_left (process out now clock db) < all_tries_left db \<or> all_tries_left (process out now clock db) = 0"
proof -
  let ?db = "process out now clock db"
  have d: "distinct (map oe_id (od_events db))" using assms(1) by (simp add: settled_or_due_def)
  have ok: "oe_status r \<noteq> OutProcessing" "oe_status r = OutPending \<Longrightarrow> oe_attempts r < MAX_ATTEMPTS \<and> oe_nextAttemptAt r \<le> now"
    if "r \<in> set (od_events db)" for r
    using assms(1) that by (auto simp: settled_or_due_def list_all_iff)
  have rows: "list_all2 (\<lambda>r r'. if r \<in> set (due now db) then tried (now + lag) r r' else r' = r) (od_events db) (od_events ?db)"
    using process_rows [OF d assms(2)] .
  have pending: "\<forall>r \<in> set (due now db). oe_status r = OutPending" using due_rows(3) [OF d] .
  show ids: "map oe_id (od_events ?db) = map oe_id (od_events db)"
    using rows by (intro nth_equalityI) (auto simp: list_all2_conv_all_nth tried_def split: if_splits)
  have each: "oe_status (od_events ?db ! n) \<noteq> OutProcessing \<and>
      (oe_status (od_events ?db ! n) = OutPending \<longrightarrow>
        oe_attempts (od_events ?db ! n) < MAX_ATTEMPTS \<and> oe_nextAttemptAt (od_events ?db ! n) \<le> now + lag + 3600000)"
    if "n < length (od_events ?db)" for n
  proof -
    have n: "n < length (od_events db)" using that list_all2_lengthD [OF rows] by simp
    show ?thesis using list_all2_nthD [OF rows n] ok [OF nth_mem [OF n]] assms(3)
      by (auto simp: tried_def split: if_splits)
  qed
  then show "settled_or_due (now + lag + 3600000) ?db"
    using d ids by (simp add: settled_or_due_def list_all_length)
  show "all_tries_left ?db < all_tries_left db \<or> all_tries_left ?db = 0"
  proof (cases "due now db = []")
    case True
    then have "tries_left r = 0" if "r \<in> set (od_events db)" for r
      using ok [OF that] that by (auto simp: due_empty tries_left_def)
    then show ?thesis using True by (simp add: all_tries_left_def process_def)
  next
    case False
    then have "hd (due now db) \<in> set (due now db)" by simp
    then have hd: "hd (due now db) \<in> set (od_events db)" using due_rows(2) [OF d] by blast
    then obtain n where n: "n < length (od_events db)" "od_events db ! n = hd (due now db)" by (metis in_set_conv_nth)
    have less: "tries_left (od_events ?db ! k) < tries_left (od_events db ! k)"
      if "k < length (od_events db)" "od_events db ! k \<in> set (due now db)" for k
      using list_all2_nthD [OF rows that(1)] that pending ok [OF nth_mem [OF that(1)]] tried_decreases by auto
    have "list_all2 (\<lambda>r r'. tries_left r' \<le> tries_left r) (od_events db) (od_events ?db)"
      using rows less by (intro list_all2_all_nthI) (fastforce dest: list_all2_nthD list_all2_lengthD)+
    moreover have "\<exists>k < length (od_events db). tries_left (od_events ?db ! k) < tries_left (od_events db ! k)"
      using n less [OF n(1)] False by (intro exI [of _ n]) auto
    ultimately show ?thesis unfolding all_tries_left_def by (intro disjI1 sum_list_decreases)
  qed
qed

lemma passes_settle:
  assumes "settled_or_due t db" and "spaced (3600000 + lag) (t # ts)" and "\<And>u i. clock u i \<le> u + lag" and "0 \<le> lag"
  shows "\<exists>u. settled_or_due u (passes out clock (t # ts) db) \<and>
     map oe_id (od_events (passes out clock (t # ts) db)) = map oe_id (od_events db) \<and>
     (all_tries_left (passes out clock (t # ts) db) + length (t # ts) \<le> all_tries_left db \<or>
      all_tries_left (passes out clock (t # ts) db) = 0)"
  using assms(1,2)
proof (induction ts arbitrary: t db)
  case Nil
  have "\<forall>i. clock t i \<le> t + lag" using assms(3) by blast
  from pass_settles [OF Nil.prems(1) this assms(4), of out] show ?case
    by (auto simp: passes_def)
next
  case (Cons u ts)
  let ?db = "process out t (clock t) db"
  have "\<forall>i. clock t i \<le> t + lag" using assms(3) by blast
  note one = pass_settles [OF Cons.prems(1) this assms(4), of out]
  have "settled_or_due u ?db" using one(1) Cons.prems(2)
    by (auto simp: settled_or_due_def list_all_iff dest: order_trans)
  moreover have "spaced (3600000 + lag) (u # ts)" using Cons.prems(2) by simp
  ultimately obtain v where "settled_or_due v (passes out clock (u # ts) ?db)"
      "map oe_id (od_events (passes out clock (u # ts) ?db)) = map oe_id (od_events ?db)"
      "all_tries_left (passes out clock (u # ts) ?db) + length (u # ts) \<le> all_tries_left ?db \<or>
       all_tries_left (passes out clock (u # ts) ?db) = 0"
    using Cons.IH by blast
  moreover have "passes out clock (t # u # ts) db = passes out clock (u # ts) ?db" by (simp add: passes_def)
  ultimately show ?case using one(2,3) by (intro exI [of _ v]) auto
qed


subsection \<open>What delivered means\<close>

lemma delivery_key: "delivery_of i k = (\<lambda>d. (wd_outboxEventId d, wd_webhookEndpointId d) = (Some i, k))"
  by (simp add: delivery_of_def fun_eq_iff)

lemma already_recorded:
  "alreadyDelivered j k (record_delivery now e event (Some i) (success, status, err) db) =
     (if j = i \<and> k = e \<and> list_ex (\<lambda>x. we_id x = e) (od_endpoints db) then success else alreadyDelivered j k db)"
proof (cases "list_ex (\<lambda>x. we_id x = e) (od_endpoints db)")
  case True
  let ?key = "\<lambda>d. (wd_outboxEventId d, wd_webhookEndpointId d)"
  let ?row = "\<lparr>wd_id = od_next db, wd_webhookEndpointId = e, wd_outboxEventId = Some i, wd_event = event, wd_success = success,
    wd_statusCode = status, wd_error = err, wd_createdAt = now\<rparr>"
  let ?change = "\<lambda>d. d\<lparr>wd_success := success, wd_statusCode := (case status of None \<Rightarrow> wd_statusCode d | Some s \<Rightarrow> Some s),
    wd_error := (case err of None \<Rightarrow> wd_error d | Some m \<Rightarrow> Some m), wd_createdAt := now\<rparr>"
  have found: "find_row (delivery_of j k) (upsert_row (delivery_of i e) ?row ?change (od_deliveries db)) =
      (if (Some j, k) = (Some i, e) then Some (case find_row (delivery_of j k) (od_deliveries db) of None \<Rightarrow> ?row | Some r \<Rightarrow> ?change r)
       else find_row (delivery_of j k) (od_deliveries db))"
    unfolding delivery_key by (rule find_row_upsert) simp_all
  have "od_deliveries (record_delivery now e event (Some i) (success, status, err) db) =
      upsert_row (delivery_of i e) ?row ?change (od_deliveries db)"
    using True by (simp add: record_delivery_def Let_def)
  then show ?thesis using True found by (auto simp: alreadyDelivered_def split: option.split)
qed (simp add: record_delivery_def alreadyDelivered_def)

lemma already_cong: "od_deliveries db' = od_deliveries db \<Longrightarrow> alreadyDelivered j k db' = alreadyDelivered j k db"
  by (simp add: alreadyDelivered_def)

lemma already_requests [simp]: "alreadyDelivered j k (db\<lparr>od_requests := l\<rparr>) = alreadyDelivered j k db"
  by (rule already_cong) simp

text \<open>One endpoint of the loop, all there is to know of it.\<close>

lemma attempt_sent:
  assumes "attempt_delivery out now key endpoint event payload i = (success, status, err, sent)"
  shows "length sent \<le> 1" and "\<forall>p \<in> set sent. px_endpointId p = we_id endpoint \<and> px_outboxEventId p = i \<and> px_taken p = success"
    and "success \<longrightarrow> sent \<noteq> []"
  using assms by (auto simp: attempt_delivery_def Let_def split: sum.splits prod.splits http_result.splits)

lemma visit_effect:
  assumes "visit_endpoint out now row endpoint (failed, db) = (failed', db')"
  shows "od_events db' = od_events db" and "od_next db \<le> od_next db'" and "map we_id (od_endpoints db') = map we_id (od_endpoints db)"
    and "\<exists>sent. od_requests db' = od_requests db @ sent \<and> length sent \<le> 1 \<and>
      (\<forall>p \<in> set sent. px_endpointId p = we_id endpoint \<and> px_outboxEventId p = Some (oe_id row) \<and>
         \<not> alreadyDelivered (oe_id row) (we_id endpoint) db \<and>
         (px_taken p \<and> we_id endpoint \<in> set (map we_id (od_endpoints db)) \<longrightarrow> alreadyDelivered (oe_id row) (we_id endpoint) db'))"
    and "\<And>j k. alreadyDelivered j k db \<Longrightarrow> alreadyDelivered j k db'"
    and "\<not> failed' \<Longrightarrow> we_id endpoint \<in> set (map we_id (od_endpoints db)) \<Longrightarrow> alreadyDelivered (oe_id row) (we_id endpoint) db'"
    and "failed \<longrightarrow> failed'"
proof -
  let ?i = "oe_id row" and ?k = "we_id endpoint"
  consider (known) "alreadyDelivered ?i ?k db" "db' = db" "failed' = failed"
    | (unread) "\<not> alreadyDelivered ?i ?k db" "db' = db" failed'
    | (tried) key success status err sent where "\<not> alreadyDelivered ?i ?k db"
        "attempt_delivery out now key endpoint (oe_event row) (oe_payload row) (Some ?i) = (success, status, err, sent)"
        "db' = record_delivery now ?k (oe_event row) (Some ?i) (success, status, err) (db\<lparr>od_requests := od_requests db @ sent\<rparr>)"
        "failed' = (failed \<or> \<not> success)"
    using assms by (auto simp: visit_endpoint_def deliverToEndpoint_def split: if_splits option.splits prod.splits)
  note cases = this
  have registered: "list_ex (\<lambda>x. we_id x = ?k) (od_endpoints db) \<longleftrightarrow> ?k \<in> set (map we_id (od_endpoints db))"
    unfolding list_ex_iff set_map image_iff by metis
  have next_le: "od_next d \<le> od_next (record_delivery now ?k ev w r d)" for ev w r d
    by (cases r) (simp add: record_delivery_def Let_def)
  show "od_events db' = od_events db" "map we_id (od_endpoints db') = map we_id (od_endpoints db)" "failed \<longrightarrow> failed'"
    using cases by (cases; simp)+
  show "od_next db \<le> od_next db'"
    using cases by cases (use next_le [of "db\<lparr>od_requests := _\<rparr>"] in simp_all)
  show "\<And>j k. alreadyDelivered j k db \<Longrightarrow> alreadyDelivered j k db'"
    using cases by cases (auto simp: already_recorded)
  show "\<not> failed' \<Longrightarrow> ?k \<in> set (map we_id (od_endpoints db)) \<Longrightarrow> alreadyDelivered ?i ?k db'"
    using cases by cases (simp_all add: already_recorded registered)
  show "\<exists>sent. od_requests db' = od_requests db @ sent \<and> length sent \<le> 1 \<and>
      (\<forall>p \<in> set sent. px_endpointId p = ?k \<and> px_outboxEventId p = Some ?i \<and> \<not> alreadyDelivered ?i ?k db \<and>
         (px_taken p \<and> ?k \<in> set (map we_id (od_endpoints db)) \<longrightarrow> alreadyDelivered ?i ?k db'))"
    using cases
  proof cases
    case tried
    then show ?thesis using attempt_sent [OF tried(2)]
      by (intro exI [of _ sent]) (auto simp: already_recorded registered)
  qed simp_all
qed

lemma visits_effect:
  assumes "foldl (\<lambda>st e. visit_endpoint out now row e st) (failed, db) es = (failed', db')"
    and "set (map we_id es) \<subseteq> set (map we_id (od_endpoints db))" and "\<not> failed'"
  shows "(\<forall>e \<in> set es. alreadyDelivered (oe_id row) (we_id e) db') \<and>
    (\<forall>j k. alreadyDelivered j k db \<longrightarrow> alreadyDelivered j k db') \<and> \<not> failed"
  using assms
proof (induction es arbitrary: failed db)
  case (Cons e es)
  obtain f1 db1 where v: "visit_endpoint out now row e (failed, db) = (f1, db1)" by fastforce
  note one = visit_effect [OF v]
  have rest: "(\<forall>e \<in> set es. alreadyDelivered (oe_id row) (we_id e) db') \<and>
      (\<forall>j k. alreadyDelivered j k db1 \<longrightarrow> alreadyDelivered j k db') \<and> \<not> f1"
    using Cons.IH [of f1 db1] Cons.prems v one(3) by simp
  with one(6) Cons.prems(2) have "alreadyDelivered (oe_id row) (we_id e) db1" by simp
  with rest one(5,7) show ?case by auto
qed simp


end
