(* ===== verification/Outbox_Races.thy ===== *)
theory Outbox_Races
  imports Outbox_Laws
begin

section \<open>Several pollers, requests and crashes\<close>

text \<open>
  Every API instance runs the poller, and a pass awaits at each query and each delivery, so the
  steps of several passes and of requests interleave, and a process can die at any point.  A world
  is the database with what each poller holds in memory: the rows it read and has not reached
  (\<open>Batch\<close>), the row it claimed (\<open>Claimed\<close>), and that row with the endpoints still to visit
  (\<open>Working\<close>).
\<close>

subsection \<open>Steps\<close>

datatype worker =
    Idle
  | Batch "outbox_event list"
  | Claimed outbox_event "outbox_event list"
  | Working outbox_event "webhook_endpoint list" bool "outbox_event list"

record poller_world =
  pw_db :: outbox_db
  pw_workers :: "nat \<Rightarrow> worker"

definition goes :: "nat \<Rightarrow> worker \<Rightarrow> outbox_db \<Rightarrow> poller_world \<Rightarrow> poller_world" where
  "goes w x db s = s\<lparr>pw_db := db, pw_workers := (pw_workers s)(w := x)\<rparr>"

text \<open>\<open>dies_posting\<close> is a process that dies after the endpoint got the request and before the answer is
  recorded.\<close>

inductive outbox_step :: "outside \<Rightarrow> poller_world \<Rightarrow> poller_world \<Rightarrow> bool" for out where
  polls: "pw_workers s w = Idle \<Longrightarrow> outbox_step out s (goes w (Batch (due now (pw_db s))) (pw_db s) s)"
| ends: "pw_workers s w = Batch [] \<Longrightarrow> outbox_step out s (goes w Idle (pw_db s) s)"
| claims: "pw_workers s w = Batch (row # rest) \<Longrightarrow> claim (oe_id row) (pw_db s) = (ok, db) \<Longrightarrow>
    outbox_step out s (goes w (if ok then Claimed row rest else Batch rest) db s)"
| finds: "pw_workers s w = Claimed row rest \<Longrightarrow>
    outbox_step out s (goes w (Working row (findActiveEndpoints (oe_companyId row) (oe_event row) (pw_db s)) False rest) (pw_db s) s)"
| visits: "pw_workers s w = Working row (e # es) failed rest \<Longrightarrow>
    visit_endpoint out now row e (failed, pw_db s) = (failed', db) \<Longrightarrow>
    outbox_step out s (goes w (Working row es failed' rest) db s)"
| finishes: "pw_workers s w = Working row [] failed rest \<Longrightarrow>
    outbox_step out s (goes w (Batch rest) (finish_row out now row failed (pw_db s)) s)"
| dies: "outbox_step out s (goes w Idle (pw_db s) s)"
| dies_posting: "pw_workers s w = Working row (e # es) failed rest \<Longrightarrow>
    \<not> alreadyDelivered (oe_id row) (we_id e) (pw_db s) \<Longrightarrow> ox_decrypt out (we_secret e) = Some key \<Longrightarrow>
    attempt_delivery out now key e (oe_event row) (oe_payload row) (Some (oe_id row)) = (success, status, err, sent) \<Longrightarrow>
    outbox_step out s (goes w Idle (pw_db s\<lparr>od_requests := od_requests (pw_db s) @ sent\<rparr>) s)"
| enqueues: "outbox_step out s (s\<lparr>pw_db := enqueue now c event payload (pw_db s)\<rparr>)"
| creates: "create_webhook out now secret c url events (pw_db s) = Inr (endpoint, db) \<Longrightarrow> outbox_step out s (s\<lparr>pw_db := db\<rparr>)"
| updates: "update_webhook c i events active (pw_db s) = Inr (endpoint, db) \<Longrightarrow> outbox_step out s (s\<lparr>pw_db := db\<rparr>)"
| renews: "regenerateSecret out secret c i (pw_db s) = Inr (shown, db) \<Longrightarrow> outbox_step out s (s\<lparr>pw_db := db\<rparr>)"
| deletes: "delete_webhook c i (pw_db s) = Inr (u, db) \<Longrightarrow> outbox_step out s (s\<lparr>pw_db := db\<rparr>)"
| triggers: "outbox_step out s (s\<lparr>pw_db := trigger out now c event payload (pw_db s)\<rparr>)"

text \<open>A pass without interruption is \<open>process\<close>: the steps of one row are \<open>processOne\<close>.\<close>

lemma goes_db [simp]: "pw_db (goes w x db s) = db" and goes_workers [simp]: "pw_workers (goes w x db s) = (pw_workers s)(w := x)"
  by (simp_all add: goes_def)

lemma goes_goes [simp]: "goes w y db' (goes w x db s) = goes w y db' s"
  by (simp add: goes_def)

lemma visits_star:
  assumes "pw_workers s w = Working row es failed rest"
    and "foldl (\<lambda>st e. visit_endpoint out now row e st) (failed, pw_db s) es = (failed', db)"
  shows "(outbox_step out)\<^sup>*\<^sup>* s (goes w (Working row [] failed' rest) db s)"
  using assms
proof (induction es arbitrary: s failed)
  case Nil
  then have "goes w (Working row [] failed' rest) db s = s" by (cases s) (auto simp: goes_def)
  then show ?case by simp
next
  case (Cons e es)
  obtain f db1 where v: "visit_endpoint out now row e (failed, pw_db s) = (f, db1)" by fastforce
  let ?t = "goes w (Working row es f rest) db1 s"
  have "outbox_step out s ?t" by (rule visits [OF Cons.prems(1) v])
  moreover have "(outbox_step out)\<^sup>*\<^sup>* ?t (goes w (Working row [] failed' rest) db ?t)"
    using Cons.prems(2) v by (intro Cons.IH) simp_all
  ultimately show ?case by simp
qed

lemma processOne_star:
  assumes "pw_workers s w = Batch (row # rest)"
  shows "(outbox_step out)\<^sup>*\<^sup>* s (goes w (Batch rest) (processOne out now row (pw_db s)) s)"
proof -
  obtain ok db1 where c: "claim (oe_id row) (pw_db s) = (ok, db1)" by fastforce
  let ?t = "goes w (if ok then Claimed row rest else Batch rest) db1 s"
  have first: "outbox_step out s ?t" by (rule claims [OF assms c])
  show ?thesis
  proof (cases ok)
    case True
    let ?es = "findActiveEndpoints (oe_companyId row) (oe_event row) db1"
    obtain failed db2 where v: "foldl (\<lambda>st e. visit_endpoint out now row e st) (False, db1) ?es = (failed, db2)" by fastforce
    let ?u = "goes w (Working row ?es False rest) db1 s" and ?v = "goes w (Working row [] failed rest) db2 s"
    have "outbox_step out ?t ?u" using finds [of ?t w row rest out] True by simp
    moreover have "(outbox_step out)\<^sup>*\<^sup>* ?u ?v" using visits_star [of ?u w row ?es False rest out now failed db2] v by simp
    moreover have "outbox_step out ?v (goes w (Batch rest) (finish_row out now row failed db2) s)"
      using finishes [of ?v w row failed rest out now] by simp
    ultimately show ?thesis using first c v True by (simp add: processOne_def)
  next
    case False
    then show ?thesis using first c by (simp add: processOne_def)
  qed
qed

lemma batch_star:
  assumes "pw_workers s w = Batch batch"
  shows "(outbox_step out)\<^sup>*\<^sup>* s (goes w (Batch []) (foldl (\<lambda>d row. processOne out (clock (oe_id row)) row d) (pw_db s) batch) s)"
  using assms
proof (induction batch arbitrary: s)
  case Nil
  then have "goes w (Batch []) (pw_db s) s = s" by (cases s) (auto simp: goes_def)
  then show ?case by simp
next
  case (Cons row rest)
  from processOne_star [OF Cons.prems, of out "clock (oe_id row)"] Cons.IH [of "goes w (Batch rest) (processOne out (clock (oe_id row)) row (pw_db s)) s"]
  show ?case by simp
qed

lemma process_star:
  assumes "pw_workers s w = Idle"
  shows "(outbox_step out)\<^sup>*\<^sup>* s (goes w Idle (process out now clock (pw_db s)) s)"
proof -
  let ?t = "goes w (Batch (due now (pw_db s))) (pw_db s) s"
  let ?u = "goes w (Batch []) (process out now clock (pw_db s)) s"
  have "outbox_step out s ?t" by (rule polls [OF assms])
  moreover have "(outbox_step out)\<^sup>*\<^sup>* ?t ?u" using batch_star [of ?t w "due now (pw_db s)" out clock] by (simp add: process_def)
  moreover have "outbox_step out ?u (goes w Idle (process out now clock (pw_db s)) s)" using ends [of ?u w out] by simp
  ultimately show ?thesis by simp
qed

subsection \<open>No endpoint takes an event twice\<close>

fun in_hand :: "worker \<Rightarrow> uid option" where
  "in_hand (Claimed row rest) = Some (oe_id row)"
| "in_hand (Working row es failed rest) = Some (oe_id row)"
| "in_hand x = None"

fun held :: "worker \<Rightarrow> uid list" where
  "held Idle = []"
| "held (Batch rest) = map oe_id rest"
| "held (Claimed row rest) = oe_id row # map oe_id rest"
| "held (Working row es failed rest) = oe_id row # map oe_id rest"

fun to_visit :: "worker \<Rightarrow> uid list" where
  "to_visit (Working row es failed rest) = map we_id es"
| "to_visit x = []"

definition taken :: "uid \<Rightarrow> uid \<Rightarrow> outbox_db \<Rightarrow> nat" where
  "taken i k db =
     length (filter (\<lambda>p. px_outboxEventId p = Some i \<and> px_endpointId p = k \<and> px_taken p) (od_requests db))"

definition registered :: "uid \<Rightarrow> outbox_db \<Rightarrow> bool" where
  "registered k db \<longleftrightarrow> k \<in> set (map we_id (od_endpoints db))"

definition locked :: "uid \<Rightarrow> outbox_db \<Rightarrow> bool" where
  "locked i db \<longleftrightarrow> (\<forall>r \<in> set (od_events db). oe_id r = i \<longrightarrow> oe_status r \<noteq> OutPending)"

text \<open>Ids in use were given out, and requests went to public addresses.\<close>

definition db_ids :: "outbox_db \<Rightarrow> bool" where
  "db_ids db \<longleftrightarrow> (\<forall>r \<in> set (od_events db). oe_id r < od_next db) \<and> (\<forall>e \<in> set (od_endpoints db). we_id e < od_next db) \<and>
     (\<forall>p \<in> set (od_requests db). px_endpointId p < od_next db \<and> (\<forall>i. px_outboxEventId p = Some i \<longrightarrow> i < od_next db))"

definition worker_ids :: "nat \<Rightarrow> worker \<Rightarrow> bool" where
  "worker_ids n x \<longleftrightarrow> (\<forall>i \<in> set (held x) \<union> set (to_visit x). i < n)"

text \<open>What an endpoint took is on record, or the poller that sent it is gone and its row stays
  locked.\<close>

definition once_at :: "uid \<Rightarrow> uid \<Rightarrow> poller_world \<Rightarrow> bool" where
  "once_at i k s \<longleftrightarrow> taken i k (pw_db s) = 0 \<or>
     taken i k (pw_db s) = 1 \<and>
     (alreadyDelivered i k (pw_db s) \<or> locked i (pw_db s) \<and> (\<forall>w. in_hand (pw_workers s w) \<noteq> Some i))"

definition outbox_inv :: "poller_world \<Rightarrow> bool" where
  "outbox_inv s \<longleftrightarrow> db_ids (pw_db s) \<and> (\<forall>w. worker_ids (od_next (pw_db s)) (pw_workers s w)) \<and>
     (\<forall>w i. in_hand (pw_workers s w) = Some i \<longrightarrow> locked i (pw_db s) \<and> (\<forall>w'. in_hand (pw_workers s w') = Some i \<longrightarrow> w' = w)) \<and>
     (\<forall>i k. registered k (pw_db s) \<longrightarrow> once_at i k s)"

lemma outbox_invI:
  assumes "db_ids (pw_db s)" and "\<And>w. worker_ids (od_next (pw_db s)) (pw_workers s w)"
    and "\<And>w i. in_hand (pw_workers s w) = Some i \<Longrightarrow> locked i (pw_db s)"
    and "\<And>w w' i. in_hand (pw_workers s w) = Some i \<Longrightarrow> in_hand (pw_workers s w') = Some i \<Longrightarrow> w' = w"
    and "\<And>i k. registered k (pw_db s) \<Longrightarrow> once_at i k s"
  shows "outbox_inv s"
  unfolding outbox_inv_def using assms by blast

lemma outbox_invD:
  assumes "outbox_inv s"
  shows "db_ids (pw_db s)" and "worker_ids (od_next (pw_db s)) (pw_workers s w)"
    and "in_hand (pw_workers s w) = Some i \<Longrightarrow> locked i (pw_db s)"
    and "in_hand (pw_workers s w) = Some i \<Longrightarrow> in_hand (pw_workers s w') = Some i \<Longrightarrow> w' = w"
    and "registered k (pw_db s) \<Longrightarrow> once_at i k s"
  using assms unfolding outbox_inv_def by blast+

lemma in_hand_held: "in_hand x = Some i \<Longrightarrow> i \<in> set (held x)"
  by (cases x) simp_all

lemma taken_append: "taken i k (db\<lparr>od_requests := od_requests db @ sent\<rparr>) = taken i k db +
    length (filter (\<lambda>p. px_outboxEventId p = Some i \<and> px_endpointId p = k \<and> px_taken p) sent)"
  by (simp add: taken_def)

lemma taken_ids: "db_ids db \<Longrightarrow> taken i k db \<noteq> 0 \<Longrightarrow> i < od_next db \<and> k < od_next db"
  by (auto simp: taken_def db_ids_def filter_empty_conv)

text \<open>A poller lets go of a row, reads rows or endpoints, or dies.\<close>

lemma worker_moves:
  assumes "outbox_inv s" and "in_hand x = None \<or> in_hand x = in_hand (pw_workers s w)" and "worker_ids (od_next (pw_db s)) x"
  shows "outbox_inv (goes w x (pw_db s) s)"
proof -
  note inv = outbox_invD [OF assms(1)]
  have hand: "in_hand (pw_workers (goes w x (pw_db s) s) v) = Some i \<Longrightarrow> in_hand (pw_workers s v) = Some i" for v i
    using assms(2) by (auto split: if_splits)
  show ?thesis
  proof (rule outbox_invI)
    show "once_at i k (goes w x (pw_db s) s)" if "registered k (pw_db (goes w x (pw_db s) s))" for i k
      using inv(5) [of k i] that hand [of _ i] unfolding once_at_def goes_db by blast
    show "db_ids (pw_db (goes w x (pw_db s) s))" using inv(1) by simp
    show "worker_ids (od_next (pw_db (goes w x (pw_db s) s))) (pw_workers (goes w x (pw_db s) s) v)" for v
      using inv(2) [of v] assms(3) by simp
    show "locked i (pw_db (goes w x (pw_db s) s))" if "in_hand (pw_workers (goes w x (pw_db s) s) v) = Some i" for v i
      using inv(3) [OF hand [OF that]] by simp
    show "v' = v" if "in_hand (pw_workers (goes w x (pw_db s) s) v) = Some i"
        "in_hand (pw_workers (goes w x (pw_db s) s) v') = Some i" for v v' i
      using inv(4) [OF hand [OF that(1)] hand [OF that(2)]] .
  qed
qed

text \<open>A change of the database that hands out new ids, unlocks nothing and forgets no delivery of an
  endpoint it keeps.\<close>

lemma db_moves:
  assumes "outbox_inv s" and "db_ids db" and "od_next (pw_db s) \<le> od_next db"
    and "\<And>i. i < od_next (pw_db s) \<Longrightarrow> locked i (pw_db s) \<Longrightarrow> locked i db"
    and "\<And>i k. registered k db \<Longrightarrow> taken i k db = taken i k (pw_db s) \<and>
       (registered k (pw_db s) \<and> (alreadyDelivered i k (pw_db s) \<longrightarrow> alreadyDelivered i k db) \<or> taken i k db = 0)"
  shows "outbox_inv (s\<lparr>pw_db := db\<rparr>)"
proof -
  have ids: "worker_ids (od_next db) (pw_workers s w)" for w
    using assms(1,3) unfolding outbox_inv_def worker_ids_def by (meson order_less_le_trans)
  have hand: "i < od_next (pw_db s)" if "in_hand (pw_workers s w) = Some i" for w i
    using in_hand_held [OF that] assms(1) by (auto simp: outbox_inv_def worker_ids_def)
  have "once_at i k (s\<lparr>pw_db := db\<rparr>)" if "registered k db" for i k
  proof (cases "taken i k db = 0")
    case False
    then have "taken i k (pw_db s) \<noteq> 0" "registered k (pw_db s)" "once_at i k s"
      using assms(5) [OF that, of i] assms(1) by (auto simp: outbox_inv_def)
    moreover have "i < od_next (pw_db s)"
      using taken_ids [of "pw_db s" i k] calculation(1) assms(1) by (simp add: outbox_inv_def)
    ultimately show ?thesis using assms(4) [of i] assms(5) [OF that, of i] False by (auto simp: once_at_def)
  qed (simp add: once_at_def)
  then show ?thesis using assms(2,4) ids hand outbox_invD [OF assms(1)] by (intro outbox_invI) auto
qed

text \<open>The lock: whoever takes it was the only one, and a row that a dead poller holds is never pending.\<close>

lemma claim_fields:
  assumes "claim i db = (ok, db')"
  shows "od_next db' = od_next db" and "od_requests db' = od_requests db" and "od_endpoints db' = od_endpoints db"
    and "od_deliveries db' = od_deliveries db" and "map oe_id (od_events db') = map oe_id (od_events db)"
    and "locked j db \<Longrightarrow> locked j db'" and "locked i db'" and "ok \<longleftrightarrow> \<not> locked i db"
proof -
  have db: "db' = db\<lparr>od_events := update_rows (\<lambda>r. oe_id r = i \<and> oe_status r = OutPending) (\<lambda>r. r\<lparr>oe_status := OutProcessing\<rparr>) (od_events db)\<rparr>"
    and ok: "ok = list_ex (\<lambda>r. oe_id r = i \<and> oe_status r = OutPending) (od_events db)"
    using assms by (simp_all add: claim_def)
  show "od_next db' = od_next db" "od_requests db' = od_requests db" "od_endpoints db' = od_endpoints db"
    "od_deliveries db' = od_deliveries db" "map oe_id (od_events db') = map oe_id (od_events db)"
    by (simp_all add: db map_update_rows)
  show "locked j db \<Longrightarrow> locked j db'" "locked i db'" unfolding locked_def db by (simp_all add: all_update_rows)
  show "ok \<longleftrightarrow> \<not> locked i db" unfolding ok locked_def list_ex_iff by blast
qed

lemma taken_cong: "od_requests db' = od_requests db \<Longrightarrow> taken i k db' = taken i k db"
  by (simp add: taken_def)

lemma registered_cong: "map we_id (od_endpoints db') = map we_id (od_endpoints db) \<Longrightarrow> registered k db' = registered k db"
  by (simp add: registered_def)

lemma event_ids: "(\<forall>r \<in> set (od_events db). oe_id r < n) \<longleftrightarrow> (\<forall>i \<in> set (map oe_id (od_events db)). i < n)"
  by simp

lemma endpoint_ids: "(\<forall>e \<in> set (od_endpoints db). we_id e < n) \<longleftrightarrow> (\<forall>i \<in> set (map we_id (od_endpoints db)). i < n)"
  by simp

lemma db_ids_cong:
  assumes "db_ids db" and "od_next db \<le> od_next db'" and "map oe_id (od_events db') = map oe_id (od_events db)"
    and "map we_id (od_endpoints db') = map we_id (od_endpoints db)"
    and "\<And>p. p \<in> set (od_requests db') \<Longrightarrow> p \<notin> set (od_requests db) \<Longrightarrow>
      px_endpointId p < od_next db' \<and> (\<forall>i. px_outboxEventId p = Some i \<longrightarrow> i < od_next db')"
  shows "db_ids db'"
proof -
  have up: "n < od_next db \<Longrightarrow> n < od_next db'" for n using assms(2) by simp
  have "(\<forall>r \<in> set (od_events db'). oe_id r < od_next db') \<and> (\<forall>e \<in> set (od_endpoints db'). we_id e < od_next db')"
    unfolding event_ids endpoint_ids assms(3,4) using assms(1) up by (auto simp: db_ids_def)
  moreover have "px_endpointId p < od_next db' \<and> (\<forall>i. px_outboxEventId p = Some i \<longrightarrow> i < od_next db')"
    if "p \<in> set (od_requests db')" for p
    using that assms(1,5) up by (cases "p \<in> set (od_requests db)") (auto simp: db_ids_def)
  ultimately show ?thesis by (simp add: db_ids_def)
qed

lemma claims_inv:
  assumes "outbox_inv s" and "pw_workers s w = Batch (row # rest)" and "claim (oe_id row) (pw_db s) = (ok, db)"
  shows "outbox_inv (goes w (if ok then Claimed row rest else Batch rest) db s)"
proof -
  note inv = outbox_invD [OF assms(1)] and c = claim_fields [OF assms(3)]
  let ?s = "goes w (if ok then Claimed row rest else Batch rest) db s"
  have old: "in_hand (pw_workers s v) = Some (oe_id row) \<Longrightarrow> \<not> ok" for v using inv(3) c(8) by blast
  have hand: "in_hand (pw_workers ?s v) = Some i \<Longrightarrow> in_hand (pw_workers s v) = Some i \<or> ok \<and> v = w \<and> i = oe_id row" for v i
    by (auto split: if_splits)
  show ?thesis
  proof (rule outbox_invI)
    show "db_ids (pw_db ?s)" using inv(1) c(1-5) by (auto intro: db_ids_cong)
    show "worker_ids (od_next (pw_db ?s)) (pw_workers ?s v)" for v
      using inv(2) [of v] inv(2) [of w] assms(2) c(1) by (auto simp: worker_ids_def)
    show "locked i (pw_db ?s)" if "in_hand (pw_workers ?s v) = Some i" for v i
      using hand [OF that] inv(3) c(6,7) by auto
    show "v' = v" if "in_hand (pw_workers ?s v) = Some i" "in_hand (pw_workers ?s v') = Some i" for v v' i
      using hand [OF that(1)] hand [OF that(2)] inv(4) old by blast
    show "once_at i k ?s" if "registered k (pw_db ?s)" for i k
    proof -
      have "registered k (pw_db s)" using that c(3) by (simp add: registered_def)
      with inv(5) have "once_at i k s" by blast
      moreover have "alreadyDelivered i k db = alreadyDelivered i k (pw_db s)" using c(4) by (rule already_cong)
      moreover have "taken i k db = taken i k (pw_db s)" using c(2) by (rule taken_cong)
      moreover have "\<forall>v. in_hand (pw_workers ?s v) \<noteq> Some i"
        if "locked i (pw_db s)" "\<forall>v. in_hand (pw_workers s v) \<noteq> Some i"
        using hand that c(8) by blast
      ultimately show ?thesis using c(6) unfolding once_at_def goes_db by metis
    qed
  qed
qed

text \<open>A visit: nothing was taken before, as the row is in hand and nothing is on record.\<close>

lemma visits_inv:
  assumes "outbox_inv s" and "pw_workers s w = Working row (e # es) failed rest"
    and "visit_endpoint out now row e (failed, pw_db s) = (failed', db)"
  shows "outbox_inv (goes w (Working row es failed' rest) db s)"
proof -
  note inv = outbox_invD [OF assms(1)] and v = visit_effect [OF assms(3)]
  let ?s = "goes w (Working row es failed' rest) db s" and ?i = "oe_id row" and ?k = "we_id e"
  have mine: "in_hand (pw_workers s w) = Some ?i" using assms(2) by simp
  have hand: "in_hand (pw_workers ?s u) = in_hand (pw_workers s u)" for u using mine by simp
  have small: "?i < od_next (pw_db s)" "?k < od_next (pw_db s)" using inv(2) [of w] assms(2) by (auto simp: worker_ids_def)
  obtain sent where sent: "od_requests db = od_requests (pw_db s) @ sent" "length sent \<le> 1"
      "\<And>p. p \<in> set sent \<Longrightarrow> px_endpointId p = ?k \<and> px_outboxEventId p = Some ?i \<and> \<not> alreadyDelivered ?i ?k (pw_db s) \<and>
         (px_taken p \<and> ?k \<in> set (map we_id (od_endpoints (pw_db s))) \<longrightarrow> alreadyDelivered ?i ?k db)"
    using v(4) by blast
  have lock: "locked i db = locked i (pw_db s)" for i using v(1) by (simp add: locked_def)
  show ?thesis
  proof (rule outbox_invI)
    show "db_ids (pw_db ?s)" unfolding goes_db
    proof (rule db_ids_cong [OF inv(1) v(2)])
      show "map oe_id (od_events db) = map oe_id (od_events (pw_db s))" using v(1) by simp
      show "map we_id (od_endpoints db) = map we_id (od_endpoints (pw_db s))" by (rule v(3))
      fix p assume "p \<in> set (od_requests db)" "p \<notin> set (od_requests (pw_db s))"
      then have "p \<in> set sent" using sent(1) by simp
      from sent(3) [OF this] small v(2)
      show "px_endpointId p < od_next db \<and> (\<forall>i. px_outboxEventId p = Some i \<longrightarrow> i < od_next db)" by auto
    qed
    show "worker_ids (od_next (pw_db ?s)) (pw_workers ?s u)" for u
      using inv(2) [of u] inv(2) [of w] assms(2) v(2) by (auto simp: worker_ids_def dest: order_less_le_trans)
    show "locked i (pw_db ?s)" if "in_hand (pw_workers ?s u) = Some i" for u i
      using that inv(3) unfolding hand goes_db lock by blast
    show "u' = u" if "in_hand (pw_workers ?s u) = Some i" "in_hand (pw_workers ?s u') = Some i" for u u' i
      using that inv(4) unfolding hand by blast
    show "once_at i k ?s" if "registered k (pw_db ?s)" for i k
    proof -
      have reg: "registered k (pw_db s)" using that registered_cong [OF v(3)] by simp
      let ?new = "length (filter (\<lambda>p. px_outboxEventId p = Some i \<and> px_endpointId p = k \<and> px_taken p) sent)"
      have t: "taken i k db = taken i k (pw_db s) + ?new" using sent(1) by (simp add: taken_def)
      show ?thesis
      proof (cases "?new = 0")
        case True
        then show ?thesis using inv(5) [OF reg, of i] t v(5) [of i k] unfolding once_at_def goes_db hand lock by auto
      next
        case False
        then obtain p where p: "p \<in> set sent" "px_outboxEventId p = Some i" "px_endpointId p = k" "px_taken p"
          by (auto simp: filter_empty_conv)
        with sent(3) [OF p(1)] have ik: "i = ?i" "k = ?k" and fresh: "\<not> alreadyDelivered i k (pw_db s)" and rec: "alreadyDelivered i k db"
          using reg by (auto simp: registered_def)
        have "?new \<le> 1" using sent(2) length_filter_le le_trans by blast
        moreover have "taken i k (pw_db s) = 0" using inv(5) [OF reg, of i] fresh mine ik unfolding once_at_def by blast
        ultimately show ?thesis using t False rec unfolding once_at_def goes_db by linarith
      qed
    qed
  qed
qed

lemma notify_next [simp]: "od_next (notifyChat out now c event payload db) = od_next db"
  by (simp add: notifyChat_def split: option.split)

lemma finish_fields:
  "od_next (finish_row out now row failed db) = od_next db" "od_requests (finish_row out now row failed db) = od_requests db"
  "od_endpoints (finish_row out now row failed db) = od_endpoints db" "od_deliveries (finish_row out now row failed db) = od_deliveries db"
  "map oe_id (od_events (finish_row out now row failed db)) = map oe_id (od_events db)"
  "j \<noteq> oe_id row \<Longrightarrow> locked j db \<Longrightarrow> locked j (finish_row out now row failed db)"
  by (simp_all add: finish_row_def update_event_def Let_def map_update_rows locked_def all_update_rows)

lemma finishes_inv:
  assumes "outbox_inv s" and "pw_workers s w = Working row [] failed rest"
  shows "outbox_inv (goes w (Batch rest) (finish_row out now row failed (pw_db s)) s)"
proof -
  note inv = outbox_invD [OF assms(1)]
  let ?db = "finish_row out now row failed (pw_db s)" and ?i = "oe_id row"
  let ?s = "goes w (Batch rest) ?db s"
  note f = finish_fields [where out = out and now = now and row = row and failed = failed and db = "pw_db s"]
  have mine: "in_hand (pw_workers s w) = Some ?i" using assms(2) by simp
  have hand: "in_hand (pw_workers s v) = Some i \<and> i \<noteq> ?i" if "in_hand (pw_workers ?s v) = Some i" for v i
    using that inv(4) [OF mine, of v] mine by (auto split: if_splits)
  show ?thesis
  proof (rule outbox_invI)
    show "db_ids (pw_db ?s)" unfolding goes_db using f(1-5) by (intro db_ids_cong [OF inv(1)]) simp_all
    show "worker_ids (od_next (pw_db ?s)) (pw_workers ?s v)" for v
      using inv(2) [of v] inv(2) [of w] assms(2) f(1) by (auto simp: worker_ids_def)
    show "locked i (pw_db ?s)" if "in_hand (pw_workers ?s v) = Some i" for v i
      using hand [OF that] inv(3) f(6) unfolding goes_db by blast
    show "v' = v" if "in_hand (pw_workers ?s v) = Some i" "in_hand (pw_workers ?s v') = Some i" for v v' i
      using hand [OF that(1)] hand [OF that(2)] inv(4) by blast
    show "once_at i k ?s" if "registered k (pw_db ?s)" for i k
    proof -
      have "registered k (pw_db s)" using that f(3) by (simp add: registered_def)
      with inv(5) have "once_at i k s" by blast
      moreover have "alreadyDelivered i k ?db = alreadyDelivered i k (pw_db s)" using f(4) by (rule already_cong)
      moreover have "taken i k ?db = taken i k (pw_db s)" using f(2) by (rule taken_cong)
      ultimately show ?thesis using f(6) [of i] mine hand unfolding once_at_def goes_db by metis
    qed
  qed
qed

lemma dies_posting_inv:
  assumes "outbox_inv s" and "pw_workers s w = Working row (e # es) failed rest"
    and "\<not> alreadyDelivered (oe_id row) (we_id e) (pw_db s)"
    and "attempt_delivery out now key e (oe_event row) (oe_payload row) (Some (oe_id row)) = (success, status, err, sent)"
  shows "outbox_inv (goes w Idle (pw_db s\<lparr>od_requests := od_requests (pw_db s) @ sent\<rparr>) s)"
proof -
  note inv = outbox_invD [OF assms(1)] and a = attempt_sent [OF assms(4)]
  let ?db = "pw_db s\<lparr>od_requests := od_requests (pw_db s) @ sent\<rparr>" and ?i = "oe_id row" and ?k = "we_id e"
  let ?s = "goes w Idle ?db s"
  have mine: "in_hand (pw_workers s w) = Some ?i" using assms(2) by simp
  have small: "?i < od_next (pw_db s)" "?k < od_next (pw_db s)" using inv(2) [of w] assms(2) by (auto simp: worker_ids_def)
  have hand: "in_hand (pw_workers s v) = Some i \<and> i \<noteq> ?i" if "in_hand (pw_workers ?s v) = Some i" for v i
    using that inv(4) [OF mine, of v] mine by (auto split: if_splits)
  have lock: "locked i ?db = locked i (pw_db s)" for i by (simp add: locked_def)
  show ?thesis
  proof (rule outbox_invI)
    show "db_ids (pw_db ?s)" unfolding goes_db
      using a(2) small by (intro db_ids_cong [OF inv(1)]) auto
    show "worker_ids (od_next (pw_db ?s)) (pw_workers ?s v)" for v
      using inv(2) [of v] by (simp add: worker_ids_def)
    show "locked i (pw_db ?s)" if "in_hand (pw_workers ?s v) = Some i" for v i
      using hand [OF that] inv(3) unfolding goes_db lock by blast
    show "v' = v" if "in_hand (pw_workers ?s v) = Some i" "in_hand (pw_workers ?s v') = Some i" for v v' i
      using hand [OF that(1)] hand [OF that(2)] inv(4) by blast
    show "once_at i k ?s" if "registered k (pw_db ?s)" for i k
    proof -
      have reg: "registered k (pw_db s)" using that by (simp add: registered_def)
      let ?new = "length (filter (\<lambda>p. px_outboxEventId p = Some i \<and> px_endpointId p = k \<and> px_taken p) sent)"
      have t: "taken i k ?db = taken i k (pw_db s) + ?new" by (rule taken_append)
      show ?thesis
      proof (cases "?new = 0")
        case True
        have none: "\<forall>v. in_hand (pw_workers s v) \<noteq> Some i \<Longrightarrow> \<forall>v. in_hand (pw_workers ?s v) \<noteq> Some i" using hand by blast
        from True have "taken i k ?db = taken i k (pw_db s)" using t by linarith
        then show ?thesis using inv(5) [OF reg, of i] none unfolding once_at_def goes_db lock already_requests by auto
      next
        case False
        then obtain p where "p \<in> set sent" "px_outboxEventId p = Some i" "px_endpointId p = k"
          by (auto simp: filter_empty_conv)
        with a(2) have ik: "i = ?i" "k = ?k" by auto
        have "?new \<le> 1" using a(1) length_filter_le le_trans by blast
        moreover have "taken i k (pw_db s) = 0" using inv(5) [OF reg, of i] assms(3) mine ik unfolding once_at_def by blast
        ultimately have "taken i k ?db = 1" using t False by linarith
        moreover have "locked i ?db" using inv(3) [OF mine] ik lock by simp
        ultimately show ?thesis using hand ik unfolding once_at_def goes_db by blast
      qed
    qed
  qed
qed

subsection \<open>Requests beside the pollers\<close>

lemma enqueue_inv:
  assumes "outbox_inv s"
  shows "outbox_inv (s\<lparr>pw_db := enqueue now c event payload (pw_db s)\<rparr>)"
proof (rule db_moves [OF assms])
  note ids = outbox_invD(1) [OF assms]
  show "db_ids (enqueue now c event payload (pw_db s))"
    using ids by (auto simp: db_ids_def enqueue_def less_Suc_eq)
  show "locked i (pw_db s) \<Longrightarrow> locked i (enqueue now c event payload (pw_db s))" if "i < od_next (pw_db s)" for i
    using that by (simp add: locked_def enqueue_def)
qed (simp_all add: enqueue_def taken_def registered_def alreadyDelivered_def)

lemma create_inv:
  assumes "outbox_inv s" and "create_webhook out now secret c url events (pw_db s) = Inr (endpoint, db)"
  shows "outbox_inv (s\<lparr>pw_db := db\<rparr>)"
proof -
  note ids = outbox_invD(1) [OF assms(1)]
  obtain e where db: "db = (pw_db s)\<lparr>od_endpoints := od_endpoints (pw_db s) @ [e], od_next := Suc (od_next (pw_db s))\<rparr>"
    and e: "we_id e = od_next (pw_db s)"
    using assms(2) by (auto simp: create_webhook_def Let_def split: sum.splits)
  show ?thesis
  proof (rule db_moves [OF assms(1)])
    show "db_ids db" using ids e by (auto simp: db_ids_def db less_Suc_eq)
    show "taken i k db = taken i k (pw_db s) \<and>
       (registered k (pw_db s) \<and> (alreadyDelivered i k (pw_db s) \<longrightarrow> alreadyDelivered i k db) \<or> taken i k db = 0)"
      if "registered k db" for i k
    proof -
      have "registered k (pw_db s) \<or> k = od_next (pw_db s)" using that e by (auto simp: registered_def db)
      moreover have "taken i (od_next (pw_db s)) (pw_db s) = 0" using taken_ids [OF ids] by blast
      ultimately show ?thesis by (auto simp: db taken_def alreadyDelivered_def)
    qed
  qed (simp_all add: db locked_def)
qed

lemma change_inv:
  assumes "outbox_inv s" and "change_webhook c i change (pw_db s) = Inr (endpoint, db)" and "\<And>e. we_id (change e) = we_id e"
  shows "outbox_inv (s\<lparr>pw_db := db\<rparr>)"
proof -
  have db: "db = (pw_db s)\<lparr>od_endpoints := update_rows (\<lambda>e. we_id e = i) change (od_endpoints (pw_db s))\<rparr>"
    using assms(2) by (auto simp: change_webhook_def split: option.splits)
  then have same: "map we_id (od_endpoints db) = map we_id (od_endpoints (pw_db s))"
    using assms(3) by (simp add: map_update_rows)
  show ?thesis
  proof (rule db_moves [OF assms(1)])
    show "db_ids db" using same by (intro db_ids_cong [OF outbox_invD(1) [OF assms(1)]]) (simp_all add: db)
    show "taken j k db = taken j k (pw_db s) \<and>
       (registered k (pw_db s) \<and> (alreadyDelivered j k (pw_db s) \<longrightarrow> alreadyDelivered j k db) \<or> taken j k db = 0)"
      if "registered k db" for j k
      using that registered_cong [OF same] by (simp add: db taken_def alreadyDelivered_def)
  qed (simp_all add: db locked_def)
qed

lemma find_row_filter:
  assumes "\<And>r. r \<in> set rows \<Longrightarrow> p r \<Longrightarrow> q r"
  shows "find_row p (filter q rows) = find_row p rows"
  using assms by (induction rows) (auto simp: row_simps)

lemma delete_inv:
  assumes "outbox_inv s" and "delete_webhook c i (pw_db s) = Inr (u, db)"
  shows "outbox_inv (s\<lparr>pw_db := db\<rparr>)"
proof -
  note ids = outbox_invD(1) [OF assms(1)]
  have db: "db = (pw_db s)\<lparr>od_endpoints := filter (\<lambda>e. we_id e \<noteq> i) (od_endpoints (pw_db s)),
      od_deliveries := filter (\<lambda>d. wd_webhookEndpointId d \<noteq> i) (od_deliveries (pw_db s))\<rparr>"
    using assms(2) by (auto simp: delete_webhook_def split: option.splits)
  show ?thesis
  proof (rule db_moves [OF assms(1)])
    show "db_ids db" using ids by (simp add: db db_ids_def)
    show "taken j k db = taken j k (pw_db s) \<and>
       (registered k (pw_db s) \<and> (alreadyDelivered j k (pw_db s) \<longrightarrow> alreadyDelivered j k db) \<or> taken j k db = 0)"
      if "registered k db" for j k
    proof -
      have "k \<noteq> i" "registered k (pw_db s)" using that by (auto simp: db registered_def)
      then have "alreadyDelivered j k db = alreadyDelivered j k (pw_db s)"
        using find_row_filter [of "od_deliveries (pw_db s)" "delivery_of j k" "\<lambda>d. wd_webhookEndpointId d \<noteq> i"]
        by (simp add: alreadyDelivered_def db delivery_of_def)
      with \<open>registered k (pw_db s)\<close> show ?thesis by (simp add: db taken_def)
    qed
  qed (simp_all add: db locked_def)
qed

lemma deliver_unlogged:
  assumes "deliverToEndpoint out now e event payload None db = (r, db')" and "registered (we_id e) db"
  shows "od_events db' = od_events db \<and> od_next db \<le> od_next db' \<and> map we_id (od_endpoints db') = map we_id (od_endpoints db) \<and>
    (\<forall>i k. alreadyDelivered i k db' = alreadyDelivered i k db) \<and>
    (\<exists>sent. od_requests db' = od_requests db @ sent \<and> (\<forall>p \<in> set sent. px_outboxEventId p = None \<and> registered (px_endpointId p) db))"
proof (cases "ox_decrypt out (we_secret e)")
  case None
  with assms(1) show ?thesis by (auto simp: deliverToEndpoint_def)
next
  case (Some key)
  obtain success status err sent where a: "attempt_delivery out now key e event payload None = (success, status, err, sent)"
    by (metis prod_cases4)
  with assms(1) Some have db: "db' = record_delivery now (we_id e) event None (success, status, err) (db\<lparr>od_requests := od_requests db @ sent\<rparr>)"
    by (simp add: deliverToEndpoint_def)
  have next_le: "od_next d \<le> od_next (record_delivery now k ev w r d)" for k ev w r d
    by (cases r) (simp add: record_delivery_def Let_def)
  have rows: "od_deliveries db' = od_deliveries db \<or>
      (\<exists>d. wd_outboxEventId d = None \<and> od_deliveries db' = od_deliveries db @ [d])"
    by (simp add: db record_delivery_def Let_def)
  have "alreadyDelivered i k db' = alreadyDelivered i k db" for i k
    using rows by (auto simp: alreadyDelivered_def find_row_append row_simps delivery_of_def split: option.split)
  moreover have "od_next db \<le> od_next db'" using next_le [of "db\<lparr>od_requests := _\<rparr>"] by (simp add: db)
  ultimately show ?thesis using attempt_sent(2) [OF a] assms(2) by (auto simp: db intro!: exI [of _ sent])
qed

lemma trigger_fields:
  assumes "foldl (\<lambda>d e. snd (deliverToEndpoint out now e event payload None d)) db es = db'"
    and "\<forall>e \<in> set es. registered (we_id e) db"
  shows "od_events db' = od_events db \<and> od_next db \<le> od_next db' \<and> map we_id (od_endpoints db') = map we_id (od_endpoints db) \<and>
    (\<forall>i k. alreadyDelivered i k db' = alreadyDelivered i k db) \<and>
    (\<exists>sent. od_requests db' = od_requests db @ sent \<and> (\<forall>p \<in> set sent. px_outboxEventId p = None \<and> registered (px_endpointId p) db))"
  using assms
proof (induction es arbitrary: db)
  case (Cons e es)
  obtain r db1 where d: "deliverToEndpoint out now e event payload None db = (r, db1)" by fastforce
  have "registered (we_id e) db" using Cons.prems(2) by simp
  note one = deliver_unlogged [OF d this]
  then have reg: "registered k db1 = registered k db" for k using registered_cong by blast
  have "foldl (\<lambda>d e. snd (deliverToEndpoint out now e event payload None d)) db1 es = db'" using Cons.prems(1) d by simp
  from Cons.IH [OF this] Cons.prems(2) reg have rest: "od_events db' = od_events db1 \<and> od_next db1 \<le> od_next db' \<and>
      map we_id (od_endpoints db') = map we_id (od_endpoints db1) \<and> (\<forall>i k. alreadyDelivered i k db' = alreadyDelivered i k db1) \<and>
      (\<exists>sent. od_requests db' = od_requests db1 @ sent \<and> (\<forall>p \<in> set sent. px_outboxEventId p = None \<and> registered (px_endpointId p) db))"
    by simp
  from one obtain s1 where s1: "od_requests db1 = od_requests db @ s1" "\<forall>p \<in> set s1. px_outboxEventId p = None \<and> registered (px_endpointId p) db"
    by blast
  from rest obtain s2 where "od_requests db' = od_requests db1 @ s2" "\<forall>p \<in> set s2. px_outboxEventId p = None \<and> registered (px_endpointId p) db"
    by blast
  with s1 have "od_requests db' = od_requests db @ (s1 @ s2)" "\<forall>p \<in> set (s1 @ s2). px_outboxEventId p = None \<and> registered (px_endpointId p) db"
    by auto
  then show ?case using one rest by (metis order_trans)
qed simp

lemma trigger_inv:
  assumes "outbox_inv s"
  shows "outbox_inv (s\<lparr>pw_db := trigger out now c event payload (pw_db s)\<rparr>)"
proof -
  note ids = outbox_invD(1) [OF assms]
  let ?es = "findActiveEndpoints c event (pw_db s)"
  define db1 where "db1 = foldl (\<lambda>d e. snd (deliverToEndpoint out now e event payload None d)) (pw_db s) ?es"
  define db where "db = trigger out now c event payload (pw_db s)"
  have "\<forall>e \<in> set ?es. registered (we_id e) (pw_db s)" by (auto simp: findActiveEndpoints_def registered_def)
  note f = trigger_fields [OF db1_def [symmetric] this]
  obtain sent where sent: "od_requests db1 = od_requests (pw_db s) @ sent"
      "\<And>p. p \<in> set sent \<Longrightarrow> px_outboxEventId p = None \<and> registered (px_endpointId p) (pw_db s)" using f by blast
  have db: "db = notifyChat out now c event payload db1" by (simp add: db_def trigger_def db1_def)
  have same: "map we_id (od_endpoints db) = map we_id (od_endpoints (pw_db s))" using f by (simp add: db)
  have known: "registered k (pw_db s) \<Longrightarrow> k < od_next (pw_db s)" for k using ids by (auto simp: registered_def db_ids_def)
  have "outbox_inv (s\<lparr>pw_db := db\<rparr>)"
  proof (rule db_moves [OF assms])
    show "od_next (pw_db s) \<le> od_next db" using f by (simp add: db)
    then show "db_ids db" using f sent(1)
      by (intro db_ids_cong [OF ids _ _ same]) (auto simp: db dest!: sent(2) known)
    show "locked i (pw_db s) \<Longrightarrow> locked i db" for i using f by (simp add: db locked_def)
    show "taken i k db = taken i k (pw_db s) \<and>
       (registered k (pw_db s) \<and> (alreadyDelivered i k (pw_db s) \<longrightarrow> alreadyDelivered i k db) \<or> taken i k db = 0)"
      if "registered k db" for i k
    proof -
      have "filter (\<lambda>p. px_outboxEventId p = Some i \<and> px_endpointId p = k \<and> px_taken p) sent = []"
        using sent(2) by (auto simp: filter_empty_conv)
      then have "taken i k db = taken i k (pw_db s)" by (simp add: db taken_def sent(1))
      moreover have "alreadyDelivered i k db = alreadyDelivered i k (pw_db s)"
        using f already_cong [of db db1] by (simp add: db)
      ultimately show ?thesis using that registered_cong [OF same] by simp
    qed
  qed
  then show ?thesis by (simp add: db_def)
qed

lemma outbox_inv_step: "outbox_step out s t \<Longrightarrow> outbox_inv s \<Longrightarrow> outbox_inv t"
proof (induction rule: outbox_step.induct)
  case (polls s w)
  have "oe_id r < od_next (pw_db s)" if "r \<in> set (due now (pw_db s))" for r now
  proof -
    have "r \<in> set (od_events (pw_db s))" using that in_set_takeD unfolding due_def by fastforce
    then show ?thesis using outbox_invD(1) [OF polls(2)] by (simp add: db_ids_def)
  qed
  then show ?case by (intro worker_moves polls) (auto simp: worker_ids_def)
next
  case (ends s w)
  then show ?case by (intro worker_moves) (simp_all add: worker_ids_def)
next
  case (finds s w row rest)
  then show ?case using outbox_invD(1) [OF finds(2)] outbox_invD(2) [OF finds(2), of w]
    by (intro worker_moves) (auto simp: worker_ids_def db_ids_def findActiveEndpoints_def)
next
  case (dies s w)
  then show ?case by (intro worker_moves) (simp_all add: worker_ids_def)
next
  case (updates c i events active s endpoint db)
  then show ?case unfolding update_webhook_def by (auto elim: change_inv)
next
  case (renews secret c i s shown db)
  then show ?case unfolding regenerateSecret_def by (auto split: sum.splits elim!: change_inv)
next
  case (claims s w row rest ok db)
  then show ?case by (intro claims_inv)
qed (auto intro: visits_inv finishes_inv dies_posting_inv enqueue_inv create_inv delete_inv trigger_inv)

interpretation outbox: transition_system outbox_inv "outbox_step out" outbox_inv for out
  by unfold_locales (auto intro: outbox_inv_step)

text \<open>C23 However the pollers of several instances, requests and crashes interleave, an endpoint that is
  still registered has taken each event at most once.\<close>

theorem endpoint_takes_event_once:
  assumes "outbox_inv s" and "(outbox_step out)\<^sup>*\<^sup>* s t" and "registered k (pw_db t)"
  shows "taken i k (pw_db t) \<le> 1"
  using outbox_invD(5) [OF outbox.inv_rtranclp [OF assms(2,1)] assms(3), of i] unfolding once_at_def by linarith

text \<open>What that costs: a row whose poller died is nobody's, and stays so for good. It is no longer pending,
  and no poller looks for anything else, although the outbox is described as safe against crashes.\<close>

definition abandoned :: "uid \<Rightarrow> poller_world \<Rightarrow> bool" where
  "abandoned i s \<longleftrightarrow> i < od_next (pw_db s) \<and>
     (\<forall>r \<in> set (od_events (pw_db s)). oe_id r = i \<longrightarrow> oe_status r = OutProcessing) \<and>
     (\<forall>w. in_hand (pw_workers s w) \<noteq> Some i)"

lemma abandoned_moves:
  assumes "abandoned i s" and "od_next (pw_db s) \<le> od_next (pw_db t)"
    and "\<And>r. r \<in> set (od_events (pw_db t)) \<Longrightarrow> oe_id r = i \<Longrightarrow> r \<in> set (od_events (pw_db s))"
    and "\<And>w. in_hand (pw_workers t w) = Some i \<Longrightarrow> in_hand (pw_workers s w) = Some i"
  shows "abandoned i t"
  using assms unfolding abandoned_def by fastforce

lemma abandoned_step: "outbox_step out s t \<Longrightarrow> outbox_inv s \<Longrightarrow> abandoned i s \<Longrightarrow> abandoned i t"
proof (induction rule: outbox_step.induct)
  case (claims s w row rest ok db)
  note c = claim_fields [OF claims(2)]
  have "oe_id row \<noteq> i \<or> \<not> ok" using claims(4) c(8) by (auto simp: abandoned_def locked_def)
  moreover have "r \<in> set (od_events (pw_db s))" if "r \<in> set (od_events db)" "oe_id r = i" for r
  proof -
    have "\<not> (oe_id x = oe_id row \<and> oe_status x = OutPending)" if "x \<in> set (od_events (pw_db s))" "oe_id x = i" for x
      using claims(4) that by (auto simp: abandoned_def)
    then show ?thesis using that claims(2) by (auto simp: claim_def update_rows_def split: if_splits)
  qed
  ultimately show ?case using c(1) by (intro abandoned_moves [OF claims(4)]) (auto split: if_splits)
next
  case (visits s w row e es failed rest now failed' db)
  note v = visit_effect [OF visits(2)]
  show ?case using v(1,2) visits(1) by (intro abandoned_moves [OF visits(4)]) (auto split: if_splits)
next
  case (finishes s w row failed rest now)
  note f = finish_fields [where out = out and now = now and row = row and failed = failed and db = "pw_db s"]
  have "oe_id row \<noteq> i" using finishes(1,3) unfolding abandoned_def by (metis in_hand.simps(2))
  then have "r \<in> set (od_events (pw_db s))" if "r \<in> set (od_events (finish_row out now row failed (pw_db s)))" "oe_id r = i" for r
    using that by (auto simp: finish_row_def update_event_def update_rows_def Let_def split: if_splits)
  then show ?case using f(1) by (intro abandoned_moves [OF finishes(3)]) (auto split: if_splits)
next
  case (finds s w row rest)
  then show ?case by (intro abandoned_moves [OF finds(3)]) (auto split: if_splits)
next
  case (enqueues s now c event payload)
  then show ?case by (intro abandoned_moves [OF enqueues(2)]) (auto simp: enqueue_def abandoned_def)
next
  case (creates now secret c url events s endpoint db)
  then show ?case
    by (intro abandoned_moves [OF creates(3)]) (auto simp: create_webhook_def Let_def split: sum.splits)
next
  case (updates c j events active s endpoint db)
  then show ?case
    by (intro abandoned_moves [OF updates(3)]) (auto simp: update_webhook_def change_webhook_def split: option.splits)
next
  case (renews secret c j s shown db)
  then show ?case
    by (intro abandoned_moves [OF renews(3)]) (auto simp: regenerateSecret_def change_webhook_def split: option.splits sum.splits)
next
  case (deletes c j s u db)
  then show ?case by (intro abandoned_moves [OF deletes(3)]) (auto simp: delete_webhook_def split: option.splits)
next
  case (triggers s now c event payload)
  let ?db = "foldl (\<lambda>d e. snd (deliverToEndpoint out now e event payload None d)) (pw_db s) (findActiveEndpoints c event (pw_db s))"
  have "\<forall>e \<in> set (findActiveEndpoints c event (pw_db s)). registered (we_id e) (pw_db s)"
    by (auto simp: findActiveEndpoints_def registered_def)
  from trigger_fields [OF refl this, of out now event payload] show ?case
    by (intro abandoned_moves [OF triggers(2)]) (simp_all add: trigger_def)
next
  case (polls s w now)
  then show ?case by (intro abandoned_moves [OF polls(3)]) (auto split: if_splits)
next
  case (ends s w)
  then show ?case by (intro abandoned_moves [OF ends(3)]) (auto split: if_splits)
next
  case (dies s w)
  then show ?case by (intro abandoned_moves [OF dies(2)]) (auto split: if_splits)
next
  case (dies_posting s w row e es failed rest key now success status err sent)
  show ?case by (intro abandoned_moves [OF dies_posting(6)]) (auto split: if_splits)
qed

interpretation abandoned_rows: transition_system "\<lambda>s. outbox_inv s \<and> abandoned i s" "outbox_step out" "\<lambda>s. outbox_inv s \<and> abandoned i s"
  for out i
  by unfold_locales (auto intro: outbox_inv_step abandoned_step)

lemma crash_leaves_event_undelivered:
  assumes "outbox_inv s" and "pw_workers s w = Batch (row # rest)" and "claim (oe_id row) (pw_db s) = (True, db)"
    and "distinct (map oe_id (od_events (pw_db s)))" and "(outbox_step out)\<^sup>*\<^sup>* (goes w Idle db s) t"
    and "r \<in> set (od_events (pw_db t))" and "oe_id r = oe_id row"
  shows "outbox_step out s (goes w (Claimed row rest) db s)" and "outbox_step out (goes w (Claimed row rest) db s) (goes w Idle db s)"
    and "oe_status r = OutProcessing"
proof -
  show one: "outbox_step out s (goes w (Claimed row rest) db s)" using claims [OF assms(2,3), of out] by simp
  show two: "outbox_step out (goes w (Claimed row rest) db s) (goes w Idle db s)"
    using dies [of out "goes w (Claimed row rest) db s" w] by simp
  let ?i = "oe_id row" and ?s = "goes w Idle db s"
  note c = claim_fields [OF assms(3)] and inv = outbox_invD [OF assms(1)]
  have ok: "\<not> locked ?i (pw_db s)" using c(8) by simp
  then obtain x where x: "x \<in> set (od_events (pw_db s))" "oe_id x = ?i" "oe_status x = OutPending" by (auto simp: locked_def)
  have "oe_status y = OutProcessing" if "y \<in> set (od_events db)" "oe_id y = ?i" for y
  proof -
    from that assms(3) obtain z where z: "z \<in> set (od_events (pw_db s))" "oe_id z = ?i"
      "y = (if oe_status z = OutPending then z\<lparr>oe_status := OutProcessing\<rparr> else z)"
      by (auto simp: claim_def update_rows_def split: if_splits)
    then have "z = x" using x assms(4) by (metis distinct_map inj_onD)
    then show ?thesis using z(3) x(3) by simp
  qed
  moreover have "in_hand (pw_workers s v) \<noteq> Some ?i" for v using inv(3) ok by blast
  moreover have "?i < od_next db" using inv(1) x c(1) by (auto simp: db_ids_def)
  ultimately have "abandoned ?i ?s" by (simp add: abandoned_def)
  moreover have "outbox_inv ?s" using assms(1) one two outbox_inv_step by blast
  ultimately have "outbox_inv t \<and> abandoned ?i t"
    using abandoned_rows.inv_rtranclp [OF assms(5), of ?i] by blast
  with assms(6,7) show "oe_status r = OutProcessing" by (auto simp: abandoned_def)
qed

subsection \<open>Examples\<close>

definition example_row :: outbox_event where
  "example_row = \<lparr>oe_id = 1, oe_companyId = 0, oe_event = ''invoice.sent'', oe_payload = [], oe_status = OutPending,
     oe_attempts = 0, oe_nextAttemptAt = 0, oe_createdAt = 0, oe_deliveredAt = None\<rparr>"

definition example_endpoint :: webhook_endpoint where
  "example_endpoint = \<lparr>we_id = 2, we_companyId = 0, we_url = ''hook'', we_secret = ''s'', we_events = [''invoice.sent''],
     we_active = True, we_createdAt = 0, we_lastDeliveryAt = None, we_lastDeliveryStatus = None\<rparr>"

definition example_outbox :: outbox_db where
  "example_outbox = \<lparr>od_events = [example_row], od_endpoints = [example_endpoint], od_deliveries = [],
     od_companies = [\<lparr>cw_companyId = 0, cw_slackWebhookUrl = Some ''chat'', cw_teamsWebhookUrl = None\<rparr>],
     od_requests = [], od_chats = [], od_next = 3\<rparr>"

text \<open>Only the host \<open>chat\<close> and what \<open>known\<close> names resolve; every endpoint answers \<open>status\<close>.\<close>

definition example_outside :: "string list \<Rightarrow> nat \<Rightarrow> outside" where
  "example_outside known status = \<lparr>ox_parse_url = (\<lambda>u. Some (''https:'', u)),
     ox_lookup = (\<lambda>t h. if h = ''chat'' \<or> h \<in> set known then Some (dotted 8 8 8 8, 4) else None),
     ox_fetch = (\<lambda>u a b t. Response status), ox_encrypt = (\<lambda>s. s), ox_decrypt = Some, ox_hmac = (\<lambda>k b. []),
     ox_body = (\<lambda>e p t. e)\<rparr>"

lemma example_address: "\<not> isBlockedAddress (dotted 8 8 8 8)"
proof -
  have o: "octets 8 8 8 8" by (simp add: octets_def)
  show ?thesis using parse_dotted [OF o] isBlockedIpv4Int_iff [OF o] by (simp add: isBlockedAddress_def public_quad_def)
qed

lemmas outbox_defs = processOne_def claim_def visit_endpoint_def finish_row_def findActiveEndpoints_def alreadyDelivered_def
  deliverToEndpoint_def attempt_delivery_def record_delivery_def notifyChat_def chat_urls_def update_event_def
  resolvePinnedWebhookDispatcher_def strip_brackets_def example_address MAX_ATTEMPTS_def backoffMs_def
  update_rows_def row_simps upsert_row_def List.map_filter_def truthy_def app_message_def
  example_row_def example_endpoint_def example_outbox_def example_outside_def

text \<open>A second instance that read its batch before the first put the row off claims it as soon as it is
  pending again: no backoff, and the chat hears twice of what it should hear once.\<close>

lemma stale_batch_repeats_chat:
  "(let out = example_outside [] 200; row = example_row; db1 = processOne out 10 row example_outbox; db2 = processOne out 11 row db1
    in map (\<lambda>r. (oe_status r, oe_attempts r, oe_nextAttemptAt r)) (od_events db1) = [(OutPending, 1, 60010)] \<and>
       map (\<lambda>r. (oe_status r, oe_attempts r)) (od_events db2) = [(OutPending, 2)] \<and> length (od_chats db2) = 2)"
  by (simp add: outbox_defs Let_def)

text \<open>The first retry waits a minute, where the comment of \<open>backoffMs\<close> begins with half of one.\<close>

lemma first_retry_after_a_minute:
  "map oe_nextAttemptAt (od_events (processOne (example_outside [] 200) 10 example_row example_outbox)) = [10 + 60000]"
  by (simp add: outbox_defs Let_def)

text \<open>A retry that succeeds passes no error, which leaves the error of the failed attempt in the log.\<close>

lemma success_keeps_old_error:
  "(let failed = (False, None, Some (msg ''timeout'')); ok = (True, Some 200, None);
        db = record_delivery 1 2 ''invoice.sent'' (Some 1) ok (record_delivery 0 2 ''invoice.sent'' (Some 1) failed example_outbox)
    in map (\<lambda>d. (wd_success d, wd_statusCode d, wd_error d)) (od_deliveries db) = [(True, Some 200, Some (msg ''timeout''))])"
  by (simp add: outbox_defs Let_def delivery_of_def)

text \<open>An endpoint that does not resolve, for ten passes an hour apart.\<close>

definition hourly :: "date list" where
  "hourly = [0, 3600000, 7200000, 10800000, 14400000, 18000000, 21600000, 25200000, 28800000, 32400000]"



lemma endpoint_takes_event_once_witness:
  "taken 1 2 (process (example_outside [''hook''] 200) 0 (\<lambda>i. 0) example_outbox) = 1"
proof -
  let ?out = "example_outside [''hook''] 200" and ?s = "\<lparr>pw_db = example_outbox, pw_workers = \<lambda>w. Idle\<rparr>"
  let ?db = "process ?out 0 (\<lambda>i. 0) example_outbox"
  have inv: "outbox_inv ?s"
    by (intro outbox_invI)
      (auto simp: db_ids_def worker_ids_def once_at_def taken_def example_outbox_def example_row_def example_endpoint_def)
  have run: "(outbox_step ?out)\<^sup>*\<^sup>* ?s (goes 0 Idle ?db ?s)" using process_star [of ?s 0 ?out 0 "\<lambda>i. 0"] by simp
  have one: "due 0 example_outbox = [example_row]"
    by (simp add: due_def BATCH_SIZE_def example_outbox_def example_row_def)
  then have db: "?db = processOne ?out 0 example_row example_outbox" by (simp add: process_def)
  have reg: "registered 2 (pw_db (goes 0 Idle ?db ?s))" unfolding db by (simp add: registered_def outbox_defs Let_def)
  have "taken 1 2 ?db \<le> 1" using endpoint_takes_event_once [OF inv run reg, of 1] by simp
  moreover have "taken 1 2 ?db \<noteq> 0" unfolding db by (simp add: taken_def outbox_defs Let_def)
  ultimately show ?thesis by simp
qed

end
