(* ===== verification/Secret_Box.thy ===== *)
theory Secret_Box
  imports JS_Text
begin

section \<open>Secrets at rest\<close>

text \<open>
  \<open>common/crypto/secret-box.ts\<close> and \<open>secrets-backfill.service.ts\<close>.  AES-256-GCM, SHA-256 and base64 are
  the record \<open>crypto\<close>: \<open>sx_seal\<close> is the base64 text of nonce, tag and ciphertext, \<open>sx_open\<close> its inverse or
  nothing when it throws.  The memo of \<open>keys\<close> changes no result and is left out.
\<close>

subsection \<open>Keys\<close>

record crypto =
  sx_decode64 :: "string \<Rightarrow> string"
  sx_sha256 :: "string \<Rightarrow> string"
  sx_seal :: "string \<Rightarrow> string \<Rightarrow> string \<Rightarrow> string"
  sx_open :: "string \<Rightarrow> string \<Rightarrow> string option"
  sx_dev_key :: string

record environment =
  en_key :: "string option"
  en_previous :: "string option"
  en_production :: bool

record enc_key =
  ky_id :: string
  ky_bytes :: string

record keyring =
  kr_current :: enc_key
  kr_all :: "string \<Rightarrow> enc_key option"

definition PREFIX :: string where "PREFIX = ''enc:v1:''"

definition parseEncryptionKey :: "crypto \<Rightarrow> string \<Rightarrow> app_error + string" where
  "parseEncryptionKey c raw =
     (let bytes = sx_decode64 c (js_trim raw)
      in if length bytes \<noteq> 32
         then Inl (PlainError (msg ''must be 32 random bytes, base64-encoded - generate one with `openssl rand -base64 32`''))
         else Inr bytes)"

definition toKey :: "crypto \<Rightarrow> string \<Rightarrow> enc_key" where
  "toKey c bytes = \<lparr>ky_id = take 8 (sx_sha256 c bytes), ky_bytes = bytes\<rparr>"

definition current_key :: "crypto \<Rightarrow> environment \<Rightarrow> app_error + enc_key" where
  "current_key c en =
     (if truthy (en_key en) then (case parseEncryptionKey c (the (en_key en)) of Inl e \<Rightarrow> Inl e | Inr b \<Rightarrow> Inr (toKey c b))
      else if en_production en then Inl (PlainError (msg ''DATA_ENCRYPTION_KEY is not set''))
      else Inr (toKey c (sx_dev_key c)))"

definition keys :: "crypto \<Rightarrow> environment \<Rightarrow> app_error + keyring" where
  "keys c en =
     (case current_key c en of
        Inl e \<Rightarrow> Inl e
      | Inr current \<Rightarrow>
          (let all = [ky_id current \<mapsto> current]
           in if truthy (en_previous en)
              then (case parseEncryptionKey c (the (en_previous en)) of
                      Inl e \<Rightarrow> Inl e
                    | Inr b \<Rightarrow> Inr \<lparr>kr_current = current, kr_all = all(ky_id (toKey c b) \<mapsto> toKey c b)\<rparr>)
              else Inr \<lparr>kr_current = current, kr_all = all\<rparr>))"

subsection \<open>Encrypting and decrypting\<close>

definition isEncrypted :: "string \<Rightarrow> bool" where
  "isEncrypted stored \<longleftrightarrow> take 7 stored = PREFIX"

definition currentKeyPrefix :: "keyring \<Rightarrow> string" where
  "currentKeyPrefix k = PREFIX @ ky_id (kr_current k) @ '':''"

definition isEncryptedWithCurrentKey :: "keyring \<Rightarrow> string \<Rightarrow> bool" where
  "isEncryptedWithCurrentKey k stored \<longleftrightarrow> take (length (currentKeyPrefix k)) stored = currentKeyPrefix k"

text \<open>\<open>iv\<close> are the random bytes drawn.\<close>

definition encryptSecret :: "crypto \<Rightarrow> environment \<Rightarrow> string \<Rightarrow> string \<Rightarrow> app_error + string" where
  "encryptSecret c en iv plain =
     (if plain = [] \<or> isEncrypted plain then Inr plain
      else
        (case keys c en of
           Inl e \<Rightarrow> Inl e
         | Inr k \<Rightarrow> Inr (currentKeyPrefix k @ sx_seal c (ky_bytes (kr_current k)) iv plain)))"

text \<open>\<open>split(":", 2)\<close>: a second part that is missing is falsy like an empty one.\<close>

definition decryptSecret :: "crypto \<Rightarrow> environment \<Rightarrow> string \<Rightarrow> app_error + string" where
  "decryptSecret c en stored =
     (if \<not> isEncrypted stored then Inr stored
      else
        (let parts = split_on CHR '':'' (drop (length PREFIX) stored); keyId = hd parts;
             payload = (case tl parts of [] \<Rightarrow> [] | p # _ \<Rightarrow> p)
         in case keys c en of
              Inl e \<Rightarrow> Inl e
            | Inr k \<Rightarrow>
                (case kr_all k keyId of
                   None \<Rightarrow> Inl (PlainError [Str ''Stored secret was encrypted with key '', Str keyId,
                     Str '', which isn't DATA_ENCRYPTION_KEY or DATA_ENCRYPTION_KEY_PREVIOUS''])
                 | Some key \<Rightarrow>
                     if payload = []
                     then Inl (PlainError [Str ''Stored secret was encrypted with key '', Str keyId,
                       Str '', which isn't DATA_ENCRYPTION_KEY or DATA_ENCRYPTION_KEY_PREVIOUS''])
                     else (case sx_open c (ky_bytes key) payload of
                             None \<Rightarrow> Inl (PlainError (msg ''Unsupported state or unable to authenticate data''))
                           | Some plain \<Rightarrow> Inr plain))))"

definition or_null :: "(string \<Rightarrow> app_error + string) \<Rightarrow> string option \<Rightarrow> app_error + string option" where
  "or_null f s = (case s of None \<Rightarrow> Inr None | Some p \<Rightarrow> (case f p of Inl e \<Rightarrow> Inl e | Inr r \<Rightarrow> Inr (Some r)))"

definition encryptSecretOrNull where
  "encryptSecretOrNull c en iv plain = or_null (encryptSecret c en iv) plain"

definition decryptSecretOrNull where
  "decryptSecretOrNull c en stored = or_null (decryptSecret c en) stored"

text \<open>The tokens a connection row carries; an outer \<open>None\<close> is a field that is not there.\<close>

record token_fields =
  tk_accessToken :: "string option"
  tk_refreshToken :: "string option"
  tk_viewerAccessToken :: "string option option"

definition with_tokens ::
  "(string \<Rightarrow> app_error + string) \<Rightarrow> token_fields \<Rightarrow> app_error + token_fields" where
  "with_tokens f row =
     (case or_null f (tk_accessToken row) of Inl e \<Rightarrow> Inl e | Inr a \<Rightarrow>
       (case or_null f (tk_refreshToken row) of Inl e \<Rightarrow> Inl e | Inr r \<Rightarrow>
         (case tk_viewerAccessToken row of
            None \<Rightarrow> Inr (row\<lparr>tk_accessToken := a, tk_refreshToken := r\<rparr>)
          | Some v \<Rightarrow>
              (case or_null f v of Inl e \<Rightarrow> Inl e
               | Inr w \<Rightarrow> Inr (row\<lparr>tk_accessToken := a, tk_refreshToken := r, tk_viewerAccessToken := Some w\<rparr>)))))"

definition withDecryptedTokens :: "crypto \<Rightarrow> environment \<Rightarrow> token_fields option \<Rightarrow> app_error + token_fields option" where
  "withDecryptedTokens c en row =
     (case row of None \<Rightarrow> Inr None
      | Some r \<Rightarrow> (case with_tokens (decryptSecret c en) r of Inl e \<Rightarrow> Inl e | Inr t \<Rightarrow> Inr (Some t)))"

definition withEncryptedTokens :: "crypto \<Rightarrow> environment \<Rightarrow> string \<Rightarrow> token_fields \<Rightarrow> app_error + token_fields" where
  "withEncryptedTokens c en iv data = with_tokens (encryptSecret c en iv) data"

subsection \<open>The backfill of a column\<close>

text \<open>A column is the list of its rows with their values.  \<open>others\<close> is what other requests write to the
  column between the read of a batch and the writes of its rows; \<open>ivs\<close> the nonces, by row.\<close>

type_synonym column = "(uid \<times> string option) list"

definition ENCRYPTED_COLUMNS :: "(string \<times> string list) list" where
  "ENCRYPTED_COLUMNS =
     [(''accountingConnection'', [''accessToken'', ''refreshToken'']), (''docusignConnection'', [''accessToken'', ''refreshToken'']),
      (''intacctConnection'', [''accessToken'', ''refreshToken'']), (''msProjectConnection'', [''accessToken'', ''refreshToken'']),
      (''autodeskConnection'', [''accessToken'', ''refreshToken'', ''viewerAccessToken'']),
      (''webhookEndpoint'', [''secret'']), (''user'', [''totpSecret'', ''pendingTotpSecret''])]"

definition BATCH :: nat where "BATCH = 200"

text \<open>\<open>{ not: "" }\<close> and \<open>NOT startsWith\<close> leave out a null, as a comparison with null is not true in SQL.\<close>

definition outdated :: "keyring \<Rightarrow> uid list \<Rightarrow> column \<Rightarrow> column" where
  "outdated k skipped col =
     filter (\<lambda>(i, v). (case v of None \<Rightarrow> False | Some s \<Rightarrow> s \<noteq> [] \<and> \<not> isEncryptedWithCurrentKey k s) \<and> i \<notin> set skipped) col"

definition holds_value :: "uid \<Rightarrow> string \<Rightarrow> uid \<times> string option \<Rightarrow> bool" where
  "holds_value i stored row \<longleftrightarrow> row = (i, Some stored)"

definition backfill_row ::
  "crypto \<Rightarrow> environment \<Rightarrow> (uid \<Rightarrow> string) \<Rightarrow> uid \<times> string option \<Rightarrow> column \<times> uid list \<times> nat \<Rightarrow> column \<times> uid list \<times> nat" where
  "backfill_row c en ivs row st =
     (case (row, st) of ((i, v), (col, skipped, rewritten)) \<Rightarrow>
        (case v of
           None \<Rightarrow> st
         | Some stored \<Rightarrow>
             (case Option.bind (case decryptSecret c en stored of Inl e \<Rightarrow> None | Inr p \<Rightarrow> Some p)
                     (\<lambda>p. case encryptSecret c en (ivs i) p of Inl e \<Rightarrow> None | Inr n \<Rightarrow> Some n) of
                None \<Rightarrow> (col, i # skipped, rewritten)
              | Some next_value \<Rightarrow>
                  if list_ex (holds_value i stored) col
                  then (update_rows (holds_value i stored) (\<lambda>_. (i, Some next_value)) col, skipped, rewritten + 1)
                  else (col, i # skipped, rewritten))))"

text \<open>\<open>None\<close> is a loop that outlasts its fuel; a key that cannot be read ends it with an exception.\<close>

fun backfill_loop ::
  "nat \<Rightarrow> crypto \<Rightarrow> environment \<Rightarrow> (nat \<Rightarrow> uid \<Rightarrow> string) \<Rightarrow> (nat \<Rightarrow> column \<Rightarrow> column) \<Rightarrow> keyring \<Rightarrow>
   column \<times> uid list \<times> nat \<Rightarrow> (column \<times> uid list \<times> nat) option" where
  "backfill_loop 0 c en ivs others k st = None"
| "backfill_loop (Suc fuel) c en ivs others k (col, skipped, rewritten) =
     (let rows = take BATCH (outdated k skipped col)
      in if rows = [] then Some (col, skipped, rewritten)
         else backfill_loop fuel c en ivs others k
                (foldl (\<lambda>st row. backfill_row c en (ivs fuel) row st) (others fuel col, skipped, rewritten) rows))"

definition backfillColumn ::
  "nat \<Rightarrow> crypto \<Rightarrow> environment \<Rightarrow> (nat \<Rightarrow> uid \<Rightarrow> string) \<Rightarrow> (nat \<Rightarrow> column \<Rightarrow> column) \<Rightarrow> column \<Rightarrow>
   app_error + (column \<times> uid list \<times> nat) option" where
  "backfillColumn fuel c en ivs others col =
     (case keys c en of Inl e \<Rightarrow> Inl e | Inr k \<Rightarrow> Inr (backfill_loop fuel c en ivs others k (col, [], 0)))"

text \<open>\<open>run\<close>: one column after the other.\<close>

fun run_backfill ::
  "nat \<Rightarrow> crypto \<Rightarrow> environment \<Rightarrow> (nat \<Rightarrow> uid \<Rightarrow> string) \<Rightarrow> (nat \<Rightarrow> column \<Rightarrow> column) \<Rightarrow> column list \<Rightarrow>
   app_error + (column list \<times> nat) option" where
  "run_backfill fuel c en ivs others [] = Inr (Some ([], 0))"
| "run_backfill fuel c en ivs others (col # cols) =
     (case backfillColumn fuel c en ivs others col of
        Inl e \<Rightarrow> Inl e
      | Inr None \<Rightarrow> Inr None
      | Inr (Some (col1, skipped, n)) \<Rightarrow>
          (case run_backfill fuel c en ivs others cols of
             Inl e \<Rightarrow> Inl e
           | Inr None \<Rightarrow> Inr None
           | Inr (Some (cols1, m)) \<Rightarrow> Inr (Some (col1 # cols1, n + m))))"

subsection \<open>Reading back\<close>

text \<open>What is documented of the cipher and its encoding: opening undoes sealing, and base64 text has no
  colon and is longer than what it holds.\<close>

definition cipher_ok :: "crypto \<Rightarrow> bool" where
  "cipher_ok c \<longleftrightarrow>
     (\<forall>k iv p. sx_open c k (sx_seal c k iv p) = Some p \<and> CHR '':'' \<notin> set (sx_seal c k iv p) \<and> sx_seal c k iv p \<noteq> []) \<and>
     (\<forall>k s p. sx_open c k s = Some p \<longrightarrow> length p < length s) \<and>
     (\<forall>b. CHR '':'' \<notin> set (sx_sha256 c b))"

lemma parse_key: "parseEncryptionKey c raw = Inr b \<Longrightarrow> b = sx_decode64 c (js_trim raw)"
  by (simp add: parseEncryptionKey_def Let_def split: if_splits)

lemma keys_ids:
  assumes "cipher_ok c" and "keys c en = Inr k"
  shows "CHR '':'' \<notin> set (ky_id (kr_current k))"
proof -
  have "CHR '':'' \<notin> set (ky_id (toKey c b))" for b
    using assms(1) in_set_takeD by (fastforce simp: cipher_ok_def toKey_def)
  moreover from assms(2) obtain b where "kr_current k = toKey c b"
    by (auto simp: keys_def current_key_def Let_def split: sum.splits if_splits)
  ultimately show ?thesis by simp
qed

lemma prefixed: "isEncrypted (currentKeyPrefix k @ s)"
  by (simp add: isEncrypted_def currentKeyPrefix_def PREFIX_def)

text \<open>A sealed text is read by whoever has its key under its id.\<close>

lemma sealed_reads:
  assumes "cipher_ok c" and "keys c en = Inr k" and "keys c en' = Inr k'"
    and "kr_all k' (ky_id (kr_current k)) = Some (kr_current k)"
  shows "decryptSecret c en' (currentKeyPrefix k @ sx_seal c (ky_bytes (kr_current k)) iv plain) = Inr plain"
proof -
  let ?p = "sx_seal c (ky_bytes (kr_current k)) iv plain" and ?id = "ky_id (kr_current k)"
  have c: "CHR '':'' \<notin> set ?p" "?p \<noteq> []" "sx_open c (ky_bytes (kr_current k)) ?p = Some plain"
    using assms(1) by (simp_all add: cipher_ok_def)
  have "drop (length PREFIX) (currentKeyPrefix k @ ?p) = ?id @ CHR '':'' # ?p"
    by (simp add: currentKeyPrefix_def)
  then have "split_on CHR '':'' (drop (length PREFIX) (currentKeyPrefix k @ ?p)) = [?id, ?p]"
    using keys_ids [OF assms(1,2)] c(1) by (simp add: split_on_append split_on_none)
  then show ?thesis using c assms(3,4) prefixed [of k ?p] by (simp add: decryptSecret_def Let_def)
qed

text \<open>C36 A secret survives a rotation of the key: what was encrypted under the old key is read back once
  the old key is configured as the previous one, whatever the new key is.\<close>

theorem secret_survives_rotation:
  assumes "cipher_ok c" and "truthy (en_key en)" and "encryptSecret c en iv plain = Inr stored" and "\<not> isEncrypted plain"
    and "en_previous en' = en_key en" and "keys c en' = Inr k'"
  shows "decryptSecret c en' stored = Inr plain"
proof (cases "plain = []")
  case True
  then show ?thesis using assms(3,4) by (simp add: encryptSecret_def decryptSecret_def)
next
  case False
  then obtain k where k: "keys c en = Inr k" and stored: "stored = currentKeyPrefix k @ sx_seal c (ky_bytes (kr_current k)) iv plain"
    using assms(3,4) by (auto simp: encryptSecret_def split: sum.splits)
  from k assms(2) obtain b where b: "parseEncryptionKey c (the (en_key en)) = Inr b" "kr_current k = toKey c b"
    by (auto simp: keys_def current_key_def Let_def split: sum.splits if_splits)
  have "kr_all k' (ky_id (kr_current k)) = Some (kr_current k)"
    using assms(2,5,6) b by (auto simp: keys_def Let_def split: sum.splits if_splits)
  from sealed_reads [OF assms(1) k assms(6) this] show ?thesis by (simp add: stored)
qed

subsection \<open>The backfill ends\<close>

definition weight :: "keyring \<Rightarrow> uid list \<Rightarrow> uid \<times> string option \<Rightarrow> nat" where
  "weight k skipped row =
     (case row of (i, v) \<Rightarrow>
        (case v of None \<Rightarrow> 0
         | Some s \<Rightarrow> if s = [] \<or> isEncryptedWithCurrentKey k s \<or> i \<in> set skipped then 0 else Suc (length s)))"

definition column_weight :: "keyring \<Rightarrow> uid list \<Rightarrow> column \<Rightarrow> nat" where
  "column_weight k skipped col = sum_list (map (weight k skipped) col)"

lemma weight_skip: "set skipped \<subseteq> set skipped' \<Longrightarrow> weight k skipped' row \<le> weight k skipped row"
  by (auto simp: weight_def split: prod.split option.split)

lemma weight_outdated: "row \<in> set (outdated k skipped col) \<longleftrightarrow> row \<in> set col \<and> 0 < weight k skipped row"
  by (auto simp: outdated_def weight_def split: prod.splits option.splits if_splits)

text \<open>What a row is rewritten to weighs less: nothing, or the shorter text it contained.\<close>

lemma rewritten_lighter:
  assumes "cipher_ok c" and "keys c en = Inr k" and "decryptSecret c en stored = Inr p" and "encryptSecret c en iv p = Inr next_value"
    and "0 < weight k skipped (i, Some stored)"
  shows "weight k skipped (i, Some next_value) < weight k skipped (i, Some stored)"
proof (cases "p = [] \<or> isEncrypted p")
  case True
  with assms(4) have n: "next_value = p" by (simp add: encryptSecret_def)
  show ?thesis
  proof (cases "p = []")
    case True
    then show ?thesis using n assms(5) by (simp add: weight_def)
  next
    case False
    with True have enc: "isEncrypted p" by simp
    show ?thesis
    proof (cases "isEncrypted stored")
      case False
      then show ?thesis using assms(3) enc by (simp add: decryptSecret_def)
    next
      case True
      let ?parts = "split_on CHR '':'' (drop (length PREFIX) stored)"
      from True assms(2,3) obtain key payload rest where parts: "tl ?parts = payload # rest" "sx_open c key payload = Some p"
        by (auto simp: decryptSecret_def Let_def split: if_splits option.splits list.splits)
      from parts(2) assms(1) have "length p < length payload" by (auto simp: cipher_ok_def)
      moreover have "payload \<in> set ?parts" using parts(1) by (cases ?parts) auto
      then have "length payload \<le> length (drop (length PREFIX) stored)" by (rule split_on_length)
      then have "length payload \<le> length stored" by simp
      ultimately show ?thesis using n assms(5) by (auto simp: weight_def split: if_splits)
    qed
  qed
next
  case False
  with assms(2,4) have "next_value = currentKeyPrefix k @ sx_seal c (ky_bytes (kr_current k)) iv p"
    by (simp add: encryptSecret_def)
  then have "isEncryptedWithCurrentKey k next_value" by (simp add: isEncryptedWithCurrentKey_def)
  then show ?thesis using assms(5) by (simp add: weight_def)
qed

text \<open>One row of a batch: every row keeps its id and grows no heavier, and the row itself loses weight.\<close>

lemma backfill_row_lighter:
  assumes "cipher_ok c" and "keys c en = Inr k" and "backfill_row c en ivs (i, Some stored) (col, skipped, n) = (col', skipped', n')"
    and "stored \<noteq> []" and "\<not> isEncryptedWithCurrentKey k stored"
  shows "list_all2 (\<lambda>r r'. fst r' = fst r \<and> weight k skipped' r' \<le> weight k skipped r \<and>
      (r = (i, Some stored) \<and> 0 < weight k skipped r \<longrightarrow> weight k skipped' r' < weight k skipped r)) col col'"
    and "set skipped \<subseteq> set skipped'"
proof -
  consider (skips) "col' = col" "skipped' = i # skipped"
    | (swaps) p next_value where "decryptSecret c en stored = Inr p" "encryptSecret c en (ivs i) p = Inr next_value"
        "col' = update_rows (holds_value i stored) (\<lambda>_. (i, Some next_value)) col" "skipped' = skipped"
    using assms(3) by (auto simp: backfill_row_def split: sum.splits if_splits option.splits)
  note cases = this
  show "set skipped \<subseteq> set skipped'" using cases by cases auto
  show "list_all2 (\<lambda>r r'. fst r' = fst r \<and> weight k skipped' r' \<le> weight k skipped r \<and>
      (r = (i, Some stored) \<and> 0 < weight k skipped r \<longrightarrow> weight k skipped' r' < weight k skipped r)) col col'"
    using cases
  proof cases
    case skips
    then show ?thesis using weight_skip [of skipped "i # skipped" k]
      by (auto simp: list_all2_same weight_def split: option.split prod.split)
  next
    case swaps
    note lighter = rewritten_lighter [OF assms(1,2) swaps(1,2)]
    have "weight k skipped (i, Some next_value) \<le> weight k skipped (i, Some stored)"
      using lighter [of skipped i] by (cases "weight k skipped (i, Some stored)")
        (use assms(4,5) in \<open>auto simp: weight_def split: if_splits\<close>)
    then show ?thesis using lighter [of skipped i]
      by (auto simp: swaps update_rows_def list.rel_map list_all2_same holds_value_def)
  qed
qed

definition readable_row :: "keyring \<Rightarrow> uid \<times> string option \<Rightarrow> bool" where
  "readable_row k row \<longleftrightarrow> (\<exists>i s. row = (i, Some s) \<and> s \<noteq> [] \<and> \<not> isEncryptedWithCurrentKey k s)"

definition lighter :: "keyring \<Rightarrow> uid list \<Rightarrow> uid list \<Rightarrow> uid \<times> string option \<Rightarrow> uid \<times> string option \<Rightarrow> bool" where
  "lighter k skipped skipped' r r' \<longleftrightarrow> fst r' = fst r \<and> weight k skipped' r' \<le> weight k skipped r"

lemma lighter_trans: "lighter k a b r s \<Longrightarrow> lighter k b d s t \<Longrightarrow> lighter k a d r t"
  by (simp add: lighter_def)

lemma list_lighter_trans:
  "list_all2 (lighter k a b) xs ys \<Longrightarrow> list_all2 (lighter k b d) ys zs \<Longrightarrow> list_all2 (lighter k a d) xs zs"
  by (rule list_all2_trans [OF lighter_trans])

lemma batch_lighter:
  assumes "cipher_ok c" and "keys c en = Inr k" and "\<forall>row \<in> set rows. readable_row k row"
    and "foldl (\<lambda>st row. backfill_row c en ivs row st) (col, skipped, n) rows = (col', skipped', n')"
  shows "list_all2 (lighter k skipped skipped') col col'"
  using assms(3,4)
proof (induction rows arbitrary: col skipped n)
  case Nil
  then show ?case by (simp add: list_all2_same lighter_def)
next
  case (Cons row rows)
  then obtain i s where row: "row = (i, Some s)" "s \<noteq> []" "\<not> isEncryptedWithCurrentKey k s" by (auto simp: readable_row_def)
  obtain col1 skipped1 n1 where one: "backfill_row c en ivs row (col, skipped, n) = (col1, skipped1, n1)" by (metis prod_cases3)
  then have "list_all2 (lighter k skipped skipped1) col col1"
    using backfill_row_lighter(1) [OF assms(1,2) _ row(2,3)] unfolding row(1) lighter_def
    by (blast intro: list_all2_mono)
  moreover have "list_all2 (lighter k skipped1 skipped') col1 col'"
    using Cons.IH [of col1 skipped1 n1] Cons.prems one by simp
  ultimately show ?case by (rule list_lighter_trans)
qed

text \<open>Other requests write through \<open>encryptSecret\<close> with the current key, or clear a value.\<close>

definition writes_current :: "keyring \<Rightarrow> (nat \<Rightarrow> column \<Rightarrow> column) \<Rightarrow> bool" where
  "writes_current k others \<longleftrightarrow>
     (\<forall>n col. list_all2 (\<lambda>r r'. fst r' = fst r \<and> (r' = r \<or> weight k [] r' = 0)) col (others n col))"

lemma pass_lighter:
  assumes "cipher_ok c" and "keys c en = Inr k" and "writes_current k others"
    and "take BATCH (outdated k skipped col) = row # rows"
    and "foldl (\<lambda>st row. backfill_row c en ivs row st) (others m col, skipped, n) (row # rows) = (col', skipped', n')"
  shows "list_all2 (lighter k skipped skipped') col col'" and "column_weight k skipped' col' < column_weight k skipped col"
proof -
  have "set (row # rows) \<subseteq> set (outdated k skipped col)" unfolding assms(4) [symmetric] by (rule set_take_subset)
  then have good: "\<forall>x \<in> set (row # rows). readable_row k x" and row: "row \<in> set (outdated k skipped col)"
    by (auto simp: outdated_def readable_row_def split: option.splits)
  then obtain i s where rs: "row = (i, Some s)" "s \<noteq> []" "\<not> isEncryptedWithCurrentKey k s" by (auto simp: readable_row_def)
  from row obtain p where p: "p < length col" "col ! p = row" "0 < weight k skipped row"
    unfolding weight_outdated by (metis in_set_conv_nth)
  obtain col1 skipped1 n1 where one: "backfill_row c en ivs row (others m col, skipped, n) = (col1, skipped1, n1)" by (metis prod_cases3)
  note step = backfill_row_lighter(1) [OF assms(1,2) one [unfolded rs(1)] rs(2,3)]
  have rest: "list_all2 (lighter k skipped1 skipped') col1 col'"
    using batch_lighter [OF assms(1,2), of rows ivs col1 skipped1 n1 col' skipped' n'] good assms(5) one by simp
  have o: "list_all2 (\<lambda>r r'. fst r' = fst r \<and> (r' = r \<or> weight k [] r' = 0)) col (others m col)"
    using assms(3) by (simp add: writes_current_def)
  have zero: "weight k [] r = 0 \<Longrightarrow> weight k skipped r = 0" for r using weight_skip [of "[]" skipped k r] by simp
  have o': "list_all2 (lighter k skipped skipped) col (others m col)"
    using o by (rule list_all2_mono) (auto simp: lighter_def zero)
  have step': "list_all2 (lighter k skipped skipped1) (others m col) col1"
    using step by (rule list_all2_mono) (simp add: lighter_def)
  show all: "list_all2 (lighter k skipped skipped') col col'"
    using list_lighter_trans [OF list_lighter_trans [OF o' step'] rest] .
  have len: "p < length (others m col)" "p < length col1" using p(1) o' step' by (simp_all add: list_all2_lengthD)
  have "weight k skipped1 (col1 ! p) < weight k skipped row"
  proof (cases "others m col ! p = row")
    case True
    then show ?thesis using list_all2_nthD [OF step len(1)] p(3) rs(1) by simp
  next
    case False
    then have "weight k skipped (others m col ! p) = 0" using list_all2_nthD [OF o p(1)] p(2) zero by auto
    then show ?thesis using list_all2_nthD [OF step' len(1)] p(3) by (simp add: lighter_def)
  qed
  then have "weight k skipped' (col' ! p) < weight k skipped (col ! p)"
    using list_all2_nthD [OF rest len(2)] p(2) by (simp add: lighter_def)
  moreover have "list_all2 (\<lambda>r r'. weight k skipped' r' \<le> weight k skipped r) col col'"
    using all by (rule list_all2_mono) (simp add: lighter_def)
  ultimately show "column_weight k skipped' col' < column_weight k skipped col"
    unfolding column_weight_def using p(1) by (intro sum_list_decreases) auto
qed

lemma loop_ends:
  assumes "cipher_ok c" and "keys c en = Inr k" and "writes_current k others" and "column_weight k skipped col < fuel"
  shows "\<exists>col' skipped' n'. backfill_loop fuel c en ivs others k (col, skipped, n) = Some (col', skipped', n') \<and>
    outdated k skipped' col' = [] \<and> map fst col' = map fst col"
  using assms(4)
proof (induction fuel arbitrary: col skipped n)
  case (Suc fuel)
  show ?case
  proof (cases "take BATCH (outdated k skipped col)")
    case Nil
    then show ?thesis by (simp add: BATCH_def)
  next
    case (Cons row rows)
    obtain col1 skipped1 n1 where f: "foldl (\<lambda>st row. backfill_row c en (ivs fuel) row st) (others fuel col, skipped, n) (row # rows) =
        (col1, skipped1, n1)" by (metis prod_cases3)
    note l = pass_lighter [OF assms(1-3) Cons f]
    have ids: "map fst col1 = map fst col"
      using l(1) by (induction rule: list_all2_induct) (simp_all add: lighter_def)
    from Suc.prems l(2) have "column_weight k skipped1 col1 < fuel" by simp
    from Suc.IH [OF this, of n1] ids f Cons show ?thesis by (simp add: Let_def)
  qed
qed simp

text \<open>C24 The backfill of a column ends, however many requests write to it meanwhile, and leaves no secret
  outside the current key but those it reports as unreadable or overtaken.\<close>

theorem backfill_ends:
  assumes "cipher_ok c" and "keys c en = Inr k" and "writes_current k others" and "column_weight k [] col < fuel"
  shows "\<exists>col' skipped n. backfillColumn fuel c en ivs others col = Inr (Some (col', skipped, n)) \<and> map fst col' = map fst col \<and>
    (\<forall>i s. (i, Some s) \<in> set col' \<longrightarrow> s = [] \<or> isEncryptedWithCurrentKey k s \<or> i \<in> set skipped)"
proof -
  obtain col' skipped n where l: "backfill_loop fuel c en ivs others k (col, [], 0) = Some (col', skipped, n)"
      "outdated k skipped col' = []" "map fst col' = map fst col"
    using loop_ends [OF assms] by blast
  have "s = [] \<or> isEncryptedWithCurrentKey k s \<or> i \<in> set skipped" if "(i, Some s) \<in> set col'" for i s
  proof -
    have "(i, Some s) \<notin> set (outdated k skipped col')" using l(2) by simp
    then show ?thesis using that by (auto simp: weight_outdated weight_def split: if_splits)
  qed
  then show ?thesis using l assms(2) by (auto simp: backfillColumn_def)
qed

subsection \<open>The backfill changes no secret\<close>

text \<open>No plaintext looks like a stored text: \<open>encryptSecret\<close> would take it for one.\<close>

definition plain_secrets :: "crypto \<Rightarrow> environment \<Rightarrow> column \<Rightarrow> bool" where
  "plain_secrets c en col \<longleftrightarrow>
     (\<forall>i s p. (i, Some s) \<in> set col \<longrightarrow> decryptSecret c en s = Inr p \<longrightarrow> \<not> isEncrypted p)"

definition same_secret :: "crypto \<Rightarrow> environment \<Rightarrow> uid \<times> string option \<Rightarrow> uid \<times> string option \<Rightarrow> bool" where
  "same_secret c en r r' \<longleftrightarrow> fst r' = fst r \<and>
     (case snd r of None \<Rightarrow> snd r' = None
      | Some s \<Rightarrow> (\<exists>s'. snd r' = Some s' \<and> decryptSecret c en s' = decryptSecret c en s))"

lemma same_secret_refl: "same_secret c en r r"
  by (simp add: same_secret_def split: option.split)

lemma same_secret_trans: "same_secret c en r s \<Longrightarrow> same_secret c en s t \<Longrightarrow> same_secret c en r t"
  by (cases "snd r"; cases "snd s") (auto simp: same_secret_def)

lemma list_same_trans:
  "list_all2 (same_secret c en) xs ys \<Longrightarrow> list_all2 (same_secret c en) ys zs \<Longrightarrow> list_all2 (same_secret c en) xs zs"
  by (rule list_all2_trans [OF same_secret_trans])

lemma plain_secrets_same:
  assumes "plain_secrets c en col" and "list_all2 (same_secret c en) col col'"
  shows "plain_secrets c en col'"
  unfolding plain_secrets_def
proof (intro allI impI)
  fix i s p assume s: "(i, Some s) \<in> set col'" "decryptSecret c en s = Inr p"
  then obtain n where n: "n < length col'" "col' ! n = (i, Some s)" by (metis in_set_conv_nth)
  have l: "n < length col" using n(1) list_all2_lengthD [OF assms(2)] by simp
  from list_all2_nthD [OF assms(2) l] n(2) obtain s0 where s0: "col ! n = (i, Some s0)" "decryptSecret c en s = decryptSecret c en s0"
    by (cases "col ! n") (auto simp: same_secret_def split: option.splits)
  then have "(i, Some s0) \<in> set col" using nth_mem [OF l] by simp
  with assms(1) s(2) s0(2) show "\<not> isEncrypted p" unfolding plain_secrets_def by metis
qed

lemma decrypt_empty: "decryptSecret c en [] = Inr []"
  by (simp add: decryptSecret_def isEncrypted_def PREFIX_def)

lemma backfill_row_same:
  assumes "cipher_ok c" and "keys c en = Inr k" and "kr_all k (ky_id (kr_current k)) = Some (kr_current k)"
    and "plain_secrets c en col" and "backfill_row c en ivs row (col, skipped, n) = (col', skipped', n')"
  shows "list_all2 (same_secret c en) col col'"
proof -
  obtain i v where row: "row = (i, v)" by fastforce
  consider (kept) "col' = col"
    | (swaps) stored p next_value where "decryptSecret c en stored = Inr p"
        "encryptSecret c en (ivs i) p = Inr next_value" "list_ex (holds_value i stored) col"
        "col' = update_rows (holds_value i stored) (\<lambda>_. (i, Some next_value)) col"
  proof (cases v)
    case None
    then show ?thesis using assms(5) that(1) by (simp add: backfill_row_def row)
  next
    case (Some stored)
    note run = assms(5) [unfolded backfill_row_def row Some, simplified]
    show ?thesis
    proof (cases "decryptSecret c en stored")
      case (Inl e)
      then show ?thesis using run that(1) by simp
    next
      case p: (Inr p)
      show ?thesis
      proof (cases "encryptSecret c en (ivs i) p")
        case (Inl e)
        then show ?thesis using run p that(1) by simp
      next
        case (Inr next_value)
        show ?thesis
        proof (cases "list_ex (holds_value i stored) col")
          case True
          then show ?thesis using run p Inr by (intro that(2) [OF p Inr True]) simp
        next
          case False
          then show ?thesis using run p Inr that(1) by simp
        qed
      qed
    qed
  qed
  then show ?thesis
  proof cases
    case kept
    then show ?thesis by (simp add: list_all2_same same_secret_refl)
  next
    case swaps
    have "(i, Some stored) \<in> set col" using swaps(3) by (auto simp: list_ex_iff holds_value_def)
    with assms(4) swaps(1) have "\<not> isEncrypted p" unfolding plain_secrets_def by blast
    then have "next_value = (if p = [] then [] else currentKeyPrefix k @ sx_seal c (ky_bytes (kr_current k)) (ivs i) p)"
      using swaps(2) assms(2) by (auto simp: encryptSecret_def split: if_splits)
    then have "decryptSecret c en next_value = Inr p"
      using sealed_reads [OF assms(1,2,2,3)] decrypt_empty by (cases "p = []") simp_all
    then have "same_secret c en (i, Some stored) (i, Some next_value)" using swaps(1) by (simp add: same_secret_def)
    then show ?thesis
      by (auto simp: swaps(4) update_rows_def list.rel_map list_all2_same holds_value_def same_secret_refl)
  qed
qed

lemma batch_same:
  assumes "cipher_ok c" and "keys c en = Inr k" and "kr_all k (ky_id (kr_current k)) = Some (kr_current k)"
    and "plain_secrets c en col" and "foldl (\<lambda>st row. backfill_row c en ivs row st) (col, skipped, n) rows = (col', skipped', n')"
  shows "list_all2 (same_secret c en) col col'"
  using assms(4,5)
proof (induction rows arbitrary: col skipped n)
  case Nil
  then show ?case by (simp add: list_all2_same same_secret_refl)
next
  case (Cons row rows)
  obtain col1 skipped1 n1 where one: "backfill_row c en ivs row (col, skipped, n) = (col1, skipped1, n1)" by (metis prod_cases3)
  note step = backfill_row_same [OF assms(1-3) Cons.prems(1) one]
  have "list_all2 (same_secret c en) col1 col'"
    using Cons.IH [of col1 skipped1 n1] plain_secrets_same [OF Cons.prems(1) step] Cons.prems(2) one by simp
  with step show ?case by (rule list_same_trans)
qed

lemma loop_same:
  assumes "cipher_ok c" and "keys c en = Inr k" and "kr_all k (ky_id (kr_current k)) = Some (kr_current k)"
    and "plain_secrets c en col"
    and "backfill_loop fuel c en ivs (\<lambda>n col. col) k (col, skipped, n) = Some (col', skipped', n')"
  shows "list_all2 (same_secret c en) col col'"
  using assms(4,5)
proof (induction fuel arbitrary: col skipped n)
  case (Suc fuel)
  show ?case
  proof (cases "take BATCH (outdated k skipped col) = []")
    case True
    then show ?thesis using Suc.prems(2) by (simp add: Let_def list_all2_same same_secret_refl)
  next
    case False
    obtain col1 skipped1 n1 where f: "foldl (\<lambda>st row. backfill_row c en (ivs fuel) row st) (col, skipped, n)
        (take BATCH (outdated k skipped col)) = (col1, skipped1, n1)" by (metis prod_cases3)
    note step = batch_same [OF assms(1-3) Suc.prems(1) f]
    have "list_all2 (same_secret c en) col1 col'"
      using Suc.IH [of col1 skipped1 n1] plain_secrets_same [OF Suc.prems(1) step] Suc.prems(2) f False by (simp add: Let_def)
    with step show ?thesis by (rule list_same_trans)
  qed
qed simp

lemma loop_done: "backfill_loop fuel c en ivs others k (col, skipped, n) = Some (col', skipped', n') \<Longrightarrow> outdated k skipped' col' = []"
proof (induction fuel arbitrary: col skipped n)
  case (Suc fuel)
  show ?case
  proof (cases "take BATCH (outdated k skipped col) = []")
    case True
    with Suc.prems have "outdated k skipped col = []" "col' = col" "skipped' = skipped" by (simp_all add: BATCH_def Let_def)
    then show ?thesis by simp
  next
    case False
    obtain col1 skipped1 n1 where "foldl (\<lambda>st row. backfill_row c en (ivs fuel) row st) (others fuel col, skipped, n)
        (take BATCH (outdated k skipped col)) = (col1, skipped1, n1)" by (metis prod_cases3)
    then show ?thesis using Suc.IH [of col1 skipped1 n1] Suc.prems False by (simp add: Let_def)
  qed
qed simp

text \<open>A text under the current key does not need the previous one.\<close>

lemma current_reads_alone:
  assumes "cipher_ok c" and "keys c en = Inr k" and "kr_all k (ky_id (kr_current k)) = Some (kr_current k)"
    and "isEncryptedWithCurrentKey k s"
  shows "decryptSecret c (en\<lparr>en_previous := None\<rparr>) s = decryptSecret c en s"
proof -
  let ?id = "ky_id (kr_current k)"
  obtain rest where s: "s = currentKeyPrefix k @ rest" using assms(4) by (metis append_take_drop_id isEncryptedWithCurrentKey_def)
  then have "drop (length PREFIX) s = ?id @ CHR '':'' # rest" by (simp add: currentKeyPrefix_def)
  then have "hd (split_on CHR '':'' (drop (length PREFIX) s)) = ?id"
    using keys_ids [OF assms(1,2)] by (simp add: split_on_append split_on_none)
  moreover have "keys c (en\<lparr>en_previous := None\<rparr>) = Inr \<lparr>kr_current = kr_current k, kr_all = [?id \<mapsto> kr_current k]\<rparr>"
    using assms(2) by (auto simp: keys_def current_key_def truthy_def Let_def split: sum.splits if_splits)
  ultimately show ?thesis using assms(2,3) by (simp add: decryptSecret_def Let_def)
qed

text \<open>C37 Once the backfill is through, the previous key can be removed: every secret it did not report is
  read with the current key alone, as what it was before.\<close>

theorem previous_key_can_go:
  assumes "cipher_ok c" and "keys c en = Inr k" and "kr_all k (ky_id (kr_current k)) = Some (kr_current k)"
    and "plain_secrets c en col" and "backfillColumn fuel c en ivs (\<lambda>n col. col) col = Inr (Some (col', skipped, n))"
    and "(i, Some s) \<in> set col" and "i \<notin> set skipped"
  shows "\<exists>s'. (i, Some s') \<in> set col' \<and> decryptSecret c (en\<lparr>en_previous := None\<rparr>) s' = decryptSecret c en s"
proof -
  have loop: "backfill_loop fuel c en ivs (\<lambda>n col. col) k (col, [], 0) = Some (col', skipped, n)"
    using assms(2,5) by (simp add: backfillColumn_def)
  note same = loop_same [OF assms(1-4) loop]
  from assms(6) obtain m where m: "m < length col" "col ! m = (i, Some s)" by (metis in_set_conv_nth)
  from list_all2_nthD [OF same m(1)] m(2) obtain s' where s': "col' ! m = (i, Some s')"
      "decryptSecret c en s' = decryptSecret c en s"
    by (cases "col' ! m") (auto simp: same_secret_def)
  have mem: "(i, Some s') \<in> set col'" using m(1) list_all2_lengthD [OF same] s'(1) by (metis nth_mem)
  have "(i, Some s') \<notin> set (outdated k skipped col')" using loop_done [OF loop] by simp
  with mem assms(7) have "s' = [] \<or> isEncryptedWithCurrentKey k s'" by (auto simp: weight_outdated weight_def split: if_splits)
  then have "decryptSecret c (en\<lparr>en_previous := None\<rparr>) s' = decryptSecret c en s'"
    using current_reads_alone [OF assms(1-3)] decrypt_empty by (elim disjE) simp_all
  with mem s'(2) show ?thesis by auto
qed

subsection \<open>Examples\<close>

text \<open>A cipher that only escapes the colon, and keys that differ in their first letter.\<close>

fun escape :: "string \<Rightarrow> string" where
  "escape [] = []"
| "escape (c # cs) = (if c = CHR '':'' then [CHR ''x'', CHR ''1''] else if c = CHR ''x'' then [CHR ''x'', CHR ''0''] else [c]) @ escape cs"

fun unescape :: "string \<Rightarrow> string" where
  "unescape (c # d # cs) = (if c = CHR ''x'' then (if d = CHR ''1'' then CHR '':'' else CHR ''x'') # unescape cs else c # unescape (d # cs))"
| "unescape s = s"

lemma unescape_escape: "unescape (escape s) = s"
proof (induction s)
  case (Cons c cs)
  then show ?case by (cases "escape cs") auto
qed simp

lemma escape_no_colon: "CHR '':'' \<notin> set (escape s)"
  by (induction s) auto

lemma unescape_length: "length (unescape s) \<le> length s"
  by (induction s rule: unescape.induct) auto

definition example_crypto :: crypto where
  "example_crypto = \<lparr>sx_decode64 = (\<lambda>s. replicate 32 (if s = [] then CHR ''a'' else hd s)),
     sx_sha256 = (\<lambda>b. if hd b = CHR ''A'' then ''aaaaaaaa'' else ''bbbbbbbb''),
     sx_seal = (\<lambda>k iv p. CHR ''q'' # escape p),
     sx_open = (\<lambda>k s. case s of [] \<Rightarrow> None | c # r \<Rightarrow> Some (unescape r)),
     sx_dev_key = []\<rparr>"

definition old_environment :: environment where
  "old_environment = \<lparr>en_key = Some ''A'', en_previous = None, en_production = True\<rparr>"

definition new_environment :: environment where
  "new_environment = \<lparr>en_key = Some ''B'', en_previous = Some ''A'', en_production = True\<rparr>"

definition new_keys :: keyring where
  "new_keys = (let a = toKey example_crypto (replicate 32 CHR ''A''); b = toKey example_crypto (replicate 32 CHR ''B'')
     in \<lparr>kr_current = b, kr_all = [ky_id b \<mapsto> b, ky_id a \<mapsto> a]\<rparr>)"

definition example_column :: column where
  "example_column = [(1, Some ''legacy''), (2, Some ''enc:v1:aaaaaaaa:qtoken''), (3, None)]"

lemma example_cipher: "cipher_ok example_crypto"
  using unescape_length by (auto simp: cipher_ok_def example_crypto_def unescape_escape escape_no_colon le_imp_less_Suc split: list.splits)

lemma js_trim_letter: "\<not> is_space c \<Longrightarrow> js_trim [c] = [c]"
  by (simp add: js_trim_def)

lemma example_keys: "keys example_crypto new_environment = Inr new_keys"
  by (simp add: keys_def current_key_def new_environment_def parseEncryptionKey_def js_trim_letter is_space_def truthy_def
      example_crypto_def new_keys_def toKey_def Let_def)

lemma example_ring: "kr_all new_keys (ky_id (kr_current new_keys)) = Some (kr_current new_keys)"
  by (simp add: new_keys_def toKey_def example_crypto_def Let_def)

lemma secret_survives_rotation_witness:
  "encryptSecret example_crypto old_environment [] ''a:b'' = Inr ''enc:v1:aaaaaaaa:qax1b'' \<and>
   decryptSecret example_crypto new_environment ''enc:v1:aaaaaaaa:qax1b'' = Inr ''a:b''"
proof
  show e: "encryptSecret example_crypto old_environment [] ''a:b'' = Inr ''enc:v1:aaaaaaaa:qax1b''"
    by (simp add: encryptSecret_def isEncrypted_def PREFIX_def keys_def current_key_def old_environment_def parseEncryptionKey_def
        js_trim_letter is_space_def truthy_def example_crypto_def toKey_def Let_def currentKeyPrefix_def)
  have t: "truthy (en_key old_environment)" "en_previous new_environment = en_key old_environment"
    by (simp_all add: truthy_def old_environment_def new_environment_def)
  have p: "\<not> isEncrypted ''a:b''" by (simp add: isEncrypted_def PREFIX_def)
  show "decryptSecret example_crypto new_environment ''enc:v1:aaaaaaaa:qax1b'' = Inr ''a:b''"
    by (rule secret_survives_rotation [OF example_cipher t(1) e p t(2) example_keys])
qed

lemma backfill_ends_witness:
  "\<exists>col' skipped n. backfillColumn 100 example_crypto new_environment (\<lambda>m i. []) (\<lambda>n col. col) example_column =
     Inr (Some (col', skipped, n)) \<and> map fst col' = [1, 2, 3]"
proof -
  have w: "writes_current new_keys (\<lambda>n col. col)" by (simp add: writes_current_def list_all2_same)
  have "column_weight new_keys [] example_column < 100"
    by (simp add: column_weight_def weight_def example_column_def isEncryptedWithCurrentKey_def)
  from backfill_ends [OF example_cipher example_keys w this, of "\<lambda>m i. []"] show ?thesis
    by (auto simp: example_column_def)
qed

lemma previous_key_can_go_witness:
  "\<exists>col' s'. backfillColumn 2 example_crypto new_environment (\<lambda>m i. []) (\<lambda>n col. col) example_column = Inr (Some (col', [], 2)) \<and>
     (2, Some s') \<in> set col' \<and> decryptSecret example_crypto (new_environment\<lparr>en_previous := None\<rparr>) s' = Inr ''token''"
proof -
  let ?col = "[(1, Some ''enc:v1:bbbbbbbb:qlegacy''), (2, Some ''enc:v1:bbbbbbbb:qtoken''), (3, None)] :: column"
  have run: "backfillColumn 2 example_crypto new_environment (\<lambda>m i. []) (\<lambda>n col. col) example_column = Inr (Some (?col, [], 2))"
    by code_simp
  have reads: "decryptSecret example_crypto new_environment ''enc:v1:aaaaaaaa:qtoken'' = Inr ''token''"
    "decryptSecret example_crypto new_environment ''legacy'' = Inr ''legacy''" by code_simp+
  have plain: "plain_secrets example_crypto new_environment example_column"
    using reads by (auto simp: plain_secrets_def example_column_def isEncrypted_def PREFIX_def)
  have "(2, Some ''enc:v1:aaaaaaaa:qtoken'') \<in> set example_column" by (simp add: example_column_def)
  from previous_key_can_go [OF example_cipher example_keys example_ring plain run this] reads(1) run show ?thesis by auto
qed

end
