(* ===== verification/Offline_Queue.thy ===== *)
theory Offline_Queue
  imports JS_Text
begin

section \<open>Writes made offline, and the replay of requests\<close>

text \<open>
  \<open>common/idempotency\<close> of the API and \<open>apps/web/lib/offline-queue.ts\<close>.  The handler of a route is a
  function on the state \<open>'db\<close>; \<open>sv_applied\<close> counts in order the cache keys of the requests it carried
  out.  The queue is one account's store; the file of an upload is part of the body.  The toast an
  error raises and the change event are left out.
\<close>

subsection \<open>The cache of responses\<close>

record 'r cached_entry =
  ce_result :: 'r
  ce_expiresAt :: date

type_synonym 'r response_cache = "string \<Rightarrow> 'r cached_entry option"

definition ENTRY_TTL_MS :: int where "ENTRY_TTL_MS = 24 * 60 * 60 * 1000"

definition cache_get :: "date \<Rightarrow> string \<Rightarrow> 'r response_cache \<Rightarrow> 'r option" where
  "cache_get now key entries =
     (case entries key of
        None \<Rightarrow> None
      | Some entry \<Rightarrow> if ce_expiresAt entry \<le> now then None else Some (ce_result entry))"

definition cache_set :: "date \<Rightarrow> string \<Rightarrow> 'r \<Rightarrow> 'r response_cache \<Rightarrow> 'r response_cache" where
  "cache_set now key result entries = entries(key \<mapsto> \<lparr>ce_result = result, ce_expiresAt = now + ENTRY_TTL_MS\<rparr>)"

definition cache_sweep :: "date \<Rightarrow> 'r response_cache \<Rightarrow> 'r response_cache" where
  "cache_sweep now entries =
     (\<lambda>key. case entries key of None \<Rightarrow> None
        | Some entry \<Rightarrow> if ce_expiresAt entry \<le> now then None else Some entry)"

subsection \<open>The interceptor\<close>

record request =
  rq_userId :: "string option"
  rq_method :: string
  rq_url :: string
  rq_idempotencyKey :: "string option"
  rq_body :: string

record ('db, 'r) server =
  sv_db :: 'db
  sv_cache :: "'r response_cache"
  sv_applied :: "string list"

type_synonym ('db, 'r) handler = "request \<Rightarrow> 'db \<Rightarrow> (app_error + 'r) \<times> 'db"

definition IDEMPOTENT_METHODS :: "string list" where
  "IDEMPOTENT_METHODS = [''POST'', ''PUT'', ''PATCH'']"

definition cache_key :: "request \<Rightarrow> string \<Rightarrow> string" where
  "cache_key q key =
     (case rq_userId q of None \<Rightarrow> ''anon'' | Some u \<Rightarrow> u) @ '':'' @ rq_method q @ '':'' @ rq_url q @ '':'' @ key"

text \<open>A handler that fails may still have written: an operation of several transactions.\<close>

definition run_handler ::
  "('db, 'r) handler \<Rightarrow> date \<Rightarrow> string option \<Rightarrow> request \<Rightarrow> ('db, 'r) server \<Rightarrow> (app_error + 'r) \<times> ('db, 'r) server" where
  "run_handler handle now cached q s =
     (case handle q (sv_db s) of
        (Inl e, db) \<Rightarrow> (Inl e, s\<lparr>sv_db := db\<rparr>)
      | (Inr r, db) \<Rightarrow>
          (case cached of
             None \<Rightarrow> (Inr r, s\<lparr>sv_db := db\<rparr>)
           | Some key \<Rightarrow> (Inr r, s\<lparr>sv_db := db, sv_cache := cache_set now key r (sv_cache s), sv_applied := sv_applied s @ [key]\<rparr>)))"

definition intercept ::
  "('db, 'r) handler \<Rightarrow> date \<Rightarrow> request \<Rightarrow> ('db, 'r) server \<Rightarrow> (app_error + 'r) \<times> ('db, 'r) server" where
  "intercept handle now q s =
     (case rq_idempotencyKey q of
        None \<Rightarrow> run_handler handle now None q s
      | Some key \<Rightarrow>
          if key = [] \<or> rq_method q \<notin> set IDEMPOTENT_METHODS then run_handler handle now None q s
          else
            (case cache_get now (cache_key q key) (sv_cache s) of
               Some result \<Rightarrow> (Inr result, s)
             | None \<Rightarrow> run_handler handle now (Some (cache_key q key)) q s))"

subsection \<open>The queue of a device\<close>

record queued_mutation =
  qm_id :: uid
  qm_mutationId :: string
  qm_kind :: string
  qm_path :: string
  qm_method :: string
  qm_body :: string
  qm_createdAt :: date
  qm_error :: "string option"

record offline_store =
  of_items :: "queued_mutation list"
  of_next :: uid

text \<open>How a request ends for the client: an answer, a refusal (\<open>ApiError\<close>: any status that is not 2xx), a
  \<open>TypeError\<close> of \<open>fetch\<close>, or another exception (an answer that cannot be read).\<close>

datatype 'r fetched = Data 'r | Api_error string | Network_error string | Other_error string

text \<open>A way to send a mutation: the network and the server behind it are a world \<open>'w\<close>.\<close>

type_synonym ('r, 'w) sender = "queued_mutation \<Rightarrow> 'w \<Rightarrow> 'r fetched \<times> 'w"

definition queueMutation :: "date \<Rightarrow> string \<Rightarrow> string \<Rightarrow> string \<Rightarrow> string \<Rightarrow> string \<Rightarrow> offline_store \<Rightarrow> offline_store" where
  "queueMutation now kind path method body mutationId st =
     st\<lparr>of_items := of_items st @ [\<lparr>qm_id = of_next st, qm_mutationId = mutationId, qm_kind = kind, qm_path = path,
          qm_method = method, qm_body = body, qm_createdAt = now, qm_error = None\<rparr>],
        of_next := Suc (of_next st)\<rparr>"

definition queueFileUpload :: "date \<Rightarrow> string \<Rightarrow> string \<Rightarrow> string \<Rightarrow> string \<Rightarrow> offline_store \<Rightarrow> offline_store" where
  "queueFileUpload now kind path file mutationId = queueMutation now kind path ''POST'' file mutationId"

definition listQueued :: "offline_store \<Rightarrow> queued_mutation list" where
  "listQueued st = sort_key qm_createdAt (of_items st)"

definition removeQueued :: "uid \<Rightarrow> offline_store \<Rightarrow> offline_store" where
  "removeQueued i st = st\<lparr>of_items := filter (\<lambda>m. qm_id m \<noteq> i) (of_items st)\<rparr>"

text \<open>\<open>put\<close> writes the row back, or anew when it has gone.\<close>

definition markFailed :: "queued_mutation \<Rightarrow> string \<Rightarrow> offline_store \<Rightarrow> offline_store" where
  "markFailed item err st =
     st\<lparr>of_items := upsert_row (\<lambda>m. qm_id m = qm_id item) (item\<lparr>qm_error := Some err\<rparr>)
          (\<lambda>_. item\<lparr>qm_error := Some err\<rparr>) (of_items st)\<rparr>"

definition discardQueued :: "uid \<Rightarrow> offline_store \<Rightarrow> offline_store" where
  "discardQueued i = removeQueued i"

definition retryQueued ::
  "('r, 'w) sender \<Rightarrow> uid \<Rightarrow> offline_store \<times> 'w \<Rightarrow> (bool \<times> string option) \<times> offline_store \<times> 'w" where
  "retryQueued send i sw =
     (case sw of (st, w) \<Rightarrow>
        (case find_row (\<lambda>m. qm_id m = i) (listQueued st) of
           None \<Rightarrow> ((False, Some ''Not found''), st, w)
         | Some item \<Rightarrow>
             (case send item w of
                (Data r, w1) \<Rightarrow> ((True, None), removeQueued (qm_id item) st, w1)
              | (Api_error e, w1) \<Rightarrow> ((False, Some e), markFailed item e st, w1)
              | (Network_error e, w1) \<Rightarrow> ((False, Some e), markFailed item e st, w1)
              | (Other_error e, w1) \<Rightarrow> ((False, Some e), markFailed item e st, w1))))"

text \<open>\<open>Some (queued, data)\<close>, or \<open>None\<close> for an exception the user sees.\<close>

definition submitOrQueue ::
  "('r, 'w) sender \<Rightarrow> date \<Rightarrow> string \<Rightarrow> string \<Rightarrow> string \<Rightarrow> string \<Rightarrow> string \<Rightarrow> offline_store \<times> 'w \<Rightarrow>
   (bool \<times> 'r option) option \<times> offline_store \<times> 'w" where
  "submitOrQueue send now kind path method body mutationId sw =
     (case sw of (st, w) \<Rightarrow>
        (let attempt = \<lparr>qm_id = of_next st, qm_mutationId = mutationId, qm_kind = kind, qm_path = path, qm_method = method,
               qm_body = body, qm_createdAt = now, qm_error = None\<rparr>
         in case send attempt w of
              (Data r, w1) \<Rightarrow> (Some (False, Some r), st, w1)
            | (Network_error e, w1) \<Rightarrow> (Some (True, None), queueMutation now kind path method body mutationId st, w1)
            | (Api_error e, w1) \<Rightarrow> (None, st, w1)
            | (Other_error e, w1) \<Rightarrow> (None, st, w1)))"

definition submitOrQueueUpload where
  "submitOrQueueUpload send now kind path file mutationId sw =
     submitOrQueue send now kind path ''POST'' file mutationId sw"

text \<open>The loop of a flush over the items it listed: how many were sent and failed.\<close>

fun flush_loop ::
  "('r, 'w) sender \<Rightarrow> queued_mutation list \<Rightarrow> nat \<times> nat \<Rightarrow> offline_store \<times> 'w \<Rightarrow> (nat \<times> nat) \<times> offline_store \<times> 'w" where
  "flush_loop send [] counts sw = (counts, sw)"
| "flush_loop send (item # items) (flushed, failed) (st, w) =
     (if truthy (qm_error item) then flush_loop send items (flushed, failed + 1) (st, w)
      else
        (case send item w of
           (Data r, w1) \<Rightarrow> flush_loop send items (flushed + 1, failed) (removeQueued (qm_id item) st, w1)
         | (Api_error e, w1) \<Rightarrow> flush_loop send items (flushed, failed + 1) (markFailed item e st, w1)
         | (Network_error e, w1) \<Rightarrow> ((flushed, failed), (st, w1))
         | (Other_error e, w1) \<Rightarrow> ((flushed, failed), (st, w1))))"

definition flushQueue :: "('r, 'w) sender \<Rightarrow> offline_store \<times> 'w \<Rightarrow> (nat \<times> nat \<times> nat) \<times> offline_store \<times> 'w" where
  "flushQueue send sw =
     (case flush_loop send (listQueued (fst sw)) (0, 0) sw of
        ((flushed, failed), (st, w)) \<Rightarrow> ((flushed, failed, length (listQueued st)), (st, w)))"

subsection \<open>The network in between\<close>

text \<open>What becomes of one attempt: it is answered; carried out but the answer is lost, or cannot be read;
  it never arrives; or something in front of the server (a gateway, the throttler) refuses it.  Before
  it the server has served other requests and may have swept its cache.\<close>

datatype fate = Answered | Answer_lost | Answer_garbled | Never_sent | Turned_away string

record ('db, 'r) network =
  nw_server :: "('db, 'r) server"
  nw_fates :: "(date \<times> request list \<times> fate) list"

definition serve_others :: "('db, 'r) handler \<Rightarrow> date \<Rightarrow> request list \<Rightarrow> ('db, 'r) server \<Rightarrow> ('db, 'r) server" where
  "serve_others handle now qs s =
     foldl (\<lambda>s q. snd (intercept handle now q s)) (s\<lparr>sv_cache := cache_sweep now (sv_cache s)\<rparr>) qs"

definition request_of :: "string \<Rightarrow> queued_mutation \<Rightarrow> request" where
  "request_of userId m =
     \<lparr>rq_userId = Some userId, rq_method = qm_method m, rq_url = qm_path m, rq_idempotencyKey = Some (qm_mutationId m),
      rq_body = qm_body m\<rparr>"

text \<open>\<open>apiFetch\<close> of a mutation; \<open>show_error\<close> is the text shown for an exception.\<close>

definition api_send ::
  "('db, 'r) handler \<Rightarrow> (app_error \<Rightarrow> string) \<Rightarrow> string \<Rightarrow> ('r, ('db, 'r) network) sender" where
  "api_send handle show_error userId m nw =
     (case nw_fates nw of
        [] \<Rightarrow> (Network_error ''network'', nw)
      | (now, qs, fate) # fates \<Rightarrow>
          (let before = serve_others handle now qs (nw_server nw);
               away = \<lparr>nw_server = before, nw_fates = fates\<rparr>;
               result = intercept handle now (request_of userId m) before;
               there = \<lparr>nw_server = snd result, nw_fates = fates\<rparr>
           in case fate of
                Never_sent \<Rightarrow> (Network_error ''network'', away)
              | Turned_away e \<Rightarrow> (Api_error e, away)
              | Answer_lost \<Rightarrow> (Network_error ''network'', there)
              | Answered \<Rightarrow> ((case fst result of Inl e \<Rightarrow> Api_error (show_error e) | Inr r \<Rightarrow> Data r), there)
              | Answer_garbled \<Rightarrow>
                  ((case fst result of Inl e \<Rightarrow> Api_error (show_error e) | Inr r \<Rightarrow> Other_error ''json''), there)))"

end
