(* ===== verification/Offline_Laws.thy ===== *)
theory Offline_Laws
  imports Offline_Queue
begin

section \<open>A write made offline is carried out once\<close>

text \<open>
  The queue relies on one thing, the locale \<open>mutation_channel\<close>: a mutation that got an answer has been
  carried out, and none is carried out twice.  The server with its response cache, behind a network
  that loses requests and answers, is such a channel for as long as an entry lives.
\<close>

subsection \<open>The channel\<close>

locale mutation_channel =
  fixes send :: "('r, 'w) sender"
    and key_of :: "queued_mutation \<Rightarrow> string"
    and applied :: "'w \<Rightarrow> string \<Rightarrow> nat"
    and ok :: "'w \<Rightarrow> bool"
    and sendable :: "queued_mutation \<Rightarrow> bool"
  assumes send_ok: "ok w \<Longrightarrow> send m w = (a, w') \<Longrightarrow> ok w'"
    and at_most_once: "ok w \<Longrightarrow> applied w k \<le> 1"
    and applied_mono: "ok w \<Longrightarrow> send m w = (a, w') \<Longrightarrow> applied w k \<le> applied w' k"
    and answered: "ok w \<Longrightarrow> sendable m \<Longrightarrow> send m w = (Data r, w') \<Longrightarrow> 0 < applied w' (key_of m)"
    and key_error: "key_of (m\<lparr>qm_error := e\<rparr>) = key_of m"
    and sendable_error: "sendable (m\<lparr>qm_error := e\<rparr>) = sendable m"
    and key_id: "key_of (m\<lparr>qm_id := i\<rparr>) = key_of m"
    and sendable_id: "sendable (m\<lparr>qm_id := i\<rparr>) = sendable m"

text \<open>A device: its store, the world, and on record what every tab has listed, the writes the app took
  over (\<open>submitOrQueue\<close> returned) and those the user gave up.  Every tab lists, and attempts what it
  listed, at its own pace.\<close>

record 'w device =
  dc_store :: offline_store
  dc_world :: 'w
  dc_listed :: "queued_mutation list"
  dc_accepted :: "string list"
  dc_discarded :: "string list"

definition after_attempt :: "queued_mutation \<Rightarrow> 'r fetched \<Rightarrow> bool \<Rightarrow> offline_store \<Rightarrow> offline_store" where
  "after_attempt m a retried st =
     (case a of
        Data r \<Rightarrow> removeQueued (qm_id m) st
      | Api_error e \<Rightarrow> markFailed m e st
      | Network_error e \<Rightarrow> if retried then markFailed m e st else st
      | Other_error e \<Rightarrow> if retried then markFailed m e st else st)"

definition attempt_of :: "date \<Rightarrow> string \<Rightarrow> string \<Rightarrow> string \<Rightarrow> string \<Rightarrow> string \<Rightarrow> offline_store \<Rightarrow> queued_mutation" where
  "attempt_of now kind path method body mutationId st =
     \<lparr>qm_id = of_next st, qm_mutationId = mutationId, qm_kind = kind, qm_path = path, qm_method = method,
      qm_body = body, qm_createdAt = now, qm_error = None\<rparr>"

inductive device_step ::
  "('r, 'w) sender \<Rightarrow> (queued_mutation \<Rightarrow> string) \<Rightarrow> (queued_mutation \<Rightarrow> bool) \<Rightarrow> 'w device \<Rightarrow> 'w device \<Rightarrow> bool"
  for send key_of sendable where
  submits: "submitOrQueue send now kind path method body mutationId (dc_store s, dc_world s) = (Some x, st, w) \<Longrightarrow>
    attempt_of now kind path method body mutationId (dc_store s) = m \<Longrightarrow> sendable m \<Longrightarrow>
    device_step send key_of sendable s (s\<lparr>dc_store := st, dc_world := w, dc_accepted := key_of m # dc_accepted s\<rparr>)"
| refuses: "submitOrQueue send now kind path method body mutationId (dc_store s, dc_world s) = (None, st, w) \<Longrightarrow>
    device_step send key_of sendable s (s\<lparr>dc_store := st, dc_world := w\<rparr>)"
| lists: "device_step send key_of sendable s (s\<lparr>dc_listed := listQueued (dc_store s) @ dc_listed s\<rparr>)"
| attempts: "m \<in> set (dc_listed s) \<Longrightarrow> send m (dc_world s) = (a, w) \<Longrightarrow>
    device_step send key_of sendable s (s\<lparr>dc_store := after_attempt m a retried (dc_store s), dc_world := w\<rparr>)"
| discards: "device_step send key_of sendable s (s\<lparr>dc_store := discardQueued i (dc_store s),
    dc_discarded := map key_of (filter (\<lambda>m. qm_id m = i) (of_items (dc_store s))) @ dc_discarded s\<rparr>)"

text \<open>A flush and a retry are made of these steps.\<close>

lemma flush_star:
  assumes "set items \<subseteq> set (dc_listed s)" and "flush_loop send items counts (dc_store s, dc_world s) = (counts', st, w)"
  shows "(device_step send key_of sendable)\<^sup>*\<^sup>* s (s\<lparr>dc_store := st, dc_world := w\<rparr>)"
  using assms
proof (induction items arbitrary: counts s)
  case Nil
  then have "s\<lparr>dc_store := st, dc_world := w\<rparr> = s" by simp
  then show ?case by simp
next
  case (Cons item items)
  obtain flushed failed where c: "counts = (flushed, failed)" by fastforce
  show ?case
  proof (cases "truthy (qm_error item)")
    case True
    then show ?thesis using Cons c by simp
  next
    case False
    obtain a w1 where a: "send item (dc_world s) = (a, w1)" by fastforce
    let ?t = "s\<lparr>dc_store := after_attempt item a False (dc_store s), dc_world := w1\<rparr>"
    have one: "device_step send key_of sendable s ?t" using Cons.prems(1) a by (intro attempts) auto
    have "(device_step send key_of sendable)\<^sup>*\<^sup>* ?t (?t\<lparr>dc_store := st, dc_world := w\<rparr>)"
    proof (cases a)
      case (Data r)
      then show ?thesis using Cons.prems False a c
        by (intro Cons.IH [of ?t "(flushed + 1, failed)"]) (simp_all add: after_attempt_def)
    next
      case (Api_error e)
      then show ?thesis using Cons.prems False a c
        by (intro Cons.IH [of ?t "(flushed, failed + 1)"]) (simp_all add: after_attempt_def)
    next
      case (Network_error e)
      then have "?t\<lparr>dc_store := st, dc_world := w\<rparr> = ?t" using Cons.prems False a c by (simp add: after_attempt_def)
      then show ?thesis by simp
    next
      case (Other_error e)
      then have "?t\<lparr>dc_store := st, dc_world := w\<rparr> = ?t" using Cons.prems False a c by (simp add: after_attempt_def)
      then show ?thesis by simp
    qed
    then show ?thesis using one by simp
  qed
qed

lemma flushQueue_star:
  assumes "flushQueue send (dc_store s, dc_world s) = (counts, st, w)"
  shows "(device_step send key_of sendable)\<^sup>*\<^sup>* s
    (s\<lparr>dc_listed := listQueued (dc_store s) @ dc_listed s, dc_store := st, dc_world := w\<rparr>)"
proof -
  let ?t = "s\<lparr>dc_listed := listQueued (dc_store s) @ dc_listed s\<rparr>"
  have "device_step send key_of sendable s ?t" by (rule lists)
  moreover obtain c where "flush_loop send (listQueued (dc_store s)) (0, 0) (dc_store s, dc_world s) = (c, st, w)"
    using assms by (auto simp: flushQueue_def split: prod.splits)
  then have "(device_step send key_of sendable)\<^sup>*\<^sup>* ?t (?t\<lparr>dc_store := st, dc_world := w\<rparr>)"
    by (intro flush_star) auto
  ultimately show ?thesis by (rule converse_rtranclp_into_rtranclp)
qed

text \<open>An id stands for one write for ever, and an accepted write is carried out, queued or given up.\<close>

definition items_ok :: "(queued_mutation \<Rightarrow> string) \<Rightarrow> (queued_mutation \<Rightarrow> bool) \<Rightarrow> nat \<Rightarrow> queued_mutation set \<Rightarrow> bool" where
  "items_ok key_of sendable n M \<longleftrightarrow>
     (\<forall>m \<in> M. qm_id m < n \<and> sendable m) \<and> (\<forall>m \<in> M. \<forall>x \<in> M. qm_id x = qm_id m \<longrightarrow> key_of x = key_of m)"

definition seen :: "'w device \<Rightarrow> queued_mutation set" where
  "seen s = set (of_items (dc_store s)) \<union> set (dc_listed s)"

definition queued_keys :: "(queued_mutation \<Rightarrow> string) \<Rightarrow> offline_store \<Rightarrow> string set" where
  "queued_keys key_of st = key_of ` set (of_items st)"

text \<open>What is known of a set of items is known of one whose items all have a like there.\<close>

lemma items_ok_like:
  assumes "items_ok key_of sendable n M" and "n \<le> n'"
    and "\<And>x. x \<in> M' \<Longrightarrow> \<exists>y \<in> M. qm_id y = qm_id x \<and> key_of y = key_of x \<and> sendable y = sendable x"
  shows "items_ok key_of sendable n' M'"
proof -
  have "qm_id x < n' \<and> sendable x" if x: "x \<in> M'" for x
  proof -
    obtain y where y: "y \<in> M" "qm_id y = qm_id x" "sendable y = sendable x" using assms(3) [OF x] by blast
    then have "qm_id y < n" "sendable y" using assms(1) unfolding items_ok_def by blast+
    then show ?thesis using y assms(2) by simp
  qed
  moreover have "key_of y = key_of x" if xy: "x \<in> M'" "y \<in> M'" "qm_id y = qm_id x" for x y
  proof -
    obtain u where u: "u \<in> M" "qm_id u = qm_id x" "key_of u = key_of x" using assms(3) [OF xy(1)] by blast
    obtain v where v: "v \<in> M" "qm_id v = qm_id y" "key_of v = key_of y" using assms(3) [OF xy(2)] by blast
    have "qm_id v = qm_id u" using u(2) v(2) xy(3) by simp
    then have "key_of v = key_of u" using assms(1) u(1) v(1) unfolding items_ok_def by blast
    then show ?thesis using u v by simp
  qed
  ultimately show ?thesis unfolding items_ok_def by blast
qed

lemma items_ok_subset: "items_ok key_of sendable n M \<Longrightarrow> M' \<subseteq> M \<Longrightarrow> items_ok key_of sendable n M'"
  unfolding items_ok_def by blast

lemma mark_items:
  "x \<in> set (of_items (markFailed m e st)) \<Longrightarrow> x = m\<lparr>qm_error := Some e\<rparr> \<or> x \<in> set (of_items st)"
  by (auto simp: markFailed_def upsert_row_def update_rows_def split: if_splits)

lemma mark_keeps:
  "x \<in> set (of_items st) \<Longrightarrow> x \<in> set (of_items (markFailed m e st)) \<or>
     qm_id x = qm_id m \<and> m\<lparr>qm_error := Some e\<rparr> \<in> set (of_items (markFailed m e st))"
  by (auto simp: markFailed_def upsert_row_def update_rows_def)

lemma mark_next [simp]: "of_next (markFailed m e st) = of_next st"
  by (simp add: markFailed_def)

lemma remove_next [simp]: "of_next (removeQueued i st) = of_next st"
  by (simp add: removeQueued_def)

lemma remove_items [simp]: "set (of_items (removeQueued i st)) = {m \<in> set (of_items st). qm_id m \<noteq> i}"
  by (auto simp: removeQueued_def)

lemma listed_items [simp]: "set (listQueued st) = set (of_items st)"
  by (simp add: listQueued_def)

context mutation_channel
begin

definition device_inv :: "'w device \<Rightarrow> bool" where
  "device_inv s \<longleftrightarrow> ok (dc_world s) \<and> items_ok key_of sendable (of_next (dc_store s)) (seen s) \<and>
     (\<forall>k \<in> set (dc_accepted s). k \<in> queued_keys key_of (dc_store s) \<or> 0 < applied (dc_world s) k \<or> k \<in> set (dc_discarded s))"

lemma device_invI:
  assumes "ok (dc_world s)" and "items_ok key_of sendable (of_next (dc_store s)) (seen s)"
    and "\<And>k. k \<in> set (dc_accepted s) \<Longrightarrow>
      k \<in> queued_keys key_of (dc_store s) \<or> 0 < applied (dc_world s) k \<or> k \<in> set (dc_discarded s)"
  shows "device_inv s"
  using assms by (simp add: device_inv_def)

lemma mark_queued_keys:
  assumes "items_ok key_of sendable n (seen s)" and "m \<in> set (dc_listed s)"
  shows "queued_keys key_of (dc_store s) \<subseteq> queued_keys key_of (markFailed m e (dc_store s))"
proof
  fix k assume "k \<in> queued_keys key_of (dc_store s)"
  then obtain x where x: "x \<in> set (of_items (dc_store s))" "k = key_of x" by (auto simp: queued_keys_def)
  from mark_keeps [OF x(1), of m e] show "k \<in> queued_keys key_of (markFailed m e (dc_store s))"
  proof
    assume same: "qm_id x = qm_id m \<and> m\<lparr>qm_error := Some e\<rparr> \<in> set (of_items (markFailed m e (dc_store s)))"
    then have "key_of x = key_of m" using assms x(1) unfolding items_ok_def seen_def by blast
    then have "k = key_of (m\<lparr>qm_error := Some e\<rparr>)" using x(2) key_error by simp
    with same show ?thesis unfolding queued_keys_def by blast
  qed (use x(2) in \<open>auto simp: queued_keys_def\<close>)
qed

lemma attempts_inv:
  assumes "device_inv s" and "m \<in> set (dc_listed s)" and "send m (dc_world s) = (a, w)"
  shows "device_inv (s\<lparr>dc_store := after_attempt m a retried (dc_store s), dc_world := w\<rparr>)"
proof -
  have ok: "ok (dc_world s)" and items: "items_ok key_of sendable (of_next (dc_store s)) (seen s)"
    and acc: "\<And>k. k \<in> set (dc_accepted s) \<Longrightarrow>
      k \<in> queued_keys key_of (dc_store s) \<or> 0 < applied (dc_world s) k \<or> k \<in> set (dc_discarded s)"
    using assms(1) by (simp_all add: device_inv_def)
  have mono: "0 < applied (dc_world s) k \<Longrightarrow> 0 < applied w k" for k
    using applied_mono [OF ok assms(3), of k] by simp
  let ?st = "after_attempt m a retried (dc_store s)"
  consider (same) "?st = dc_store s" | (marked) e where "?st = markFailed m e (dc_store s)"
    | (removed) r where "?st = removeQueued (qm_id m) (dc_store s)" "a = Data r"
    by (cases a; cases retried) (auto simp: after_attempt_def)
  then show ?thesis
  proof cases
    case same
    then show ?thesis using ok items acc mono send_ok [OF ok assms(3)]
      by (intro device_invI) (auto simp: seen_def)
  next
    case marked
    have "items_ok key_of sendable (of_next (dc_store s)) (set (of_items (markFailed m e (dc_store s))) \<union> set (dc_listed s))"
    proof (rule items_ok_like [OF items order_refl])
      fix x assume x: "x \<in> set (of_items (markFailed m e (dc_store s))) \<union> set (dc_listed s)"
      show "\<exists>y \<in> seen s. qm_id y = qm_id x \<and> key_of y = key_of x \<and> sendable y = sendable x"
      proof (cases "x = m\<lparr>qm_error := Some e\<rparr>")
        case True
        then show ?thesis using assms(2) by (intro bexI [of _ m]) (simp_all add: key_error sendable_error seen_def)
      next
        case False
        then show ?thesis using x mark_items [of x m e "dc_store s"] by (auto simp: seen_def)
      qed
    qed
    then show ?thesis using acc mono send_ok [OF ok assms(3)] mark_queued_keys [OF items assms(2), of e] marked
      by (intro device_invI) (auto simp: seen_def)
  next
    case removed
    have m: "sendable m" using items assms(2) by (auto simp: items_ok_def seen_def)
    have "k \<in> queued_keys key_of (removeQueued (qm_id m) (dc_store s)) \<or> 0 < applied w k \<or> k \<in> set (dc_discarded s)"
      if k: "k \<in> set (dc_accepted s)" for k
    proof (cases "k \<in> queued_keys key_of (dc_store s)")
      case True
      then obtain x where x: "x \<in> set (of_items (dc_store s))" "k = key_of x" by (auto simp: queued_keys_def)
      show ?thesis
      proof (cases "qm_id x = qm_id m")
        case True
        then have "k = key_of m" using x items assms(2) unfolding items_ok_def seen_def by blast
        then show ?thesis using answered [OF ok m] assms(3) removed(2) by simp
      next
        case False
        then show ?thesis using x by (auto simp: queued_keys_def)
      qed
    next
      case False
      then show ?thesis using acc [OF k] mono by blast
    qed
    moreover have "items_ok key_of sendable (of_next (dc_store s)) (set (of_items ?st) \<union> set (dc_listed s))"
      using removed(1) by (intro items_ok_subset [OF items]) (auto simp: seen_def)
    ultimately show ?thesis using removed(1) send_ok [OF ok assms(3)]
      by (intro device_invI) (simp_all add: seen_def)
  qed
qed

lemma device_inv_step: "device_step send key_of sendable s t \<Longrightarrow> device_inv s \<Longrightarrow> device_inv t"
proof (induction rule: device_step.induct)
  case (submits now kind path meth body mutationId s x st w m)
  have inv: "ok (dc_world s)" "items_ok key_of sendable (of_next (dc_store s)) (seen s)"
    "\<And>k. k \<in> set (dc_accepted s) \<Longrightarrow>
      k \<in> queued_keys key_of (dc_store s) \<or> 0 < applied (dc_world s) k \<or> k \<in> set (dc_discarded s)"
    using submits(4) by (simp_all add: device_inv_def)
  obtain a w1 where a: "send m (dc_world s) = (a, w1)" by fastforce
  have m: "m = \<lparr>qm_id = of_next (dc_store s), qm_mutationId = mutationId, qm_kind = kind, qm_path = path, qm_method = meth,
      qm_body = body, qm_createdAt = now, qm_error = None\<rparr>" using submits(2) by (simp add: attempt_of_def)
  have w: "w = w1" and st: "(st = dc_store s \<and> (\<exists>r. a = Data r)) \<or>
      st = (dc_store s)\<lparr>of_items := of_items (dc_store s) @ [m], of_next := Suc (of_next (dc_store s))\<rparr>"
    using submits(1) a by (auto simp: submitOrQueue_def queueMutation_def m Let_def split: fetched.splits)
  have mono: "0 < applied (dc_world s) k \<Longrightarrow> 0 < applied w k" for k
    using applied_mono [OF inv(1) a, of k] w by simp
  from st show ?case
  proof
    assume "st = dc_store s \<and> (\<exists>r. a = Data r)"
    moreover then have "0 < applied w (key_of m)" using answered [OF inv(1) submits(3)] a w by auto
    ultimately show ?thesis using inv mono send_ok [OF inv(1) a] w
      by (intro device_invI) (auto simp: seen_def)
  next
    assume st: "st = (dc_store s)\<lparr>of_items := of_items (dc_store s) @ [m], of_next := Suc (of_next (dc_store s))\<rparr>"
    have "items_ok key_of sendable (Suc (of_next (dc_store s))) (insert m (seen s))"
    proof -
      have new: "qm_id m = of_next (dc_store s)" by (simp add: m)
      have old: "qm_id y < of_next (dc_store s)" "sendable y" if "y \<in> seen s" for y
        using inv(2) that unfolding items_ok_def by blast+
      have "key_of y = key_of z" if "y \<in> seen s" "z \<in> seen s" "qm_id y = qm_id z" for y z
        using inv(2) that unfolding items_ok_def by blast
      moreover have "qm_id y \<noteq> qm_id m" if "y \<in> seen s" for y using old(1) [OF that] new by simp
      ultimately have "\<forall>y \<in> insert m (seen s). \<forall>z \<in> insert m (seen s). qm_id z = qm_id y \<longrightarrow> key_of z = key_of y"
        by (metis insert_iff)
      moreover have "qm_id y < Suc (of_next (dc_store s)) \<and> sendable y" if "y \<in> insert m (seen s)" for y
        using that old [of y] new submits(3) by (cases "y = m") (simp_all add: less_SucI)
      ultimately show ?thesis unfolding items_ok_def by blast
    qed
    then show ?thesis using inv(3) mono send_ok [OF inv(1) a] w st
      by (intro device_invI) (auto simp: seen_def queued_keys_def)
  qed
next
  case (refuses now kind path meth body mutationId s st w)
  have inv: "ok (dc_world s)" "items_ok key_of sendable (of_next (dc_store s)) (seen s)"
    "\<And>k. k \<in> set (dc_accepted s) \<Longrightarrow>
      k \<in> queued_keys key_of (dc_store s) \<or> 0 < applied (dc_world s) k \<or> k \<in> set (dc_discarded s)"
    using refuses(2) by (simp_all add: device_inv_def)
  obtain a m where a: "send m (dc_world s) = (a, w)" and st: "st = dc_store s"
    using refuses(1) by (auto simp: submitOrQueue_def Let_def split: fetched.splits prod.splits)
  have "0 < applied (dc_world s) k \<Longrightarrow> 0 < applied w k" for k using applied_mono [OF inv(1) a, of k] by simp
  then show ?case using inv send_ok [OF inv(1) a] st by (intro device_invI) (auto simp: seen_def)
next
  case (lists s)
  have "seen (s\<lparr>dc_listed := listQueued (dc_store s) @ dc_listed s\<rparr>) = seen s" by (auto simp: seen_def)
  then show ?case using lists by (simp add: device_inv_def)
next
  case (attempts m s a w retried)
  then show ?case by (intro attempts_inv)
next
  case (discards s i)
  let ?t = "s\<lparr>dc_store := discardQueued i (dc_store s),
    dc_discarded := map key_of (filter (\<lambda>m. qm_id m = i) (of_items (dc_store s))) @ dc_discarded s\<rparr>"
  have inv: "ok (dc_world s)" "items_ok key_of sendable (of_next (dc_store s)) (seen s)"
    "\<And>k. k \<in> set (dc_accepted s) \<Longrightarrow>
      k \<in> queued_keys key_of (dc_store s) \<or> 0 < applied (dc_world s) k \<or> k \<in> set (dc_discarded s)"
    using discards by (simp_all add: device_inv_def)
  show ?case
  proof (rule device_invI)
    show "items_ok key_of sendable (of_next (dc_store ?t)) (seen ?t)"
      using items_ok_subset [OF inv(2), of "seen ?t"] by (auto simp: seen_def discardQueued_def)
    show "k \<in> queued_keys key_of (dc_store ?t) \<or> 0 < applied (dc_world ?t) k \<or> k \<in> set (dc_discarded ?t)"
      if "k \<in> set (dc_accepted ?t)" for k
      using inv(3) [of k] that by (auto simp: queued_keys_def discardQueued_def)
  qed (simp add: inv)
qed

lemma accepted_write_kept:
  assumes "device_inv s" and "(device_step send key_of sendable)\<^sup>*\<^sup>* s t" and "k \<in> set (dc_accepted t)"
  shows "applied (dc_world t) k \<le> 1"
    and "k \<in> queued_keys key_of (dc_store t) \<or> k \<in> set (dc_discarded t) \<or> applied (dc_world t) k = 1"
proof -
  have "device_inv t" using assms(2,1) by (induction rule: rtranclp_induct) (auto intro: device_inv_step)
  then show "applied (dc_world t) k \<le> 1"
    and "k \<in> queued_keys key_of (dc_store t) \<or> k \<in> set (dc_discarded t) \<or> applied (dc_world t) k = 1"
    using assms(3) at_most_once [of "dc_world t" k] unfolding device_inv_def by (blast, fastforce)
qed

end

subsection \<open>The server behind a lossy network is a channel\<close>

text \<open>Until \<open>until_time\<close> no entry expires: what was carried out is cached, once.\<close>

definition server_ok :: "date \<Rightarrow> ('db, 'r) server \<Rightarrow> bool" where
  "server_ok until_time s \<longleftrightarrow>
     (\<forall>k. count_list (sv_applied s) k \<le> 1 \<and> (k \<in> set (sv_applied s) \<longleftrightarrow> sv_cache s k \<noteq> None) \<and>
        (\<forall>e. sv_cache s k = Some e \<longrightarrow> until_time \<le> ce_expiresAt e))"

definition network_ok :: "date \<Rightarrow> ('db, 'r) network \<Rightarrow> bool" where
  "network_ok until_time nw \<longleftrightarrow> server_ok until_time (nw_server nw) \<and>
     list_all (\<lambda>(now, _). until_time - ENTRY_TTL_MS \<le> now \<and> now < until_time) (nw_fates nw)"

definition mutation_ok :: "queued_mutation \<Rightarrow> bool" where
  "mutation_ok m \<longleftrightarrow> (qm_method m = ''POST'' \<or> qm_method m = ''PATCH'') \<and> qm_mutationId m \<noteq> []"

definition mutation_key :: "string \<Rightarrow> queued_mutation \<Rightarrow> string" where
  "mutation_key userId m = cache_key (request_of userId m) (qm_mutationId m)"

definition times_applied :: "('db, 'r) network \<Rightarrow> string \<Rightarrow> nat" where
  "times_applied nw k = count_list (sv_applied (nw_server nw)) k"

lemma run_cached_ok:
  assumes "server_ok T s" and "cache_get now k (sv_cache s) = None" and "T - ENTRY_TTL_MS \<le> now" and "now < T"
    and "run_handler handle now (Some k) q s = (a, s')"
  shows "server_ok T s' \<and> (\<forall>j. count_list (sv_applied s) j \<le> count_list (sv_applied s') j) \<and>
    (\<not> isl a \<longrightarrow> k \<in> set (sv_applied s'))"
proof -
  obtain r db where h: "handle q (sv_db s) = (r, db)" by fastforce
  show ?thesis
  proof (cases r)
    case (Inl e)
    then show ?thesis using assms(1,5) h by (auto simp: run_handler_def server_ok_def)
  next
    case (Inr x)
    then have s': "s' = s\<lparr>sv_db := db, sv_cache := cache_set now k x (sv_cache s), sv_applied := sv_applied s @ [k]\<rparr>"
      using assms(5) h by (simp add: run_handler_def)
    have "sv_cache s k = None"
    proof (cases "sv_cache s k")
      case (Some e)
      then have "T \<le> ce_expiresAt e" using assms(1) by (simp add: server_ok_def)
      then show ?thesis using assms(2,4) Some by (simp add: cache_get_def)
    qed simp
    then have "k \<notin> set (sv_applied s)" using assms(1) by (simp add: server_ok_def)
    then show ?thesis using assms(1,3) by (auto simp: s' server_ok_def cache_set_def)
  qed
qed

lemma run_plain_ok:
  "server_ok T s \<Longrightarrow> run_handler handle now None q s = (a, s') \<Longrightarrow> server_ok T s' \<and> sv_applied s' = sv_applied s"
  by (auto simp: run_handler_def server_ok_def split: sum.splits prod.splits)

lemma intercept_ok:
  assumes "server_ok T s" and "T - ENTRY_TTL_MS \<le> now" and "now < T" and "intercept handle now q s = (a, s')"
  shows "server_ok T s'" and "count_list (sv_applied s) j \<le> count_list (sv_applied s') j"
    and "rq_idempotencyKey q = Some key \<Longrightarrow> key \<noteq> [] \<Longrightarrow> rq_method q \<in> set IDEMPOTENT_METHODS \<Longrightarrow> \<not> isl a \<Longrightarrow>
      cache_key q key \<in> set (sv_applied s')"
proof -
  consider (plain) "run_handler handle now None q s = (a, s')"
      "\<not> (\<exists>key. rq_idempotencyKey q = Some key \<and> key \<noteq> [] \<and> rq_method q \<in> set IDEMPOTENT_METHODS)"
    | (hit) key0 r where "rq_idempotencyKey q = Some key0" "cache_get now (cache_key q key0) (sv_cache s) = Some r" "s' = s"
    | (miss) key0 where "rq_idempotencyKey q = Some key0" "cache_get now (cache_key q key0) (sv_cache s) = None"
        "run_handler handle now (Some (cache_key q key0)) q s = (a, s')"
  proof (cases "rq_idempotencyKey q")
    case None
    then show ?thesis using assms(4) that(1) by (simp add: intercept_def)
  next
    case (Some key0)
    show ?thesis
    proof (cases "key0 = [] \<or> rq_method q \<notin> set IDEMPOTENT_METHODS")
      case True
      then show ?thesis using assms(4) Some by (intro that(1)) (auto simp: intercept_def)
    next
      case False
      then show ?thesis using assms(4) Some
        by (cases "cache_get now (cache_key q key0) (sv_cache s)") (auto simp: intercept_def intro: that(2,3))
    qed
  qed
  then have "server_ok T s' \<and> (\<forall>j. count_list (sv_applied s) j \<le> count_list (sv_applied s') j) \<and>
      (\<forall>key. rq_idempotencyKey q = Some key \<and> key \<noteq> [] \<and> rq_method q \<in> set IDEMPOTENT_METHODS \<and> \<not> isl a \<longrightarrow>
        cache_key q key \<in> set (sv_applied s'))"
  proof cases
    case plain
    then show ?thesis using run_plain_ok [OF assms(1) plain(1)] by auto
  next
    case hit
    then have "sv_cache s (cache_key q key0) \<noteq> None" by (auto simp: cache_get_def split: option.splits)
    then show ?thesis using hit assms(1) by (auto simp: server_ok_def)
  next
    case miss
    then show ?thesis using run_cached_ok [OF assms(1) miss(2) assms(2,3) miss(3)] by auto
  qed
  then show "server_ok T s'" "count_list (sv_applied s) j \<le> count_list (sv_applied s') j"
    "rq_idempotencyKey q = Some key \<Longrightarrow> key \<noteq> [] \<Longrightarrow> rq_method q \<in> set IDEMPOTENT_METHODS \<Longrightarrow> \<not> isl a \<Longrightarrow>
      cache_key q key \<in> set (sv_applied s')" by blast+
qed

lemma sweep_ok:
  assumes "server_ok T s" and "now < T"
  shows "s\<lparr>sv_cache := cache_sweep now (sv_cache s)\<rparr> = s"
proof -
  have "cache_sweep now (sv_cache s) k = sv_cache s k" for k
  proof (cases "sv_cache s k")
    case (Some e)
    then have "T \<le> ce_expiresAt e" using assms(1) by (simp add: server_ok_def)
    then show ?thesis using Some assms(2) by (simp add: cache_sweep_def)
  qed (simp add: cache_sweep_def)
  then have "cache_sweep now (sv_cache s) = sv_cache s" by blast
  then show ?thesis by simp
qed

lemma others_ok:
  assumes "server_ok T s" and "T - ENTRY_TTL_MS \<le> now" and "now < T"
  shows "server_ok T (serve_others handle now qs s) \<and>
    (\<forall>j. count_list (sv_applied s) j \<le> count_list (sv_applied (serve_others handle now qs s)) j)"
proof -
  have "server_ok T (foldl (\<lambda>s q. snd (intercept handle now q s)) s qs) \<and>
      (\<forall>j. count_list (sv_applied s) j \<le> count_list (sv_applied (foldl (\<lambda>s q. snd (intercept handle now q s)) s qs)) j)"
    using assms(1)
  proof (induction qs arbitrary: s)
    case (Cons q qs)
    obtain a s1 where i: "intercept handle now q s = (a, s1)" by fastforce
    note one = intercept_ok(1,2) [OF Cons.prems assms(2,3) i]
    from Cons.IH [OF one(1)] one(2) i show ?case by (auto intro: le_trans)
  qed simp
  then show ?thesis using sweep_ok [OF assms(1,3)] by (simp add: serve_others_def)
qed

lemma api_send_ok:
  assumes "network_ok T nw" and "api_send handle show_error userId m nw = (a, nw')"
  shows "network_ok T nw'" and "times_applied nw k \<le> times_applied nw' k"
    and "mutation_ok m \<Longrightarrow> a = Data r \<Longrightarrow> 0 < times_applied nw' (mutation_key userId m)"
proof -
  have "network_ok T nw' \<and> (\<forall>k. times_applied nw k \<le> times_applied nw' k) \<and>
      (mutation_ok m \<and> (\<exists>r. a = Data r) \<longrightarrow> 0 < times_applied nw' (mutation_key userId m))"
  proof (cases "nw_fates nw")
    case Nil
    then show ?thesis using assms by (auto simp: api_send_def)
  next
    case (Cons e fates)
    obtain now qs fate where e: "e = (now, qs, fate)" by (metis prod_cases3)
    let ?before = "serve_others handle now qs (nw_server nw)"
    obtain answer s' where i: "intercept handle now (request_of userId m) ?before = (answer, s')" by fastforce
    have s: "server_ok T (nw_server nw)" and t: "T - ENTRY_TTL_MS \<le> now" "now < T"
      and rest: "list_all (\<lambda>(now, _). T - ENTRY_TTL_MS \<le> now \<and> now < T) fates"
      using assms(1) Cons e by (auto simp: network_ok_def)
    note o = others_ok [OF s t, of handle qs]
    then have b: "server_ok T ?before" by blast
    note step = intercept_ok [OF b t i]
    have le: "count_list (sv_applied (nw_server nw)) k \<le> count_list (sv_applied s') k" for k
      using o step(2) [of k] by (meson le_trans)
    have key: "0 < count_list (sv_applied s') (mutation_key userId m)" if "mutation_ok m" "\<not> isl answer"
    proof -
      have "mutation_key userId m \<in> set (sv_applied s')"
        using step(3) [of "qm_mutationId m"] that
        by (auto simp: mutation_ok_def mutation_key_def request_of_def IDEMPOTENT_METHODS_def)
      then show ?thesis by (metis count_list_0_iff neq0_conv)
    qed
    consider (away) "nw' = \<lparr>nw_server = ?before, nw_fates = fates\<rparr>" "\<not> (\<exists>r. a = Data r)"
      | (there) "nw' = \<lparr>nw_server = s', nw_fates = fates\<rparr>" "(\<exists>r. a = Data r) \<longrightarrow> \<not> isl answer"
      using assms(2) Cons e i by (cases fate; cases answer) (auto simp: api_send_def Let_def)
    then show ?thesis
    proof cases
      case away
      then show ?thesis using o b rest by (simp add: network_ok_def times_applied_def)
    next
      case there
      then show ?thesis using step(1) rest le key by (auto simp: network_ok_def times_applied_def)
    qed
  qed
  then show "network_ok T nw'" "times_applied nw k \<le> times_applied nw' k"
    "mutation_ok m \<Longrightarrow> a = Data r \<Longrightarrow> 0 < times_applied nw' (mutation_key userId m)" by blast+
qed

lemma mutation_fields:
  "mutation_key userId (m\<lparr>qm_error := e\<rparr>) = mutation_key userId m" "mutation_ok (m\<lparr>qm_error := e\<rparr>) = mutation_ok m"
  "mutation_key userId (m\<lparr>qm_id := i\<rparr>) = mutation_key userId m" "mutation_ok (m\<lparr>qm_id := i\<rparr>) = mutation_ok m"
  by (simp_all add: mutation_key_def mutation_ok_def cache_key_def request_of_def)

lemma times_at_most_one: "network_ok T nw \<Longrightarrow> times_applied nw k \<le> 1"
  by (simp add: network_ok_def server_ok_def times_applied_def)

interpretation replayed: mutation_channel "api_send (handle :: ('db, 'r) handler) show_error userId" "mutation_key userId" times_applied "network_ok until_time"
    mutation_ok for handle show_error userId until_time
proof unfold_locales
  fix w w' :: "('db, 'r) network" and m and a :: "'r fetched" and k and r :: 'r and e i
  show "network_ok until_time w \<Longrightarrow> api_send handle show_error userId m w = (a, w') \<Longrightarrow> network_ok until_time w'"
    by (rule api_send_ok(1))
  show "network_ok until_time w \<Longrightarrow> times_applied w k \<le> 1" by (rule times_at_most_one)
  show "network_ok until_time w \<Longrightarrow> api_send handle show_error userId m w = (a, w') \<Longrightarrow> times_applied w k \<le> times_applied w' k"
    by (rule api_send_ok(2))
  show "network_ok until_time w \<Longrightarrow> mutation_ok m \<Longrightarrow> api_send handle show_error userId m w = (Data r, w') \<Longrightarrow>
      0 < times_applied w' (mutation_key userId m)"
    by (rule api_send_ok(3) [OF _ _ _ refl])
qed (rule mutation_fields)+


subsection \<open>Examples\<close>

definition count_handler :: "(nat, unit) handler" where
  "count_handler q db = (Inr (), Suc db)"

definition example_server :: "(nat, unit) server" where
  "example_server = \<lparr>sv_db = 0, sv_cache = \<lambda>k. None, sv_applied = []\<rparr>"

definition example_device :: "(date \<times> request list \<times> fate) list \<Rightarrow> (nat, unit) network device" where
  "example_device fates = \<lparr>dc_store = \<lparr>of_items = [], of_next = 1\<rparr>, dc_world = \<lparr>nw_server = example_server, nw_fates = fates\<rparr>,
     dc_listed = [], dc_accepted = [], dc_discarded = []\<rparr>"

abbreviation example_send :: "(unit, (nat, unit) network) sender" where
  "example_send \<equiv> api_send count_handler (\<lambda>e. []) ''u''"

definition example_write :: "offline_store \<times> (nat, unit) network \<Rightarrow> (bool \<times> unit option) option \<times> offline_store \<times> (nat, unit) network" where
  "example_write = submitOrQueue example_send 0 ''log'' ''/logs'' ''POST'' ''b'' ''m1''"

lemmas offline_defs = example_write_def submitOrQueue_def api_send_def serve_others_def intercept_def run_handler_def cache_get_def
  cache_set_def cache_sweep_def request_of_def cache_key_def IDEMPOTENT_METHODS_def count_handler_def ENTRY_TTL_MS_def
  queueMutation_def flushQueue_def listQueued_def removeQueued_def markFailed_def truthy_def example_device_def example_server_def


text \<open>Two attempts with the same key that overlap both find no cached answer, and both are carried out: the
  cache is filled when a request ends.\<close>

lemma overlapping_attempts_both_run:
  "(let q = request_of ''u'' (attempt_of 0 ''log'' ''/logs'' ''POST'' ''b'' ''m1'' \<lparr>of_items = [], of_next = 1\<rparr>);
        k = cache_key q ''m1''; looked = cache_get 1 k (sv_cache example_server);
        s1 = snd (run_handler count_handler 1 (Some k) q example_server);
        s2 = snd (run_handler count_handler 2 (Some k) q s1)
    in looked = None \<and> sv_db s2 = 2)"
  by (simp add: offline_defs Let_def)

text \<open>A gateway that is down for a moment answers with a status, which is an \<open>ApiError\<close>: the write is marked
  as refused by the server and later flushes leave it alone.\<close>

lemma outage_marks_write_refused:
  "(let d = example_device [(1, [], Never_sent), (2, [], Turned_away ''502''), (3, [], Answered)];
        (r, st, w) = example_write (dc_store d, dc_world d); (c1, st1, w1) = flushQueue example_send (st, w);
        (c2, st2, w2) = flushQueue example_send (st1, w1)
    in r = Some (True, None) \<and> c2 = (0, 1, 1) \<and> map qm_error (of_items st2) = [Some ''502''] \<and> sv_db (nw_server w2) = 0)"
  by (simp add: offline_defs Let_def upsert_row_def update_rows_def)

end
