(* ===== verification/Worker_Fields.thy ===== *)
theory Worker_Fields
  imports Prelude
begin

section \<open>Pay and personal details in a response\<close>

text \<open>
  \<open>common/permissions/worker-fields.interceptor.ts\<close>.  A response is a tree: an array, a plain object, an
  object of a class (which the walk leaves alone) or a scalar.  An object reached twice is walked once
  in the code and in two copies here, with the same outcome.
\<close>

datatype json =
    JNull
  | JBool bool
  | JNum number
  | JText string
  | JInstance string
  | JList "json list"
  | JObject "(string \<times> json) list"

definition WORKER_ONLY :: "string list" where
  "WORKER_ONLY = [''hourlyCost'', ''ptoBalanceHours'', ''payrollEmployeeId'', ''wageClassificationId'', ''isApprentice'', ''hasClockInPin'']"

definition RATE_FIELDS :: "string list" where
  "RATE_FIELDS = [''hourlyCost'', ''hourlyCostSnapshot'']"

definition CONTACT_FIELDS :: "string list" where
  "CONTACT_FIELDS = [''phone'', ''payrollEmployeeId'', ''ptoBalanceHours'']"

definition is_worker :: "(string \<times> json) list \<Rightarrow> bool" where
  "is_worker obj = list_ex (\<lambda>k. k \<in> fst ` set obj) WORKER_ONLY"

definition deleted :: "bool \<Rightarrow> bool \<Rightarrow> (string \<times> json) list \<Rightarrow> string \<Rightarrow> bool" where
  "deleted hideRates hideContacts obj k \<longleftrightarrow>
     hideRates \<and> k \<in> set RATE_FIELDS \<or> hideContacts \<and> is_worker obj \<and> k \<in> set CONTACT_FIELDS"

function (sequential) redactWorkerFields :: "bool \<Rightarrow> bool \<Rightarrow> json \<Rightarrow> json" where
  "redactWorkerFields hideRates hideContacts (JList items) = JList (map (redactWorkerFields hideRates hideContacts) items)"
| "redactWorkerFields hideRates hideContacts (JObject obj) =
     JObject (map (\<lambda>(k, v). (k, redactWorkerFields hideRates hideContacts v))
       (filter (\<lambda>(k, v). \<not> deleted hideRates hideContacts obj k) obj))"
| "redactWorkerFields hideRates hideContacts value = value"
  by pat_completeness auto

lemma size_field: "(k, v) \<in> set obj \<Longrightarrow> size v < Suc (size_list (size_prod (\<lambda>_. 0) size) obj)"
  by (induction obj) (auto simp: less_SucI)

termination redactWorkerFields
  by (relation "measure (\<lambda>(r, c, v). size v)") (auto dest: size_field simp: less_Suc_eq_le size_list_estimation')

text \<open>\<open>permissions\<close> are the user's, and \<open>None\<close> is a public route or an internal call.\<close>

definition worker_fields_interceptor :: "string list option \<Rightarrow> json \<Rightarrow> json" where
  "worker_fields_interceptor permissions body =
     (case permissions of
        None \<Rightarrow> body
      | Some ps \<Rightarrow>
          (let hideRates = ''people.rates'' \<notin> set ps; hideContacts = ''people.contacts'' \<notin> set ps
           in if \<not> hideRates \<and> \<not> hideContacts then body else redactWorkerFields hideRates hideContacts body))"

subsection \<open>What a response shows\<close>

text \<open>Some object of the response, however deep, has the property.\<close>

inductive somewhere :: "((string \<times> json) list \<Rightarrow> bool) \<Rightarrow> json \<Rightarrow> bool" for P where
  here: "P obj \<Longrightarrow> somewhere P (JObject obj)"
| in_list: "v \<in> set items \<Longrightarrow> somewhere P v \<Longrightarrow> somewhere P (JList items)"
| in_field: "(k, v) \<in> set obj \<Longrightarrow> somewhere P v \<Longrightarrow> somewhere P (JObject obj)"

inductive_cases somewhere_listE: "somewhere P (JList items)"
inductive_cases somewhere_objectE: "somewhere P (JObject obj)"
inductive_simps somewhere_scalar: "somewhere P JNull" "somewhere P (JBool b)" "somewhere P (JNum n)" "somewhere P (JText s)"
  "somewhere P (JInstance s)"

definition shows_pay :: "(string \<times> json) list \<Rightarrow> bool" where
  "shows_pay obj = list_ex (\<lambda>(k, v). k \<in> set RATE_FIELDS) obj"

definition shows_contact :: "(string \<times> json) list \<Rightarrow> bool" where
  "shows_contact obj \<longleftrightarrow> is_worker obj \<and> list_ex (\<lambda>(k, v). k \<in> set CONTACT_FIELDS) obj"

text \<open>A property of objects that redaction takes from every object is gone from the whole response.\<close>

lemma redact_everywhere:
  assumes "\<And>obj f. \<not> P (map (\<lambda>(k, v). (k, f v)) (filter (\<lambda>(k, v). \<not> deleted hr hc obj k) obj))"
  shows "\<not> somewhere P (redactWorkerFields hr hc body)"
  using assms
proof (induction hr hc body rule: redactWorkerFields.induct)
  case (1 hr hc items)
  then show ?case by (auto elim!: somewhere_listE)
next
  case (2 hr hc obj)
  show ?case
  proof
    assume "somewhere P (redactWorkerFields hr hc (JObject obj))"
    then show False
      using 2 by (auto elim!: somewhere_objectE)
  qed
qed (simp_all add: somewhere_scalar)

lemma map_of_kept:
  "map_of (map (\<lambda>(k, v). (k, f v)) (filter (\<lambda>(k, v). \<not> d k) obj)) k = (if d k then None else map_option f (map_of obj k))"
  by (induction obj) auto

lemma kept_keys: "(k, v) \<in> set (map (\<lambda>(k, v). (k, f v)) (filter (\<lambda>(k, v). \<not> d k) obj)) \<Longrightarrow> \<not> d k \<and> k \<in> fst ` set obj"
  by force

lemma pay_hidden: "\<not> somewhere shows_pay (redactWorkerFields True hc body)"
  by (rule redact_everywhere) (auto simp: shows_pay_def deleted_def list_ex_iff)

text \<open>An object that is still a worker was one before, so its contacts were taken out.\<close>

lemma contacts_hidden: "\<not> somewhere shows_contact (redactWorkerFields hr True body)"
proof (rule redact_everywhere, rule notI)
  fix obj :: "(string \<times> json) list" and f :: "json \<Rightarrow> json"
  let ?left = "map (\<lambda>(k, v). (k, f v)) (filter (\<lambda>(k, v). \<not> deleted hr True obj k) obj)"
  assume a: "shows_contact ?left"
  then have worker: "is_worker ?left" and contact: "list_ex (\<lambda>(k, v). k \<in> set CONTACT_FIELDS) ?left"
    by (simp_all only: shows_contact_def)
  have keys: "fst ` set ?left \<subseteq> fst ` set obj" by force
  have "is_worker obj" using worker keys unfolding is_worker_def list_ex_iff by blast
  moreover obtain k v where "(k, v) \<in> set ?left" "k \<in> set CONTACT_FIELDS" using contact unfolding list_ex_iff by blast
  ultimately show False using kept_keys [of k v f "deleted hr True obj" obj] by (simp add: deleted_def)
qed

subsection \<open>What is left\<close>

datatype path_step = Item nat | Field string

fun at_path :: "path_step list \<Rightarrow> json \<Rightarrow> json option" where
  "at_path [] v = Some v"
| "at_path (Item n # p) (JList items) = (if n < length items then at_path p (items ! n) else None)"
| "at_path (Field k # p) (JObject obj) = (case map_of obj k of None \<Rightarrow> None | Some v \<Rightarrow> at_path p v)"
| "at_path (s # p) v = None"

text \<open>The path passes a field that is taken out.\<close>

fun hidden_on_path :: "bool \<Rightarrow> bool \<Rightarrow> path_step list \<Rightarrow> json \<Rightarrow> bool" where
  "hidden_on_path hr hc (Item n # p) (JList items) \<longleftrightarrow> n < length items \<and> hidden_on_path hr hc p (items ! n)"
| "hidden_on_path hr hc (Field k # p) (JObject obj) \<longleftrightarrow>
     deleted hr hc obj k \<or> (case map_of obj k of None \<Rightarrow> False | Some v \<Rightarrow> hidden_on_path hr hc p v)"
| "hidden_on_path hr hc p v \<longleftrightarrow> False"

lemma redact_at_path:
  "at_path p (redactWorkerFields hr hc v) =
     (if hidden_on_path hr hc p v then None else map_option (redactWorkerFields hr hc) (at_path p v))"
proof (induction p v rule: at_path.induct)
  case (3 k p obj)
  then show ?case by (auto simp: map_of_kept split: option.split)
qed auto


text \<open>A time entry with its worker, and a client's phone number that stays.\<close>

definition example_entry :: json where
  "example_entry = JList [JObject [(''hours'', JNum 8), (''hourlyCostSnapshot'', JText ''42''),
     (''worker'', JObject [(''name'', JText ''Anna''), (''hourlyCost'', JText ''42''), (''phone'', JText ''1'')]),
     (''client'', JObject [(''phone'', JText ''2'')])]]"


end
