(* ===== verification/Request_Guards.thy ===== *)
theory Request_Guards
  imports Accounts Net_Addresses
begin

section \<open>Who may call a route\<close>

text \<open>
  \<open>common/guards/roles.guard.ts\<close>, \<open>subscription.guard.ts\<close>, \<open>api-key.guard.ts\<close>, the decorators they read,
  \<open>company/api-keys.service.ts\<close> and \<open>common/permissions/self-scope.service.ts\<close>.  A route's decorators are
  the marks of its handler and of its controller; \<open>sha256\<close> is a parameter.
\<close>

subsection \<open>Marks\<close>

datatype requirement = Needs permission | Needs_for permission permission

record marks =
  mk_public :: bool
  mk_skipSubscription :: bool
  mk_openToAllRoles :: "string option"
  mk_requires :: "requirement option"
  mk_roles :: "membership_role list option"
  mk_scope :: "string option"

type_synonym route = "marks \<times> marks"

text \<open>\<open>getAllAndOverride\<close>: the handler's mark, or else the controller's.\<close>

definition override :: "(marks \<Rightarrow> 'a option) \<Rightarrow> route \<Rightarrow> 'a option" where
  "override f r = (case f (fst r) of Some x \<Rightarrow> Some x | None \<Rightarrow> f (snd r))"

definition marked :: "(marks \<Rightarrow> bool) \<Rightarrow> route \<Rightarrow> bool" where
  "marked f r \<longleftrightarrow> f (fst r) \<or> f (snd r)"

definition to_upper :: "string \<Rightarrow> string" where
  "to_upper s = map (\<lambda>c. let n = of_char c :: nat in if 97 \<le> n \<and> n \<le> 122 then char_of (n - 32) else c) s"

definition permissionFor :: "requirement \<Rightarrow> string \<Rightarrow> permission" where
  "permissionFor requirement method =
     (case requirement of
        Needs p \<Rightarrow> p
      | Needs_for r w \<Rightarrow> if to_upper method = ''GET'' \<or> to_upper method = ''HEAD'' then r else w)"

subsection \<open>Roles\<close>

fun role_text :: "membership_role \<Rightarrow> string" where
  "role_text Owner = ''owner''"
| "role_text Admin = ''admin''"
| "role_text Estimator = ''estimator''"
| "role_text Foreman = ''foreman''"
| "role_text Accountant = ''accountant''"
| "role_text Worker = ''worker''"

fun comma_roles :: "membership_role list \<Rightarrow> string" where
  "comma_roles [] = []"
| "comma_roles [r] = role_text r"
| "comma_roles (r # s # rs) = role_text r @ '', '' @ comma_roles (s # rs)"

text \<open>A guard that returns false is a \<open>Forbidden resource\<close> of the framework.\<close>

definition FORBIDDEN_RESOURCE :: app_error where
  "FORBIDDEN_RESOURCE = ForbiddenException (msg ''Forbidden resource'')"

definition check_requirement :: "route \<Rightarrow> auth_user option \<Rightarrow> string \<Rightarrow> app_error + unit" where
  "check_requirement r user method =
     (case override mk_requires r of
        None \<Rightarrow> Inr ()
      | Some requirement \<Rightarrow>
          (case user of
             None \<Rightarrow> Inl FORBIDDEN_RESOURCE
           | Some u \<Rightarrow>
               (let needed = permissionFor requirement method
                in if needed \<in> set (case au_permissions u of None \<Rightarrow> [] | Some ps \<Rightarrow> ps) then Inr ()
                   else Inl (ForbiddenException [Str ''Requires the '', Str (quoted needed), Str '' permission'']))))"

definition check_roles :: "route \<Rightarrow> auth_user option \<Rightarrow> app_error + unit" where
  "check_roles r user =
     (case override mk_roles r of
        None \<Rightarrow> Inr ()
      | Some requiredRoles \<Rightarrow>
          if requiredRoles = [] then Inr ()
          else
            (case user of
               None \<Rightarrow> Inl FORBIDDEN_RESOURCE
             | Some u \<Rightarrow>
                 if au_role u \<in> set requiredRoles \<or>
                    list_ex (\<lambda>x. x \<in> set requiredRoles) (case au_additionalRoles u of None \<Rightarrow> [] | Some l \<Rightarrow> l)
                 then Inr ()
                 else Inl (ForbiddenException [Str ''Requires one of these roles: '', Str (comma_roles requiredRoles)])))"

definition roles_guard :: "route \<Rightarrow> auth_user option \<Rightarrow> string \<Rightarrow> app_error + unit" where
  "roles_guard r user method =
     (if marked mk_public r then Inr ()
      else if truthy (mk_openToAllRoles (fst r)) then Inr ()
      else (case check_requirement r user method of Inl e \<Rightarrow> Inl e | Inr _ \<Rightarrow> check_roles r user))"

subsection \<open>Subscription\<close>

datatype subscription_status = Incomplete | Active | Past_due | Canceled

text \<open>The payment error is status 402.\<close>

definition PAYMENT_REQUIRED :: app_error where
  "PAYMENT_REQUIRED = PlainError (msg ''Subscription is not active - complete checkout to unlock the account'')"

definition subscription_guard :: "route \<Rightarrow> auth_user option \<Rightarrow> (uid \<Rightarrow> subscription_status option) \<Rightarrow> app_error + unit" where
  "subscription_guard r user subscription_of =
     (if marked mk_public r \<or> marked mk_skipSubscription r then Inr ()
      else
        (case user of
           None \<Rightarrow> Inr ()
         | Some u \<Rightarrow> if subscription_of (au_companyId u) \<noteq> Some Active then Inl PAYMENT_REQUIRED else Inr ()))"

subsection \<open>API keys\<close>

record api_key =
  ak_id :: uid
  ak_companyId :: uid
  ak_name :: string
  ak_keyPrefix :: string
  ak_keyHash :: string
  ak_scopes :: "string list"
  ak_expiresAt :: "date option"
  ak_createdAt :: date
  ak_lastUsedAt :: "date option"
  ak_revokedAt :: "date option"

record key_db =
  kd_keys :: "api_key list"
  kd_next :: uid

definition KEY_PREFIX :: string where "KEY_PREFIX = ''cnt_''"

definition EXPLICIT_API_KEY_SCOPES :: "string list" where "EXPLICIT_API_KEY_SCOPES = [''scim'']"

definition list_keys :: "uid \<Rightarrow> key_db \<Rightarrow> api_key list" where
  "list_keys companyId db = rev (sort_key ak_createdAt (rev (filter (\<lambda>k. ak_companyId k = companyId) (kd_keys db))))"

text \<open>\<open>random\<close> is the hexadecimal text of the bytes drawn.  \<open>keyHash\<close> is unique.\<close>

definition create_key ::
  "(string \<Rightarrow> string) \<Rightarrow> date \<Rightarrow> string \<Rightarrow> uid \<Rightarrow> string \<Rightarrow> string list option \<Rightarrow> date option \<Rightarrow> key_db \<Rightarrow>
   app_error + (api_key \<times> string) \<times> key_db" where
  "create_key sha256 now random companyId name scopes expiresAt db =
     (let rawKey = KEY_PREFIX @ random;
          row = \<lparr>ak_id = kd_next db, ak_companyId = companyId, ak_name = name, ak_keyPrefix = take 12 rawKey,
            ak_keyHash = sha256 rawKey, ak_scopes = (case scopes of None \<Rightarrow> [] | Some l \<Rightarrow> l), ak_expiresAt = expiresAt,
            ak_createdAt = now, ak_lastUsedAt = None, ak_revokedAt = None\<rparr>
      in if list_ex (\<lambda>k. ak_keyHash k = sha256 rawKey) (kd_keys db) then Inl (UniqueViolation ''keyHash'')
         else Inr ((row, rawKey), db\<lparr>kd_keys := kd_keys db @ [row], kd_next := Suc (kd_next db)\<rparr>))"

definition revoke_key :: "date \<Rightarrow> uid \<Rightarrow> uid \<Rightarrow> key_db \<Rightarrow> app_error + unit \<times> key_db" where
  "revoke_key now companyId i db =
     (case find_row (\<lambda>k. ak_id k = i \<and> ak_companyId k = companyId) (kd_keys db) of
        None \<Rightarrow> Inl (NotFoundException (msg ''API key not found''))
      | Some _ \<Rightarrow> Inr ((), db\<lparr>kd_keys := update_rows (\<lambda>k. ak_id k = i) (\<lambda>k. k\<lparr>ak_revokedAt := Some now\<rparr>) (kd_keys db)\<rparr>))"

definition allows :: "string list \<Rightarrow> string \<Rightarrow> bool" where
  "allows keyScopes required \<longleftrightarrow>
     required \<in> set keyScopes \<or> keyScopes = [] \<and> required \<notin> set EXPLICIT_API_KEY_SCOPES"

text \<open>\<open>header\<close> is the (first) X-Api-Key; the result is the key's company, scopes and name.\<close>

definition api_key_guard ::
  "(string \<Rightarrow> string) \<Rightarrow> (uid \<Rightarrow> string list option) \<Rightarrow> date \<Rightarrow> route \<Rightarrow> string option \<Rightarrow> string option \<Rightarrow> key_db \<Rightarrow>
   (app_error + uid \<times> string list \<times> string) \<times> key_db" where
  "api_key_guard sha256 allowlist_of now r header ip db =
     (if \<not> truthy header then (Inl (UnauthorizedException (msg ''Missing X-Api-Key header'')), db)
      else
        (case find_row (\<lambda>k. ak_keyHash k = sha256 (the header) \<and> ak_revokedAt k = None) (kd_keys db) of
           None \<Rightarrow> (Inl (UnauthorizedException (msg ''Invalid or revoked API key'')), db)
         | Some apiKey \<Rightarrow>
             if (case ak_expiresAt apiKey of None \<Rightarrow> False | Some t \<Rightarrow> t < now)
             then (Inl (UnauthorizedException (msg ''API key has expired'')), db)
             else if \<not> isIpAllowed (case allowlist_of (ak_companyId apiKey) of None \<Rightarrow> [] | Some l \<Rightarrow> l) ip
             then (Inl IP_NOT_ALLOWED, db)
             else
               (case override mk_scope r of
                  Some required \<Rightarrow>
                    if required \<noteq> [] \<and> \<not> allows (ak_scopes apiKey) required
                    then (Inl (ForbiddenException [Str ''This API key is not scoped for '', Str (quoted required)]), db)
                    else (Inr (ak_companyId apiKey, ak_scopes apiKey, ak_name apiKey),
                          db\<lparr>kd_keys := update_rows (\<lambda>k. ak_id k = ak_id apiKey) (\<lambda>k. k\<lparr>ak_lastUsedAt := Some now\<rparr>) (kd_keys db)\<rparr>)
                | None \<Rightarrow>
                    (Inr (ak_companyId apiKey, ak_scopes apiKey, ak_name apiKey),
                     db\<lparr>kd_keys := update_rows (\<lambda>k. ak_id k = ak_id apiKey) (\<lambda>k. k\<lparr>ak_lastUsedAt := Some now\<rparr>) (kd_keys db)\<rparr>))))"

subsection \<open>One's own records\<close>

record worker_link =
  wk_id :: uid
  wk_companyId :: uid
  wk_userId :: "uid option"

text \<open>A caller without permissions is internal.\<close>

definition user_sees_crew :: "auth_user \<Rightarrow> permission list \<Rightarrow> bool" where
  "user_sees_crew user crew \<longleftrightarrow>
     (case au_permissions user of None \<Rightarrow> True | Some ps \<Rightarrow> list_ex (\<lambda>p. p \<in> set ps) crew)"

definition ownWorkerIds :: "auth_user \<Rightarrow> worker_link list \<Rightarrow> uid list" where
  "ownWorkerIds user workers =
     map wk_id (filter (\<lambda>w. wk_companyId w = au_companyId user \<and> wk_userId w = Some (au_userId user)) workers)"

definition listScope :: "auth_user \<Rightarrow> uid option \<Rightarrow> permission list \<Rightarrow> worker_link list \<Rightarrow> uid list option" where
  "listScope user requested crew workers =
     (if user_sees_crew user crew then None
      else Some (case requested of None \<Rightarrow> ownWorkerIds user workers
                 | Some i \<Rightarrow> filter (\<lambda>w. w = i) (ownWorkerIds user workers)))"

definition NOT_YOURS :: app_error where
  "NOT_YOURS = ForbiddenException (msg ''You can only do this for yourself'')"

definition assertOwnWorker :: "auth_user \<Rightarrow> uid \<Rightarrow> permission list \<Rightarrow> worker_link list \<Rightarrow> app_error + unit" where
  "assertOwnWorker user workerId crew workers =
     (if user_sees_crew user crew then Inr ()
      else if workerId \<notin> set (ownWorkerIds user workers) then Inl NOT_YOURS else Inr ())"

text \<open>\<open>find_record\<close> is the lookup in the model's table: the worker of the record, in the company.\<close>

definition assertOwnRecord ::
  "(uid \<Rightarrow> uid \<Rightarrow> uid option option) \<Rightarrow> auth_user \<Rightarrow> uid \<Rightarrow> permission list \<Rightarrow> worker_link list \<Rightarrow> app_error + unit" where
  "assertOwnRecord find_record user i crew workers =
     (if user_sees_crew user crew then Inr ()
      else
        (case find_record i (au_companyId user) of
           None \<Rightarrow> Inl (NotFoundException (msg ''Not found''))
         | Some None \<Rightarrow> Inl NOT_YOURS
         | Some (Some workerId) \<Rightarrow>
             if workerId \<notin> set (ownWorkerIds user workers) then Inl NOT_YOURS else Inr ()))"

end
