(* ===== verification/Request_Laws.thy ===== *)
theory Request_Laws
  imports Request_Guards
begin

section \<open>Guards and API keys: what they promise\<close>

text \<open>
  What the role guard lets through, the life of an API key as a step relation with unique hashes as
  its invariant, and the two ways the code asks whose records a member may see.
\<close>

subsection \<open>Roles and permissions\<close>

text \<open>A route with fixed roles and a permission is open to those who have both.\<close>

lemma roles_guard_exact:
  assumes "\<not> marked mk_public r" and "\<not> truthy (mk_openToAllRoles (fst r))"
    and "override mk_roles r = Some requiredRoles" and "requiredRoles \<noteq> []"
  shows "roles_guard r user method = Inr () \<longleftrightarrow>
    (\<exists>u. user = Some u \<and>
       (case override mk_requires r of None \<Rightarrow> True
        | Some q \<Rightarrow> \<exists>ps. au_permissions u = Some ps \<and> permissionFor q method \<in> set ps) \<and>
       (au_role u \<in> set requiredRoles \<or> (\<exists>l. au_additionalRoles u = Some l \<and> set l \<inter> set requiredRoles \<noteq> {})))"
proof (cases user)
  case None
  then show ?thesis using assms
    by (cases "override mk_requires r") (simp_all add: roles_guard_def check_requirement_def check_roles_def)
next
  case (Some u)
  show ?thesis
    using assms Some
    by (cases "au_permissions u"; cases "au_additionalRoles u"; cases "override mk_requires r")
      (auto simp: roles_guard_def check_requirement_def check_roles_def Let_def list_ex_iff)
qed

lemma public_route_open: "marked mk_public r \<Longrightarrow> roles_guard r user method = Inr ()"
  by (simp add: roles_guard_def)

lemma permission_without_roles:
  assumes "\<not> marked mk_public r" and "\<not> truthy (mk_openToAllRoles (fst r))"
    and "override mk_requires r = Some q" and "override mk_roles r = None"
  shows "roles_guard r (Some u) method = Inr () \<longleftrightarrow>
    permissionFor q method \<in> set (case au_permissions u of None \<Rightarrow> [] | Some ps \<Rightarrow> ps)"
  using assms by (simp add: roles_guard_def check_requirement_def check_roles_def Let_def split: option.splits)

subsection \<open>One's own records\<close>

lemma own_worker_agrees:
  "assertOwnWorker user w crew workers = Inr () \<longleftrightarrow>
     (case listScope user None crew workers of None \<Rightarrow> True | Some ids \<Rightarrow> w \<in> set ids)"
  by (simp add: assertOwnWorker_def listScope_def)

lemma asked_worker_agrees:
  "listScope user (Some w) crew workers = Some ids \<Longrightarrow>
     ids \<noteq> [] \<longleftrightarrow> assertOwnWorker user w crew workers = Inr ()"
  by (auto simp: assertOwnWorker_def listScope_def filter_empty_conv split: if_splits)

lemma own_record_of_company:
  "assertOwnRecord find_record user i crew workers = Inr () \<Longrightarrow> \<not> user_sees_crew user crew \<Longrightarrow>
     \<exists>w. find_record i (au_companyId user) = Some (Some w) \<and> w \<in> set (ownWorkerIds user workers)"
  by (auto simp: assertOwnRecord_def split: option.splits if_splits)

subsection \<open>API keys\<close>

definition key_allowed :: "date \<Rightarrow> (uid \<Rightarrow> string list option) \<Rightarrow> route \<Rightarrow> string option \<Rightarrow> api_key \<Rightarrow> bool" where
  "key_allowed now allowlist_of r ip k \<longleftrightarrow>
     \<not> (case ak_expiresAt k of None \<Rightarrow> False | Some t \<Rightarrow> t < now) \<and>
     isIpAllowed (case allowlist_of (ak_companyId k) of None \<Rightarrow> [] | Some l \<Rightarrow> l) ip \<and>
     (case override mk_scope r of None \<Rightarrow> True | Some s \<Rightarrow> s = [] \<or> allows (ak_scopes k) s)"

lemma guard_admits:
  "fst (api_key_guard sha256 allowlist_of now r (Some key) ip db) = Inr who \<longleftrightarrow>
     key \<noteq> [] \<and>
     (\<exists>k. find_row (\<lambda>k. ak_keyHash k = sha256 key \<and> ak_revokedAt k = None) (kd_keys db) = Some k \<and>
        key_allowed now allowlist_of r ip k \<and> who = (ak_companyId k, ak_scopes k, ak_name k))"
  by (auto simp: api_key_guard_def key_allowed_def truthy_def split: option.splits)

text \<open>A key without scopes reads everything but SCIM.\<close>

lemma unscoped_key_no_scim: "allows [] s \<longleftrightarrow> s \<noteq> ''scim''"
  by (simp add: allows_def EXPLICIT_API_KEY_SCOPES_def)

inductive key_step ::
  "(string \<Rightarrow> string) \<Rightarrow> (uid \<Rightarrow> string list option) \<Rightarrow> key_db \<Rightarrow> key_db \<Rightarrow> bool"
  for sha256 allowlist_of where
  created: "create_key sha256 now random companyId name scopes expiresAt db = Inr (res, db') \<Longrightarrow>
    key_step sha256 allowlist_of db db'"
| revoked: "revoke_key now companyId i db = Inr ((), db') \<Longrightarrow> key_step sha256 allowlist_of db db'"
| used: "api_key_guard sha256 allowlist_of now r header ip db = (res, db') \<Longrightarrow> key_step sha256 allowlist_of db db'"

definition no_keys :: "key_db \<Rightarrow> bool" where
  "no_keys db \<longleftrightarrow> kd_keys db = []"

definition keys_inv :: "key_db \<Rightarrow> bool" where
  "keys_inv db \<longleftrightarrow> distinct (map ak_keyHash (kd_keys db))"

text \<open>The key with hash \<open>h\<close> is revoked.\<close>

definition out_of_use :: "string \<Rightarrow> key_db \<Rightarrow> bool" where
  "out_of_use h db \<longleftrightarrow> keys_inv db \<and> (\<exists>k \<in> set (kd_keys db). ak_keyHash k = h \<and> ak_revokedAt k \<noteq> None)"

text \<open>A step adds a key with a new hash, or changes some rows' last use, or revokes some.\<close>

lemma create_key_rows:
  assumes "create_key sha256 now random companyId name scopes expiresAt db = Inr (res, db')"
  shows "\<exists>row. kd_keys db' = kd_keys db @ [row] \<and> ak_keyHash row \<notin> ak_keyHash ` set (kd_keys db)"
proof -
  let ?h = "sha256 (KEY_PREFIX @ random)"
  have "\<not> list_ex (\<lambda>k. ak_keyHash k = ?h) (kd_keys db)"
    using assms by (simp add: create_key_def Let_def split: if_splits)
  then have "?h \<notin> ak_keyHash ` set (kd_keys db)" by (auto simp: list_ex_iff)
  moreover obtain row where "kd_keys db' = kd_keys db @ [row]" "ak_keyHash row = ?h"
    using assms by (force simp: create_key_def Let_def split: if_splits)
  ultimately show ?thesis by auto
qed

lemma guard_rows:
  "kd_keys (snd (api_key_guard sha256 allowlist_of now r header ip db)) = kd_keys db \<or>
   (\<exists>p. kd_keys (snd (api_key_guard sha256 allowlist_of now r header ip db)) =
      update_rows p (\<lambda>k. k\<lparr>ak_lastUsedAt := Some now\<rparr>) (kd_keys db))"
  by (auto simp: api_key_guard_def split: option.splits)

lemma key_step_rows:
  assumes "key_step sha256 allowlist_of db db'"
  shows "(\<exists>row. kd_keys db' = kd_keys db @ [row] \<and> ak_keyHash row \<notin> ak_keyHash ` set (kd_keys db)) \<or>
    (\<exists>f. kd_keys db' = map f (kd_keys db) \<and> (\<forall>k. ak_keyHash (f k) = ak_keyHash k) \<and>
       (\<forall>k. ak_revokedAt k \<noteq> None \<longrightarrow> ak_revokedAt (f k) \<noteq> None))"
  using assms
proof cases
  case (created now random companyId name scopes expiresAt res)
  then show ?thesis by (intro disjI1 create_key_rows)
next
  case (revoked now companyId i)
  then have "kd_keys db' = map (\<lambda>k. if ak_id k = i then k\<lparr>ak_revokedAt := Some now\<rparr> else k) (kd_keys db)"
    by (auto simp: revoke_key_def update_rows_def split: option.splits)
  then show ?thesis by (intro disjI2 exI [of _ "\<lambda>k. if ak_id k = i then k\<lparr>ak_revokedAt := Some now\<rparr> else k"]) simp
next
  case (used now r header ip res)
  then have "db' = snd (api_key_guard sha256 allowlist_of now r header ip db)" by simp
  then consider "kd_keys db' = map id (kd_keys db)"
    | p where "kd_keys db' = map (\<lambda>k. if p k then k\<lparr>ak_lastUsedAt := Some now\<rparr> else k) (kd_keys db)"
    using guard_rows [of sha256 allowlist_of now r header ip db] by (auto simp: update_rows_def)
  then show ?thesis
  proof cases
    case 1
    then show ?thesis by (intro disjI2 exI [of _ id]) simp
  next
    case 2
    then show ?thesis by (intro disjI2 exI [of _ "\<lambda>k. if p k then k\<lparr>ak_lastUsedAt := Some now\<rparr> else k"]) simp
  qed
qed

lemma keys_inv_step: "keys_inv db \<Longrightarrow> key_step sha256 allowlist_of db db' \<Longrightarrow> keys_inv db'"
  by (drule key_step_rows) (auto simp: keys_inv_def o_def)

lemma out_of_use_step:
  assumes "out_of_use h db" and "key_step sha256 allowlist_of db db'"
  shows "out_of_use h db'"
proof -
  have "keys_inv db'" using assms keys_inv_step by (auto simp: out_of_use_def)
  moreover obtain k where k: "k \<in> set (kd_keys db)" "ak_keyHash k = h" "ak_revokedAt k \<noteq> None"
    using assms(1) by (auto simp: out_of_use_def)
  have "\<exists>k \<in> set (kd_keys db'). ak_keyHash k = h \<and> ak_revokedAt k \<noteq> None"
    using key_step_rows [OF assms(2)]
  proof (elim disjE exE conjE)
    fix row assume "kd_keys db' = kd_keys db @ [row]"
    then show ?thesis using k by (intro bexI [of _ k]) simp_all
  next
    fix f
    assume "kd_keys db' = map f (kd_keys db)" "\<forall>k. ak_keyHash (f k) = ak_keyHash k"
      "\<forall>k. ak_revokedAt k \<noteq> None \<longrightarrow> ak_revokedAt (f k) \<noteq> None"
    then show ?thesis using k by (intro bexI [of _ "f k"]) simp_all
  qed
  ultimately show ?thesis by (simp add: out_of_use_def)
qed

interpretation issued: transition_system no_keys "key_step sha256 allowlist_of" keys_inv
  for sha256 allowlist_of
  by unfold_locales (simp_all add: no_keys_def keys_inv_def keys_inv_step [unfolded keys_inv_def])

interpretation retired: transition_system "out_of_use h" "key_step sha256 allowlist_of" "out_of_use h"
  for sha256 allowlist_of h
  by unfold_locales (blast intro: out_of_use_step)+

lemma out_of_use_refused:
  assumes "out_of_use (sha256 key) db"
  shows "find_row (\<lambda>k. ak_keyHash k = sha256 key \<and> ak_revokedAt k = None) (kd_keys db) = None"
proof -
  obtain k where k: "k \<in> set (kd_keys db)" "ak_keyHash k = sha256 key" "ak_revokedAt k \<noteq> None"
    using assms by (auto simp: out_of_use_def)
  have one: "inj_on ak_keyHash (set (kd_keys db))"
    using assms by (simp add: out_of_use_def keys_inv_def distinct_map)
  have same: "k' = k" if "k' \<in> set (kd_keys db)" "ak_keyHash k' = sha256 key" for k'
    using inj_onD [OF one _ that(1) k(1)] that(2) k(2) by simp
  show ?thesis
    unfolding find_row_None
  proof
    fix k' assume "k' \<in> set (kd_keys db)"
    then show "\<not> (ak_keyHash k' = sha256 key \<and> ak_revokedAt k' = None)" using same [of k'] k(3) by auto
  qed
qed

lemma revoke_puts_out_of_use:
  assumes "keys_inv db" and "revoke_key now companyId (ak_id row) db = Inr ((), db')" and "row \<in> set (kd_keys db)"
  shows "out_of_use (ak_keyHash row) db'"
proof -
  have step: "key_step (\<lambda>x. x) (\<lambda>_. None) db db'" using assms(2) by (rule key_step.revoked)
  have "kd_keys db' = update_rows (\<lambda>k. ak_id k = ak_id row) (\<lambda>k. k\<lparr>ak_revokedAt := Some now\<rparr>) (kd_keys db)"
    using assms(2) by (auto simp: revoke_key_def split: option.splits)
  then have "row\<lparr>ak_revokedAt := Some now\<rparr> \<in> set (kd_keys db')" using assms(3) by (force simp: update_rows_def)
  then show ?thesis using keys_inv_step [OF assms(1) step] unfolding out_of_use_def
    by (intro conjI bexI [of _ "row\<lparr>ak_revokedAt := Some now\<rparr>"]) simp_all
qed

text \<open>C15 Once a company's key is revoked, every request with it is refused, whatever keys are created,
  revoked and used before and after, on any route, from any address and at any time; nothing is written.\<close>

theorem revoked_key_stays_out:
  assumes "no_keys db0" and "(key_step sha256 allowlist_of)\<^sup>*\<^sup>* db0 db1"
    and "row \<in> set (kd_keys db1)" and "revoke_key now companyId (ak_id row) db1 = Inr ((), db2)"
    and "(key_step sha256 allowlist_of)\<^sup>*\<^sup>* db2 db3" and "sha256 key = ak_keyHash row" and "key \<noteq> []"
  shows "api_key_guard sha256 allowlist_of later r (Some key) ip db3 =
    (Inl (UnauthorizedException (msg ''Invalid or revoked API key'')), db3)"
proof -
  have "out_of_use (ak_keyHash row) db2"
    using revoke_puts_out_of_use [OF issued.inv_reachable [OF assms(1,2)] assms(4,3)] .
  then have "out_of_use (sha256 key) db3" using retired.inv_reachable [OF _ assms(5)] assms(6) by simp
  then show ?thesis using assms(7) by (simp add: api_key_guard_def truthy_def out_of_use_refused)
qed

text \<open>A key is created, used, revoked, and another created.\<close>

definition no_key_db :: key_db where "no_key_db = \<lparr>kd_keys = [], kd_next = 0\<rparr>"

definition plain_marks :: marks where
  "plain_marks = \<lparr>mk_public = True, mk_skipSubscription = False, mk_openToAllRoles = None, mk_requires = None,
     mk_roles = None, mk_scope = None\<rparr>"

definition one_key_db :: key_db where
  "one_key_db = (case create_key id 10 ''a'' 1 ''sync'' None None no_key_db of Inr (_, db) \<Rightarrow> db | Inl _ \<Rightarrow> no_key_db)"

definition used_key_db :: key_db where
  "used_key_db = snd (api_key_guard id (\<lambda>_. None) 20 (plain_marks, plain_marks) (Some ''cnt_a'') None one_key_db)"

definition revoked_key_db :: key_db where
  "revoked_key_db = (case revoke_key 30 1 0 used_key_db of Inr (_, db) \<Rightarrow> db | Inl _ \<Rightarrow> used_key_db)"

definition next_key_db :: key_db where
  "next_key_db = (case create_key id 40 ''b'' 1 ''other'' None None revoked_key_db of Inr (_, db) \<Rightarrow> db | Inl _ \<Rightarrow> revoked_key_db)"

lemmas key_example_defs = next_key_db_def revoked_key_db_def used_key_db_def one_key_db_def no_key_db_def
  plain_marks_def create_key_def revoke_key_def api_key_guard_def KEY_PREFIX_def override_def isIpAllowed_def
  truthy_def row_simps update_rows_def Let_def

lemma revoked_key_stays_out_witness:
  "fst (api_key_guard id (\<lambda>_. None) 20 (plain_marks, plain_marks) (Some ''cnt_a'') None one_key_db) =
     Inr (1, [], ''sync'') \<and>
   api_key_guard id (\<lambda>_. None) 50 (plain_marks, plain_marks) (Some ''cnt_a'') None next_key_db =
     (Inl (UnauthorizedException (msg ''Invalid or revoked API key'')), next_key_db)"
proof
  show "fst (api_key_guard id (\<lambda>_. None) 20 (plain_marks, plain_marks) (Some ''cnt_a'') None one_key_db) =
     Inr (1, [], ''sync'')"
    by (simp add: key_example_defs)
  have "create_key id 10 ''a'' 1 ''sync'' None None no_key_db = Inr ((hd (kd_keys one_key_db), ''cnt_a''), one_key_db)"
    by (simp add: key_example_defs)
  then have start: "key_step id (\<lambda>_. None) no_key_db one_key_db" by (rule key_step.created)
  have "key_step id (\<lambda>_. None) one_key_db used_key_db"
    unfolding used_key_db_def by (rule key_step.used [OF prod.collapse [symmetric]])
  with start have history: "(key_step id (\<lambda>_. None))\<^sup>*\<^sup>* no_key_db used_key_db" by simp
  have revoke: "revoke_key 30 1 (ak_id (hd (kd_keys used_key_db))) used_key_db = Inr ((), revoked_key_db)"
    by (simp add: key_example_defs)
  have "create_key id 40 ''b'' 1 ''other'' None None revoked_key_db =
      Inr ((last (kd_keys next_key_db), ''cnt_b''), next_key_db)"
    by (simp add: key_example_defs)
  then have more: "(key_step id (\<lambda>_. None))\<^sup>*\<^sup>* revoked_key_db next_key_db"
    by (intro r_into_rtranclp key_step.created)
  show "api_key_guard id (\<lambda>_. None) 50 (plain_marks, plain_marks) (Some ''cnt_a'') None next_key_db =
     (Inl (UnauthorizedException (msg ''Invalid or revoked API key'')), next_key_db)"
  proof (rule revoked_key_stays_out [OF _ history _ revoke more])
    show "no_keys no_key_db" by (simp add: no_keys_def no_key_db_def)
  qed (simp_all add: key_example_defs)
qed

end
