(* ===== verification/Purchase_Orders.thy ===== *)
theory Purchase_Orders
  imports Stock_Laws Purchasing
begin

section \<open>Purchase orders\<close>

text \<open>
  \<open>materials/purchase-orders.service.ts\<close> on top of the stock service.  Receiving is a sequence of separate
  transactions: an error leaves what was posted before it, so an operation returns its outcome beside the
  tables it leaves.  \<open>env\<close> is what other requests do between the read of the order and the first write.
  The columns of the supplier's portal (acknowledgement, ETA, note) are not read here and left out.
\<close>

subsection \<open>Tables\<close>

datatype order_status = Draft_order | Ordered | Partially_received | Fully_received

datatype discrepancy_resolution = Pending_resolution | Credit_issued | Replacement_sent | Disputed

record supplier =
  spl_id :: uid
  spl_companyId :: uid

record material_units =
  mun_materialId :: uid
  mun_unitId :: string
  mun_purchaseUnitId :: "string option"

record purchase_order =
  puo_id :: uid
  puo_companyId :: uid
  puo_supplierId :: uid
  puo_status :: order_status
  puo_autoGenerated :: bool
  puo_expectedDate :: "date option"
  puo_receivedAt :: "date option"
  puo_createdAt :: date

record purchase_line =
  pul_id :: uid
  pul_purchaseOrderId :: uid
  pul_materialId :: uid
  pul_quantity :: number
  pul_unitPrice :: number
  pul_quantityReceived :: number

record receiving_discrepancy =
  rcd_id :: uid
  rcd_companyId :: uid
  rcd_purchaseOrderId :: uid
  rcd_purchaseOrderLineId :: uid
  rcd_type :: discrepancy_type
  rcd_quantity :: number
  rcd_resolution :: discrepancy_resolution
  rcd_resolutionNotes :: "string option"
  rcd_createdAt :: date

record purchase_db =
  pdb_stock :: stock_db
  pdb_suppliers :: "supplier list"
  pdb_materialUnits :: "material_units list"
  pdb_units :: "unit_info list"
  pdb_orders :: "purchase_order list"
  pdb_lines :: "purchase_line list"
  pdb_discrepancies :: "receiving_discrepancy list"
  pdb_next :: uid

subsection \<open>Reading\<close>

definition list_orders :: "uid \<Rightarrow> uid option \<Rightarrow> nat \<Rightarrow> uid option \<Rightarrow> purchase_db \<Rightarrow> purchase_order list" where
  "list_orders companyId supplierId n cursor db =
     page n puo_id cursor
       (sort_key (\<lambda>o'. (- puo_createdAt o', - int (puo_id o')))
         (filter (\<lambda>o'. puo_companyId o' = companyId \<and>
            (case supplierId of None \<Rightarrow> True | Some s \<Rightarrow> puo_supplierId o' = s)) (pdb_orders db)))"

text \<open>The order with its lines, and with each line the units of its material, which a foreign key
  guarantees to exist.\<close>

definition units_of :: "purchase_db \<Rightarrow> uid \<Rightarrow> material_units" where
  "units_of db mat =
     (case find_row (\<lambda>m. mun_materialId m = mat) (pdb_materialUnits db) of
        None \<Rightarrow> \<lparr>mun_materialId = mat, mun_unitId = [], mun_purchaseUnitId = None\<rparr>
      | Some m \<Rightarrow> m)"

definition order_rows :: "uid \<Rightarrow> purchase_db \<Rightarrow> (purchase_line \<times> material_units) list" where
  "order_rows i db = map (\<lambda>l. (l, units_of db (pul_materialId l))) (filter (\<lambda>l. pul_purchaseOrderId l = i) (pdb_lines db))"

definition find_order :: "uid \<Rightarrow> uid \<Rightarrow> purchase_db \<Rightarrow> app_error + purchase_order \<times> (purchase_line \<times> material_units) list" where
  "find_order companyId i db =
     (case find_row (\<lambda>r. puo_id r = i \<and> puo_companyId r = companyId) (pdb_orders db) of
        None \<Rightarrow> Inl (NotFoundException (msg ''Purchase order not found''))
      | Some po \<Rightarrow> Inr (po, order_rows i db))"

text \<open>\<open>convertUnitQuantity\<close> from the purchase unit to the stock unit; the stock unit is looked up first.\<close>

definition toStockQuantity :: "purchase_db \<Rightarrow> material_units \<Rightarrow> number \<Rightarrow> app_error + number" where
  "toStockQuantity db material quantity =
     (if \<not> truthy (mun_purchaseUnitId material) \<or> mun_purchaseUnitId material = Some (mun_unitId material) then Inr quantity
      else
        (case find_row (\<lambda>u. ui_id u = mun_unitId material) (pdb_units db) of
           None \<Rightarrow> Inl RecordNotFound
         | Some stockUnit \<Rightarrow>
             (case find_row (\<lambda>u. Some (ui_id u) = mun_purchaseUnitId material) (pdb_units db) of
                None \<Rightarrow> Inl RecordNotFound
              | Some purchaseUnit \<Rightarrow> convertUnitQuantity quantity purchaseUnit stockUnit)))"

subsection \<open>Creating an order\<close>

record order_line_input =
  oli_materialId :: uid
  oli_quantity :: number
  oli_unitPrice :: number

definition owned_materials :: "uid \<Rightarrow> uid list \<Rightarrow> stock_db \<Rightarrow> bool" where
  "owned_materials companyId ids st \<longleftrightarrow>
     length (filter (\<lambda>m. mt_id m \<in> set ids \<and> mt_companyId m = companyId) (db_materials st)) = length (remdups ids)"

definition NOT_OUR_MATERIALS :: app_error where
  "NOT_OUR_MATERIALS = BadRequestException (msg ''One or more materials do not belong to this company'')"

fun order_lines_from :: "uid \<Rightarrow> uid \<Rightarrow> order_line_input list \<Rightarrow> purchase_line list" where
  "order_lines_from po n [] = []"
| "order_lines_from po n (l # ls) =
     \<lparr>pul_id = n, pul_purchaseOrderId = po, pul_materialId = oli_materialId l, pul_quantity = oli_quantity l,
      pul_unitPrice = oli_unitPrice l, pul_quantityReceived = 0\<rparr> # order_lines_from po (Suc n) ls"

definition create_order :: "date \<Rightarrow> uid \<Rightarrow> uid \<Rightarrow> date option \<Rightarrow> order_line_input list \<Rightarrow> purchase_db \<Rightarrow>
    app_error + purchase_order \<times> purchase_db" where
  "create_order now companyId supplierId expectedDate lines db =
     (if find_row (\<lambda>s. spl_id s = supplierId \<and> spl_companyId s = companyId) (pdb_suppliers db) = None
      then Inl (NotFoundException (msg ''Supplier not found''))
      else if 0 < length lines \<and> \<not> owned_materials companyId (map oli_materialId lines) (pdb_stock db)
      then Inl NOT_OUR_MATERIALS
      else
        (let po = \<lparr>puo_id = pdb_next db, puo_companyId = companyId, puo_supplierId = supplierId, puo_status = Ordered,
               puo_autoGenerated = False, puo_expectedDate = expectedDate, puo_receivedAt = None, puo_createdAt = now\<rparr>
         in Inr (po, db\<lparr>pdb_orders := pdb_orders db @ [po],
              pdb_lines := pdb_lines db @ order_lines_from (pdb_next db) (Suc (pdb_next db)) lines,
              pdb_next := pdb_next db + 1 + length lines\<rparr>)))"

subsection \<open>Receiving\<close>

text \<open>A loop whose body awaits separate transactions: the first error ends it, what was written stays.\<close>

fun each_step :: "('a \<Rightarrow> 's \<Rightarrow> (app_error + unit) \<times> 's) \<Rightarrow> 'a list \<Rightarrow> 's \<Rightarrow> (app_error + unit) \<times> 's" where
  "each_step f [] s = (Inr (), s)"
| "each_step f (x # xs) s = (case f x s of (Inl e, s') \<Rightarrow> (Inl e, s') | (Inr _, s') \<Rightarrow> each_step f xs s')"

definition receipt_input :: "uid \<Rightarrow> uid \<Rightarrow> number \<Rightarrow> movement_input" where
  "receipt_input warehouseId mat quantity =
     \<lparr>mi_warehouseId = warehouseId, mi_materialId = mat, mi_type = Receipt, mi_quantity = quantity, mi_projectId = None,
      mi_unitCost = None, mi_lotNumber = None, mi_expiresAt = None, mi_lotId = None, mi_serialNumbers = None,
      mi_unitIds = None\<rparr>"

definition post_receipt :: "date \<Rightarrow> uid \<Rightarrow> uid \<Rightarrow> purchase_line \<times> material_units \<Rightarrow> number \<Rightarrow> purchase_db \<Rightarrow>
    (app_error + unit) \<times> purchase_db" where
  "post_receipt now companyId warehouseId row quantity db =
     (case toStockQuantity db (snd row) quantity of
        Inl e \<Rightarrow> (Inl e, db)
      | Inr q \<Rightarrow>
          (case recordMovement now companyId (receipt_input warehouseId (pul_materialId (fst row)) q) (pdb_stock db) of
             Inl e \<Rightarrow> (Inl e, db)
           | Inr (_, st) \<Rightarrow> (Inr (), db\<lparr>pdb_stock := st\<rparr>)))"

definition set_order :: "uid \<Rightarrow> order_status \<Rightarrow> date option \<Rightarrow> purchase_db \<Rightarrow> purchase_db" where
  "set_order i status receivedAt db =
     db\<lparr>pdb_orders := update_rows (\<lambda>r. puo_id r = i)
          (\<lambda>r. r\<lparr>puo_status := status,
                 puo_receivedAt := (case receivedAt of None \<Rightarrow> puo_receivedAt r | Some t \<Rightarrow> Some t)\<rparr>) (pdb_orders db)\<rparr>"

definition receive_order :: "(purchase_db \<Rightarrow> purchase_db) \<Rightarrow> date \<Rightarrow> uid \<Rightarrow> uid \<Rightarrow> uid \<Rightarrow> purchase_db \<Rightarrow>
    (app_error + unit) \<times> purchase_db" where
  "receive_order env now companyId i warehouseId db =
     (case find_order companyId i db of
        Inl e \<Rightarrow> (Inl e, db)
      | Inr (po, rows) \<Rightarrow>
          if puo_status po = Fully_received
          then (Inl (BadRequestException (msg ''Purchase order already received'')), db)
          else
            (case each_step (\<lambda>row. post_receipt now companyId warehouseId row (pul_quantity (fst row))) rows (env db) of
               (Inl e, db') \<Rightarrow> (Inl e, db')
             | (Inr _, db') \<Rightarrow> (Inr (), set_order i Fully_received (Some now) db')))"

record shipment_line =
  shl_lineId :: uid
  shl_quantityReceived :: number
  shl_quantityDamaged :: "number option"
  shl_shortfallType :: "discrepancy_type option"

definition damaged_of :: "shipment_line \<Rightarrow> number" where
  "damaged_of x = (case shl_quantityDamaged x of None \<Rightarrow> 0 | Some d \<Rightarrow> d)"

text \<open>\<open>new Map(po.lines.map((l) => [l.id, l]))\<close>; ids are unique.\<close>

definition line_by_id :: "(purchase_line \<times> material_units) list \<Rightarrow> uid \<Rightarrow> (purchase_line \<times> material_units) option" where
  "line_by_id rows i = find_row (\<lambda>row. pul_id (fst row) = i) rows"

definition flag_discrepancies :: "date \<Rightarrow> uid \<Rightarrow> uid \<Rightarrow> uid \<Rightarrow> discrepancy list \<Rightarrow> purchase_db \<Rightarrow> purchase_db" where
  "flag_discrepancies now companyId i lineId found db =
     fold (\<lambda>d s. s\<lparr>pdb_discrepancies := pdb_discrepancies s @ [\<lparr>rcd_id = pdb_next s, rcd_companyId = companyId,
             rcd_purchaseOrderId = i, rcd_purchaseOrderLineId = lineId, rcd_type = dc_type d, rcd_quantity = dc_quantity d,
             rcd_resolution = Pending_resolution, rcd_resolutionNotes = None, rcd_createdAt = now\<rparr>],
           pdb_next := Suc (pdb_next s)\<rparr>) found db"

definition add_received :: "uid \<Rightarrow> number \<Rightarrow> purchase_db \<Rightarrow> purchase_db" where
  "add_received lineId q db =
     db\<lparr>pdb_lines := update_rows (\<lambda>l. pul_id l = lineId) (\<lambda>l. l\<lparr>pul_quantityReceived := pul_quantityReceived l + q\<rparr>) (pdb_lines db)\<rparr>"

text \<open>The body of the loop; \<open>row\<close> is the line as it was read before the loop.\<close>

definition shipment_step :: "date \<Rightarrow> uid \<Rightarrow> uid \<Rightarrow> uid \<Rightarrow> (purchase_line \<times> material_units) list \<Rightarrow> shipment_line \<Rightarrow>
    purchase_db \<Rightarrow> (app_error + unit) \<times> purchase_db" where
  "shipment_step now companyId i warehouseId rows x db =
     (case line_by_id rows (shl_lineId x) of
        None \<Rightarrow> (Inr (), db)
      | Some row \<Rightarrow>
          if shl_quantityReceived x < damaged_of x
          then (Inl (BadRequestException (msg ''Damaged quantity can't exceed received quantity'')), db)
          else
            (let goodQuantity = shl_quantityReceived x - damaged_of x
             in case (if 0 < goodQuantity then post_receipt now companyId warehouseId row goodQuantity db else (Inr (), db)) of
                  (Inl e, db1) \<Rightarrow> (Inl e, db1)
                | (Inr _, db1) \<Rightarrow>
                    (Inr (), add_received (shl_lineId x) (shl_quantityReceived x)
                       (flag_discrepancies now companyId i (shl_lineId x)
                          (classifyReceivingLine (pul_quantity (fst row)) (pul_quantityReceived (fst row))
                             (shl_quantityReceived x) (damaged_of x) (shl_shortfallType x)) db1))))"

definition shipment_status :: "uid \<Rightarrow> order_status \<Rightarrow> purchase_db \<Rightarrow> order_status" where
  "shipment_status i before db =
     (let updatedLines = filter (\<lambda>l. pul_purchaseOrderId l = i) (pdb_lines db)
      in if list_all (\<lambda>l. pul_quantity l \<le> pul_quantityReceived l) updatedLines then Fully_received
         else if list_ex (\<lambda>l. 0 < pul_quantityReceived l) updatedLines then Partially_received
         else before)"

definition receiveShipment :: "(purchase_db \<Rightarrow> purchase_db) \<Rightarrow> date \<Rightarrow> uid \<Rightarrow> uid \<Rightarrow> uid \<Rightarrow> shipment_line list \<Rightarrow>
    purchase_db \<Rightarrow> (app_error + unit) \<times> purchase_db" where
  "receiveShipment env now companyId i warehouseId lines db =
     (case find_order companyId i db of
        Inl e \<Rightarrow> (Inl e, db)
      | Inr (po, rows) \<Rightarrow>
          if puo_status po = Fully_received
          then (Inl (BadRequestException (msg ''Purchase order already fully received'')), db)
          else if \<not> list_all (\<lambda>x. line_by_id rows (shl_lineId x) \<noteq> None) lines
          then (Inl (BadRequestException (msg ''One or more lines do not belong to this purchase order'')), db)
          else
            (case each_step (shipment_step now companyId i warehouseId rows) lines (env db) of
               (Inl e, db') \<Rightarrow> (Inl e, db')
             | (Inr _, db') \<Rightarrow>
                 (let status = shipment_status i (puo_status po) db'
                  in (Inr (), set_order i status (if status = Fully_received then Some now else None) db'))))"

subsection \<open>Discrepancies\<close>

definition listDiscrepancies :: "uid \<Rightarrow> uid option \<Rightarrow> purchase_db \<Rightarrow> receiving_discrepancy list" where
  "listDiscrepancies companyId poId db =
     sort_key (\<lambda>d. - rcd_createdAt d)
       (filter (\<lambda>d. rcd_companyId d = companyId \<and> (case poId of None \<Rightarrow> True | Some p \<Rightarrow> rcd_purchaseOrderId d = p))
         (pdb_discrepancies db))"

definition resolveDiscrepancy :: "uid \<Rightarrow> uid \<Rightarrow> discrepancy_resolution \<Rightarrow> string option \<Rightarrow> purchase_db \<Rightarrow>
    app_error + unit \<times> purchase_db" where
  "resolveDiscrepancy companyId i resolution notes db =
     (case find_row (\<lambda>d. rcd_id d = i \<and> rcd_companyId d = companyId) (pdb_discrepancies db) of
        None \<Rightarrow> Inl (NotFoundException (msg ''Receiving discrepancy not found''))
      | Some _ \<Rightarrow> Inr ((), db\<lparr>pdb_discrepancies := update_rows (\<lambda>d. rcd_id d = i)
          (\<lambda>d. d\<lparr>rcd_resolution := resolution,
                 rcd_resolutionNotes := (case notes of None \<Rightarrow> rcd_resolutionNotes d | Some t \<Rightarrow> Some t)\<rparr>)
          (pdb_discrepancies db)\<rparr>))"

end
