(* ===== verification/Purchase_Laws.thy ===== *)
theory Purchase_Laws
  imports Purchase_Orders
begin

section \<open>What receiving a purchase order promises\<close>

text \<open>
  Every unit that a shipment brings is on a shelf or in a damage report, over every sequence of orders and
  shipments, failed ones included; a received order stays closed.  The other way to receive an order,
  \<open>receive\<close>, does not keep these accounts: the examples at the end show what it posts twice.
\<close>

subsection \<open>Frames\<close>

lemma each_step_invariant:
  assumes "\<And>x s r s'. x \<in> set xs \<Longrightarrow> P s \<Longrightarrow> f x s = (r, s') \<Longrightarrow> P s'"
    and "P s" and "each_step f xs s = (r, t)"
  shows "P t"
  using assms
proof (induction xs arbitrary: s)
  case (Cons x xs)
  obtain q s' where step: "f x s = (q, s')" by fastforce
  have P: "P s'" using Cons.prems(1) [OF _ Cons.prems(2) step] by simp
  show ?case
  proof (cases q)
    case Inl
    then show ?thesis using Cons.prems(3) P step by simp
  next
    case Inr
    then have "each_step f xs s' = (r, t)" using Cons.prems(3) step by simp
    then show ?thesis using Cons.IH [OF _ P] Cons.prems(1) by (meson list.set_intros(2))
  qed
qed simp

lemma recordMovement_total:
  assumes "recordMovement now companyId input db = Inr (mv, db')" and "levels_unique db"
  shows "levels_unique db' \<and> total_on_hand m db' = total_on_hand m db +
    (if m = mi_materialId input then movement_delta (mi_type input) (mi_quantity input) else 0)"
proof -
  obtain avg db2 where lv: "db_levels db2 = db_levels db"
    "db_levels db' = db_levels (upsert_level (mi_warehouseId input) (mi_materialId input)
      (movement_delta (mi_type input) (mi_quantity input)) avg db2)"
    using record_movement_levels [OF assms(1)] by blast
  have uq: "levels_unique db2" using assms(2) lv(1) by (simp add: levels_unique_def)
  then show ?thesis
    using levels_unique_upsert [OF uq] lv(2) total_on_hand_cong [OF lv(2), of m] total_on_hand_cong [OF lv(1), of m]
    by (simp add: total_on_hand_upsert levels_unique_def)
qed

lemma post_receipt_cases:
  assumes "post_receipt now companyId wh row q db = (r, db')"
  obtains (failed) e where "r = Inl e" and "db' = db"
  | (posted) sq mv st where "r = Inr ()" and "toStockQuantity db (snd row) q = Inr sq"
      and "recordMovement now companyId (receipt_input wh (pul_materialId (fst row)) sq) (pdb_stock db) = Inr (mv, st)"
      and "db' = db\<lparr>pdb_stock := st\<rparr>"
proof (cases "toStockQuantity db (snd row) q")
  case (Inl e)
  then show ?thesis using assms failed [of e] by (simp add: post_receipt_def)
next
  case sq: (Inr sq)
  let ?move = "recordMovement now companyId (receipt_input wh (pul_materialId (fst row)) sq) (pdb_stock db)"
  show ?thesis
  proof (cases ?move)
    case (Inl e)
    then show ?thesis using assms failed [of e] sq by (simp add: post_receipt_def)
  next
    case (Inr p)
    then show ?thesis using assms posted [of sq "fst p" "snd p"] sq by (cases p) (simp add: post_receipt_def)
  qed
qed

lemma receipt_total:
  assumes "recordMovement now companyId (receipt_input wh mat q) db = Inr (mv, db')" and "levels_unique db"
  shows "levels_unique db'" and "total_on_hand m db' = total_on_hand m db + (if m = mat then q else 0)"
  using recordMovement_total [OF assms, of m]
  by (simp_all add: receipt_input_def movement_delta_def decreasing_def)

lemma flag_shape:
  "\<exists>new. flag_discrepancies now c i l ds db =
       db\<lparr>pdb_discrepancies := pdb_discrepancies db @ new, pdb_next := pdb_next db + length ds\<rparr> \<and>
     map (\<lambda>d. (rcd_purchaseOrderLineId d, rcd_type d, rcd_quantity d)) new = map (\<lambda>d. (l, dc_type d, dc_quantity d)) ds"
proof (induction ds arbitrary: db)
  case Nil
  show ?case by (intro exI [of _ "[]"]) (simp add: flag_discrepancies_def)
next
  case (Cons d ds)
  let ?r = "\<lparr>rcd_id = pdb_next db, rcd_companyId = c,
      rcd_purchaseOrderId = i, rcd_purchaseOrderLineId = l, rcd_type = dc_type d, rcd_quantity = dc_quantity d,
      rcd_resolution = Pending_resolution, rcd_resolutionNotes = None, rcd_createdAt = now\<rparr>"
  let ?s = "db\<lparr>pdb_discrepancies := pdb_discrepancies db @ [?r], pdb_next := Suc (pdb_next db)\<rparr>"
  have step: "flag_discrepancies now c i l (d # ds) db = flag_discrepancies now c i l ds ?s"
    by (simp add: flag_discrepancies_def)
  from Cons.IH [of ?s] obtain new where
    "flag_discrepancies now c i l ds ?s =
       ?s\<lparr>pdb_discrepancies := pdb_discrepancies ?s @ new, pdb_next := pdb_next ?s + length ds\<rparr>"
    "map (\<lambda>d. (rcd_purchaseOrderLineId d, rcd_type d, rcd_quantity d)) new = map (\<lambda>d. (l, dc_type d, dc_quantity d)) ds"
    by blast
  then show ?case unfolding step by (intro exI [of _ "?r # new"]) simp
qed

lemma flag_frame [simp]:
  "pdb_stock (flag_discrepancies now c i l ds db) = pdb_stock db"
  "pdb_lines (flag_discrepancies now c i l ds db) = pdb_lines db"
  "pdb_orders (flag_discrepancies now c i l ds db) = pdb_orders db"
  "pdb_materialUnits (flag_discrepancies now c i l ds db) = pdb_materialUnits db"
  "pdb_next (flag_discrepancies now c i l ds db) = pdb_next db + length ds"
  using flag_shape [of now c i l ds db] by auto

lemma flag_rows:
  "\<exists>new. pdb_discrepancies (flag_discrepancies now c i l ds db) = pdb_discrepancies db @ new \<and>
     map (\<lambda>d. (rcd_purchaseOrderLineId d, rcd_type d, rcd_quantity d)) new = map (\<lambda>d. (l, dc_type d, dc_quantity d)) ds"
  using flag_shape [of now c i l ds db] by auto

lemma add_received_frame [simp]:
  "pdb_stock (add_received l q db) = pdb_stock db" "pdb_orders (add_received l q db) = pdb_orders db"
  "pdb_discrepancies (add_received l q db) = pdb_discrepancies db" "pdb_next (add_received l q db) = pdb_next db"
  "pdb_materialUnits (add_received l q db) = pdb_materialUnits db"
  "map pul_id (pdb_lines (add_received l q db)) = map pul_id (pdb_lines db)"
  by (simp_all add: add_received_def map_update_rows)

lemma set_order_frame [simp]:
  "pdb_stock (set_order i s t db) = pdb_stock db" "pdb_lines (set_order i s t db) = pdb_lines db"
  "pdb_discrepancies (set_order i s t db) = pdb_discrepancies db" "pdb_next (set_order i s t db) = pdb_next db"
  "pdb_materialUnits (set_order i s t db) = pdb_materialUnits db"
  by (simp_all add: set_order_def)

subsection \<open>The account of a material\<close>

definition line_material :: "uid \<Rightarrow> purchase_db \<Rightarrow> uid option" where
  "line_material i db = map_option pul_materialId (find_row (\<lambda>l. pul_id l = i) (pdb_lines db))"

definition received_total :: "uid \<Rightarrow> purchase_db \<Rightarrow> number" where
  "received_total m db = (\<Sum>l \<leftarrow> pdb_lines db. if pul_materialId l = m then pul_quantityReceived l else 0)"

definition damaged_total :: "uid \<Rightarrow> purchase_db \<Rightarrow> number" where
  "damaged_total m db = (\<Sum>d \<leftarrow> pdb_discrepancies db.
     if rcd_type d = Damaged_goods \<and> line_material (rcd_purchaseOrderLineId d) db = Some m then rcd_quantity d else 0)"

definition balance :: "uid \<Rightarrow> purchase_db \<Rightarrow> number" where
  "balance m db = total_on_hand m (pdb_stock db) + damaged_total m db - received_total m db"

text \<open>Materials are bought in the unit they are stocked in.\<close>

definition stocked_as_bought :: "purchase_db \<Rightarrow> bool" where
  "stocked_as_bought db \<longleftrightarrow>
     list_all (\<lambda>m. \<not> truthy (mun_purchaseUnitId m) \<or> mun_purchaseUnitId m = Some (mun_unitId m)) (pdb_materialUnits db)"

definition purchases_ok :: "purchase_db \<Rightarrow> bool" where
  "purchases_ok db \<longleftrightarrow> levels_unique (pdb_stock db) \<and> distinct (map pul_id (pdb_lines db)) \<and>
     list_all (\<lambda>i. i < pdb_next db) (map pul_id (pdb_lines db)) \<and>
     list_all (\<lambda>d. rcd_purchaseOrderLineId d \<in> set (map pul_id (pdb_lines db))) (pdb_discrepancies db) \<and> stocked_as_bought db"

lemma unchanged_quantity:
  assumes "stocked_as_bought db"
  shows "toStockQuantity db' (units_of db mat) q = Inr q"
proof (cases "find_row (\<lambda>m. mun_materialId m = mat) (pdb_materialUnits db)")
  case (Some m)
  then have "m \<in> set (pdb_materialUnits db)" using find_row_SomeD by fastforce
  then show ?thesis using assms Some by (auto simp: stocked_as_bought_def list_all_iff toStockQuantity_def units_of_def)
qed (simp add: toStockQuantity_def units_of_def truthy_def)

lemma line_material_add: "line_material i (add_received l q db) = line_material i db"
proof -
  have "find_row (\<lambda>r. pul_id r = i) (pdb_lines (add_received l q db)) =
      (if i = l then map_option (\<lambda>r. r\<lparr>pul_quantityReceived := pul_quantityReceived r + q\<rparr>)
         (find_row (\<lambda>r. pul_id r = i) (pdb_lines db)) else find_row (\<lambda>r. pul_id r = i) (pdb_lines db))"
    unfolding add_received_def by (simp add: find_row_update [of pul_id])
  then show ?thesis by (simp add: line_material_def option.map_comp o_def)
qed

lemma received_total_add:
  assumes "distinct (map pul_id (pdb_lines db))" and "line_material l db = Some mat"
  shows "received_total m (add_received l q db) = received_total m db + (if m = mat then q else 0)"
proof -
  from assms(2) obtain r where r: "find_row (\<lambda>x. pul_id x = l) (pdb_lines db) = Some r" "pul_materialId r = mat"
    by (auto simp: line_material_def)
  show ?thesis
    unfolding received_total_def add_received_def using r(2)
    by (simp add: sum_update_rows [OF assms(1) r(1), where d = "if m = mat then q else 0"])
qed

lemma damaged_total_flag:
  assumes "line_material l db = Some mat"
  shows "damaged_total m (flag_discrepancies now c i l ds db) =
    damaged_total m db + (if m = mat then (\<Sum>d \<leftarrow> ds. if dc_type d = Damaged_goods then dc_quantity d else 0) else 0)"
proof -
  obtain new where new: "pdb_discrepancies (flag_discrepancies now c i l ds db) = pdb_discrepancies db @ new"
    "map (\<lambda>d. (rcd_purchaseOrderLineId d, rcd_type d, rcd_quantity d)) new = map (\<lambda>d. (l, dc_type d, dc_quantity d)) ds"
    using flag_rows [of now c i l ds db] by blast
  have "(\<Sum>d \<leftarrow> new. if rcd_type d = Damaged_goods \<and> line_material (rcd_purchaseOrderLineId d) db = Some m then rcd_quantity d else 0) =
    (\<Sum>t \<leftarrow> map (\<lambda>d. (rcd_purchaseOrderLineId d, rcd_type d, rcd_quantity d)) new.
       if fst (snd t) = Damaged_goods \<and> line_material (fst t) db = Some m then snd (snd t) else 0)"
    by (simp add: o_def cong: if_cong)
  also have "\<dots> = (if m = mat then (\<Sum>d \<leftarrow> ds. if dc_type d = Damaged_goods then dc_quantity d else 0) else 0)"
    unfolding new(2) by (auto simp: o_def assms cong: if_cong)
  finally show ?thesis by (simp add: damaged_total_def new(1) line_material_def)
qed

lemma damage_reported:
  "(\<Sum>d \<leftarrow> classifyReceivingLine ordered prev q damaged kind. if dc_type d = Damaged_goods then dc_quantity d else 0) = damaged"
  if "on_grid 100 damaged" "0 \<le> damaged" "kind \<noteq> Some Damaged_goods" for damaged :: number
  using that by (cases kind) (auto simp: classifyReceivingLine_def Let_def)

subsection \<open>A shipment keeps the account\<close>

definition valid_shipment :: "shipment_line \<Rightarrow> bool" where
  "valid_shipment x \<longleftrightarrow> 0 \<le> shl_quantityReceived x \<and> 0 \<le> damaged_of x \<and> on_grid 100 (damaged_of x) \<and>
     shl_shortfallType x \<in> {None, Some Short_ship, Some Backorder}"

definition kept_account :: "uid \<Rightarrow> purchase_db \<Rightarrow> purchase_db \<Rightarrow> bool" where
  "kept_account m db0 db \<longleftrightarrow> purchases_ok db \<and> balance m db = balance m db0 \<and>
     (\<forall>i. line_material i db = line_material i db0) \<and> pdb_materialUnits db = pdb_materialUnits db0"

lemma post_receipt_account:
  assumes "post_receipt now companyId wh row q db = (Inr (), db')" and ok: "purchases_ok db"
    and "snd row = units_of db0 mat" and "stocked_as_bought db0"
  shows "purchases_ok db' \<and> pdb_lines db' = pdb_lines db \<and> pdb_discrepancies db' = pdb_discrepancies db \<and>
    pdb_orders db' = pdb_orders db \<and> pdb_materialUnits db' = pdb_materialUnits db \<and> pdb_next db' = pdb_next db \<and>
    total_on_hand m (pdb_stock db') = total_on_hand m (pdb_stock db) + (if m = pul_materialId (fst row) then q else 0)"
  using assms(1)
proof (cases rule: post_receipt_cases)
  case (posted sq mv st)
  have "sq = q" using posted(2) unchanged_quantity [OF assms(4)] assms(3) by simp
  then show ?thesis
    using posted(4) ok receipt_total(1) [OF posted(3)] receipt_total(2) [OF posted(3), of m] by (simp add: purchases_ok_def stocked_as_bought_def)
qed simp

lemma shipment_step_account:
  assumes step: "shipment_step now companyId i wh (order_rows i db0) x db = (r, db')"
    and ok: "kept_account m db0 db" and ok0: "purchases_ok db0" and x: "valid_shipment x"
  shows "kept_account m db0 db'"
proof (cases "line_by_id (order_rows i db0) (shl_lineId x)")
  case None
  then show ?thesis using step ok by (simp add: shipment_step_def)
next
  case (Some row)
  then have "row \<in> set (order_rows i db0)" and id: "pul_id (fst row) = shl_lineId x"
    using find_row_SomeD unfolding line_by_id_def by fastforce+
  then have l: "fst row \<in> set (pdb_lines db0)" and u: "snd row = units_of db0 (pul_materialId (fst row))"
    by (auto simp: order_rows_def)
  let ?mat = "pul_materialId (fst row)" and ?l = "shl_lineId x" and ?d = "damaged_of x" and ?q = "shl_quantityReceived x"
  have distinct0: "distinct (map pul_id (pdb_lines db0))" using ok0 by (simp add: purchases_ok_def)
  have mat0: "line_material ?l db0 = Some ?mat"
    using find_row_key [OF distinct0 l id] by (simp add: line_material_def)
  then have mat: "line_material ?l db = Some ?mat" using ok by (simp add: kept_account_def)
  have same: "stocked_as_bought db0" using ok0 by (simp add: purchases_ok_def)
  let ?ds = "classifyReceivingLine (pul_quantity (fst row)) (pul_quantityReceived (fst row)) ?q ?d (shl_shortfallType x)"
  let ?post = "if 0 < ?q - ?d then post_receipt now companyId wh row (?q - ?d) db else (Inr (), db)"
  consider (damaged) "?q < ?d" | (failed) e where "\<not> ?q < ?d" "?post = (Inl e, db)"
    | (posted) db1 where "\<not> ?q < ?d" "?post = (Inr (), db1)"
    by (cases "?q < ?d"; cases "0 < ?q - ?d"; cases "post_receipt now companyId wh row (?q - ?d) db")
      (auto elim: post_receipt_cases)
  then show ?thesis
  proof cases
    case damaged
    then show ?thesis using step ok Some by (simp add: shipment_step_def)
  next
    case failed
    then show ?thesis using step ok Some by (simp add: shipment_step_def Let_def)
  next
    case posted
    then have db': "db' = add_received ?l ?q (flag_discrepancies now companyId i ?l ?ds db1)"
      using step Some by (simp add: shipment_step_def Let_def)
    have okdb: "purchases_ok db" using ok by (simp add: kept_account_def)
    have db1: "purchases_ok db1 \<and> pdb_lines db1 = pdb_lines db \<and> pdb_discrepancies db1 = pdb_discrepancies db \<and>
      pdb_materialUnits db1 = pdb_materialUnits db \<and>
      total_on_hand m (pdb_stock db1) = total_on_hand m (pdb_stock db) + (if m = ?mat then ?q - ?d else 0)"
      using posted post_receipt_account [OF _ okdb u same, where m = m] okdb
      by (auto split: if_splits)
    then have lm: "line_material j db1 = line_material j db" for j by (simp add: line_material_def)
    let ?f = "flag_discrepancies now companyId i ?l ?ds db1"
    have dmg: "(\<Sum>d \<leftarrow> ?ds. if dc_type d = Damaged_goods then dc_quantity d else 0) = ?d"
      using x by (intro damage_reported) (auto simp: valid_shipment_def)
    have distinct1: "distinct (map pul_id (pdb_lines ?f))"
      using db1 okdb unfolding purchases_ok_def flag_frame by argo
    have "line_material ?l ?f = Some ?mat" using lm mat by (simp add: line_material_def)
    then have rec: "received_total m db' = received_total m ?f + (if m = ?mat then ?q else 0)"
      unfolding db' by (rule received_total_add [OF distinct1])
    have lm': "line_material j db' = line_material j db" for j
      using lm by (simp add: db' line_material_add) (simp add: line_material_def)
    have "damaged_total m db' = damaged_total m ?f"
      by (simp add: damaged_total_def db' line_material_add)
    also have "\<dots> = damaged_total m db1 + (if m = ?mat then ?d else 0)"
      using damaged_total_flag [of ?l db1 ?mat m now companyId i ?ds] lm mat dmg by simp
    also have "damaged_total m db1 = damaged_total m db" using db1 lm by (simp add: damaged_total_def)
    finally have dam: "damaged_total m db' = damaged_total m db + (if m = ?mat then ?d else 0)" .
    have "received_total m ?f = received_total m db" using db1 by (simp add: received_total_def)
    then have bal: "balance m db' = balance m db"
      using rec dam db1 by (simp add: balance_def db')
    obtain new where new: "pdb_discrepancies ?f = pdb_discrepancies db1 @ new"
      "map (\<lambda>d. (rcd_purchaseOrderLineId d, rcd_type d, rcd_quantity d)) new = map (\<lambda>d. (?l, dc_type d, dc_quantity d)) ?ds"
      using flag_rows [of now companyId i ?l ?ds db1] by blast
    have "rcd_purchaseOrderLineId d = ?l" if "d \<in> set new" for d
      using that arg_cong [OF new(2), of set] by (force simp: image_iff)
    moreover have "?l \<in> set (map pul_id (pdb_lines db1))"
      using mat db1 find_row_SomeD by (force simp: line_material_def)
    ultimately have "purchases_ok db'"
      using db1 new(1) unfolding purchases_ok_def db'
      by (auto simp: list_all_iff stocked_as_bought_def trans_less_add1 simp del: set_map simp flip: set_map)
    then show ?thesis using ok bal lm' db1 by (simp add: kept_account_def db')
  qed
qed

lemma kept_account_trans: "kept_account m a b \<Longrightarrow> kept_account m b c \<Longrightarrow> kept_account m a c"
  by (simp add: kept_account_def)

lemma set_order_account: "kept_account m db0 (set_order i st t db) \<longleftrightarrow> kept_account m db0 db"
  by (simp add: kept_account_def purchases_ok_def balance_def damaged_total_def received_total_def line_material_def
      stocked_as_bought_def)

lemma receiveShipment_account:
  assumes "receiveShipment id now companyId i wh lines db = (r, db')" and ok: "purchases_ok db"
    and x: "list_all valid_shipment lines"
  shows "kept_account m db db'"
proof -
  have refl: "kept_account m db db" using ok by (simp add: kept_account_def)
  let ?step = "shipment_step now companyId i wh (order_rows i db)"
  consider "db' = db" | s db1 where "each_step ?step lines db = (s, db1)"
    "db' = db1 \<or> (\<exists>st t. db' = set_order i st t db1)"
    using assms(1) by (cases "each_step ?step lines db")
      (auto simp: receiveShipment_def find_order_def Let_def split: option.splits if_splits sum.splits)
  then show ?thesis
  proof cases
    case 1
    then show ?thesis using refl by simp
  next
    case 2
    have "kept_account m db db1"
      using _ refl 2(1)
    proof (rule each_step_invariant)
      fix y s r s'
      assume "y \<in> set lines" "kept_account m db s" "?step y s = (r, s')"
      then show "kept_account m db s'" using shipment_step_account ok x by (auto simp: list_all_iff)
    qed
    then show ?thesis using 2(2) set_order_account by auto
  qed
qed

lemma order_lines_shape:
  "map pul_id (order_lines_from po n ls) = [n..<n + length ls]"
  "x \<in> set (order_lines_from po n ls) \<Longrightarrow> pul_quantityReceived x = 0 \<and> pul_purchaseOrderId x = po"
proof (induction ls arbitrary: n)
  case (Cons l ls)
  {
    case 1
    then show ?case using Cons.IH(1) [of "Suc n"] upt_conv_Cons [of n "Suc (n + length ls)"] by (simp del: upt_Suc)
  next
    case 2
    then show ?case using Cons.IH(2) [of "Suc n"] by auto
  }
qed simp_all

lemma create_order_account:
  assumes "create_order now companyId s e lines db = Inr (po, db')" and ok: "purchases_ok db"
  shows "purchases_ok db' \<and> balance m db' = balance m db"
proof -
  let ?new = "order_lines_from (pdb_next db) (Suc (pdb_next db)) lines"
  obtain po' where db': "db' = db\<lparr>pdb_orders := pdb_orders db @ [po'], pdb_lines := pdb_lines db @ ?new,
      pdb_next := pdb_next db + 1 + length lines\<rparr>"
    using assms(1) by (auto simp: create_order_def Let_def split: if_splits)
  have ids: "map pul_id ?new = [Suc (pdb_next db)..<Suc (pdb_next db) + length lines]" by (rule order_lines_shape)
  have old: "i < pdb_next db" if "i \<in> set (map pul_id (pdb_lines db))" for i
    using ok that by (auto simp: purchases_ok_def list_all_iff)
  have new: "Suc (pdb_next db) \<le> i \<and> i < pdb_next db + 1 + length lines" if "i \<in> set (map pul_id ?new)" for i
    using that unfolding ids by auto
  have "distinct (map pul_id (pdb_lines db'))"
    using ok old new by (fastforce simp: db' purchases_ok_def ids simp del: set_map)
  moreover have "list_all (\<lambda>i. i < pdb_next db') (map pul_id (pdb_lines db'))"
    using old new by (fastforce simp: db' list_all_iff)
  moreover have "list_all (\<lambda>d. rcd_purchaseOrderLineId d \<in> set (map pul_id (pdb_lines db'))) (pdb_discrepancies db')"
    using ok by (auto simp: db' purchases_ok_def list_all_iff)
  ultimately have "purchases_ok db'" using ok by (simp add: purchases_ok_def db' stocked_as_bought_def)
  moreover have "received_total m db' = received_total m db"
  proof -
    have "(\<Sum>l \<leftarrow> ?new. if pul_materialId l = m then pul_quantityReceived l else 0) = 0"
      using order_lines_shape(2) [of _ "pdb_next db" "Suc (pdb_next db)" lines]
      by (intro sum_list_nonneg_eq_0_iff [THEN iffD2]) auto
    then show ?thesis by (simp add: received_total_def db')
  qed
  moreover have "damaged_total m db' = damaged_total m db"
  proof -
    have "line_material (rcd_purchaseOrderLineId d) db' = line_material (rcd_purchaseOrderLineId d) db"
      if "d \<in> set (pdb_discrepancies db)" for d
    proof -
      have "rcd_purchaseOrderLineId d \<in> set (map pul_id (pdb_lines db))"
        using ok that by (simp add: purchases_ok_def list_all_iff)
      then obtain l where "find_row (\<lambda>l. pul_id l = rcd_purchaseOrderLineId d) (pdb_lines db) = Some l"
        by (cases "find_row (\<lambda>l. pul_id l = rcd_purchaseOrderLineId d) (pdb_lines db)") (auto simp: find_row_None)
      then show ?thesis by (simp add: line_material_def db' find_row_append)
    qed
    then show ?thesis unfolding damaged_total_def by (simp add: db' cong: map_cong)
  qed
  ultimately show ?thesis by (simp add: balance_def db')
qed

lemma resolve_account:
  assumes "resolveDiscrepancy companyId i res notes db = Inr (u, db')" and ok: "purchases_ok db"
  shows "purchases_ok db' \<and> balance m db' = balance m db"
proof -
  obtain f where db': "db' = db\<lparr>pdb_discrepancies := map f (pdb_discrepancies db)\<rparr>"
    and f: "\<And>d. rcd_type (f d) = rcd_type d \<and> rcd_quantity (f d) = rcd_quantity d \<and>
      rcd_purchaseOrderLineId (f d) = rcd_purchaseOrderLineId d"
    using assms(1) unfolding resolveDiscrepancy_def update_rows_def by (fastforce split: option.splits)
  have "line_material j db' = line_material j db" for j by (simp add: line_material_def db')
  then show ?thesis using ok f
    by (simp add: purchases_ok_def balance_def damaged_total_def received_total_def db' list_all_iff o_def stocked_as_bought_def
        cong: if_cong)
qed

inductive delivery_step :: "purchase_db \<Rightarrow> purchase_db \<Rightarrow> bool" where
  ordered: "create_order now companyId s e ls db = Inr (po, db') \<Longrightarrow> delivery_step db db'"
| delivered: "receiveShipment id now companyId i wh xs db = (r, db') \<Longrightarrow> list_all valid_shipment xs \<Longrightarrow> delivery_step db db'"
| resolved: "resolveDiscrepancy companyId i res notes db = Inr (u, db') \<Longrightarrow> delivery_step db db'"

definition account_is :: "uid \<Rightarrow> number \<Rightarrow> purchase_db \<Rightarrow> bool" where
  "account_is m b db \<longleftrightarrow> purchases_ok db \<and> balance m db = b"

lemma account_step: "account_is m b db \<Longrightarrow> delivery_step db db' \<Longrightarrow> account_is m b db'"
proof (erule delivery_step.cases)
qed (auto simp: account_is_def kept_account_def dest: create_order_account resolve_account receiveShipment_account)

interpretation deliveries: transition_system "account_is m b" delivery_step "account_is m b"
  for m b
  by unfold_locales (blast intro: account_step)+


text \<open>Ten metres of pipe and four bags of cement are ordered; the pipe is stocked as it is bought.\<close>

definition example_purchases :: purchase_db where
  "example_purchases =
     \<lparr>pdb_stock = example_stock Weighted_average, pdb_suppliers = [\<lparr>spl_id = 1, spl_companyId = 7\<rparr>],
      pdb_materialUnits = [\<lparr>mun_materialId = 20, mun_unitId = ''m'', mun_purchaseUnitId = None\<rparr>],
      pdb_units = [], pdb_orders = [], pdb_lines = [], pdb_discrepancies = [], pdb_next = 50\<rparr>"

definition order_of :: "order_line_input list \<Rightarrow> purchase_db" where
  "order_of ls = (case create_order 1 7 1 None ls example_purchases of Inr (_, db) \<Rightarrow> db | Inl _ \<Rightarrow> example_purchases)"

definition pipe_order :: purchase_db where
  "pipe_order = order_of [\<lparr>oli_materialId = 20, oli_quantity = 10, oli_unitPrice = 3\<rparr>]"

definition delivery :: "number \<Rightarrow> number \<Rightarrow> shipment_line" where
  "delivery q damaged = \<lparr>shl_lineId = 51, shl_quantityReceived = q, shl_quantityDamaged = Some damaged, shl_shortfallType = None\<rparr>"

abbreviation deliver :: "shipment_line list \<Rightarrow> purchase_db \<Rightarrow> purchase_db" where
  "deliver xs db \<equiv> snd (receiveShipment id 2 7 50 10 xs db)"


subsection \<open>What receiving gets wrong\<close>

text \<open>Six of ten metres came; \<open>receive\<close> posts all ten again.\<close>

lemma receive_after_partial_counts_twice:
  "on_hand 10 20 (pdb_stock (snd (receive_order id 3 7 50 10 (deliver [delivery 6 0] pipe_order)))) =
     on_hand 10 20 (pdb_stock pipe_order) + 16"
  by code_simp

text \<open>The same line twice in one shipment: twenty metres for an order of ten, and nothing is reported.\<close>

lemma repeated_line_hides_over_shipment:
  "pdb_discrepancies (deliver [delivery 10 0, delivery 10 0] pipe_order) = []"
  "on_hand 10 20 (pdb_stock (deliver [delivery 10 0, delivery 10 0] pipe_order)) = on_hand 10 20 (pdb_stock pipe_order) + 20"
  by code_simp+

text \<open>All ten metres came damaged: the order is received and takes no replacement.\<close>

lemma damaged_goods_close_the_order:
  "map puo_status (pdb_orders (deliver [delivery 10 10] pipe_order)) = [Fully_received]"
  "fst (receiveShipment id 4 7 50 10 [delivery 10 0] (deliver [delivery 10 10] pipe_order)) =
     Inl (BadRequestException (msg ''Purchase order already fully received''))"
  by code_simp+

text \<open>The cement is lot-tracked and no lot number can be given: every attempt fails after posting the pipe.\<close>

definition mixed_order :: purchase_db where
  "mixed_order = order_of [\<lparr>oli_materialId = 20, oli_quantity = 10, oli_unitPrice = 3\<rparr>,
     \<lparr>oli_materialId = 21, oli_quantity = 4, oli_unitPrice = 9\<rparr>]"

lemma failed_receive_posts_again:
  "isl (fst (receive_order id 3 7 50 10 mixed_order))"
  "on_hand 10 20 (pdb_stock (snd (receive_order id 4 7 50 10 (snd (receive_order id 3 7 50 10 mixed_order))))) =
     on_hand 10 20 (pdb_stock mixed_order) + 20"
  by code_simp+

text \<open>Two requests that both read the order before either writes.\<close>

lemma concurrent_receives_post_twice:
  "on_hand 10 20 (pdb_stock (snd (receive_order (\<lambda>db. snd (receive_order id 3 7 50 10 db)) 3 7 50 10 pipe_order))) =
     on_hand 10 20 (pdb_stock pipe_order) + 20"
  by code_simp

subsection \<open>A received order is closed\<close>

definition lines_of :: "uid \<Rightarrow> purchase_db \<Rightarrow> purchase_line list" where
  "lines_of i db = filter (\<lambda>l. pul_purchaseOrderId l = i) (pdb_lines db)"

definition closed_order :: "purchase_order \<Rightarrow> purchase_line list \<Rightarrow> purchase_db \<Rightarrow> bool" where
  "closed_order po ls db \<longleftrightarrow> po \<in> set (pdb_orders db) \<and> puo_status po = Fully_received \<and> lines_of (puo_id po) db = ls \<and>
     distinct (map puo_id (pdb_orders db)) \<and> list_all (\<lambda>r. puo_id r < pdb_next db) (pdb_orders db) \<and>
     distinct (map pul_id (pdb_lines db))  \<and> list_all (\<lambda>l. pul_id l < pdb_next db) (pdb_lines db)"

inductive purchase_step :: "purchase_db \<Rightarrow> purchase_db \<Rightarrow> bool" where
  ordered: "create_order now companyId s e ls db = Inr (po, db') \<Longrightarrow> purchase_step db db'"
| delivered: "receiveShipment id now companyId i wh xs db = (r, db') \<Longrightarrow> purchase_step db db'"
| received: "receive_order id now companyId i wh db = (r, db') \<Longrightarrow> purchase_step db db'"
| resolved: "resolveDiscrepancy companyId i res notes db = Inr (u, db') \<Longrightarrow> purchase_step db db'"

definition line_keys :: "purchase_db \<Rightarrow> (uid \<times> uid) list" where
  "line_keys db = map (\<lambda>l. (pul_id l, pul_purchaseOrderId l)) (pdb_lines db)"

lemma closed_order_stock [simp]: "closed_order po ls (db\<lparr>pdb_stock := st\<rparr>) = closed_order po ls db"
  by (simp add: closed_order_def lines_of_def)

lemma closed_order_flag: "closed_order po ls db \<Longrightarrow> closed_order po ls (flag_discrepancies now c i l ds db)"
  unfolding closed_order_def by (auto simp: lines_of_def list_all_iff trans_less_add1)

lemma closed_order_add:
  assumes "closed_order po ls db" and "(l, i) \<in> set (line_keys db)" and "i \<noteq> puo_id po"
  shows "closed_order po ls (add_received l q db)"
proof -
  have one: "pul_purchaseOrderId r = i" if "r \<in> set (pdb_lines db)" "pul_id r = l" for r
    using assms(1,2) that by (auto simp: closed_order_def line_keys_def distinct_map dest: inj_onD)
  have "lines_of (puo_id po) (add_received l q db) = lines_of (puo_id po) db"
    unfolding lines_of_def add_received_def update_rows_def using one assms(3)
    by (auto simp: filter_map o_def intro!: map_idI filter_cong)
  moreover have "list_all (\<lambda>r. pul_id r < pdb_next db) (pdb_lines (add_received l q db))"
    using assms(1) by (auto simp: closed_order_def add_received_def list_all_iff all_update_rows)
  ultimately show ?thesis using assms(1) by (simp add: closed_order_def)
qed

lemma closed_order_set:
  assumes "closed_order po ls db" and "i \<noteq> puo_id po"
  shows "closed_order po ls (set_order i st t db)"
proof -
  have "po \<in> set (pdb_orders (set_order i st t db))"
    using assms by (force simp: closed_order_def set_order_def update_rows_def)
  moreover have "map puo_id (pdb_orders (set_order i st t db)) = map puo_id (pdb_orders db)"
    by (simp add: set_order_def map_update_rows)
  ultimately show ?thesis
    using assms(1) unfolding closed_order_def by (auto simp: lines_of_def) (auto simp: set_order_def list_all_iff all_update_rows)
qed

lemma line_keys_frame [simp]:
  "line_keys (db\<lparr>pdb_stock := st\<rparr>) = line_keys db" "line_keys (flag_discrepancies now c i l ds db) = line_keys db"
  "line_keys (add_received l q db) = line_keys db"
  by (simp_all add: line_keys_def add_received_def map_update_rows)

lemma post_receipt_closed:
  assumes "post_receipt now companyId wh row q db = (r, db')"
  shows "closed_order po ls db' = closed_order po ls db \<and> line_keys db' = line_keys db"
  using assms by (cases rule: post_receipt_cases) simp_all

lemma shipment_step_closed:
  assumes step: "shipment_step now companyId i wh (order_rows i db0) x db = (r, db')"
    and ok: "closed_order po ls db" "line_keys db = line_keys db0" and i: "i \<noteq> puo_id po"
  shows "closed_order po ls db' \<and> line_keys db' = line_keys db0"
proof (cases "line_by_id (order_rows i db0) (shl_lineId x)")
  case None
  then show ?thesis using step ok by (simp add: shipment_step_def)
next
  case (Some row)
  then have "row \<in> set (order_rows i db0)" and "pul_id (fst row) = shl_lineId x"
    using find_row_SomeD unfolding line_by_id_def by fastforce+
  then have "(shl_lineId x, i) \<in> set (line_keys db0)"
    by (force simp: order_rows_def line_keys_def image_iff)
  then have key: "(shl_lineId x, i) \<in> set (line_keys db)" by (simp add: ok(2))
  let ?q = "shl_quantityReceived x - damaged_of x"
  let ?post = "if 0 < ?q then post_receipt now companyId wh row ?q db else (Inr (), db)"
  obtain s db1 where post: "?post = (s, db1)" by fastforce
  have db1: "closed_order po ls db1" "line_keys db1 = line_keys db0"
    using post ok post_receipt_closed [of now companyId wh row ?q db s db1 po ls] by (auto split: if_splits)
  show ?thesis
  proof (cases "shl_quantityReceived x < damaged_of x \<or> isl s")
    case True
    then show ?thesis using step Some ok db1 post by (auto simp: shipment_step_def Let_def isl_def split: if_splits)
  next
    case False
    then have "\<exists>ds. db' = add_received (shl_lineId x) (shl_quantityReceived x) (flag_discrepancies now companyId i (shl_lineId x) ds db1)"
      using step Some post by (cases s) (auto simp: shipment_step_def Let_def)
    then show ?thesis
      using closed_order_add [OF closed_order_flag [OF db1(1)] _ i] db1(2) key ok(2) by auto
  qed
qed

lemma find_closed:
  assumes "closed_order po ls db" and "find_order companyId (puo_id po) db = Inr (po', rows)"
  shows "po' = po"
proof -
  have "po' \<in> set (pdb_orders db)" "puo_id po' = puo_id po"
    using assms(2) by (auto simp: find_order_def split: option.splits dest: find_row_SomeD)
  then show ?thesis using assms(1) by (auto simp: closed_order_def distinct_map dest: inj_onD)
qed

lemma closed_order_refuses:
  assumes "closed_order po ls db"
  shows "snd (receiveShipment id now companyId (puo_id po) wh xs db) = db"
    and "snd (receive_order id now companyId (puo_id po) wh db) = db"
    and "isl (fst (receiveShipment id now companyId (puo_id po) wh xs db))"
    and "isl (fst (receive_order id now companyId (puo_id po) wh db))"
proof -
  have st: "puo_status po = Fully_received" using assms by (simp add: closed_order_def)
  show "snd (receiveShipment id now companyId (puo_id po) wh xs db) = db"
    "snd (receive_order id now companyId (puo_id po) wh db) = db"
    "isl (fst (receiveShipment id now companyId (puo_id po) wh xs db))"
    "isl (fst (receive_order id now companyId (puo_id po) wh db))"
    using find_closed [OF assms, of companyId] st
    by (cases "find_order companyId (puo_id po) db"; force simp: receiveShipment_def receive_order_def)+
qed

lemma receiveShipment_closed:
  assumes run: "receiveShipment id now companyId i wh xs db = (r, db')" and ok: "closed_order po ls db"
  shows "closed_order po ls db'"
proof (cases "i = puo_id po")
  case True
  then show ?thesis using closed_order_refuses(1) [OF ok, of now companyId wh xs] run ok by simp
next
  case False
  let ?step = "shipment_step now companyId i wh (order_rows i db)"
  consider "db' = db" | s db1 where "each_step ?step xs db = (s, db1)"
    "db' = db1 \<or> (\<exists>st t. db' = set_order i st t db1)"
    using run by (cases "each_step ?step xs db")
      (auto simp: receiveShipment_def find_order_def Let_def split: option.splits if_splits sum.splits)
  then show ?thesis
  proof cases
    case 1
    then show ?thesis using ok by simp
  next
    case 2
    have "closed_order po ls db1 \<and> line_keys db1 = line_keys db"
      using _ _ 2(1)
    proof (rule each_step_invariant)
      show "closed_order po ls db \<and> line_keys db = line_keys db" using ok by simp
    next
      fix y s r s'
      assume "closed_order po ls s \<and> line_keys s = line_keys db" "?step y s = (r, s')"
      then show "closed_order po ls s' \<and> line_keys s' = line_keys db" using shipment_step_closed [OF _ _ _ False] by blast
    qed
    then show ?thesis using 2(2) closed_order_set [OF _ False] by auto
  qed
qed

lemma receive_order_closed:
  assumes run: "receive_order id now companyId i wh db = (r, db')" and ok: "closed_order po ls db"
  shows "closed_order po ls db'"
proof (cases "i = puo_id po")
  case True
  then show ?thesis using closed_order_refuses(2) [OF ok, of now companyId wh] run ok by simp
next
  case False
  let ?step = "\<lambda>row. post_receipt now companyId wh row (pul_quantity (fst row))"
  consider "db' = db" | s db1 where "each_step ?step (order_rows i db) db = (s, db1)"
    "db' = db1 \<or> (\<exists>st t. db' = set_order i st t db1)"
    using run by (cases "each_step ?step (order_rows i db) db")
      (auto simp: receive_order_def find_order_def split: option.splits if_splits sum.splits)
  then show ?thesis
  proof cases
    case 1
    then show ?thesis using ok by simp
  next
    case 2
    have "closed_order po ls db1"
      using _ ok 2(1)
    proof (rule each_step_invariant)
      fix row s r s'
      assume "closed_order po ls s" "?step row s = (r, s')"
      then show "closed_order po ls s'" using post_receipt_closed by blast
    qed
    then show ?thesis using 2(2) closed_order_set [OF _ False] by auto
  qed
qed

lemma create_order_closed:
  assumes "create_order now companyId s e lines db = Inr (r, db')" and ok: "closed_order po ls db"
  shows "closed_order po ls db'"
proof -
  let ?new = "order_lines_from (pdb_next db) (Suc (pdb_next db)) lines"
  obtain r' where db': "db' = db\<lparr>pdb_orders := pdb_orders db @ [r'], pdb_lines := pdb_lines db @ ?new,
      pdb_next := pdb_next db + 1 + length lines\<rparr>" and r': "puo_id r' = pdb_next db"
    using assms(1) by (auto simp: create_order_def Let_def split: if_splits)
  have ids: "map pul_id ?new = [Suc (pdb_next db)..<Suc (pdb_next db) + length lines]" by (rule order_lines_shape)
  have new: "Suc (pdb_next db) \<le> pul_id x \<and> pul_id x < pdb_next db + 1 + length lines \<and> pul_purchaseOrderId x = pdb_next db"
    if x: "x \<in> set ?new" for x
  proof -
    have "pul_id x \<in> set (map pul_id ?new)" using x by simp
    then show ?thesis using order_lines_shape(2) [OF x] unfolding ids by auto
  qed
  have old: "puo_id x < pdb_next db" if "x \<in> set (pdb_orders db)" for x
    using that ok by (auto simp: closed_order_def list_all_iff)
  have oldl: "pul_id x < pdb_next db" if "x \<in> set (pdb_lines db)" for x
    using that ok by (auto simp: closed_order_def list_all_iff)
  have po: "po \<in> set (pdb_orders db)" using ok by (simp add: closed_order_def)
  have "lines_of (puo_id po) db' = lines_of (puo_id po) db"
    using new old [OF po] by (fastforce simp: lines_of_def db' filter_empty_conv)
  moreover have "distinct (map puo_id (pdb_orders db'))" using ok old r' by (fastforce simp: db' closed_order_def)
  moreover have "distinct (map pul_id (pdb_lines db'))"
    using ok oldl by (fastforce simp: db' closed_order_def ids dest: new)
  moreover have "list_all (\<lambda>x. puo_id x < pdb_next db') (pdb_orders db')"
    "list_all (\<lambda>x. pul_id x < pdb_next db') (pdb_lines db')"
    using old oldl new r' by (fastforce simp: db' list_all_iff)+
  ultimately show ?thesis using ok by (simp add: closed_order_def db')
qed

lemma closed_step: "closed_order po ls db \<Longrightarrow> purchase_step db db' \<Longrightarrow> closed_order po ls db'"
proof (erule purchase_step.cases)
  fix companyId i res nts dba u dbb
  assume "closed_order po ls db" "db = dba" "db' = dbb" "resolveDiscrepancy companyId i res nts dba = Inr (u, dbb)"
  then show "closed_order po ls db'"
    by (auto simp: resolveDiscrepancy_def closed_order_def lines_of_def split: option.splits)
qed (auto intro: create_order_closed receiveShipment_closed receive_order_closed)

interpretation settled: transition_system "closed_order po ls" purchase_step "closed_order po ls"
  for po ls
  by unfold_locales (blast intro: closed_step)+

text \<open>A received order is closed: whatever is ordered, delivered or settled afterwards, its row and its
  lines stay as they are, and receiving it again, either way, is refused and posts nothing.\<close>

theorem received_order_stays_closed:
  assumes "closed_order po ls db0" and "purchase_step\<^sup>*\<^sup>* db0 db"
  shows "po \<in> set (pdb_orders db) \<and> lines_of (puo_id po) db = ls \<and>
    (\<exists>e. receiveShipment id now companyId (puo_id po) wh xs db = (Inl e, db)) \<and>
    (\<exists>e. receive_order id now companyId (puo_id po) wh db = (Inl e, db))"
proof -
  have c: "closed_order po ls db" using settled.inv_reachable [OF assms] .
  have "x = (Inl (projl (fst x)), db)" if "snd x = db" "isl (fst x)" for x :: "(app_error + unit) \<times> purchase_db"
    using that by (cases x) auto
  then show ?thesis using c closed_order_refuses [OF c] unfolding closed_order_def by blast
qed

lemma received_order_stays_closed_witness:
  "\<exists>e. receive_order id 9 7 50 10 (deliver [delivery 1 0] (deliver [delivery 10 0] pipe_order)) =
     (Inl e, deliver [delivery 1 0] (deliver [delivery 10 0] pipe_order))"
proof -
  let ?db0 = "deliver [delivery 10 0] pipe_order"
  let ?po = "hd (pdb_orders ?db0)"
  have c: "closed_order ?po (lines_of 50 ?db0) ?db0" by code_simp
  have i: "puo_id ?po = 50" by code_simp
  have "purchase_step ?db0 (deliver [delivery 1 0] ?db0)"
    by (rule purchase_step.delivered [OF prod.collapse [symmetric]])
  then show ?thesis using received_order_stays_closed [OF c, where companyId = 7 and wh = 10 and now = 9] i by auto
qed

end
