(* ===== verification/Spec2Isabelle.thy ===== *)
theory Spec2Isabelle
  imports
    Stock_Laws Stock_Layers Stock_Transfers Stock_Counts Stock_Kits Stock_Reservations
    Purchasing Gobd Finance_Calc Invoices Invoice_Laws Invoice_Money Invoice_Life
    Formula Formula_Laws
    Estimate_Calc Estimates_DB Estimates Estimate_Client Estimate_Laws Estimate_Approval Estimate_Variants
    Change_Orders Change_Order_Laws Change_Order_Life Client_Signoff
    Critical_Path Critical_Path_Laws Tasks Task_Laws Task_Plans
    Permissions Permission_Laws Rate_Limiter Accounts Signing_In Sign_In_Laws
    Project_Access Project_Path JS_Text Net_Addresses Net_Laws
    Outbox Outbox_Laws Outbox_Races Secret_Box
    Offline_Queue Offline_Laws Worker_Fields Request_Guards Request_Laws
    Purchase_Orders Purchase_Laws
begin

text \<open>
  \<^bold>\<open>Cantero: a model of the business core of the API.\<close>

  Cantero is a construction-management system. Its API (\<open>src/apps/api/src\<close>, NestJS services over a
  relational database reached through Prisma) holds the logic that moves stock and money; this
  library models that part and proves what makes it correct. The web, mobile and desktop
  applications, the e-mail, PDF and storage adapters and the clients of external services are not
  modelled.

  \<^bold>\<open>How the model stands to the code.\<close>
  \<^item> A service's tables are the fields of a record, each the list of its rows in insertion order;
    \<open>findFirst\<close>, \<open>update\<close> and \<open>upsert\<close> are \<open>find_row\<close>, \<open>update_rows\<close> and \<open>upsert_row\<close> of theory Prelude.
    Row ids are numbers drawn from a counter (the code draws UUIDs); two rows never share one.
  \<^item> A \<open>number\<close> and a \<open>Prisma.Decimal\<close> are exact rationals. The rounding the code writes
    (\<open>Math.round((n + Number.EPSILON) * 100) / 100\<close>) is written out; the rounding of IEEE arithmetic
    and of a \<open>Decimal\<close> column of fixed scale is not modelled, and where a theorem needs values a
    column can hold it says so (\<open>on_grid\<close>).
  \<^item> An exception is a value of \<open>app_error\<close>. An operation that runs in one transaction returns
    \<open>app_error + 'a \<times> db\<close>: an error leaves no change. An operation with several transactions
    returns its result beside the database it leaves, and where other requests can run between two
    of its steps they are an argument (\<open>interference\<close>), so that a theorem can say for which of them
    it holds. \<open>runSerializable\<close> is one transaction.
  \<^item> \<open>new Date()\<close> and \<open>Date.now()\<close> are arguments; dates are milliseconds. Audit log, mail and PDF calls
    change nothing the model reads and are left out; the outbox and the GoBD journal are in it.
  \<^item> Dashes in messages are written as hyphens.

  \<^bold>\<open>Theories.\<close>
  \<^item> \<open>Prelude\<close>: numbers and rounding, errors, tables, stable sorting, the locale
    \<open>transition_system\<close>.
  \<^item> \<open>Costing\<close> (\<open>materials/inventory-costing.ts\<close>, \<open>lot-tracking.ts\<close>, \<open>serial-units.ts\<close>): FIFO layers,
    moving average, first-expiry-first lots, serial units. The two consumption loops are instances
    of the locale \<open>greedy_consumer\<close>, whose laws give what is consumed, what is short and what is
    left.
  \<^item> \<open>Stock_DB\<close>, \<open>Stock\<close> (\<open>materials/stock.service.ts\<close>): tables and every operation of the stock
    service. \<open>Stock_Laws\<close> shows which tables each part of a movement touches (locales
    \<open>costing_step\<close> and \<open>tracking_step\<close>) and that movements post, and transfers conserve, exactly the
    quantity asked for. \<open>Stock_Layers\<close> shows that FIFO layers are relieved and carried over by what
    was consumed.
  \<^item> \<open>Stock_Transfers\<close>, \<open>Stock_Counts\<close>, \<open>Stock_Kits\<close>, \<open>Stock_Reservations\<close>: the services of the same
    names, on top of \<open>Stock\<close>. Stock in transit is accounted for over every sequence of operations;
    counts, kits and reservations do what they say, and a failed count is shown not to be undone.
  \<^item> \<open>Purchasing\<close> (\<open>unit-conversion.ts\<close>, \<open>receiving-discrepancy.ts\<close>, \<open>vendor-bill-match.ts\<close>,
    \<open>ap-aging.ts\<close>): conversions round-trip, discrepancies classify, bills match, payables age.
  \<^item> \<open>Gobd\<close> (\<open>common/gobd/gobd-ledger.service.ts\<close>): the hash-chained journal. The digest of the
    serialized text is a parameter; where detecting a change depends on it, the theorem assumes
    that the digest does not collide on the texts at hand.
  \<^item> \<open>Finance_Calc\<close>, \<open>Invoices\<close> (\<open>finance/\<close>): the pure calculations and the invoice service. The locale
    \<open>invoice_creation\<close> of \<open>Invoice_Laws\<close> is the contract of the four callers of
    \<open>createInvoiceWithNumber\<close>; \<open>Invoice_Money\<close> has payments, late fees, retainage and draws, with the
    interleavings of requests that break them; \<open>Invoice_Life\<close> what no sequence of operations can do
    to an invoice.
  \<^item> \<open>Formula\<close> (\<open>estimates/formula.ts\<close> and its callers in \<open>rate-catalog.service.ts\<close>): the formula
    language. \<open>Formula_Laws\<close> shows that the evaluator always returns (its fuel, three steps per token
    and three more, is enough), that it accepts exactly the grammar of its comment and computes an
    expression's value, and what validation at creation guarantees.

  \<^item> \<open>Estimate_Calc\<close> (\<open>estimates/estimate-calc.ts\<close>, \<open>tiered-markup.ts\<close>,
    \<open>change-order-profitability.ts\<close>): pricing, the material list, markups. An estimate's figures are
    those of its rate items and its material list covers its lines.
  \<^item> \<open>Estimates_DB\<close>, \<open>Estimates\<close>, \<open>Estimate_Client\<close> (\<open>estimates/estimates.service.ts\<close> and the reminder
    pass): tables, and every operation of the estimates service; what other requests do between
    reading an estimate and deciding it is the argument \<open>env\<close>. \<open>Estimate_Laws\<close> takes the operations
    apart into their writes and shows the invariant of revisions and approvals over every sequence
    of requests; \<open>Estimate_Approval\<close> has the approval chain, the snapshot an approval takes and the
    difference of revisions; \<open>Estimate_Variants\<close> shows that variants and templates copy the lines.
  \<^item> \<open>Change_Orders\<close> (\<open>estimates/change-orders.service.ts\<close> and its reminder pass): the change order
    service. \<open>Change_Order_Laws\<close> has its invariant and one lemma for every kind of update;
    \<open>Change_Order_Life\<close> the step relation with what no sequence of requests, to either service, can
    do to a change order. \<open>Client_Signoff\<close> states the client's answer as the locale \<open>client_signoff\<close>,
    with the public link and the portal of estimates and the public link of change orders as
    interpretations, and the overlapping answers that break it.

  \<^item> \<open>Critical_Path\<close> (\<open>projects/critical-path.ts\<close>, \<open>schedule-slippage.ts\<close>, \<open>ppc.ts\<close>): the schedule
    calculations. \<open>Critical_Path_Laws\<close> shows that on a plan without a cycle the late dates are the
    latest that keep every dependency, and what the code makes of dependencies other than
    finish-to-start.
  \<^item> \<open>Tasks\<close> (\<open>projects/tasks.service.ts\<close>, \<open>schedule-baseline.service.ts\<close>, \<open>milestones.service.ts\<close>): the
    schedule of a project and every operation on it. \<open>Task_Laws\<close> shows that the cascade of a moved
    task returns (its fuel, one unit per task and one more, is enough), moves tasks only later and
    only downstream, and satisfies the moved task's dependencies; \<open>Task_Plans\<close> that dependencies
    never form a circle, when the whole plan is consistent afterwards, and the plans where it is not.
  \<^item> \<open>Permissions\<close> (\<open>packages/shared/src/permissions.ts\<close>, \<open>report-access.ts\<close>,
    \<open>common/permissions\<close>): capabilities, a company's changes to them and the cache in front of them.
    \<open>Permission_Laws\<close> says exactly who may do what, and that no sequence of changes takes a right
    from the owner. \<open>Rate_Limiter\<close> (\<open>common/rate-limiter\<close>) bounds what passes in a window.
  \<^item> \<open>Accounts\<close>, \<open>Signing_In\<close> (\<open>auth/\<close>, \<open>company/invites.service.ts\<close>, \<open>members.service.ts\<close>,
    \<open>custom-roles.service.ts\<close>, \<open>common/sessions\<close>, \<open>common/guards/jwt-auth.guard.ts\<close>): accounts,
    membership, sessions and every way to sign in. Password hashes, one-time codes and tokens are
    parameters. \<open>Sign_In_Laws\<close>: seats are never oversold, a revoked session stays out, the guard
    reads rights afresh, only the owner makes an admin, and the races the code has.
  \<^item> \<open>Project_Access\<close>, \<open>Project_Path\<close> (\<open>common/project-access\<close>, \<open>common/guards/project-access.guard.ts\<close>):
    who sees which project. The three implementations of the rule agree, the guard refuses every
    hidden project a request names, and the path search over the data model ends with a shortest
    path.
  \<^item> \<open>JS_Text\<close>: what the code uses of JavaScript's strings, numbers and shifts. \<open>Net_Addresses\<close>
    (\<open>common/webhooks/webhook-url.ts\<close>, \<open>common/guards/ip-allowlist.guard.ts\<close>): addresses on 32-bit
    words. \<open>Net_Laws\<close> says exactly which addresses a webhook may reach, also through an IPv6 form,
    and which an allowlist entry admits.
  \<^item> \<open>Outbox\<close> (\<open>common/webhooks/webhooks.service.ts\<close>, \<open>outbox.service.ts\<close>, \<open>outbox.processor.ts\<close>): endpoints
    and the delivery of events to them. \<open>Outbox_Laws\<close>: a poller that runs settles every committed
    event, and delivered means taken by every subscriber. \<open>Outbox_Races\<close> interleaves several pollers,
    requests and crashes as a step relation: no endpoint takes an event twice, and what a crash
    leaves behind.
  \<^item> \<open>Secret_Box\<close> (\<open>common/crypto\<close>): secrets encrypted at rest, their keys and the backfill after a
    rotation. A secret survives a rotation; the backfill ends (its fuel, more than the length of what
    is stored, is enough) and the previous key can be removed after it.
  \<^item> \<open>Offline_Queue\<close> (\<open>common/idempotency\<close>, \<open>apps/web/lib/offline-queue.ts\<close>): the queue of writes made offline
    and the cache of responses behind their keys. In \<open>Offline_Laws\<close> the locale \<open>mutation_channel\<close> is what
    the queue relies on and the server behind a lossy network its interpretation: a write is carried
    out once.
  \<^item> \<open>Worker_Fields\<close> (\<open>common/permissions/worker-fields.interceptor.ts\<close>): what is taken out of every
    response for a member without the right to it, on the tree a response is; nothing hidden is left
    at any depth and everything else stays.
  \<^item> \<open>Request_Guards\<close> (\<open>common/guards\<close>, \<open>company/api-keys.service.ts\<close>, \<open>common/permissions/self-scope.service.ts\<close>):
    the guards of roles, subscriptions and API keys and the scope of one's own records.
    \<open>Request_Laws\<close>: whom the role guard lets through, and that a revoked key never works again.
  \<^item> \<open>Purchase_Orders\<close> (\<open>materials/purchase-orders.service.ts\<close>): orders and the two ways to receive them, on
    top of \<open>Stock\<close>. \<open>Purchase_Laws\<close>: over every sequence of shipments, failed ones included, each unit
    received is on a shelf or in a damage report, and a received order stays closed; what receiving
    twice, in one shipment or at once, posts too much.

  \<^bold>\<open>Bounds.\<close> \<open>createInvoiceWithNumber\<close> tries five times, as the code does; the evaluator's fuel is
  \<open>fuel_for\<close>. Nothing else is bounded.

  \<^bold>\<open>Not modelled.\<close> Names and units joined into listings; the visible rows of \<open>list_invoices\<close> are a
  predicate argument; PDF, XML and CSV output other than the
  DATEV posting rows; the services listed as such in the manifest.
\<close>

end
